(* ===== verification/Prelude.thy ===== *)
theory Prelude
  imports Main "HOL-Library.Word"
begin

text \<open>
  Shared vocabulary of the development: the errno values of the Linux build
  (\<^verbatim>\<open>errno.h\<close> and \<^verbatim>\<open>include/connio.h\<close>), pointers, bytes, and the theory of
  intrusive doubly linked lists that connio re-implements by hand for its event
  queue (\<^verbatim>\<open>queue.c\<close>), its connection, handle and listener lists (\<^verbatim>\<open>connio.c\<close>)
  and its timeout lists (\<^verbatim>\<open>sockunix.c\<close>).  The two list operations are stated
  once, over the link functions \<open>nxt\<close> and \<open>prv\<close>; the components show that
  their C code computes them.
\<close>

section \<open>Collections\<close>

named_theorems evq_defs \<open>definitions of the event queue operations\<close>
named_theorems conn_defs \<open>definitions of the connection level operations\<close>
named_theorems sock_defs \<open>definitions of the socket level operations\<close>
named_theorems frame \<open>fields an operation leaves alone\<close>

section \<open>Basic types\<close>

type_synonym ptr = nat
type_synonym byte = "8 word"
type_synonym errno = int
type_synonym u32 = "32 word"

text \<open>Linux errno values; 0 means no error.\<close>

abbreviation (input) EPERM :: errno where "EPERM \<equiv> 1"
abbreviation (input) EINTR :: errno where "EINTR \<equiv> 4"
abbreviation (input) EIO :: errno where "EIO \<equiv> 5"
abbreviation (input) EWOULDBLOCK :: errno where "EWOULDBLOCK \<equiv> 11"
abbreviation (input) ENOMEM :: errno where "ENOMEM \<equiv> 12"
abbreviation (input) EBUSY :: errno where "EBUSY \<equiv> 16"
abbreviation (input) EINVAL :: errno where "EINVAL \<equiv> 22"
abbreviation (input) EPIPE :: errno where "EPIPE \<equiv> 32"
abbreviation (input) EOVERFLOW :: errno where "EOVERFLOW \<equiv> 75"
abbreviation (input) ENOTSOCK :: errno where "ENOTSOCK \<equiv> 88"
abbreviation (input) EMSGSIZE :: errno where "EMSGSIZE \<equiv> 90"
abbreviation (input) ECONNABORTED :: errno where "ECONNABORTED \<equiv> 103"
abbreviation (input) ECONNRESET :: errno where "ECONNRESET \<equiv> 104"
abbreviation (input) ENOBUFS :: errno where "ENOBUFS \<equiv> 105"
abbreviation (input) ENOTCONN :: errno where "ENOTCONN \<equiv> 107"
abbreviation (input) ESHUTDOWN :: errno where "ESHUTDOWN \<equiv> 108"
abbreviation (input) ETIMEDOUT :: errno where "ETIMEDOUT \<equiv> 110"
abbreviation (input) EALREADY :: errno where "EALREADY \<equiv> 114"
abbreviation (input) EINPROGRESS :: errno where "EINPROGRESS \<equiv> 115"
abbreviation (input) ECANCELED :: errno where "ECANCELED \<equiv> 125"

text \<open>The errno values connio adds.\<close>

abbreviation (input) ECONNCLOSEDBYPEER :: errno where "ECONNCLOSEDBYPEER \<equiv> 777"
abbreviation (input) ECONNIOBUG :: errno where "ECONNIOBUG \<equiv> 778"
abbreviation (input) ECONNIOMODE :: errno where "ECONNIOMODE \<equiv> 779"
abbreviation (input) ECONNIOINIT :: errno where "ECONNIOINIT \<equiv> 780"
abbreviation (input) ECONNIOCBSHORT :: errno where "ECONNIOCBSHORT \<equiv> 781"
abbreviation (input) ECONNIOCBLONG :: errno where "ECONNIOCBLONG \<equiv> 782"
abbreviation (input) ECONNSSLSTART :: errno where "ECONNSSLSTART \<equiv> 783"
abbreviation (input) ECONNALREADYSECURED :: errno where "ECONNALREADYSECURED \<equiv> 784"
abbreviation (input) ECONNMOREDATA :: errno where "ECONNMOREDATA \<equiv> 786"
abbreviation (input) ECONNHANDLESHUTDOWN :: errno where "ECONNHANDLESHUTDOWN \<equiv> 788"

text \<open>\<^verbatim>\<open>SOCKET_ERROR\<close> and \<^verbatim>\<open>SOCKET_INVALID\<close> are both \<open>-1\<close>.\<close>

abbreviation (input) SOCKET_INVALID :: int where "SOCKET_INVALID \<equiv> - 1"
abbreviation (input) SOCKET_ERROR :: int where "SOCKET_ERROR \<equiv> - 1"

section \<open>Doubly linked lists\<close>

text \<open>
  \<open>dseg nxt prv p h xs t n\<close>: following \<open>nxt\<close> from \<open>h\<close> visits exactly \<open>xs\<close> and
  arrives at \<open>n\<close>; following \<open>prv\<close> from \<open>t\<close> visits them backwards and arrives at \<open>p\<close>.
\<close>

fun dseg :: "('a \<Rightarrow> 'a option) \<Rightarrow> ('a \<Rightarrow> 'a option) \<Rightarrow> 'a option \<Rightarrow> 'a option \<Rightarrow> 'a list \<Rightarrow>
    'a option \<Rightarrow> 'a option \<Rightarrow> bool" where
  "dseg nxt prv p h [] t n \<longleftrightarrow> h = n \<and> t = p"
| "dseg nxt prv p h (x # xs) t n \<longleftrightarrow>
     h = Some x \<and> prv x = p \<and> dseg nxt prv (Some x) (nxt x) xs t n"

definition dll :: "('a \<Rightarrow> 'a option) \<Rightarrow> ('a \<Rightarrow> 'a option) \<Rightarrow> 'a option \<Rightarrow> 'a option \<Rightarrow> 'a list \<Rightarrow> bool"
  where "dll nxt prv h t xs \<longleftrightarrow> dseg nxt prv None h xs t None \<and> distinct xs"

lemma dseg_append:
  "dseg nxt prv p h (xs @ ys) t n \<longleftrightarrow>
     (\<exists>k m. dseg nxt prv p h xs k m \<and> dseg nxt prv k m ys t n)"
  by (induction xs arbitrary: p h) auto

lemma dseg_nxt_frame [simp]:
  "x \<notin> set xs \<Longrightarrow> dseg (nxt(x := v)) prv p h xs t n = dseg nxt prv p h xs t n"
  by (induction xs arbitrary: p h) auto

lemma dseg_prv_frame [simp]:
  "x \<notin> set xs \<Longrightarrow> dseg nxt (prv(x := v)) p h xs t n = dseg nxt prv p h xs t n"
  by (induction xs arbitrary: p h) auto

lemma dll_empty [simp]: "dll nxt prv None None []"
  by (simp add: dll_def)

lemma dll_distinct: "dll nxt prv h t xs \<Longrightarrow> distinct xs"
  by (simp add: dll_def)

lemma dll_head: "dll nxt prv h t xs \<Longrightarrow> h = (case xs of [] \<Rightarrow> None | x # _ \<Rightarrow> Some x)"
  by (cases xs) (auto simp: dll_def)

lemma dll_head_None [simp]: "dll nxt prv None t xs \<longleftrightarrow> xs = [] \<and> t = None"
  by (cases xs) (auto simp: dll_def)

lemma dll_tail_None: "dll nxt prv h None xs \<Longrightarrow> xs = []"
  by (cases xs rule: rev_cases) (auto simp: dll_def dseg_append)

text \<open>Two lists read off the same links are the same list.\<close>

lemma dseg_unique:
  "dseg nxt prv p h xs t None \<Longrightarrow> dseg nxt prv p' h ys t' None \<Longrightarrow> xs = ys"
proof (induction xs arbitrary: p p' h ys)
  case Nil
  then show ?case by (cases ys) auto
next
  case (Cons x xs)
  then show ?case by (cases ys) auto
qed

lemma dll_unique: "dll nxt prv h t xs \<Longrightarrow> dll nxt prv h t' ys \<Longrightarrow> xs = ys"
  unfolding dll_def by (blast intro: dseg_unique)

text \<open>Linking a fresh node behind the tail.\<close>

definition dll_push_back where
  "dll_push_back nxt prv h t x =
     ((case t of None \<Rightarrow> nxt(x := None) | Some l \<Rightarrow> (nxt(x := None))(l := Some x)),
      prv(x := t),
      (case t of None \<Rightarrow> Some x | Some _ \<Rightarrow> h), Some x)"

lemma dll_push_back_correct:
  assumes "dll nxt prv h t xs" and "x \<notin> set xs"
    and "dll_push_back nxt prv h t x = (nxt', prv', h', t')"
  shows "dll nxt' prv' h' t' (xs @ [x])"
proof (cases xs rule: rev_cases)
  case Nil
  with assms show ?thesis by (auto simp: dll_def dll_push_back_def)
next
  case (snoc ys y)
  with assms show ?thesis by (auto simp: dll_def dll_push_back_def dseg_append)
qed

text \<open>Unlinking a node from the middle of the list.\<close>

definition dll_unlink where
  "dll_unlink nxt prv h t x =
     ((case prv x of Some p \<Rightarrow> nxt(p := nxt x) | None \<Rightarrow> nxt),
      (case nxt x of Some n \<Rightarrow> prv(n := prv x) | None \<Rightarrow> prv),
      (case prv x of Some p \<Rightarrow> h | None \<Rightarrow> nxt x),
      (case nxt x of Some n \<Rightarrow> t | None \<Rightarrow> prv x))"

lemma dll_unlink_split:
  assumes "dll nxt prv h t (ys @ x # zs)"
    and "dll_unlink nxt prv h t x = (nxt', prv', h', t')"
  shows "dll nxt' prv' h' t' (ys @ zs)"
proof (cases ys rule: rev_cases)
  case Nil
  with assms show ?thesis by (cases zs) (auto simp: dll_def dll_unlink_def)
next
  case (snoc ys' y)
  with assms show ?thesis by (cases zs) (auto simp: dll_def dll_unlink_def dseg_append)
qed

lemma remove1_split: "distinct (ys @ x # zs) \<Longrightarrow> remove1 x (ys @ x # zs) = ys @ zs"
  by (simp add: remove1_append)

lemma dll_unlink_correct:
  assumes "dll nxt prv h t xs" and "x \<in> set xs"
    and "dll_unlink nxt prv h t x = (nxt', prv', h', t')"
  shows "dll nxt' prv' h' t' (remove1 x xs)"
proof -
  obtain ys zs where xs: "xs = ys @ x # zs" using assms(2) by (auto simp: in_set_conv_decomp)
  from dll_distinct [OF assms(1)] have "distinct (ys @ x # zs)" unfolding xs .
  then have "remove1 x xs = ys @ zs" unfolding xs by (rule remove1_split)
  with dll_unlink_split [OF assms(1) [unfolded xs] assms(3)] show ?thesis by simp
qed

lemma dll_frame:
  "x \<notin> set xs \<Longrightarrow> dll (nxt(x := v)) (prv(x := w)) h t xs = dll nxt prv h t xs"
  by (simp add: dll_def)

lemma dll_next:
  assumes "dll nxt prv h t (ys @ x # zs)"
  shows "nxt x = (case zs of [] \<Rightarrow> None | z # _ \<Rightarrow> Some z)"
  using assms by (cases zs) (auto simp: dll_def dseg_append)

lemma dll_last: "dll nxt prv h t xs \<Longrightarrow> t = (if xs = [] then None else Some (last xs))"
  by (cases xs rule: rev_cases) (auto simp: dll_def dseg_append)

lemma dll_no_loop:
  assumes "dll nxt prv h t xs" and "x \<in> set xs"
  shows "nxt x \<noteq> Some x" "prv x \<noteq> Some x"
proof -
  obtain ys zs where "xs = ys @ x # zs" using assms(2) by (auto simp: in_set_conv_decomp)
  with assms(1) show "nxt x \<noteq> Some x" "prv x \<noteq> Some x"
    by (cases zs; cases ys rule: rev_cases; auto simp: dll_def dseg_append)+
qed

lemma dll_cong:
  assumes "\<And>x. x \<in> set xs \<Longrightarrow> nxt x = nxt' x" and "\<And>x. x \<in> set xs \<Longrightarrow> prv x = prv' x"
  shows "dll nxt prv h t xs = dll nxt' prv' h t xs"
proof -
  have "dseg nxt prv p h ys t n = dseg nxt' prv' p h ys t n"
    if "set ys \<subseteq> set xs" for ys p h n
    using that assms by (induction ys arbitrary: p h) auto
  then show ?thesis by (simp add: dll_def)
qed

section \<open>Singly linked lists\<close>

text \<open>\<open>chain nx h xs\<close>: following \<open>nx\<close> from \<open>h\<close> visits exactly \<open>xs\<close>.\<close>

fun chain :: "('a \<Rightarrow> 'a option) \<Rightarrow> 'a option \<Rightarrow> 'a list \<Rightarrow> bool" where
  "chain nx h [] \<longleftrightarrow> h = None"
| "chain nx h (x # xs) \<longleftrightarrow> h = Some x \<and> chain nx (nx x) xs"

lemma chain_frame [simp]: "x \<notin> set xs \<Longrightarrow> chain (nx(x := v)) h xs = chain nx h xs"
  by (induction xs arbitrary: h) auto

lemma dseg_chain: "dseg nx pv p h xs t None \<Longrightarrow> chain nx h xs"
  by (induction xs arbitrary: p h) auto

lemma chain_unique: "chain nx h xs \<Longrightarrow> chain nx h ys \<Longrightarrow> xs = ys"
proof (induction xs arbitrary: h ys)
  case Nil
  then show ?case by (cases ys) auto
next
  case (Cons x xs)
  then show ?case by (cases ys) auto
qed

text \<open>Hanging a node behind the last one.\<close>

lemma chain_snoc:
  assumes "chain nx h xs" "xs \<noteq> []" "distinct xs" "x \<notin> set xs"
  shows "chain (nx(x := None, last xs := Some x)) h (xs @ [x])"
  using assms
proof (induction xs arbitrary: h)
  case Nil
  then show ?case by simp
next
  case (Cons y ys)
  show ?case
  proof (cases "ys = []")
    case True
    with Cons.prems show ?thesis by simp
  next
    case False
    with Cons.prems have "y \<noteq> last ys" by auto
    with Cons False show ?thesis by auto
  qed
qed

end
