(* ===== verification/ConnTypes.thy ===== *)
theory ConnTypes
  imports Prelude
begin

unbundle bit_operations_syntax

text \<open>
  The data model of \<^verbatim>\<open>src/src/conniop.h\<close> and \<^verbatim>\<open>src/include/connio.h\<close>: the
  enumerations, the socket (\<^verbatim>\<open>SOCK\<close>) with its three embedded socket events, the
  connection event (\<^verbatim>\<open>ConnEvent\<close>), the asynchronous transaction and the
  connection (\<^verbatim>\<open>ConnectionPriv\<close>).  Pointers are numbers, a nullable pointer is an
  option.  The type variable \<open>'b\<close> stands for the \<^verbatim>\<open>IOBuffer\<close> of the external
  iobuf library.  The memory of connection events is the field \<open>mem\<close>; events passed
  to \<^verbatim>\<open>MemFree\<close> are recorded in \<open>released\<close>, threads started through
  \<^verbatim>\<open>AThreadBegin\<close> in \<open>started\<close>.
\<close>

section \<open>Enumerations\<close>

datatype ConnEventStatus =
    CONN_EVENT_QUEUED | CONN_EVENT_IN_PROGRESS | CONN_EVENT_PARTIAL | CONN_EVENT_COMPLETE
  | CONN_EVENT_TIMED_OUT | CONN_EVENT_FAILED | CONN_EVENT_KILLED

datatype SocketEventType =
    SOCK_EVENT_TYPE_NONE | SOCK_EVENT_TYPE_LISTEN | SOCK_EVENT_TYPE_READABLE
  | SOCK_EVENT_TYPE_WRITABLE | SOCK_EVENT_TYPE_CONNECT | SOCK_EVENT_TYPE_DISCONNECT

datatype ConnState =
    CONN_STATE_FREE | CONN_STATE_CACHED | CONN_STATE_IDLE | CONN_STATE_SYNCHRONOUS
  | CONN_STATE_ASYNCHRONOUS_CLIENT | CONN_STATE_ASYNCHRONOUS_ENGINE
  | CONN_STATE_ASYNCHRONOUS_ENGINE_COMPLETE | CONN_STATE_SYNCHRONOUS_LISTENER
  | CONN_STATE_ASYNCHRONOUS_LISTENER

datatype ConnEventType =
    CONN_EVENT_ACCEPT | CONN_EVENT_CONNECT | CONN_EVENT_DISCONNECT
  | CONN_EVENT_SSL_ACCEPT | CONN_EVENT_TLS_ACCEPT | CONN_EVENT_SSL_CONNECT
  | CONN_EVENT_TLS_CONNECT | CONN_EVENT_SSL_DISCONNECT
  | CONN_EVENT_READ | CONN_EVENT_READ_COUNT | CONN_EVENT_READ_UNTIL_PATTERN
  | CONN_EVENT_READ_TO_CB | CONN_EVENT_READ_TO_CONN
  | CONN_EVENT_WRITE_FROM_CB | CONN_EVENT_WRITE_FROM_CLIENT_BUFFER | CONN_EVENT_FLUSH

datatype ConnEventClass =
    CONN_EVENT_CLASS_CONNECT | CONN_EVENT_CLASS_RECEIVE | CONN_EVENT_CLASS_SEND

datatype ConnEventMode =
    CONN_EVENT_MODE_SYNCHRONOUS | CONN_EVENT_MODE_SYNCHRONOUS_NON_BLOCKING
  | CONN_EVENT_MODE_ASYNCHRONOUS

datatype ConnIOCBResponse =
    CONN_IOCBR_CONTINUE | CONN_IOCBR_DONE | CONN_IOCBR_NEED_MORE_DATA
  | CONN_IOCBR_NEED_MORE_BUFFER | CONN_IOCBR_ERROR

text \<open>Read flags (\<^verbatim>\<open>dataMode\<close>), socket event flags, handle flags.\<close>

abbreviation (input) CONN_READ_COPY :: u32 where "CONN_READ_COPY \<equiv> 0x02000000"
abbreviation (input) CONN_READ_DELETE :: u32 where "CONN_READ_DELETE \<equiv> 0x04000000"
abbreviation (input) CONN_READ_TERMINATE :: u32 where "CONN_READ_TERMINATE \<equiv> 0x08000000"
abbreviation (input) CONN_READ_INCLUDE_PATTERN :: u32 where "CONN_READ_INCLUDE_PATTERN \<equiv> 0x10000000"
abbreviation (input) CONN_READ_REPLACE_PATTERN :: u32 where "CONN_READ_REPLACE_PATTERN \<equiv> 0x20000000"
abbreviation (input) CONN_READ_PARTIAL_OK :: u32 where "CONN_READ_PARTIAL_OK \<equiv> 0x40000000"

abbreviation (input) FSE_IN_ENGINE :: u32 where "FSE_IN_ENGINE \<equiv> 0x02"
abbreviation (input) FSE_TIMEOUT_PENDING :: u32 where "FSE_TIMEOUT_PENDING \<equiv> 0x04"
abbreviation (input) FSE_LISTENER_KILLED :: u32 where "FSE_LISTENER_KILLED \<equiv> 0x08"
abbreviation (input) FSE_LISTENER_PAUSED :: u32 where "FSE_LISTENER_PAUSED \<equiv> 0x10"
abbreviation (input) FSE_LISTENER_SUSPENDED :: u32 where "FSE_LISTENER_SUSPENDED \<equiv> 0x20"
abbreviation (input) FSE_CANCELED :: u32 where "FSE_CANCELED \<equiv> 0x40"

abbreviation (input) CONN_HANDLE_SSL_CLIENT_ENABLED :: u32 where "CONN_HANDLE_SSL_CLIENT_ENABLED \<equiv> 0x01"
abbreviation (input) CONN_HANDLE_SSL_SERVER_ENABLED :: u32 where "CONN_HANDLE_SSL_SERVER_ENABLED \<equiv> 0x02"
abbreviation (input) CONN_HANDLE_ASYNC_ENABLED :: u32 where "CONN_HANDLE_ASYNC_ENABLED \<equiv> 0x10"
abbreviation (input) CONN_HANDLE_DYN_FLAG_WAIT_FOR_SUBMIT :: u32
  where "CONN_HANDLE_DYN_FLAG_WAIT_FOR_SUBMIT \<equiv> 0x01"

definition has :: "u32 \<Rightarrow> u32 \<Rightarrow> bool" where
  "has flags f \<longleftrightarrow> flags AND f \<noteq> 0"

section \<open>Sockets\<close>

datatype ListenerEvent =
    LISTENER_SUBMITTED | LISTENER_RETURNED | LISTENER_WAITING | LISTENER_STARTED
  | LISTENER_KILLED | LISTENER_STOPPED | LISTENER_SUSPENDED | LISTENER_RESUMED
  | THROTTLING_STOPPED | THROTTLING_UPDATE | THROTTLING_STARTED

record SocketEvent =
  se_type :: SocketEventType
  se_error :: errno
  se_flags :: u32
  se_cbArg :: "ptr option"
  se_linked :: bool  \<comment> \<open>\<^verbatim>\<open>cb.eventFunc\<close> is set\<close>

record AsyncListener =
  throttlingThreshold :: nat
  hasEventCallback :: bool
  inAccept :: int

record SOCK =
  number :: int
  ssl_new :: "ptr option"
  ssl_conn :: "ptr option"
  listener :: "AsyncListener option"
  ev_connect :: SocketEvent
  ev_receive :: SocketEvent
  ev_send :: SocketEvent
  listenerID :: int
  lev_log :: "ListenerEvent list"  \<comment> \<open>calls of the listener event callback\<close>

section \<open>Connection events and connections\<close>

text \<open>
  The union \<^verbatim>\<open>ClientArgs\<close> is flattened: each event type uses its own member.
  \<^verbatim>\<open>clientBuffer.read\<close> is the data still to be read (\<open>cb_read\<close>), what was
  stored through \<^verbatim>\<open>clientBuffer.write\<close> is \<open>cb_written\<close>.
\<close>

record 'b ConnEvent =
  ce_error :: errno
  ce_status :: ConnEventStatus
  ce_transferred :: nat
  arg_start :: "ptr option"       \<comment> \<open>\<^verbatim>\<open>args.buffer.start\<close>\<close>
  arg_pattern :: "byte list"      \<comment> \<open>\<^verbatim>\<open>args.buffer.pattern\<close>\<close>
  arg_cb_count :: nat             \<comment> \<open>\<^verbatim>\<open>args.cb.count\<close>\<close>
  arg_conn_count :: nat           \<comment> \<open>\<^verbatim>\<open>args.conn.count\<close>\<close>
  arg_dst :: "ptr option"         \<comment> \<open>\<^verbatim>\<open>args.addr.dst\<close>\<close>
  arg_src :: "ptr option"         \<comment> \<open>\<^verbatim>\<open>args.addr.src\<close>\<close>
  ce_type :: ConnEventType
  ce_class :: ConnEventClass
  ce_source :: nat                \<comment> \<open>\<^verbatim>\<open>source.file\<close> and \<^verbatim>\<open>source.line\<close>\<close>
  ce_timeOut :: int
  ce_inserted :: bool
  ce_mode :: ConnEventMode
  ce_dataMode :: u32
  cb_remaining :: nat             \<comment> \<open>\<^verbatim>\<open>clientBuffer.remaining\<close>\<close>
  cb_read :: "byte list"
  cb_written :: "byte list"
  cb_terminated :: bool
  ce_ioBuffer :: "'b option"      \<comment> \<open>the send buffer an event owns\<close>
  ce_next :: "ptr option"
  ce_previous :: "ptr option"

record AsyncProblem =
  pr_status :: ConnEventStatus
  pr_error :: errno
  pr_source :: nat

record ConnEventList =
  l_head :: "ptr option"
  l_tail :: "ptr option"
  l_count :: int

record ConnHandleView =
  shuttingDown :: bool
  flags_fixed :: u32
  flags_dynamic :: u32

record 'b conn =
  mem :: "ptr \<Rightarrow> 'b ConnEvent"
  queue :: ConnEventList
  freeList :: "ptr option"
  bytes_sent :: int
  bytes_received :: int
  cl_client :: nat
  problem :: "AsyncProblem option"
  threads :: int
  sslEnabled :: bool
  act_connect :: "ptr option"
  act_send :: "ptr option"
  act_receive :: "ptr option"
  state :: ConnState
  sendBuffer :: "'b option"
  receiveBuffer :: 'b
  sp :: SOCK
  to_connect :: int
  to_disconnect :: int
  to_send :: int
  to_receive :: int
  released :: "ptr list"
  started :: "SocketEventType list"

section \<open>Flag words\<close>

lemma has_zero [simp]: "\<not> has 0 f" "\<not> has f 0"
  by (simp_all add: has_def)

lemma bit_u32: "bit (a :: u32) n \<Longrightarrow> n < 32"
  using bit_imp_le_length [of a n] by simp

lemma has_bits: "has a f \<longleftrightarrow> (\<exists>n. bit a n \<and> bit f n)"
  by (auto simp: has_def bit_eq_iff bit_simps intro: bit_u32)

lemma has_or: "has (a OR b) f \<longleftrightarrow> has a f \<or> has b f"
  by (auto simp: has_bits bit_simps)

lemma has_or_right: "has a (f OR g) \<longleftrightarrow> has a f \<or> has a g"
  by (auto simp: has_bits bit_simps)

lemma has_clear_self [simp]: "\<not> has (a AND NOT f) f"
  by (auto simp: has_bits bit_simps)

lemma has_clear_other: "\<not> has f g \<Longrightarrow> has (a AND NOT g) f \<longleftrightarrow> has a f"
  by (auto simp: has_bits bit_simps intro: bit_u32)

end
