(* ===== verification/LinkedList.thy ===== *)
theory LinkedList
  imports Prelude
begin

text \<open>
  The contract of an intrusive FIFO list: \<open>repr s xs\<close> says that the state \<open>s\<close> holds the
  list \<open>xs\<close>, \<open>ins\<close> links an element behind the last one, \<open>del\<close> unlinks an element
  wherever it is, \<open>peek\<close> reads the first one.  connio implements this contract by hand
  several times; each implementation is an interpretation of this locale, in the theory of
  its component.
\<close>

locale linked_list =
  fixes repr :: "'s \<Rightarrow> 'a list \<Rightarrow> bool"
    and ins :: "'a \<Rightarrow> 's \<Rightarrow> 's"
    and del :: "'a \<Rightarrow> 's \<Rightarrow> 's"
    and peek :: "'s \<Rightarrow> 'a option"
  assumes repr_distinct: "repr s xs \<Longrightarrow> distinct xs"
    and repr_unique: "repr s xs \<Longrightarrow> repr s ys \<Longrightarrow> xs = ys"
    and repr_ins: "repr s xs \<Longrightarrow> x \<notin> set xs \<Longrightarrow> repr (ins x s) (xs @ [x])"
    and repr_del: "repr s xs \<Longrightarrow> x \<in> set xs \<Longrightarrow> repr (del x s) (remove1 x xs)"
    and repr_peek: "repr s xs \<Longrightarrow> peek s = (case xs of [] \<Rightarrow> None | x # _ \<Rightarrow> Some x)"
begin

lemma del_ins: "repr s xs \<Longrightarrow> x \<notin> set xs \<Longrightarrow> repr (del x (ins x s)) xs"
  using repr_del [OF repr_ins, of s xs x x] by (simp add: remove1_append)

lemma ins_all:
  "repr s xs \<Longrightarrow> distinct (xs @ ys) \<Longrightarrow> repr (fold ins ys s) (xs @ ys)"
proof (induction ys arbitrary: s xs)
  case Nil
  then show ?case by simp
next
  case (Cons y ys)
  then have "repr (ins y s) (xs @ [y])" by (intro repr_ins) auto
  from Cons.IH [OF this] Cons.prems show ?case by simp
qed

lemma del_all:
  "repr s (xs @ ys) \<Longrightarrow> repr (fold del xs s) ys"
proof (induction xs arbitrary: s)
  case Nil
  then show ?case by simp
next
  case (Cons x xs)
  from repr_del [OF Cons.prems, of x] have "repr (del x s) (xs @ ys)" by simp
  from Cons.IH [OF this] show ?case by simp
qed

text \<open>First in, first out: what was linked to an empty list comes out in the same order.\<close>

lemma fifo:
  assumes "repr s []" and "distinct (xs @ y # ys)"
  shows "peek (fold del xs (fold ins (xs @ y # ys) s)) = Some y"
proof -
  have "repr (fold ins (xs @ y # ys) s) (xs @ y # ys)"
    using ins_all [OF assms(1), of "xs @ y # ys"] assms(2) by simp
  from repr_peek [OF del_all [OF this]] show ?thesis by simp
qed

lemma peek_None: "repr s xs \<Longrightarrow> peek s = None \<longleftrightarrow> xs = []"
  by (simp add: repr_peek split: list.splits)

end

end
