(* ===== verification/EventQueue.thy ===== *)
theory EventQueue
  imports ConnTypes LinkedList
begin

text \<open>
  The queue of connection events of \<^verbatim>\<open>src/src/queue.c\<close>: the doubly linked event list, the
  free list, and the three searches for the next event to start, all on the pointers of the
  C code.  The lemmas show that the pointer operations implement a list of events
  (\<open>evq c xs\<close>), that the searches return exactly the event the scheduling rules allow,
  and that no operation loses an event.
\<close>

definition upd_event :: "ptr \<Rightarrow> ('b ConnEvent \<Rightarrow> 'b ConnEvent) \<Rightarrow> 'b conn \<Rightarrow> 'b conn" where
  "upd_event p f c = c\<lparr>mem := (mem c)(p := f (mem c p))\<rparr>"

section \<open>The free list\<close>

definition ConnEventFreeListAdd :: "ptr \<Rightarrow> 'b conn \<Rightarrow> 'b conn" where
  "ConnEventFreeListAdd ce c =
     (upd_event ce (\<lambda>e. e\<lparr>ce_previous := None, ce_next := freeList c\<rparr>) c)\<lparr>freeList := Some ce\<rparr>"

definition ConnEventFreeListGrab :: "'b conn \<Rightarrow> ptr option \<times> 'b conn" where
  "ConnEventFreeListGrab c = (freeList c, c\<lparr>freeList := None\<rparr>)"

text \<open>\<^verbatim>\<open>ConnEventFreeResources()\<close> and \<^verbatim>\<open>ConnEventFree()\<close> of \<^verbatim>\<open>connio.c\<close>.\<close>

definition ConnEventFreeResources :: "'b ConnEvent \<Rightarrow> 'b ConnEvent" where
  "ConnEventFreeResources ce =
     (if ce_type ce = CONN_EVENT_CONNECT then
        (if ce_mode ce = CONN_EVENT_MODE_ASYNCHRONOUS
         then ce\<lparr>arg_dst := None, arg_src := None\<rparr> else ce)
      else if ce_type ce = CONN_EVENT_WRITE_FROM_CLIENT_BUFFER then
        (case arg_start ce of Some _ \<Rightarrow> ce\<lparr>arg_start := None\<rparr> | None \<Rightarrow> ce)
      else if ce_class ce = CONN_EVENT_CLASS_SEND then
        (case ce_ioBuffer ce of Some _ \<Rightarrow> ce\<lparr>ce_ioBuffer := None\<rparr> | None \<Rightarrow> ce)
      else ce)"

definition ConnEventFree :: "ptr \<Rightarrow> 'b conn \<Rightarrow> 'b conn" where
  "ConnEventFree ce c = (upd_event ce ConnEventFreeResources c)\<lparr>released := released c @ [ce]\<rparr>"

partial_function (option) ConnEventFreeListDestroy ::
    "ptr option \<Rightarrow> 'b conn \<Rightarrow> 'b conn option" where
  "ConnEventFreeListDestroy fl c =
     (case fl of None \<Rightarrow> Some c
      | Some ce \<Rightarrow>
          (let nx = ce_next (mem c ce) in ConnEventFreeListDestroy nx (ConnEventFree ce c)))"

section \<open>The queue\<close>

definition EventQueuePeek :: "'b conn \<Rightarrow> ptr option" where
  "EventQueuePeek c = l_head (queue c)"

partial_function (option) count_flushes_from ::
    "ptr option \<Rightarrow> int \<Rightarrow> 'b conn \<Rightarrow> int option" where
  "count_flushes_from ce flushesQueued c =
     (case ce of None \<Rightarrow> Some flushesQueued
      | Some e \<Rightarrow>
          count_flushes_from (ce_next (mem c e))
            (if ce_type (mem c e) = CONN_EVENT_FLUSH then flushesQueued + 1 else flushesQueued) c)"

definition EventQueueCountFlushes :: "'b conn \<Rightarrow> int option" where
  "EventQueueCountFlushes c = count_flushes_from (l_head (queue c)) 0 c"

definition EventQueueAppendEvent :: "ptr \<Rightarrow> 'b conn \<Rightarrow> 'b conn" where
  "EventQueueAppendEvent ev c =
     (let list = queue c;
          c1 = upd_event ev (\<lambda>e. e\<lparr>ce_next := None, ce_status := CONN_EVENT_QUEUED\<rparr>) c
      in case l_tail list of
           Some t \<Rightarrow>
             (let c2 = upd_event t (\<lambda>e. e\<lparr>ce_next := Some ev\<rparr>) c1;
                  c3 = upd_event ev (\<lambda>e. e\<lparr>ce_previous := Some t\<rparr>) c2
              in c3\<lparr>queue := list\<lparr>l_tail := Some ev, l_count := l_count list + 1\<rparr>\<rparr>)
         | None \<Rightarrow>
             (let c2 = upd_event ev (\<lambda>e. e\<lparr>ce_previous := None\<rparr>) c1
              in c2\<lparr>queue := list\<lparr>l_head := Some ev, l_tail := Some ev,
                                  l_count := l_count list + 1\<rparr>\<rparr>))"

definition EventQueueRemoveEvent :: "ptr \<Rightarrow> 'b conn \<Rightarrow> 'b conn" where
  "EventQueueRemoveEvent ev c =
     (let list = (queue c)\<lparr>l_count := l_count (queue c) - 1\<rparr>;
          nx = ce_next (mem c ev);
          pv = ce_previous (mem c ev);
          (c1, list1) = (case pv of
             Some p \<Rightarrow> (upd_event p (\<lambda>e. e\<lparr>ce_next := nx\<rparr>) c, list)
           | None \<Rightarrow> (c, list\<lparr>l_head := nx\<rparr>));
          (c2, list2) = (case nx of
             Some n \<Rightarrow> (upd_event n (\<lambda>e. e\<lparr>ce_previous := pv\<rparr>) c1, list1)
           | None \<Rightarrow> (c1, list1\<lparr>l_tail := pv\<rparr>))
      in (upd_event ev (\<lambda>e. e\<lparr>ce_next := None, ce_previous := None\<rparr>) c2)\<lparr>queue := list2\<rparr>)"

definition GetNextEnqueuedEvent :: "'b conn \<Rightarrow> ptr option \<times> 'b conn" where
  "GetNextEnqueuedEvent c =
     (case EventQueuePeek c of
        Some event \<Rightarrow> (Some event, EventQueueRemoveEvent event c)
      | None \<Rightarrow> (None, c))"

text \<open>The three groups of the \<^verbatim>\<open>switch\<close> statements on the event type.\<close>

definition is_read_event :: "ConnEventType \<Rightarrow> bool" where
  "is_read_event t \<longleftrightarrow> t \<in> {CONN_EVENT_READ, CONN_EVENT_READ_COUNT,
     CONN_EVENT_READ_UNTIL_PATTERN, CONN_EVENT_READ_TO_CB, CONN_EVENT_READ_TO_CONN}"

definition is_send_event :: "ConnEventType \<Rightarrow> bool" where
  "is_send_event t \<longleftrightarrow>
     t \<in> {CONN_EVENT_WRITE_FROM_CB, CONN_EVENT_WRITE_FROM_CLIENT_BUFFER, CONN_EVENT_FLUSH}"

partial_function (option) next_send_from ::
    "ptr option \<Rightarrow> 'b conn \<Rightarrow> (ptr option \<times> 'b conn) option" where
  "next_send_from event c =
     (case event of None \<Rightarrow> Some (None, c)
      | Some e \<Rightarrow>
          (if is_read_event (ce_type (mem c e)) then next_send_from (ce_next (mem c e)) c
           else if is_send_event (ce_type (mem c e)) then Some (Some e, EventQueueRemoveEvent e c)
           else Some (None, c)))"

definition GetNextEnqueuedSendEvent :: "'b conn \<Rightarrow> (ptr option \<times> 'b conn) option" where
  "GetNextEnqueuedSendEvent c = next_send_from (EventQueuePeek c) c"

partial_function (option) next_receive_from ::
    "ptr option \<Rightarrow> 'b conn \<Rightarrow> (ptr option \<times> 'b conn) option" where
  "next_receive_from event c =
     (case event of None \<Rightarrow> Some (None, c)
      | Some e \<Rightarrow>
          (if is_read_event (ce_type (mem c e)) then Some (Some e, EventQueueRemoveEvent e c)
           else if is_send_event (ce_type (mem c e)) then next_receive_from (ce_next (mem c e)) c
           else Some (None, c)))"

definition GetNextEnqueuedReceiveEvent :: "'b conn \<Rightarrow> (ptr option \<times> 'b conn) option" where
  "GetNextEnqueuedReceiveEvent c = next_receive_from (EventQueuePeek c) c"

partial_function (option) CancelQueuedEvents :: "'b conn \<Rightarrow> 'b conn option" where
  "CancelQueuedEvents c =
     (case GetNextEnqueuedEvent c of
        (None, c1) \<Rightarrow> Some c1
      | (Some ce, c1) \<Rightarrow> CancelQueuedEvents (ConnEventFreeListAdd ce c1))"

section \<open>Frame lemmas\<close>

lemma upd_event_mem [simp]: "mem (upd_event p f c) = (mem c)(p := f (mem c p))"
  and upd_event_fields [simp]:
    "queue (upd_event p f c) = queue c" "freeList (upd_event p f c) = freeList c"
    "released (upd_event p f c) = released c" "problem (upd_event p f c) = problem c"
    "act_connect (upd_event p f c) = act_connect c" "act_send (upd_event p f c) = act_send c"
    "act_receive (upd_event p f c) = act_receive c" "state (upd_event p f c) = state c"
    "threads (upd_event p f c) = threads c" "sslEnabled (upd_event p f c) = sslEnabled c"
    "sendBuffer (upd_event p f c) = sendBuffer c"
    "receiveBuffer (upd_event p f c) = receiveBuffer c" "sp (upd_event p f c) = sp c"
    "bytes_sent (upd_event p f c) = bytes_sent c"
    "bytes_received (upd_event p f c) = bytes_received c"
    "cl_client (upd_event p f c) = cl_client c" "started (upd_event p f c) = started c"
  by (simp_all add: upd_event_def)

abbreviation nexts :: "'b conn \<Rightarrow> ptr \<Rightarrow> ptr option" where
  "nexts c \<equiv> ce_next \<circ> mem c"

abbreviation prevs :: "'b conn \<Rightarrow> ptr \<Rightarrow> ptr option" where
  "prevs c \<equiv> ce_previous \<circ> mem c"

definition evq :: "'b conn \<Rightarrow> ptr list \<Rightarrow> bool" where
  "evq c xs \<longleftrightarrow> dll (nexts c) (prevs c) (l_head (queue c)) (l_tail (queue c)) xs \<and>
     l_count (queue c) = int (length xs)"

text \<open>
  \<open>same_control c d\<close>: the two states differ in the event links, the queue and the free list
  only, and every event keeps its type and class.
\<close>

definition same_control :: "'b conn \<Rightarrow> 'b conn \<Rightarrow> bool" where
  "same_control c d \<longleftrightarrow>
     d\<lparr>mem := mem c, queue := queue c, freeList := freeList c\<rparr> = c \<and>
     (\<forall>p. ce_type (mem d p) = ce_type (mem c p) \<and> ce_class (mem d p) = ce_class (mem c p))"

lemma same_control_fields:
  assumes "same_control c d"
  shows "released d = released c" "problem d = problem c"
    "act_connect d = act_connect c" "act_send d = act_send c" "act_receive d = act_receive c"
    "state d = state c" "threads d = threads c" "sslEnabled d = sslEnabled c"
    "sendBuffer d = sendBuffer c" "sp d = sp c" "bytes_sent d = bytes_sent c"
    "bytes_received d = bytes_received c" "started d = started c" "cl_client d = cl_client c"
    "ce_type (mem d p) = ce_type (mem c p)" "ce_class (mem d p) = ce_class (mem c p)"
proof -
  from assms have c: "c = d\<lparr>mem := mem c, queue := queue c, freeList := freeList c\<rparr>"
    by (simp add: same_control_def)
  show "released d = released c" "problem d = problem c"
    "act_connect d = act_connect c" "act_send d = act_send c" "act_receive d = act_receive c"
    "state d = state c" "threads d = threads c" "sslEnabled d = sslEnabled c"
    "sendBuffer d = sendBuffer c" "sp d = sp c" "bytes_sent d = bytes_sent c"
    "bytes_received d = bytes_received c" "started d = started c" "cl_client d = cl_client c"
    by (subst c, simp)+
  show "ce_type (mem d p) = ce_type (mem c p)" "ce_class (mem d p) = ce_class (mem c p)"
    using assms by (auto simp: same_control_def)
qed

lemma same_control_refl [simp]: "same_control c c"
  by (simp add: same_control_def)

lemma same_control_trans: "same_control c d \<Longrightarrow> same_control d e \<Longrightarrow> same_control c e"
proof -
  assume cd: "same_control c d" and de: "same_control d e"
  let ?f = "\<lambda>x. x\<lparr>mem := mem c, queue := queue c, freeList := freeList c\<rparr>"
  from de have "e\<lparr>mem := mem d, queue := queue d, freeList := freeList d\<rparr> = d"
    by (simp add: same_control_def)
  then have "?f (e\<lparr>mem := mem d, queue := queue d, freeList := freeList d\<rparr>) = ?f d"
    by (rule arg_cong)
  then have "?f e = ?f d" by simp
  with cd de show "same_control c e" by (simp add: same_control_def)
qed

lemma append_same_control: "same_control c (EventQueueAppendEvent e c)"
  by (auto simp: same_control_def EventQueueAppendEvent_def Let_def upd_event_def
      split: option.splits)

lemma remove_same_control: "same_control c (EventQueueRemoveEvent e c)"
  by (auto simp: same_control_def EventQueueRemoveEvent_def Let_def upd_event_def
      split: option.splits prod.splits)

lemma free_add_same_control: "same_control c (ConnEventFreeListAdd e c)"
  by (auto simp: same_control_def ConnEventFreeListAdd_def upd_event_def)

lemma append_freeList [simp]: "freeList (EventQueueAppendEvent e c) = freeList c"
  by (auto simp: EventQueueAppendEvent_def Let_def split: option.splits)

lemma remove_freeList [simp]: "freeList (EventQueueRemoveEvent e c) = freeList c"
  by (auto simp: EventQueueRemoveEvent_def Let_def split: option.splits prod.splits)

section \<open>The pointer operations implement a list\<close>

lemma append_links:
  "dll_push_back (nexts c) (prevs c) (l_head (queue c)) (l_tail (queue c)) e =
     (nexts (EventQueueAppendEvent e c), prevs (EventQueueAppendEvent e c),
      l_head (queue (EventQueueAppendEvent e c)), l_tail (queue (EventQueueAppendEvent e c)))"
  if "l_tail (queue c) \<noteq> Some e"
  using that
  by (auto simp: dll_push_back_def EventQueueAppendEvent_def Let_def fun_upd_comp fun_eq_iff
      split: option.splits)

lemma append_count: "l_count (queue (EventQueueAppendEvent e c)) = l_count (queue c) + 1"
  by (simp add: EventQueueAppendEvent_def Let_def split: option.splits)

lemma evq_tail: "evq c xs \<Longrightarrow> l_tail (queue c) = (if xs = [] then None else Some (last xs))"
  by (cases xs rule: rev_cases) (auto simp: evq_def dll_def dseg_append)

lemma evq_append:
  assumes "evq c xs" and "e \<notin> set xs"
  shows "evq (EventQueueAppendEvent e c) (xs @ [e])"
proof -
  from evq_tail [OF assms(1)] assms(2) have "l_tail (queue c) \<noteq> Some e" by auto
  from dll_push_back_correct [OF _ assms(2) append_links [OF this]] assms(1)
  show ?thesis by (simp add: evq_def append_count)
qed

lemma remove_links:
  assumes "nexts c e \<noteq> Some e" and "prevs c e \<noteq> Some e"
  shows "(nexts (EventQueueRemoveEvent e c), prevs (EventQueueRemoveEvent e c),
      l_head (queue (EventQueueRemoveEvent e c)), l_tail (queue (EventQueueRemoveEvent e c))) =
    (case dll_unlink (nexts c) (prevs c) (l_head (queue c)) (l_tail (queue c)) e of
       (n, p, h, t) \<Rightarrow> (n(e := None), p(e := None), h, t))"
  using assms
  by (auto simp: dll_unlink_def EventQueueRemoveEvent_def Let_def fun_upd_comp fun_eq_iff
      split: option.splits prod.splits)

lemma remove_count: "l_count (queue (EventQueueRemoveEvent e c)) = l_count (queue c) - 1"
  by (simp add: EventQueueRemoveEvent_def Let_def split: option.splits prod.splits)

lemma evq_remove:
  assumes "evq c xs" and "e \<in> set xs"
  shows "evq (EventQueueRemoveEvent e c) (remove1 e xs)"
proof -
  let ?c = "EventQueueRemoveEvent e c"
  from assms have dll: "dll (nexts c) (prevs c) (l_head (queue c)) (l_tail (queue c)) xs"
    by (simp add: evq_def)
  obtain n p h t where u:
    "dll_unlink (nexts c) (prevs c) (l_head (queue c)) (l_tail (queue c)) e = (n, p, h, t)"
    by (metis prod_cases4)
  from dll_unlink_correct [OF dll assms(2) u] have d: "dll n p h t (remove1 e xs)" .
  from dll_distinct [OF dll] have "e \<notin> set (remove1 e xs)" by (simp add: set_remove1_eq)
  with d have "dll (n(e := None)) (p(e := None)) h t (remove1 e xs)" by (simp add: dll_frame)
  moreover have "int (length (remove1 e xs)) = int (length xs) - 1"
    using assms(2) length_pos_if_in_set [OF assms(2)] by (simp add: length_remove1 Suc_leI)
  ultimately show ?thesis
    using assms remove_links [OF dll_no_loop(1) [OF dll assms(2)] dll_no_loop(2) [OF dll assms(2)]] u
    by (auto simp: evq_def remove_count)
qed

interpretation evlist: linked_list evq EventQueueAppendEvent EventQueueRemoveEvent EventQueuePeek
proof (unfold_locales, goal_cases)
  case (1 s xs)
  then show ?case by (auto simp: evq_def dll_distinct)
next
  case (2 s xs ys)
  then show ?case by (auto simp: evq_def dest: dll_unique)
next
  case (3 s xs x)
  then show ?case by (rule evq_append)
next
  case (4 s xs x)
  then show ?case by (rule evq_remove)
next
  case (5 s xs)
  then show ?case by (auto simp: evq_def EventQueuePeek_def dest: dll_head)
qed

section \<open>What the searches return\<close>

text \<open>
  The first event that is not a read, if it is a send; the first event that is not a send, if it
  is a read.  A state changing event blocks both searches.
\<close>

definition next_send_spec :: "'b conn \<Rightarrow> ptr list \<Rightarrow> ptr option" where
  "next_send_spec c xs =
     (case dropWhile (\<lambda>e. is_read_event (ce_type (mem c e))) xs of
        [] \<Rightarrow> None
      | e # _ \<Rightarrow> if is_send_event (ce_type (mem c e)) then Some e else None)"

definition next_receive_spec :: "'b conn \<Rightarrow> ptr list \<Rightarrow> ptr option" where
  "next_receive_spec c xs =
     (case dropWhile (\<lambda>e. is_send_event (ce_type (mem c e))) xs of
        [] \<Rightarrow> None
      | e # _ \<Rightarrow> if is_read_event (ce_type (mem c e)) then Some e else None)"

definition take_out :: "'b conn \<Rightarrow> ptr option \<Rightarrow> ptr option \<times> 'b conn" where
  "take_out c r = (r, case r of None \<Rightarrow> c | Some e \<Rightarrow> EventQueueRemoveEvent e c)"

lemma not_read_and_send [simp]: "is_read_event t \<Longrightarrow> \<not> is_send_event t"
  by (auto simp: is_read_event_def is_send_event_def)

abbreviation first :: "'a list \<Rightarrow> 'a option" where
  "first xs \<equiv> (case xs of [] \<Rightarrow> None | x # _ \<Rightarrow> Some x)"

lemma evq_next:
  "evq c (ys @ x # zs) \<Longrightarrow> ce_next (mem c x) = first zs"
  using dll_next [of "nexts c" "prevs c" _ _ ys x zs] by (auto simp: evq_def)

lemma next_send_from_spec:
  "evq c (ys @ xs) \<Longrightarrow> next_send_from (first xs) c = Some (take_out c (next_send_spec c xs))"
proof (induction xs arbitrary: ys)
  case Nil
  show ?case by (subst next_send_from.simps) (simp add: take_out_def next_send_spec_def)
next
  case (Cons x xs)
  from evq_next [OF Cons.prems] Cons.IH [of "ys @ [x]"] Cons.prems show ?case
    by (subst next_send_from.simps) (simp add: take_out_def next_send_spec_def)
qed

lemma next_receive_from_spec:
  "evq c (ys @ xs) \<Longrightarrow> next_receive_from (first xs) c = Some (take_out c (next_receive_spec c xs))"
proof (induction xs arbitrary: ys)
  case Nil
  show ?case by (subst next_receive_from.simps) (simp add: take_out_def next_receive_spec_def)
next
  case (Cons x xs)
  have "is_send_event t \<Longrightarrow> \<not> is_read_event t" for t by auto
  with evq_next [OF Cons.prems] Cons.IH [of "ys @ [x]"] Cons.prems show ?case
    by (subst next_receive_from.simps) (auto simp: take_out_def next_receive_spec_def)
qed

lemma GetNextEnqueuedSendEvent_spec:
  "evq c xs \<Longrightarrow> GetNextEnqueuedSendEvent c = Some (take_out c (next_send_spec c xs))"
  using next_send_from_spec [of c "[]" xs] evlist.repr_peek [of c xs]
  by (simp add: GetNextEnqueuedSendEvent_def)

lemma GetNextEnqueuedReceiveEvent_spec:
  "evq c xs \<Longrightarrow> GetNextEnqueuedReceiveEvent c = Some (take_out c (next_receive_spec c xs))"
  using next_receive_from_spec [of c "[]" xs] evlist.repr_peek [of c xs]
  by (simp add: GetNextEnqueuedReceiveEvent_def)

lemma GetNextEnqueuedEvent_spec:
  "evq c xs \<Longrightarrow> GetNextEnqueuedEvent c = take_out c (first xs)"
  using evlist.repr_peek [of c xs]
  by (auto simp: GetNextEnqueuedEvent_def take_out_def split: list.splits)

lemma dropWhile_Cons_in: "dropWhile P xs = e # ys \<Longrightarrow> e \<in> set xs"
  by (metis list.set_intros(1) set_dropWhileD)

lemma next_send_spec_in: "next_send_spec c xs = Some e \<Longrightarrow> e \<in> set xs \<and> is_send_event (ce_type (mem c e))"
  by (auto simp: next_send_spec_def split: list.splits if_splits dest: dropWhile_Cons_in)

lemma next_receive_spec_in:
  "next_receive_spec c xs = Some e \<Longrightarrow> e \<in> set xs \<and> is_read_event (ce_type (mem c e))"
  by (auto simp: next_receive_spec_def split: list.splits if_splits dest: dropWhile_Cons_in)

lemma evq_take_out:
  assumes "evq c xs" and "r = None \<or> (\<exists>e \<in> set xs. r = Some e)"
    and "take_out c r = (r', c')"
  shows "r' = r" and "evq c' (case r of None \<Rightarrow> xs | Some e \<Rightarrow> remove1 e xs)"
    and "same_control c c'"
  using assms by (auto simp: take_out_def evq_remove remove_same_control)

lemma count_flushes_spec:
  "evq c (ys @ xs) \<Longrightarrow> count_flushes_from (first xs) n c =
     Some (n + int (length (filter (\<lambda>e. ce_type (mem c e) = CONN_EVENT_FLUSH) xs)))"
proof (induction xs arbitrary: ys n)
  case Nil
  show ?case by (subst count_flushes_from.simps) simp
next
  case (Cons x xs)
  from evq_next [OF Cons.prems] Cons.IH [of "ys @ [x]"] Cons.prems show ?case
    by (subst count_flushes_from.simps) simp
qed

section \<open>The free list\<close>

fun slist :: "'b conn \<Rightarrow> ptr option \<Rightarrow> ptr list \<Rightarrow> bool" where
  "slist c h [] \<longleftrightarrow> h = None"
| "slist c h (x # xs) \<longleftrightarrow> h = Some x \<and> slist c (ce_next (mem c x)) xs"

definition free_events :: "'b conn \<Rightarrow> ptr list \<Rightarrow> bool" where
  "free_events c fs \<longleftrightarrow> slist c (freeList c) fs \<and> distinct fs"

lemma slist_cong:
  "\<forall>p \<in> set fs. ce_next (mem d p) = ce_next (mem c p) \<Longrightarrow> slist d h fs = slist c h fs"
  by (induction fs arbitrary: h) auto

lemma slist_upd [simp]: "e \<notin> set fs \<Longrightarrow> slist (upd_event e f c) h fs = slist c h fs"
  by (rule slist_cong) auto

lemma slist_ext: "mem d = mem c \<Longrightarrow> slist d h fs = slist c h fs"
  by (rule slist_cong) simp

lemma free_events_add:
  assumes "free_events c fs" and "e \<notin> set fs"
  shows "free_events (ConnEventFreeListAdd e c) (e # fs)"
  using assms slist_ext [of "(upd_event e (\<lambda>x. x\<lparr>ce_previous := None, ce_next := freeList c\<rparr>) c)\<lparr>freeList := Some e\<rparr>"
      "upd_event e (\<lambda>x. x\<lparr>ce_previous := None, ce_next := freeList c\<rparr>) c"]
  by (simp add: free_events_def ConnEventFreeListAdd_def)

lemma evq_free_add:
  assumes "evq c xs" and "e \<notin> set xs"
  shows "evq (ConnEventFreeListAdd e c) xs"
proof -
  have "dll (nexts (ConnEventFreeListAdd e c)) (prevs (ConnEventFreeListAdd e c)) h t xs =
      dll (nexts c) (prevs c) h t xs" for h t
    using assms(2) by (intro dll_cong) (auto simp: ConnEventFreeListAdd_def)
  with assms(1) show ?thesis by (simp add: evq_def ConnEventFreeListAdd_def)
qed

lemma remove_other_next:
  assumes "evq c xs" and "e \<in> set xs" and "p \<notin> set xs"
  shows "ce_next (mem (EventQueueRemoveEvent e c) p) = ce_next (mem c p)"
proof -
  from assms(1) have dll: "dll (nexts c) (prevs c) (l_head (queue c)) (l_tail (queue c)) xs"
    by (simp add: evq_def)
  obtain ys zs where xs: "xs = ys @ e # zs" using assms(2) by (auto simp: in_set_conv_decomp)
  have "prevs c e \<noteq> Some p" using dll assms(3) unfolding xs
    by (cases ys rule: rev_cases) (auto simp: dll_def dseg_append)
  moreover have "p \<noteq> e" using assms by auto
  ultimately show ?thesis
    by (auto simp: EventQueueRemoveEvent_def Let_def split: option.splits prod.splits)
qed

lemma free_events_remove:
  assumes "evq c xs" and "e \<in> set xs" and "free_events c fs" and "set xs \<inter> set fs = {}"
  shows "free_events (EventQueueRemoveEvent e c) fs"
  using assms slist_cong [of fs "EventQueueRemoveEvent e c" c]
  by (auto simp: free_events_def intro!: remove_other_next [OF assms(1,2)])

text \<open>Cancelling the queue moves every queued event to the free list, last one first.\<close>

lemma CancelQueuedEvents_moves:
  assumes "evq c xs" and "free_events c fs" and "set xs \<inter> set fs = {}"
  shows "\<exists>c'. CancelQueuedEvents c = Some c' \<and> evq c' [] \<and> free_events c' (rev xs @ fs) \<and>
     same_control c c'"
  using assms
proof (induction xs arbitrary: c fs)
  case Nil
  then show ?case
    by (subst CancelQueuedEvents.simps)
      (auto simp: GetNextEnqueuedEvent_spec [OF Nil.prems(1)] take_out_def)
next
  case (Cons x xs)
  let ?c1 = "EventQueueRemoveEvent x c"
  let ?c2 = "ConnEventFreeListAdd x ?c1"
  have q1: "evq ?c1 xs" using evq_remove [OF Cons.prems(1), of x] by simp
  have x: "x \<notin> set xs" using evlist.repr_distinct [OF Cons.prems(1)] by simp
  have f1: "free_events ?c1 fs"
    using Cons.prems by (intro free_events_remove [OF Cons.prems(1)]) auto
  have "evq ?c2 xs" and "free_events ?c2 (x # fs)"
    using evq_free_add [OF q1 x] free_events_add [OF f1, of x] Cons.prems by auto
  from Cons.IH [OF this] Cons.prems x obtain c' where c':
    "CancelQueuedEvents ?c2 = Some c'" "evq c' []" "free_events c' (rev xs @ x # fs)"
    "same_control ?c2 c'" by auto
  have "same_control c c'"
    using same_control_trans [OF remove_same_control same_control_trans [OF free_add_same_control c'(4)]] .
  with c' show ?case
    by (subst CancelQueuedEvents.simps)
      (auto simp: GetNextEnqueuedEvent_spec [OF Cons.prems(1)] take_out_def)
qed

lemma ConnEventFreeListDestroy_frees:
  "slist c h fs \<Longrightarrow> distinct fs \<Longrightarrow>
     \<exists>c'. ConnEventFreeListDestroy h c = Some c' \<and> released c' = released c @ fs"
proof (induction fs arbitrary: c h)
  case Nil
  then show ?case by (subst ConnEventFreeListDestroy.simps) simp
next
  case (Cons x fs)
  have "slist (ConnEventFree x c) (ce_next (mem c x)) fs"
    using Cons.prems by (subst slist_cong [where c = c]) (auto simp: ConnEventFree_def)
  from Cons.IH [OF this] Cons.prems obtain c' where
    "ConnEventFreeListDestroy (ce_next (mem c x)) (ConnEventFree x c) = Some c'"
    "released c' = released (ConnEventFree x c) @ fs" by auto
  with Cons.prems show ?case
    by (subst ConnEventFreeListDestroy.simps) (auto simp: ConnEventFree_def)
qed

end
