(* ===== verification/IOBuf.thy ===== *)
theory IOBuf
  imports Prelude "HOL-Library.Sublist"
begin

text \<open>
  The interface of the \<^verbatim>\<open>IOBuffer\<close> of the external iobuf library.  Its operations are the
  members of a record that the functions using a buffer take as an argument.  \<open>iob_ok\<close> is what
  connio relies on: a buffer holds a sequence of bytes, \<open>contents\<close>, of which
  \<^verbatim>\<open>IOBGetUsed()\<close> exposes a first, contiguous part.  \<open>norm\<close> tells which bytes
  \<^verbatim>\<open>SEARCH_REPLACE_NULL\<close> may exchange for one another.
\<close>

record 'b iob_ops =
  IOBAlloc :: "nat \<Rightarrow> 'b option"
  IOBGetUsed :: "'b \<Rightarrow> byte list"        \<comment> \<open>the data \<^verbatim>\<open>*ptr\<close> points to; its length is the result\<close>
  IOBGetFree :: "'b \<Rightarrow> nat"
  IOBMarkFree :: "nat \<Rightarrow> 'b \<Rightarrow> 'b"
  IOBMarkUsed :: "byte list \<Rightarrow> 'b \<Rightarrow> 'b"  \<comment> \<open>the bytes stored at the free pointer and marked used\<close>
  IOBWrite :: "byte list \<Rightarrow> 'b \<Rightarrow> 'b"
  IOBDefrag :: "'b \<Rightarrow> bool \<times> 'b"
  IOBIncreaseFree :: "'b \<Rightarrow> bool \<times> 'b"
  IOBSearch :: "byte list option \<Rightarrow> 'b \<Rightarrow> nat \<times> bool \<times> nat \<times> 'b"
    \<comment> \<open>pattern (\<open>None\<close> for \<^verbatim>\<open>SEARCH_ANY_CR\<close>) to count, match found, pattern length, buffer;
        \<^verbatim>\<open>*data\<close> is the start of the buffer\<close>

definition iob_ok :: "(byte \<Rightarrow> byte) \<Rightarrow> ('b \<Rightarrow> byte list) \<Rightarrow> 'b iob_ops \<Rightarrow> bool" where
  "iob_ok norm contents ops \<longleftrightarrow>
     (\<forall>b. prefix (IOBGetUsed ops b) (contents b)) \<and>
     (\<forall>b. contents b \<noteq> [] \<longrightarrow> IOBGetUsed ops b \<noteq> []) \<and>
     (\<forall>b n. n \<le> length (contents b) \<longrightarrow> contents (IOBMarkFree ops n b) = drop n (contents b)) \<and>
     (\<forall>b d. length d \<le> IOBGetFree ops b \<longrightarrow> contents (IOBMarkUsed ops d b) = contents b @ d) \<and>
     (\<forall>b d. length d \<le> IOBGetFree ops b \<longrightarrow> contents (IOBWrite ops d b) = contents b @ d) \<and>
     (\<forall>b. contents (snd (IOBDefrag ops b)) = contents b) \<and>
     (\<forall>b. contents (snd (IOBIncreaseFree ops b)) = contents b) \<and>
     (\<forall>b. contents b = [] \<longrightarrow> 0 < IOBGetFree ops b) \<and>
     (\<forall>b n. IOBAlloc ops n = Some b \<longrightarrow> contents b = []) \<and>
     (\<forall>b pat n m l b'. IOBSearch ops pat b = (n, m, l, b') \<longrightarrow>
        n + (if m then l else 0) \<le> length (IOBGetUsed ops b') \<and>
        map norm (contents b') = map norm (contents b))"

lemma iob_okD:
  assumes "iob_ok norm contents ops"
  shows iob_used_prefix: "prefix (IOBGetUsed ops b) (contents b)"
    and iob_used_nonempty: "contents b \<noteq> [] \<Longrightarrow> IOBGetUsed ops b \<noteq> []"
    and iob_mark_free: "n \<le> length (contents b) \<Longrightarrow> contents (IOBMarkFree ops n b) = drop n (contents b)"
    and iob_mark_used: "length d \<le> IOBGetFree ops b \<Longrightarrow> contents (IOBMarkUsed ops d b) = contents b @ d"
    and iob_write: "length d \<le> IOBGetFree ops b \<Longrightarrow> contents (IOBWrite ops d b) = contents b @ d"
    and iob_defrag: "contents (snd (IOBDefrag ops b)) = contents b"
    and iob_increase: "contents (snd (IOBIncreaseFree ops b)) = contents b"
    and iob_room: "contents b = [] \<Longrightarrow> 0 < IOBGetFree ops b"
    and iob_alloc: "IOBAlloc ops k = Some b \<Longrightarrow> contents b = []"
    and iob_search: "IOBSearch ops pat b = (n, m, l, b') \<Longrightarrow>
        n + (if m then l else 0) \<le> length (IOBGetUsed ops b') \<and>
        map norm (contents b') = map norm (contents b)"
  using assms unfolding iob_ok_def by blast+

lemma iob_used_empty: "iob_ok norm contents ops \<Longrightarrow> IOBGetUsed ops b = [] \<longleftrightarrow> contents b = []"
  using iob_used_prefix [of norm contents ops b] iob_used_nonempty [of norm contents ops b] by auto

lemma iob_used_take:
  assumes "iob_ok norm contents ops"
  shows "IOBGetUsed ops b = take (length (IOBGetUsed ops b)) (contents b)"
    and "length (IOBGetUsed ops b) \<le> length (contents b)"
  using iob_used_prefix [OF assms, of b] by (auto simp: prefix_def)

text \<open>
  A buffer that satisfies the contract: a list of bytes with a fixed capacity.  It is used to
  evaluate the model on concrete inputs.
\<close>

definition find_pattern :: "byte list \<Rightarrow> byte list \<Rightarrow> nat option" where
  "find_pattern pat xs = List.find (\<lambda>i. take (length pat) (drop i xs) = pat) [0..<length xs]"

definition list_iob :: "nat \<Rightarrow> byte list iob_ops" where
  "list_iob cap = \<lparr>
     IOBAlloc = (\<lambda>_. Some []),
     IOBGetUsed = (\<lambda>b. b),
     IOBGetFree = (\<lambda>b. cap - length b),
     IOBMarkFree = drop,
     IOBMarkUsed = (\<lambda>d b. b @ d),
     IOBWrite = (\<lambda>d b. b @ d),
     IOBDefrag = (\<lambda>b. (False, b)),
     IOBIncreaseFree = (\<lambda>b. (False, b)),
     IOBSearch = (\<lambda>pat b. case pat of
         None \<Rightarrow> (0, False, 0, b)
       | Some p \<Rightarrow> (case find_pattern p b of
            None \<Rightarrow> (0, False, 0, b)
          | Some i \<Rightarrow> if i + length p \<le> length b then (i, True, length p, b)
                      else (0, False, 0, b)))\<rparr>"

lemma list_iob_ok: "0 < cap \<Longrightarrow> iob_ok id id (list_iob cap)"
  by (auto simp: iob_ok_def list_iob_def split: option.splits if_splits)

end
