(* ===== verification/EventData.thy ===== *)
theory EventData
  imports EventQueue IOBuf
begin

text \<open>
  Creating connection events (\<^verbatim>\<open>_ConnEventInit()\<close>, \<^verbatim>\<open>ConnEventAssign()\<close>), the buffered send
  data of a connection, and the events \<^verbatim>\<open>EventEnqueue()\<close> inserts on its own: the implicit
  flush and the implicit SSL disconnect (\<^verbatim>\<open>src/src/connio.c\<close>).  \<open>fresh\<close> is the result of
  \<^verbatim>\<open>connEventAlloc()\<close>: a new address, or \<open>None\<close> when there is no memory.
\<close>

section \<open>Timeouts\<close>

abbreviation (input) CONN_TIMEOUT_IMMEDIATE :: int where "CONN_TIMEOUT_IMMEDIATE \<equiv> - 3"
abbreviation (input) CONN_TIMEOUT_DEFAULT :: int where "CONN_TIMEOUT_DEFAULT \<equiv> - 1"

definition ConnEventSetTimeout :: "int \<Rightarrow> int \<Rightarrow> 'b ConnEvent \<Rightarrow> 'b ConnEvent" where
  "ConnEventSetTimeout timeout connTimeOut e =
     (if timeout > 0 then e\<lparr>ce_timeOut := timeout\<rparr>
      else if timeout = CONN_TIMEOUT_IMMEDIATE then e\<lparr>ce_timeOut := 0\<rparr>
      else e\<lparr>ce_timeOut := connTimeOut\<rparr>)"

section \<open>Events\<close>

text \<open>\<^verbatim>\<open>_ConnEventInit()\<close>: the \<^verbatim>\<open>memset\<close>.\<close>

definition ConnEventInit :: "'b ConnEvent" where
  "ConnEventInit =
     \<lparr>ce_error = 0, ce_status = CONN_EVENT_QUEUED, ce_transferred = 0, arg_start = None,
      arg_pattern = [], arg_cb_count = 0, arg_conn_count = 0, arg_dst = None, arg_src = None,
      ce_type = CONN_EVENT_ACCEPT, ce_class = CONN_EVENT_CLASS_CONNECT, ce_source = 0,
      ce_timeOut = 0, ce_inserted = False, ce_mode = CONN_EVENT_MODE_SYNCHRONOUS,
      ce_dataMode = 0, cb_remaining = 0, cb_read = [], cb_written = [], cb_terminated = False,
      ce_ioBuffer = None, ce_next = None, ce_previous = None\<rparr>"

text \<open>
  \<open>data\<close> is \<^verbatim>\<open>clientData\<close>: where it is and the bytes it holds; \<open>len\<close> is \<^verbatim>\<open>length\<close>, which the
  callers check not to be negative.  A read event works on the receive buffer of its connection,
  which the model keeps in the connection, so \<open>ce_ioBuffer\<close> is the buffer of a send event.
\<close>

definition ConnEventAssign ::
    "(ptr \<times> byte list) option \<Rightarrow> nat \<Rightarrow> int \<Rightarrow> ConnEventType \<Rightarrow> ConnEventClass \<Rightarrow> ConnEventMode \<Rightarrow>
     'b option \<Rightarrow> nat \<Rightarrow> 'b conn \<Rightarrow> 'b ConnEvent \<Rightarrow> 'b ConnEvent" where
  "ConnEventAssign data len timeout eventType eventClass mode iob src c e =
     (let e1 = e\<lparr>ce_error := 0, ce_status := CONN_EVENT_QUEUED, ce_transferred := 0,
                ce_next := None, arg_start := None, arg_pattern := [], arg_cb_count := 0,
                arg_conn_count := 0, arg_dst := None, arg_src := None, ce_inserted := False,
                ce_type := eventType, ce_class := eventClass, ce_source := src, ce_mode := mode\<rparr>;
          with_buffer = (\<lambda>x. x\<lparr>cb_read := (case data of None \<Rightarrow> [] | Some (_, d) \<Rightarrow> d),
                               cb_written := [], cb_terminated := False,
                               arg_start := map_option fst data, cb_remaining := len\<rparr>)
      in case eventType of
           CONN_EVENT_READ \<Rightarrow> with_buffer (ConnEventSetTimeout timeout (to_receive c) e1)
         | CONN_EVENT_READ_COUNT \<Rightarrow> with_buffer (ConnEventSetTimeout timeout (to_receive c) e1)
         | CONN_EVENT_READ_UNTIL_PATTERN \<Rightarrow>
             with_buffer (ConnEventSetTimeout timeout (to_receive c) e1)
         | CONN_EVENT_READ_TO_CB \<Rightarrow>
             (ConnEventSetTimeout timeout (to_receive c) e1)\<lparr>arg_cb_count := len\<rparr>
         | CONN_EVENT_READ_TO_CONN \<Rightarrow>
             (ConnEventSetTimeout timeout (to_receive c) e1)\<lparr>arg_conn_count := len\<rparr>
         | CONN_EVENT_WRITE_FROM_CB \<Rightarrow>
             (ConnEventSetTimeout timeout (to_send c) e1)\<lparr>ce_ioBuffer := iob, arg_cb_count := len\<rparr>
         | CONN_EVENT_WRITE_FROM_CLIENT_BUFFER \<Rightarrow>
             with_buffer ((ConnEventSetTimeout timeout (to_send c) e1)\<lparr>ce_ioBuffer := None\<rparr>)
         | CONN_EVENT_FLUSH \<Rightarrow> (ConnEventSetTimeout timeout (to_send c) e1)\<lparr>ce_ioBuffer := iob\<rparr>
         | CONN_EVENT_DISCONNECT \<Rightarrow> ConnEventSetTimeout timeout (to_disconnect c) e1
         | CONN_EVENT_SSL_DISCONNECT \<Rightarrow> ConnEventSetTimeout timeout (to_disconnect c) e1
         | _ \<Rightarrow> ConnEventSetTimeout timeout (to_connect c) e1)"

text \<open>The class every caller passes with a type.\<close>

fun class_of :: "ConnEventType \<Rightarrow> ConnEventClass" where
  "class_of t = (if is_read_event t then CONN_EVENT_CLASS_RECEIVE
                 else if is_send_event t then CONN_EVENT_CLASS_SEND
                 else CONN_EVENT_CLASS_CONNECT)"

definition wf_event :: "'b ConnEvent \<Rightarrow> bool" where
  "wf_event e \<longleftrightarrow> ce_class e = class_of (ce_type e)"

section \<open>Buffered send data\<close>

datatype SendBufferOptions = WITH_DATA | EMPTY_OK

definition CONN_IOB_SIZE :: nat where "CONN_IOB_SIZE = 1024 * 64 - 1024"

definition bufferedSendDataFree :: "'b conn \<Rightarrow> 'b conn" where
  "bufferedSendDataFree c = c\<lparr>sendBuffer := None\<rparr>"

definition bufferedSendDataKeep :: "'b iob_ops \<Rightarrow> 'b \<Rightarrow> 'b conn \<Rightarrow> 'b conn" where
  "bufferedSendDataKeep ops b c =
     (if IOBGetUsed ops b \<noteq> [] then c\<lparr>sendBuffer := Some b\<rparr> else c)"

definition bufferedSendDataGet ::
    "'b iob_ops \<Rightarrow> SendBufferOptions \<Rightarrow> 'b conn \<Rightarrow> 'b option \<times> 'b conn" where
  "bufferedSendDataGet ops options c =
     (case sendBuffer c of
        Some iob \<Rightarrow>
          (if IOBGetUsed ops iob \<noteq> [] \<or> options = EMPTY_OK then Some iob else None,
           c\<lparr>sendBuffer := None\<rparr>)
      | None \<Rightarrow> (if options = EMPTY_OK then IOBAlloc ops CONN_IOB_SIZE else None, c))"

section \<open>Inserted events\<close>

definition connEventCreate :: "ptr option \<Rightarrow> 'b ConnEvent \<Rightarrow> 'b conn \<Rightarrow> ptr option \<times> 'b conn" where
  "connEventCreate fresh e c =
     (case fresh of None \<Rightarrow> (None, c) | Some p \<Rightarrow> (Some p, upd_event p (\<lambda>_. e) c))"

definition flushAEventCreate ::
    "ptr option \<Rightarrow> 'b \<Rightarrow> int \<Rightarrow> nat \<Rightarrow> 'b conn \<Rightarrow> ptr option \<times> 'b conn" where
  "flushAEventCreate fresh writeBuffer timeout src c =
     connEventCreate fresh
       (ConnEventAssign None 0 timeout CONN_EVENT_FLUSH CONN_EVENT_CLASS_SEND
          CONN_EVENT_MODE_ASYNCHRONOUS (Some writeBuffer) src c ConnEventInit) c"

definition FlushAEventNeededEx ::
    "'b iob_ops \<Rightarrow> ptr option \<Rightarrow> ptr \<Rightarrow> nat \<Rightarrow> 'b conn \<Rightarrow> bool \<times> ptr option \<times> 'b conn" where
  "FlushAEventNeededEx ops fresh connEvent src c =
     (if ce_class (mem c connEvent) = CONN_EVENT_CLASS_SEND then (False, None, c)
      else case bufferedSendDataGet ops WITH_DATA c of
             (None, c1) \<Rightarrow> (False, None, c1)
           | (Some writeBuffer, c1) \<Rightarrow>
               (True, flushAEventCreate fresh writeBuffer CONN_TIMEOUT_DEFAULT src c1))"

definition SSLDisconnectEventCreate ::
    "ptr option \<Rightarrow> int \<Rightarrow> nat \<Rightarrow> 'b conn \<Rightarrow> ptr option \<times> 'b conn" where
  "SSLDisconnectEventCreate fresh timeout src c =
     connEventCreate fresh
       (ConnEventAssign None 0 timeout CONN_EVENT_SSL_DISCONNECT CONN_EVENT_CLASS_CONNECT
          CONN_EVENT_MODE_ASYNCHRONOUS None src c ConnEventInit) c"

section \<open>Lemmas\<close>

lemma SetTimeout_fields [simp]:
  "ce_type (ConnEventSetTimeout t d e) = ce_type e"
  "ce_class (ConnEventSetTimeout t d e) = ce_class e"
  "ce_mode (ConnEventSetTimeout t d e) = ce_mode e"
  "ce_ioBuffer (ConnEventSetTimeout t d e) = ce_ioBuffer e"
  by (simp_all add: ConnEventSetTimeout_def)

lemma Assign_fields [simp]:
  "ce_type (ConnEventAssign data len timeout t cl md iob src c e) = t"
  "ce_class (ConnEventAssign data len timeout t cl md iob src c e) = cl"
  "ce_mode (ConnEventAssign data len timeout t cl md iob src c e) = md"
  by (simp_all add: ConnEventAssign_def Let_def split: ConnEventType.splits)

lemma Assign_wf: "cl = class_of t \<Longrightarrow>
    wf_event (ConnEventAssign data len timeout t cl md iob src c e)"
  by (simp add: wf_event_def)

end
