(* ===== verification/SockEvent.thy ===== *)
theory SockEvent
  imports ConnTypes
begin

unbundle bit_operations_syntax

text \<open>
  Socket events: the part of \<^verbatim>\<open>src/src/sockcommon.c\<close>, \<^verbatim>\<open>sockunix.c\<close>, \<^verbatim>\<open>sockinline.h\<close>
  and \<^verbatim>\<open>throttle.c\<close> that submits the three embedded events of a \<^verbatim>\<open>SOCK\<close> to the epoll
  engine, takes them out again, kills them, and pauses listeners.  What \<^verbatim>\<open>epoll_ctl()\<close>,
  \<^verbatim>\<open>accept()\<close> and the thread counters answer is an argument.  Every operation runs with
  the socket lock held and is one atomic step; the public functions only add the lock.
\<close>

section \<open>Slots, links and flags (sockinline.h)\<close>

datatype slot = Connect_slot | Receive_slot | Send_slot

fun get_se :: "slot \<Rightarrow> SOCK \<Rightarrow> SocketEvent" where
  "get_se Connect_slot s = ev_connect s"
| "get_se Receive_slot s = ev_receive s"
| "get_se Send_slot s = ev_send s"

fun put_se :: "slot \<Rightarrow> SocketEvent \<Rightarrow> SOCK \<Rightarrow> SOCK" where
  "put_se Connect_slot e s = s\<lparr>ev_connect := e\<rparr>"
| "put_se Receive_slot e s = s\<lparr>ev_receive := e\<rparr>"
| "put_se Send_slot e s = s\<lparr>ev_send := e\<rparr>"

definition SeAddFlags :: "u32 \<Rightarrow> SocketEvent \<Rightarrow> SocketEvent" where
  "SeAddFlags f e = e\<lparr>se_flags := se_flags e OR f\<rparr>"

definition SeRemoveFlags :: "u32 \<Rightarrow> SocketEvent \<Rightarrow> SocketEvent" where
  "SeRemoveFlags f e = e\<lparr>se_flags := se_flags e AND NOT f\<rparr>"

definition SeLinkCe :: "SocketEventType \<Rightarrow> ptr \<Rightarrow> SocketEvent \<Rightarrow> bool \<times> SocketEvent" where
  "SeLinkCe type cbArg se =
     (case se_cbArg se of
        None \<Rightarrow> (True, se\<lparr>se_cbArg := Some cbArg, se_type := type, se_linked := True,
                          se_error := 0\<rparr>)
      | Some _ \<Rightarrow> (False, se))"

definition SeUnlinkCe :: "SocketEvent \<Rightarrow> SocketEvent" where
  "SeUnlinkCe se = se\<lparr>se_cbArg := None, se_linked := False\<rparr>"

text \<open>A call of \<^verbatim>\<open>listener->eventCallback\<close>, when there is one.\<close>

definition notify :: "ListenerEvent list \<Rightarrow> SOCK \<Rightarrow> SOCK" where
  "notify evs s =
     (case listener s of
        Some l \<Rightarrow> if hasEventCallback l then s\<lparr>lev_log := lev_log s @ evs\<rparr> else s
      | None \<Rightarrow> s)"

section \<open>The epoll engine (sockunix.c)\<close>

definition sockEventTranslate :: "SocketEventType \<Rightarrow> SocketEventType" where
  "sockEventTranslate type =
     (if type = SOCK_EVENT_TYPE_DISCONNECT then SOCK_EVENT_TYPE_READABLE
      else if type = SOCK_EVENT_TYPE_CONNECT then SOCK_EVENT_TYPE_WRITABLE
      else type)"

text \<open>
  \<^verbatim>\<open>_SocketTimeoutDelete()\<close> and \<^verbatim>\<open>_SocketTimeoutAdd()\<close> as far as the flag is concerned; the
  timeout lists themselves are in theory \<open>TimeoutWheel\<close>.
\<close>

definition SocketEventComplete :: "SocketEvent \<Rightarrow> bool \<times> SocketEvent" where
  "SocketEventComplete event =
     (let e1 = (if has (se_flags event) FSE_TIMEOUT_PENDING
                then SeRemoveFlags FSE_TIMEOUT_PENDING event else event)
      in if has (se_flags e1) FSE_IN_ENGINE
         then (True, SeRemoveFlags FSE_IN_ENGINE e1)
         else (False, e1))"

text \<open>
  \<open>add_err\<close> is the errno of \<^verbatim>\<open>epoll_ctl( EPOLL_CTL_ADD )\<close>, 0 when it works.
  \<^verbatim>\<open>*doneAlready\<close> is always false on unix.
\<close>

definition sockEventAdd :: "errno \<Rightarrow> slot \<Rightarrow> int \<Rightarrow> SOCK \<Rightarrow> errno \<times> SOCK" where
  "sockEventAdd add_err sl timeOut s =
     (let s1 = put_se sl (SeAddFlags FSE_IN_ENGINE (get_se sl s)) s
      in if add_err \<noteq> 0
         then (add_err, put_se sl (SeRemoveFlags FSE_IN_ENGINE (get_se sl s1)) s1)
         else
           (let s2 = notify [LISTENER_STARTED] s1;
                se = get_se sl s2
            in (0, if timeOut \<noteq> 0 \<and> se_type se \<noteq> SOCK_EVENT_TYPE_LISTEN
                   then put_se sl (SeAddFlags FSE_TIMEOUT_PENDING se) s2 else s2)))"

text \<open>
  \<^verbatim>\<open>killActiveListener()\<close> marks the listener; it then connects to the listening socket to wake
  it up, which is not part of the model's state.
\<close>

definition sockEventKill :: "SocketEvent \<Rightarrow> bool \<times> SocketEvent" where
  "sockEventKill event =
     (let e1 = event\<lparr>se_error := ECANCELED\<rparr>
      in if se_type e1 = SOCK_EVENT_TYPE_LISTEN
         then (False, SeAddFlags FSE_LISTENER_KILLED e1)
         else SocketEventComplete e1)"

text \<open>\<open>mod_err\<close> is the errno of \<^verbatim>\<open>epoll_ctl( EPOLL_CTL_MOD )\<close>, 0 when it works.\<close>

definition SocketEventRequeue :: "errno \<Rightarrow> SocketEvent \<Rightarrow> int \<times> SocketEvent" where
  "SocketEventRequeue mod_err event =
     (if mod_err = 0 then (0, event\<lparr>se_error := 0\<rparr>) else (- 1, event\<lparr>se_error := mod_err\<rparr>))"

definition sockEventListenerRequeue :: "errno \<Rightarrow> SocketEvent \<Rightarrow> bool \<times> SocketEvent" where
  "sockEventListenerRequeue mod_err se =
     (let e1 = SeRemoveFlags (FSE_LISTENER_PAUSED OR FSE_LISTENER_SUSPENDED) se;
          (r, e2) = SocketEventRequeue mod_err e1
      in if r = 0 then (False, e2) else SocketEventComplete e2)"

definition sockEventClean :: "SocketEvent \<Rightarrow> SocketEvent" where
  "sockEventClean se = se\<lparr>se_error := 0, se_flags := 0\<rparr>"

definition sockEventInit :: SocketEvent where
  "sockEventInit = \<lparr>se_type = SOCK_EVENT_TYPE_NONE, se_error = 0, se_flags = 0,
     se_cbArg = None, se_linked = False\<rparr>"

section \<open>Throttling (throttle.c)\<close>

definition listenerThresholdExceeded :: "nat \<Rightarrow> AsyncListener \<Rightarrow> bool" where
  "listenerThresholdExceeded count l \<longleftrightarrow> throttlingThreshold l < count"

definition listenerShouldThrottle :: "nat \<Rightarrow> slot \<Rightarrow> SOCK \<Rightarrow> bool" where
  "listenerShouldThrottle count_read sl s =
     (case listener s of
        None \<Rightarrow> False
      | Some l \<Rightarrow>
          if has (se_flags (get_se sl s)) FSE_LISTENER_SUSPENDED then True
          else if throttlingThreshold l = 0 \<or> \<not> listenerThresholdExceeded count_read l then False
          else True)"

definition listenerStartThrottling :: "nat \<Rightarrow> slot \<Rightarrow> SOCK \<Rightarrow> bool \<times> SOCK" where
  "listenerStartThrottling count_update sl s =
     (case listener s of
        None \<Rightarrow> (False, s)
      | Some l \<Rightarrow>
          if \<not> has (se_flags (get_se sl s)) FSE_LISTENER_SUSPENDED \<or>
             throttlingThreshold l = 0 \<or> \<not> listenerThresholdExceeded count_update l
          then (False, s)
          else
            (let s1 = notify [LISTENER_STOPPED, THROTTLING_STARTED] s
             in (True, put_se sl (SeAddFlags FSE_LISTENER_PAUSED (get_se sl s1)) s1)))"

definition listenerThrottling :: "SocketEvent \<Rightarrow> bool" where
  "listenerThrottling se \<longleftrightarrow>
     \<not> has (se_flags se) FSE_LISTENER_KILLED \<and> has (se_flags se) FSE_LISTENER_PAUSED"

text \<open>
  \<^verbatim>\<open>listenerSpinWhileThrottling()\<close> looks at the flags and at the thread count every 500 ms; in
  between it gives up the lock.  \<open>obs\<close> is what it sees each time round.  \<open>None\<close>: still spinning
  when the observations end.
\<close>

fun listenerSpinWhileThrottling ::
    "(u32 \<times> nat) list \<Rightarrow> nat \<Rightarrow> AsyncListener \<Rightarrow> ListenerEvent list \<Rightarrow>
     (u32 \<times> ListenerEvent list) option" where
  "listenerSpinWhileThrottling [] loopCount l log = None"
| "listenerSpinWhileThrottling ((flags, count) # obs) loopCount l log =
     (if has flags FSE_LISTENER_KILLED then Some (flags, log)
      else if \<not> has flags FSE_LISTENER_SUSPENDED \<and> \<not> listenerThresholdExceeded count l
      then Some (flags, if hasEventCallback l then log @ [THROTTLING_STOPPED] else log)
      else listenerSpinWhileThrottling obs (loopCount + 1) l
             (if hasEventCallback l \<and> (loopCount + 1) mod 16 = 0
              then log @ [THROTTLING_UPDATE] else log))"

section \<open>Submitting, suspending and killing (sockcommon.c)\<close>

definition asyncListenerRelease :: "SOCK \<Rightarrow> SOCK" where
  "asyncListenerRelease s = s\<lparr>listener := None\<rparr>"

text \<open>
  \<open>alloc\<close> tells whether \<^verbatim>\<open>asyncListenerAlloc()\<close> finds memory; \<open>thr\<close> and \<open>lecb\<close> are the
  throttling threshold and whether a listener event callback was passed.
\<close>

definition SocketEventWaitEx ::
    "bool \<Rightarrow> errno \<Rightarrow> nat \<Rightarrow> bool \<Rightarrow> SocketEventType \<Rightarrow> int \<Rightarrow> ptr \<Rightarrow> SOCK \<Rightarrow> errno \<times> SOCK" where
  "SocketEventWaitEx alloc add_err thr lecb type0 timeOut acbArg s =
     (let type = sockEventTranslate type0;
          (err, slo, s1) =
            (case type of
               SOCK_EVENT_TYPE_READABLE \<Rightarrow> (0, Some Receive_slot, s)
             | SOCK_EVENT_TYPE_WRITABLE \<Rightarrow> (0, Some Send_slot, s)
             | SOCK_EVENT_TYPE_LISTEN \<Rightarrow>
                 if has (se_flags (ev_connect s)) FSE_LISTENER_KILLED
                 then (ECONNABORTED, Some Connect_slot, s)
                 else if \<not> alloc then (ENOMEM, Some Connect_slot, s\<lparr>listener := None\<rparr>)
                 else (0, Some Connect_slot,
                   notify [LISTENER_SUBMITTED]
                     (s\<lparr>listener := Some \<lparr>throttlingThreshold = thr, hasEventCallback = lecb,
                                          inAccept = 0\<rparr>\<rparr>))
             | SOCK_EVENT_TYPE_CONNECT \<Rightarrow> (0, Some Connect_slot, s)
             | SOCK_EVENT_TYPE_DISCONNECT \<Rightarrow> (0, Some Connect_slot, s)
             | SOCK_EVENT_TYPE_NONE \<Rightarrow> (ECONNIOBUG, None, s));
          (err2, s2) =
            (case slo of
               None \<Rightarrow> (err, s1)
             | Some sl \<Rightarrow>
                 if err \<noteq> 0 then (err, s1)
                 else if number s1 = SOCKET_INVALID then (ENOTSOCK, s1)
                 else
                   (let (linked, se) = SeLinkCe type acbArg (get_se sl s1)
                    in if \<not> linked then (EBUSY, s1)
                       else
                         (let (e, t) = sockEventAdd add_err sl timeOut (put_se sl se s1)
                          in if e \<noteq> 0 then (e, put_se sl (SeUnlinkCe (get_se sl t)) t)
                             else (0, t))))
      in if err2 \<noteq> 0 then (err2, asyncListenerRelease s2) else (0, s2))"

definition SocketListenerSuspend :: "SOCK \<Rightarrow> bool \<times> SOCK" where
  "SocketListenerSuspend s =
     (case listener s of
        None \<Rightarrow> (False, s)
      | Some l \<Rightarrow>
          if has (se_flags (ev_connect s)) (FSE_LISTENER_KILLED OR FSE_CANCELED) then (False, s)
          else (True, notify [LISTENER_SUSPENDED]
                 (s\<lparr>ev_connect := SeAddFlags FSE_LISTENER_SUSPENDED (ev_connect s)\<rparr>)))"

definition SocketListenerResume :: "SOCK \<Rightarrow> bool \<times> SOCK" where
  "SocketListenerResume s =
     (case listener s of
        None \<Rightarrow> (False, s)
      | Some l \<Rightarrow>
          if has (se_flags (ev_connect s)) FSE_LISTENER_SUSPENDED
          then (True, notify [LISTENER_RESUMED]
                 (s\<lparr>ev_connect := SeRemoveFlags FSE_LISTENER_SUSPENDED (ev_connect s)\<rparr>))
          else (False, s))"

fun kill_slot :: "SocketEventType \<Rightarrow> slot option" where
  "kill_slot SOCK_EVENT_TYPE_READABLE = Some Receive_slot"
| "kill_slot SOCK_EVENT_TYPE_WRITABLE = Some Send_slot"
| "kill_slot SOCK_EVENT_TYPE_LISTEN = Some Connect_slot"
| "kill_slot SOCK_EVENT_TYPE_CONNECT = Some Connect_slot"
| "kill_slot SOCK_EVENT_TYPE_DISCONNECT = Some Connect_slot"
| "kill_slot SOCK_EVENT_TYPE_NONE = None"

text \<open>The boolean result: the event came out of the engine and its callback thread is started.\<close>

definition SocketEventKill :: "SocketEventType \<Rightarrow> SOCK \<Rightarrow> bool \<times> SOCK" where
  "SocketEventKill type s =
     (case kill_slot type of
        None \<Rightarrow> (False, s)
      | Some sl \<Rightarrow>
          (let s1 = snd (SocketListenerResume s);
               (eventComplete, se) = sockEventKill (get_se sl s1)
           in (eventComplete, put_se sl se s1)))"

definition SocketIsIdle :: "SOCK \<Rightarrow> bool" where
  "SocketIsIdle s \<longleftrightarrow>
     \<not> se_linked (ev_connect s) \<and> \<not> se_linked (ev_receive s) \<and> \<not> se_linked (ev_send s)"

section \<open>Events coming out of epoll (sockunix.c)\<close>

abbreviation (input) POLLERR :: u32 where "POLLERR \<equiv> 0x08"
abbreviation (input) POLLHUP :: u32 where "POLLHUP \<equiv> 0x10"
abbreviation (input) POLLNVAL :: u32 where "POLLNVAL \<equiv> 0x20"

definition event_error :: "u32 \<Rightarrow> SocketEvent \<Rightarrow> SocketEvent" where
  "event_error events e =
     (if has events (POLLERR OR POLLHUP OR POLLNVAL) then
        (if has events POLLHUP then e\<lparr>se_error := ECONNRESET\<rparr>
         else if has events POLLNVAL then e\<lparr>se_error := EINVAL\<rparr>
         else e\<lparr>se_error := EIO\<rparr>)
      else e)"

definition complete_slot :: "slot \<Rightarrow> SOCK \<Rightarrow> bool \<times> SOCK" where
  "complete_slot sl s = (let (b, e) = SocketEventComplete (get_se sl s) in (b, put_se sl e s))"

text \<open>\<^verbatim>\<open>_SocketEventRequeue()\<close> of a listener; when it fails the listener stops and comes out.\<close>

definition requeue_listener :: "errno \<Rightarrow> slot \<Rightarrow> SOCK \<Rightarrow> bool \<times> SOCK" where
  "requeue_listener mod_err sl s =
     (let (r, e) = SocketEventRequeue mod_err (get_se sl s); s1 = put_se sl e s
      in if r \<noteq> 0 then complete_slot sl (notify [LISTENER_STOPPED] s1) else (False, s1))"

text \<open>\<^verbatim>\<open>acceptReady()\<close>: one more child in its accept callback.\<close>

definition acceptReady :: "SOCK \<Rightarrow> SOCK" where
  "acceptReady s = s\<lparr>listener := map_option (\<lambda>l. l\<lparr>inAccept := inAccept l + 1\<rparr>) (listener s)\<rparr>"

text \<open>
  \<^verbatim>\<open>_socketEventHandle()\<close>.  \<open>acc\<close> is what \<^verbatim>\<open>accept()\<close> returns, \<open>ae\<close> whether an accept event
  is allocated; the second component of the result is whether it still is.
\<close>

definition socketEventHandle ::
    "int \<Rightarrow> errno \<Rightarrow> nat \<Rightarrow> nat \<Rightarrow> u32 \<Rightarrow> slot \<Rightarrow> bool \<Rightarrow> SOCK \<Rightarrow> bool \<times> bool \<times> SOCK" where
  "socketEventHandle acc mod_err count_read count_update events sl ae s =
     (let s0 = put_se sl (event_error events (get_se sl s)) s
      in case se_type (get_se sl s0) of
           SOCK_EVENT_TYPE_LISTEN \<Rightarrow>
             if has (se_flags (get_se sl s0)) FSE_LISTENER_KILLED then
               (let (b, t) = complete_slot sl (notify [LISTENER_KILLED, LISTENER_STOPPED] s0)
                in (b, ae, t))
             else if acc \<noteq> SOCKET_ERROR then
               (let (ae1, s1) = (if ae then (False, acceptReady s0) else (ae, s0));
                    (start, s2) = (if listenerShouldThrottle count_read sl s1
                                   then listenerStartThrottling count_update sl s1
                                   else (False, s1))
                in if start then (True, ae1, s2)
                   else (let (b, t) = requeue_listener mod_err sl s2 in (b, ae1, t)))
             else (let (b, t) = requeue_listener mod_err sl s0 in (b, ae, t))
         | SOCK_EVENT_TYPE_READABLE \<Rightarrow> (let (b, t) = complete_slot sl s0 in (b, ae, t))
         | SOCK_EVENT_TYPE_WRITABLE \<Rightarrow> (let (b, t) = complete_slot sl s0 in (b, ae, t))
         | _ \<Rightarrow> (let (b, t) = complete_slot sl
                            (put_se sl ((get_se sl s0)\<lparr>se_error := EINVAL\<rparr>) s0)
               in (b, ae, t)))"

text \<open>
  What \<^verbatim>\<open>_PollThread()\<close> does with one event of the array that \<^verbatim>\<open>epoll_wait()\<close> returned, and with
  one event of an expired timeout list: all of them are taken off the list first (\<open>poll_unlist\<close>),
  then each is completed (\<open>poll_expire\<close>), under separate locks.
\<close>

definition poll_dispatch ::
    "int \<Rightarrow> errno \<Rightarrow> nat \<Rightarrow> nat \<Rightarrow> u32 \<Rightarrow> slot \<Rightarrow> bool \<Rightarrow> SOCK \<Rightarrow> bool \<times> bool \<times> SOCK" where
  "poll_dispatch acc mod_err count_read count_update events sl ae s =
     (if has (se_flags (get_se sl s)) FSE_IN_ENGINE
      then socketEventHandle acc mod_err count_read count_update events sl ae s
      else (False, ae, s))"

definition poll_unlist :: "slot \<Rightarrow> SOCK \<Rightarrow> SOCK" where
  "poll_unlist sl s = put_se sl (SeRemoveFlags FSE_TIMEOUT_PENDING (get_se sl s)) s"

definition poll_expire :: "slot \<Rightarrow> SOCK \<Rightarrow> bool \<times> SOCK" where
  "poll_expire sl s = complete_slot sl (put_se sl ((get_se sl s)\<lparr>se_error := ETIMEDOUT\<rparr>) s)"

text \<open>
  \<^verbatim>\<open>HandleSocketEvent()\<close>, the worker thread of an event that came out.  \<open>obs\<close> is what the
  throttling loop sees, \<open>acc_obs\<close> the values of \<^verbatim>\<open>inAccept\<close> the listener sees while it waits for
  its children.  \<open>None\<close>: the thread is still waiting.
\<close>

datatype handled =
    Requeued                               \<comment> \<open>the listener is back in epoll\<close>
  | Restarted                              \<comment> \<open>the thread is started again on the same event\<close>
  | Called ptr SocketEventType errno       \<comment> \<open>\<^verbatim>\<open>cb( cs, cbArg, type, error )\<close>\<close>
  | Called_nothing

definition HandleSocketEvent ::
    "errno \<Rightarrow> (u32 \<times> nat) list \<Rightarrow> int list \<Rightarrow> slot \<Rightarrow> SOCK \<Rightarrow> (handled \<times> SOCK) option" where
  "HandleSocketEvent mod_err obs acc_obs sl s =
     (let se = get_se sl s
      in case (se_type se = SOCK_EVENT_TYPE_LISTEN, listener s) of
           (True, Some l) \<Rightarrow>
             if listenerThrottling se then
               (case listenerSpinWhileThrottling obs 0 l [] of
                  None \<Rightarrow> None
                | Some (flags, log) \<Rightarrow>
                    (let s1 = s\<lparr>lev_log := lev_log s @ log\<rparr>;
                         (complete, e) = sockEventListenerRequeue mod_err (se\<lparr>se_flags := flags\<rparr>);
                         s2 = put_se sl e s1
                     in if complete then Some (Restarted, s2)
                        else Some (Requeued, notify [LISTENER_STARTED] s2)))
             else
               (let s1 = notify [LISTENER_WAITING] (put_se sl (SeUnlinkCe se) s)
                in if \<exists>n \<in> set acc_obs. n < 1
                   then Some (case se_cbArg se of Some a \<Rightarrow> Called a (se_type se) (se_error se)
                                                | None \<Rightarrow> Called_nothing,
                              asyncListenerRelease (notify [LISTENER_RETURNED] s1))
                   else None)
         | _ \<Rightarrow>
             Some (case se_cbArg se of Some a \<Rightarrow> Called a (se_type se) (se_error se)
                                     | None \<Rightarrow> Called_nothing,
                   put_se sl (SeUnlinkCe se) s))"

section \<open>Lemmas\<close>

lemma get_put [simp]: "get_se sl (put_se sl e s) = e"
  by (cases sl) simp_all

lemma get_put_other [simp]: "sl \<noteq> sl' \<Longrightarrow> get_se sl (put_se sl' e s) = get_se sl s"
  by (cases sl; cases sl') simp_all

lemma put_put [simp]: "put_se sl e (put_se sl e' s) = put_se sl e s"
  by (cases sl) simp_all

lemma put_fields [simp]:
  "number (put_se sl e s) = number s" "listener (put_se sl e s) = listener s"
  "ssl_conn (put_se sl e s) = ssl_conn s" "ssl_new (put_se sl e s) = ssl_new s"
  by (cases sl; simp)+

lemma get_notify [simp]: "get_se sl (notify evs s) = get_se sl s"
  by (cases sl) (simp_all add: notify_def split: option.splits)

lemma notify_fields [simp]:
  "listener (notify evs s) = listener s" "number (notify evs s) = number s"
  "ssl_conn (notify evs s) = ssl_conn s" "ssl_new (notify evs s) = ssl_new s"
  "ev_connect (notify evs s) = ev_connect s" "ev_send (notify evs s) = ev_send s"
  "ev_receive (notify evs s) = ev_receive s"
  by (simp_all add: notify_def split: option.splits)

lemma flag_facts [simp]:
  "\<not> has FSE_IN_ENGINE FSE_TIMEOUT_PENDING" "\<not> has FSE_TIMEOUT_PENDING FSE_IN_ENGINE"
  "has FSE_IN_ENGINE FSE_IN_ENGINE" "has FSE_TIMEOUT_PENDING FSE_TIMEOUT_PENDING"
  "\<not> has FSE_IN_ENGINE FSE_LISTENER_KILLED" "has FSE_LISTENER_KILLED FSE_LISTENER_KILLED"
  "\<not> has FSE_LISTENER_KILLED FSE_IN_ENGINE" "\<not> has FSE_LISTENER_SUSPENDED FSE_IN_ENGINE"
  "\<not> has FSE_IN_ENGINE FSE_LISTENER_SUSPENDED" "has FSE_LISTENER_SUSPENDED FSE_LISTENER_SUSPENDED"
  "\<not> has FSE_LISTENER_PAUSED FSE_IN_ENGINE" "\<not> has FSE_IN_ENGINE FSE_LISTENER_PAUSED"
  "has FSE_LISTENER_PAUSED FSE_LISTENER_PAUSED"
  by (simp_all add: has_def)

lemma has_after_remove [simp]:
  "\<not> has (se_flags (SeRemoveFlags f e)) f"
  "\<not> has g f \<Longrightarrow> has (se_flags (SeRemoveFlags f e)) g \<longleftrightarrow> has (se_flags e) g"
  by (simp_all add: SeRemoveFlags_def has_clear_other)

lemma has_after_add [simp]:
  "has (se_flags (SeAddFlags f e)) g \<longleftrightarrow> has (se_flags e) g \<or> has f g"
  by (simp add: SeAddFlags_def has_or)

lemma SocketEventComplete_spec:
  shows SocketEventComplete_result:
      "fst (SocketEventComplete e) \<longleftrightarrow> has (se_flags e) FSE_IN_ENGINE"
    and SocketEventComplete_flags:
      "\<not> has (se_flags (snd (SocketEventComplete e))) FSE_IN_ENGINE"
      "\<not> has (se_flags (snd (SocketEventComplete e))) FSE_TIMEOUT_PENDING"
    and SocketEventComplete_keeps:
      "se_type (snd (SocketEventComplete e)) = se_type e"
      "se_error (snd (SocketEventComplete e)) = se_error e"
      "se_cbArg (snd (SocketEventComplete e)) = se_cbArg e"
  by (simp_all add: SocketEventComplete_def Let_def)
    (simp_all add: SeRemoveFlags_def)

lemma complete_slot_spec:
  "complete_slot sl s = (has (se_flags (get_se sl s)) FSE_IN_ENGINE,
     put_se sl (snd (SocketEventComplete (get_se sl s))) s)"
  using SocketEventComplete_result [of "get_se sl s"]
  by (auto simp: complete_slot_def split: prod.splits)

end
