(* ===== verification/QueueEngine.thy ===== *)
theory QueueEngine
  imports EventData SockEvent "HOL-Library.Monad_Syntax"
begin

text \<open>
  The asynchronous queue engine of \<^verbatim>\<open>src/src/queue.c\<close> (with the active event slots of
  \<^verbatim>\<open>conninline.h\<close>): which event may start, what happens to it when it is done or failed, when
  the transaction is complete, and the functions that feed it (\<^verbatim>\<open>EventEnqueue()\<close>,
  \<^verbatim>\<open>EventsSubmit()\<close>, \<^verbatim>\<open>AsyncEventCallback()\<close>).  A state is the connection together with
  \<open>'w\<close>, everything outside connio (kernel, peer, consumer).  \<^verbatim>\<open>ConnEventProcess()\<close> is the
  argument \<open>proc\<close>; it is called with the event lock released.  \<open>None\<close> is a call that does not
  return.
\<close>

type_synonym ('b, 'w) processor =
  "ptr \<Rightarrow> 'b conn \<times> 'w \<Rightarrow> (ConnEventStatus \<times> 'b conn \<times> 'w) option"

section \<open>Active events (conninline.h)\<close>

definition connEventInProgressSet :: "ptr \<Rightarrow> 'b conn \<Rightarrow> 'b conn" where
  "connEventInProgressSet ce c =
     (case ce_class (mem c ce) of
        CONN_EVENT_CLASS_CONNECT \<Rightarrow> c\<lparr>act_connect := Some ce\<rparr>
      | CONN_EVENT_CLASS_RECEIVE \<Rightarrow> c\<lparr>act_receive := Some ce\<rparr>
      | CONN_EVENT_CLASS_SEND \<Rightarrow> c\<lparr>act_send := Some ce\<rparr>)"

definition connEventInProgressClear :: "ptr \<Rightarrow> 'b conn \<Rightarrow> 'b conn" where
  "connEventInProgressClear ce c =
     (case ce_class (mem c ce) of
        CONN_EVENT_CLASS_CONNECT \<Rightarrow> c\<lparr>act_connect := None\<rparr>
      | CONN_EVENT_CLASS_RECEIVE \<Rightarrow> c\<lparr>act_receive := None\<rparr>
      | CONN_EVENT_CLASS_SEND \<Rightarrow> c\<lparr>act_send := None\<rparr>)"

section \<open>Cancelling\<close>

definition CancelEvent :: "ptr \<Rightarrow> 'b conn \<Rightarrow> 'b conn" where
  "CancelEvent ce c =
     (let c1 = (if ce_type (mem c ce) \<in> {CONN_EVENT_SSL_CONNECT, CONN_EVENT_TLS_CONNECT,
                                         CONN_EVENT_SSL_ACCEPT, CONN_EVENT_TLS_ACCEPT}
                then c\<lparr>sp := (sp c)\<lparr>ssl_new := None\<rparr>\<rparr> else c)
      in upd_event ce (\<lambda>e. e\<lparr>ce_error := ECANCELED\<rparr>) c1)"

definition ConnEventsInProgress :: "'b conn \<Rightarrow> bool" where
  "ConnEventsInProgress c \<longleftrightarrow>
     act_connect c \<noteq> None \<or> act_receive c \<noteq> None \<or> act_send c \<noteq> None"

text \<open>Setting the error of an active event and \<^verbatim>\<open>SocketEventKill()\<close>, which may start a thread.\<close>

definition kill_active :: "ptr \<Rightarrow> SocketEventType \<Rightarrow> 'b conn \<Rightarrow> 'b conn" where
  "kill_active ce type c =
     (let c1 = upd_event ce (\<lambda>e. e\<lparr>ce_error := ECANCELED\<rparr>) c;
          (b, s) = SocketEventKill type (sp c1)
      in c1\<lparr>sp := s, started := (if b then started c1 @ [type] else started c1)\<rparr>)"

definition CancelEventsInProgress :: "ptr option \<Rightarrow> 'b conn \<Rightarrow> 'b conn" where
  "CancelEventsInProgress currentConnEvent c =
     (if ConnEventsInProgress c \<and> number (sp c) \<noteq> SOCKET_INVALID then
        (if act_connect c \<noteq> None \<and> act_connect c \<noteq> currentConnEvent then
           (let ce = the (act_connect c)
            in if ce_type (mem c ce) \<noteq> CONN_EVENT_DISCONNECT \<and>
                  ce_type (mem c ce) \<noteq> CONN_EVENT_SSL_DISCONNECT
               then kill_active ce SOCK_EVENT_TYPE_CONNECT c else c)
         else
           (let c1 = (if act_send c \<noteq> None \<and> act_send c \<noteq> currentConnEvent
                      then kill_active (the (act_send c)) SOCK_EVENT_TYPE_WRITABLE c else c)
            in if act_receive c1 \<noteq> None \<and> act_receive c1 \<noteq> currentConnEvent
               then kill_active (the (act_receive c1)) SOCK_EVENT_TYPE_READABLE c1 else c1))
      else c)"

definition SetAsyncProblem :: "ConnEventStatus \<Rightarrow> errno \<Rightarrow> nat \<Rightarrow> 'b conn \<Rightarrow> bool \<times> 'b conn" where
  "SetAsyncProblem status error src c =
     (case problem c of
        None \<Rightarrow> (True, c\<lparr>problem := Some \<lparr>pr_status = status, pr_error = error, pr_source = src\<rparr>\<rparr>)
      | Some _ \<Rightarrow> (False, c))"

definition EventQueueAbort ::
    "ptr option \<Rightarrow> ConnEventStatus \<Rightarrow> errno \<Rightarrow> nat \<Rightarrow> 'b conn \<Rightarrow> 'b conn option" where
  "EventQueueAbort connEvent status error src c =
     (case SetAsyncProblem status error src c of
        (True, c1) \<Rightarrow> do { c2 \<leftarrow> CancelQueuedEvents c1; Some (CancelEventsInProgress connEvent c2) }
      | (False, c1) \<Rightarrow> Some c1)"

section \<open>Scheduling\<close>

definition ConnEventNext :: "'b conn \<Rightarrow> (ptr option \<times> 'b conn) option" where
  "ConnEventNext c =
     (if problem c \<noteq> None then Some (None, c)
      else if l_head (queue c) = None then Some (None, c)
      else if act_connect c \<noteq> None then Some (None, c)
      else if act_receive c \<noteq> None then
        (if act_send c \<noteq> None then Some (None, c) else GetNextEnqueuedSendEvent c)
      else if act_send c \<noteq> None then GetNextEnqueuedReceiveEvent c
      else Some (GetNextEnqueuedEvent c))"

text \<open>
  \<^verbatim>\<open>ConnEventsProcess()\<close> in its locked sections: choosing the next event (up to the unlock),
  recycling a processed event (after the lock), and leaving.
\<close>

definition grab_and_free :: "'b conn \<Rightarrow> 'b conn option" where
  "grab_and_free c = (case ConnEventFreeListGrab c of (fl, c1) \<Rightarrow> ConnEventFreeListDestroy fl c1)"

definition process_pick :: "'b conn \<Rightarrow> (ptr option \<times> 'b conn) option" where
  "process_pick c =
     do { (r, c1) \<leftarrow> ConnEventNext c;
          case r of
            None \<Rightarrow> Some (None, c1)
          | Some ce \<Rightarrow> do { c2 \<leftarrow> grab_and_free (connEventInProgressSet ce c1); Some (Some ce, c2) } }"

definition count_bytes :: "ptr \<Rightarrow> 'b conn \<Rightarrow> 'b conn" where
  "count_bytes ce c =
     (if ce_class (mem c ce) = CONN_EVENT_CLASS_RECEIVE
      then c\<lparr>bytes_received := bytes_received c + int (ce_transferred (mem c ce))\<rparr>
      else if ce_class (mem c ce) = CONN_EVENT_CLASS_SEND
      then c\<lparr>bytes_sent := bytes_sent c + int (ce_transferred (mem c ce))\<rparr> else c)"

text \<open>The error handling of a processed event.\<close>

definition handle_errors :: "bool \<Rightarrow> ptr \<Rightarrow> 'b conn \<Rightarrow> 'b conn option" where
  "handle_errors shutting ce c =
     (let e = mem c ce
      in if problem c \<noteq> None then Some (CancelEvent ce c)
         else if ce_status e \<in> {CONN_EVENT_TIMED_OUT, CONN_EVENT_FAILED, CONN_EVENT_KILLED}
         then EventQueueAbort (Some ce) (ce_status e) (ce_error e) (ce_source e) c
         else if ce_status e = CONN_EVENT_PARTIAL
         then Some (snd (SetAsyncProblem (ce_status e) (ce_error e) (ce_source e) c))
         else if shutting \<and> ce_type e \<noteq> CONN_EVENT_FLUSH \<and>
                 ce_type e \<noteq> CONN_EVENT_SSL_DISCONNECT \<and> ce_type e \<noteq> CONN_EVENT_DISCONNECT
         then EventQueueAbort (Some ce) CONN_EVENT_KILLED ESHUTDOWN (ce_source e) (CancelEvent ce c)
         else Some c)"

definition process_finish :: "bool \<Rightarrow> ptr \<Rightarrow> 'b conn \<Rightarrow> 'b conn option" where
  "process_finish shutting ce c =
     do { c1 \<leftarrow> handle_errors shutting ce (count_bytes ce (connEventInProgressClear ce c));
          Some (ConnEventFreeListAdd ce c1) }"

definition process_leave :: "'b conn \<Rightarrow> bool \<times> 'b conn" where
  "process_leave c =
     (let c1 = c\<lparr>threads := threads c - 1\<rparr>
      in if l_head (queue c1) \<noteq> None then (True, c1)
         else if ConnEventsInProgress c1 then (True, c1)
         else if state c1 = CONN_STATE_ASYNCHRONOUS_CLIENT then (True, c1)
         else if threads c1 > 0 then (True, c1)
         else (False, c1\<lparr>state := CONN_STATE_ASYNCHRONOUS_ENGINE_COMPLETE\<rparr>))"

partial_function (option) process_loop ::
    "('b, 'w) processor \<Rightarrow> bool \<Rightarrow> ptr option \<Rightarrow> 'b conn \<times> 'w \<Rightarrow> ('b conn \<times> 'w) option" where
  "process_loop proc shutting connEvent cw =
     (case cw of (c, w) \<Rightarrow>
      do { (r, c1) \<leftarrow>
             (case connEvent of
                Some ce \<Rightarrow> do { c1 \<leftarrow> grab_and_free c; Some (Some ce, c1) }
              | None \<Rightarrow> process_pick c);
           case r of
             None \<Rightarrow> Some (c1, w)
           | Some ce \<Rightarrow>
               do { (status, c2, w2) \<leftarrow> proc ce (c1, w);
                    if status = CONN_EVENT_IN_PROGRESS
                    then process_loop proc shutting None (c2, w2)
                    else do { c3 \<leftarrow> process_finish shutting ce c2;
                              process_loop proc shutting None (c3, w2) } } })"

definition ConnEventsProcess ::
    "('b, 'w) processor \<Rightarrow> bool \<Rightarrow> ptr option \<Rightarrow> 'b conn \<times> 'w \<Rightarrow> (bool \<times> 'b conn \<times> 'w) option"
  where
  "ConnEventsProcess proc shutting engineConnEvent cw =
     (case cw of (c, w) \<Rightarrow>
      do { (c1, w1) \<leftarrow> process_loop proc shutting engineConnEvent (c\<lparr>threads := threads c + 1\<rparr>, w);
           case process_leave c1 of (working, c2) \<Rightarrow> Some (working, c2, w1) })"

section \<open>Feeding the queue\<close>

text \<open>The errno that \<^verbatim>\<open>queueingPermitted()\<close> sets when it answers no.\<close>

definition queueingPermitted :: "'b conn \<Rightarrow> bool \<times> errno" where
  "queueingPermitted c =
     (case state c of
        CONN_STATE_IDLE \<Rightarrow> (True, 0)
      | CONN_STATE_ASYNCHRONOUS_CLIENT \<Rightarrow> (True, 0)
      | CONN_STATE_CACHED \<Rightarrow> (False, EINVAL)
      | CONN_STATE_FREE \<Rightarrow> (False, EINVAL)
      | _ \<Rightarrow> (False, EBUSY))"

definition submitProblem :: "'b conn \<Rightarrow> errno" where
  "submitProblem c =
     (case state c of
        CONN_STATE_ASYNCHRONOUS_CLIENT \<Rightarrow> 0
      | CONN_STATE_IDLE \<Rightarrow> EPERM
      | CONN_STATE_CACHED \<Rightarrow> EINVAL
      | CONN_STATE_FREE \<Rightarrow> EINVAL
      | _ \<Rightarrow> EBUSY)"

definition EventEngineQueueAdd :: "bool \<Rightarrow> ptr \<Rightarrow> 'b conn \<Rightarrow> 'b conn" where
  "EventEngineQueueAdd shutting ce c =
     (if problem c = None then
        (if \<not> shutting then EventQueueAppendEvent ce c
         else if ce_type (mem c ce) \<in> {CONN_EVENT_DISCONNECT, CONN_EVENT_SSL_DISCONNECT,
                                       CONN_EVENT_FLUSH}
         then EventQueueAppendEvent ce c
         else ConnEventFreeListAdd ce
                (snd (SetAsyncProblem CONN_EVENT_KILLED ESHUTDOWN (ce_source (mem c ce)) c)))
      else ConnEventFreeListAdd ce c)"

record AsyncSummary =
  sm_sent :: int
  sm_received :: int
  sm_client :: nat
  sm_status :: ConnEventStatus
  sm_problem :: "(errno \<times> nat) option"

definition PreserveAsyncSummary :: "'b conn \<Rightarrow> AsyncSummary" where
  "PreserveAsyncSummary c =
     \<lparr>sm_sent = bytes_sent c, sm_received = bytes_received c, sm_client = cl_client c,
      sm_status = (case problem c of None \<Rightarrow> CONN_EVENT_COMPLETE | Some p \<Rightarrow> pr_status p),
      sm_problem = map_option (\<lambda>p. (pr_error p, pr_source p)) (problem c)\<rparr>"

text \<open>The \<^verbatim>\<open>memset\<close> of the transaction.\<close>

definition PrepareForCallback :: "'b conn \<Rightarrow> AsyncSummary \<times> ptr option \<times> 'b conn" where
  "PrepareForCallback c =
     (let (fl, c1) = ConnEventFreeListGrab c
      in (PreserveAsyncSummary c1, fl,
          c1\<lparr>queue := \<lparr>l_head = None, l_tail = None, l_count = 0\<rparr>, freeList := None,
             bytes_sent := 0, bytes_received := 0, cl_client := 0, problem := None, threads := 0,
             sslEnabled := False, state := CONN_STATE_IDLE\<rparr>))"

datatype consumer_call = Success_callback AsyncSummary | Failure_callback AsyncSummary

definition CallbackAsyncConsumer ::
    "bool \<Rightarrow> AsyncSummary \<Rightarrow> ptr option \<Rightarrow> 'b conn \<Rightarrow> (consumer_call \<times> 'b conn) option" where
  "CallbackAsyncConsumer has_failure_cb summary fl c =
     do { c1 \<leftarrow> ConnEventFreeListDestroy fl c;
          Some (if sm_status summary = CONN_EVENT_COMPLETE \<or> sm_status summary = CONN_EVENT_PARTIAL
                then Success_callback summary
                else if \<not> has_failure_cb then Success_callback summary
                else Failure_callback summary, c1) }"

definition QueueCompleteCallback ::
    "bool \<Rightarrow> 'b conn \<Rightarrow> (consumer_call \<times> 'b conn) option" where
  "QueueCompleteCallback has_failure_cb c =
     (case PrepareForCallback c of (summary, fl, c1) \<Rightarrow>
        CallbackAsyncConsumer has_failure_cb summary fl c1)"

definition sslDisconnectEventNeeded :: "ptr \<Rightarrow> 'b conn \<Rightarrow> bool \<times> 'b conn" where
  "sslDisconnectEventNeeded ce c =
     (if ce_type (mem c ce) \<noteq> CONN_EVENT_DISCONNECT then
        (False, if ce_type (mem c ce) = CONN_EVENT_SSL_CONNECT then c\<lparr>sslEnabled := True\<rparr>
                else if ce_type (mem c ce) = CONN_EVENT_SSL_DISCONNECT
                then c\<lparr>sslEnabled := False\<rparr> else c)
      else if \<not> sslEnabled c then (False, c)
      else (True, c\<lparr>sslEnabled := False\<rparr>))"

definition AsyncQueueStatusInit :: "'b conn \<Rightarrow> 'b conn" where
  "AsyncQueueStatusInit c =
     (if number (sp c) \<noteq> SOCKET_INVALID \<and> ssl_conn (sp c) \<noteq> None
      then c\<lparr>sslEnabled := True\<rparr> else c)"

definition open_transaction :: "'b conn \<Rightarrow> 'b conn" where
  "open_transaction c =
     (if state c \<noteq> CONN_STATE_ASYNCHRONOUS_CLIENT
      then (AsyncQueueStatusInit c)\<lparr>state := CONN_STATE_ASYNCHRONOUS_CLIENT\<rparr> else c)"

text \<open>
  Adding an event that \<^verbatim>\<open>EventEnqueue()\<close> created itself, or aborting the queue when there was
  no memory for it.
\<close>

definition add_inserted ::
    "bool \<Rightarrow> nat \<Rightarrow> ptr option \<Rightarrow> 'b conn \<Rightarrow> 'b conn option" where
  "add_inserted shutting src newEvent c =
     (case newEvent of
        Some e \<Rightarrow> Some (EventEngineQueueAdd shutting e (upd_event e (\<lambda>x. x\<lparr>ce_inserted := True\<rparr>) c))
      | None \<Rightarrow> EventQueueAbort None CONN_EVENT_FAILED ENOMEM src c)"

definition enqueue_events ::
    "'b iob_ops \<Rightarrow> ConnHandleView \<Rightarrow> ptr option \<Rightarrow> ptr option \<Rightarrow> nat \<Rightarrow> ptr \<Rightarrow> 'b conn \<Rightarrow>
     'b conn option" where
  "enqueue_events ops h fresh1 fresh2 src ce c =
     do { c1 \<leftarrow> (case FlushAEventNeededEx ops fresh1 ce src c of
                   (True, ne, d) \<Rightarrow> add_inserted (shuttingDown h) src ne d
                 | (False, _, d) \<Rightarrow> Some d);
          c2 \<leftarrow> (case sslDisconnectEventNeeded ce c1 of
                   (True, d) \<Rightarrow>
                     (case SSLDisconnectEventCreate fresh2 CONN_TIMEOUT_DEFAULT src d of
                        (ne, d1) \<Rightarrow> add_inserted (shuttingDown h) src ne d1)
                 | (False, d) \<Rightarrow> Some d);
          Some (EventEngineQueueAdd (shuttingDown h) ce c2) }"

text \<open>
  \<^verbatim>\<open>EventEnqueue()\<close>: the first component is the result, the second whether
  \<^verbatim>\<open>QueueCompleteNotify()\<close> started the callback thread.  The event is optional.
\<close>

definition EventEnqueue ::
    "'b iob_ops \<Rightarrow> ('b, 'w) processor \<Rightarrow> ConnHandleView \<Rightarrow> ptr option \<Rightarrow> ptr option \<Rightarrow> nat \<Rightarrow>
     ptr option \<Rightarrow> 'b conn \<times> 'w \<Rightarrow> ((errno option \<times> bool) \<times> 'b conn \<times> 'w) option" where
  "EventEnqueue ops proc h fresh1 fresh2 src connEvent cw =
     (case cw of (c, w) \<Rightarrow>
      if \<not> fst (queueingPermitted c) then Some ((Some (snd (queueingPermitted c)), False), c, w)
      else
        do { c2 \<leftarrow> (case connEvent of
                      None \<Rightarrow> Some (open_transaction c)
                    | Some ce \<Rightarrow> enqueue_events ops h fresh1 fresh2 src ce (open_transaction c));
             (working, c3, w3) \<leftarrow>
               (if \<not> has (flags_dynamic h) CONN_HANDLE_DYN_FLAG_WAIT_FOR_SUBMIT
                then ConnEventsProcess proc (shuttingDown h) None (c2, w)
                else Some (True, c2, w));
             Some ((None, \<not> working), c3, w3) })"

definition EventEnqueueFailure :: "errno \<Rightarrow> nat \<Rightarrow> 'b conn \<Rightarrow> (errno \<times> 'b conn) option" where
  "EventEnqueueFailure err src c =
     (case queueingPermitted c of
        (True, _) \<Rightarrow> do { c1 \<leftarrow> EventQueueAbort None CONN_EVENT_FAILED err src (open_transaction c);
                         Some (0, c1) }
      | (False, e) \<Rightarrow> Some (e, c))"

definition EventsQueued :: "'b conn \<Rightarrow> bool" where
  "EventsQueued c \<longleftrightarrow> submitProblem c = 0"

definition EventsSubmit ::
    "('b, 'w) processor \<Rightarrow> ConnHandleView \<Rightarrow> nat \<Rightarrow> nat \<Rightarrow> 'b conn \<times> 'w \<Rightarrow>
     ((bool \<times> bool) \<times> 'b conn \<times> 'w) option" where
  "EventsSubmit proc h client src cw =
     (case cw of (c, w) \<Rightarrow>
      let err = submitProblem c
      in if err \<noteq> 0 \<and> err \<noteq> EPERM then Some ((False, False), c, w)
         else
           (let c1 = (if err \<noteq> 0 then snd (SetAsyncProblem CONN_EVENT_FAILED err src c) else c);
                c2 = c1\<lparr>state := CONN_STATE_ASYNCHRONOUS_ENGINE, cl_client := client\<rparr>
            in do { (working, c3, w3) \<leftarrow> ConnEventsProcess proc (shuttingDown h) None (c2, w);
                    Some ((True, \<not> working), c3, w3) }))"

text \<open>
  \<^verbatim>\<open>AsyncEventCallback()\<close>, called by the thread of a socket event; the boolean tells whether the
  callback thread was started.  A \<^verbatim>\<open>LISTEN\<close> event does not come here.
\<close>

definition AsyncEventCallback ::
    "('b, 'w) processor \<Rightarrow> ConnHandleView \<Rightarrow> ptr \<Rightarrow> SocketEventType \<Rightarrow> errno \<Rightarrow> 'b conn \<times> 'w \<Rightarrow>
     (bool \<times> 'b conn \<times> 'w) option" where
  "AsyncEventCallback proc h ce type error cw =
     (case cw of (c, w) \<Rightarrow>
      let c1 = upd_event ce (\<lambda>e. e\<lparr>ce_error := error\<rparr>) c;
          c2 = (if type = SOCK_EVENT_TYPE_READABLE \<and> ce_type (mem c1 ce) = CONN_EVENT_DISCONNECT \<and>
                   error = ECONNRESET
                then upd_event ce (\<lambda>e. e\<lparr>ce_error := 0\<rparr>) c1 else c1)
      in if type \<in> {SOCK_EVENT_TYPE_READABLE, SOCK_EVENT_TYPE_DISCONNECT,
                    SOCK_EVENT_TYPE_WRITABLE, SOCK_EVENT_TYPE_CONNECT}
         then do { (working, c3, w3) \<leftarrow> ConnEventsProcess proc (shuttingDown h) (Some ce) (c2, w);
                   Some (\<not> working, c3, w3) }
         else Some (False, c1, w))"

definition AsyncListenerCallback :: "ptr \<Rightarrow> errno \<Rightarrow> (SOCK \<Rightarrow> SOCK) \<Rightarrow> 'b conn \<Rightarrow> 'b conn" where
  "AsyncListenerCallback ce error SocketClose c =
     (let c1 = upd_event ce (\<lambda>e. e\<lparr>ce_error := error\<rparr>) c;
          c2 = c1\<lparr>act_connect := None, state := CONN_STATE_IDLE\<rparr>;
          c3 = ConnEventFree ce c2
      in c3\<lparr>sp := SocketClose (sp c3)\<rparr>)"

end
