(* ===== verification/QueueInv.thy ===== *)
theory QueueInv
  imports QueueEngine
begin

text \<open>
  The invariant of the queue engine and what its locked sections do to it.  \<open>events_inv c xs fs\<close>:
  the queue holds the events \<open>xs\<close>, the free list \<open>fs\<close>, the active slots hold events of
  their own class, a state changing event is alone, and no event is in two of these places or has
  been released before.
\<close>

section \<open>The invariant\<close>

definition actives :: "'b conn \<Rightarrow> ptr set" where
  "actives c = set_option (act_connect c) \<union> set_option (act_receive c) \<union> set_option (act_send c)"

definition slots_ok :: "'b conn \<Rightarrow> bool" where
  "slots_ok c \<longleftrightarrow>
     (\<forall>e. act_connect c = Some e \<longrightarrow> ce_class (mem c e) = CONN_EVENT_CLASS_CONNECT) \<and>
     (\<forall>e. act_receive c = Some e \<longrightarrow> ce_class (mem c e) = CONN_EVENT_CLASS_RECEIVE) \<and>
     (\<forall>e. act_send c = Some e \<longrightarrow> ce_class (mem c e) = CONN_EVENT_CLASS_SEND) \<and>
     (act_connect c \<noteq> None \<longrightarrow> act_receive c = None \<and> act_send c = None)"

definition events_inv :: "'b conn \<Rightarrow> ptr list \<Rightarrow> ptr list \<Rightarrow> bool" where
  "events_inv c xs fs \<longleftrightarrow>
     evq c xs \<and> free_events c fs \<and> slots_ok c \<and>
     (\<forall>e \<in> set xs \<union> actives c. wf_event (mem c e)) \<and>
     set xs \<inter> set fs = {} \<and> actives c \<inter> (set xs \<union> set fs) = {} \<and>
     distinct (released c) \<and> set (released c) \<inter> (set xs \<union> set fs \<union> actives c) = {}"

text \<open>All the events a connection knows.\<close>

definition known :: "'b conn \<Rightarrow> ptr list \<Rightarrow> ptr list \<Rightarrow> ptr set" where
  "known c xs fs = set xs \<union> set fs \<union> actives c \<union> set (released c)"

lemmas inv_defs = events_inv_def known_def

lemma events_invD:
  assumes "events_inv c xs fs"
  shows inv_evq: "evq c xs" and inv_free: "free_events c fs" and inv_slots: "slots_ok c"
    and inv_wf: "e \<in> set xs \<union> actives c \<Longrightarrow> wf_event (mem c e)"
    and inv_disj: "set xs \<inter> set fs = {}" "actives c \<inter> (set xs \<union> set fs) = {}"
    and inv_rel: "distinct (released c)" "set (released c) \<inter> (set xs \<union> set fs \<union> actives c) = {}"
  using assms by (auto simp: events_inv_def)

text \<open>
  \<open>same_slots c d\<close>: the same events are active, released, and of the same type and class.
\<close>

definition same_slots :: "'b conn \<Rightarrow> 'b conn \<Rightarrow> bool" where
  "same_slots c d \<longleftrightarrow>
     act_connect d = act_connect c \<and> act_receive d = act_receive c \<and> act_send d = act_send c \<and>
     released d = released c \<and>
     (\<forall>p. ce_type (mem d p) = ce_type (mem c p) \<and> ce_class (mem d p) = ce_class (mem c p))"

lemma same_slots_refl [simp]: "same_slots c c"
  by (simp add: same_slots_def)

lemma same_control_slots: "same_control c d \<Longrightarrow> same_slots c d"
  by (simp add: same_slots_def same_control_fields)

lemma same_slots_trans: "same_slots c d \<Longrightarrow> same_slots d e \<Longrightarrow> same_slots c e"
  by (simp add: same_slots_def)

lemma same_slotsD:
  assumes "same_slots c d"
  shows "actives d = actives c" "released d = released c"
    "wf_event (mem d p) = wf_event (mem c p)" "slots_ok d = slots_ok c"
  using assms by (simp_all add: same_slots_def actives_def wf_event_def slots_ok_def)

lemma events_inv_same:
  assumes "events_inv c xs fs" and "same_slots c d" and "evq d ys" and "free_events d gs"
    and "set ys \<union> set gs \<subseteq> set xs \<union> set fs" and "set ys \<subseteq> set xs" and "set ys \<inter> set gs = {}"
  shows "events_inv d ys gs"
  using assms same_slotsD [OF assms(2)]
  by (simp add: events_inv_def) blast

section \<open>Congruence: what the representation depends on\<close>

lemma evq_cong:
  assumes "queue d = queue c"
    and "\<And>p. p \<in> set xs \<Longrightarrow> ce_next (mem d p) = ce_next (mem c p)"
    and "\<And>p. p \<in> set xs \<Longrightarrow> ce_previous (mem d p) = ce_previous (mem c p)"
  shows "evq d xs = evq c xs"
proof -
  have "dll (nexts d) (prevs d) h t xs = dll (nexts c) (prevs c) h t xs" for h t
    using assms(2,3) by (intro dll_cong) auto
  with assms(1) show ?thesis by (simp add: evq_def)
qed

lemma free_events_cong:
  assumes "freeList d = freeList c" and "\<And>p. p \<in> set fs \<Longrightarrow> ce_next (mem d p) = ce_next (mem c p)"
  shows "free_events d fs = free_events c fs"
  using assms slist_cong [of fs d c] by (auto simp: free_events_def)

text \<open>
  \<open>same_links c d\<close>: queue, free list and links are the same.  This is what an operation does that
  only touches the payload of events, the socket, and the transaction summary.
\<close>

definition same_links :: "'b conn \<Rightarrow> 'b conn \<Rightarrow> bool" where
  "same_links c d \<longleftrightarrow>
     queue d = queue c \<and> freeList d = freeList c \<and>
     (\<forall>p. ce_next (mem d p) = ce_next (mem c p) \<and> ce_previous (mem d p) = ce_previous (mem c p))"

lemma same_linksD:
  assumes "same_links c d"
  shows "evq d xs = evq c xs" "free_events d fs = free_events c fs"
proof -
  show "evq d xs = evq c xs" using assms by (intro evq_cong) (auto simp: same_links_def)
  show "free_events d fs = free_events c fs"
    using assms by (intro free_events_cong) (auto simp: same_links_def)
qed

lemma same_links_refl [simp]: "same_links c c"
  by (simp add: same_links_def)

lemma same_links_trans: "same_links c d \<Longrightarrow> same_links d e \<Longrightarrow> same_links c e"
  by (simp add: same_links_def)

lemma events_inv_links:
  "events_inv c xs fs \<Longrightarrow> same_links c d \<Longrightarrow> same_slots c d \<Longrightarrow> events_inv d xs fs"
  using same_linksD [of c d] by (intro events_inv_same [of c xs fs d]) (auto simp: events_inv_def)

section \<open>Scheduling\<close>

text \<open>Which event the engine starts next, on the list of queued events.\<close>

definition sched :: "'b conn \<Rightarrow> ptr list \<Rightarrow> ptr option" where
  "sched c xs =
     (if problem c \<noteq> None \<or> act_connect c \<noteq> None then None
      else if act_receive c \<noteq> None then
        (if act_send c \<noteq> None then None else next_send_spec c xs)
      else if act_send c \<noteq> None then next_receive_spec c xs
      else first xs)"

lemma next_specs_Nil [simp]: "next_send_spec c [] = None" "next_receive_spec c [] = None"
  by (simp_all add: next_send_spec_def next_receive_spec_def)

lemma ConnEventNext_spec:
  assumes "evq c xs"
  shows "ConnEventNext c = Some (take_out c (sched c xs))"
proof -
  have "l_head (queue c) = first xs" using evlist.repr_peek [OF assms] by (simp add: EventQueuePeek_def)
  then show ?thesis
    using GetNextEnqueuedSendEvent_spec [OF assms] GetNextEnqueuedReceiveEvent_spec [OF assms]
      GetNextEnqueuedEvent_spec [OF assms]
    by (cases xs) (auto simp: ConnEventNext_def sched_def take_out_def)
qed

text \<open>The slot an event of a class occupies.\<close>

fun slot_of :: "ConnEventClass \<Rightarrow> 'b conn \<Rightarrow> ptr option" where
  "slot_of CONN_EVENT_CLASS_CONNECT c = act_connect c"
| "slot_of CONN_EVENT_CLASS_RECEIVE c = act_receive c"
| "slot_of CONN_EVENT_CLASS_SEND c = act_send c"

lemma sched_in:
  assumes "sched c xs = Some e"
  shows "e \<in> set xs"
  using assms next_send_spec_in [of c xs e] next_receive_spec_in [of c xs e]
  by (auto simp: sched_def split: if_splits list.splits)

lemma sched_slot_free:
  assumes "sched c xs = Some e" and "wf_event (mem c e)"
  shows "problem c = None" "act_connect c = None" "slot_of (ce_class (mem c e)) c = None"
    "ce_class (mem c e) = CONN_EVENT_CLASS_CONNECT \<longrightarrow> actives c = {}"
proof -
  show "problem c = None" "act_connect c = None"
    using assms(1) by (auto simp: sched_def split: if_splits)
  have "(act_receive c = None \<and> act_send c = None) \<or>
      (act_receive c \<noteq> None \<and> act_send c = None \<and> is_send_event (ce_type (mem c e))) \<or>
      (act_receive c = None \<and> act_send c \<noteq> None \<and> is_read_event (ce_type (mem c e)))"
    using assms(1) next_send_spec_in [of c xs e] next_receive_spec_in [of c xs e]
    by (auto simp: sched_def split: if_splits)
  with assms(2) \<open>act_connect c = None\<close>
  show "slot_of (ce_class (mem c e)) c = None"
    "ce_class (mem c e) = CONN_EVENT_CLASS_CONNECT \<longrightarrow> actives c = {}"
    by (auto simp: wf_event_def actives_def)
qed

section \<open>Releasing events\<close>

lemma FreeResources_fields [simp]:
  "ce_next (ConnEventFreeResources e) = ce_next e"
  "ce_previous (ConnEventFreeResources e) = ce_previous e"
  "ce_type (ConnEventFreeResources e) = ce_type e"
  "ce_class (ConnEventFreeResources e) = ce_class e"
  "ce_error (ConnEventFreeResources e) = ce_error e"
  "ce_status (ConnEventFreeResources e) = ce_status e"
  "ce_transferred (ConnEventFreeResources e) = ce_transferred e"
  "ce_source (ConnEventFreeResources e) = ce_source e"
  by (simp_all add: ConnEventFreeResources_def split: option.splits)

definition freed :: "ptr list \<Rightarrow> (ptr \<Rightarrow> 'b ConnEvent) \<Rightarrow> ptr \<Rightarrow> 'b ConnEvent" where
  "freed fs m p = (if p \<in> set fs then ConnEventFreeResources (m p) else m p)"

lemma freed_Nil [simp]: "freed [] m = m"
  by (simp add: freed_def fun_eq_iff)

lemma freed_Cons:
  "x \<notin> set fs \<Longrightarrow>
     freed fs (\<lambda>a. if a = x then ConnEventFreeResources (m x) else m a) = freed (x # fs) m"
  by (auto simp: freed_def fun_eq_iff)

lemma freed_fields [simp]:
  "ce_next (freed fs m p) = ce_next (m p)" "ce_previous (freed fs m p) = ce_previous (m p)"
  "ce_type (freed fs m p) = ce_type (m p)" "ce_class (freed fs m p) = ce_class (m p)"
  by (simp_all add: freed_def)

lemma ConnEventFreeListDestroy_spec:
  "slist c h fs \<Longrightarrow> distinct fs \<Longrightarrow>
     ConnEventFreeListDestroy h c =
       Some (c\<lparr>mem := freed fs (mem c),
               released := released c @ fs\<rparr>)"
proof (induction fs arbitrary: c h)
  case Nil
  then show ?case by (subst ConnEventFreeListDestroy.simps) simp
next
  case (Cons x fs)
  have "slist (ConnEventFree x c) (ce_next (mem c x)) fs"
    using Cons.prems by (subst slist_cong [where c = c]) (auto simp: ConnEventFree_def)
  from Cons.IH [OF this] Cons.prems show ?case
    by (subst ConnEventFreeListDestroy.simps)
      (simp add: ConnEventFree_def upd_event_def freed_Cons)
qed

lemma grab_and_free_spec:
  assumes "free_events c fs"
  shows "grab_and_free c =
      Some (c\<lparr>freeList := None,
              mem := freed fs (mem c),
              released := released c @ fs\<rparr>)"
proof -
  have "slist (c\<lparr>freeList := None\<rparr>) (freeList c) fs" "distinct fs"
    using assms slist_ext [of "c\<lparr>freeList := None\<rparr>" c] by (simp_all add: free_events_def)
  from ConnEventFreeListDestroy_spec [OF this] show ?thesis
    by (simp add: grab_and_free_def ConnEventFreeListGrab_def)
qed

lemma evq_grab:
  assumes "evq c xs"
  shows "evq (c\<lparr>freeList := None,
              mem := freed fs (mem c),
              released := r\<rparr>) xs"
  using assms by (subst evq_cong [where c = c]) auto

text \<open>The fields of the transaction that releasing and choosing events leave alone.\<close>

definition same_trans :: "'b conn \<Rightarrow> 'b conn \<Rightarrow> bool" where
  "same_trans c d \<longleftrightarrow>
     problem d = problem c \<and> threads d = threads c \<and> state d = state c \<and>
     bytes_sent d = bytes_sent c \<and> bytes_received d = bytes_received c \<and>
     cl_client d = cl_client c"

lemma same_control_trans_fields: "same_control c d \<Longrightarrow> same_trans c d"
  by (simp add: same_trans_def same_control_fields)

lemma same_trans_refl [simp]: "same_trans c c"
  by (simp add: same_trans_def)

lemma same_trans_trans: "same_trans c d \<Longrightarrow> same_trans d e \<Longrightarrow> same_trans c e"
  by (simp add: same_trans_def)

lemma grab_and_free_inv:
  assumes "events_inv c xs fs"
  shows "\<exists>c'. grab_and_free c = Some c' \<and> events_inv c' xs [] \<and>
    actives c' = actives c \<and> same_trans c c' \<and> known c' xs [] = known c xs fs"
proof -
  let ?c = "c\<lparr>freeList := None, mem := freed fs (mem c), released := released c @ fs\<rparr>"
  from assms have "evq ?c xs" by (intro evq_grab) (rule inv_evq)
  moreover have "distinct fs" using inv_free [OF assms] by (simp add: free_events_def)
  moreover have "actives ?c = actives c" by (simp add: actives_def)
  moreover have "slots_ok ?c" using inv_slots [OF assms] by (simp add: slots_ok_def)
  moreover have "free_events ?c []" by (simp add: free_events_def)
  ultimately have "events_inv ?c xs []"
    using assms by (auto simp: events_inv_def wf_event_def)
  with grab_and_free_spec [OF inv_free [OF assms]] show ?thesis
    by (auto simp: known_def actives_def same_trans_def)
qed

section \<open>Starting an event\<close>

lemma set_fields [simp]:
  "mem (connEventInProgressSet e c) = mem c" "queue (connEventInProgressSet e c) = queue c"
  "freeList (connEventInProgressSet e c) = freeList c"
  "released (connEventInProgressSet e c) = released c"
  by (simp_all add: connEventInProgressSet_def split: ConnEventClass.splits)

lemma set_same_trans: "same_trans c (connEventInProgressSet e c)"
  by (simp add: connEventInProgressSet_def same_trans_def split: ConnEventClass.splits)

lemma set_actives:
  "slot_of (ce_class (mem c e)) c = None \<Longrightarrow> actives (connEventInProgressSet e c) = insert e (actives c)"
  by (auto simp: connEventInProgressSet_def actives_def split: ConnEventClass.splits)

lemma set_slots_ok:
  assumes "slots_ok c" and "act_connect c = None"
    and "ce_class (mem c e) = CONN_EVENT_CLASS_CONNECT \<longrightarrow> actives c = {}"
  shows "slots_ok (connEventInProgressSet e c)"
  using assms
  by (cases "ce_class (mem c e)") (simp_all add: connEventInProgressSet_def slots_ok_def actives_def)

lemma start_inv:
  assumes inv: "events_inv c xs fs" and s: "sched c xs = Some e"
  shows "events_inv (connEventInProgressSet e (EventQueueRemoveEvent e c)) (remove1 e xs) fs"
    and "actives (connEventInProgressSet e (EventQueueRemoveEvent e c)) = insert e (actives c)"
    and "e \<in> set xs" and "e \<notin> actives c"
proof -
  let ?c1 = "EventQueueRemoveEvent e c" and ?c2 = "connEventInProgressSet e (EventQueueRemoveEvent e c)"
  note sc = remove_same_control [of c e]
  note ss = same_control_slots [OF sc]
  show e: "e \<in> set xs" by (rule sched_in [OF s])
  then show e2: "e \<notin> actives c" using inv_disj [OF inv] by auto
  have wf: "wf_event (mem c e)" using inv_wf [OF inv] e by simp
  note free = sched_slot_free [OF s wf]
  have slot: "slot_of (ce_class (mem ?c1 e)) ?c1 = None"
    using free(3) same_control_fields [OF sc] by (cases "ce_class (mem c e)") auto
  show a: "actives ?c2 = insert e (actives c)"
    using set_actives [OF slot] same_slotsD [OF ss] by simp
  have "slots_ok ?c2"
    using free same_control_fields [OF sc] same_slotsD [OF ss] inv_slots [OF inv]
    by (intro set_slots_ok) auto
  moreover have "evq ?c2 (remove1 e xs)"
    using evq_remove [OF inv_evq [OF inv] e] by (subst evq_cong [where c = ?c1]) auto
  moreover have "free_events ?c2 fs"
    using free_events_remove [OF inv_evq [OF inv] e inv_free [OF inv]] inv_disj [OF inv]
    by (subst free_events_cong [where c = ?c1]) auto
  moreover have "distinct xs" using evlist.repr_distinct [OF inv_evq [OF inv]] .
  ultimately show "events_inv ?c2 (remove1 e xs) fs"
    using inv a e same_slotsD [OF ss] wf
    by (auto simp: events_inv_def same_control_fields [OF sc] wf_event_def set_remove1_eq
        dest: inv_wf [OF inv])
qed

lemma known_start:
  "e \<in> set xs \<Longrightarrow> distinct xs \<Longrightarrow> actives d = insert e (actives c) \<Longrightarrow> released d = released c \<Longrightarrow>
     known d (remove1 e xs) fs = known c xs fs"
  by (auto simp: known_def set_remove1_eq)

lemma process_pick_None:
  "events_inv c xs fs \<Longrightarrow> sched c xs = None \<Longrightarrow> process_pick c = Some (None, c)"
  using ConnEventNext_spec [OF inv_evq [of c xs fs]] by (simp add: process_pick_def take_out_def)

lemma process_pick_Some:
  assumes inv: "events_inv c xs fs" and s: "sched c xs = Some e"
  shows "\<exists>c'. process_pick c = Some (Some e, c') \<and> events_inv c' (remove1 e xs) [] \<and>
    actives c' = insert e (actives c) \<and> e \<in> set xs \<and> e \<notin> actives c \<and> same_trans c c' \<and>
    known c' (remove1 e xs) [] = known c xs fs"
proof -
  let ?c1 = "EventQueueRemoveEvent e c" and ?c2 = "connEventInProgressSet e (EventQueueRemoveEvent e c)"
  note st = start_inv [OF inv s]
  obtain c' where g: "grab_and_free ?c2 = Some c'" "events_inv c' (remove1 e xs) []"
    "actives c' = actives ?c2" "same_trans ?c2 c'"
    "known c' (remove1 e xs) [] = known ?c2 (remove1 e xs) fs"
    using grab_and_free_inv [OF st(1)] by blast
  have "same_trans c c'"
    using same_control_trans_fields [OF remove_same_control] set_same_trans g(4)
    by (blast intro: same_trans_trans)
  moreover have "known ?c2 (remove1 e xs) fs = known c xs fs"
    using same_control_fields(1) [OF remove_same_control [of c e]]
    by (intro known_start [OF st(3) evlist.repr_distinct [OF inv_evq [OF inv]] st(2)]) simp
  ultimately show ?thesis
    using g st ConnEventNext_spec [OF inv_evq [OF inv]] s
    by (simp add: process_pick_def take_out_def)
qed

section \<open>Cancelling and aborting\<close>

text \<open>\<open>quiet c d\<close>: the step changed no link, no slot and no field of the transaction.\<close>

definition quiet :: "'b conn \<Rightarrow> 'b conn \<Rightarrow> bool" where
  "quiet c d \<longleftrightarrow> same_links c d \<and> same_slots c d \<and> same_trans c d"

lemma quiet_refl [simp]: "quiet c c"
  by (simp add: quiet_def)

lemma quiet_trans: "quiet c d \<Longrightarrow> quiet d e \<Longrightarrow> quiet c e"
  unfolding quiet_def by (blast intro: same_links_trans same_slots_trans same_trans_trans)

lemma quiet_inv:
  assumes "quiet c d" and "events_inv c xs fs"
  shows "events_inv d xs fs" and "actives d = actives c" and "known d xs fs = known c xs fs"
  using assms events_inv_links [of c xs fs d] same_slotsD [of c d]
  by (auto simp: quiet_def known_def)

lemma quiet_error: "quiet c (upd_event e (\<lambda>x. x\<lparr>ce_error := v\<rparr>) c)"
  by (simp add: quiet_def same_links_def same_slots_def same_trans_def)

lemma quiet_sp: "quiet c (c\<lparr>sp := s\<rparr>)" "quiet c (c\<lparr>sp := s, started := t\<rparr>)"
  by (simp_all add: quiet_def same_links_def same_slots_def same_trans_def)

lemma quiet_kill_active: "quiet c (kill_active e t c)"
  unfolding kill_active_def Let_def
  by (auto split: prod.splits intro!: quiet_trans [OF quiet_error quiet_sp(2)])

lemma quiet_CancelEvent: "quiet c (CancelEvent e c)"
  unfolding CancelEvent_def Let_def
  by (auto intro!: quiet_error quiet_trans [OF quiet_sp(1) quiet_error])

lemma quiet_CancelEventsInProgress: "quiet c (CancelEventsInProgress ce c)"
  unfolding CancelEventsInProgress_def Let_def
  by (auto intro!: quiet_kill_active quiet_trans [OF quiet_kill_active quiet_kill_active])

lemma SetAsyncProblem_inv:
  assumes "events_inv c xs fs"
  shows "events_inv (snd (SetAsyncProblem st er src c)) xs fs"
    and "actives (snd (SetAsyncProblem st er src c)) = actives c"
    and "known (snd (SetAsyncProblem st er src c)) xs fs = known c xs fs"
proof -
  have "same_links c (snd (SetAsyncProblem st er src c))"
    and ss: "same_slots c (snd (SetAsyncProblem st er src c))"
    by (auto simp: SetAsyncProblem_def same_links_def same_slots_def split: option.splits)
  with assms show "events_inv (snd (SetAsyncProblem st er src c)) xs fs"
    by (rule events_inv_links)
  show "actives (snd (SetAsyncProblem st er src c)) = actives c"
    "known (snd (SetAsyncProblem st er src c)) xs fs = known c xs fs"
    using same_slotsD [OF ss] by (simp_all add: known_def)
qed

lemma EventQueueAbort_again: "problem c \<noteq> None \<Longrightarrow> EventQueueAbort ce st er src c = Some c"
  by (auto simp: EventQueueAbort_def SetAsyncProblem_def)

lemma EventQueueAbort_first:
  assumes inv: "events_inv c xs fs" and p: "problem c = None"
  shows "\<exists>d. EventQueueAbort ce st er src c = Some d \<and> events_inv d [] (rev xs @ fs) \<and>
    actives d = actives c \<and> known d [] (rev xs @ fs) = known c xs fs \<and>
    problem d = Some \<lparr>pr_status = st, pr_error = er, pr_source = src\<rparr> \<and>
    same_trans (c\<lparr>problem := problem d\<rparr>) d"
proof -
  let ?c1 = "c\<lparr>problem := Some \<lparr>pr_status = st, pr_error = er, pr_source = src\<rparr>\<rparr>"
  have c1: "SetAsyncProblem st er src c = (True, ?c1)" using p by (simp add: SetAsyncProblem_def)
  have i1: "events_inv ?c1 xs fs" "actives ?c1 = actives c" "known ?c1 xs fs = known c xs fs"
    using SetAsyncProblem_inv [OF inv, of st er src] by (simp_all add: c1)
  obtain c2 where c2: "CancelQueuedEvents ?c1 = Some c2" "evq c2 []" "free_events c2 (rev xs @ fs)"
    "same_control ?c1 c2"
    using CancelQueuedEvents_moves [OF inv_evq [OF i1(1)] inv_free [OF i1(1)]] inv_disj [OF i1(1)]
    by auto
  note ss = same_slotsD [OF same_control_slots [OF c2(4)]]
  have i2: "events_inv c2 [] (rev xs @ fs)"
    by (rule events_inv_same [OF i1(1) same_control_slots [OF c2(4)] c2(2,3)]) auto
  note q = quiet_CancelEventsInProgress [of c2 ce]
  note i3 = quiet_inv [OF q i2]
  have "known c2 [] (rev xs @ fs) = known ?c1 xs fs" using ss by (auto simp: known_def)
  moreover have t: "same_trans ?c1 (CancelEventsInProgress ce c2)"
    using same_control_trans_fields [OF c2(4)] q by (auto simp: quiet_def intro: same_trans_trans)
  moreover have "problem (CancelEventsInProgress ce c2) = problem ?c1" using t by (simp add: same_trans_def)
  ultimately show ?thesis
    using i1 i3 c1 c2 ss by (simp add: EventQueueAbort_def)
qed

section \<open>Recycling a processed event\<close>

lemma active_slot:
  "slots_ok c \<Longrightarrow> e \<in> actives c \<Longrightarrow> slot_of (ce_class (mem c e)) c = Some e"
  by (auto simp: slots_ok_def actives_def)

lemma clear_inv:
  assumes inv: "events_inv c xs fs" and e: "e \<in> actives c"
  defines "d \<equiv> connEventInProgressClear e c"
  shows "events_inv d xs fs" and "actives d = actives c - {e}" and "same_trans c d"
    and "mem d = mem c" and "released d = released c"
proof -
  have slot: "slot_of (ce_class (mem c e)) c = Some e" by (rule active_slot [OF inv_slots [OF inv] e])
  show m: "mem d = mem c" and r: "released d = released c" and "same_trans c d"
    by (simp_all add: d_def connEventInProgressClear_def same_trans_def split: ConnEventClass.splits)
  have l: "same_links c d"
    by (simp add: d_def connEventInProgressClear_def same_links_def split: ConnEventClass.splits)
  show a: "actives d = actives c - {e}"
    using slot inv_slots [OF inv]
    by (cases "ce_class (mem c e)")
      (auto simp: d_def connEventInProgressClear_def actives_def slots_ok_def)
  have "slots_ok d" using inv_slots [OF inv]
    by (cases "ce_class (mem c e)") (simp_all add: d_def connEventInProgressClear_def slots_ok_def)
  then show "events_inv d xs fs"
    using inv a m r same_linksD [OF l] by (auto simp: events_inv_def)
qed

lemma count_bytes_inv:
  assumes "events_inv c xs fs"
  shows "events_inv (count_bytes e c) xs fs" and "actives (count_bytes e c) = actives c"
    and "mem (count_bytes e c) = mem c" and "released (count_bytes e c) = released c"
    and "problem (count_bytes e c) = problem c" "threads (count_bytes e c) = threads c"
    and "state (count_bytes e c) = state c"
proof -
  have "same_links c (count_bytes e c)" "same_slots c (count_bytes e c)"
    by (simp_all add: count_bytes_def same_links_def same_slots_def)
  with assms show "events_inv (count_bytes e c) xs fs" by (rule events_inv_links)
qed (simp_all add: count_bytes_def actives_def)

lemma free_add_inv:
  assumes inv: "events_inv c xs fs" and e: "e \<notin> known c xs fs"
  shows "events_inv (ConnEventFreeListAdd e c) xs (e # fs)"
    and "actives (ConnEventFreeListAdd e c) = actives c"
    and "known (ConnEventFreeListAdd e c) xs (e # fs) = insert e (known c xs fs)"
    and "same_trans c (ConnEventFreeListAdd e c)"
proof -
  note sc = free_add_same_control [of c e]
  note ss = same_slotsD [OF same_control_slots [OF sc]]
  have "evq (ConnEventFreeListAdd e c) xs" "free_events (ConnEventFreeListAdd e c) (e # fs)"
    using evq_free_add [OF inv_evq [OF inv]] free_events_add [OF inv_free [OF inv]] e
    by (auto simp: known_def)
  then show "events_inv (ConnEventFreeListAdd e c) xs (e # fs)"
    using inv e ss by (auto simp: events_inv_def known_def)
  show "actives (ConnEventFreeListAdd e c) = actives c" by (rule ss)
  then show "known (ConnEventFreeListAdd e c) xs (e # fs) = insert e (known c xs fs)"
    using ss by (auto simp: known_def)
  show "same_trans c (ConnEventFreeListAdd e c)" by (rule same_control_trans_fields [OF sc])
qed

text \<open>
  What the middle part of recycling, and every other abort, does: the problem is set at most once,
  the queue is kept or moved to the free list, and nothing else of the engine changes.
\<close>

definition settles :: "'b conn \<Rightarrow> ptr list \<Rightarrow> ptr list \<Rightarrow> 'b conn \<Rightarrow> ptr list \<Rightarrow> ptr list \<Rightarrow> bool" where
  "settles c xs fs d ys gs \<longleftrightarrow>
     events_inv d ys gs \<and> actives d = actives c \<and> known d ys gs = known c xs fs \<and>
     threads d = threads c \<and> state d = state c \<and>
     bytes_sent d = bytes_sent c \<and> bytes_received d = bytes_received c \<and>
     (problem c \<noteq> None \<longrightarrow> problem d = problem c) \<and> (ys = xs \<or> ys = [])"

lemma settles_quiet: "quiet c d \<Longrightarrow> events_inv c xs fs \<Longrightarrow> settles c xs fs d xs fs"
  using quiet_inv [of c d xs fs] by (auto simp: settles_def quiet_def same_trans_def)

lemma settles_trans:
  "settles c xs fs d ys gs \<Longrightarrow> settles d ys gs e zs hs \<Longrightarrow> settles c xs fs e zs hs"
  by (auto simp: settles_def)

lemma settles_problem:
  "events_inv c xs fs \<Longrightarrow> settles c xs fs (snd (SetAsyncProblem st er src c)) xs fs"
  using SetAsyncProblem_inv [of c xs fs st er src]
  by (auto simp: settles_def SetAsyncProblem_def split: option.splits)

lemma settles_abort:
  assumes "events_inv c xs fs"
  shows "\<exists>d ys gs. EventQueueAbort ce st er src c = Some d \<and> settles c xs fs d ys gs \<and>
    problem d \<noteq> None"
proof (cases "problem c")
  case None
  from EventQueueAbort_first [OF assms None, of ce st er src] obtain d where
    d: "EventQueueAbort ce st er src c = Some d" "events_inv d [] (rev xs @ fs)"
      "actives d = actives c" "known d [] (rev xs @ fs) = known c xs fs"
      "problem d = Some \<lparr>pr_status = st, pr_error = er, pr_source = src\<rparr>"
      "same_trans (c\<lparr>problem := problem d\<rparr>) d" by blast
  then have "settles c xs fs d [] (rev xs @ fs)"
    using None by (simp add: settles_def same_trans_def)
  with d(1,5) show ?thesis by auto
next
  case (Some p)
  then have "EventQueueAbort ce st er src c = Some c" by (simp add: EventQueueAbort_again)
  with Some settles_quiet [OF quiet_refl assms] show ?thesis by blast
qed

lemma handle_errors_settles:
  assumes inv: "events_inv c xs fs"
  shows "\<exists>d ys gs. handle_errors sd e c = Some d \<and> settles c xs fs d ys gs"
proof -
  have can: "settles c xs fs (CancelEvent e c) xs fs"
    by (rule settles_quiet [OF quiet_CancelEvent inv])
  then have ci: "events_inv (CancelEvent e c) xs fs" by (simp add: settles_def)
  let ?e = "mem c e"
  consider "problem c \<noteq> None"
    | "problem c = None" "ce_status ?e \<in> {CONN_EVENT_TIMED_OUT, CONN_EVENT_FAILED, CONN_EVENT_KILLED}"
    | "problem c = None" "ce_status ?e = CONN_EVENT_PARTIAL"
    | "problem c = None" "ce_status ?e \<notin> {CONN_EVENT_TIMED_OUT, CONN_EVENT_FAILED, CONN_EVENT_KILLED}"
      "ce_status ?e \<noteq> CONN_EVENT_PARTIAL" by blast
  then show ?thesis
  proof cases
    case 1
    with can show ?thesis by (auto simp: handle_errors_def Let_def)
  next
    case 2
    then have "handle_errors sd e c =
        EventQueueAbort (Some e) (ce_status ?e) (ce_error ?e) (ce_source ?e) c"
      by (simp add: handle_errors_def Let_def)
    with settles_abort [OF inv] show ?thesis by metis
  next
    case 3
    then have "handle_errors sd e c =
        Some (snd (SetAsyncProblem (ce_status ?e) (ce_error ?e) (ce_source ?e) c))"
      by (simp add: handle_errors_def Let_def)
    with settles_problem [OF inv] show ?thesis by blast
  next
    case 4
    obtain d ys gs where "EventQueueAbort (Some e) CONN_EVENT_KILLED ESHUTDOWN (ce_source ?e)
        (CancelEvent e c) = Some d" "settles (CancelEvent e c) xs fs d ys gs"
      using settles_abort [OF ci] by blast
    with 4 settles_trans [OF can] settles_quiet [OF quiet_refl inv] show ?thesis
      by (simp add: handle_errors_def Let_def) blast
  qed
qed

lemma process_finish_inv:
  assumes inv: "events_inv c xs fs" and e: "e \<in> actives c"
  shows "\<exists>d ys gs. process_finish sd e c = Some d \<and> events_inv d ys (e # gs) \<and>
    actives d = actives c - {e} \<and> known d ys (e # gs) = known c xs fs \<and>
    threads d = threads c \<and> state d = state c \<and>
    (problem c \<noteq> None \<longrightarrow> problem d = problem c) \<and> (ys = xs \<or> ys = [])"
proof -
  let ?c1 = "count_bytes e (connEventInProgressClear e c)"
  note cl = clear_inv [OF inv e]
  note cb = count_bytes_inv [OF cl(1), of e]
  obtain c2 ys gs where m: "handle_errors sd e ?c1 = Some c2" and s: "settles ?c1 xs fs c2 ys gs"
    using handle_errors_settles [OF cb(1)] by blast
  have k: "known ?c1 xs fs = known c xs fs - {e}"
    using cl cb inv e by (auto simp: known_def events_inv_def)
  then have "e \<notin> known c2 ys gs" using s by (simp add: settles_def)
  from free_add_inv [OF _ this] s have
    "events_inv (ConnEventFreeListAdd e c2) ys (e # gs)"
    "actives (ConnEventFreeListAdd e c2) = actives ?c1"
    "known (ConnEventFreeListAdd e c2) ys (e # gs) = insert e (known ?c1 xs fs)"
    "same_trans c2 (ConnEventFreeListAdd e c2)" by (simp_all add: settles_def)
  moreover have "process_finish sd e c = Some (ConnEventFreeListAdd e c2)"
    using m by (simp add: process_finish_def)
  moreover have "insert e (known ?c1 xs fs) = known c xs fs" using k e by (auto simp: known_def)
  ultimately show ?thesis using s cl cb by (auto simp: settles_def same_trans_def)
qed

end
