(* ===== verification/QueueLoop.thy ===== *)
theory QueueLoop
  imports QueueInv
begin

text \<open>
  \<^verbatim>\<open>ConnEventsProcess()\<close> run by one thread.  The locale \<open>event_processor\<close> is the contract
  between the queue engine and \<^verbatim>\<open>ConnEventProcess()\<close>: working on an event never touches the
  queue, the free list, the active slots or the transaction.  Theory \<open>Process\<close> interprets it.
\<close>

text \<open>The state after the loop: nothing else can be started.\<close>

definition loop_post :: "'b conn \<Rightarrow> ptr list \<Rightarrow> ptr list \<Rightarrow> 'b conn \<Rightarrow> bool" where
  "loop_post c xs fs d \<longleftrightarrow>
     (\<exists>ys gs. events_inv d ys gs \<and> known d ys gs = known c xs fs \<and> sched d ys = None \<and>
        set ys \<subseteq> set xs) \<and>
     threads d = threads c \<and> state d = state c \<and> (problem c \<noteq> None \<longrightarrow> problem d = problem c)"

lemma loop_post_trans:
  assumes "loop_post d ys gs d'" and "known d ys gs = known c xs fs" and "set ys \<subseteq> set xs"
    and "threads d = threads c" and "state d = state c"
    and "problem c \<noteq> None \<longrightarrow> problem d = problem c"
  shows "loop_post c xs fs d'"
proof -
  from assms(1) obtain zs hs where z: "events_inv d' zs hs" "known d' zs hs = known d ys gs"
    "sched d' zs = None" "set zs \<subseteq> set ys" by (auto simp: loop_post_def)
  with assms show ?thesis unfolding loop_post_def by (intro conjI exI [of _ zs] exI [of _ hs]) auto
qed

locale event_processor =
  fixes proc :: "('b, 'w) processor"
  assumes proc_quiet: "proc e (c, w) = Some (st, c', w') \<Longrightarrow> quiet c c'"
begin

lemma work_inv:
  assumes "proc e (c, w) = Some (st, c', w')" and "events_inv c xs fs"
  shows "events_inv c' xs fs" "actives c' = actives c" "known c' xs fs = known c xs fs"
    "threads c' = threads c" "state c' = state c" "problem c' = problem c"
  using quiet_inv [OF proc_quiet [OF assms(1)] assms(2)] proc_quiet [OF assms(1)]
  by (auto simp: quiet_def same_trans_def)

text \<open>One round on an event that is already active.\<close>

lemma round_inv:
  assumes inv: "events_inv c xs fs" and e: "e \<in> actives c"
    and p: "proc e (c, w) = Some (st, c2, w2)"
  shows "\<exists>d ys gs. (if st = CONN_EVENT_IN_PROGRESS then Some c2 else process_finish sd e c2) = Some d \<and>
    events_inv d ys gs \<and> known d ys gs = known c xs fs \<and> (ys = xs \<or> ys = []) \<and>
    threads d = threads c \<and> state d = state c \<and> (problem c \<noteq> None \<longrightarrow> problem d = problem c)"
proof -
  note wk = work_inv [OF p inv]
  show ?thesis
  proof (cases "st = CONN_EVENT_IN_PROGRESS")
    case True
    with wk show ?thesis by auto
  next
    case False
    from e wk(2) have "e \<in> actives c2" by simp
    from process_finish_inv [OF wk(1) this, of sd] obtain d ys gs where
      "process_finish sd e c2 = Some d" "events_inv d ys (e # gs)"
      "known d ys (e # gs) = known c2 xs fs" "threads d = threads c2" "state d = state c2"
      "problem c2 \<noteq> None \<longrightarrow> problem d = problem c2" "ys = xs \<or> ys = []" by blast
    with False wk show ?thesis by (intro exI [of _ d] exI [of _ ys] exI [of _ "e # gs"]) simp
  qed
qed

lemma loop_returns:
  assumes total: "\<And>e cw. proc e cw \<noteq> None"
  shows "events_inv c xs fs \<Longrightarrow>
    \<exists>d w'. process_loop proc sd None (c, w) = Some (d, w') \<and> loop_post c xs fs d"
proof (induction "length xs" arbitrary: c xs fs w rule: less_induct)
  case less
  show ?case
  proof (cases "sched c xs")
    case None
    then show ?thesis
      using process_pick_None [OF less.prems None] less.prems
      by (subst process_loop.simps) (auto simp: loop_post_def)
  next
    case (Some e)
    from process_pick_Some [OF less.prems Some] obtain c1 where
      c1: "process_pick c = Some (Some e, c1)" "events_inv c1 (remove1 e xs) []"
        "actives c1 = insert e (actives c)" "e \<in> set xs" "same_trans c c1"
        "known c1 (remove1 e xs) [] = known c xs fs" by blast
    obtain st c2 w2 where p: "proc e (c1, w) = Some (st, c2, w2)" using total [of e "(c1, w)"] by auto
    from round_inv [OF c1(2) _ p, of sd] c1(3) obtain d ys gs where
      d: "(if st = CONN_EVENT_IN_PROGRESS then Some c2 else process_finish sd e c2) = Some d"
        "events_inv d ys gs" "known d ys gs = known c1 (remove1 e xs) []"
        "ys = remove1 e xs \<or> ys = []" "threads d = threads c1" "state d = state c1"
        "problem c1 \<noteq> None \<longrightarrow> problem d = problem c1" by auto
    have "length (remove1 e xs) < length xs"
      using c1(4) length_pos_if_in_set [OF c1(4)] by (simp add: length_remove1)
    then have "length ys < length xs" using d(4) by auto
    from less.hyps [OF this d(2), of w2] obtain d' w' where
      r: "process_loop proc sd None (d, w2) = Some (d', w')" "loop_post d ys gs d'" by blast
    have "process_loop proc sd None (c, w) = process_loop proc sd None (d, w2)"
      using c1(1) p d(1) by (subst process_loop.simps) (auto split: if_splits)
    moreover have "set ys \<subseteq> set xs" using d(4) set_remove1_subset [of e xs] by auto
    ultimately show ?thesis
      using r d c1 loop_post_trans [OF r(2), of c xs fs] by (simp add: same_trans_def)
  qed
qed

lemma engine_loop_returns:
  assumes total: "\<And>e cw. proc e cw \<noteq> None" and inv: "events_inv c xs fs" and e: "e \<in> actives c"
  shows "\<exists>d w'. process_loop proc sd (Some e) (c, w) = Some (d, w') \<and> loop_post c xs fs d"
proof -
  from grab_and_free_inv [OF inv] obtain c1 where
    c1: "grab_and_free c = Some c1" "events_inv c1 xs []" "actives c1 = actives c" "same_trans c c1"
      "known c1 xs [] = known c xs fs" by blast
  obtain st c2 w2 where p: "proc e (c1, w) = Some (st, c2, w2)" using total [of e "(c1, w)"] by auto
  from round_inv [OF c1(2) _ p, of sd] c1(3) e obtain d ys gs where
    d: "(if st = CONN_EVENT_IN_PROGRESS then Some c2 else process_finish sd e c2) = Some d"
      "events_inv d ys gs" "known d ys gs = known c1 xs []" "ys = xs \<or> ys = []"
      "threads d = threads c1" "state d = state c1"
      "problem c1 \<noteq> None \<longrightarrow> problem d = problem c1" by auto
  from loop_returns [OF total d(2), of sd w2] obtain d' w' where
    r: "process_loop proc sd None (d, w2) = Some (d', w')" "loop_post d ys gs d'" by blast
  have "process_loop proc sd (Some e) (c, w) = process_loop proc sd None (d, w2)"
    using c1(1) p d(1) by (subst process_loop.simps) (auto split: if_splits)
  moreover have "set ys \<subseteq> set xs" using d(4) by auto
  ultimately show ?thesis
    using r d c1 loop_post_trans [OF r(2), of c xs fs] by (simp add: same_trans_def)
qed

end

section \<open>Leaving\<close>

lemma evq_head_None: "evq c xs \<Longrightarrow> l_head (queue c) = None \<longleftrightarrow> xs = []"
  using evlist.peek_None [of c xs] by (simp add: EventQueuePeek_def)

lemma in_progress_actives: "ConnEventsInProgress c \<longleftrightarrow> actives c \<noteq> {}"
  by (auto simp: ConnEventsInProgress_def actives_def)

lemma process_leave_spec:
  assumes "events_inv c xs fs"
  shows "process_leave c =
    (if xs \<noteq> [] \<or> actives c \<noteq> {} \<or> state c = CONN_STATE_ASYNCHRONOUS_CLIENT \<or> threads c > 1
     then (True, c\<lparr>threads := threads c - 1\<rparr>)
     else (False, c\<lparr>threads := threads c - 1, state := CONN_STATE_ASYNCHRONOUS_ENGINE_COMPLETE\<rparr>))"
proof -
  have "ConnEventsInProgress (c\<lparr>threads := threads c - 1\<rparr>) = ConnEventsInProgress c"
    by (simp add: ConnEventsInProgress_def)
  then show ?thesis
    using evq_head_None [OF inv_evq [OF assms]] in_progress_actives [of c]
    by (auto simp: process_leave_def Let_def)
qed

end
