(* ===== verification/QueueFeed.thy ===== *)
theory QueueFeed
  imports QueueLoop
begin

text \<open>
  What \<^verbatim>\<open>EventEnqueue()\<close>, \<^verbatim>\<open>EventEnqueueFailure()\<close>, \<^verbatim>\<open>EventsSubmit()\<close> and
  \<^verbatim>\<open>QueueCompleteCallback()\<close> do to the invariant of the queue engine.
\<close>

section \<open>New events\<close>

lemma fresh_inv:
  assumes inv: "events_inv c xs fs" and p: "p \<notin> known c xs fs"
  shows "events_inv (upd_event p f c) xs fs" and "actives (upd_event p f c) = actives c"
    and "known (upd_event p f c) xs fs = known c xs fs" and "same_trans c (upd_event p f c)"
proof -
  have p': "p \<notin> set xs" "p \<notin> set fs" "p \<notin> actives c" using p by (auto simp: known_def)
  show a: "actives (upd_event p f c) = actives c" by (simp add: actives_def)
  then show "known (upd_event p f c) xs fs = known c xs fs" by (simp add: known_def)
  show "same_trans c (upd_event p f c)" by (simp add: same_trans_def)
  have "evq (upd_event p f c) xs" "free_events (upd_event p f c) fs"
    using inv_evq [OF inv] inv_free [OF inv] p'
    by (subst evq_cong [where c = c] free_events_cong [where c = c]; auto)+
  moreover have "slots_ok (upd_event p f c)"
    using inv_slots [OF inv] p'(3) by (auto simp: slots_ok_def actives_def)
  ultimately show "events_inv (upd_event p f c) xs fs"
    using inv p' a by (auto simp: events_inv_def)
qed

lemma append_inv:
  assumes inv: "events_inv c xs fs" and e: "e \<notin> known c xs fs" and wf: "wf_event (mem c e)"
  shows "events_inv (EventQueueAppendEvent e c) (xs @ [e]) fs"
    and "actives (EventQueueAppendEvent e c) = actives c"
    and "known (EventQueueAppendEvent e c) (xs @ [e]) fs = insert e (known c xs fs)"
    and "same_trans c (EventQueueAppendEvent e c)"
proof -
  note sc = append_same_control [of c e]
  note ss = same_slotsD [OF same_control_slots [OF sc]]
  have e': "e \<notin> set xs" "e \<notin> set fs" using e by (auto simp: known_def)
  have tl: "l_tail (queue c) = (if xs = [] then None else Some (last xs))"
    by (rule evq_tail [OF inv_evq [OF inv]])
  have "ce_next (mem (EventQueueAppendEvent e c) p) = ce_next (mem c p)" if "p \<in> set fs" for p
  proof -
    have "p \<noteq> e" "xs \<noteq> [] \<Longrightarrow> p \<noteq> last xs"
      using that e' inv_disj(1) [OF inv] by (auto simp: disjoint_iff)
    with tl show ?thesis by (auto simp: EventQueueAppendEvent_def Let_def split: option.splits if_splits)
  qed
  then have "free_events (EventQueueAppendEvent e c) fs"
    using inv_free [OF inv] by (subst free_events_cong [where c = c]) auto
  with evq_append [OF inv_evq [OF inv] e'(1)] show "events_inv (EventQueueAppendEvent e c) (xs @ [e]) fs"
    using inv e wf ss by (auto simp: events_inv_def known_def)
  show "actives (EventQueueAppendEvent e c) = actives c" by (rule ss)
  then show "known (EventQueueAppendEvent e c) (xs @ [e]) fs = insert e (known c xs fs)"
    using ss by (auto simp: known_def)
  show "same_trans c (EventQueueAppendEvent e c)" by (rule same_control_trans_fields [OF sc])
qed

text \<open>
  \<open>grows c xs fs d ys gs S\<close>: \<open>d\<close> knows the events of \<open>c\<close> and those of \<open>S\<close>; the active
  events, the number of threads and the state are the same.
\<close>

definition grows ::
    "'b conn \<Rightarrow> ptr list \<Rightarrow> ptr list \<Rightarrow> 'b conn \<Rightarrow> ptr list \<Rightarrow> ptr list \<Rightarrow> ptr set \<Rightarrow> bool" where
  "grows c xs fs d ys gs S \<longleftrightarrow>
     events_inv d ys gs \<and> known d ys gs = known c xs fs \<union> S \<and> actives d = actives c \<and>
     threads d = threads c \<and> state d = state c \<and> (problem c \<noteq> None \<longrightarrow> problem d = problem c)"

lemma grows_refl: "events_inv c xs fs \<Longrightarrow> grows c xs fs c xs fs {}"
  by (simp add: grows_def)

lemma grows_trans:
  "grows c xs fs d ys gs S \<Longrightarrow> grows d ys gs e zs hs T \<Longrightarrow> grows c xs fs e zs hs (S \<union> T)"
  by (auto simp: grows_def)

lemma grows_settles: "settles c xs fs d ys gs \<Longrightarrow> grows c xs fs d ys gs {}"
  by (auto simp: settles_def grows_def)

lemma QueueAdd_grows:
  assumes inv: "events_inv c xs fs" and e: "e \<notin> known c xs fs" and wf: "wf_event (mem c e)"
  shows "\<exists>ys gs. grows c xs fs (EventEngineQueueAdd sd e c) ys gs {e}"
proof -
  let ?p = "snd (SetAsyncProblem CONN_EVENT_KILLED ESHUTDOWN (ce_source (mem c e)) c)"
  note sp = SetAsyncProblem_inv [OF inv, of CONN_EVENT_KILLED ESHUTDOWN "ce_source (mem c e)"]
  note ap = append_inv [OF inv e wf] and fa = free_add_inv [OF inv e]
  note fp = free_add_inv [OF sp(1), of e, unfolded sp(3), OF e]
  have "grows c xs fs (EventQueueAppendEvent e c) (xs @ [e]) fs {e}"
    using ap by (auto simp: grows_def same_trans_def)
  moreover have "grows c xs fs (ConnEventFreeListAdd e c) xs (e # fs) {e}"
    using fa by (auto simp: grows_def same_trans_def)
  moreover have "problem c = None \<Longrightarrow> grows c xs fs (ConnEventFreeListAdd e ?p) xs (e # fs) {e}"
    using fp sp by (auto simp: grows_def same_trans_def SetAsyncProblem_def)
  ultimately show ?thesis by (simp only: EventEngineQueueAdd_def split: if_split) blast
qed

lemma add_inserted_grows:
  assumes inv: "events_inv c xs fs"
    and new: "\<And>e. ne = Some e \<Longrightarrow> e \<notin> known c xs fs \<and> wf_event (mem c e)"
  shows "\<exists>d ys gs. add_inserted sd src ne c = Some d \<and> grows c xs fs d ys gs (set_option ne)"
proof (cases ne)
  case None
  from settles_abort [OF inv] None show ?thesis
    by (fastforce simp: add_inserted_def dest: grows_settles)
next
  case (Some e)
  let ?c = "upd_event e (\<lambda>x. x\<lparr>ce_inserted := True\<rparr>) c"
  from new [OF Some] have e: "e \<notin> known c xs fs" "wf_event (mem c e)" by auto
  note fr = fresh_inv [OF inv e(1), of "\<lambda>x. x\<lparr>ce_inserted := True\<rparr>"]
  have "wf_event (mem ?c e)" using e(2) by (simp add: wf_event_def)
  from QueueAdd_grows [OF fr(1) _ this, of sd] fr(3) e(1) obtain ys gs where
    "grows ?c xs fs (EventEngineQueueAdd sd e ?c) ys gs {e}" by auto
  then have "grows c xs fs (EventEngineQueueAdd sd e ?c) ys gs {e}"
    using fr by (simp add: grows_def same_trans_def)
  with Some show ?thesis by (auto simp: add_inserted_def)
qed

section \<open>Inserted events\<close>

lemma quiet_sendBuffer: "quiet c (c\<lparr>sendBuffer := b\<rparr>)"
  by (simp add: quiet_def same_links_def same_slots_def same_trans_def)

lemma quiet_sslEnabled: "quiet c (c\<lparr>sslEnabled := b\<rparr>)"
  by (simp add: quiet_def same_links_def same_slots_def same_trans_def)

lemma quiet_sslNeeded: "quiet c (snd (sslDisconnectEventNeeded e c))"
  by (simp add: sslDisconnectEventNeeded_def quiet_sslEnabled)

lemma quiet_SendDataGet: "quiet c (snd (bufferedSendDataGet ops opt c))"
  by (simp add: bufferedSendDataGet_def quiet_sendBuffer split: option.splits)

lemma connEventCreate_grows:
  assumes inv: "events_inv c xs fs" and wf: "wf_event ev"
    and fresh: "\<And>p. fresh = Some p \<Longrightarrow> p \<notin> known c xs fs"
    and cr: "connEventCreate fresh ev c = (ne, d)"
  shows "ne = fresh" "grows c xs fs d xs fs {}" "\<And>p. fresh = Some p \<Longrightarrow> wf_event (mem d p)"
    "\<And>q. fresh \<noteq> Some q \<Longrightarrow> mem d q = mem c q"
  using cr wf fresh_inv [OF inv fresh, of _ "\<lambda>_. ev"] grows_refl [OF inv]
  by (auto simp: connEventCreate_def grows_def same_trans_def split: option.splits)

lemma flush_step:
  assumes inv: "events_inv c xs fs"
    and fresh: "\<And>p. fresh = Some p \<Longrightarrow> p \<notin> known c xs fs \<and> p \<noteq> e"
    and f: "FlushAEventNeededEx ops fresh e src c = (b, ne, d)"
  shows "grows c xs fs d xs fs {}" "b \<Longrightarrow> ne = fresh \<and> (\<forall>p. fresh = Some p \<longrightarrow> wf_event (mem d p))"
    "mem d e = mem c e"
proof -
  obtain wb c1 where g: "bufferedSendDataGet ops WITH_DATA c = (wb, c1)" by fastforce
  have q: "quiet c c1" using quiet_SendDataGet [of c ops WITH_DATA] g by simp
  have c1: "settles c xs fs c1 xs fs" by (rule settles_quiet [OF q inv])
  then have i1: "events_inv c1 xs fs" "known c1 xs fs = known c xs fs" by (simp_all add: settles_def)
  have m1: "mem c1 = mem c" using g by (auto simp: bufferedSendDataGet_def split: option.splits)
  have gr: "grows c xs fs c1 xs fs {}" using grows_settles [OF c1] .
  show "grows c xs fs d xs fs {}" "b \<Longrightarrow> ne = fresh \<and> (\<forall>p. fresh = Some p \<longrightarrow> wf_event (mem d p))"
    "mem d e = mem c e"
  proof (atomize (full), cases wb)
    case None
    then show "grows c xs fs d xs fs {} \<and>
        (b \<longrightarrow> ne = fresh \<and> (\<forall>p. fresh = Some p \<longrightarrow> wf_event (mem d p))) \<and> mem d e = mem c e"
      using f g gr m1 grows_refl [OF inv] by (auto simp: FlushAEventNeededEx_def split: if_splits)
  next
    case (Some wbuf)
    let ?ev = "ConnEventAssign None 0 CONN_TIMEOUT_DEFAULT CONN_EVENT_FLUSH CONN_EVENT_CLASS_SEND
      CONN_EVENT_MODE_ASYNCHRONOUS (Some wbuf) src c1 ConnEventInit"
    have wf: "wf_event ?ev" by (rule Assign_wf) (simp add: is_read_event_def is_send_event_def)
    show "grows c xs fs d xs fs {} \<and>
        (b \<longrightarrow> ne = fresh \<and> (\<forall>p. fresh = Some p \<longrightarrow> wf_event (mem d p))) \<and> mem d e = mem c e"
    proof (cases "ce_class (mem c e) = CONN_EVENT_CLASS_SEND")
      case True
      then show ?thesis using f grows_refl [OF inv] by (auto simp: FlushAEventNeededEx_def)
    next
      case False
      then have cr: "connEventCreate fresh ?ev c1 = (ne, d)" "b"
        using f g Some by (auto simp: FlushAEventNeededEx_def flushAEventCreate_def)
      have "\<And>p. fresh = Some p \<Longrightarrow> p \<notin> known c1 xs fs" using fresh i1(2) by auto
      note cg = connEventCreate_grows [OF i1(1) wf this cr(1)]
      then show ?thesis using cr(2) grows_trans [OF gr cg(2)] fresh m1 by auto
    qed
  qed
qed

lemma ssl_step:
  assumes inv: "events_inv c xs fs"
    and fresh: "\<And>p. fresh = Some p \<Longrightarrow> p \<notin> known c xs fs \<and> p \<noteq> e"
    and n: "sslDisconnectEventNeeded e c = (True, d)"
    and cr: "SSLDisconnectEventCreate fresh CONN_TIMEOUT_DEFAULT src d = (ne, d1)"
  shows "ne = fresh" "grows c xs fs d1 xs fs {}" "\<And>p. fresh = Some p \<Longrightarrow> wf_event (mem d1 p)"
    "mem d1 e = mem c e"
proof -
  have q: "quiet c d" using quiet_sslNeeded [of c e] n by simp
  have c1: "settles c xs fs d xs fs" by (rule settles_quiet [OF q inv])
  then have i1: "events_inv d xs fs" "known d xs fs = known c xs fs" by (simp_all add: settles_def)
  have m: "mem d = mem c" using n by (auto simp: sslDisconnectEventNeeded_def split: if_splits)
  let ?ev = "ConnEventAssign None 0 CONN_TIMEOUT_DEFAULT CONN_EVENT_SSL_DISCONNECT
      CONN_EVENT_CLASS_CONNECT CONN_EVENT_MODE_ASYNCHRONOUS None src d ConnEventInit"
  have wf: "wf_event ?ev" by (rule Assign_wf) (simp add: is_read_event_def is_send_event_def)
  have cr': "connEventCreate fresh ?ev d = (ne, d1)" using cr by (simp add: SSLDisconnectEventCreate_def)
  have "\<And>p. fresh = Some p \<Longrightarrow> p \<notin> known d xs fs" using fresh i1(2) by auto
  note cg = connEventCreate_grows [OF i1(1) wf this cr']
  show "ne = fresh" by (rule cg)
  show "grows c xs fs d1 xs fs {}" using grows_trans [OF grows_settles [OF c1] cg(2)] by simp
  show "\<And>p. fresh = Some p \<Longrightarrow> wf_event (mem d1 p)" by (rule cg(3))
  show "mem d1 e = mem c e" using cg(4) [of e] fresh m by auto
qed

section \<open>Enqueueing\<close>

text \<open>Adding events leaves the payload of a foreign event alone.\<close>

lemma CancelQueued_type:
  assumes "events_inv c xs fs" and "EventQueueAbort ce st er src c = Some d"
  shows "ce_type (mem d p) = ce_type (mem c p)" "ce_class (mem d p) = ce_class (mem c p)"
proof -
  have "same_slots c d" if p: "problem c = None"
  proof -
    let ?c1 = "c\<lparr>problem := Some \<lparr>pr_status = st, pr_error = er, pr_source = src\<rparr>\<rparr>"
    have i: "evq ?c1 xs" "free_events ?c1 fs"
      using same_linksD [of c ?c1] inv_evq [OF assms(1)] inv_free [OF assms(1)]
      by (simp_all add: same_links_def)
    obtain c2 where c2: "CancelQueuedEvents ?c1 = Some c2" "same_control ?c1 c2"
      using CancelQueuedEvents_moves [OF i inv_disj(1) [OF assms(1)]] by blast
    have d: "d = CancelEventsInProgress ce c2"
      using assms(2) p c2(1) by (simp add: EventQueueAbort_def SetAsyncProblem_def)
    have "same_slots c ?c1" by (simp add: same_slots_def)
    with same_control_slots [OF c2(2)] quiet_CancelEventsInProgress [of c2 ce] show ?thesis
      unfolding d quiet_def by (blast intro: same_slots_trans)
  qed
  moreover have "d = c" if "problem c \<noteq> None" using assms(2) that by (simp add: EventQueueAbort_again)
  ultimately show "ce_type (mem d p) = ce_type (mem c p)" "ce_class (mem d p) = ce_class (mem c p)"
    by (cases "problem c"; auto simp: same_slots_def)+
qed

lemma add_inserted_wf:
  assumes "events_inv c xs fs" and "add_inserted sd src ne c = Some d" and "ne \<noteq> Some p"
  shows "wf_event (mem d p) = wf_event (mem c p)"
proof (cases ne)
  case None
  with assms CancelQueued_type [OF assms(1)] show ?thesis
    by (auto simp: add_inserted_def wf_event_def)
next
  case (Some e)
  let ?c = "upd_event e (\<lambda>x. x\<lparr>ce_inserted := True\<rparr>) c"
  have "mem (snd (SetAsyncProblem s1 s2 s3 x)) = mem x" for s1 s2 s3 and x :: "'a conn"
    by (simp add: SetAsyncProblem_def split: option.splits)
  then have "ce_type (mem (EventEngineQueueAdd sd e ?c) p) = ce_type (mem c p) \<and>
      ce_class (mem (EventEngineQueueAdd sd e ?c) p) = ce_class (mem c p)"
    by (simp add: EventEngineQueueAdd_def same_control_fields [OF append_same_control]
        same_control_fields [OF free_add_same_control])
  with assms Some show ?thesis by (auto simp: add_inserted_def wf_event_def)
qed

definition all_fresh :: "ptr option \<Rightarrow> ptr option \<Rightarrow> ptr \<Rightarrow> ptr set \<Rightarrow> bool" where
  "all_fresh fresh1 fresh2 ce S \<longleftrightarrow>
     ce \<notin> S \<and> set_option fresh1 \<inter> insert ce S = {} \<and> set_option fresh2 \<inter> insert ce S = {} \<and>
     set_option fresh1 \<inter> set_option fresh2 = {}"

lemma flush_part:
  assumes inv: "events_inv c xs fs" and wf: "wf_event (mem c ce)"
    and fr: "\<And>p. fresh = Some p \<Longrightarrow> p \<notin> known c xs fs \<and> p \<noteq> ce"
  shows "\<exists>d ys gs S. (case FlushAEventNeededEx ops fresh ce src c of
        (True, ne, d) \<Rightarrow> add_inserted sd src ne d | (False, _, d) \<Rightarrow> Some d) = Some d \<and>
    grows c xs fs d ys gs S \<and> S \<subseteq> set_option fresh \<and> wf_event (mem d ce)"
proof -
  obtain b ne d1 where f: "FlushAEventNeededEx ops fresh ce src c = (b, ne, d1)" by (metis prod_cases3)
  note st = flush_step [OF inv fr f]
  have i1: "events_inv d1 xs fs" "known d1 xs fs = known c xs fs" using st(1) by (simp_all add: grows_def)
  show ?thesis
  proof (cases b)
    case False
    with f st wf show ?thesis by (intro exI [of _ d1] exI [of _ xs] exI [of _ fs] exI [of _ "{}"]) simp
  next
    case True
    with st(2) have ne: "ne = fresh" and w: "\<And>p. fresh = Some p \<Longrightarrow> wf_event (mem d1 p)" by auto
    from add_inserted_grows [OF i1(1), of ne sd src] fr i1(2) w ne obtain d ys gs where
      a: "add_inserted sd src ne d1 = Some d" "grows d1 xs fs d ys gs (set_option ne)" by auto
    have "wf_event (mem d ce)" using add_inserted_wf [OF i1(1) a(1), of ce] ne fr st(3) wf by auto
    with True f a grows_trans [OF st(1) a(2)] ne show ?thesis
      by (intro exI [of _ d] exI [of _ ys] exI [of _ gs] exI [of _ "set_option ne"]) simp
  qed
qed

lemma ssl_part:
  assumes inv: "events_inv c xs fs" and wf: "wf_event (mem c ce)"
    and fr: "\<And>p. fresh = Some p \<Longrightarrow> p \<notin> known c xs fs \<and> p \<noteq> ce"
  shows "\<exists>d ys gs S. (case sslDisconnectEventNeeded ce c of
        (True, d) \<Rightarrow> (case SSLDisconnectEventCreate fresh CONN_TIMEOUT_DEFAULT src d of
                        (ne, d1) \<Rightarrow> add_inserted sd src ne d1)
      | (False, d) \<Rightarrow> Some d) = Some d \<and>
    grows c xs fs d ys gs S \<and> S \<subseteq> set_option fresh \<and> wf_event (mem d ce)"
proof -
  obtain b d2 where n: "sslDisconnectEventNeeded ce c = (b, d2)" by fastforce
  obtain ne d3 where cr: "SSLDisconnectEventCreate fresh CONN_TIMEOUT_DEFAULT src d2 = (ne, d3)" by fastforce
  show ?thesis
  proof (cases b)
    case False
    have "settles c xs fs d2 xs fs" using settles_quiet [OF quiet_sslNeeded inv, of ce] n by simp
    then have "grows c xs fs d2 xs fs {}" by (rule grows_settles)
    moreover have "mem d2 = mem c" using n by (auto simp: sslDisconnectEventNeeded_def split: if_splits)
    ultimately show ?thesis using False n wf
      by (intro exI [of _ d2] exI [of _ xs] exI [of _ fs] exI [of _ "{}"]) simp
  next
    case True
    with n have n': "sslDisconnectEventNeeded ce c = (True, d2)" by simp
    note st = ssl_step [OF inv fr n' cr]
    have i3: "events_inv d3 xs fs" "known d3 xs fs = known c xs fs" using st(2) by (simp_all add: grows_def)
    from add_inserted_grows [OF i3(1), of ne sd src] fr i3(2) st(1,3) obtain d ys gs where
      a: "add_inserted sd src ne d3 = Some d" "grows d3 xs fs d ys gs (set_option ne)" by auto
    have "wf_event (mem d ce)" using add_inserted_wf [OF i3(1) a(1), of ce] st fr wf by auto
    with True n cr a grows_trans [OF st(2) a(2)] st(1) show ?thesis
      by (intro exI [of _ d] exI [of _ ys] exI [of _ gs] exI [of _ "set_option ne"]) simp
  qed
qed

lemma enqueue_events_grows:
  assumes inv: "events_inv c xs fs" and wf: "wf_event (mem c ce)"
    and fr: "all_fresh fresh1 fresh2 ce (known c xs fs)"
  shows "\<exists>d ys gs S. enqueue_events ops h fresh1 fresh2 src ce c = Some d \<and>
    grows c xs fs d ys gs (insert ce S) \<and> S \<subseteq> set_option fresh1 \<union> set_option fresh2"
proof -
  have f1: "\<And>p. fresh1 = Some p \<Longrightarrow> p \<notin> known c xs fs \<and> p \<noteq> ce"
    and f2: "\<And>p. fresh2 = Some p \<Longrightarrow> p \<notin> known c xs fs \<and> p \<noteq> ce \<and> fresh1 \<noteq> Some p"
    using fr by (auto simp: all_fresh_def)
  from flush_part [OF inv wf f1, where ops = ops and src = src and sd = "shuttingDown h"] obtain c1 ys gs S1 where
    c1: "(case FlushAEventNeededEx ops fresh1 ce src c of
        (True, ne, d) \<Rightarrow> add_inserted (shuttingDown h) src ne d | (False, _, d) \<Rightarrow> Some d) = Some c1"
      "grows c xs fs c1 ys gs S1" "S1 \<subseteq> set_option fresh1" "wf_event (mem c1 ce)" by blast
  have i1: "events_inv c1 ys gs" "known c1 ys gs = known c xs fs \<union> S1" using c1(2) by (simp_all add: grows_def)
  have "\<And>p. fresh2 = Some p \<Longrightarrow> p \<notin> known c1 ys gs \<and> p \<noteq> ce" using f2 i1(2) c1(3) by auto
  from ssl_part [OF i1(1) c1(4) this, where src = src and sd = "shuttingDown h"] obtain c2 zs hs S2 where
    c2: "(case sslDisconnectEventNeeded ce c1 of
        (True, d) \<Rightarrow> (case SSLDisconnectEventCreate fresh2 CONN_TIMEOUT_DEFAULT src d of
                        (ne, d1) \<Rightarrow> add_inserted (shuttingDown h) src ne d1)
      | (False, d) \<Rightarrow> Some d) = Some c2"
      "grows c1 ys gs c2 zs hs S2" "S2 \<subseteq> set_option fresh2" "wf_event (mem c2 ce)" by blast
  have i2: "events_inv c2 zs hs" "known c2 zs hs = known c xs fs \<union> S1 \<union> S2"
    using c2(2) i1(2) by (simp_all add: grows_def)
  have "ce \<notin> known c2 zs hs" using fr i2(2) c1(3) c2(3) by (auto simp: all_fresh_def)
  from QueueAdd_grows [OF i2(1) this c2(4)] obtain us vs where
    "grows c2 zs hs (EventEngineQueueAdd (shuttingDown h) ce c2) us vs {ce}" by blast
  from grows_trans [OF grows_trans [OF c1(2) c2(2)] this]
  have "grows c xs fs (EventEngineQueueAdd (shuttingDown h) ce c2) us vs (insert ce (S1 \<union> S2))" by simp
  moreover have "enqueue_events ops h fresh1 fresh2 src ce c = Some (EventEngineQueueAdd (shuttingDown h) ce c2)"
    using c1(1) c2(1) by (simp add: enqueue_events_def)
  ultimately show ?thesis using c1(3) c2(3) by blast
qed

section \<open>Opening and closing a transaction\<close>

lemma open_transaction_grows:
  assumes "events_inv c xs fs"
  shows "grows c xs fs ((open_transaction c)\<lparr>state := state c\<rparr>) xs fs {}"
    and "state (open_transaction c) = CONN_STATE_ASYNCHRONOUS_CLIENT"
    and "events_inv (open_transaction c) xs fs" and "actives (open_transaction c) = actives c"
    and "known (open_transaction c) xs fs = known c xs fs" and "threads (open_transaction c) = threads c"
    and "mem (open_transaction c) = mem c" and "problem (open_transaction c) = problem c"
proof -
  have l: "same_links c (open_transaction c)" "same_slots c (open_transaction c)"
    by (simp_all add: open_transaction_def AsyncQueueStatusInit_def same_links_def same_slots_def)
  show i: "events_inv (open_transaction c) xs fs" by (rule events_inv_links [OF assms l])
  show a: "actives (open_transaction c) = actives c" "known (open_transaction c) xs fs = known c xs fs"
    using same_slotsD [OF l(2)] by (simp_all add: known_def)
  show t: "threads (open_transaction c) = threads c" "problem (open_transaction c) = problem c"
    "mem (open_transaction c) = mem c" "state (open_transaction c) = CONN_STATE_ASYNCHRONOUS_CLIENT"
    by (simp_all add: open_transaction_def AsyncQueueStatusInit_def)
  let ?d = "(open_transaction c)\<lparr>state := state c\<rparr>"
  have "same_links (open_transaction c) ?d" "same_slots (open_transaction c) ?d"
    by (simp_all add: same_links_def same_slots_def)
  with events_inv_links [OF i this] same_slotsD [OF this(2)] a t
  show "grows c xs fs ?d xs fs {}" by (simp add: grows_def known_def)
qed

lemma state_inv:
  "events_inv c xs fs \<Longrightarrow> events_inv (c\<lparr>state := st, threads := n, cl_client := k\<rparr>) xs fs"
  by (erule events_inv_links) (simp_all add: same_links_def same_slots_def)

text \<open>The callback of a transaction with an empty queue and no active event releases what is left.\<close>

lemma QueueCompleteCallback_spec:
  assumes inv: "events_inv c [] fs" and "actives c = {}"
  shows "\<exists>d call. QueueCompleteCallback hf c = Some (call, d) \<and> events_inv d [] [] \<and>
    released d = released c @ fs \<and> actives d = {} \<and> known d [] [] = known c [] fs \<and>
    state d = CONN_STATE_IDLE \<and> threads d = 0 \<and> problem d = None \<and>
    bytes_sent d = 0 \<and> bytes_received d = 0 \<and>
    call = (if (case problem c of None \<Rightarrow> True | Some p \<Rightarrow> pr_status p = CONN_EVENT_COMPLETE \<or>
                  pr_status p = CONN_EVENT_PARTIAL) \<or> \<not> hf
            then Success_callback (PreserveAsyncSummary c)
            else Failure_callback (PreserveAsyncSummary c))"
proof -
  let ?c1 = "c\<lparr>queue := \<lparr>l_head = None, l_tail = None, l_count = 0\<rparr>, freeList := None,
             bytes_sent := 0, bytes_received := 0, cl_client := 0, problem := None, threads := 0,
             sslEnabled := False, state := CONN_STATE_IDLE\<rparr>"
  have fl: "slist ?c1 (freeList c) fs" "distinct fs"
    using inv_free [OF inv] slist_ext [of ?c1 c] by (simp_all add: free_events_def)
  note D = ConnEventFreeListDestroy_spec [OF fl]
  let ?d = "?c1\<lparr>mem := freed fs (mem c), released := released c @ fs\<rparr>"
  have "act_connect c = None" "act_receive c = None" "act_send c = None"
    using assms(2) by (auto simp: actives_def)
  then have "events_inv ?d [] []" and a: "actives ?d = {}"
    using inv fl(2) by (auto simp: events_inv_def evq_def free_events_def slots_ok_def actives_def)
  moreover have "known ?d [] [] = known c [] fs" using a assms(2) by (auto simp: known_def)
  moreover have "QueueCompleteCallback hf c = Some (if (case problem c of None \<Rightarrow> True
        | Some p \<Rightarrow> pr_status p = CONN_EVENT_COMPLETE \<or> pr_status p = CONN_EVENT_PARTIAL) \<or> \<not> hf
      then Success_callback (PreserveAsyncSummary c)
      else Failure_callback (PreserveAsyncSummary c), ?d)"
    using D by (cases "problem c")
      (simp_all add: QueueCompleteCallback_def PrepareForCallback_def ConnEventFreeListGrab_def
        CallbackAsyncConsumer_def PreserveAsyncSummary_def)
  ultimately show ?thesis by (intro exI [of _ ?d]) simp
qed

end
