(* ===== verification/QueueSystem.thy ===== *)
theory QueueSystem
  imports QueueFeed
begin

text \<open>
  The queue engine with any number of threads.  A world holds the connection, the events on which
  a thread works with the event lock released (\<open>working\<close>), the threads that have handed their
  event over to the socket engine and have not locked again (\<open>returning\<close>), the events in the
  socket engine, the callback threads that \<^verbatim>\<open>QueueCompleteNotify()\<close> started and that have not run
  (\<open>pending\<close>), the number of accepted \<^verbatim>\<open>EventsSubmit()\<close> calls, the calls of the consumer's
  callback, and every event address ever used.  Each rule of \<open>qstep\<close> is what one thread does
  while it holds the event lock (or, for \<open>work\<close> and \<open>hand_over\<close>, what it does to its own event
  without the lock), so a sequence of steps is an interleaving of threads.
\<close>

record 'b world =
  wc :: "'b conn"
  working :: "ptr set"
  returning :: nat
  engine :: "ptr set"
  pending :: nat
  submits :: nat
  calls :: "consumer_call list"
  seen :: "ptr set"

text \<open>The end of a locked section of \<^verbatim>\<open>ConnEventsProcess()\<close>: another event, or the way out.\<close>

definition resume :: "'b world \<Rightarrow> 'b world option" where
  "resume w =
     (case process_pick (wc w) of
        None \<Rightarrow> None
      | Some (Some e, c) \<Rightarrow> Some (w\<lparr>wc := c, working := insert e (working w)\<rparr>)
      | Some (None, c) \<Rightarrow>
          (case process_leave c of (b, c') \<Rightarrow>
             Some (w\<lparr>wc := c', pending := pending w + (if b then 0 else 1)\<rparr>)))"

definition enter :: "'b conn \<Rightarrow> 'b conn" where
  "enter c = c\<lparr>threads := threads c + 1\<rparr>"

inductive qstep :: "'b iob_ops \<Rightarrow> 'b world \<Rightarrow> 'b world \<Rightarrow> bool" for ops where
  enqueue: "\<lbrakk>fst (queueingPermitted (wc w)); wf_event ev; all_fresh f1 f2 ce (seen w);
     enqueue_events ops h f1 f2 src ce (open_transaction (upd_event ce (\<lambda>_. ev) (wc w))) = Some c;
     w1 = w\<lparr>wc := c, seen := seen w \<union> {ce} \<union> set_option f1 \<union> set_option f2\<rparr>;
     (if has (flags_dynamic h) CONN_HANDLE_DYN_FLAG_WAIT_FOR_SUBMIT then Some w1
      else resume (w1\<lparr>wc := enter c\<rparr>)) = Some w'\<rbrakk> \<Longrightarrow> qstep ops w w'"
| enqueue_failure: "EventEnqueueFailure err src (wc w) = Some (0, c) \<Longrightarrow>
     qstep ops w (w\<lparr>wc := c\<rparr>)"
| buffered_write: "state (wc w) = CONN_STATE_IDLE \<Longrightarrow>
     qstep ops w (w\<lparr>wc := (wc w)\<lparr>state := CONN_STATE_ASYNCHRONOUS_CLIENT\<rparr>\<rparr>)"
| submit: "\<lbrakk>submitProblem (wc w) \<in> {0, EPERM};
     c = (if submitProblem (wc w) \<noteq> 0
          then snd (SetAsyncProblem CONN_EVENT_FAILED (submitProblem (wc w)) src (wc w)) else wc w);
     resume (w\<lparr>wc := enter (c\<lparr>state := CONN_STATE_ASYNCHRONOUS_ENGINE, cl_client := client\<rparr>),
               submits := submits w + 1\<rparr>) = Some w'\<rbrakk> \<Longrightarrow> qstep ops w w'"
| work: "e \<in> working w \<Longrightarrow> quiet (wc w) c \<Longrightarrow> qstep ops w (w\<lparr>wc := c\<rparr>)"
| hand_over: "e \<in> working w \<Longrightarrow>
     qstep ops w (w\<lparr>working := working w - {e}, engine := insert e (engine w),
                    returning := returning w + 1\<rparr>)"
| relock: "returning w = Suc n \<Longrightarrow> resume (w\<lparr>returning := n\<rparr>) = Some w' \<Longrightarrow> qstep ops w w'"
| finish: "\<lbrakk>e \<in> working w; process_finish sd e (wc w) = Some c;
     resume (w\<lparr>wc := c, working := working w - {e}\<rparr>) = Some w'\<rbrakk> \<Longrightarrow> qstep ops w w'"
| engine_event: "\<lbrakk>e \<in> engine w;
     grab_and_free (enter (upd_event e (\<lambda>x. x\<lparr>ce_error := err\<rparr>) (wc w))) = Some c\<rbrakk> \<Longrightarrow>
     qstep ops w (w\<lparr>wc := c, engine := engine w - {e}, working := insert e (working w)\<rparr>)"
| callback: "pending w = Suc n \<Longrightarrow> QueueCompleteCallback hf (wc w) = Some (call, c) \<Longrightarrow>
     qstep ops w (w\<lparr>wc := c, pending := n, calls := calls w @ [call]\<rparr>)"
| kill: "\<lbrakk>state (wc w) \<in> {CONN_STATE_ASYNCHRONOUS_CLIENT, CONN_STATE_ASYNCHRONOUS_ENGINE,
                          CONN_STATE_ASYNCHRONOUS_ENGINE_COMPLETE};
     EventQueueAbort None CONN_EVENT_KILLED ECANCELED src (wc w) = Some c\<rbrakk> \<Longrightarrow>
     qstep ops w (w\<lparr>wc := c\<rparr>)"

text \<open>A fresh, connected or unconnected, connection that nobody uses.\<close>

definition initial :: "'b world \<Rightarrow> bool" where
  "initial w \<longleftrightarrow>
     events_inv (wc w) [] [] \<and> actives (wc w) = {} \<and> released (wc w) = [] \<and>
     state (wc w) = CONN_STATE_IDLE \<and> threads (wc w) = 0 \<and>
     working w = {} \<and> returning w = 0 \<and> engine w = {} \<and> pending w = 0 \<and> submits w = 0 \<and>
     calls w = [] \<and> seen w = {}"

inductive reachable :: "'b iob_ops \<Rightarrow> 'b world \<Rightarrow> bool" for ops where
  start: "initial w \<Longrightarrow> reachable ops w"
| step: "reachable ops w \<Longrightarrow> qstep ops w w' \<Longrightarrow> reachable ops w'"

section \<open>The invariant\<close>

text \<open>
  \<open>base_inv w n\<close> is what holds at any time, \<open>n\<close> being the threads inside a locked section;
  \<open>world_inv\<close> adds the accounting of the callback.
\<close>

definition base_inv :: "'b world \<Rightarrow> ptr list \<Rightarrow> ptr list \<Rightarrow> nat \<Rightarrow> bool" where
  "base_inv w xs fs n \<longleftrightarrow>
     events_inv (wc w) xs fs \<and> known (wc w) xs fs \<subseteq> seen w \<and> finite (working w) \<and>
     working w \<inter> engine w = {} \<and> working w \<union> engine w = actives (wc w) \<and>
     threads (wc w) = int (card (working w) + returning w + n) \<and>
     submits w = length (calls w) +
       (if state (wc w) \<in> {CONN_STATE_ASYNCHRONOUS_ENGINE, CONN_STATE_ASYNCHRONOUS_ENGINE_COMPLETE}
        then 1 else 0)"

definition at_rest :: "'b world \<Rightarrow> ptr list \<Rightarrow> bool" where
  "at_rest w xs \<longleftrightarrow> xs = [] \<and> actives (wc w) = {} \<and> threads (wc w) = 0"

definition world_inv :: "'b world \<Rightarrow> bool" where
  "world_inv w \<longleftrightarrow>
     (\<exists>xs fs. base_inv w xs fs 0 \<and>
        state (wc w) \<in> {CONN_STATE_IDLE, CONN_STATE_ASYNCHRONOUS_CLIENT,
          CONN_STATE_ASYNCHRONOUS_ENGINE, CONN_STATE_ASYNCHRONOUS_ENGINE_COMPLETE} \<and>
        pending w = (if state (wc w) = CONN_STATE_ASYNCHRONOUS_ENGINE_COMPLETE then 1 else 0) \<and>
        (state (wc w) \<in> {CONN_STATE_IDLE, CONN_STATE_ASYNCHRONOUS_ENGINE_COMPLETE} \<longrightarrow> at_rest w xs))"

lemma initial_inv: "initial w \<Longrightarrow> world_inv w"
  by (auto simp: initial_def world_inv_def base_inv_def at_rest_def known_def)

text \<open>Leaving or picking up another event re-establishes the invariant.\<close>

lemma resume_inv:
  assumes b: "base_inv w xs fs 1" and p: "pending w = 0"
    and s: "state (wc w) \<in> {CONN_STATE_ASYNCHRONOUS_CLIENT, CONN_STATE_ASYNCHRONOUS_ENGINE}"
    and r: "resume w = Some w'"
  shows "world_inv w'"
proof (cases "sched (wc w) xs")
  case (Some e)
  have inv: "events_inv (wc w) xs fs" using b by (simp add: base_inv_def)
  from process_pick_Some [OF inv Some] obtain c where
    c: "process_pick (wc w) = Some (Some e, c)" "events_inv c (remove1 e xs) []"
      "actives c = insert e (actives (wc w))" "e \<notin> actives (wc w)" "same_trans (wc w) c"
      "known c (remove1 e xs) [] = known (wc w) xs fs" by blast
  then have w': "w' = w\<lparr>wc := c, working := insert e (working w)\<rparr>" using r by (simp add: resume_def)
  have e: "e \<notin> working w" "e \<notin> engine w" using b c(4) by (auto simp: base_inv_def)
  have "base_inv w' (remove1 e xs) [] 0"
    using b c e unfolding w' base_inv_def same_trans_def by auto
  with p s c(5) show ?thesis
    unfolding world_inv_def w' by (intro exI [of _ "remove1 e xs"] exI [of _ "[]"]) (auto simp: same_trans_def)
next
  case None
  let ?c = "wc w"
  have inv: "events_inv ?c xs fs" using b by (simp add: base_inv_def)
  have keep: "base_inv (w\<lparr>wc := ?c\<lparr>threads := threads ?c - 1, state := st\<rparr>, pending := n\<rparr>) xs fs 0"
    if "st = state ?c \<or> state ?c = CONN_STATE_ASYNCHRONOUS_ENGINE \<and> st = CONN_STATE_ASYNCHRONOUS_ENGINE_COMPLETE"
    for st n
  proof -
    let ?d = "?c\<lparr>threads := threads ?c - 1, state := st\<rparr>"
    have sl: "same_links ?c ?d" "same_slots ?c ?d" by (simp_all add: same_links_def same_slots_def)
    have "events_inv ?d xs fs" "actives ?d = actives ?c" "known ?d xs fs = known ?c xs fs"
      using events_inv_links [OF inv sl] same_slotsD [OF sl(2)] by (simp_all add: known_def)
    with b that show ?thesis by (auto simp: base_inv_def)
  qed
  show ?thesis
  proof (cases "xs \<noteq> [] \<or> actives ?c \<noteq> {} \<or> state ?c = CONN_STATE_ASYNCHRONOUS_CLIENT \<or> threads ?c > 1")
    case True
    then have "process_leave ?c = (True, ?c\<lparr>threads := threads ?c - 1, state := state ?c\<rparr>)"
      using process_leave_spec [OF inv] by simp
    then have w': "w' = w\<lparr>wc := ?c\<lparr>threads := threads ?c - 1, state := state ?c\<rparr>, pending := 0\<rparr>"
      using r p process_pick_None [OF inv None] by (simp add: resume_def)
    with keep [of "state ?c" 0] s show ?thesis unfolding world_inv_def
      by (intro exI [of _ xs] exI [of _ fs]) auto
  next
    case False
    then have "process_leave ?c = (False, ?c\<lparr>threads := threads ?c - 1,
        state := CONN_STATE_ASYNCHRONOUS_ENGINE_COMPLETE\<rparr>)"
      using process_leave_spec [OF inv] by simp
    then have w': "w' = w\<lparr>wc := ?c\<lparr>threads := threads ?c - 1,
        state := CONN_STATE_ASYNCHRONOUS_ENGINE_COMPLETE\<rparr>, pending := 1\<rparr>"
      using r p process_pick_None [OF inv None] by (simp add: resume_def)
    have t: "threads ?c = 1" "state ?c = CONN_STATE_ASYNCHRONOUS_ENGINE"
      using b False s by (auto simp: base_inv_def)
    moreover have "at_rest w' xs" using False t by (simp add: w' at_rest_def actives_def)
    ultimately show ?thesis
      using keep [of CONN_STATE_ASYNCHRONOUS_ENGINE_COMPLETE 1] unfolding world_inv_def
      by (intro exI [of _ xs] exI [of _ fs]) (simp add: w')
  qed
qed

section \<open>Every step keeps the invariant\<close>

lemma world_invE:
  assumes "world_inv w"
  obtains xs fs where "base_inv w xs fs 0" "events_inv (wc w) xs fs" "known (wc w) xs fs \<subseteq> seen w"
    "pending w = (if state (wc w) = CONN_STATE_ASYNCHRONOUS_ENGINE_COMPLETE then 1 else 0)"
    "state (wc w) \<in> {CONN_STATE_IDLE, CONN_STATE_ASYNCHRONOUS_ENGINE_COMPLETE} \<longrightarrow> at_rest w xs"
    "state (wc w) \<in> {CONN_STATE_IDLE, CONN_STATE_ASYNCHRONOUS_CLIENT,
          CONN_STATE_ASYNCHRONOUS_ENGINE, CONN_STATE_ASYNCHRONOUS_ENGINE_COMPLETE}"
proof -
  from assms obtain xs fs where "base_inv w xs fs 0"
    "state (wc w) \<in> {CONN_STATE_IDLE, CONN_STATE_ASYNCHRONOUS_CLIENT,
          CONN_STATE_ASYNCHRONOUS_ENGINE, CONN_STATE_ASYNCHRONOUS_ENGINE_COMPLETE}"
    "pending w = (if state (wc w) = CONN_STATE_ASYNCHRONOUS_ENGINE_COMPLETE then 1 else 0)"
    "state (wc w) \<in> {CONN_STATE_IDLE, CONN_STATE_ASYNCHRONOUS_ENGINE_COMPLETE} \<longrightarrow> at_rest w xs"
    unfolding world_inv_def by blast
  moreover from this(1) have "events_inv (wc w) xs fs" "known (wc w) xs fs \<subseteq> seen w"
    by (simp_all add: base_inv_def)
  ultimately show ?thesis using that by blast
qed

lemma settles_world:
  assumes w: "world_inv w" and b: "base_inv w xs fs 0" and s: "settles (wc w) xs fs c ys gs"
  shows "world_inv (w\<lparr>wc := c\<rparr>)"
proof -
  obtain xs' fs' where w': "base_inv w xs' fs' 0"
    "pending w = (if state (wc w) = CONN_STATE_ASYNCHRONOUS_ENGINE_COMPLETE then 1 else 0)"
    "state (wc w) \<in> {CONN_STATE_IDLE, CONN_STATE_ASYNCHRONOUS_ENGINE_COMPLETE} \<longrightarrow> at_rest w xs'"
    "state (wc w) \<in> {CONN_STATE_IDLE, CONN_STATE_ASYNCHRONOUS_CLIENT,
          CONN_STATE_ASYNCHRONOUS_ENGINE, CONN_STATE_ASYNCHRONOUS_ENGINE_COMPLETE}"
    using w by (rule world_invE)
  have "xs' = xs" using evlist.repr_unique b w'(1) by (metis base_inv_def inv_evq)
  moreover have "base_inv (w\<lparr>wc := c\<rparr>) ys gs 0" using b s by (simp add: base_inv_def settles_def)
  ultimately show ?thesis
    using w' s unfolding world_inv_def
    by (intro exI [of _ ys] exI [of _ gs]) (auto simp: at_rest_def settles_def)
qed

lemma enter_fields [simp]:
  "actives (enter c) = actives c" "known (enter c) xs fs = known c xs fs"
  "threads (enter c) = threads c + 1" "state (enter c) = state c" "problem (enter c) = problem c"
  by (simp_all add: enter_def actives_def known_def)

lemma enter_inv: "events_inv c xs fs \<Longrightarrow> events_inv (enter c) xs fs"
  by (erule events_inv_links) (simp_all add: same_links_def same_slots_def enter_def)

lemma step_enqueue:
  assumes w: "world_inv w" and q: "fst (queueingPermitted (wc w))" and wf: "wf_event ev"
    and fr: "all_fresh f1 f2 ce (seen w)"
    and en: "enqueue_events ops h f1 f2 src ce (open_transaction (upd_event ce (\<lambda>_. ev) (wc w))) = Some c"
  defines "w1 \<equiv> w\<lparr>wc := c, seen := seen w \<union> {ce} \<union> set_option f1 \<union> set_option f2\<rparr>"
  shows "world_inv w1" and "resume (w1\<lparr>wc := enter c\<rparr>) = Some w' \<Longrightarrow> world_inv w'"
proof -
  obtain xs fs where b: "base_inv w xs fs 0" "events_inv (wc w) xs fs" "known (wc w) xs fs \<subseteq> seen w"
    "pending w = (if state (wc w) = CONN_STATE_ASYNCHRONOUS_ENGINE_COMPLETE then 1 else 0)"
    using w by (rule world_invE)
  let ?c0 = "upd_event ce (\<lambda>_. ev) (wc w)"
  have ce: "ce \<notin> known (wc w) xs fs" using fr b(3) by (auto simp: all_fresh_def)
  note fi = fresh_inv [OF b(2) ce, of "\<lambda>_. ev"] and ot = open_transaction_grows [OF fresh_inv(1) [OF b(2) ce, of "\<lambda>_. ev"]]
  have "wf_event (mem (open_transaction ?c0) ce)" using wf ot by simp
  moreover have "all_fresh f1 f2 ce (known (open_transaction ?c0) xs fs)"
    using fr b(3) ot fi by (auto simp: all_fresh_def)
  ultimately obtain ys gs S where g: "grows (open_transaction ?c0) xs fs c ys gs (insert ce S)"
    "S \<subseteq> set_option f1 \<union> set_option f2"
    using enqueue_events_grows [OF ot(3), of ce f1 f2 ops h src] en by auto
  have st: "state (wc w) \<in> {CONN_STATE_IDLE, CONN_STATE_ASYNCHRONOUS_CLIENT}"
    using q by (auto simp: queueingPermitted_def split: ConnState.splits)
  have base: "base_inv w1 ys gs 0" and sc: "state c = CONN_STATE_ASYNCHRONOUS_CLIENT"
    using b g ot fi st unfolding base_inv_def grows_def w1_def same_trans_def by auto
  then show "world_inv w1" using b(4) st unfolding world_inv_def
    by (intro exI [of _ ys] exI [of _ gs]) (auto simp: w1_def)
  have "events_inv (enter c) ys gs" using g(1) by (simp add: grows_def enter_inv)
  then have "base_inv (w1\<lparr>wc := enter c\<rparr>) ys gs 1"
    using base by (simp add: base_inv_def w1_def)
  from resume_inv [OF this] b(4) st sc show "resume (w1\<lparr>wc := enter c\<rparr>) = Some w' \<Longrightarrow> world_inv w'"
    by (auto simp: w1_def)
qed

lemma step_submit:
  assumes w: "world_inv w" and q: "submitProblem (wc w) \<in> {0, EPERM}"
    and c: "c = (if submitProblem (wc w) \<noteq> 0
          then snd (SetAsyncProblem CONN_EVENT_FAILED (submitProblem (wc w)) src (wc w)) else wc w)"
    and r: "resume (w\<lparr>wc := enter (c\<lparr>state := CONN_STATE_ASYNCHRONOUS_ENGINE, cl_client := client\<rparr>),
               submits := submits w + 1\<rparr>) = Some w'"
  shows "world_inv w'"
proof -
  obtain xs fs where b: "base_inv w xs fs 0" "events_inv (wc w) xs fs"
    "pending w = (if state (wc w) = CONN_STATE_ASYNCHRONOUS_ENGINE_COMPLETE then 1 else 0)"
    using w by (rule world_invE)
  let ?d = "c\<lparr>state := CONN_STATE_ASYNCHRONOUS_ENGINE, cl_client := client\<rparr>"
  have st: "state (wc w) \<in> {CONN_STATE_IDLE, CONN_STATE_ASYNCHRONOUS_CLIENT}"
    using q by (auto simp: submitProblem_def split: ConnState.splits)
  have s: "settles (wc w) xs fs c xs fs"
    using settles_problem [OF b(2)] settles_quiet [OF quiet_refl b(2)] c by simp
  then have "events_inv c xs fs" by (simp add: settles_def)
  moreover have sl: "same_links c ?d" "same_slots c ?d" by (simp_all add: same_links_def same_slots_def)
  ultimately have i: "events_inv (enter ?d) xs fs" "actives ?d = actives c" "known ?d xs fs = known c xs fs"
    using enter_inv [OF events_inv_links] same_slotsD [OF sl(2)] by (simp_all add: known_def)
  have "base_inv (w\<lparr>wc := enter ?d, submits := submits w + 1\<rparr>) xs fs 1"
    using b(1) s st i by (auto simp: base_inv_def settles_def)
  from resume_inv [OF this _ _ r] b(3) st show ?thesis by auto
qed

lemma active_world:
  assumes "base_inv w xs fs 0" and "world_inv w" and "working w \<union> engine w \<noteq> {} \<or> returning w > 0"
  shows "state (wc w) \<in> {CONN_STATE_ASYNCHRONOUS_CLIENT, CONN_STATE_ASYNCHRONOUS_ENGINE}"
    and "pending w = 0"
proof -
  from assms(1,3) have n: "actives (wc w) \<noteq> {} \<or> threads (wc w) > 0" by (auto simp: base_inv_def)
  obtain ys where "pending w = (if state (wc w) = CONN_STATE_ASYNCHRONOUS_ENGINE_COMPLETE then 1 else 0)"
    "state (wc w) \<in> {CONN_STATE_IDLE, CONN_STATE_ASYNCHRONOUS_ENGINE_COMPLETE} \<longrightarrow> at_rest w ys"
    "state (wc w) \<in> {CONN_STATE_IDLE, CONN_STATE_ASYNCHRONOUS_CLIENT,
          CONN_STATE_ASYNCHRONOUS_ENGINE, CONN_STATE_ASYNCHRONOUS_ENGINE_COMPLETE}"
    using assms(2) by (rule world_invE)
  with n show "state (wc w) \<in> {CONN_STATE_ASYNCHRONOUS_CLIENT, CONN_STATE_ASYNCHRONOUS_ENGINE}"
    and "pending w = 0" by (auto simp: at_rest_def)
qed

lemma step_hand_over:
  assumes w: "world_inv w" and e: "e \<in> working w"
  shows "world_inv (w\<lparr>working := working w - {e}, engine := insert e (engine w),
                    returning := returning w + 1\<rparr>)"
proof -
  obtain xs fs where b: "base_inv w xs fs 0" using w by (rule world_invE)
  have "state (wc w) \<in> {CONN_STATE_ASYNCHRONOUS_CLIENT, CONN_STATE_ASYNCHRONOUS_ENGINE}" "pending w = 0"
    using active_world [OF b w] e by auto
  moreover have "base_inv (w\<lparr>working := working w - {e}, engine := insert e (engine w),
                    returning := returning w + 1\<rparr>) xs fs 0"
    using b e card_Suc_Diff1 [of "working w" e] unfolding base_inv_def by auto
  ultimately show ?thesis unfolding world_inv_def
    by (intro exI [of _ xs] exI [of _ fs]) auto
qed

lemma step_finished:
  assumes w: "world_inv w" and e: "e \<in> working w" and f: "process_finish sd e (wc w) = Some c"
    and r: "resume (w\<lparr>wc := c, working := working w - {e}\<rparr>) = Some w'"
  shows "world_inv w'"
proof -
  obtain xs fs where b: "base_inv w xs fs 0" "events_inv (wc w) xs fs" using w by (rule world_invE)
  have st: "state (wc w) \<in> {CONN_STATE_ASYNCHRONOUS_CLIENT, CONN_STATE_ASYNCHRONOUS_ENGINE}" "pending w = 0"
    using active_world [OF b(1) w] e by auto
  have "e \<in> actives (wc w)" using b(1) e by (auto simp: base_inv_def)
  from process_finish_inv [OF b(2) this, of sd] f obtain ys gs where
    p: "events_inv c ys (e # gs)" "actives c = actives (wc w) - {e}" "known c ys (e # gs) = known (wc w) xs fs"
      "threads c = threads (wc w)" "state c = state (wc w)" by auto
  have "base_inv (w\<lparr>wc := c, working := working w - {e}\<rparr>) ys (e # gs) 1"
    using b(1) e p card_Suc_Diff1 [of "working w" e] unfolding base_inv_def by auto
  from resume_inv [OF this _ _ r] st p(5) show ?thesis by simp
qed

lemma step_engine_event:
  assumes w: "world_inv w" and e: "e \<in> engine w"
    and g: "grab_and_free (enter (upd_event e (\<lambda>x. x\<lparr>ce_error := err\<rparr>) (wc w))) = Some c"
  shows "world_inv (w\<lparr>wc := c, engine := engine w - {e}, working := insert e (working w)\<rparr>)"
proof -
  obtain xs fs where b: "base_inv w xs fs 0" "events_inv (wc w) xs fs" using w by (rule world_invE)
  have st: "state (wc w) \<in> {CONN_STATE_ASYNCHRONOUS_CLIENT, CONN_STATE_ASYNCHRONOUS_ENGINE}" "pending w = 0"
    using active_world [OF b(1) w] e by auto
  let ?c = "upd_event e (\<lambda>x. x\<lparr>ce_error := err\<rparr>) (wc w)"
  note q = quiet_inv [OF quiet_error b(2), of e err]
  have t: "threads ?c = threads (wc w)" "state ?c = state (wc w)" by simp_all
  from grab_and_free_inv [OF enter_inv [OF q(1)]] g obtain
    p: "events_inv c xs []" "actives c = actives (wc w)" "same_trans (enter ?c) c"
      "known c xs [] = known (wc w) xs fs" using q by auto
  have "e \<notin> working w" using b(1) e by (auto simp: base_inv_def)
  then have "base_inv (w\<lparr>wc := c, engine := engine w - {e}, working := insert e (working w)\<rparr>) xs [] 0"
    using b(1) e p t st unfolding base_inv_def same_trans_def by auto
  with st p(3) t show ?thesis unfolding world_inv_def
    by (intro exI [of _ xs] exI [of _ "[]"]) (auto simp: same_trans_def)
qed

lemma step_callback:
  assumes w: "world_inv w" and p: "pending w = Suc n"
    and c: "QueueCompleteCallback hf (wc w) = Some (call, c)"
  shows "world_inv (w\<lparr>wc := c, pending := n, calls := calls w @ [call]\<rparr>)"
proof -
  obtain xs fs where b: "base_inv w xs fs 0" "events_inv (wc w) xs fs"
    "pending w = (if state (wc w) = CONN_STATE_ASYNCHRONOUS_ENGINE_COMPLETE then 1 else 0)"
    "state (wc w) \<in> {CONN_STATE_IDLE, CONN_STATE_ASYNCHRONOUS_ENGINE_COMPLETE} \<longrightarrow> at_rest w xs"
    using w by (rule world_invE)
  have st: "state (wc w) = CONN_STATE_ASYNCHRONOUS_ENGINE_COMPLETE" "n = 0" "at_rest w xs"
    using p b(3,4) by (auto split: if_splits)
  then have r: "xs = []" "actives (wc w) = {}" "threads (wc w) = 0" by (simp_all add: at_rest_def)
  from QueueCompleteCallback_spec [OF b(2) [unfolded r(1)] r(2), of hf] c
  have d: "events_inv c [] []" "actives c = {}" "known c [] [] = known (wc w) [] fs"
    "state c = CONN_STATE_IDLE" "threads c = 0" by auto
  have "base_inv (w\<lparr>wc := c, pending := n, calls := calls w @ [call]\<rparr>) [] [] 0"
    using b(1) d r st by (auto simp: base_inv_def)
  with d st show ?thesis unfolding world_inv_def
    by (intro exI [of _ "[]"] exI [of _ "[]"]) (auto simp: at_rest_def)
qed

lemma step_failure:
  assumes w: "world_inv w" and f: "EventEnqueueFailure err src (wc w) = Some (0, c)"
  shows "world_inv (w\<lparr>wc := c\<rparr>)"
proof -
  obtain xs fs where b: "base_inv w xs fs 0" "events_inv (wc w) xs fs"
    "pending w = (if state (wc w) = CONN_STATE_ASYNCHRONOUS_ENGINE_COMPLETE then 1 else 0)"
    using w by (rule world_invE)
  have st: "state (wc w) \<in> {CONN_STATE_IDLE, CONN_STATE_ASYNCHRONOUS_CLIENT}"
    and a: "EventQueueAbort None CONN_EVENT_FAILED err src (open_transaction (wc w)) = Some c"
    using f by (auto simp: EventEnqueueFailure_def queueingPermitted_def split: ConnState.splits bind_splits)
  note ot = open_transaction_grows [OF b(2)]
  from settles_abort [OF ot(3), of None CONN_EVENT_FAILED err src] a obtain ys gs where
    s: "settles (open_transaction (wc w)) xs fs c ys gs" by auto
  have "base_inv (w\<lparr>wc := c\<rparr>) ys gs 0"
    using b(1) s ot st by (auto simp: base_inv_def settles_def)
  with s ot b(3) st show ?thesis unfolding world_inv_def
    by (intro exI [of _ ys] exI [of _ gs]) (auto simp: settles_def)
qed

lemma step_buffered_write:
  assumes w: "world_inv w" and s: "state (wc w) = CONN_STATE_IDLE"
  shows "world_inv (w\<lparr>wc := (wc w)\<lparr>state := CONN_STATE_ASYNCHRONOUS_CLIENT\<rparr>\<rparr>)"
proof -
  let ?d = "(wc w)\<lparr>state := CONN_STATE_ASYNCHRONOUS_CLIENT\<rparr>"
  obtain xs fs where b: "base_inv w xs fs 0" "events_inv (wc w) xs fs"
    "pending w = (if state (wc w) = CONN_STATE_ASYNCHRONOUS_ENGINE_COMPLETE then 1 else 0)"
    using w by (rule world_invE)
  have sl: "same_links (wc w) ?d" "same_slots (wc w) ?d" by (simp_all add: same_links_def same_slots_def)
  have "events_inv ?d xs fs" "actives ?d = actives (wc w)" "known ?d xs fs = known (wc w) xs fs"
    using events_inv_links [OF b(2) sl] same_slotsD [OF sl(2)] by (simp_all add: known_def)
  then have "base_inv (w\<lparr>wc := ?d\<rparr>) xs fs 0" using b(1) s by (simp add: base_inv_def)
  with b(3) s show ?thesis unfolding world_inv_def
    by (intro exI [of _ xs] exI [of _ fs]) simp
qed

lemma step_relock:
  assumes w: "world_inv w" and n: "returning w = Suc n" and r: "resume (w\<lparr>returning := n\<rparr>) = Some w'"
  shows "world_inv w'"
proof -
  obtain xs fs where b: "base_inv w xs fs 0" using w by (rule world_invE)
  have "state (wc w) \<in> {CONN_STATE_ASYNCHRONOUS_CLIENT, CONN_STATE_ASYNCHRONOUS_ENGINE}" "pending w = 0"
    using active_world [OF b w] n by auto
  moreover have "base_inv (w\<lparr>returning := n\<rparr>) xs fs 1" using b n by (simp add: base_inv_def)
  ultimately show ?thesis using resume_inv [OF _ _ _ r] by simp
qed

lemma world_inv_step: "qstep ops w w' \<Longrightarrow> world_inv w \<Longrightarrow> world_inv w'"
proof (induction rule: qstep.induct)
  case (enqueue w ev f1 f2 ce h src c w1 w')
  note st = step_enqueue [OF enqueue.prems enqueue.hyps(1-4)]
  from st(1) st(2) [of w'] enqueue.hyps(5,6) show ?case by (auto split: if_splits)
next
  case (enqueue_failure err src w c)
  show ?case by (rule step_failure [OF enqueue_failure.prems enqueue_failure.hyps])
next
  case (buffered_write w)
  show ?case by (rule step_buffered_write [OF buffered_write.prems buffered_write.hyps])
next
  case (submit w c src client w')
  show ?case by (rule step_submit [OF submit.prems submit.hyps])
next
  case (work e w c)
  obtain xs fs where b: "base_inv w xs fs 0" "events_inv (wc w) xs fs"
    using work.prems by (rule world_invE)
  from settles_world [OF work.prems b(1) settles_quiet [OF work.hyps(2) b(2)]] show ?case .
next
  case (hand_over e w)
  show ?case by (rule step_hand_over [OF hand_over.prems hand_over.hyps])
next
  case (relock w n w')
  show ?case by (rule step_relock [OF relock.prems relock.hyps])
next
  case (finish e w sd c w')
  show ?case by (rule step_finished [OF finish.prems finish.hyps])
next
  case (engine_event e w err c)
  show ?case by (rule step_engine_event [OF engine_event.prems engine_event.hyps])
next
  case (callback w n hf call c)
  show ?case by (rule step_callback [OF callback.prems callback.hyps])
next
  case (kill w src c)
  obtain xs fs where b: "base_inv w xs fs 0" "events_inv (wc w) xs fs"
    using kill.prems by (rule world_invE)
  from settles_abort [OF b(2), of None CONN_EVENT_KILLED ECANCELED src] kill.hyps(2) obtain ys gs where
    "settles (wc w) xs fs c ys gs" by auto
  from settles_world [OF kill.prems b(1) this] show ?case .
qed

lemma reachable_inv: "reachable ops w \<Longrightarrow> world_inv w"
  by (induction rule: reachable.induct) (auto intro: initial_inv world_inv_step)

end
