(* ===== verification/Instances.thy ===== *)
theory Instances
  imports SockEvent EventData
begin

text \<open>A socket, an event and a connection to evaluate the model on.\<close>

definition idle_SOCK :: "int \<Rightarrow> SOCK" where
  "idle_SOCK n = \<lparr>number = n, ssl_new = None, ssl_conn = None, listener = None,
     ev_connect = sockEventInit, ev_receive = sockEventInit, ev_send = sockEventInit,
     listenerID = 0, lev_log = []\<rparr>"

definition idle_conn :: "byte list conn" where
  "idle_conn = \<lparr>mem = (\<lambda>_. ConnEventInit), queue = \<lparr>l_head = None, l_tail = None, l_count = 0\<rparr>,
     freeList = None, bytes_sent = 0, bytes_received = 0, cl_client = 0, problem = None,
     threads = 0, sslEnabled = False, act_connect = None, act_send = None, act_receive = None,
     state = CONN_STATE_IDLE, sendBuffer = None, receiveBuffer = [], sp = idle_SOCK 3,
     to_connect = 1000, to_disconnect = 1000, to_send = 1000, to_receive = 1000, released = [],
     started = []\<rparr>"

definition ev_of :: "ConnEventType \<Rightarrow> byte list ConnEvent" where
  "ev_of t = ConnEventInit\<lparr>ce_type := t, ce_class := class_of t\<rparr>"

end
