(* ===== verification/QueueProps.thy ===== *)
theory QueueProps
  imports QueueSystem Instances
begin

text \<open>
  The properties of the event queue and of the queue engine, with concrete instances.
\<close>

section \<open>A concrete connection\<close>

definition idle_world :: "byte list world" where
  "idle_world = \<lparr>wc = idle_conn, working = {}, returning = 0, engine = {}, pending = 0, submits = 0,
     calls = [], seen = {}\<rparr>"

text \<open>A connection with the events 5, 6, 7 of the given types in its queue.\<close>

definition queued_conn :: "ConnEventType \<Rightarrow> ConnEventType \<Rightarrow> ConnEventType \<Rightarrow> byte list conn" where
  "queued_conn t1 t2 t3 =
     fold EventQueueAppendEvent [5, 6, 7]
       (idle_conn\<lparr>mem := (\<lambda>p. if p = 5 then ev_of t1 else if p = 6 then ev_of t2 else ev_of t3),
                  state := CONN_STATE_ASYNCHRONOUS_ENGINE\<rparr>)"

lemma idle_conn_inv: "events_inv idle_conn [] []"
  by (simp add: events_inv_def idle_conn_def evq_def free_events_def slots_ok_def actives_def)

lemma idle_initial: "initial idle_world"
  using idle_conn_inv
  by (simp add: initial_def idle_world_def) (simp add: idle_conn_def actives_def)

lemma queued_conn_evq: "evq (queued_conn t1 t2 t3) [5, 6, 7]"
proof -
  have "evq (idle_conn\<lparr>mem := (\<lambda>p. if p = 5 then ev_of t1 else if p = 6 then ev_of t2 else ev_of t3),
                  state := CONN_STATE_ASYNCHRONOUS_ENGINE\<rparr>) []"
    by (simp add: idle_conn_def evq_def)
  from evlist.ins_all [OF this, of "[5, 6, 7]"] show ?thesis by (simp add: queued_conn_def)
qed

lemma fold_append_same_control: "same_control c (fold EventQueueAppendEvent es c)"
  by (induction es arbitrary: c) (auto intro: same_control_trans append_same_control)

lemma queued_conn_control:
  "same_control (idle_conn\<lparr>mem := (\<lambda>p. if p = 5 then ev_of t1 else if p = 6 then ev_of t2 else ev_of t3),
                  state := CONN_STATE_ASYNCHRONOUS_ENGINE\<rparr>) (queued_conn t1 t2 t3)"
  unfolding queued_conn_def by (rule fold_append_same_control)

lemma queued_conn_fields:
  "problem (queued_conn t1 t2 t3) = None" "actives (queued_conn t1 t2 t3) = {}"
  "act_connect (queued_conn t1 t2 t3) = None" "act_send (queued_conn t1 t2 t3) = None"
  "act_receive (queued_conn t1 t2 t3) = None"
  "released (queued_conn t1 t2 t3) = []" "threads (queued_conn t1 t2 t3) = 0"
  "state (queued_conn t1 t2 t3) = CONN_STATE_ASYNCHRONOUS_ENGINE"
  "ce_type (mem (queued_conn t1 t2 t3) 5) = t1" "ce_type (mem (queued_conn t1 t2 t3) 6) = t2"
  "ce_type (mem (queued_conn t1 t2 t3) 7) = t3" "slots_ok (queued_conn t1 t2 t3)"
  "wf_event (mem (queued_conn t1 t2 t3) p)"
  using same_control_fields [OF queued_conn_control [of t1 t2 t3]]
  by (simp_all add: idle_conn_def actives_def slots_ok_def wf_event_def ev_of_def)

lemma queued_conn_free: "freeList (queued_conn t1 t2 t3) = None"
  by (simp add: queued_conn_def idle_conn_def)

lemma queued_conn_inv: "events_inv (queued_conn t1 t2 t3) [5, 6, 7] []"
  using queued_conn_evq [of t1 t2 t3] queued_conn_fields [of t1 t2 t3] queued_conn_free [of t1 t2 t3]
  by (simp add: events_inv_def free_events_def)

section \<open>The event queue\<close>

text \<open>
  The intrusive event queue is a FIFO list: events appended to an empty queue come out of
  \<^verbatim>\<open>EventQueuePeek()\<close> / \<^verbatim>\<open>EventQueueRemoveEvent()\<close> in the order in which they were appended.
\<close>

theorem event_queue_fifo:
  assumes "evq c []" and "distinct (xs @ y # ys)"
  shows "EventQueuePeek (fold EventQueueRemoveEvent xs
           (fold EventQueueAppendEvent (xs @ y # ys) c)) = Some y"
  using assms by (rule evlist.fifo)

theorem event_queue_fifo_witness:
  "EventQueuePeek (fold EventQueueRemoveEvent [7, 5]
     (fold EventQueueAppendEvent [7, 5, 9, 2] idle_conn)) = Some 9"
  using event_queue_fifo [of idle_conn "[7, 5]" 9 "[2]"] by (simp add: idle_conn_def evq_def)

section \<open>Scheduling\<close>

text \<open>
  C12. \<^verbatim>\<open>ConnEventNext()\<close> on the pointer queue is the scheduling rule \<open>sched\<close> on the list of
  queued events: it always returns, takes exactly the event \<open>sched\<close> names out of the queue, and
  leaves the connection alone when there is nothing to start.
\<close>

theorem ConnEventNext_refines_sched:
  assumes "evq c xs"
  shows "\<exists>d. ConnEventNext c = Some (sched c xs, d) \<and>
    evq d (case sched c xs of None \<Rightarrow> xs | Some e \<Rightarrow> remove1 e xs) \<and>
    (sched c xs = None \<longrightarrow> d = c)"
  using ConnEventNext_spec [OF assms] evq_remove [OF assms sched_in] assms
  by (auto simp: take_out_def split: option.splits)

theorem ConnEventNext_refines_sched_witness:
  "\<exists>d. ConnEventNext ((queued_conn CONN_EVENT_FLUSH CONN_EVENT_READ CONN_EVENT_DISCONNECT)
           \<lparr>act_send := Some 9\<rparr>) = Some (Some 6, d) \<and> evq d [5, 7]"
proof -
  let ?q = "queued_conn CONN_EVENT_FLUSH CONN_EVENT_READ CONN_EVENT_DISCONNECT"
  have "evq (?q\<lparr>act_send := Some 9\<rparr>) [5, 6, 7]"
    using queued_conn_evq by (subst evq_cong [where c = ?q]) auto
  from ConnEventNext_refines_sched [OF this] show ?thesis
    by (simp add: sched_def next_receive_spec_def queued_conn_fields is_send_event_def is_read_event_def)
qed

lemma dropWhile_split:
  "dropWhile P xs = e # zs \<Longrightarrow> xs = takeWhile P xs @ e # zs \<and> (\<forall>y \<in> set (takeWhile P xs). P y)"
  using takeWhile_dropWhile_id [of P xs] by (auto dest: set_takeWhileD)

lemma sched_order:
  assumes "sched c xs = Some e"
  shows "\<exists>ys zs. xs = ys @ e # zs \<and>
    (\<forall>y \<in> set ys. class_of (ce_type (mem c y)) \<noteq> class_of (ce_type (mem c e)) \<and>
       class_of (ce_type (mem c y)) \<noteq> CONN_EVENT_CLASS_CONNECT)"
proof -
  have sr: "is_send_event t \<Longrightarrow> \<not> is_read_event t" for t by auto
  consider zs where "xs = e # zs"
    | zs where "dropWhile (\<lambda>e. is_read_event (ce_type (mem c e))) xs = e # zs" "is_send_event (ce_type (mem c e))"
    | zs where "dropWhile (\<lambda>e. is_send_event (ce_type (mem c e))) xs = e # zs" "is_read_event (ce_type (mem c e))"
    using assms
    by (auto simp: sched_def next_send_spec_def next_receive_spec_def split: if_splits list.splits)
  then show ?thesis
  proof cases
    case 1
    then show ?thesis by (intro exI [of _ "[]"] exI [of _ zs]) simp
  next
    case 2
    from dropWhile_split [OF 2(1)] 2(2) sr [OF 2(2)] show ?thesis
      by (intro exI [of _ "takeWhile (\<lambda>e. is_read_event (ce_type (mem c e))) xs"] exI [of _ zs]) auto
  next
    case 3
    from dropWhile_split [OF 3(1)] 3(2) show ?thesis
      by (intro exI [of _ "takeWhile (\<lambda>e. is_send_event (ce_type (mem c e))) xs"] exI [of _ zs]) auto
  qed
qed

text \<open>
  C11. Starting an event: it comes from the queue, nothing failed before, its slot is free, no
  connect-class event is active, a connect-class event is started only when nothing at all is
  active, and the event overtakes neither an event of its own class nor a connect-class event.
\<close>

theorem start_is_exclusive_and_ordered:
  assumes "events_inv c xs fs" and "process_pick c = Some (Some e, d)"
  shows "problem c = None \<and> act_connect c = None \<and> slot_of (ce_class (mem c e)) c = None \<and>
    (ce_class (mem c e) = CONN_EVENT_CLASS_CONNECT \<longrightarrow> actives c = {}) \<and>
    actives d = insert e (actives c) \<and>
    (\<exists>ys zs. xs = ys @ e # zs \<and>
       (\<forall>y \<in> set ys. ce_class (mem c y) \<noteq> ce_class (mem c e) \<and>
                      ce_class (mem c y) \<noteq> CONN_EVENT_CLASS_CONNECT))"
proof -
  have s: "sched c xs = Some e" and a: "actives d = insert e (actives c)"
    using assms process_pick_None [OF assms(1)] process_pick_Some [OF assms(1)]
    by (cases "sched c xs"; fastforce)+
  have wf: "\<And>x. x \<in> set xs \<Longrightarrow> ce_class (mem c x) = class_of (ce_type (mem c x))"
    using inv_wf [OF assms(1)] by (auto simp: wf_event_def)
  from sched_order [OF s] obtain ys zs where y: "xs = ys @ e # zs"
    "\<forall>y \<in> set ys. class_of (ce_type (mem c y)) \<noteq> class_of (ce_type (mem c e)) \<and>
       class_of (ce_type (mem c y)) \<noteq> CONN_EVENT_CLASS_CONNECT" by blast
  moreover have "\<forall>y \<in> set ys. ce_class (mem c y) = class_of (ce_type (mem c y))"
    "ce_class (mem c e) = class_of (ce_type (mem c e))" using wf y(1) by auto
  ultimately have "\<forall>y \<in> set ys. ce_class (mem c y) \<noteq> ce_class (mem c e) \<and>
                      ce_class (mem c y) \<noteq> CONN_EVENT_CLASS_CONNECT" by (simp del: class_of.simps)
  with sched_slot_free [OF s] inv_wf [OF assms(1)] sched_in [OF s] a y(1) show ?thesis by blast
qed

theorem start_is_exclusive_and_ordered_witness:
  "\<exists>d. process_pick (queued_conn CONN_EVENT_SSL_CONNECT CONN_EVENT_READ CONN_EVENT_FLUSH) = Some (Some 5, d) \<and>
     actives d = {5}"
proof -
  let ?q = "queued_conn CONN_EVENT_SSL_CONNECT CONN_EVENT_READ CONN_EVENT_FLUSH"
  note inv = queued_conn_inv [of CONN_EVENT_SSL_CONNECT CONN_EVENT_READ CONN_EVENT_FLUSH]
  have "sched ?q [5, 6, 7] = Some 5" by (simp add: sched_def queued_conn_fields)
  from process_pick_Some [OF inv this] obtain d where d: "process_pick ?q = Some (Some 5, d)" by blast
  from start_is_exclusive_and_ordered [OF inv d] d show ?thesis by (simp add: queued_conn_fields)
qed

section \<open>Problems\<close>

text \<open>
  \<^verbatim>\<open>EventQueueAbort()\<close> always returns.  The first problem of a transaction is recorded and every
  queued event moves to the free list; a later abort changes nothing.
\<close>

theorem first_problem_wins:
  assumes "events_inv c xs fs"
  shows "\<exists>d ys gs. EventQueueAbort ce st er src c = Some d \<and> events_inv d ys gs \<and>
    actives d = actives c \<and>
    (case problem c of
       None \<Rightarrow> problem d = Some \<lparr>pr_status = st, pr_error = er, pr_source = src\<rparr> \<and>
               ys = [] \<and> gs = rev xs @ fs
     | Some p \<Rightarrow> d = c)"
proof (cases "problem c")
  case None
  from EventQueueAbort_first [OF assms None, of ce st er src] None show ?thesis by auto
next
  case (Some p)
  then show ?thesis using EventQueueAbort_again [of c ce st er src] assms by auto
qed

theorem first_problem_wins_witness:
  "\<exists>d. EventQueueAbort None CONN_EVENT_KILLED ECANCELED 7
       (queued_conn CONN_EVENT_FLUSH CONN_EVENT_READ CONN_EVENT_DISCONNECT) = Some d \<and>
     evq d [] \<and> free_events d [7, 6, 5] \<and> map_option pr_error (problem d) = Some ECANCELED"
  using first_problem_wins [OF queued_conn_inv, of None CONN_EVENT_KILLED ECANCELED 7
      CONN_EVENT_FLUSH CONN_EVENT_READ CONN_EVENT_DISCONNECT]
  by (auto simp: queued_conn_fields events_inv_def)

text \<open>
  A partial read (\<^verbatim>\<open>CONN_EVENT_PARTIAL\<close>) records a problem but, unlike every other problem,
  leaves the queue as it is.  When events are queued behind it and nothing else is active, nothing
  can be started any more, and the thread leaves reporting that the queue is still being worked
  on: the callback of the transaction is never started.
\<close>

theorem partial_read_strands_the_queue:
  assumes "events_inv c xs fs" and "actives c = {e}" and "problem c = None"
    and "ce_status (mem c e) = CONN_EVENT_PARTIAL" and "xs \<noteq> []"
  shows "\<exists>d. process_finish sd e c = Some d \<and> evq d xs \<and> actives d = {} \<and> problem d \<noteq> None \<and>
    process_pick d = Some (None, d) \<and> fst (process_leave d)"
proof -
  have e: "e \<in> actives c" using assms(2) by simp
  let ?c1 = "count_bytes e (connEventInProgressClear e c)"
  note cl = clear_inv [OF assms(1) e]
  note cb = count_bytes_inv [OF cl(1), of e]
  have p: "problem ?c1 = None" using cl(3) cb assms(3) by (simp add: same_trans_def)
  let ?ev = "mem c e"
  let ?c2 = "snd (SetAsyncProblem (ce_status ?ev) (ce_error ?ev) (ce_source ?ev) ?c1)"
  have h: "handle_errors sd e ?c1 = Some ?c2"
    using p assms(4) cl cb by (simp add: handle_errors_def Let_def)
  note sp = SetAsyncProblem_inv [OF cb(1), of "ce_status ?ev" "ce_error ?ev" "ce_source ?ev"]
  have "e \<notin> known ?c2 xs fs"
    using assms(1) e unfolding sp(3) using cl cb by (auto simp: known_def events_inv_def)
  note fa = free_add_inv [OF sp(1) this]
  let ?d = "ConnEventFreeListAdd e ?c2"
  have prob: "problem ?d \<noteq> None" using fa(4) p by (simp add: same_trans_def SetAsyncProblem_def)
  then have "sched ?d xs = None" by (simp add: sched_def)
  from process_pick_None [OF fa(1) this] process_leave_spec [OF fa(1)] assms(5)
  have "process_pick ?d = Some (None, ?d)" "fst (process_leave ?d)" by auto
  with h prob fa sp cb cl assms(2) inv_evq [OF fa(1)] show ?thesis
    by (intro exI [of _ ?d]) (simp add: process_finish_def)
qed

definition partial_conn :: "byte list conn" where
  "partial_conn =
     (let q = queued_conn CONN_EVENT_FLUSH CONN_EVENT_READ CONN_EVENT_DISCONNECT
      in q\<lparr>mem := (mem q)(4 := (ev_of CONN_EVENT_READ)\<lparr>ce_status := CONN_EVENT_PARTIAL\<rparr>),
           act_receive := Some 4\<rparr>)"

lemma partial_conn_inv: "events_inv partial_conn [5, 6, 7] []"
proof -
  let ?q = "queued_conn CONN_EVENT_FLUSH CONN_EVENT_READ CONN_EVENT_DISCONNECT"
  have "evq partial_conn [5, 6, 7]"
    using queued_conn_evq by (subst evq_cong [where c = ?q]) (auto simp: partial_conn_def Let_def)
  then show ?thesis
    by (simp add: events_inv_def partial_conn_def Let_def queued_conn_fields queued_conn_free
        free_events_def slots_ok_def actives_def)
      (simp add: wf_event_def ev_of_def is_read_event_def)
qed

theorem partial_read_strands_the_queue_witness:
  "\<exists>d. process_finish False 4 partial_conn = Some d \<and> evq d [5, 6, 7] \<and> fst (process_leave d)"
proof -
  have "actives partial_conn = {4}" "problem partial_conn = None"
    "ce_status (mem partial_conn 4) = CONN_EVENT_PARTIAL"
    by (simp_all add: partial_conn_def Let_def actives_def queued_conn_fields)
  from partial_read_strands_the_queue [OF partial_conn_inv this, of False] show ?thesis by auto
qed

section \<open>All interleavings\<close>



text \<open>A submit without any event is accepted, fails with \<^verbatim>\<open>EPERM\<close>, and is called back.\<close>

definition submitted_world :: "byte list world" where
  "submitted_world = idle_world\<lparr>wc := idle_conn\<lparr>problem := Some \<lparr>pr_status = CONN_EVENT_FAILED,
       pr_error = EPERM, pr_source = 0\<rparr>, state := CONN_STATE_ASYNCHRONOUS_ENGINE_COMPLETE,
       cl_client := 42\<rparr>, pending := 1, submits := 1\<rparr>"

lemma resume_last_thread:
  assumes "events_inv (wc w) [] fs" and "actives (wc w) = {}" and "problem (wc w) \<noteq> None"
    and "threads (wc w) = 1" and "state (wc w) = CONN_STATE_ASYNCHRONOUS_ENGINE"
  shows "resume w = Some (w\<lparr>wc := (wc w)\<lparr>threads := 0,
    state := CONN_STATE_ASYNCHRONOUS_ENGINE_COMPLETE\<rparr>, pending := pending w + 1\<rparr>)"
proof -
  have "sched (wc w) [] = None" using assms(3) by (simp add: sched_def)
  from process_pick_None [OF assms(1) this] process_leave_spec [OF assms(1)] assms(2,4,5)
  show ?thesis by (simp add: resume_def)
qed

lemma submitted_reachable: "reachable (list_iob 8) submitted_world"
proof (rule reachable.step [OF reachable.start [OF idle_initial]])
  let ?p = "\<lparr>pr_status = CONN_EVENT_FAILED, pr_error = EPERM, pr_source = 0\<rparr>"
  let ?w = "idle_world\<lparr>wc := enter (idle_conn\<lparr>problem := Some ?p, state := CONN_STATE_ASYNCHRONOUS_ENGINE,
      cl_client := 42\<rparr>), submits := 1\<rparr>"
  have "events_inv (wc ?w) [] []" using idle_conn_inv
    by (simp add: enter_def) (erule events_inv_links; simp add: same_links_def same_slots_def)
  then have "resume ?w = Some submitted_world"
    by (subst resume_last_thread)
      (simp_all add: submitted_world_def enter_def idle_conn_def actives_def idle_world_def)
  then show "qstep (list_iob 8) idle_world submitted_world"
    by (intro qstep.submit [where src = 0 and client = 42 and c = "idle_conn\<lparr>problem := Some ?p\<rparr>"])
      (simp_all add: idle_world_def idle_conn_def submitProblem_def SetAsyncProblem_def)
qed



end
