(* ===== verification/Process.thy ===== *)
theory Process
  imports QueueLoop
begin

unbundle bit_operations_syntax

text \<open>
  The work on one connection event (\<^verbatim>\<open>src/src/process.c\<close>).  The state of a call is the event, the
  buffer it works on (its own send buffer, or the receive buffer of the connection) and \<open>'s\<close>,
  the socket together with everything outside connio.  What the functions call is in the record
  \<open>penv\<close>: the iobuf library, the socket layer (\<^verbatim>\<open>sockcommon.c\<close>), the consumer's callbacks and
  \<^verbatim>\<open>connWriteEx()\<close> on the destination of a \<^verbatim>\<open>CONN_EVENT_READ_TO_CONN\<close>.  Functions return an errno,
  \<^verbatim>\<open>*blockedOn\<close> and the state; \<open>None\<close> is a call that does not return.
\<close>

section \<open>The environment\<close>

record 's sock_ops =
  SocketSend :: "byte list \<Rightarrow> SocketEventType \<Rightarrow> 's \<Rightarrow> (int \<times> SocketEventType \<times> errno \<times> 's) option"
  SocketReceive :: "nat \<Rightarrow> SocketEventType \<Rightarrow> 's \<Rightarrow> (byte list \<times> SocketEventType \<times> errno \<times> 's) option"
    \<comment> \<open>no bytes for a result that is not positive\<close>
  SocketConnectStart :: "bool \<Rightarrow> SocketEventType \<Rightarrow> 's \<Rightarrow> errno \<times> SocketEventType \<times> 's"
    \<comment> \<open>the flag tells whether the event is asynchronous\<close>
  SocketDisconnectStart :: "bool \<Rightarrow> SocketEventType \<Rightarrow> 's \<Rightarrow> errno \<times> SocketEventType \<times> 's"
  SocketValid :: "'s \<Rightarrow> bool"
  SocketSSLStart :: "bool \<Rightarrow> bool \<Rightarrow> SocketEventType \<Rightarrow> 's \<Rightarrow> errno \<times> SocketEventType \<times> 's"
    \<comment> \<open>server side (\<^verbatim>\<open>SocketSSLAccept\<close>) or client side, TLS or SSL context\<close>
  SocketSSLDisconnect :: "SocketEventType \<Rightarrow> 's \<Rightarrow> errno \<times> SocketEventType \<times> 's"
  SocketConnectFinish :: "'s \<Rightarrow> 's"
  SocketDisconnectFinish :: "'s \<Rightarrow> 's"
  SocketConnectAbort :: "'s \<Rightarrow> 's"
  SocketSSLAbort :: "'s \<Rightarrow> 's"
  SocketWait :: "SocketEventType \<Rightarrow> int \<Rightarrow> 's \<Rightarrow> (errno \<times> 's) option"
  SocketEventWait :: "SocketEventType \<Rightarrow> int \<Rightarrow> 's \<Rightarrow> errno \<times> 's"

record ('b, 's) penv =
  iob :: "'b iob_ops"
  sock :: "'s sock_ops"
  write_cb :: "nat \<Rightarrow> 's \<Rightarrow> ConnIOCBResponse \<times> nat \<times> (nat \<Rightarrow> byte) \<times> errno \<times> 's"
    \<comment> \<open>room to response, the count it reports, the buffer it leaves, errno\<close>
  read_cb :: "byte list \<Rightarrow> 's \<Rightarrow> ConnIOCBResponse \<times> nat \<times> 's"
  conn_write :: "byte list \<Rightarrow> 's \<Rightarrow> nat \<times> errno \<times> 's"

record ('b, 's) pst =
  pe :: "'b ConnEvent"
  pbuf :: 'b
  psock :: 's

type_synonym ('b, 's) step_result = "(errno \<times> SocketEventType \<times> ('b, 's) pst) option"

abbreviation used :: "('b, 's) penv \<Rightarrow> ('b, 's) pst \<Rightarrow> byte list" where
  "used env p \<equiv> IOBGetUsed (iob env) (pbuf p)"

definition mark_free :: "('b, 's) penv \<Rightarrow> nat \<Rightarrow> ('b, 's) pst \<Rightarrow> ('b, 's) pst" where
  "mark_free env n p = p\<lparr>pbuf := IOBMarkFree (iob env) n (pbuf p)\<rparr>"

definition on_event :: "('b ConnEvent \<Rightarrow> 'b ConnEvent) \<Rightarrow> ('b, 's) pst \<Rightarrow> ('b, 's) pst" where
  "on_event f p = p\<lparr>pe := f (pe p)\<rparr>"

section \<open>Sending\<close>

partial_function (option) flushSendBuffer ::
    "('b, 's) penv \<Rightarrow> SocketEventType \<Rightarrow> ('b, 's) pst \<Rightarrow> ('b, 's) step_result" where
  "flushSendBuffer env blockedOn p =
     (let buff = used env p
      in if buff = [] then Some (0, blockedOn, p)
         else
           do { (moved, bo, err, s) \<leftarrow> SocketSend (sock env) buff blockedOn (psock p);
                let p1 = (if moved > 0 then mark_free env (nat moved) (p\<lparr>psock := s\<rparr>)
                          else p\<lparr>psock := s\<rparr>);
                if moved > 0 \<and> moved = int (length buff) then flushSendBuffer env bo p1
                else Some (err, bo, p1) })"

partial_function (option) sendFromClientBuffer ::
    "('b, 's) penv \<Rightarrow> SocketEventType \<Rightarrow> ('b, 's) pst \<Rightarrow> ('b, 's) step_result" where
  "sendFromClientBuffer env blockedOn p =
     (if cb_remaining (pe p) > 0 then
        do { (sent, bo, err, s) \<leftarrow>
               SocketSend (sock env) (take (cb_remaining (pe p)) (cb_read (pe p))) blockedOn (psock p);
             if sent > 0
             then sendFromClientBuffer env bo
                    (on_event (\<lambda>e. e\<lparr>cb_remaining := cb_remaining e - nat sent,
                                     cb_read := drop (nat sent) (cb_read e)\<rparr>) (p\<lparr>psock := s\<rparr>))
             else Some (err, bo, p\<lparr>psock := s\<rparr>) }
      else Some (0, blockedOn, p))"

text \<open>
  One round of \<^verbatim>\<open>writeFromCB()\<close>, when there is room in the buffer: ask the callback for data and
  decide what to do next: flush and return the result of that, return an error, call it again, or
  flush and call it again.
\<close>

datatype ('b, 's) write_round =
    Flush_and_return "('b, 's) pst"
  | Return errno "('b, 's) pst"
  | Call_again "('b, 's) pst"
  | Flush_and_call "('b, 's) pst"

definition after_write_cb ::
    "('b, 's) penv \<Rightarrow> ConnIOCBResponse \<Rightarrow> errno \<Rightarrow> ('b, 's) pst \<Rightarrow> ('b, 's) write_round" where
  "after_write_cb env resp cberr p =
     (case resp of
        CONN_IOCBR_CONTINUE \<Rightarrow> Call_again p
      | CONN_IOCBR_NEED_MORE_BUFFER \<Rightarrow>
          (case IOBIncreaseFree (iob env) (pbuf p) of (increased, b) \<Rightarrow>
             if increased then Call_again (p\<lparr>pbuf := b\<rparr>) else Flush_and_call (p\<lparr>pbuf := b\<rparr>))
      | CONN_IOCBR_DONE \<Rightarrow>
          if arg_cb_count (pe p) = 0
          then Flush_and_return (on_event (\<lambda>e. e\<lparr>arg_cb_count := ce_transferred e\<rparr>) p)
          else Return ECONNIOCBSHORT p
      | CONN_IOCBR_NEED_MORE_DATA \<Rightarrow> Return ECONNIOMODE p
      | CONN_IOCBR_ERROR \<Rightarrow>
          Return (if cberr = EWOULDBLOCK then ECONNIOMODE
                  else if cberr \<noteq> 0 then cberr else ECONNIOBUG) p)"

definition write_cb_round :: "('b, 's) penv \<Rightarrow> ('b, 's) pst \<Rightarrow> ('b, 's) write_round" where
  "write_cb_round env p =
     (let bufferSpace = IOBGetFree (iob env) (pbuf p);
          total = arg_cb_count (pe p);
          sofar = ce_transferred (pe p)
      in if total \<noteq> 0 \<and> sofar \<ge> total then Flush_and_return p
         else
           (let requestSize = (if total \<noteq> 0 then min bufferSpace (total - sofar) else bufferSpace)
            in case write_cb env requestSize (psock p) of
                 (resp, count, bytes, cberr, s) \<Rightarrow>
                   if count > requestSize then Return ECONNIOCBLONG (p\<lparr>psock := s\<rparr>)
                   else
                     (let p1 = (if count > 0
                                then on_event (\<lambda>e. e\<lparr>ce_transferred := ce_transferred e + count\<rparr>)
                                       (p\<lparr>psock := s,
                                          pbuf := IOBMarkUsed (iob env) (map bytes [0..<count]) (pbuf p)\<rparr>)
                                else p\<lparr>psock := s\<rparr>)
                      in if count > 0 \<and> total \<noteq> 0 \<and> ce_transferred (pe p1) \<ge> total
                         then Flush_and_return p1
                         else after_write_cb env resp cberr p1)))"

partial_function (option) writeFromCB ::
    "('b, 's) penv \<Rightarrow> SocketEventType \<Rightarrow> ('b, 's) pst \<Rightarrow> ('b, 's) step_result" where
  "writeFromCB env blockedOn p =
     do { (err0, bo, p0) \<leftarrow> (if IOBGetFree (iob env) (pbuf p) = 0
                            then flushSendBuffer env blockedOn p else Some (0, blockedOn, p));
          if err0 \<noteq> 0 then Some (err0, bo, p0)
          else
            (case write_cb_round env p0 of
               Flush_and_return p1 \<Rightarrow> flushSendBuffer env bo p1
             | Return err p1 \<Rightarrow> Some (err, bo, p1)
             | Call_again p1 \<Rightarrow> writeFromCB env bo p1
             | Flush_and_call p1 \<Rightarrow>
                 do { (err, bo2, p2) \<leftarrow> flushSendBuffer env bo p1;
                      if err \<noteq> 0 then Some (err, bo2, p2) else writeFromCB env bo2 p2 }) }"

section \<open>Receiving\<close>

partial_function (option) drain_loop ::
    "('b, 's) penv \<Rightarrow> nat \<Rightarrow> SocketEventType \<Rightarrow> 's \<Rightarrow> (SocketEventType \<times> errno \<times> 's) option" where
  "drain_loop env count blockedOn s =
     do { (bytes, bo, err, s1) \<leftarrow> SocketReceive (sock env) count blockedOn s;
          if bytes \<noteq> [] then drain_loop env count bo s1 else Some (bo, err, s1) }"

definition drainWire ::
    "('b, 's) penv \<Rightarrow> SocketEventType \<Rightarrow> ('b, 's) pst \<Rightarrow> ('b, 's) step_result" where
  "drainWire env blockedOn p =
     do { (bo, err, s) \<leftarrow> drain_loop env (IOBGetFree (iob env) (pbuf p)) blockedOn (psock p);
          Some (if err = ECONNCLOSEDBYPEER then (0, SOCK_EVENT_TYPE_NONE, p\<lparr>psock := s\<rparr>)
                else if err = EWOULDBLOCK then (err, SOCK_EVENT_TYPE_READABLE, p\<lparr>psock := s\<rparr>)
                else (err, SOCK_EVENT_TYPE_NONE, p\<lparr>psock := s\<rparr>)) }"

definition drainReceiveBuffer :: "('b, 's) penv \<Rightarrow> ('b, 's) pst \<Rightarrow> ('b, 's) pst" where
  "drainReceiveBuffer env p =
     (if used env p \<noteq> []
      then (let p1 = p\<lparr>pbuf := snd (IOBDefrag (iob env) (pbuf p))\<rparr>
            in mark_free env (length (used env p1)) p1)
      else p)"

definition fillRecvBuffer ::
    "('b, 's) penv \<Rightarrow> SocketEventType \<Rightarrow> ('b, 's) pst \<Rightarrow> ('b, 's) step_result" where
  "fillRecvBuffer env blockedOn p =
     (let ioBufferSpace = IOBGetFree (iob env) (pbuf p)
      in if ioBufferSpace \<noteq> 0 then
           do { (bytes, bo, err, s) \<leftarrow> SocketReceive (sock env) ioBufferSpace blockedOn (psock p);
                if bytes \<noteq> []
                then Some (0, bo, p\<lparr>psock := s, pbuf := IOBMarkUsed (iob env) bytes (pbuf p)\<rparr>)
                else Some (err, bo, p\<lparr>psock := s\<rparr>) }
         else Some (ENOBUFS, blockedOn, p))"

definition TerminateClientBuffer :: "'b ConnEvent \<Rightarrow> 'b ConnEvent" where
  "TerminateClientBuffer e = e\<lparr>cb_terminated := True\<rparr>"

definition CopyBufferedDataToClient :: "byte list \<Rightarrow> 'b ConnEvent \<Rightarrow> 'b ConnEvent" where
  "CopyBufferedDataToClient buff e =
     e\<lparr>cb_written := cb_written e @ buff, cb_remaining := cb_remaining e - length buff,
       ce_transferred := ce_transferred e + length buff\<rparr>"

text \<open>
  \<open>data\<close> is what \<^verbatim>\<open>data\<close> points to: at least \<open>dataCount + patternLen\<close> bytes.
\<close>

definition moveFinalConditionalDataToClient ::
    "('b, 's) penv \<Rightarrow> byte list \<Rightarrow> nat \<Rightarrow> nat \<Rightarrow> ('b, 's) pst \<Rightarrow> errno \<times> ('b, 's) pst" where
  "moveFinalConditionalDataToClient env data dataCount patternLen p =
     (let e = pe p; mode = ce_dataMode e;
          (err, n, pl, p1) =
            (if has mode CONN_READ_COPY then
               (let terminatorLen = (if has mode CONN_READ_TERMINATE then 1 else 0);
                    replaced = has mode CONN_READ_REPLACE_PATTERN;
                    extraLen = (if \<not> replaced \<and> has mode CONN_READ_INCLUDE_PATTERN then patternLen else 0);
                    replacementPatternLen = (if replaced then length (arg_pattern e) else 0)
                in if dataCount + extraLen + replacementPatternLen + terminatorLen > cb_remaining e
                   then (EMSGSIZE, min dataCount (cb_remaining e), 0,
                         on_event (CopyBufferedDataToClient (take (min dataCount (cb_remaining e)) data)) p)
                   else
                     (let q1 = on_event (CopyBufferedDataToClient (take (dataCount + extraLen) data)) p;
                          q2 = (if replacementPatternLen \<noteq> 0
                                then on_event (CopyBufferedDataToClient (arg_pattern e)) q1 else q1);
                          q3 = (if terminatorLen \<noteq> 0 then on_event TerminateClientBuffer q2 else q2)
                      in (0, dataCount, patternLen, q3)))
             else if \<not> has mode CONN_READ_DELETE
             then (0, dataCount, patternLen, on_event (\<lambda>x. x\<lparr>ce_transferred := dataCount\<rparr>) p)
             else (0, dataCount, patternLen, p))
      in (err, if has mode CONN_READ_DELETE then mark_free env (n + pl) p1 else p1))"

definition movePartialConditionalDataToClient ::
    "('b, 's) penv \<Rightarrow> byte list \<Rightarrow> nat \<Rightarrow> ('b, 's) pst \<Rightarrow> errno \<times> ('b, 's) pst" where
  "movePartialConditionalDataToClient env data moveableCount p =
     (let mode = ce_dataMode (pe p)
      in if has mode CONN_READ_DELETE \<and> moveableCount \<noteq> 0 then
           (if has mode CONN_READ_COPY then
              (let short = cb_remaining (pe p) < moveableCount;
                   n = (if short then cb_remaining (pe p) else moveableCount)
               in (if short then EMSGSIZE else ECONNMOREDATA,
                   mark_free env n (on_event (CopyBufferedDataToClient (take n data)) p)))
            else (ECONNMOREDATA, mark_free env moveableCount p))
         else (ECONNMOREDATA, p))"

definition SPECIAL_PATTERN_CRLF :: "byte list" where
  "SPECIAL_PATTERN_CRLF = [83, 80, 95, 67, 82, 76, 70]"

text \<open>Result: satisfied, \<^verbatim>\<open>*data\<close>, \<^verbatim>\<open>*count\<close>, \<^verbatim>\<open>*patternLen\<close>.\<close>

definition EventConditionSatisfied ::
    "('b, 's) penv \<Rightarrow> ('b, 's) pst \<Rightarrow> (bool \<times> byte list \<times> nat \<times> nat) \<times> ('b, 's) pst" where
  "EventConditionSatisfied env p =
     (let e = pe p
      in case ce_type e of
           CONN_EVENT_READ \<Rightarrow>
             (let data = used env p
              in if data \<noteq> []
                 then ((True, data, if length data \<ge> cb_remaining e then cb_remaining e else length data, 0), p)
                 else ((False, data, 0, 0), p))
         | CONN_EVENT_READ_COUNT \<Rightarrow>
             (let data = used env p
              in if length data \<ge> cb_remaining e then ((True, data, cb_remaining e, 0), p)
                 else ((False, data, length data, 0), p))
         | CONN_EVENT_READ_UNTIL_PATTERN \<Rightarrow>
             (case IOBSearch (iob env) (if arg_pattern e \<noteq> SPECIAL_PATTERN_CRLF then Some (arg_pattern e) else None)
                     (pbuf p) of
                (count, match, patternLen, b) \<Rightarrow>
                  ((match, used env (p\<lparr>pbuf := b\<rparr>), count, patternLen), p\<lparr>pbuf := b\<rparr>))
         | _ \<Rightarrow> ((False, [], 0, 0), p))"

definition SatisfyEvent :: "('b, 's) penv \<Rightarrow> ('b, 's) pst \<Rightarrow> errno \<times> ('b, 's) pst" where
  "SatisfyEvent env p =
     (case EventConditionSatisfied env p of
        ((True, data, count, patternLen), p1) \<Rightarrow>
          moveFinalConditionalDataToClient env data count patternLen p1
      | ((False, data, count, _), p1) \<Rightarrow> movePartialConditionalDataToClient env data count p1)"

text \<open>The \<^verbatim>\<open>ConnATest\<close> case: the buffer is full and nothing is wanted but a look.\<close>

definition test_case :: "errno \<Rightarrow> ('b, 's) pst \<Rightarrow> bool" where
  "test_case err p \<longleftrightarrow> err = ENOBUFS \<and> \<not> has (ce_dataMode (pe p)) (CONN_READ_DELETE OR CONN_READ_COPY)"

definition test_result :: "('b, 's) penv \<Rightarrow> ('b, 's) pst \<Rightarrow> ('b, 's) pst" where
  "test_result env p = on_event (\<lambda>e. e\<lparr>ce_transferred := length (used env p)\<rparr>) p"

partial_function (option) conditionalReadProcess ::
    "('b, 's) penv \<Rightarrow> SocketEventType \<Rightarrow> ('b, 's) pst \<Rightarrow> ('b, 's) step_result" where
  "conditionalReadProcess env blockedOn p =
     (case SatisfyEvent env p of (err, p1) \<Rightarrow>
        if err \<noteq> ECONNMOREDATA then Some (err, blockedOn, p1)
        else
          do { (err2, bo, p2) \<leftarrow> fillRecvBuffer env blockedOn p1;
               if err2 \<noteq> 0 then
                 (if test_case err2 p2 then Some (0, bo, test_result env p2) else Some (err2, bo, p2))
               else conditionalReadProcess env bo p2 })"

text \<open>
  One round of \<^verbatim>\<open>readToCallbackProcess()\<close>.  When the callback wants more data than it was shown,
  the fragments are joined, and only then the wire is read.
\<close>

datatype ('b, 's) cb_round =
    Finished errno "('b, 's) pst"
  | Again "('b, 's) pst"
  | Need_data "('b, 's) pst"

definition after_read_cb ::
    "('b, 's) penv \<Rightarrow> ConnIOCBResponse \<Rightarrow> bool \<Rightarrow> bool \<Rightarrow> ('b, 's) pst \<Rightarrow> ('b, 's) cb_round" where
  "after_read_cb env resp counted all_taken p =
     (case resp of
        CONN_IOCBR_CONTINUE \<Rightarrow> Again p
      | CONN_IOCBR_DONE \<Rightarrow> Finished (if counted then ECONNIOCBSHORT else 0) p
      | CONN_IOCBR_NEED_MORE_DATA \<Rightarrow>
          if all_taken then Again p
          else
            (case IOBDefrag (iob env) (pbuf p) of (joined, b) \<Rightarrow>
               if joined then Again (p\<lparr>pbuf := b\<rparr>)
               else if IOBGetFree (iob env) b = 0 then Finished ENOBUFS (p\<lparr>pbuf := b\<rparr>)
               else Need_data (p\<lparr>pbuf := b\<rparr>))
      | CONN_IOCBR_NEED_MORE_BUFFER \<Rightarrow> Finished ECONNIOMODE p
      | CONN_IOCBR_ERROR \<Rightarrow> Finished EIO p)"

definition read_cb_round :: "('b, 's) penv \<Rightarrow> ('b, 's) pst \<Rightarrow> ('b, 's) cb_round" where
  "read_cb_round env p =
     (let total = arg_cb_count (pe p);
          sofar = ce_transferred (pe p)
      in if used env p = [] then Need_data p
         else if total \<noteq> 0 \<and> sofar \<ge> total then Finished 0 p
         else
           (let shown = (if total \<noteq> 0 then take (total - sofar) (used env p) else used env p)
            in case read_cb env shown (psock p) of
                 (resp, count, s) \<Rightarrow>
                   if count > length shown then Finished ECONNIOCBLONG (p\<lparr>psock := s\<rparr>)
                   else
                     (let p1 = (if count > 0
                                then on_event (\<lambda>e. e\<lparr>ce_transferred := ce_transferred e + count\<rparr>)
                                       (mark_free env count (p\<lparr>psock := s\<rparr>))
                                else p\<lparr>psock := s\<rparr>)
                      in if count > 0 \<and> total \<noteq> 0 \<and> ce_transferred (pe p1) \<ge> total
                         then Finished 0 p1
                         else after_read_cb env resp (total \<noteq> 0) (count = length shown) p1)))"

partial_function (option) readToCallbackProcess ::
    "('b, 's) penv \<Rightarrow> SocketEventType \<Rightarrow> ('b, 's) pst \<Rightarrow> ('b, 's) step_result" where
  "readToCallbackProcess env blockedOn p =
     (case read_cb_round env p of
        Finished err p1 \<Rightarrow> Some (err, blockedOn, p1)
      | Again p1 \<Rightarrow> readToCallbackProcess env blockedOn p1
      | Need_data p1 \<Rightarrow>
          do { (err, bo, p2) \<leftarrow> fillRecvBuffer env blockedOn p1;
               if err \<noteq> 0 then Some (err, bo, p2) else readToCallbackProcess env bo p2 })"

text \<open>The inner loop of \<^verbatim>\<open>readToConnProcess()\<close>: fill the buffer until it holds enough or is full.\<close>

partial_function (option) fill_until ::
    "('b, 's) penv \<Rightarrow> nat \<Rightarrow> SocketEventType \<Rightarrow> ('b, 's) pst \<Rightarrow> ('b, 's) step_result" where
  "fill_until env stillNeeded blockedOn p =
     (if length (used env p) < stillNeeded then
        do { (err, bo, p1) \<leftarrow> fillRecvBuffer env blockedOn p;
             if err = ENOBUFS then Some (0, bo, p1)
             else if err \<noteq> 0 then Some (err, bo, p1)
             else fill_until env stillNeeded bo p1 }
      else Some (0, blockedOn, p))"

text \<open>Handing what the buffer holds to the destination connection.\<close>

definition write_to_conn :: "('b, 's) penv \<Rightarrow> nat \<Rightarrow> ('b, 's) pst \<Rightarrow> errno \<times> ('b, 's) pst" where
  "write_to_conn env stillNeeded p =
     (case conn_write env (take stillNeeded (used env p)) (psock p) of
        (sent, err, s) \<Rightarrow>
          (err, if sent \<noteq> 0
                then on_event (\<lambda>e. e\<lparr>ce_transferred := ce_transferred e + sent\<rparr>)
                       (mark_free env sent (p\<lparr>psock := s\<rparr>))
                else p\<lparr>psock := s\<rparr>))"

partial_function (option) readToConnProcess ::
    "('b, 's) penv \<Rightarrow> SocketEventType \<Rightarrow> ('b, 's) pst \<Rightarrow> ('b, 's) step_result" where
  "readToConnProcess env blockedOn p =
     (if ce_transferred (pe p) \<ge> arg_conn_count (pe p) then Some (0, blockedOn, p)
      else
        (let stillNeeded = arg_conn_count (pe p) - ce_transferred (pe p);
             p0 = (if length (used env p) < stillNeeded
                   then p\<lparr>pbuf := snd (IOBDefrag (iob env) (pbuf p))\<rparr> else p)
         in do { (err, bo, p1) \<leftarrow> fill_until env stillNeeded blockedOn p0;
                 if err \<noteq> 0 then Some (err, bo, p1)
                 else
                   (case write_to_conn env stillNeeded p1 of
                      (werr, p2) \<Rightarrow>
                        if werr \<noteq> 0 then Some (werr, bo, p2) else readToConnProcess env bo p2) }))"

section \<open>One attempt\<close>

text \<open>Reads that come out of the engine fill the receive buffer first.\<close>

definition resume_read ::
    "('b, 's) penv \<Rightarrow> bool \<Rightarrow> (SocketEventType \<Rightarrow> ('b, 's) pst \<Rightarrow> ('b, 's) step_result) \<Rightarrow>
     SocketEventType \<Rightarrow> ('b, 's) pst \<Rightarrow> ('b, 's) step_result" where
  "resume_read env testable go blockedOn p =
     (if ce_status (pe p) = CONN_EVENT_IN_PROGRESS then
        do { (err, bo, p1) \<leftarrow> fillRecvBuffer env blockedOn p;
             if err \<noteq> 0 then
               (if testable \<and> test_case err p1 then Some (0, bo, test_result env p1)
                else Some (err, bo, p1))
             else go bo p1 }
      else go blockedOn p)"

text \<open>The guard of the four SSL/TLS handshakes: the receive buffer must be empty.\<close>

definition start_ssl ::
    "('b, 's) penv \<Rightarrow> bool \<Rightarrow> bool \<Rightarrow> SocketEventType \<Rightarrow> ('b, 's) pst \<Rightarrow> ('b, 's) step_result" where
  "start_ssl env server tls blockedOn p =
     (if used env p = []
      then (case SocketSSLStart (sock env) server tls blockedOn (psock p) of
              (err, bo, s) \<Rightarrow> Some (err, bo, p\<lparr>psock := s\<rparr>))
      else Some (EOVERFLOW, blockedOn, p))"

definition socketEventProcess ::
    "('b, 's) penv \<Rightarrow> SocketEventType \<Rightarrow> ('b, 's) pst \<Rightarrow> ('b, 's) step_result" where
  "socketEventProcess env blockedOn p =
     (let async = (ce_mode (pe p) = CONN_EVENT_MODE_ASYNCHRONOUS);
          lift = (\<lambda>(err, bo, s). Some (err, bo, p\<lparr>psock := s\<rparr>))
      in case ce_type (pe p) of
           CONN_EVENT_WRITE_FROM_CB \<Rightarrow> writeFromCB env blockedOn p
         | CONN_EVENT_WRITE_FROM_CLIENT_BUFFER \<Rightarrow> sendFromClientBuffer env blockedOn p
         | CONN_EVENT_FLUSH \<Rightarrow> flushSendBuffer env blockedOn p
         | CONN_EVENT_READ \<Rightarrow> resume_read env True (conditionalReadProcess env) blockedOn p
         | CONN_EVENT_READ_COUNT \<Rightarrow> resume_read env True (conditionalReadProcess env) blockedOn p
         | CONN_EVENT_READ_UNTIL_PATTERN \<Rightarrow> resume_read env True (conditionalReadProcess env) blockedOn p
         | CONN_EVENT_READ_TO_CONN \<Rightarrow> resume_read env False (readToConnProcess env) blockedOn p
         | CONN_EVENT_READ_TO_CB \<Rightarrow> resume_read env False (readToCallbackProcess env) blockedOn p
         | CONN_EVENT_CONNECT \<Rightarrow>
             if ce_status (pe p) \<noteq> CONN_EVENT_IN_PROGRESS
             then lift (SocketConnectStart (sock env) async blockedOn (psock p))
             else Some (0, blockedOn, p)
         | CONN_EVENT_DISCONNECT \<Rightarrow>
             if ce_status (pe p) \<noteq> CONN_EVENT_IN_PROGRESS then
               (let p1 = drainReceiveBuffer env p
                in if \<not> SocketValid (sock env) (psock p1) then Some (0, blockedOn, p1)
                   else (case SocketDisconnectStart (sock env) async blockedOn (psock p1) of
                           (err, bo, s) \<Rightarrow> Some (err, bo, p1\<lparr>psock := s\<rparr>)))
             else
               do { (err, bo, p1) \<leftarrow> drainWire env blockedOn p;
                    Some (if err = ECONNCLOSEDBYPEER \<or> err = 0 then 0 else err, bo, p1) }
         | CONN_EVENT_SSL_ACCEPT \<Rightarrow> start_ssl env True False blockedOn p
         | CONN_EVENT_TLS_ACCEPT \<Rightarrow> start_ssl env True True blockedOn p
         | CONN_EVENT_SSL_CONNECT \<Rightarrow> start_ssl env False False blockedOn p
         | CONN_EVENT_TLS_CONNECT \<Rightarrow> start_ssl env False True blockedOn p
         | CONN_EVENT_SSL_DISCONNECT \<Rightarrow> lift (SocketSSLDisconnect (sock env) blockedOn (psock p))
         | CONN_EVENT_ACCEPT \<Rightarrow> Some (ECONNIOBUG, blockedOn, p))"

definition socketEventComplete :: "('b, 's) penv \<Rightarrow> ('b, 's) pst \<Rightarrow> ('b, 's) pst" where
  "socketEventComplete env p =
     (case ce_type (pe p) of
        CONN_EVENT_WRITE_FROM_CLIENT_BUFFER \<Rightarrow> on_event (\<lambda>e. e\<lparr>arg_start := None\<rparr>) p
      | CONN_EVENT_CONNECT \<Rightarrow> p\<lparr>psock := SocketConnectFinish (sock env) (psock p)\<rparr>
      | CONN_EVENT_DISCONNECT \<Rightarrow> p\<lparr>psock := SocketDisconnectFinish (sock env) (psock p)\<rparr>
      | _ \<Rightarrow> p)"

definition socketEventAbort :: "('b, 's) penv \<Rightarrow> ('b, 's) pst \<Rightarrow> ('b, 's) pst" where
  "socketEventAbort env p =
     (let t = ce_type (pe p)
      in if t = CONN_EVENT_WRITE_FROM_CLIENT_BUFFER then on_event (\<lambda>e. e\<lparr>arg_start := None\<rparr>) p
         else if t \<in> {CONN_EVENT_CONNECT, CONN_EVENT_DISCONNECT}
         then p\<lparr>psock := SocketConnectAbort (sock env) (psock p)\<rparr>
         else if t \<in> {CONN_EVENT_SSL_ACCEPT, CONN_EVENT_TLS_ACCEPT, CONN_EVENT_SSL_CONNECT,
                      CONN_EVENT_TLS_CONNECT, CONN_EVENT_SSL_DISCONNECT}
         then p\<lparr>psock := SocketSSLAbort (sock env) (psock p)\<rparr>
         else p)"

section \<open>Until it is done, has failed, or is in the engine\<close>

definition abort_event :: "('b, 's) penv \<Rightarrow> ('b, 's) pst \<Rightarrow> ConnEventStatus \<times> ('b, 's) pst" where
  "abort_event env p =
     (let p1 = socketEventAbort env p; e = pe p1
      in (if ce_error e = ETIMEDOUT then CONN_EVENT_TIMED_OUT
          else if ce_error e = EMSGSIZE \<and> has (ce_dataMode e) CONN_READ_PARTIAL_OK
          then CONN_EVENT_PARTIAL
          else CONN_EVENT_FAILED, p1))"

definition set_error :: "errno \<Rightarrow> ('b, 's) pst \<Rightarrow> ('b, 's) pst" where
  "set_error err p = on_event (\<lambda>e. e\<lparr>ce_error := err\<rparr>) p"

definition set_status :: "ConnEventStatus \<Rightarrow> ('b, 's) pst \<Rightarrow> ('b, 's) pst" where
  "set_status st p = on_event (\<lambda>e. e\<lparr>ce_status := st\<rparr>) p"

text \<open>\<open>prob\<close> is whether the transaction has a problem.\<close>

partial_function (option) event_attempts ::
    "('b, 's) penv \<Rightarrow> bool \<Rightarrow> SocketEventType \<Rightarrow> ('b, 's) pst \<Rightarrow>
     (ConnEventStatus \<times> ('b, 's) pst) option" where
  "event_attempts env prob blockedOn p =
     do { (err, bo, p1) \<leftarrow> socketEventProcess env blockedOn p;
          if err = 0 then Some (CONN_EVENT_COMPLETE, socketEventComplete env p1)
          else if err \<noteq> EWOULDBLOCK \<or> ce_mode (pe p1) = CONN_EVENT_MODE_SYNCHRONOUS_NON_BLOCKING
          then Some (abort_event env (set_error err p1))
          else if ce_mode (pe p1) = CONN_EVENT_MODE_SYNCHRONOUS then
            do { (werr, s) \<leftarrow> SocketWait (sock env) bo (ce_timeOut (pe p1)) (psock p1);
                 if werr = 0
                 then event_attempts env prob bo (set_status CONN_EVENT_IN_PROGRESS (p1\<lparr>psock := s\<rparr>))
                 else Some (abort_event env (set_error werr (p1\<lparr>psock := s\<rparr>))) }
          else if prob then Some (abort_event env (set_error ECANCELED p1))
          else
            (let p2 = set_status CONN_EVENT_IN_PROGRESS p1
             in case SocketEventWait (sock env) bo (ce_timeOut (pe p2)) (psock p2) of
                  (werr, s) \<Rightarrow>
                    if werr = 0 then Some (CONN_EVENT_IN_PROGRESS, p2\<lparr>psock := s\<rparr>)
                    else Some (abort_event env
                           (set_error werr (set_status CONN_EVENT_FAILED (p2\<lparr>psock := s\<rparr>))))) }"

definition EventProcess ::
    "('b, 's) penv \<Rightarrow> bool \<Rightarrow> ('b, 's) pst \<Rightarrow> (ConnEventStatus \<times> ('b, 's) pst) option" where
  "EventProcess env prob p =
     (if ce_error (pe p) = 0 then event_attempts env prob SOCK_EVENT_TYPE_NONE p
      else Some (abort_event env p))"

text \<open>
  \<^verbatim>\<open>ConnEventProcess()\<close>; a send event whose buffer is released keeps none.
\<close>

definition keep_buffer :: "('b, 's) pst \<Rightarrow> 'b ConnEvent" where
  "keep_buffer p =
     (if ce_class (pe p) = CONN_EVENT_CLASS_SEND
      then (pe p)\<lparr>ce_ioBuffer := map_option (\<lambda>_. pbuf p) (ce_ioBuffer (pe p))\<rparr> else pe p)"

definition run_event ::
    "('b, 's) penv \<Rightarrow> bool \<Rightarrow> ('b, 's) pst \<Rightarrow> (ConnEventStatus \<times> ('b, 's) pst) option" where
  "run_event env prob p =
     do { (status, p1) \<leftarrow> EventProcess env prob p;
          let p2 = p1\<lparr>pe := keep_buffer p1\<rparr>;
          Some (status,
                if status \<noteq> CONN_EVENT_IN_PROGRESS
                then set_status status (on_event ConnEventFreeResources p2) else p2) }"

definition load_event :: "ptr \<Rightarrow> 'b conn \<times> 'w \<Rightarrow> ('b, SOCK \<times> 'w) pst" where
  "load_event ce cw =
     (let c = fst cw; e = mem c ce
      in \<lparr>pe = e,
          pbuf = (if ce_class e = CONN_EVENT_CLASS_SEND
                  then (case ce_ioBuffer e of Some b \<Rightarrow> b | None \<Rightarrow> receiveBuffer c)
                  else receiveBuffer c),
          psock = (sp c, snd cw)\<rparr>)"

definition store_event :: "ptr \<Rightarrow> 'b conn \<Rightarrow> ('b, SOCK \<times> 'w) pst \<Rightarrow> 'b conn \<times> 'w" where
  "store_event ce c p =
     ((upd_event ce (\<lambda>_. pe p) c)
        \<lparr>sp := fst (psock p),
         receiveBuffer := (if ce_class (pe p) = CONN_EVENT_CLASS_SEND then receiveBuffer c
                           else pbuf p)\<rparr>, snd (psock p))"

definition ConnEventProcess :: "('b, SOCK \<times> 'w) penv \<Rightarrow> ('b, 'w) processor" where
  "ConnEventProcess env ce cw =
     do { (status, p) \<leftarrow> run_event env (problem (fst cw) \<noteq> None) (load_event ce cw);
          Some (status, store_event ce (fst cw) p) }"

end
