(* ===== verification/ProcessFrame.thy ===== *)
theory ProcessFrame
  imports Process
begin

text \<open>
  What working on an event leaves alone: its type, class, mode, source and its links.  This is the
  contract the queue engine needs; \<open>event_processor\<close> is interpreted here on
  \<^verbatim>\<open>ConnEventProcess()\<close>.
\<close>

definition pframe :: "('b, 's) pst \<Rightarrow> ('b, 's) pst \<Rightarrow> bool" where
  "pframe p q \<longleftrightarrow>
     ce_type (pe q) = ce_type (pe p) \<and> ce_class (pe q) = ce_class (pe p) \<and>
     ce_mode (pe q) = ce_mode (pe p) \<and> ce_source (pe q) = ce_source (pe p) \<and>
     ce_next (pe q) = ce_next (pe p) \<and> ce_previous (pe q) = ce_previous (pe p) \<and>
     ce_dataMode (pe q) = ce_dataMode (pe p)"

lemma pframe_refl [simp]: "pframe p p"
  by (simp add: pframe_def)

lemma pframe_trans: "pframe p q \<Longrightarrow> pframe q r \<Longrightarrow> pframe p r"
  by (simp add: pframe_def)

lemma pframe_event: "pe q = pe p \<Longrightarrow> pframe p q"
  by (simp add: pframe_def)

lemma pe_simps [simp]:
  "pe (mark_free env n p) = pe p" "psock (mark_free env n p) = psock p"
  "pe (on_event f p) = f (pe p)" "pbuf (on_event f p) = pbuf p" "psock (on_event f p) = psock p"
  "pbuf (mark_free env n p) = IOBMarkFree (iob env) n (pbuf p)"
  by (simp_all add: mark_free_def on_event_def)

section \<open>The loops\<close>

text \<open>Flushing changes the buffer and the socket only; the other loops keep the frame.\<close>

lemma flush_pe:
  assumes "flushSendBuffer env bo p = Some (err, bo', q)"
  shows "pe q = pe p"
proof -
  have "pe (snd (snd r)) = pe p" if "flushSendBuffer env bo p = Some r" for r
    using that
  proof (rule flushSendBuffer.raw_induct [rotated, where P = "\<lambda>env bo p r. pe (snd (snd r)) = pe p"], goal_cases)
    case (1 f env bo p r)
    then show ?case
      by (cases r) (force simp: Let_def split: if_splits Option.bind_splits)
  qed
  from this [OF assms] show ?thesis by simp
qed

lemma flush_frame: "flushSendBuffer env bo p = Some (err, bo', q) \<Longrightarrow> pframe p q"
  by (rule pframe_event) (rule flush_pe)

lemma sendFromClientBuffer_frame:
  assumes "sendFromClientBuffer env bo p = Some (err, bo', q)"
  shows "pframe p q"
proof -
  have "pframe p (snd (snd r))" if "sendFromClientBuffer env bo p = Some r" for r
    using that
  proof (rule sendFromClientBuffer.raw_induct [rotated, where P = "\<lambda>env bo p r. pframe p (snd (snd r))"], goal_cases)
    case (1 f env bo p r)
    then show ?case
      by (cases r) (force simp: pframe_def split: if_splits Option.bind_splits)
  qed
  from this [OF assms] show ?thesis by simp
qed

lemma fillRecvBuffer_pe: "fillRecvBuffer env bo p = Some (err, bo', q) \<Longrightarrow> pe q = pe p"
  by (auto simp: fillRecvBuffer_def Let_def split: if_splits Option.bind_splits)

lemma Copy_fields [simp]:
  "ce_type (CopyBufferedDataToClient d e) = ce_type e" "ce_class (CopyBufferedDataToClient d e) = ce_class e"
  "ce_mode (CopyBufferedDataToClient d e) = ce_mode e" "ce_source (CopyBufferedDataToClient d e) = ce_source e"
  "ce_next (CopyBufferedDataToClient d e) = ce_next e" "ce_previous (CopyBufferedDataToClient d e) = ce_previous e"
  "ce_dataMode (CopyBufferedDataToClient d e) = ce_dataMode e"
  "ce_type (TerminateClientBuffer e) = ce_type e" "ce_class (TerminateClientBuffer e) = ce_class e"
  "ce_mode (TerminateClientBuffer e) = ce_mode e" "ce_source (TerminateClientBuffer e) = ce_source e"
  "ce_next (TerminateClientBuffer e) = ce_next e" "ce_previous (TerminateClientBuffer e) = ce_previous e"
  "ce_dataMode (TerminateClientBuffer e) = ce_dataMode e"
  by (simp_all add: CopyBufferedDataToClient_def TerminateClientBuffer_def)

lemma moveFinal_frame: "moveFinalConditionalDataToClient env d n pl p = (err, q) \<Longrightarrow> pframe p q"
  by (auto simp: moveFinalConditionalDataToClient_def Let_def pframe_def split: if_splits)

lemma movePartial_frame: "movePartialConditionalDataToClient env d n p = (err, q) \<Longrightarrow> pframe p q"
  by (auto simp: movePartialConditionalDataToClient_def Let_def pframe_def split: if_splits)

lemma condition_pe: "EventConditionSatisfied env p = (r, q) \<Longrightarrow> pe q = pe p"
  by (auto simp: EventConditionSatisfied_def Let_def split: ConnEventType.splits if_splits prod.splits)

lemma SatisfyEvent_frame: "SatisfyEvent env p = (err, q) \<Longrightarrow> pframe p q"
  by (auto simp: SatisfyEvent_def split: prod.splits bool.splits dest!: condition_pe
      intro: pframe_trans [OF pframe_event] moveFinal_frame movePartial_frame)

lemma conditionalRead_frame:
  assumes "conditionalReadProcess env bo p = Some (err, bo', q)"
  shows "pframe p q"
proof -
  have "pframe p (snd (snd r))" if "conditionalReadProcess env bo p = Some r" for r
    using that
  proof (rule conditionalReadProcess.raw_induct [rotated, where P = "\<lambda>env bo p r. pframe p (snd (snd r))"], goal_cases)
    case (1 f env bo p r)
    obtain e1 p1 where s: "SatisfyEvent env p = (e1, p1)" by fastforce
    note fr = SatisfyEvent_frame [OF s]
    have "pframe p p2" if "fillRecvBuffer env bo p1 = Some (e2, b2, p2)" for e2 b2 p2
      using pframe_trans [OF fr pframe_event [OF fillRecvBuffer_pe [OF that]]] .
    with 1 s fr show ?case
      by (cases r) (auto simp: test_result_def pframe_def split: if_splits Option.bind_splits)
  qed
  from this [OF assms] show ?thesis by simp
qed

lemma after_read_cb_frame:
  "after_read_cb env resp b1 b2 p = Finished err q \<Longrightarrow> pframe p q"
  "after_read_cb env resp b1 b2 p = Again q \<Longrightarrow> pframe p q"
  "after_read_cb env resp b1 b2 p = Need_data q \<Longrightarrow> pframe p q"
  by (auto simp: after_read_cb_def pframe_def split: ConnIOCBResponse.splits if_splits prod.splits)

lemma read_cb_round_frame:
  "read_cb_round env p = Finished err q \<Longrightarrow> pframe p q"
  "read_cb_round env p = Again q \<Longrightarrow> pframe p q"
  "read_cb_round env p = Need_data q \<Longrightarrow> pframe p q"
proof -
  have "pframe p q" if "read_cb_round env p \<in> {Finished err q, Again q, Need_data q}" for err
  proof -
    obtain resp count s where cb: "read_cb env (if arg_cb_count (pe p) \<noteq> 0
        then take (arg_cb_count (pe p) - ce_transferred (pe p)) (used env p) else used env p) (psock p) = (resp, count, s)"
      by (metis prod_cases3)
    let ?p1 = "if count > 0 then on_event (\<lambda>e. e\<lparr>ce_transferred := ce_transferred e + count\<rparr>)
        (mark_free env count (p\<lparr>psock := s\<rparr>)) else p\<lparr>psock := s\<rparr>"
    have f: "pframe p ?p1" "pframe p (p\<lparr>psock := s\<rparr>)" by (simp_all add: pframe_def)
    have "pframe ?p1 q" if "after_read_cb env resp b1 b2 ?p1 \<in> {Finished err q, Again q, Need_data q}" for b1 b2
      using that by (auto dest: after_read_cb_frame)
    with f have a: "pframe p q" if "after_read_cb env resp b1 b2 ?p1 \<in> {Finished err q, Again q, Need_data q}" for b1 b2
      using that by (blast intro: pframe_trans)
    show ?thesis
      using that cb f a unfolding read_cb_round_def Let_def
      by (simp split: if_splits)
  qed
  then show "read_cb_round env p = Finished err q \<Longrightarrow> pframe p q"
    "read_cb_round env p = Again q \<Longrightarrow> pframe p q"
    "read_cb_round env p = Need_data q \<Longrightarrow> pframe p q" by blast+
qed

lemma readToCallback_frame:
  assumes "readToCallbackProcess env bo p = Some (err, bo', q)"
  shows "pframe p q"
proof -
  have "pframe p (snd (snd r))" if "readToCallbackProcess env bo p = Some r" for r
    using that
  proof (rule readToCallbackProcess.raw_induct [rotated, where P = "\<lambda>env bo p r. pframe p (snd (snd r))"], goal_cases)
    case (1 f env bo p r)
    show ?case
    proof (cases "read_cb_round env p")
      case (Finished err p1)
      with 1 read_cb_round_frame(1) [OF this] show ?thesis by auto
    next
      case (Again p1)
      with 1 read_cb_round_frame(2) [OF this] show ?thesis
        by (cases r) (auto intro: pframe_trans)
    next
      case (Need_data p1)
      have "pframe p p2" if "fillRecvBuffer env bo p1 = Some (e2, b2, p2)" for e2 b2 p2
        using pframe_trans [OF read_cb_round_frame(3) [OF Need_data] pframe_event [OF fillRecvBuffer_pe [OF that]]] .
      with 1 Need_data show ?thesis
        by (cases r) (auto split: if_splits Option.bind_splits intro: pframe_trans)
    qed
  qed
  from this [OF assms] show ?thesis by simp
qed

lemma fill_until_pe:
  assumes "fill_until env n bo p = Some (err, bo', q)"
  shows "pe q = pe p"
proof -
  have "pe (snd (snd r)) = pe p" if "fill_until env n bo p = Some r" for r
    using that
  proof (rule fill_until.raw_induct [rotated, where P = "\<lambda>env n bo p r. pe (snd (snd r)) = pe p"], goal_cases)
    case (1 f env n bo p r)
    then show ?case
      by (cases r) (auto split: if_splits Option.bind_splits dest: fillRecvBuffer_pe)
  qed
  from this [OF assms] show ?thesis by simp
qed

lemma write_to_conn_frame: "write_to_conn env n p = (err, q) \<Longrightarrow> pframe p q"
  by (auto simp: write_to_conn_def pframe_def split: prod.splits if_splits)

lemma readToConn_frame:
  assumes "readToConnProcess env bo p = Some (err, bo', q)"
  shows "pframe p q"
proof -
  have "pframe p (snd (snd r))" if "readToConnProcess env bo p = Some r" for r
    using that
  proof (rule readToConnProcess.raw_induct [rotated, where P = "\<lambda>env bo p r. pframe p (snd (snd r))"], goal_cases)
    case (1 f env bo p r)
    let ?n = "arg_conn_count (pe p) - ce_transferred (pe p)"
    let ?p0 = "if length (used env p) < ?n then p\<lparr>pbuf := snd (IOBDefrag (iob env) (pbuf p))\<rparr> else p"
    show ?case
    proof (cases "ce_transferred (pe p) \<ge> arg_conn_count (pe p)")
      case True
      with 1(2) show ?thesis by auto
    next
      case False
      with 1(2) obtain e1 b1 p1 where p1: "fill_until env ?n bo ?p0 = Some (e1, b1, p1)"
        by (auto simp: Let_def split: Option.bind_splits)
      obtain we p2 where p2: "write_to_conn env ?n p1 = (we, p2)" by fastforce
      have f1: "pframe p p1" using fill_until_pe [OF p1] by (intro pframe_event) (simp split: if_splits)
      have f2: "pframe p p2" using pframe_trans [OF f1 write_to_conn_frame [OF p2]] .
      from False 1(2) p1 p2 have "r = (e1, b1, p1) \<or> r = (we, b1, p2) \<or> f env b1 p2 = Some r"
        by (auto simp: Let_def split: if_splits)
      with f1 f2 1(1) [of env b1 p2] show ?thesis by (cases r) (auto intro: pframe_trans)
    qed
  qed
  from this [OF assms] show ?thesis by simp
qed

lemma after_write_cb_frame:
  "after_write_cb env resp e p \<in> {Flush_and_return q, Return err q, Call_again q, Flush_and_call q} \<Longrightarrow> pframe p q"
  by (auto simp: after_write_cb_def pframe_def split: ConnIOCBResponse.splits if_splits prod.splits)

lemma write_cb_round_frame:
  assumes "write_cb_round env p \<in> {Flush_and_return q, Return err q, Call_again q, Flush_and_call q}"
  shows "pframe p q"
proof -
  let ?n = "if arg_cb_count (pe p) \<noteq> 0
    then min (IOBGetFree (iob env) (pbuf p)) (arg_cb_count (pe p) - ce_transferred (pe p))
    else IOBGetFree (iob env) (pbuf p)"
  obtain resp count bytes cberr s where cb: "write_cb env ?n (psock p) = (resp, count, bytes, cberr, s)"
    by (metis prod_cases5)
  let ?p1 = "if count > 0 then on_event (\<lambda>e. e\<lparr>ce_transferred := ce_transferred e + count\<rparr>)
      (p\<lparr>psock := s, pbuf := IOBMarkUsed (iob env) (map bytes [0..<count]) (pbuf p)\<rparr>) else p\<lparr>psock := s\<rparr>"
  have f: "pframe p ?p1" "pframe p (p\<lparr>psock := s\<rparr>)" by (simp_all add: pframe_def)
  have r: "write_cb_round env p \<in> {Flush_and_return p, Return ECONNIOCBLONG (p\<lparr>psock := s\<rparr>),
      Flush_and_return ?p1, after_write_cb env resp cberr ?p1}"
    using cb unfolding write_cb_round_def Let_def by (simp only: prod.case split: if_split) simp
  have "pframe ?p1 q" if "write_cb_round env p = after_write_cb env resp cberr ?p1"
    using assms after_write_cb_frame [of env resp cberr ?p1 q err] unfolding that by blast
  then have "pframe p q" if "write_cb_round env p = after_write_cb env resp cberr ?p1"
    using f(1) that by (blast intro: pframe_trans)
  with r f assms show ?thesis by fastforce
qed

lemma writeFromCB_frame:
  assumes "writeFromCB env bo p = Some (err, bo', q)"
  shows "pframe p q"
proof -
  have "pframe p (snd (snd r))" if "writeFromCB env bo p = Some r" for r
    using that
  proof (rule writeFromCB.raw_induct [rotated, where P = "\<lambda>env bo p r. pframe p (snd (snd r))"], goal_cases)
    case (1 f env bo p r)
    then obtain e0 b0 p0 where p0: "(if IOBGetFree (iob env) (pbuf p) = 0
        then flushSendBuffer env bo p else Some (0, bo, p)) = Some (e0, b0, p0)"
      by (auto split: Option.bind_splits)
    have f0: "pframe p p0" using p0 flush_frame by (auto split: if_splits)
    have "pframe p0 (snd (snd r))" if "e0 = 0"
    proof (cases "write_cb_round env p0")
      case (Flush_and_return p1)
      with 1(2) p0 that have "flushSendBuffer env b0 p1 = Some r" by simp
      then have "pframe p1 (snd (snd r))" by (cases r) (simp add: flush_frame)
      with write_cb_round_frame [of env p0 p1] Flush_and_return show ?thesis by (auto intro: pframe_trans)
    next
      case (Return e1 p1)
      with 1(2) p0 that write_cb_round_frame [of env p0 p1 e1] show ?thesis by auto
    next
      case (Call_again p1)
      with 1(2) p0 that have "f env b0 p1 = Some r" by simp
      from 1(1) [OF this] write_cb_round_frame [of env p0 p1] Call_again show ?thesis
        by (auto intro: pframe_trans)
    next
      case (Flush_and_call p1)
      with 1(2) p0 that obtain e2 b2 p2 where p2: "flushSendBuffer env b0 p1 = Some (e2, b2, p2)"
        "r = (e2, b2, p2) \<or> f env b2 p2 = Some r" by (auto split: Option.bind_splits if_splits)
      have "pframe p0 p2"
        using write_cb_round_frame [of env p0 p1] Flush_and_call flush_frame [OF p2(1)]
        by (auto intro: pframe_trans)
      with p2(2) 1(1) [of env b2 p2 r] show ?thesis by (auto intro: pframe_trans)
    qed
    moreover have "r = (e0, b0, p0)" if "e0 \<noteq> 0" using 1(2) p0 that by simp
    ultimately show ?case using f0 by (cases "e0 = 0") (auto intro: pframe_trans)
  qed
  from this [OF assms] show ?thesis by simp
qed

section \<open>A whole event\<close>

lemma resume_read_frame:
  assumes "resume_read env t go bo p = Some (err, bo', q)"
    and "\<And>bo p err bo' q. go bo p = Some (err, bo', q) \<Longrightarrow> pframe p q"
  shows "pframe p q"
proof (cases "ce_status (pe p) = CONN_EVENT_IN_PROGRESS")
  case False
  with assms show ?thesis by (simp add: resume_read_def)
next
  case True
  with assms(1) obtain e1 b1 p1 where p1: "fillRecvBuffer env bo p = Some (e1, b1, p1)"
    by (auto simp: resume_read_def split: Option.bind_splits)
  have f1: "pframe p p1" by (rule pframe_event [OF fillRecvBuffer_pe [OF p1]])
  moreover have "pframe p1 (test_result env p1)" by (simp add: pframe_def test_result_def)
  moreover have "q = p1 \<or> q = test_result env p1 \<or> go b1 p1 = Some (err, bo', q)"
    using assms(1) True p1 by (auto simp: resume_read_def split: if_splits)
  ultimately show ?thesis using assms(2) by (auto intro: pframe_trans)
qed

lemma socketEventProcess_frame:
  assumes "socketEventProcess env bo p = Some (err, bo', q)"
  shows "pframe p q"
proof (cases "ce_type (pe p)")
  case CONN_EVENT_DISCONNECT
  have "pframe p (drainReceiveBuffer env p)" by (simp add: drainReceiveBuffer_def Let_def pframe_def)
  then have "pframe p ((drainReceiveBuffer env p)\<lparr>psock := s\<rparr>)" for s by (simp add: pframe_def)
  with CONN_EVENT_DISCONNECT assms show ?thesis
    by (auto simp: socketEventProcess_def drainWire_def pframe_def Let_def
        split: if_splits prod.splits Option.bind_splits)
qed (use assms in \<open>auto simp: socketEventProcess_def start_ssl_def Let_def
      split: if_splits prod.splits
      intro: writeFromCB_frame sendFromClientBuffer_frame flush_frame pframe_event
        resume_read_frame [OF _ conditionalRead_frame] resume_read_frame [OF _ readToConn_frame]
        resume_read_frame [OF _ readToCallback_frame]\<close>)

lemma complete_frame: "pframe p (socketEventComplete env p)"
  by (simp add: socketEventComplete_def pframe_def split: ConnEventType.splits)

lemma abort_frame: "abort_event env p = (st, q) \<Longrightarrow> pframe p q"
  by (auto simp: abort_event_def socketEventAbort_def pframe_def Let_def split: if_splits)

lemma set_frame: "pframe p (set_error err p)" "pframe p (set_status st p)"
  by (simp_all add: set_error_def set_status_def pframe_def)

text \<open>The end of an attempt: complete, aborted, in the engine, or another attempt.\<close>

lemma event_attempts_frame:
  assumes "event_attempts env prob bo p = Some (st, q)"
  shows "pframe p q"
proof -
  have "pframe p (snd r)" if "event_attempts env prob bo p = Some r" for r
    using that
  proof (rule event_attempts.raw_induct [rotated, where P = "\<lambda>env prob bo p r. pframe p (snd r)"], goal_cases)
    case (1 f env prob bo p r)
    from 1(2) obtain err b1 p1 where p1: "socketEventProcess env bo p = Some (err, b1, p1)"
      by (auto split: Option.bind_splits)
    note f1 = socketEventProcess_frame [OF p1]
    have s: "pframe p1 (set_status x (p1\<lparr>psock := y\<rparr>))" "pframe p1 (set_error z (p1\<lparr>psock := y\<rparr>))"
      "pframe p1 (set_error z p1)" "pframe p1 ((set_status x p1)\<lparr>psock := y\<rparr>)"
      "pframe p1 (set_error z (set_status x ((set_status x' p1)\<lparr>psock := y\<rparr>)))" for x x' y z
      by (simp_all add: set_error_def set_status_def pframe_def)
    have ab: "pframe p1 (snd (abort_event env q))" if "pframe p1 q" for q
      using pframe_trans [OF that abort_frame] by (metis prod.collapse)
    have "pframe p1 (snd r) \<or> (\<exists>b2 q. pframe p1 q \<and> f env prob b2 q = Some r)"
      using 1(2) p1 s(1,4) ab [OF s(2)] ab [OF s(3)] ab [OF s(5)] complete_frame [of p1 env]
      by (auto simp: Let_def split: if_splits Option.bind_splits prod.splits)
    with 1(1) f1 show ?case by (metis pframe_trans)
  qed
  from this [OF assms] show ?thesis by simp
qed

lemma run_event_frame:
  assumes "run_event env prob p = Some (st, q)"
  shows "pframe p q"
proof -
  from assms obtain st1 p1 where p1: "EventProcess env prob p = Some (st1, p1)"
    and q: "q = (if st1 \<noteq> CONN_EVENT_IN_PROGRESS
      then set_status st1 (on_event ConnEventFreeResources (p1\<lparr>pe := keep_buffer p1\<rparr>))
      else p1\<lparr>pe := keep_buffer p1\<rparr>)"
    by (auto simp: run_event_def Let_def split: Option.bind_splits)
  have "pframe p p1"
    using p1 abort_frame event_attempts_frame by (auto simp: EventProcess_def split: if_splits)
  moreover have "ce_mode (ConnEventFreeResources e) = ce_mode e"
    "ce_dataMode (ConnEventFreeResources e) = ce_dataMode e" for e :: "'a ConnEvent"
    by (simp_all add: ConnEventFreeResources_def split: option.splits)
  then have "pframe p1 q" by (simp add: q pframe_def set_status_def keep_buffer_def)
  ultimately show ?thesis by (rule pframe_trans)
qed

lemma ConnEventProcess_quiet:
  assumes "ConnEventProcess env e (c, w) = Some (st, c', w')"
  shows "quiet c c'"
proof -
  from assms obtain p where "run_event env (problem c \<noteq> None) (load_event e (c, w)) = Some (st, p)"
    and c': "c' = fst (store_event e c p)"
    by (auto simp: ConnEventProcess_def split: Option.bind_splits)
  from run_event_frame [OF this(1)] show ?thesis
    by (simp add: c' store_event_def load_event_def pframe_def quiet_def same_links_def
        same_slots_def same_trans_def Let_def)
qed

text \<open>\<^verbatim>\<open>ConnEventProcess()\<close> is what the queue engine relies on.\<close>

interpretation connev: event_processor "ConnEventProcess env" for env
  by unfold_locales (rule ConnEventProcess_quiet)

end
