(* ===== verification/ProcessData.thy ===== *)
theory ProcessData
  imports ProcessFrame
begin

unbundle bit_operations_syntax

text \<open>
  Where the bytes go.  The locale \<open>socket_io\<close> is the contract between \<^verbatim>\<open>process.c\<close> and the socket
  layer: \<open>sent s\<close> and \<open>got s\<close> are all the bytes that went out and came in so far; a send takes
  a first part of what it is given and a positive result is the length of that part; a receive
  never returns more than there is room for.  \<open>exact_socket_io\<close> adds that a send that reports
  an error has sent nothing.  Both are interpreted in theory \<open>SockIO\<close>.
\<close>

locale socket_io =
  fixes ops :: "'s sock_ops" and sent got :: "'s \<Rightarrow> byte list"
  assumes send_law: "SocketSend ops buff bo s = Some (n, bo', err, s') \<Longrightarrow>
      n \<le> int (length buff) \<and> got s' = got s \<and>
      (\<exists>k \<le> length buff. sent s' = sent s @ take k buff \<and> (n > 0 \<longrightarrow> k = nat n))"
    and send_err: "SocketSend ops buff bo s = Some (n, bo', err, s') \<Longrightarrow> buff \<noteq> [] \<Longrightarrow> n \<le> 0 \<Longrightarrow> err \<noteq> 0"
    and recv_law: "SocketReceive ops len bo s = Some (bytes, bo', err, s') \<Longrightarrow>
      length bytes \<le> len \<and> sent s' = sent s \<and> got s' = got s @ bytes"
begin

lemma send_pos:
  "SocketSend ops buff bo s = Some (n, bo', err, s') \<Longrightarrow> n > 0 \<Longrightarrow>
     nat n \<le> length buff \<and> sent s' = sent s @ take (nat n) buff"
  using send_law by fastforce

lemma fill_stream:
  assumes iob: "iob_ok norm contents (iob env)" and sk: "sock env = ops"
    and f: "fillRecvBuffer env bo p = Some (err, bo', q)"
  shows "\<exists>new. contents (pbuf q) = contents (pbuf p) @ new \<and> got (psock q) = got (psock p) @ new \<and>
    sent (psock q) = sent (psock p) \<and> pe q = pe p"
proof (cases "IOBGetFree (iob env) (pbuf p) = 0")
  case True
  with f show ?thesis by (simp add: fillRecvBuffer_def)
next
  case False
  with f obtain bytes b1 e1 s where r: "SocketReceive ops (IOBGetFree (iob env) (pbuf p)) bo (psock p) = Some (bytes, b1, e1, s)"
    by (auto simp: fillRecvBuffer_def sk split: Option.bind_splits)
  from recv_law [OF r] f False iob_mark_used [OF iob, of bytes "pbuf p"] show ?thesis
    by (auto simp: fillRecvBuffer_def Let_def sk r split: if_splits)
qed

lemma fill_until_stream:
  assumes iob: "iob_ok norm contents (iob env)" and sk: "sock env = ops"
    and f: "fill_until env n bo p = Some (err, bo', q)"
  shows "\<exists>new. contents (pbuf q) = contents (pbuf p) @ new \<and> got (psock q) = got (psock p) @ new \<and>
    sent (psock q) = sent (psock p)"
proof -
  let ?P = "\<lambda>p r. \<exists>new. contents (pbuf (snd (snd r))) = contents (pbuf p) @ new \<and>
    got (psock (snd (snd r))) = got (psock p) @ new \<and> sent (psock (snd (snd r))) = sent (psock p)"
  have "iob_ok norm contents (iob env) \<longrightarrow> sock env = ops \<longrightarrow> ?P p r"
    if "fill_until env n bo p = Some r" for r
    using that
  proof (rule fill_until.raw_induct [rotated, where
        P = "\<lambda>env n bo p r. iob_ok norm contents (iob env) \<longrightarrow> sock env = ops \<longrightarrow> ?P p r"], goal_cases)
    case (1 f env n bo p r)
    show ?case
    proof (intro impI)
      assume A: "iob_ok norm contents (iob env)" "sock env = ops"
      show "?P p r"
      proof (cases "length (used env p) < n")
        case False
        with 1(2) show ?thesis by auto
      next
        case True
        with 1(2) obtain e1 b1 p1 where p1: "fillRecvBuffer env bo p = Some (e1, b1, p1)"
          by (auto split: Option.bind_splits)
        from fill_stream [OF A p1] obtain new where new: "contents (pbuf p1) = contents (pbuf p) @ new"
          "got (psock p1) = got (psock p) @ new" "sent (psock p1) = sent (psock p)" by blast
        have "snd (snd r) = p1 \<or> f env n b1 p1 = Some r"
          using 1(2) True p1 by (auto split: if_splits)
        then show ?thesis
        proof
          assume "snd (snd r) = p1"
          with new show ?thesis by auto
        next
          assume "f env n b1 p1 = Some r"
          from 1(1) [OF this] A obtain new2 where "contents (pbuf (snd (snd r))) = contents (pbuf p1) @ new2"
            "got (psock (snd (snd r))) = got (psock p1) @ new2" "sent (psock (snd (snd r))) = sent (psock p1)" by auto
          with new show ?thesis by (intro exI [of _ "new @ new2"]) simp
        qed
      qed
    qed
  qed
  from this [OF f] iob sk show ?thesis by simp
qed

end

locale exact_socket_io = socket_io +
  assumes send_exact: "SocketSend ops buff bo s = Some (n, bo', err, s') \<Longrightarrow> n \<le> 0 \<Longrightarrow> sent s' = sent s"
begin

lemma flush_round:
  assumes iob: "iob_ok norm contents (iob env)"
    and s: "SocketSend ops (used env p) bo (psock p) = Some (n, bo', err, s)"
  shows "sent s @ contents (if n > 0 then IOBMarkFree (iob env) (nat n) (pbuf p) else pbuf p) =
    sent (psock p) @ contents (pbuf p)"
proof (cases "n > 0")
  case True
  note sp = send_pos [OF s True]
  note ut = iob_used_take [OF iob, of "pbuf p"]
  have "nat n \<le> length (contents (pbuf p))" using sp ut(2) by linarith
  moreover obtain zs where "contents (pbuf p) = used env p @ zs"
    using iob_used_prefix [OF iob, of "pbuf p"] by (auto simp: prefix_def)
  then have "take (nat n) (used env p) = take (nat n) (contents (pbuf p))" using sp by simp
  ultimately show ?thesis using True sp iob_mark_free [OF iob, of "nat n" "pbuf p"] by simp
qed (use send_exact [OF s] in simp)

text \<open>Flushing moves bytes from the buffer to the wire, and no byte is lost or sent twice.\<close>

lemma flush_stream:
  assumes iob: "iob_ok norm contents (iob env)" and sk: "sock env = ops"
    and f: "flushSendBuffer env bo p = Some (err, bo', q)"
  shows "sent (psock q) @ contents (pbuf q) = sent (psock p) @ contents (pbuf p) \<and> got (psock q) = got (psock p)"
proof -
  let ?P = "\<lambda>p r. sent (psock (snd (snd r))) @ contents (pbuf (snd (snd r))) = sent (psock p) @ contents (pbuf p) \<and>
    got (psock (snd (snd r))) = got (psock p)"
  have "iob_ok norm contents (iob env) \<longrightarrow> sock env = ops \<longrightarrow> ?P p r"
    if "flushSendBuffer env bo p = Some r" for r
    using that
  proof (rule flushSendBuffer.raw_induct [rotated, where
        P = "\<lambda>env bo p r. iob_ok norm contents (iob env) \<longrightarrow> sock env = ops \<longrightarrow> ?P p r"], goal_cases)
    case (1 f env bo p r)
    show ?case
    proof (intro impI)
      assume A: "iob_ok norm contents (iob env)" "sock env = ops"
      show "?P p r"
      proof (cases "used env p = []")
        case True
        with 1(2) show ?thesis by auto
      next
        case False
        with 1(2) A obtain n b1 e1 s where s: "SocketSend ops (used env p) bo (psock p) = Some (n, b1, e1, s)"
          by (auto simp: Let_def split: Option.bind_splits)
        let ?p1 = "if n > 0 then mark_free env (nat n) (p\<lparr>psock := s\<rparr>) else p\<lparr>psock := s\<rparr>"
        have "snd (snd r) = ?p1 \<or> f env b1 ?p1 = Some r"
          using 1(2) False A s by (auto simp: Let_def split: if_splits)
        moreover have "sent (psock ?p1) @ contents (pbuf ?p1) = sent (psock p) @ contents (pbuf p)"
          using flush_round [OF A(1) s] by (simp split: if_splits)
        moreover have "got (psock ?p1) = got (psock p)" using send_law [OF s] by (simp split: if_splits)
        ultimately show ?thesis using 1(1) [of env b1 ?p1 r] A by auto
      qed
    qed
  qed
  from this [OF f] iob sk show ?thesis by simp
qed

text \<open>A client buffer goes to the wire, byte by byte, from the front.\<close>

lemma client_stream:
  assumes sk: "sock env = ops" and f: "sendFromClientBuffer env bo p = Some (err, bo', q)"
    and r: "cb_remaining (pe p) \<le> length (cb_read (pe p))"
  shows "sent (psock q) @ take (cb_remaining (pe q)) (cb_read (pe q)) =
      sent (psock p) @ take (cb_remaining (pe p)) (cb_read (pe p)) \<and>
    (err = 0 \<longrightarrow> cb_remaining (pe q) = 0)"
proof -
  let ?Q = "\<lambda>p. cb_remaining (pe p) \<le> length (cb_read (pe p))"
  let ?P = "\<lambda>p r. sent (psock (snd (snd r))) @ take (cb_remaining (pe (snd (snd r)))) (cb_read (pe (snd (snd r)))) =
      sent (psock p) @ take (cb_remaining (pe p)) (cb_read (pe p)) \<and>
    (fst r = 0 \<longrightarrow> cb_remaining (pe (snd (snd r))) = 0)"
  have "sock env = ops \<longrightarrow> ?Q p \<longrightarrow> ?P p r" if "sendFromClientBuffer env bo p = Some r" for r
    using that
  proof (rule sendFromClientBuffer.raw_induct [rotated, where
        P = "\<lambda>env bo p r. sock env = ops \<longrightarrow> ?Q p \<longrightarrow> ?P p r"], goal_cases)
    case (1 f env bo p r)
    show ?case
    proof (intro impI)
      assume A: "sock env = ops" "?Q p"
      let ?buff = "take (cb_remaining (pe p)) (cb_read (pe p))"
      show "?P p r"
      proof (cases "cb_remaining (pe p) > 0")
        case False
        with 1(2) show ?thesis by auto
      next
        case True
        with 1(2) A obtain n b1 e1 s where s: "SocketSend ops ?buff bo (psock p) = Some (n, b1, e1, s)"
          by (auto split: Option.bind_splits)
        have ne: "?buff \<noteq> []" using True A(2) by auto
        let ?p1 = "on_event (\<lambda>e. e\<lparr>cb_remaining := cb_remaining e - nat n,
                                     cb_read := drop (nat n) (cb_read e)\<rparr>) (p\<lparr>psock := s\<rparr>)"
        show ?thesis
        proof (cases "n > 0")
          case False
          with 1(2) True A s have "r = (e1, b1, p\<lparr>psock := s\<rparr>)" by simp
          with send_exact [OF s] send_err [OF s ne] False show ?thesis by simp
        next
          case n: True
          with 1(2) True A s have rec: "f env b1 ?p1 = Some r" by simp
          note sp = send_pos [OF s n]
          have "take (cb_remaining (pe p) - nat n) (drop (nat n) (cb_read (pe p))) = drop (nat n) ?buff"
            by (simp add: drop_take)
          moreover from sp have s1: "sent s = sent (psock p) @ take (nat n) ?buff" by blast
          have "sent s @ drop (nat n) ?buff = sent (psock p) @ ?buff"
            unfolding s1 by (simp only: append_assoc append_take_drop_id)
          ultimately have "sent s @ take (cb_remaining (pe ?p1)) (cb_read (pe ?p1)) = sent (psock p) @ ?buff"
            by simp
          moreover have "?Q ?p1" using A(2) sp by simp
          ultimately show ?thesis using 1(1) [OF rec] A(1) by simp
        qed
      qed
    qed
  qed
  from this [OF f] sk r show ?thesis by simp
qed

end

section \<open>The client's buffer\<close>

text \<open>
  \<open>room p\<close>: the size of the client's buffer, as what was stored and what is left; a terminator is
  only stored where there is still room for it.
\<close>

definition room :: "('b, 's) pst \<Rightarrow> nat" where
  "room p = length (cb_written (pe p)) + cb_remaining (pe p)"

definition fits :: "('b, 's) pst \<Rightarrow> ('b, 's) pst \<Rightarrow> bool" where
  "fits p q \<longleftrightarrow> room q = room p \<and>
     (cb_terminated (pe q) \<longrightarrow> cb_terminated (pe p) \<or> cb_remaining (pe q) > 0)"

lemma fits_event: "pe q = pe p \<Longrightarrow> fits p q"
  by (simp add: fits_def room_def)

lemma moveFinal_fits: "moveFinalConditionalDataToClient env d n pl p = (err, q) \<Longrightarrow> fits p q"
  by (auto simp: moveFinalConditionalDataToClient_def Let_def fits_def room_def
      CopyBufferedDataToClient_def TerminateClientBuffer_def split: if_splits)

lemma movePartial_fits: "movePartialConditionalDataToClient env d n p = (err, q) \<Longrightarrow> fits p q"
  by (auto simp: movePartialConditionalDataToClient_def Let_def fits_def room_def
      CopyBufferedDataToClient_def split: if_splits)

lemma SatisfyEvent_fits: "SatisfyEvent env p = (err, q) \<Longrightarrow> fits p q"
  by (auto simp: SatisfyEvent_def fits_def room_def split: prod.splits bool.splits
      dest!: condition_pe moveFinal_fits movePartial_fits)

lemma movePartial_not_terminated:
  "movePartialConditionalDataToClient env d n p = (err, q) \<Longrightarrow> cb_terminated (pe q) = cb_terminated (pe p)"
  by (auto simp: movePartialConditionalDataToClient_def Let_def CopyBufferedDataToClient_def split: if_splits)

lemma moveFinal_not_more: "fst (moveFinalConditionalDataToClient env d n pl p) \<noteq> ECONNMOREDATA"
  by (auto simp: moveFinalConditionalDataToClient_def Let_def split: if_splits)

lemma SatisfyEvent_more:
  "SatisfyEvent env p = (ECONNMOREDATA, q) \<Longrightarrow> cb_terminated (pe q) = cb_terminated (pe p)"
proof -
  assume s: "SatisfyEvent env p = (ECONNMOREDATA, q)"
  obtain b d n l p1 where c: "EventConditionSatisfied env p = ((b, d, n, l), p1)" by (metis surj_pair)
  have "\<not> b" using s c moveFinal_not_more [of env d n l p1] by (cases b) (auto simp: SatisfyEvent_def)
  with s c have "movePartialConditionalDataToClient env d n p1 = (ECONNMOREDATA, q)"
    by (simp add: SatisfyEvent_def)
  from movePartial_not_terminated [OF this] condition_pe [OF c] show ?thesis by simp
qed

lemma conditionalRead_fits:
  assumes "conditionalReadProcess env bo p = Some (err, bo', q)"
  shows "fits p q"
proof -
  have "fits p (snd (snd r))" if "conditionalReadProcess env bo p = Some r" for r
    using that
  proof (rule conditionalReadProcess.raw_induct [rotated, where P = "\<lambda>env bo p r. fits p (snd (snd r))"], goal_cases)
    case (1 f env bo p r)
    obtain e1 p1 where s: "SatisfyEvent env p = (e1, p1)" by fastforce
    note f1 = SatisfyEvent_fits [OF s]
    show ?case
    proof (cases "e1 = ECONNMOREDATA")
      case False
      with 1(2) s f1 show ?thesis by auto
    next
      case True
      with 1(2) s obtain e2 b2 p2 where p2: "fillRecvBuffer env bo p1 = Some (e2, b2, p2)"
        by (auto split: Option.bind_splits)
      have t: "cb_terminated (pe p1) = cb_terminated (pe p)" "pe p2 = pe p1"
        using SatisfyEvent_more s True fillRecvBuffer_pe [OF p2] by auto
      have "snd (snd r) = p2 \<or> snd (snd r) = test_result env p2 \<or> f env b2 p2 = Some r"
        using 1(2) s True p2 by (auto split: if_splits)
      with 1(1) [of env b2 p2 r] f1 t show ?thesis by (auto simp: fits_def room_def test_result_def)
    qed
  qed
  from this [OF assms] show ?thesis by simp
qed

end
