(* ===== verification/ReadData.thy ===== *)
theory ReadData
  imports ProcessData
begin

unbundle bit_operations_syntax

text \<open>
  What the reads of \<^verbatim>\<open>process.c\<close> hand to the client: the bytes of the connection in order, none lost
  and none twice; a counted read that succeeds has filled the client's buffer exactly.
\<close>

section \<open>What a read takes out of the buffer\<close>

text \<open>
  The client gets a copy of what is taken out of the buffer, in order.  \<open>dropped\<close> is a pattern
  that was found and not asked for.
\<close>

definition read_and_delete :: "'b ConnEvent \<Rightarrow> bool" where
  "read_and_delete e \<longleftrightarrow> has (ce_dataMode e) CONN_READ_DELETE \<and> has (ce_dataMode e) CONN_READ_COPY \<and>
     \<not> has (ce_dataMode e) CONN_READ_REPLACE_PATTERN"

lemma copy_no_test: "has (ce_dataMode (pe p)) CONN_READ_COPY \<Longrightarrow> \<not> test_case err p"
proof
  assume h: "has (ce_dataMode (pe p)) CONN_READ_COPY" and "test_case err p"
  then have "ce_dataMode (pe p) AND 100663296 = 0" by (simp add: test_case_def has_def)
  then have "(ce_dataMode (pe p) AND 100663296) AND 33554432 = 0" by (simp only: and_zero_eq zero_and_eq)
  then have "ce_dataMode (pe p) AND (100663296 AND 33554432) = 0" by (simp only: and.assoc)
  with h show False by (simp add: has_def)
qed

lemma take_prefix: "prefix us cs \<Longrightarrow> n \<le> length us \<Longrightarrow> take n us @ drop n cs = cs"
  by (auto simp: prefix_def)

lemma moveFinal_stream:
  assumes iob: "iob_ok norm contents (iob env)" and m: "read_and_delete (pe p)"
    and d: "d = used env p" "n + pl \<le> length d"
    and f: "moveFinalConditionalDataToClient env d n pl p = (err, q)"
  shows "\<exists>dropped. cb_written (pe q) @ dropped @ contents (pbuf q) = cb_written (pe p) @ contents (pbuf p) \<and>
    (err \<noteq> 0 \<or> pl = 0 \<or> has (ce_dataMode (pe p)) CONN_READ_INCLUDE_PATTERN \<longrightarrow> dropped = []) \<and>
    psock q = psock p"
proof -
  have pf: "prefix d (contents (pbuf p))" using iob_used_prefix [OF iob] d(1) by simp
  then have ld: "length d \<le> length (contents (pbuf p))" by (rule prefix_length_le)
  have mf: "k \<le> length d \<Longrightarrow> contents (IOBMarkFree (iob env) k (pbuf p)) = drop k (contents (pbuf p))" for k
    using iob_mark_free [OF iob] ld by simp
  have tk: "k \<le> length d \<Longrightarrow> take k d @ drop k (contents (pbuf p)) = contents (pbuf p)" for k
    by (rule take_prefix [OF pf])
  let ?e = "pe p"
  let ?extra = "if has (ce_dataMode ?e) CONN_READ_INCLUDE_PATTERN then pl else 0"
  let ?nul = "if has (ce_dataMode ?e) CONN_READ_TERMINATE then 1 else 0 :: nat"
  show ?thesis
  proof (cases "n + ?extra + ?nul > cb_remaining ?e")
    case True
    let ?k = "min n (cb_remaining ?e)"
    have q: "q = mark_free env ?k (on_event (CopyBufferedDataToClient (take ?k d)) p)"
      using f m True by (auto simp: moveFinalConditionalDataToClient_def read_and_delete_def Let_def)
    have "?k \<le> length d" using d(2) by simp
    from tk [OF this] mf [OF this] show ?thesis
      by (intro exI [of _ "[]"]) (simp add: q CopyBufferedDataToClient_def)
  next
    case False
    let ?c = "on_event (CopyBufferedDataToClient (take (n + ?extra) d)) p"
    have q: "q = mark_free env (n + pl) (if ?nul \<noteq> 0 then on_event TerminateClientBuffer ?c else ?c)" "err = 0"
      using f m False by (auto simp: moveFinalConditionalDataToClient_def read_and_delete_def Let_def)
    have le: "n + ?extra \<le> n + pl" by simp
    have "drop (n + ?extra) (take (n + pl) d) @ drop (n + pl) (contents (pbuf p)) = drop (n + ?extra) (contents (pbuf p))"
    proof -
      have "drop (n + ?extra) (take (n + pl) d @ drop (n + pl) (contents (pbuf p))) = drop (n + ?extra) (contents (pbuf p))"
        using tk [OF d(2)] by simp
      then show ?thesis using d(2) le by (simp del: append_take_drop_id)
    qed
    with tk [of "n + ?extra"] mf [OF d(2)] d(2) show ?thesis
      by (intro exI [of _ "drop (n + ?extra) (take (n + pl) d)"])
        (simp add: q CopyBufferedDataToClient_def TerminateClientBuffer_def split: if_splits)
  qed
qed

lemma movePartial_stream:
  assumes iob: "iob_ok norm contents (iob env)" and m: "read_and_delete (pe p)"
    and d: "d = used env p" "n \<le> length d"
    and f: "movePartialConditionalDataToClient env d n p = (err, q)"
  shows "cb_written (pe q) @ contents (pbuf q) = cb_written (pe p) @ contents (pbuf p) \<and> psock q = psock p \<and>
    err \<noteq> 0"
proof -
  have pf: "prefix d (contents (pbuf p))" using iob_used_prefix [OF iob] d(1) by simp
  let ?k = "min n (cb_remaining (pe p))"
  have k: "?k \<le> length d" using d(2) by simp
  with prefix_length_le [OF pf] have "?k \<le> length (contents (pbuf p))" by linarith
  note mf = iob_mark_free [OF iob this]
  have "n \<noteq> 0 \<Longrightarrow> q = mark_free env ?k (on_event (CopyBufferedDataToClient (take ?k d)) p)"
    "n = 0 \<Longrightarrow> q = p" "err \<noteq> 0"
    using f m by (auto simp: movePartialConditionalDataToClient_def read_and_delete_def Let_def min_def split: if_splits)
  then show ?thesis using mf take_prefix [OF pf k]
    by (cases "n = 0") (auto simp: CopyBufferedDataToClient_def)
qed

lemma search_condition:
  assumes iob: "iob_ok norm contents (iob env)" and t: "ce_type (pe p) = CONN_EVENT_READ_UNTIL_PATTERN"
    and c: "EventConditionSatisfied env p = ((b, d, n, l), p1)"
  shows "d = used env p1 \<and> n + (if b then l else 0) \<le> length d \<and>
    map norm (contents (pbuf p1)) = map norm (contents (pbuf p)) \<and> psock p1 = psock p"
proof -
  obtain n' m l' b' where s: "IOBSearch (iob env)
      (if arg_pattern (pe p) \<noteq> SPECIAL_PATTERN_CRLF then Some (arg_pattern (pe p)) else None) (pbuf p) = (n', m, l', b')"
    by (metis prod_cases4)
  from c have "b = m" "d = used env p1" "n = n'" "l = l'" "p1 = p\<lparr>pbuf := b'\<rparr>"
    by (auto simp: EventConditionSatisfied_def Let_def t s)
  with iob_search [OF iob s] show ?thesis by (cases m) auto
qed

lemma condition_stream:
  assumes iob: "iob_ok norm contents (iob env)"
    and c: "EventConditionSatisfied env p = ((b, d, n, l), p1)" and d: "n \<noteq> 0 \<or> b"
  shows "d = used env p1" and "n + (if b then l else 0) \<le> length d"
    and "map norm (contents (pbuf p1)) = map norm (contents (pbuf p))" and "psock p1 = psock p"
    and "ce_type (pe p) \<noteq> CONN_EVENT_READ_UNTIL_PATTERN \<Longrightarrow> l = 0"
proof -
  have "d = used env p1 \<and> n + (if b then l else 0) \<le> length d \<and> map norm (contents (pbuf p1)) = map norm (contents (pbuf p)) \<and>
      psock p1 = psock p \<and> (ce_type (pe p) \<noteq> CONN_EVENT_READ_UNTIL_PATTERN \<longrightarrow> l = 0)"
  proof (cases "ce_type (pe p) = CONN_EVENT_READ_UNTIL_PATTERN")
    case True
    with search_condition [OF iob True c] show ?thesis by blast
  next
    case False
    with c d show ?thesis
      by (auto simp: EventConditionSatisfied_def Let_def split: ConnEventType.splits if_splits)
  qed
  then show "d = used env p1" and "n + (if b then l else 0) \<le> length d"
    and "map norm (contents (pbuf p1)) = map norm (contents (pbuf p))" and "psock p1 = psock p"
    and "ce_type (pe p) \<noteq> CONN_EVENT_READ_UNTIL_PATTERN \<Longrightarrow> l = 0" by blast+
qed

text \<open>\<open>keeps_pattern e\<close>: nothing is taken out of the buffer that the client does not get.\<close>

definition keeps_pattern :: "'b ConnEvent \<Rightarrow> bool" where
  "keeps_pattern e \<longleftrightarrow> ce_type e \<noteq> CONN_EVENT_READ_UNTIL_PATTERN \<or> has (ce_dataMode e) CONN_READ_INCLUDE_PATTERN"

lemma keeps_pattern_frame:
  "pframe p q \<Longrightarrow> keeps_pattern (pe q) = keeps_pattern (pe p)"
  "pframe p q \<Longrightarrow> read_and_delete (pe q) = read_and_delete (pe p)"
  by (simp_all add: pframe_def keeps_pattern_def read_and_delete_def)

lemma SatisfyEvent_stream:
  assumes iob: "iob_ok norm contents (iob env)" and m: "read_and_delete (pe p)"
    and f: "SatisfyEvent env p = (err, q)"
  shows "\<exists>dropped. map norm (cb_written (pe q) @ dropped @ contents (pbuf q)) =
      map norm (cb_written (pe p) @ contents (pbuf p)) \<and>
    (err \<noteq> 0 \<or> keeps_pattern (pe p) \<longrightarrow> dropped = []) \<and> psock q = psock p"
proof -
  obtain b d n l p1 where c: "EventConditionSatisfied env p = ((b, d, n, l), p1)" by (metis surj_pair)
  note pe1 = condition_pe [OF c]
  have m1: "read_and_delete (pe p1)" using m pe1 by simp
  show ?thesis
  proof (cases b)
    case True
    note cs = condition_stream [OF iob c disjI2 [OF True]]
    from f c True have "moveFinalConditionalDataToClient env d n l p1 = (err, q)" by (simp add: SatisfyEvent_def)
    from moveFinal_stream [OF iob m1 cs(1) _ this] cs(2) True obtain dropped where
      dr: "cb_written (pe q) @ dropped @ contents (pbuf q) = cb_written (pe p1) @ contents (pbuf p1)"
      "err \<noteq> 0 \<or> l = 0 \<or> has (ce_dataMode (pe p1)) CONN_READ_INCLUDE_PATTERN \<longrightarrow> dropped = []"
      "psock q = psock p1" by auto
    have "map norm (cb_written (pe q) @ dropped @ contents (pbuf q)) = map norm (cb_written (pe p) @ contents (pbuf p))"
      unfolding dr(1) using cs(3) pe1 by simp
    with dr cs(4,5) pe1 show ?thesis by (intro exI [of _ dropped]) (auto simp: keeps_pattern_def)
  next
    case b: False
    with f c have mp: "movePartialConditionalDataToClient env d n p1 = (err, q)" by (simp add: SatisfyEvent_def)
    show ?thesis
    proof (cases "n = 0")
      case True
      from mp have q: "q = p1" by (simp add: movePartialConditionalDataToClient_def True)
      have "map norm (contents (pbuf p1)) = map norm (contents (pbuf p)) \<and> psock p1 = psock p"
      proof (cases "ce_type (pe p) = CONN_EVENT_READ_UNTIL_PATTERN")
        case t: True
        from search_condition [OF iob t c] show ?thesis by simp
      next
        case False
        with c show ?thesis by (auto simp: EventConditionSatisfied_def Let_def split: ConnEventType.splits if_splits)
      qed
      with q pe1 show ?thesis by (intro exI [of _ "[]"]) simp
    next
      case False
      note cs = condition_stream [OF iob c disjI1 [OF False]]
      from movePartial_stream [OF iob m1 cs(1) _ mp] cs(2) have
        mv: "cb_written (pe q) @ contents (pbuf q) = cb_written (pe p1) @ contents (pbuf p1)" "psock q = psock p1" by auto
      have "map norm (cb_written (pe q) @ [] @ contents (pbuf q)) = map norm (cb_written (pe p) @ contents (pbuf p))"
        unfolding append_Nil mv(1) using cs(3) pe1 by simp
      with mv cs(4) pe1 show ?thesis by (intro exI [of _ "[]"]) simp
    qed
  qed
qed

context socket_io
begin

text \<open>
  A conditional read hands the client, in order, what was in the buffer and what arrived on the
  wire; what the client did not take stays in the buffer.
\<close>

lemma conditional_stream:
  assumes iob: "iob_ok norm contents (iob env)" and sk: "sock env = ops" and m: "read_and_delete (pe p)"
    and f: "conditionalReadProcess env bo p = Some (err, bo', q)"
  shows "\<exists>new dropped. map norm (cb_written (pe q) @ dropped @ contents (pbuf q)) =
      map norm (cb_written (pe p) @ contents (pbuf p) @ new) \<and>
    (err \<noteq> 0 \<or> keeps_pattern (pe p) \<longrightarrow> dropped = []) \<and>
    got (psock q) = got (psock p) @ new \<and> sent (psock q) = sent (psock p)"
proof -
  let ?P = "\<lambda>p r. \<exists>new dropped. map norm (cb_written (pe (snd (snd r))) @ dropped @ contents (pbuf (snd (snd r)))) =
      map norm (cb_written (pe p) @ contents (pbuf p) @ new) \<and>
    (fst r \<noteq> 0 \<or> keeps_pattern (pe p) \<longrightarrow> dropped = []) \<and>
    got (psock (snd (snd r))) = got (psock p) @ new \<and> sent (psock (snd (snd r))) = sent (psock p)"
  let ?Q = "\<lambda>env p. iob_ok norm contents (iob env) \<and> sock env = ops \<and> read_and_delete (pe p)"
  have "?Q env p \<longrightarrow> ?P p r" if "conditionalReadProcess env bo p = Some r" for r
    using that
  proof (rule conditionalReadProcess.raw_induct [rotated, where P = "\<lambda>env bo p r. ?Q env p \<longrightarrow> ?P p r"], goal_cases)
    case (1 f env bo p r)
    show ?case
    proof
      assume A: "?Q env p"
      obtain e1 p1 where s: "SatisfyEvent env p = (e1, p1)" by fastforce
      from A have A1: "iob_ok norm contents (iob env)" "sock env = ops" "read_and_delete (pe p)" by auto
      from SatisfyEvent_stream [OF A1(1,3) s] obtain dr1 where
        d1: "map norm (cb_written (pe p1) @ dr1 @ contents (pbuf p1)) = map norm (cb_written (pe p) @ contents (pbuf p))"
        "e1 \<noteq> 0 \<or> keeps_pattern (pe p) \<longrightarrow> dr1 = []" "psock p1 = psock p" by auto
      note fr1 = keeps_pattern_frame [OF SatisfyEvent_frame [OF s]]
      show "?P p r"
      proof (cases "e1 = ECONNMOREDATA")
        case False
        with 1(2) s have "r = (e1, bo, p1)" by auto
        with d1 show ?thesis by (intro exI [of _ "[]"] exI [of _ dr1]) auto
      next
        case True
        with d1 have w1: "map norm (cb_written (pe p1) @ contents (pbuf p1)) = map norm (cb_written (pe p) @ contents (pbuf p))"
          by simp
        from 1(2) s True obtain e2 b2 p2 where p2: "fillRecvBuffer env bo p1 = Some (e2, b2, p2)"
          by (auto split: Option.bind_splits)
        from fill_stream [OF A1(1,2) p2] obtain new where
          new: "contents (pbuf p2) = contents (pbuf p1) @ new" "got (psock p2) = got (psock p1) @ new"
          "sent (psock p2) = sent (psock p1)" "pe p2 = pe p1" by blast
        have w2: "map norm (cb_written (pe p2) @ contents (pbuf p2)) = map norm (cb_written (pe p) @ contents (pbuf p) @ new)"
          using w1 new by simp
        have nt: "\<not> test_case e2 p2"
          using A1(3) fr1 new(4) by (intro copy_no_test) (simp add: read_and_delete_def)
        have "e2 \<noteq> 0 \<and> r = (e2, b2, p2) \<or> f env b2 p2 = Some r"
          using 1(2) s True p2 nt by (auto split: if_splits)
        then show ?thesis
        proof
          assume "e2 \<noteq> 0 \<and> r = (e2, b2, p2)"
          with w2 new d1(3) show ?thesis by (intro exI [of _ new] exI [of _ "[]"]) auto
        next
          assume "f env b2 p2 = Some r"
          from 1(1) [OF this] A1 fr1 new(4) obtain new2 dr where
            r: "map norm (cb_written (pe (snd (snd r))) @ dr @ contents (pbuf (snd (snd r)))) =
              map norm (cb_written (pe p2) @ contents (pbuf p2) @ new2)"
            "fst r \<noteq> 0 \<or> keeps_pattern (pe p2) \<longrightarrow> dr = []"
            "got (psock (snd (snd r))) = got (psock p2) @ new2" "sent (psock (snd (snd r))) = sent (psock p2)" by auto
          have "map norm (cb_written (pe (snd (snd r))) @ dr @ contents (pbuf (snd (snd r)))) =
              map norm (cb_written (pe p) @ contents (pbuf p) @ new @ new2)"
            unfolding r(1) using w2 by simp
          with r new d1(3) fr1 show ?thesis by (intro exI [of _ "new @ new2"] exI [of _ dr]) auto
        qed
      qed
    qed
  qed
  from this [OF f] assms show ?thesis by simp
qed

end

section \<open>Reading a number of bytes\<close>

lemma count_satisfied:
  assumes t: "ce_type (pe p) = CONN_EVENT_READ_COUNT" and m: "has (ce_dataMode (pe p)) CONN_READ_COPY"
    and rp: "\<not> has (ce_dataMode (pe p)) CONN_READ_TERMINATE" "\<not> has (ce_dataMode (pe p)) CONN_READ_REPLACE_PATTERN"
    and f: "SatisfyEvent env p = (0, q)"
  shows "cb_remaining (pe q) = 0 \<and> length (cb_written (pe q)) = room p"
proof -
  from assms show ?thesis
    by (auto simp: SatisfyEvent_def EventConditionSatisfied_def Let_def room_def
        movePartialConditionalDataToClient_def moveFinalConditionalDataToClient_def
        CopyBufferedDataToClient_def split: if_splits)
qed

text \<open>
  Only a satisfied condition ends a conditional read with success, unless the event is a test
  (no \<^verbatim>\<open>CONN_READ_COPY\<close> and no \<^verbatim>\<open>CONN_READ_DELETE\<close>).
\<close>

lemma conditional_success:
  assumes "conditionalReadProcess env bo p = Some (0, bo', q)" and "has (ce_dataMode (pe p)) CONN_READ_COPY"
  shows "\<exists>p'. pframe p p' \<and> fits p p' \<and> SatisfyEvent env p' = (0, q)"
proof -
  let ?Q = "\<lambda>p r. fst r = (0 :: errno) \<longrightarrow> has (ce_dataMode (pe p)) CONN_READ_COPY \<longrightarrow>
    (\<exists>p'. pframe p p' \<and> room p' = room p \<and> cb_terminated (pe p') = cb_terminated (pe p) \<and> SatisfyEvent env p' = (0, snd (snd r)))"
  have "env' = env \<longrightarrow> ?Q p r" if "conditionalReadProcess env' bo p = Some r" for r env'
    using that
  proof (rule conditionalReadProcess.raw_induct [rotated, where P = "\<lambda>env' bo p r. env' = env \<longrightarrow> ?Q p r"], goal_cases)
    case (1 f env' bo p r)
    show ?case
    proof (intro impI)
      assume A: "env' = env" "fst r = 0" "has (ce_dataMode (pe p)) CONN_READ_COPY"
      let ?G = "\<exists>p'. pframe p p' \<and> room p' = room p \<and> cb_terminated (pe p') = cb_terminated (pe p) \<and>
        SatisfyEvent env p' = (0, snd (snd r))"
      obtain e1 p1 where s: "SatisfyEvent env p = (e1, p1)" by fastforce
      show ?G
      proof (cases "e1 = ECONNMOREDATA")
        case False
        with 1(2) s A have "r = (0, bo, p1)" "e1 = 0" by auto
        with s show ?thesis by (intro exI [of _ p]) auto
      next
        case True
        with 1(2) s A obtain e2 b2 p2 where p2: "fillRecvBuffer env bo p1 = Some (e2, b2, p2)"
          by (auto split: Option.bind_splits)
        note pe2 = fillRecvBuffer_pe [OF p2]
        have fr: "pframe p p2" using SatisfyEvent_frame [OF s] pe2 by (simp add: pframe_def)
        have rt: "room p2 = room p" "cb_terminated (pe p2) = cb_terminated (pe p)"
          using SatisfyEvent_fits [OF s] SatisfyEvent_more s True pe2 by (auto simp: fits_def room_def)
        have c2: "has (ce_dataMode (pe p2)) CONN_READ_COPY" using fr A(3) by (simp add: pframe_def)
        have "\<not> test_case e2 p2" using c2 by (rule copy_no_test)
        then have "f env b2 p2 = Some r" using 1(2) s A True p2 by (auto split: if_splits)
        from 1(1) [OF this] A c2 obtain p' where "pframe p2 p'" "room p' = room p2"
          "cb_terminated (pe p') = cb_terminated (pe p2)" "SatisfyEvent env p' = (0, snd (snd r))" by blast
        with fr rt show ?thesis by (intro exI [of _ p']) (auto intro: pframe_trans)
      qed
    qed
  qed
  from this [OF assms(1)] assms(2) show ?thesis by (auto simp: fits_def)
qed

text \<open>A successful counted read has filled the client's buffer, exactly.\<close>

lemma read_count_exact:
  assumes "conditionalReadProcess env bo p = Some (0, bo', q)" and "ce_type (pe p) = CONN_EVENT_READ_COUNT"
    and "has (ce_dataMode (pe p)) CONN_READ_COPY" and "\<not> has (ce_dataMode (pe p)) CONN_READ_TERMINATE"
    and "\<not> has (ce_dataMode (pe p)) CONN_READ_REPLACE_PATTERN"
  shows "cb_remaining (pe q) = 0 \<and> length (cb_written (pe q)) = room p"
proof -
  from conditional_success [OF assms(1,3)] obtain p' where
    p': "pframe p p'" "fits p p'" "SatisfyEvent env p' = (0, q)" by blast
  then have "cb_remaining (pe q) = 0 \<and> length (cb_written (pe q)) = room p'"
    using assms(2-) by (intro count_satisfied) (simp_all add: pframe_def)
  with p' show ?thesis by (simp add: fits_def)
qed

end
