(* ===== verification/SockIO.thy ===== *)
theory SockIO
  imports ReadData
begin

unbundle bit_operations_syntax

text \<open>
  Sockets (\<^verbatim>\<open>sockcommon.c\<close>, \<^verbatim>\<open>sockunix.c\<close>): connecting, sending, receiving, waiting, SSL and closing.
  The calls of the C library and of OpenSSL are the members of the record \<open>sys_ops\<close>, over a world
  \<open>'w\<close>.  A call that moves bytes moves at most as many as it is asked for: this bound is
  applied where the member is called (\<open>XplIpSend\<close>, \<open>XplIpRecv\<close>, \<open>SSL_write\<close>, \<open>SSL_read\<close>),
  and the bytes moved are appended to the logs \<open>wire_out\<close> and \<open>wire_in\<close>, which the code never
  reads.  Tracing and the lock \<^verbatim>\<open>slock\<close> are left out; each function here is one locked section.
\<close>

section \<open>The system\<close>

record 'w sys_ops =
  sys_socket :: "'w \<Rightarrow> (int \<times> errno) \<times> 'w"          \<comment> \<open>result, errno\<close>
  sys_bind :: "int \<Rightarrow> 'w \<Rightarrow> errno \<times> 'w"              \<comment> \<open>0 or the errno of the failure\<close>
  sys_nonblocking :: "int \<Rightarrow> 'w \<Rightarrow> errno \<times> 'w"
  sys_nodelay :: "int \<Rightarrow> 'w \<Rightarrow> errno \<times> 'w"
  sys_connect :: "int \<Rightarrow> 'w \<Rightarrow> errno \<times> 'w"
  sys_shutdown :: "int \<Rightarrow> 'w \<Rightarrow> errno \<times> 'w"
  sys_close :: "int \<Rightarrow> 'w \<Rightarrow> int \<times> 'w"
  sys_send :: "int \<Rightarrow> byte list \<Rightarrow> 'w \<Rightarrow> int \<times> errno \<times> 'w"
  sys_recv :: "int \<Rightarrow> nat \<Rightarrow> 'w \<Rightarrow> byte list option \<times> errno \<times> 'w"   \<comment> \<open>\<open>None\<close>: result -1\<close>
  sys_poll :: "int \<Rightarrow> u32 \<Rightarrow> int \<Rightarrow> 'w \<Rightarrow> (int \<times> u32 \<times> errno) \<times> 'w"     \<comment> \<open>result, revents, errno\<close>
  sys_epoll_add :: "int \<Rightarrow> SocketEventType \<Rightarrow> 'w \<Rightarrow> errno \<times> 'w"
  ssl_alloc :: "bool \<Rightarrow> bool \<Rightarrow> 'w \<Rightarrow> ptr option \<times> 'w"   \<comment> \<open>\<^verbatim>\<open>SSL_new\<close> on the server or client, TLS or SSL context\<close>
  ssl_bio :: "ptr \<Rightarrow> int \<Rightarrow> 'w \<Rightarrow> bool \<times> 'w"
  ssl_release :: "ptr \<Rightarrow> 'w \<Rightarrow> unit \<times> 'w"
  ssl_accept :: "ptr \<Rightarrow> 'w \<Rightarrow> int \<times> 'w"
  ssl_connect :: "ptr \<Rightarrow> 'w \<Rightarrow> int \<times> 'w"
  ssl_shutdown :: "ptr \<Rightarrow> 'w \<Rightarrow> int \<times> 'w"
  ssl_read :: "ptr \<Rightarrow> nat \<Rightarrow> 'w \<Rightarrow> byte list \<times> int \<times> 'w"   \<comment> \<open>no bytes: the result\<close>
  ssl_write :: "ptr \<Rightarrow> byte list \<Rightarrow> 'w \<Rightarrow> int \<times> 'w"
  ssl_get_error :: "ptr \<Rightarrow> int \<Rightarrow> 'w \<Rightarrow> int"
  err_queue :: "'w \<Rightarrow> int list \<times> 'w"                    \<comment> \<open>what \<^verbatim>\<open>ERR_get_error()\<close> returns until it is 0\<close>

record 'w net =
  kernel :: 'w
  wire_out :: "byte list"
  wire_in :: "byte list"

definition in_kernel :: "('w \<Rightarrow> 'a \<times> 'w) \<Rightarrow> 'w net \<Rightarrow> 'a \<times> 'w net" where
  "in_kernel f n = (case f (kernel n) of (r, w) \<Rightarrow> (r, n\<lparr>kernel := w\<rparr>))"

definition XplIpSend :: "'w sys_ops \<Rightarrow> int \<Rightarrow> byte list \<Rightarrow> 'w net \<Rightarrow> int \<times> errno \<times> 'w net" where
  "XplIpSend sys fd buff n =
     (case sys_send sys fd buff (kernel n) of (c, err, w) \<Rightarrow>
        (let k = min c (int (length buff))
         in (k, err, n\<lparr>kernel := w, wire_out := wire_out n @ take (nat k) buff\<rparr>)))"

definition XplIpRecv :: "'w sys_ops \<Rightarrow> int \<Rightarrow> nat \<Rightarrow> 'w net \<Rightarrow> byte list option \<times> errno \<times> 'w net" where
  "XplIpRecv sys fd len n =
     (case sys_recv sys fd len (kernel n) of
        (None, err, w) \<Rightarrow> (None, err, n\<lparr>kernel := w\<rparr>)
      | (Some bytes, err, w) \<Rightarrow>
          (Some (take len bytes), err, n\<lparr>kernel := w, wire_in := wire_in n @ take len bytes\<rparr>))"

definition SSL_write :: "'w sys_ops \<Rightarrow> ptr \<Rightarrow> byte list \<Rightarrow> 'w net \<Rightarrow> int \<times> 'w net" where
  "SSL_write sys ssl buff n =
     (case ssl_write sys ssl buff (kernel n) of (c, w) \<Rightarrow>
        (let k = min c (int (length buff))
         in (k, n\<lparr>kernel := w, wire_out := wire_out n @ take (nat k) buff\<rparr>)))"

definition SSL_read :: "'w sys_ops \<Rightarrow> ptr \<Rightarrow> nat \<Rightarrow> 'w net \<Rightarrow> byte list \<times> int \<times> 'w net" where
  "SSL_read sys ssl len n =
     (case ssl_read sys ssl len (kernel n) of (bytes, ret, w) \<Rightarrow>
        (take len bytes, ret, n\<lparr>kernel := w, wire_in := wire_in n @ take len bytes\<rparr>))"

text \<open>
  None of the SSL contexts connio makes has \<^verbatim>\<open>SSL_MODE_ENABLE_PARTIAL_WRITE\<close>: a write that
  succeeds has then written all it was given.
\<close>

definition whole_writes :: "'w sys_ops \<Rightarrow> 'w sys_ops" where
  "whole_writes sys = sys\<lparr>ssl_write := (\<lambda>ssl buff w.
     case ssl_write sys ssl buff w of (c, w') \<Rightarrow> (if c > 0 then int (length buff) else c, w'))\<rparr>"

section \<open>Waiting\<close>

abbreviation (input) POLLIN :: u32 where "POLLIN \<equiv> 0x01"
abbreviation (input) POLLPRI :: u32 where "POLLPRI \<equiv> 0x02"
abbreviation (input) POLLOUT :: u32 where "POLLOUT \<equiv> 0x04"

text \<open>
  The errno of a successful \<^verbatim>\<open>poll()\<close>, 0 when the socket is ready.  For reading, \<^verbatim>\<open>ECONNRESET\<close> is
  stored and then overwritten by the \<^verbatim>\<open>if\<close> that follows.
\<close>

definition readable_result :: "u32 \<Rightarrow> errno" where
  "readable_result revents =
     (if \<not> has revents (POLLHUP OR POLLNVAL OR POLLERR) \<and> has revents (POLLIN OR POLLPRI) then 0
      else if has revents POLLNVAL then EINVAL else EIO)"

definition writable_result :: "u32 \<Rightarrow> errno" where
  "writable_result revents =
     (if \<not> has revents (POLLHUP OR POLLERR OR POLLNVAL) \<and> has revents POLLOUT then 0
      else if has revents POLLHUP then ECONNRESET
      else if has revents POLLNVAL then EINVAL else EIO)"

partial_function (option) sockWaitForReadable ::
    "'w sys_ops \<Rightarrow> int \<Rightarrow> int \<Rightarrow> 'w net \<Rightarrow> (errno \<times> 'w net) option" where
  "sockWaitForReadable sys fd timeout n =
     (if fd = -1 then Some (EINVAL, n)
      else (case in_kernel (sys_poll sys fd (POLLIN OR POLLPRI) timeout) n of
        ((ccode, revents, err), n1) \<Rightarrow>
          if ccode > 0 then Some (readable_result revents, n1)
          else if ccode = 0 then Some (ETIMEDOUT, n1)
          else if err \<noteq> EINTR then Some (err, n1)
          else sockWaitForReadable sys fd timeout n1))"

definition sockWaitForWritable :: "'w sys_ops \<Rightarrow> int \<Rightarrow> int \<Rightarrow> 'w net \<Rightarrow> errno \<times> 'w net" where
  "sockWaitForWritable sys fd timeout n =
     (case in_kernel (sys_poll sys fd POLLOUT timeout) n of
        ((ccode, revents, err), n1) \<Rightarrow>
          (if ccode > 0 then writable_result revents
           else if ccode = 0 then ETIMEDOUT
           else if err = EINTR then 0 else err, n1))"

type_synonym 'w io = "SOCK \<times> 'w net"

definition on_net :: "SOCK \<Rightarrow> 'a \<times> 'w net \<Rightarrow> 'a \<times> 'w io" where
  "on_net s r = (fst r, s, snd r)"

definition socketWait :: "'w sys_ops \<Rightarrow> SocketEventType \<Rightarrow> int \<Rightarrow> 'w io \<Rightarrow> (errno \<times> 'w io) option" where
  "socketWait sys waitOn timeOut sn =
     (case sn of (s, n) \<Rightarrow>
        (case waitOn of
           SOCK_EVENT_TYPE_READABLE \<Rightarrow>
             map_option (on_net s) (sockWaitForReadable sys (number s) timeOut n)
         | SOCK_EVENT_TYPE_WRITABLE \<Rightarrow> Some (on_net s (sockWaitForWritable sys (number s) timeOut n))
         | SOCK_EVENT_TYPE_DISCONNECT \<Rightarrow>
             map_option (\<lambda>(err, n1). (if err = ECONNRESET then 0 else err, s, n1))
               (sockWaitForReadable sys (number s) timeOut n)
         | SOCK_EVENT_TYPE_CONNECT \<Rightarrow> Some (on_net s (sockWaitForWritable sys (number s) timeOut n))
         | SOCK_EVENT_TYPE_LISTEN \<Rightarrow> Some (ECONNIOBUG, s, n)
         | SOCK_EVENT_TYPE_NONE \<Rightarrow> Some (ECONNIOBUG, s, n)))"

section \<open>Connecting and closing\<close>

text \<open>Result of \<^verbatim>\<open>socketClose()\<close>: 0 or not.\<close>

definition socketClose :: "'w sys_ops \<Rightarrow> 'w io \<Rightarrow> int \<times> 'w io" where
  "socketClose sys sn =
     (case sn of (s, n) \<Rightarrow>
        if number s \<noteq> SOCKET_INVALID
        then (case in_kernel (sys_close sys (number s)) n of (ret, n1) \<Rightarrow> (ret, s\<lparr>number := SOCKET_INVALID\<rparr>, n1))
        else (-1, s, n))"

definition socketReset :: "SOCK \<Rightarrow> SOCK" where
  "socketReset s = s\<lparr>number := SOCKET_INVALID, ssl_conn := None, ssl_new := None, listenerID := 0\<rparr>"

definition socketValid :: "'w io \<Rightarrow> bool" where
  "socketValid sn \<longleftrightarrow> number (fst sn) \<noteq> SOCKET_ERROR"

definition would_block :: "errno \<Rightarrow> bool" where
  "would_block err \<longleftrightarrow> err \<in> {EWOULDBLOCK, EALREADY, EINPROGRESS}"

text \<open>\<open>src\<close> tells whether there is a source address to bind to.\<close>

definition socketSyncConnectStart ::
    "'w sys_ops \<Rightarrow> bool \<Rightarrow> 'w io \<Rightarrow> errno \<times> SocketEventType \<times> 'w io" where
  "socketSyncConnectStart sys src sn =
     (case in_kernel (sys_socket sys) (snd sn) of ((fd, serr), n1) \<Rightarrow>
        (let s1 = (fst sn)\<lparr>number := fd\<rparr>
         in if fd = SOCKET_ERROR then (serr, SOCK_EVENT_TYPE_NONE, s1, n1)
            else
              (case (if src then in_kernel (sys_bind sys fd) n1 else (0, n1)) of (berr, n2) \<Rightarrow>
                 if berr \<noteq> 0 then (berr, SOCK_EVENT_TYPE_NONE, s1, n2)
                 else
                   (case in_kernel (sys_nonblocking sys fd) n2 of (merr, n3) \<Rightarrow>
                      if merr \<noteq> 0 then (merr, SOCK_EVENT_TYPE_NONE, s1, n3)
                      else
                        (case in_kernel (sys_connect sys fd) n3 of (cerr, n4) \<Rightarrow>
                           if cerr = 0 then (0, SOCK_EVENT_TYPE_NONE, s1, n4)
                           else if would_block cerr
                           then (EWOULDBLOCK, SOCK_EVENT_TYPE_CONNECT, s1, n4)
                           else (cerr, SOCK_EVENT_TYPE_NONE, snd (socketClose sys (s1, n4))))))))"

definition socketConnectFinish :: "'w sys_ops \<Rightarrow> 'w io \<Rightarrow> 'w io" where
  "socketConnectFinish sys sn = (fst sn, snd (in_kernel (sys_nodelay sys (number (fst sn))) (snd sn)))"

definition SocketConnectAbort_unix :: "'w sys_ops \<Rightarrow> 'w io \<Rightarrow> 'w io" where
  "SocketConnectAbort_unix sys sn = snd (socketClose sys sn)"

definition SocketDisconnectFinish_unix :: "'w sys_ops \<Rightarrow> 'w io \<Rightarrow> 'w io" where
  "SocketDisconnectFinish_unix sys sn = snd (socketClose sys sn)"

definition socketSyncDisconnectStart :: "'w sys_ops \<Rightarrow> 'w io \<Rightarrow> errno \<times> SocketEventType \<times> 'w io" where
  "socketSyncDisconnectStart sys sn =
     (case in_kernel (sys_shutdown sys (number (fst sn))) (snd sn) of
        (_, n1) \<Rightarrow> (EWOULDBLOCK, SOCK_EVENT_TYPE_DISCONNECT, fst sn, n1))"

text \<open>
  The blocking disconnect.  The first two results are the value returned and what is left in
  \<^verbatim>\<open>errno\<close>; \<open>errno0\<close> is \<^verbatim>\<open>errno\<close> before the call.
\<close>

definition sockDisconnect :: "'w sys_ops \<Rightarrow> int \<Rightarrow> errno \<Rightarrow> 'w net \<Rightarrow> errno \<times> errno \<times> 'w net" where
  "sockDisconnect sys fd errno0 n =
     (case in_kernel (sys_shutdown sys fd) n of (e, n1) \<Rightarrow> if e \<noteq> 0 then (e, 0, n1) else (0, errno0, n1))"

definition disconnectWithTimeout ::
    "'w sys_ops \<Rightarrow> int \<Rightarrow> errno \<Rightarrow> 'w io \<Rightarrow> (errno \<times> errno \<times> 'w io) option" where
  "disconnectWithTimeout sys timeOut errno0 sn =
     (case sockDisconnect sys (number (fst sn)) errno0 (snd sn) of (err, en, n1) \<Rightarrow>
        if err = EWOULDBLOCK
        then map_option (\<lambda>(werr, n2). (werr, 0, fst sn, n2)) (sockWaitForReadable sys (number (fst sn)) timeOut n1)
        else Some (err, en, fst sn, n1))"

definition socketDisconnect :: "'w sys_ops \<Rightarrow> int \<Rightarrow> errno \<Rightarrow> 'w io \<Rightarrow> (errno \<times> 'w io) option" where
  "socketDisconnect sys timeOut errno0 sn =
     do { (err, en, sn1) \<leftarrow> disconnectWithTimeout sys timeOut errno0 sn;
          Some (if err = 0 then 0 else en, sn1) }"

section \<open>SSL\<close>

abbreviation (input) SSL_ERROR_NONE :: int where "SSL_ERROR_NONE \<equiv> 0"
abbreviation (input) SSL_ERROR_WANT_READ :: int where "SSL_ERROR_WANT_READ \<equiv> 2"
abbreviation (input) SSL_ERROR_WANT_WRITE :: int where "SSL_ERROR_WANT_WRITE \<equiv> 3"
abbreviation (input) SSL_ERROR_ZERO_RETURN :: int where "SSL_ERROR_ZERO_RETURN \<equiv> 6"

definition SocketSSLAlloc :: "'w sys_ops \<Rightarrow> bool \<Rightarrow> bool \<Rightarrow> int \<Rightarrow> 'w net \<Rightarrow> ptr option \<times> 'w net" where
  "SocketSSLAlloc sys server tls fd n =
     (case in_kernel (ssl_alloc sys server tls) n of
        (None, n1) \<Rightarrow> (None, n1)
      | (Some ssl, n1) \<Rightarrow>
          (case in_kernel (ssl_bio sys ssl fd) n1 of (ok, n2) \<Rightarrow>
             if ok then (Some ssl, n2) else (None, snd (in_kernel (ssl_release sys ssl) n2))))"

definition sslErrorQueueClear :: "'w sys_ops \<Rightarrow> int \<Rightarrow> 'w net \<Rightarrow> int \<times> 'w net" where
  "sslErrorQueueClear sys sslError n =
     (case in_kernel (err_queue sys) n of (errs, n1) \<Rightarrow>
        (if sslError = 0 then 0
         else if sslError \<noteq> SSL_ERROR_WANT_WRITE \<and> sslError \<noteq> SSL_ERROR_WANT_READ then 0
         else fold (\<lambda>threadError e. if threadError \<noteq> SSL_ERROR_WANT_WRITE \<and> threadError \<noteq> SSL_ERROR_WANT_READ
                                    then threadError else e) errs sslError, n1))"

definition sslErrorGet ::
    "'w sys_ops \<Rightarrow> ptr \<Rightarrow> int \<Rightarrow> SocketEventType \<Rightarrow> 'w net \<Rightarrow> errno \<times> SocketEventType \<times> 'w net" where
  "sslErrorGet sys ssl ret blockedOn n =
     (case sslErrorQueueClear sys (ssl_get_error sys ssl ret (kernel n)) n of (sslError, n1) \<Rightarrow>
        if sslError = SSL_ERROR_WANT_WRITE then (EWOULDBLOCK, SOCK_EVENT_TYPE_WRITABLE, n1)
        else if sslError = SSL_ERROR_WANT_READ then (EWOULDBLOCK, SOCK_EVENT_TYPE_READABLE, n1)
        else if sslError = SSL_ERROR_ZERO_RETURN then (ECONNCLOSEDBYPEER, SOCK_EVENT_TYPE_NONE, n1)
        else if sslError = SSL_ERROR_NONE then (EIO, blockedOn, n1)
        else (EIO, SOCK_EVENT_TYPE_NONE, n1))"

definition clear_queue :: "'w sys_ops \<Rightarrow> 'w net \<Rightarrow> 'w net" where
  "clear_queue sys n = snd (sslErrorQueueClear sys 0 n)"

definition sslConnect ::
    "'w sys_ops \<Rightarrow> bool \<Rightarrow> bool \<Rightarrow> SocketEventType \<Rightarrow> 'w io \<Rightarrow> errno \<times> SocketEventType \<times> 'w io" where
  "sslConnect sys server tls blockedOn sn =
     (case sn of (s, n) \<Rightarrow>
        if ssl_conn s \<noteq> None then (ECONNALREADYSECURED, blockedOn, s, n)
        else
          (case (case ssl_new s of None \<Rightarrow> SocketSSLAlloc sys server tls (number s) n | Some x \<Rightarrow> (Some x, n)) of
             (None, n1) \<Rightarrow> (ECONNSSLSTART, blockedOn, s\<lparr>ssl_new := None\<rparr>, n1)
           | (Some ssl, n1) \<Rightarrow>
               (case in_kernel (if server then ssl_accept sys ssl else ssl_connect sys ssl) (clear_queue sys n1) of
                  (sslRet, n2) \<Rightarrow>
                    if sslRet = 1 then (0, blockedOn, s\<lparr>ssl_conn := Some ssl, ssl_new := None\<rparr>, n2)
                    else
                      (case sslErrorGet sys ssl sslRet blockedOn n2 of
                         (err, bo, n3) \<Rightarrow> (err, bo, s\<lparr>ssl_new := Some ssl\<rparr>, n3)))))"

definition socketSSLDisconnect ::
    "'w sys_ops \<Rightarrow> SocketEventType \<Rightarrow> 'w io \<Rightarrow> errno \<times> SocketEventType \<times> 'w io" where
  "socketSSLDisconnect sys blockedOn sn =
     (case sn of (s, n) \<Rightarrow>
        (case ssl_conn s of
           None \<Rightarrow> (ECONNALREADYSECURED, blockedOn, s, n)
         | Some ssl \<Rightarrow>
             (case in_kernel (ssl_shutdown sys ssl) (clear_queue sys n) of
                (sslRet, n1) \<Rightarrow>
                  if sslRet \<noteq> -1
                  then (0, blockedOn, s\<lparr>ssl_conn := None\<rparr>, snd (in_kernel (ssl_release sys ssl) n1))
                  else
                    (case sslErrorGet sys ssl sslRet blockedOn n1 of
                       (err, bo, n2) \<Rightarrow> (err, bo, s, n2)))))"

definition ssl_free_opt :: "'w sys_ops \<Rightarrow> ptr option \<Rightarrow> 'w net \<Rightarrow> 'w net" where
  "ssl_free_opt sys x n = (case x of None \<Rightarrow> n | Some ssl \<Rightarrow> snd (in_kernel (ssl_release sys ssl) n))"

definition SocketSSLAbort_unix :: "'w sys_ops \<Rightarrow> 'w io \<Rightarrow> 'w io" where
  "SocketSSLAbort_unix sys sn =
     ((fst sn)\<lparr>ssl_new := None, ssl_conn := None\<rparr>,
      ssl_free_opt sys (ssl_conn (fst sn)) (ssl_free_opt sys (ssl_new (fst sn)) (snd sn)))"

section \<open>Sending and receiving\<close>

text \<open>
  \<open>timeOut\<close> is \<open>None\<close> for a \<^verbatim>\<open>NULL\<close> timeout, the non-blocking case.
\<close>

partial_function (option) ssl_receive_loop ::
    "'w sys_ops \<Rightarrow> int \<Rightarrow> ptr \<Rightarrow> nat \<Rightarrow> int option \<Rightarrow> SocketEventType \<Rightarrow> 'w net \<Rightarrow>
     (byte list \<times> SocketEventType \<times> errno \<times> 'w net) option" where
  "ssl_receive_loop sys fd ssl len timeOut blockedOn n =
     (case SSL_read sys ssl len (clear_queue sys n) of (bytes, ret, n1) \<Rightarrow>
        if bytes \<noteq> [] then Some (bytes, blockedOn, 0, n1)
        else
          (case sslErrorGet sys ssl ret blockedOn n1 of (err, bo, n2) \<Rightarrow>
             if err \<noteq> EWOULDBLOCK \<or> timeOut = None then Some ([], bo, err, n2)
             else
               do { (werr, n3) \<leftarrow>
                      (if bo = SOCK_EVENT_TYPE_READABLE then sockWaitForReadable sys fd (the timeOut) n2
                       else Some (sockWaitForWritable sys fd (the timeOut) n2));
                    if werr = 0 then ssl_receive_loop sys fd ssl len timeOut bo n3
                    else Some ([], bo, werr, n3) }))"

definition sslReceive ::
    "'w sys_ops \<Rightarrow> int \<Rightarrow> ptr \<Rightarrow> nat \<Rightarrow> int option \<Rightarrow> 'w net \<Rightarrow>
     (byte list \<times> SocketEventType \<times> errno \<times> 'w net) option" where
  "sslReceive sys fd ssl len timeOut n = ssl_receive_loop sys fd ssl len timeOut SOCK_EVENT_TYPE_NONE n"

partial_function (option) clear_receive_loop ::
    "'w sys_ops \<Rightarrow> int \<Rightarrow> nat \<Rightarrow> int option \<Rightarrow> SocketEventType \<Rightarrow> 'w net \<Rightarrow>
     (byte list \<times> SocketEventType \<times> errno \<times> 'w net) option" where
  "clear_receive_loop sys fd len timeOut blockedOn n =
     (case XplIpRecv sys fd len n of (bytes, err, n1) \<Rightarrow>
        if bytes \<noteq> None then
          (if bytes \<noteq> Some [] then Some (the bytes, blockedOn, 0, n1)
           else Some ([], blockedOn, ECONNCLOSEDBYPEER, n1))
        else if err = EINTR then clear_receive_loop sys fd len timeOut blockedOn n1
        else if err \<noteq> EWOULDBLOCK then Some ([], blockedOn, err, n1)
        else if timeOut = None then Some ([], SOCK_EVENT_TYPE_READABLE, err, n1)
        else
          do { (werr, n2) \<leftarrow> sockWaitForReadable sys fd (the timeOut) n1;
               if werr = 0 then clear_receive_loop sys fd len timeOut SOCK_EVENT_TYPE_READABLE n2
               else Some ([], SOCK_EVENT_TYPE_READABLE, werr, n2) })"

definition clearReceive ::
    "'w sys_ops \<Rightarrow> int \<Rightarrow> nat \<Rightarrow> int option \<Rightarrow> 'w net \<Rightarrow>
     (byte list \<times> SocketEventType \<times> errno \<times> 'w net) option" where
  "clearReceive sys fd len timeOut n = clear_receive_loop sys fd len timeOut SOCK_EVENT_TYPE_NONE n"

definition socketReceive ::
    "'w sys_ops \<Rightarrow> nat \<Rightarrow> int option \<Rightarrow> SocketEventType \<Rightarrow> 'w io \<Rightarrow>
     (byte list \<times> SocketEventType \<times> errno \<times> 'w io) option" where
  "socketReceive sys len timeOut blockedOn sn =
     (case sn of (s, n) \<Rightarrow>
        if len \<noteq> 0 then
          map_option (\<lambda>(bytes, bo, err, n1). (bytes, bo, err, s, n1))
            (case ssl_conn s of
               None \<Rightarrow> clearReceive sys (number s) len timeOut n
             | Some ssl \<Rightarrow> sslReceive sys (number s) ssl len timeOut n)
        else Some ([], blockedOn, EMSGSIZE, s, n))"

text \<open>
  The loops of the send functions end: every round but the last moves \<open>writeCount\<close> on.
\<close>

function ssl_send_loop ::
    "'w sys_ops \<Rightarrow> ptr \<Rightarrow> byte list \<Rightarrow> nat \<Rightarrow> 'w net \<Rightarrow> int \<times> SocketEventType \<times> errno \<times> 'w net" where
  "ssl_send_loop sys ssl buff writeCount n =
     (case SSL_write sys ssl (drop writeCount buff) (clear_queue sys n) of (ccode, n1) \<Rightarrow>
        if ccode = int (length buff) - int writeCount
        then (int (length buff), SOCK_EVENT_TYPE_NONE, 0, n1)
        else if ccode > 0 then ssl_send_loop sys ssl buff (writeCount + nat ccode) n1
        else
          (case sslErrorGet sys ssl ccode SOCK_EVENT_TYPE_NONE n1 of
             (err, bo, n2) \<Rightarrow> (SOCKET_ERROR, bo, err, n2)))"
  by pat_completeness auto

termination
  by (relation "measure (\<lambda>(sys, ssl, buff, writeCount, n). length buff - writeCount)")
    (auto simp: SSL_write_def Let_def min_def split: prod.splits if_splits)

definition sslSend ::
    "'w sys_ops \<Rightarrow> ptr \<Rightarrow> byte list \<Rightarrow> 'w net \<Rightarrow> int \<times> SocketEventType \<times> errno \<times> 'w net" where
  "sslSend sys ssl buff n = ssl_send_loop sys ssl buff 0 n"

function clear_send_loop ::
    "'w sys_ops \<Rightarrow> int \<Rightarrow> byte list \<Rightarrow> nat \<Rightarrow> 'w net \<Rightarrow> int \<times> SocketEventType \<times> errno \<times> 'w net" where
  "clear_send_loop sys fd buff writeCount n =
     (case XplIpSend sys fd (drop writeCount buff) n of (ccode, err, n1) \<Rightarrow>
        if ccode > 0 then
          (if writeCount + nat ccode \<ge> length buff
           then (int (writeCount + nat ccode), SOCK_EVENT_TYPE_NONE, 0, n1)
           else clear_send_loop sys fd buff (writeCount + nat ccode) n1)
        else
          (let bo = (if err = EWOULDBLOCK then SOCK_EVENT_TYPE_WRITABLE else SOCK_EVENT_TYPE_NONE)
           in if writeCount \<noteq> 0 then (int writeCount, bo, err, n1)
              else (SOCKET_ERROR, bo, if err = 0 then ECONNIOBUG else err, n1)))"
  by pat_completeness auto

termination
  by (relation "measure (\<lambda>(sys, fd, buff, writeCount, n). length buff - writeCount)") auto

definition clearSend ::
    "'w sys_ops \<Rightarrow> int \<Rightarrow> byte list \<Rightarrow> 'w net \<Rightarrow> int \<times> SocketEventType \<times> errno \<times> 'w net" where
  "clearSend sys fd buff n = clear_send_loop sys fd buff 0 n"

declare ssl_send_loop.simps [simp del] clear_send_loop.simps [simp del]

definition socketSend ::
    "'w sys_ops \<Rightarrow> byte list \<Rightarrow> SocketEventType \<Rightarrow> 'w io \<Rightarrow> int \<times> SocketEventType \<times> errno \<times> 'w io" where
  "socketSend sys buff blockedOn sn =
     (case sn of (s, n) \<Rightarrow>
        if buff \<noteq> [] then
          (case (case ssl_conn s of
                   Some ssl \<Rightarrow> sslSend sys ssl buff n
                 | None \<Rightarrow> clearSend sys (number s) buff n) of
             (r, bo, err, n1) \<Rightarrow> (r, bo, err, s, n1))
        else (0, blockedOn, 0, s, n))"

section \<open>The socket operations of an event\<close>

text \<open>
  \<open>src\<close> tells whether the event has a source address, \<open>ce\<close> is the event that waits.
\<close>

definition event_wait :: "'w sys_ops \<Rightarrow> ptr \<Rightarrow> SocketEventType \<Rightarrow> int \<Rightarrow> 'w io \<Rightarrow> errno \<times> 'w io" where
  "event_wait sys ce type timeOut sn =
     (case in_kernel (sys_epoll_add sys (number (fst sn)) type) (snd sn) of (add_err, n1) \<Rightarrow>
        (case SocketEventWaitEx True add_err 0 False type timeOut ce (fst sn) of
           (err, s1) \<Rightarrow> (err, s1, n1)))"

definition unix_sock_ops :: "'w sys_ops \<Rightarrow> bool \<Rightarrow> ptr \<Rightarrow> 'w io sock_ops" where
  "unix_sock_ops sys src ce = \<lparr>
     SocketSend = (\<lambda>buff bo sn. Some (socketSend sys buff bo sn)),
     SocketReceive = (\<lambda>len bo sn. socketReceive sys len None bo sn),
     SocketConnectStart = (\<lambda>async bo sn. socketSyncConnectStart sys src sn),
     SocketDisconnectStart = (\<lambda>async bo sn. socketSyncDisconnectStart sys sn),
     SocketValid = socketValid,
     SocketSSLStart = (\<lambda>server tls bo sn. sslConnect sys server tls bo sn),
     SocketSSLDisconnect = socketSSLDisconnect sys,
     SocketConnectFinish = socketConnectFinish sys,
     SocketDisconnectFinish = SocketDisconnectFinish_unix sys,
     SocketConnectAbort = SocketConnectAbort_unix sys,
     SocketSSLAbort = SocketSSLAbort_unix sys,
     SocketWait = socketWait sys,
     SocketEventWait = event_wait sys ce\<rparr>"

section \<open>What goes over the wire\<close>

lemma in_kernel_wire:
  "in_kernel f n = (r, n') \<Longrightarrow> wire_out n' = wire_out n \<and> wire_in n' = wire_in n"
  by (auto simp: in_kernel_def split: prod.splits)

lemma in_kernel_logs [simp]:
  "wire_out (snd (in_kernel f n)) = wire_out n" "wire_in (snd (in_kernel f n)) = wire_in n"
  by (auto simp: in_kernel_def split: prod.splits)

lemma queue_wire:
  "sslErrorQueueClear sys e n = (r, n') \<Longrightarrow> wire_out n' = wire_out n \<and> wire_in n' = wire_in n"
  by (auto simp: sslErrorQueueClear_def dest: in_kernel_wire split: prod.splits)

lemma clear_queue_logs [simp]:
  "wire_out (clear_queue sys n) = wire_out n" "wire_in (clear_queue sys n) = wire_in n"
  by (auto simp: clear_queue_def dest: queue_wire split: prod.splits) (metis queue_wire surjective_pairing)+

lemma sslErrorGet_spec:
  "sslErrorGet sys ssl ret bo n = (err, bo', n') \<Longrightarrow>
     err \<in> {EWOULDBLOCK, ECONNCLOSEDBYPEER, EIO} \<and> wire_out n' = wire_out n \<and> wire_in n' = wire_in n"
  by (auto simp: sslErrorGet_def dest: queue_wire split: prod.splits if_splits)

lemma XplIpSend_wire:
  "XplIpSend sys fd buff n = (c, err, n') \<Longrightarrow>
     c \<le> int (length buff) \<and> wire_out n' = wire_out n @ take (nat c) buff \<and> wire_in n' = wire_in n"
  by (auto simp: XplIpSend_def Let_def split: prod.splits)

lemma SSL_write_wire:
  "SSL_write sys ssl buff n = (c, n') \<Longrightarrow>
     c \<le> int (length buff) \<and> wire_out n' = wire_out n @ take (nat c) buff \<and> wire_in n' = wire_in n"
  by (auto simp: SSL_write_def Let_def split: prod.splits)

text \<open>One more round extends the part of the buffer that went out.\<close>

lemma take_round:
  assumes "wc + c \<le> k"
  shows "take c (drop wc xs) @ take (k - (wc + c)) (drop (wc + c) xs) = take (k - wc) (drop wc xs)"
proof -
  have "k - wc = c + (k - (wc + c))" using assms by simp
  then show ?thesis by (simp only: take_add drop_drop add.commute)
qed

lemma clear_send_law:
  "wc < length buff \<Longrightarrow> clear_send_loop sys fd buff wc n = (r, bo, err, n') \<Longrightarrow>
     \<exists>k. wc \<le> k \<and> k \<le> length buff \<and> wire_out n' = wire_out n @ take (k - wc) (drop wc buff) \<and>
         wire_in n' = wire_in n \<and> (r > 0 \<and> k = nat r \<or> r = -1 \<and> k = 0 \<and> err \<noteq> 0)"
proof (induction sys fd buff wc n rule: clear_send_loop.induct)
  case (1 sys fd buff wc n)
  obtain c e n1 where s: "XplIpSend sys fd (drop wc buff) n = (c, e, n1)" by (metis prod_cases3)
  note w = XplIpSend_wire [OF s]
  note step = 1(3) [unfolded clear_send_loop.simps [of sys fd buff wc n] s prod.case]
  show ?case
  proof (cases "c > 0")
    case False
    with step w 1(2) show ?thesis
      by (intro exI [of _ wc]) (auto simp: Let_def split: if_splits)
  next
    case c: True
    show ?thesis
    proof (cases "wc + nat c \<ge> length buff")
      case True
      with step c have r: "r = int (wc + nat c)" "n' = n1" by auto
      have "wc + nat c = length buff" using True w c 1(2) by auto
      then show ?thesis using r w c by (intro exI [of _ "length buff"]) auto
    next
      case False
      with step c have "clear_send_loop sys fd buff (wc + nat c) n1 = (r, bo, err, n')" by simp
      with 1(1) [OF s [symmetric] refl c] False obtain k where k: "wc + nat c \<le> k" "k \<le> length buff"
        "wire_out n' = wire_out n1 @ take (k - (wc + nat c)) (drop (wc + nat c) buff)" "wire_in n' = wire_in n1"
        "r > 0 \<and> k = nat r \<or> r = -1 \<and> k = 0 \<and> err \<noteq> 0" by (auto simp: not_le)
      with w take_round [OF k(1), of buff] show ?thesis by (intro exI [of _ k]) auto
    qed
  qed
qed

lemma ssl_send_law:
  "wc < length buff \<Longrightarrow> ssl_send_loop sys ssl buff wc n = (r, bo, err, n') \<Longrightarrow>
     \<exists>k. wc \<le> k \<and> k \<le> length buff \<and> wire_out n' = wire_out n @ take (k - wc) (drop wc buff) \<and>
         wire_in n' = wire_in n \<and> (r > 0 \<and> k = nat r \<and> k = length buff \<or> r = -1 \<and> err \<noteq> 0)"
proof (induction sys ssl buff wc n rule: ssl_send_loop.induct)
  case (1 sys ssl buff wc n)
  obtain c n1 where s: "SSL_write sys ssl (drop wc buff) (clear_queue sys n) = (c, n1)" by fastforce
  note w = SSL_write_wire [OF s]
  note step = 1(3) [unfolded ssl_send_loop.simps [of sys ssl buff wc n] s prod.case]
  show ?case
  proof (cases "c = int (length buff) - int wc")
    case True
    with step w 1(2) show ?thesis by (intro exI [of _ "length buff"]) auto
  next
    case ne: False
    show ?thesis
    proof (cases "c > 0")
      case c: True
      with ne step have "ssl_send_loop sys ssl buff (wc + nat c) n1 = (r, bo, err, n')" by simp
      moreover have "wc + nat c < length buff" using w ne c 1(2) by auto
      ultimately obtain k where k: "wc + nat c \<le> k" "k \<le> length buff"
        "wire_out n' = wire_out n1 @ take (k - (wc + nat c)) (drop (wc + nat c) buff)" "wire_in n' = wire_in n1"
        "r > 0 \<and> k = nat r \<and> k = length buff \<or> r = -1 \<and> err \<noteq> 0"
        using 1(1) [OF s [symmetric] ne c] by blast
      with w take_round [OF k(1), of buff] show ?thesis by (intro exI [of _ k]) auto
    next
      case False
      obtain e b n2 where g: "sslErrorGet sys ssl c SOCK_EVENT_TYPE_NONE n1 = (e, b, n2)" by (metis prod_cases3)
      from step ne False g have "r = -1" "err = e" "n' = n2" by auto
      with sslErrorGet_spec [OF g] w False 1(2) show ?thesis by (intro exI [of _ wc]) auto
    qed
  qed
qed

text \<open>When every write is a whole write, a failed send has sent nothing.\<close>

lemma ssl_send_whole:
  assumes "buff \<noteq> []" and "ssl_send_loop (whole_writes sys) ssl buff 0 n = (r, bo, err, n')" and "r \<le> 0"
  shows "wire_out n' = wire_out n"
proof -
  let ?sys = "whole_writes sys"
  obtain c n1 where s: "SSL_write ?sys ssl buff (clear_queue ?sys n) = (c, n1)" by fastforce
  have c: "c > 0 \<Longrightarrow> c = int (length buff)"
    using s unfolding SSL_write_def whole_writes_def Let_def
    by (cases "ssl_write sys ssl buff (kernel (clear_queue (whole_writes sys) n))")
      (auto simp: whole_writes_def min_def split: if_splits)
  note step = assms(2) [unfolded ssl_send_loop.simps [of ?sys ssl buff 0 n] drop_0 s prod.case]
  show ?thesis
  proof (cases "c > 0")
    case True
    with c step assms(1,3) show ?thesis by simp
  next
    case False
    obtain e b n2 where g: "sslErrorGet ?sys ssl c SOCK_EVENT_TYPE_NONE n1 = (e, b, n2)" by (metis prod_cases3)
    from step False g assms(1) have "n' = n2" by (auto split: if_splits)
    with sslErrorGet_spec [OF g] SSL_write_wire [OF s] False show ?thesis by simp
  qed
qed

lemma socketSend_cases:
  assumes "socketSend sys buff bo sn = (r, bo', err, sn')" and "buff \<noteq> []"
  obtains s n n' where "sn = (s, n)" "sn' = (s, n')" "ssl_conn s = None"
      "clear_send_loop sys (number s) buff 0 n = (r, bo', err, n')"
  | s n n' ssl where "sn = (s, n)" "sn' = (s, n')" "ssl_conn s = Some ssl"
      "ssl_send_loop sys ssl buff 0 n = (r, bo', err, n')"
proof -
  obtain s n where sn: "sn = (s, n)" by fastforce
  show ?thesis
  proof (cases "ssl_conn s")
    case None
    obtain r1 b1 e1 n1 where c: "clear_send_loop sys (number s) buff 0 n = (r1, b1, e1, n1)" by (metis prod_cases4)
    with assms sn None have "r1 = r" "b1 = bo'" "e1 = err" "sn' = (s, n1)" by (auto simp: socketSend_def clearSend_def)
    with that(1) [OF sn _ None] c show ?thesis by simp
  next
    case (Some ssl)
    obtain r1 b1 e1 n1 where c: "ssl_send_loop sys ssl buff 0 n = (r1, b1, e1, n1)" by (metis prod_cases4)
    with assms sn Some have "r1 = r" "b1 = bo'" "e1 = err" "sn' = (s, n1)" by (auto simp: socketSend_def sslSend_def)
    with that(2) [OF sn _ Some] c show ?thesis by simp
  qed
qed

lemma socketSend_nothing: "socketSend sys [] bo sn = (r, bo', err, sn') \<longleftrightarrow> r = 0 \<and> bo' = bo \<and> err = 0 \<and> sn' = sn"
  by (cases sn) (auto simp: socketSend_def)

definition sent_part :: "'w net \<Rightarrow> 'w net \<Rightarrow> byte list \<Rightarrow> int \<Rightarrow> errno \<Rightarrow> bool" where
  "sent_part n n' buff r err \<longleftrightarrow> r \<le> int (length buff) \<and> wire_in n' = wire_in n \<and>
     (\<exists>k \<le> length buff. wire_out n' = wire_out n @ take k buff \<and> (r > 0 \<longrightarrow> k = nat r)) \<and> (r \<le> 0 \<longrightarrow> err \<noteq> 0)"

lemma clear_send_part:
  assumes "buff \<noteq> []" and "clear_send_loop sys fd buff 0 n = (r, bo, err, n')"
  shows "sent_part n n' buff r err \<and> (r \<le> 0 \<longrightarrow> wire_out n' = wire_out n)"
proof -
  from clear_send_law [OF _ assms(2)] assms(1) obtain k where k: "k \<le> length buff"
    "wire_out n' = wire_out n @ take k buff" "wire_in n' = wire_in n"
    "r > 0 \<and> k = nat r \<or> r = -1 \<and> k = 0 \<and> err \<noteq> 0" by auto
  then have "r \<le> int (length buff)" by auto
  with k show ?thesis unfolding sent_part_def by (intro conjI exI [of _ k]) auto
qed

lemma ssl_send_part:
  assumes "buff \<noteq> []" and "ssl_send_loop sys ssl buff 0 n = (r, bo, err, n')"
  shows "sent_part n n' buff r err"
proof -
  from ssl_send_law [OF _ assms(2)] assms(1) obtain k where k: "k \<le> length buff"
    "wire_out n' = wire_out n @ take k buff" "wire_in n' = wire_in n"
    "r > 0 \<and> k = nat r \<and> k = length buff \<or> r = -1 \<and> err \<noteq> 0" by auto
  then have "r \<le> int (length buff)" by auto
  with k show ?thesis unfolding sent_part_def by (intro conjI exI [of _ k]) auto
qed

lemma socketSend_part:
  assumes "socketSend sys buff bo sn = (r, bo', err, sn')" and "buff \<noteq> []"
  shows "sent_part (snd sn) (snd sn') buff r err \<and> fst sn' = fst sn"
  using assms by (cases rule: socketSend_cases)
    (use assms(2) clear_send_part ssl_send_part in fastforce)+

lemma socketSend_exact:
  assumes "socketSend (whole_writes sys) buff bo sn = (r, bo', err, sn')" and "r \<le> 0"
  shows "wire_out (snd sn') = wire_out (snd sn)"
proof (cases "buff = []")
  case True
  with assms show ?thesis by (simp add: socketSend_nothing)
next
  case False
  from assms(1) this assms(2) show ?thesis
    by (cases rule: socketSend_cases) (use False clear_send_part ssl_send_whole in fastforce)+
qed

section \<open>What comes in\<close>

definition got_part :: "'w net \<Rightarrow> nat \<Rightarrow> byte list \<times> SocketEventType \<times> errno \<times> 'w net \<Rightarrow> bool" where
  "got_part n len r \<longleftrightarrow> (case r of (bytes, bo, err, n') \<Rightarrow>
     length bytes \<le> len \<and> wire_out n' = wire_out n \<and> wire_in n' = wire_in n @ bytes)"

lemma wait_readable_wire:
  assumes "sockWaitForReadable sys fd t n = Some (err, n')"
  shows "wire_out n' = wire_out n \<and> wire_in n' = wire_in n"
proof -
  let ?P = "\<lambda>n r. wire_out (snd r) = wire_out n \<and> wire_in (snd r) = wire_in n"
  have "?P n r" if "sockWaitForReadable sys fd t n = Some r" for r
    using that
  proof (rule sockWaitForReadable.raw_induct [rotated, where P = "\<lambda>sys fd t n r. ?P n r"], goal_cases)
    case (1 f sys fd t n r)
    obtain c v e n1 where k: "in_kernel (sys_poll sys fd (POLLIN OR POLLPRI) t) n = ((c, v, e), n1)" by (metis surj_pair)
    note w = in_kernel_wire [OF k]
    have "snd r = n \<or> snd r = n1 \<or> f sys fd t n1 = Some r" using 1(2) unfolding k by (auto split: if_splits)
    with 1(1) w show ?case by fastforce
  qed
  from this [OF assms] show ?thesis by simp
qed

lemma wait_writable_wire:
  "sockWaitForWritable sys fd t n = (err, n') \<Longrightarrow> wire_out n' = wire_out n \<and> wire_in n' = wire_in n"
  by (auto simp: sockWaitForWritable_def dest: in_kernel_wire split: prod.splits)

lemma XplIpRecv_wire:
  assumes "XplIpRecv sys fd len n = (bytes, err, n')"
  shows "wire_out n' = wire_out n \<and>
    (case bytes of None \<Rightarrow> wire_in n' = wire_in n | Some b \<Rightarrow> length b \<le> len \<and> wire_in n' = wire_in n @ b)"
  using assms by (auto simp: XplIpRecv_def split: prod.splits option.splits)

lemma SSL_read_wire:
  "SSL_read sys ssl len n = (bytes, ret, n') \<Longrightarrow>
     length bytes \<le> len \<and> wire_out n' = wire_out n \<and> wire_in n' = wire_in n @ bytes"
  by (auto simp: SSL_read_def split: prod.splits)

lemma got_part_step:
  "got_part n1 len r \<Longrightarrow> wire_out n1 = wire_out n \<Longrightarrow> wire_in n1 = wire_in n \<Longrightarrow> got_part n len r"
  by (simp add: got_part_def split: prod.splits)

lemma clear_receive_part:
  assumes "clear_receive_loop sys fd len t bo n = Some r"
  shows "got_part n len r"
  using assms
proof (rule clear_receive_loop.raw_induct [rotated, where P = "\<lambda>sys fd len t bo n r. got_part n len r"], goal_cases)
  case (1 f sys fd len t bo n r)
  obtain b e n1 where x: "XplIpRecv sys fd len n = (b, e, n1)" by (metis prod_cases3)
  note w = XplIpRecv_wire [OF x]
  note step = 1(2) [unfolded x prod.case]
  show ?case
  proof (cases b)
    case (Some bytes)
    with step w show ?thesis by (auto simp: got_part_def split: if_splits)
  next
    case None
    with w have w1: "wire_out n1 = wire_out n" "wire_in n1 = wire_in n" by auto
    show ?thesis
    proof (cases "e = EINTR")
      case True
      with step None have "f sys fd len t bo n1 = Some r" by simp
      from got_part_step [OF 1(1) [OF this] w1] show ?thesis .
    next
      case False
      show ?thesis
      proof (cases "e \<noteq> EWOULDBLOCK \<or> t = None")
        case True
        with step None False w1 show ?thesis by (auto simp: got_part_def split: if_splits)
      next
        case blk: False
        with step None False obtain we n2 where
          wt: "sockWaitForReadable sys fd (the t) n1 = Some (we, n2)" by (auto split: Option.bind_splits)
        note w2 = wait_readable_wire [OF wt]
        from step None False blk wt have "r = ([], SOCK_EVENT_TYPE_READABLE, we, n2) \<or>
            f sys fd len t SOCK_EVENT_TYPE_READABLE n2 = Some r" by (auto split: if_splits)
        then show ?thesis
        proof
          assume "r = ([], SOCK_EVENT_TYPE_READABLE, we, n2)"
          with w1 w2 show ?thesis by (simp add: got_part_def)
        next
          assume "f sys fd len t SOCK_EVENT_TYPE_READABLE n2 = Some r"
          from got_part_step [OF 1(1) [OF this]] w1 w2 show ?thesis by simp
        qed
      qed
    qed
  qed
qed

lemma ssl_receive_part:
  assumes "ssl_receive_loop sys fd ssl len t bo n = Some r"
  shows "got_part n len r"
  using assms
proof (rule ssl_receive_loop.raw_induct [rotated, where P = "\<lambda>sys fd ssl len t bo n r. got_part n len r"], goal_cases)
  case (1 f sys fd ssl len t bo n r)
  obtain b ret n1 where x: "SSL_read sys ssl len (clear_queue sys n) = (b, ret, n1)" by (metis prod_cases3)
  obtain e bo1 n2 where g: "sslErrorGet sys ssl ret bo n1 = (e, bo1, n2)" by (metis prod_cases3)
  note w = SSL_read_wire [OF x] sslErrorGet_spec [OF g]
  note step = 1(2) [unfolded x prod.case g]
  show ?case
  proof (cases "b = [] \<and> e = EWOULDBLOCK \<and> t \<noteq> None")
    case False
    with step w show ?thesis by (auto simp: got_part_def split: if_splits)
  next
    case True
    with w have w1: "wire_out n2 = wire_out n" "wire_in n2 = wire_in n" by auto
    from True step obtain we n3 where
      wt: "(if bo1 = SOCK_EVENT_TYPE_READABLE then sockWaitForReadable sys fd (the t) n2
            else Some (sockWaitForWritable sys fd (the t) n2)) = Some (we, n3)"
      by (auto split: Option.bind_splits)
    then have w3: "wire_out n3 = wire_out n2 \<and> wire_in n3 = wire_in n2"
      by (cases "bo1 = SOCK_EVENT_TYPE_READABLE") (auto dest: wait_readable_wire wait_writable_wire)
    from step True have "(if we = 0 then f sys fd ssl len t bo1 n3 else Some ([], bo1, we, n3)) = Some r"
      unfolding wt by simp
    then have "r = ([], bo1, we, n3) \<or> f sys fd ssl len t bo1 n3 = Some r" by (auto split: if_splits)
    then show ?thesis
    proof
      assume "r = ([], bo1, we, n3)"
      with w1 w3 show ?thesis by (simp add: got_part_def)
    next
      assume "f sys fd ssl len t bo1 n3 = Some r"
      from got_part_step [OF 1(1) [OF this]] w1 w3 show ?thesis by simp
    qed
  qed
qed

lemma socketReceive_law:
  assumes "socketReceive sys len t bo sn = Some (bytes, bo', err, sn')"
  shows "length bytes \<le> len \<and> wire_out (snd sn') = wire_out (snd sn) \<and>
    wire_in (snd sn') = wire_in (snd sn) @ bytes \<and> fst sn' = fst sn"
proof (cases "len = 0")
  case True
  with assms show ?thesis by (cases sn) (auto simp: socketReceive_def)
next
  case False
  obtain s n where sn: "sn = (s, n)" by fastforce
  let ?r = "case ssl_conn s of None \<Rightarrow> clearReceive sys (number s) len t n
    | Some ssl \<Rightarrow> sslReceive sys (number s) ssl len t n"
  from assms False sn obtain n' where r: "?r = Some (bytes, bo', err, n')" "sn' = (s, n')"
    by (auto simp: socketReceive_def)
  have "got_part n len (bytes, bo', err, n')"
    using r(1) by (auto simp: clearReceive_def sslReceive_def split: option.splits
        intro: clear_receive_part ssl_receive_part)
  with r(2) sn show ?thesis by (simp add: got_part_def)
qed

section \<open>The contracts\<close>

lemma unix_send [simp]: "SocketSend (unix_sock_ops sys src ce) buff bo sn = Some (socketSend sys buff bo sn)"
  and unix_receive [simp]: "SocketReceive (unix_sock_ops sys src ce) len bo sn = socketReceive sys len None bo sn"
  by (simp_all add: unix_sock_ops_def)

interpretation unixio: socket_io "unix_sock_ops sys src ce" "\<lambda>sn. wire_out (snd sn)" "\<lambda>sn. wire_in (snd sn)"
  for sys :: "'w sys_ops" and src ce
proof
  fix buff bo and sn sn' :: "'w io" and n bo' err
  assume "SocketSend (unix_sock_ops sys src ce) buff bo sn = Some (n, bo', err, sn')"
  then have s: "socketSend sys buff bo sn = (n, bo', err, sn')" by simp
  have part: "buff \<noteq> [] \<Longrightarrow> sent_part (snd sn) (snd sn') buff n err" using socketSend_part [OF s] by simp
  show "n \<le> int (length buff) \<and> wire_in (snd sn') = wire_in (snd sn) \<and>
      (\<exists>k \<le> length buff. wire_out (snd sn') = wire_out (snd sn) @ take k buff \<and> (n > 0 \<longrightarrow> k = nat n))"
    using part s by (cases "buff = []") (auto simp: sent_part_def socketSend_nothing)
  assume "buff \<noteq> []" "n \<le> 0"
  with part show "err \<noteq> 0" by (simp add: sent_part_def)
next
  fix len bo and sn sn' :: "'w io" and bytes bo' err
  assume "SocketReceive (unix_sock_ops sys src ce) len bo sn = Some (bytes, bo', err, sn')"
  then show "length bytes \<le> len \<and> wire_out (snd sn') = wire_out (snd sn) \<and> wire_in (snd sn') = wire_in (snd sn) @ bytes"
    using socketReceive_law by fastforce
qed

interpretation unixx: exact_socket_io "unix_sock_ops (whole_writes sys) src ce"
    "\<lambda>sn. wire_out (snd sn)" "\<lambda>sn. wire_in (snd sn)"
  for sys :: "'w sys_ops" and src ce
  by unfold_locales (use socketSend_exact in fastforce)

end
