(* ===== verification/ProcessProps.thy ===== *)
theory ProcessProps
  imports SockIO Instances
begin

unbundle bit_operations_syntax

text \<open>
  What the work on an event does to the bytes of a connection, on the socket layer of
  \<^verbatim>\<open>sockcommon.c\<close> and \<^verbatim>\<open>sockunix.c\<close>: the properties of \<^verbatim>\<open>process.c\<close>.
\<close>

section \<open>Sending always returns\<close>

lemma flush_returns:
  assumes iob: "iob_ok norm contents (iob env)" and sk: "sock env = unix_sock_ops sys src ce"
  shows "flushSendBuffer env bo p \<noteq> None"
proof (induction "length (contents (pbuf p))" arbitrary: bo p rule: less_induct)
  case less
  show ?case
  proof (cases "used env p = []")
    case True
    then show ?thesis by (subst flushSendBuffer.simps) simp
  next
    case False
    obtain n b1 e1 s where s: "socketSend sys (used env p) bo (psock p) = (n, b1, e1, s)" by (metis prod_cases4)
    let ?p1 = "if n > 0 then mark_free env (nat n) (p\<lparr>psock := s\<rparr>) else p\<lparr>psock := s\<rparr>"
    have "flushSendBuffer env b1 ?p1 \<noteq> None" if n: "n = int (length (used env p))"
    proof (rule less)
      have "nat n > 0" "nat n \<le> length (contents (pbuf p))"
        using False n iob_used_take(2) [OF iob, of "pbuf p"] by auto
      then show "length (contents (pbuf ?p1)) < length (contents (pbuf p))"
        by (simp add: iob_mark_free [OF iob])
    qed
    with False s show ?thesis by (subst flushSendBuffer.simps) (auto simp: Let_def sk)
  qed
qed

text \<open>
  \<open>send_reports sys\<close>: \<^verbatim>\<open>send()\<close> of at least one byte is never 0, and has an errno when it fails.
\<close>

definition send_reports :: "'w sys_ops \<Rightarrow> bool" where
  "send_reports sys \<longleftrightarrow>
     (\<forall>fd buff w. buff \<noteq> [] \<longrightarrow> (case sys_send sys fd buff w of (c, err, _) \<Rightarrow> c > 0 \<or> c < 0 \<and> err \<noteq> 0))"

lemma clear_send_short:
  "send_reports sys \<Longrightarrow> wc < length buff \<Longrightarrow> clear_send_loop sys fd buff wc n = (r, bo, err, n') \<Longrightarrow>
     r < int (length buff) \<Longrightarrow> err \<noteq> 0"
proof (induction sys fd buff wc n rule: clear_send_loop.induct)
  case (1 sys fd buff wc n)
  obtain c e n1 where s: "XplIpSend sys fd (drop wc buff) n = (c, e, n1)" by (metis prod_cases3)
  note step = 1(4) [unfolded clear_send_loop.simps [of sys fd buff wc n] s prod.case]
  obtain c0 e0 w0 where s0: "sys_send sys fd (drop wc buff) (kernel n) = (c0, e0, w0)" by (metis prod_cases3)
  have ce: "c = min c0 (int (length buff - wc))" "e = e0"
    using s by (simp_all add: XplIpSend_def s0 Let_def)
  have rep: "c0 > 0 \<or> c0 < 0 \<and> e0 \<noteq> 0"
    using 1(2) [unfolded send_reports_def, rule_format, of "drop wc buff" fd "kernel n"] 1(3) s0 by simp
  show ?case
  proof (cases "c > 0")
    case False
    then have "e \<noteq> 0" using ce rep 1(3) by (auto simp: min_def split: if_splits)
    with step False show ?thesis by (auto simp: Let_def split: if_splits)
  next
    case c: True
    show ?thesis
    proof (cases "wc + nat c \<ge> length buff")
      case True
      with step c 1(5) show ?thesis by auto
    next
      case False
      with step c have "clear_send_loop sys fd buff (wc + nat c) n1 = (r, bo, err, n')" by simp
      from 1(1) [OF s [symmetric] refl c False 1(2) _ this 1(5)] False show ?thesis by simp
    qed
  qed
qed

lemma socketSend_short:
  assumes "send_reports sys" and "socketSend sys buff bo sn = (r, bo', err, sn')" and "buff \<noteq> []"
    and "r < int (length buff)"
  shows "err \<noteq> 0"
  using assms(2,3)
proof (cases rule: socketSend_cases)
  case (1 s n n')
  then show ?thesis using clear_send_short [OF assms(1) _ 1(4) assms(4)] assms(3) by simp
next
  case (2 s n n' ssl)
  with ssl_send_law [OF _ 2(4)] assms(3,4) show ?thesis by auto
qed

lemma send_reports_whole [simp]: "send_reports (whole_writes sys) = send_reports sys"
  by (simp add: send_reports_def whole_writes_def)

lemma flush_success:
  assumes "iob_ok norm contents (iob env)" and "sock env = unix_sock_ops sys src ce" and "send_reports sys"
    and "flushSendBuffer env bo p = Some (0, bo', q)"
  shows "contents (pbuf q) = []"
proof -
  let ?Q = "\<lambda>env. iob_ok norm contents (iob env) \<and> sock env = unix_sock_ops sys src ce"
  have "?Q env \<longrightarrow> fst r = 0 \<longrightarrow> contents (pbuf (snd (snd r))) = []" if "flushSendBuffer env bo p = Some r" for r
    using that
  proof (rule flushSendBuffer.raw_induct [rotated, where
        P = "\<lambda>env bo p r. ?Q env \<longrightarrow> fst r = 0 \<longrightarrow> contents (pbuf (snd (snd r))) = []"], goal_cases)
    case (1 f env bo p r)
    show ?case
    proof (intro impI)
      assume A: "?Q env" and r0: "fst r = 0"
      show "contents (pbuf (snd (snd r))) = []"
      proof (cases "used env p = []")
        case True
        with 1(2) A iob_used_empty [of norm contents "iob env" "pbuf p"] show ?thesis by auto
      next
        case False
        obtain n b1 e1 s where s: "socketSend sys (used env p) bo (psock p) = (n, b1, e1, s)" by (metis prod_cases4)
        have le: "n \<le> int (length (used env p))" using socketSend_part [OF s False] by (simp add: sent_part_def)
        let ?p1 = "if n > 0 then mark_free env (nat n) (p\<lparr>psock := s\<rparr>) else p\<lparr>psock := s\<rparr>"
        show ?thesis
        proof (cases "n = int (length (used env p))")
          case True
          with 1(2) False A s have "f env b1 ?p1 = Some r" by (auto simp: Let_def)
          from 1(1) [OF this] A r0 show ?thesis by blast
        next
          case short: False
          with le have "e1 \<noteq> 0" using socketSend_short [OF assms(3) s False] by simp
          with 1(2) False A s short r0 show ?thesis by (auto simp: Let_def)
        qed
      qed
    qed
  qed
  from this [OF assms(4)] assms show ?thesis by simp
qed

lemma client_returns:
  assumes sk: "sock env = unix_sock_ops sys src ce"
  shows "sendFromClientBuffer env bo p \<noteq> None"
proof (induction "cb_remaining (pe p)" arbitrary: bo p rule: less_induct)
  case less
  obtain n b1 e1 s where s: "socketSend sys (take (cb_remaining (pe p)) (cb_read (pe p))) bo (psock p) = (n, b1, e1, s)"
    by (metis prod_cases4)
  have "sendFromClientBuffer env b1 (on_event (\<lambda>e. e\<lparr>cb_remaining := cb_remaining e - nat n,
          cb_read := drop (nat n) (cb_read e)\<rparr>) (p\<lparr>psock := s\<rparr>)) \<noteq> None" if "n > 0" "cb_remaining (pe p) > 0"
    using that by (intro less) simp
  with s show ?case by (subst sendFromClientBuffer.simps) (auto simp: sk)
qed

section \<open>How an event ends\<close>

text \<open>An event that is done was completed, was aborted with an error, or is in the engine.\<close>

definition outcome ::
    "('b, 's) penv \<Rightarrow> ('b, 's) pst \<Rightarrow> ConnEventStatus \<times> ('b, 's) pst \<Rightarrow> bool" where
  "outcome env p r \<longleftrightarrow>
     (\<exists>p'. pframe p p' \<and>
        (r = (CONN_EVENT_COMPLETE, socketEventComplete env p') \<or>
         ce_error (pe p') \<noteq> 0 \<and> abort_event env p' = r)) \<or>
     fst r = CONN_EVENT_IN_PROGRESS \<and> ce_mode (pe p) = CONN_EVENT_MODE_ASYNCHRONOUS"

lemma outcome_frame: "pframe p p1 \<Longrightarrow> outcome env p1 r \<Longrightarrow> outcome env p r"
  unfolding outcome_def by (auto simp: pframe_def)

lemma abort_outcome: "pframe p p' \<Longrightarrow> ce_error (pe p') \<noteq> 0 \<Longrightarrow> outcome env p (abort_event env p')"
  unfolding outcome_def by blast

lemma event_attempts_outcome:
  assumes "event_attempts env prob bo p = Some r"
  shows "outcome env p r"
  using assms
proof (rule event_attempts.raw_induct [rotated, where P = "\<lambda>env prob bo p r. outcome env p r"], goal_cases)
  case (1 f env prob bo p r)
  from 1(2) obtain err b1 p1 where p1: "socketEventProcess env bo p = Some (err, b1, p1)"
    by (auto split: Option.bind_splits)
  have fr: "pframe p p1" using p1 by (rule socketEventProcess_frame)
  have ab: "outcome env p (abort_event env (set_error z p1))"
    "outcome env p (abort_event env (set_error z (p1\<lparr>psock := y\<rparr>)))"
    "outcome env p (abort_event env (set_error z (set_status x ((set_status x' p1)\<lparr>psock := y\<rparr>))))"
    if "z \<noteq> 0" for x x' y z
    using that fr by (auto intro!: abort_outcome simp: set_error_def set_status_def pframe_def)
  have st: "outcome env p r" if "f env prob b2 (set_status x (p1\<lparr>psock := y\<rparr>)) = Some r" for b2 x y
    using 1(1) [OF that] by (rule outcome_frame [rotated]) (use fr in \<open>simp add: set_status_def pframe_def\<close>)
  have fin: "outcome env p (CONN_EVENT_COMPLETE, socketEventComplete env p1)"
    unfolding outcome_def using fr by blast
  have inpr: "outcome env p (CONN_EVENT_IN_PROGRESS, q)"
    if "ce_mode (pe p1) \<noteq> CONN_EVENT_MODE_SYNCHRONOUS_NON_BLOCKING" "ce_mode (pe p1) \<noteq> CONN_EVENT_MODE_SYNCHRONOUS" for q
    using that fr unfolding outcome_def by (cases "ce_mode (pe p)") (auto simp: pframe_def)
  show ?case
    using 1(2) p1 ab st fin inpr
    by (auto simp: Let_def split: if_splits Option.bind_splits prod.splits)
qed

lemma EventProcess_outcome:
  "EventProcess env prob p = Some r \<Longrightarrow> outcome env p r"
  by (auto simp: EventProcess_def intro: event_attempts_outcome abort_outcome split: if_splits)

lemma abort_number:
  assumes "sock env = unix_sock_ops sys src ce" and "abort_event env p = (st, q)"
  shows "ce_type (pe p) \<in> {CONN_EVENT_CONNECT, CONN_EVENT_DISCONNECT} \<Longrightarrow> number (fst (psock q)) = SOCKET_INVALID"
    and "ce_type (pe p) \<in> {CONN_EVENT_SSL_ACCEPT, CONN_EVENT_TLS_ACCEPT, CONN_EVENT_SSL_CONNECT,
        CONN_EVENT_TLS_CONNECT, CONN_EVENT_SSL_DISCONNECT} \<Longrightarrow>
      ssl_conn (fst (psock q)) = None \<and> ssl_new (fst (psock q)) = None"
  using assms
  by (auto simp: abort_event_def socketEventAbort_def Let_def unix_sock_ops_def SocketConnectAbort_unix_def
      socketClose_def SocketSSLAbort_unix_def split: prod.splits if_splits)

lemma complete_number:
  assumes "sock env = unix_sock_ops sys src ce" and "ce_type (pe p) = CONN_EVENT_DISCONNECT"
  shows "number (fst (psock (socketEventComplete env p))) = SOCKET_INVALID"
  using assms
  by (auto simp: socketEventComplete_def unix_sock_ops_def SocketDisconnectFinish_unix_def
      socketClose_def split: prod.splits)

section \<open>A kernel and an event to try things on\<close>

text \<open>
  The world is what will arrive on the wire.  \<^verbatim>\<open>send()\<close> takes two bytes at a time; nothing else
  ever becomes ready.
\<close>

definition demo_sys :: "byte list sys_ops" where
  "demo_sys = \<lparr>
     sys_socket = (\<lambda>w. ((4, 0), w)), sys_bind = (\<lambda>_ w. (0, w)), sys_nonblocking = (\<lambda>_ w. (0, w)),
     sys_nodelay = (\<lambda>_ w. (0, w)), sys_connect = (\<lambda>_ w. (111, w)), sys_shutdown = (\<lambda>_ w. (0, w)),
     sys_close = (\<lambda>_ w. (0, w)), sys_send = (\<lambda>_ _ w. (2, 0, w)),
     sys_recv = (\<lambda>_ len w. if w = [] then (None, EWOULDBLOCK, w) else (Some (take len w), 0, drop len w)),
     sys_poll = (\<lambda>_ _ _ w. ((0, 0, 0), w)), sys_epoll_add = (\<lambda>_ _ w. (0, w)),
     ssl_alloc = (\<lambda>_ _ w. (Some 1, w)), ssl_bio = (\<lambda>_ _ w. (True, w)), ssl_release = (\<lambda>_ w. ((), w)),
     ssl_accept = (\<lambda>_ w. (1, w)), ssl_connect = (\<lambda>_ w. (1, w)), ssl_shutdown = (\<lambda>_ w. (1, w)),
     ssl_read = (\<lambda>_ _ w. ([], -1, w)), ssl_write = (\<lambda>_ _ w. (-1, w)),
     ssl_get_error = (\<lambda>_ _ _. 6), err_queue = (\<lambda>w. ([], w))\<rparr>"

definition demo_env :: "(byte list, byte list io) penv" where
  "demo_env = \<lparr>iob = list_iob 8, sock = unix_sock_ops (whole_writes demo_sys) False 5,
     write_cb = (\<lambda>_ s. (CONN_IOCBR_ERROR, 0, (\<lambda>_. 0), EIO, s)),
     read_cb = (\<lambda>_ s. (CONN_IOCBR_ERROR, 0, s)), conn_write = (\<lambda>_ s. (0, EIO, s))\<rparr>"

definition demo_pst :: "byte list ConnEvent \<Rightarrow> byte list \<Rightarrow> byte list \<Rightarrow> (byte list, byte list io) pst" where
  "demo_pst e buff arriving =
     \<lparr>pe = e, pbuf = buff, psock = (idle_SOCK 4, \<lparr>kernel = arriving, wire_out = [], wire_in = []\<rparr>)\<rparr>"

lemma demo_facts [simp]:
  "iob demo_env = list_iob 8" "sock demo_env = unix_sock_ops (whole_writes demo_sys) False 5"
  "iob_ok id id (list_iob 8)" "send_reports demo_sys"
  "pe (demo_pst e b w) = e" "pbuf (demo_pst e b w) = b"
  by (simp_all add: demo_env_def list_iob_ok send_reports_def demo_sys_def demo_pst_def)

definition demo_read :: "ConnEventType \<Rightarrow> nat \<Rightarrow> byte list ConnEvent" where
  "demo_read t n = (ev_of t)\<lparr>ce_dataMode := CONN_READ_COPY OR CONN_READ_DELETE, cb_remaining := n\<rparr>"

lemma conditional_step:
  "SatisfyEvent env p = (ECONNMOREDATA, p1) \<Longrightarrow> fillRecvBuffer env bo p1 = Some (0, bo1, p2) \<Longrightarrow>
     conditionalReadProcess env bo p = conditionalReadProcess env bo1 p2"
  by (subst conditionalReadProcess.simps) simp

lemma conditional_stop:
  "SatisfyEvent env p = (err, p1) \<Longrightarrow> err \<noteq> ECONNMOREDATA \<Longrightarrow>
     conditionalReadProcess env bo p = Some (err, bo, p1)"
  by (subst conditionalReadProcess.simps) simp

lemmas demo_eval = SatisfyEvent_def EventConditionSatisfied_def movePartialConditionalDataToClient_def
  moveFinalConditionalDataToClient_def CopyBufferedDataToClient_def mark_free_def on_event_def
  demo_env_def demo_pst_def demo_read_def ev_of_def ConnEventInit_def list_iob_def has_def Let_def idle_SOCK_def
  is_read_event_def is_send_event_def

text \<open>Two bytes are in the buffer and two of the three that arrive are still needed.\<close>

lemma demo_counted_read:
  "\<exists>bo e w. conditionalReadProcess demo_env SOCK_EVENT_TYPE_NONE
      (demo_pst (demo_read CONN_EVENT_READ_COUNT 4) [5, 6] [7, 8, 9]) =
    Some (0, bo, \<lparr>pe = e, pbuf = [9], psock = w\<rparr>) \<and> cb_written e = [5, 6, 7, 8] \<and> wire_in (snd w) = [7, 8, 9]"
  apply (intro exI conjI)
    apply (rule trans, rule conditional_step)
      apply (simp add: demo_eval)
     apply (simp add: demo_eval fillRecvBuffer_def unix_sock_ops_def socketReceive_def clearReceive_def)
     apply (subst clear_receive_loop.simps)
     apply (simp add: XplIpRecv_def demo_sys_def whole_writes_def)
    apply (rule trans, rule conditional_stop)
      apply (simp add: demo_eval)
     apply simp
    apply simp
   apply simp_all
  done

section \<open>Properties\<close>

text \<open>
  C4. Flushing a send buffer always returns.  No byte is lost, sent twice or out of order: what is
  on the wire followed by what is still in the buffer is the same before and after, also when it
  fails half way; and when it reports success the buffer is empty.  (\<open>send_reports\<close>: \<^verbatim>\<open>send()\<close> is
  never 0 and has an errno when it fails.)
\<close>

theorem flush_sends_each_byte_once:
  assumes "iob_ok norm contents (iob env)" and "sock env = unix_sock_ops (whole_writes sys) src ce"
    and "send_reports sys"
  shows "\<exists>err bo' q. flushSendBuffer env bo p = Some (err, bo', q) \<and>
    wire_out (snd (psock q)) @ contents (pbuf q) = wire_out (snd (psock p)) @ contents (pbuf p) \<and>
    wire_in (snd (psock q)) = wire_in (snd (psock p)) \<and>
    (err = 0 \<longrightarrow> contents (pbuf q) = []) \<and> pe q = pe p"
proof -
  from flush_returns [OF assms(1,2), of bo p] obtain err bo' q where
    f: "flushSendBuffer env bo p = Some (err, bo', q)" by auto
  with unixx.flush_stream [OF assms(1,2) f] flush_success [OF assms(1,2), of bo p bo' q] flush_pe [OF f] assms(3)
  show ?thesis by auto
qed

theorem flush_sends_each_byte_once_witness:
  "\<exists>err bo' q. flushSendBuffer demo_env SOCK_EVENT_TYPE_NONE (demo_pst (ev_of CONN_EVENT_FLUSH) [7, 8, 9] []) = Some (err, bo', q) \<and>
     wire_out (snd (psock q)) @ pbuf q = [7, 8, 9] \<and> (err = 0 \<longrightarrow> pbuf q = [])"
  using flush_sends_each_byte_once [of id id demo_env demo_sys False 5 SOCK_EVENT_TYPE_NONE
      "demo_pst (ev_of CONN_EVENT_FLUSH) [7, 8, 9] []"]
  by (auto simp: demo_pst_def)

text \<open>
  Writing from the client's own buffer always returns; the bytes go out in order and once,
  whatever short counts and errors happen; success means that all of them went out.
\<close>

theorem client_buffer_sent_in_order:
  assumes "sock env = unix_sock_ops (whole_writes sys) src ce"
    and "cb_remaining (pe p) \<le> length (cb_read (pe p))"
  shows "\<exists>err bo' q. sendFromClientBuffer env bo p = Some (err, bo', q) \<and>
    wire_out (snd (psock q)) @ take (cb_remaining (pe q)) (cb_read (pe q)) =
      wire_out (snd (psock p)) @ take (cb_remaining (pe p)) (cb_read (pe p)) \<and>
    (err = 0 \<longrightarrow> cb_remaining (pe q) = 0)"
proof -
  from client_returns [OF assms(1), of bo p] obtain err bo' q where
    f: "sendFromClientBuffer env bo p = Some (err, bo', q)" by auto
  from unixx.client_stream [OF assms(1) f assms(2)] f show ?thesis by blast
qed

theorem client_buffer_sent_in_order_witness:
  "\<exists>err bo' q. sendFromClientBuffer demo_env SOCK_EVENT_TYPE_NONE
      (demo_pst ((ev_of CONN_EVENT_WRITE_FROM_CLIENT_BUFFER)\<lparr>cb_remaining := 3, cb_read := [7, 8, 9]\<rparr>) [] []) = Some (err, bo', q) \<and>
     wire_out (snd (psock q)) @ take (cb_remaining (pe q)) (cb_read (pe q)) = [7, 8, 9]"
  using client_buffer_sent_in_order [of demo_env demo_sys False 5
      "demo_pst ((ev_of CONN_EVENT_WRITE_FROM_CLIENT_BUFFER)\<lparr>cb_remaining := 3, cb_read := [7, 8, 9]\<rparr>) [] []"
      SOCK_EVENT_TYPE_NONE]
  by (auto simp: demo_pst_def)

text \<open>
  C3. A read that copies and deletes hands the client exactly the bytes of the connection, in the
  order in which they arrived: what the client has, a pattern it did not ask for, and what is left
  in the receive buffer make up what was there before and what came from the wire meanwhile (up to
  the NULs that \<^verbatim>\<open>SEARCH_REPLACE_NULL\<close> replaces).  Nothing is dropped when it fails, and nothing is
  sent.
\<close>

theorem read_keeps_the_stream:
  assumes "iob_ok norm contents (iob env)" and "sock env = unix_sock_ops sys src ce"
    and "read_and_delete (pe p)" and "conditionalReadProcess env bo p = Some (err, bo', q)"
  shows "\<exists>new dropped. map norm (cb_written (pe q) @ dropped @ contents (pbuf q)) =
      map norm (cb_written (pe p) @ contents (pbuf p) @ new) \<and>
    (err \<noteq> 0 \<or> keeps_pattern (pe p) \<longrightarrow> dropped = []) \<and>
    wire_in (snd (psock q)) = wire_in (snd (psock p)) @ new \<and>
    wire_out (snd (psock q)) = wire_out (snd (psock p))"
  by (rule unixio.conditional_stream [OF assms])

theorem read_keeps_the_stream_witness:
  "\<exists>q. conditionalReadProcess demo_env SOCK_EVENT_TYPE_NONE
      (demo_pst (demo_read CONN_EVENT_READ_COUNT 4) [5, 6] [7, 8, 9]) = Some q \<and>
    (\<exists>new. cb_written (pe (snd (snd q))) @ pbuf (snd (snd q)) = [5, 6] @ new \<and> wire_in (snd (psock (snd (snd q)))) = new)"
proof -
  obtain bo e w where r: "conditionalReadProcess demo_env SOCK_EVENT_TYPE_NONE
      (demo_pst (demo_read CONN_EVENT_READ_COUNT 4) [5, 6] [7, 8, 9]) = Some (0, bo, \<lparr>pe = e, pbuf = [9], psock = w\<rparr>)"
    using demo_counted_read by blast
  have m: "read_and_delete (pe (demo_pst (demo_read CONN_EVENT_READ_COUNT 4) [5, 6] [7, 8, 9]))"
    "keeps_pattern (pe (demo_pst (demo_read CONN_EVENT_READ_COUNT 4) [5, 6] [7, 8, 9]))"
    by (simp_all add: read_and_delete_def keeps_pattern_def demo_eval)
  from read_keeps_the_stream [OF demo_facts(3) [folded demo_facts(1)] demo_facts(2) m(1) r] m(2) r show ?thesis
    by (auto simp: demo_read_def ev_of_def ConnEventInit_def demo_pst_def)
qed

text \<open>
  C15. The client's buffer is never overrun: what was stored and what is left always add up to its
  size, and a terminating NUL is only stored where a byte is left.
\<close>

theorem client_buffer_never_overrun:
  assumes "conditionalReadProcess env bo p = Some (err, bo', q)"
  shows "length (cb_written (pe q)) + cb_remaining (pe q) = length (cb_written (pe p)) + cb_remaining (pe p) \<and>
    (cb_terminated (pe q) \<longrightarrow> cb_terminated (pe p) \<or> cb_remaining (pe q) > 0)"
  using conditionalRead_fits [OF assms] by (simp add: fits_def room_def)

theorem client_buffer_never_overrun_witness:
  "\<exists>q. conditionalReadProcess demo_env SOCK_EVENT_TYPE_NONE
      (demo_pst (demo_read CONN_EVENT_READ_COUNT 4) [5, 6] [7, 8, 9]) = Some q \<and>
    length (cb_written (pe (snd (snd q)))) + cb_remaining (pe (snd (snd q))) = 4"
proof -
  obtain bo e w where r: "conditionalReadProcess demo_env SOCK_EVENT_TYPE_NONE
      (demo_pst (demo_read CONN_EVENT_READ_COUNT 4) [5, 6] [7, 8, 9]) = Some (0, bo, \<lparr>pe = e, pbuf = [9], psock = w\<rparr>)"
    using demo_counted_read by blast
  from client_buffer_never_overrun [OF r] r show ?thesis by (simp add: demo_read_def ev_of_def ConnEventInit_def)
qed

text \<open>
  A counted read that succeeds has filled the client's buffer, to the byte.
\<close>

theorem counted_read_is_exact:
  assumes "conditionalReadProcess env bo p = Some (0, bo', q)" and "ce_type (pe p) = CONN_EVENT_READ_COUNT"
    and "ce_dataMode (pe p) = CONN_READ_COPY OR CONN_READ_DELETE" and "cb_written (pe p) = []"
  shows "length (cb_written (pe q)) = cb_remaining (pe p) \<and> cb_remaining (pe q) = 0"
  using read_count_exact [OF assms(1,2)] assms(3,4) by (simp add: has_def room_def)

theorem counted_read_is_exact_witness:
  "\<exists>bo q. conditionalReadProcess demo_env SOCK_EVENT_TYPE_NONE
      (demo_pst (demo_read CONN_EVENT_READ_COUNT 4) [5, 6] [7, 8, 9]) = Some (0, bo, q) \<and>
    length (cb_written (pe q)) = 4 \<and> cb_remaining (pe q) = 0"
proof -
  obtain bo e w where r: "conditionalReadProcess demo_env SOCK_EVENT_TYPE_NONE
      (demo_pst (demo_read CONN_EVENT_READ_COUNT 4) [5, 6] [7, 8, 9]) = Some (0, bo, \<lparr>pe = e, pbuf = [9], psock = w\<rparr>)"
    using demo_counted_read by blast
  from counted_read_is_exact [OF r] r show ?thesis by (simp add: demo_read_def ev_of_def ConnEventInit_def)
qed

text \<open>
  C16. The guard against data injected before STARTTLS: when the receive buffer still holds bytes, none
  of the four handshakes is started.  The event fails with \<^verbatim>\<open>EOVERFLOW\<close>, nothing goes over the
  wire, the bytes stay where they are and no SSL state is left.
\<close>

theorem handshake_refused_on_buffered_data:
  assumes "iob_ok norm contents (iob env)" and "sock env = unix_sock_ops sys src ce"
    and "ce_type (pe p) \<in> {CONN_EVENT_SSL_ACCEPT, CONN_EVENT_TLS_ACCEPT, CONN_EVENT_SSL_CONNECT, CONN_EVENT_TLS_CONNECT}"
    and "contents (pbuf p) \<noteq> []" and "ce_error (pe p) = 0"
  shows "\<exists>q. EventProcess env prob p = Some (CONN_EVENT_FAILED, q) \<and> ce_error (pe q) = EOVERFLOW \<and>
    pbuf q = pbuf p \<and> wire_out (snd (psock q)) = wire_out (snd (psock p)) \<and>
    wire_in (snd (psock q)) = wire_in (snd (psock p)) \<and>
    ssl_conn (fst (psock q)) = None \<and> ssl_new (fst (psock q)) = None"
proof -
  let ?q = "snd (abort_event env (set_error EOVERFLOW p))"
  have "used env p \<noteq> []" using iob_used_nonempty [OF assms(1,4)] .
  then have "socketEventProcess env SOCK_EVENT_TYPE_NONE p = Some (EOVERFLOW, SOCK_EVENT_TYPE_NONE, p)"
    using assms(3) by (auto simp: socketEventProcess_def start_ssl_def Let_def)
  then have "EventProcess env prob p = Some (abort_event env (set_error EOVERFLOW p))"
    using assms(5) by (simp add: EventProcess_def, subst event_attempts.simps, simp)
  moreover have "abort_event env (set_error EOVERFLOW p) = (CONN_EVENT_FAILED, ?q)" "ce_error (pe ?q) = EOVERFLOW"
    "pbuf ?q = pbuf p"
    using assms(3) by (auto simp: abort_event_def socketEventAbort_def set_error_def Let_def)
  moreover have "wire_out (snd (psock ?q)) = wire_out (snd (psock p)) \<and> wire_in (snd (psock ?q)) = wire_in (snd (psock p)) \<and>
      ssl_conn (fst (psock ?q)) = None \<and> ssl_new (fst (psock ?q)) = None"
    using assms(2,3) by (auto simp: abort_event_def socketEventAbort_def set_error_def Let_def unix_sock_ops_def
        SocketSSLAbort_unix_def ssl_free_opt_def split: option.splits)
  ultimately show ?thesis by (intro exI [of _ ?q]) auto
qed

theorem handshake_refused_on_buffered_data_witness:
  "\<exists>q. EventProcess demo_env False (demo_pst (ev_of CONN_EVENT_TLS_ACCEPT) [65, 66] []) = Some (CONN_EVENT_FAILED, q) \<and>
     ce_error (pe q) = EOVERFLOW \<and> pbuf q = [65, 66]"
  using handshake_refused_on_buffered_data [of id id demo_env "whole_writes demo_sys" False 5
      "demo_pst (ev_of CONN_EVENT_TLS_ACCEPT) [65, 66] []" False]
  by (auto simp: ev_of_def ConnEventInit_def)

text \<open>
  An event that was cancelled (its error is set) is not worked on: processing it only cleans up,
  whatever its type, and the status says what the error was.
\<close>

theorem cancelled_event_is_not_worked_on:
  assumes "sock env = unix_sock_ops sys src ce" and "ce_error (pe p) \<noteq> 0"
  shows "\<exists>st q. EventProcess env prob p = Some (st, q) \<and> pbuf q = pbuf p \<and>
    wire_out (snd (psock q)) = wire_out (snd (psock p)) \<and> wire_in (snd (psock q)) = wire_in (snd (psock p)) \<and>
    cb_written (pe q) = cb_written (pe p) \<and> ce_transferred (pe q) = ce_transferred (pe p) \<and>
    st = (if ce_error (pe p) = ETIMEDOUT then CONN_EVENT_TIMED_OUT
          else if ce_error (pe p) = EMSGSIZE \<and> has (ce_dataMode (pe p)) CONN_READ_PARTIAL_OK then CONN_EVENT_PARTIAL
          else CONN_EVENT_FAILED)"
proof -
  have cl: "wire_out (snd (snd (socketClose sys sn))) = wire_out (snd sn) \<and> wire_in (snd (snd (socketClose sys sn))) = wire_in (snd sn)" for sn
    by (auto simp: socketClose_def dest: in_kernel_wire split: prod.splits)
  have fr: "wire_out (ssl_free_opt sys x n) = wire_out n \<and> wire_in (ssl_free_opt sys x n) = wire_in n" for x n
    by (simp add: ssl_free_opt_def split: option.splits)
  let ?q = "snd (abort_event env p)"
  have "wire_out (snd (psock ?q)) = wire_out (snd (psock p)) \<and> wire_in (snd (psock ?q)) = wire_in (snd (psock p))"
    by (simp add: abort_event_def socketEventAbort_def Let_def assms(1) unix_sock_ops_def SocketConnectAbort_unix_def
        SocketSSLAbort_unix_def cl fr)
  with assms(2) show ?thesis
    by (intro exI [of _ "fst (abort_event env p)"] exI [of _ ?q])
      (simp add: EventProcess_def abort_event_def socketEventAbort_def Let_def)
qed

theorem cancelled_event_is_not_worked_on_witness:
  "\<exists>q. EventProcess demo_env False (demo_pst ((ev_of CONN_EVENT_FLUSH)\<lparr>ce_error := ECANCELED\<rparr>) [65, 66] []) = Some (CONN_EVENT_FAILED, q) \<and>
     pbuf q = [65, 66] \<and> wire_out (snd (psock q)) = []"
  using cancelled_event_is_not_worked_on [of demo_env "whole_writes demo_sys" False 5
      "demo_pst ((ev_of CONN_EVENT_FLUSH)\<lparr>ce_error := ECANCELED\<rparr>) [65, 66] []" False]
  by (auto simp: demo_pst_def)

text \<open>
  C17. No descriptor and no SSL object is left behind: when a connect fails, and when a disconnect ends
  in any way, the socket is closed; when a handshake or an SSL shutdown fails, the SSL objects are
  freed.  A synchronous event never ends in the engine.
\<close>

theorem ended_event_releases_the_socket:
  assumes "sock env = unix_sock_ops sys src ce" and "EventProcess env prob p = Some (st, q)"
  shows "(ce_type (pe p) = CONN_EVENT_CONNECT \<longrightarrow> st \<notin> {CONN_EVENT_COMPLETE, CONN_EVENT_IN_PROGRESS} \<longrightarrow>
      number (fst (psock q)) = SOCKET_INVALID) \<and>
    (ce_type (pe p) = CONN_EVENT_DISCONNECT \<longrightarrow> st \<noteq> CONN_EVENT_IN_PROGRESS \<longrightarrow>
      number (fst (psock q)) = SOCKET_INVALID) \<and>
    (ce_type (pe p) \<in> {CONN_EVENT_SSL_ACCEPT, CONN_EVENT_TLS_ACCEPT, CONN_EVENT_SSL_CONNECT,
        CONN_EVENT_TLS_CONNECT, CONN_EVENT_SSL_DISCONNECT} \<longrightarrow>
      st \<notin> {CONN_EVENT_COMPLETE, CONN_EVENT_IN_PROGRESS} \<longrightarrow>
      ssl_conn (fst (psock q)) = None \<and> ssl_new (fst (psock q)) = None) \<and>
    (st = CONN_EVENT_IN_PROGRESS \<longrightarrow> ce_mode (pe p) = CONN_EVENT_MODE_ASYNCHRONOUS)"
proof -
  have ab: "fst (abort_event env p') \<noteq> CONN_EVENT_IN_PROGRESS" for p' by (simp add: abort_event_def Let_def)
  from EventProcess_outcome [OF assms(2)] consider
      (mode) "st = CONN_EVENT_IN_PROGRESS" "ce_mode (pe p) = CONN_EVENT_MODE_ASYNCHRONOUS"
    | (complete) p' where "pframe p p'" "st = CONN_EVENT_COMPLETE" "q = socketEventComplete env p'"
    | (abort) p' where "pframe p p'" "abort_event env p' = (st, q)"
    unfolding outcome_def by auto
  then show ?thesis
  proof cases
    case mode
    then show ?thesis by simp
  next
    case complete
    with complete_number [OF assms(1), of p'] show ?thesis by (auto simp: pframe_def)
  next
    case abort
    with abort_number [OF assms(1) abort(2)] ab [of p'] show ?thesis by (auto simp: pframe_def)
  qed
qed

theorem ended_event_releases_the_socket_witness:
  "\<exists>q. EventProcess demo_env False (demo_pst (ev_of CONN_EVENT_CONNECT) [] []) = Some (CONN_EVENT_FAILED, q) \<and>
     number (fst (psock q)) = SOCKET_INVALID"
proof -
  have "EventProcess demo_env False (demo_pst (ev_of CONN_EVENT_CONNECT) [] []) =
      Some (abort_event demo_env (set_error 111 ((demo_pst (ev_of CONN_EVENT_CONNECT) [] [])
        \<lparr>psock := snd (socketClose demo_sys (idle_SOCK 4, \<lparr>kernel = [], wire_out = [], wire_in = []\<rparr>))\<rparr>)))"
    by (simp add: EventProcess_def event_attempts.simps socketEventProcess_def demo_eval unix_sock_ops_def
        socketSyncConnectStart_def in_kernel_def demo_sys_def whole_writes_def would_block_def socketClose_def)
  moreover have "fst (abort_event demo_env (set_error 111 x)) = CONN_EVENT_FAILED" for x
    by (simp add: abort_event_def socketEventAbort_def set_error_def Let_def)
  ultimately obtain q where q: "EventProcess demo_env False (demo_pst (ev_of CONN_EVENT_CONNECT) [] []) = Some (CONN_EVENT_FAILED, q)"
    by (metis prod.collapse)
  from ended_event_releases_the_socket [OF demo_facts(2) q] q show ?thesis by (simp add: ev_of_def)
qed

end
