(* ===== verification/SockProps.thy ===== *)
theory SockProps
  imports ProcessProps
begin

unbundle bit_operations_syntax

text \<open>
  Properties of the sockets: the socket event engine hands every wait back exactly once; what a
  send reports; the SSL objects of a socket; and where the code does not do what it means to.
\<close>

section \<open>The life of a socket event\<close>

text \<open>
  One of the slots \<^verbatim>\<open>event.send\<close> and \<^verbatim>\<open>event.receive\<close> of a socket with everybody who works on it:
  consumers that wait (\<^verbatim>\<open>SocketEventWaitEx()\<close>), the poll thread on an event that is ready
  (\<open>poll_dispatch\<close>) and on one whose time is up (\<open>poll_unlist\<close>, and \<open>poll_expire\<close> any time
  later), threads that kill it
  (\<^verbatim>\<open>SocketEventKill()\<close>) and the worker thread (\<^verbatim>\<open>HandleSocketEvent()\<close>), in any order.  \<open>owed\<close>
  counts the worker threads that were started and did not run yet.
\<close>

record slot_world =
  ss :: SOCK
  owed :: nat
  waits :: "ptr list"
  called :: "ptr list"

definition wait_types :: "slot \<Rightarrow> SocketEventType set" where
  "wait_types sl = (case sl of
     Receive_slot \<Rightarrow> {SOCK_EVENT_TYPE_READABLE, SOCK_EVENT_TYPE_DISCONNECT}
   | Send_slot \<Rightarrow> {SOCK_EVENT_TYPE_WRITABLE, SOCK_EVENT_TYPE_CONNECT}
   | Connect_slot \<Rightarrow> {})"

definition callback_args :: "handled \<Rightarrow> ptr list" where
  "callback_args h = (case h of Called ce _ _ \<Rightarrow> [ce] | _ \<Rightarrow> [])"

inductive sstep :: "slot \<Rightarrow> slot_world \<Rightarrow> slot_world \<Rightarrow> bool" for sl where
  Wait: "SocketEventWaitEx alloc add_err thr lecb type timeOut ce (ss v) = (err, s) \<Longrightarrow> type \<in> wait_types sl \<Longrightarrow>
    sstep sl v (v\<lparr>ss := s, waits := (if err = 0 then waits v @ [ce] else waits v)\<rparr>)"
| Ready: "poll_dispatch acc mod_err count_read count_update events sl ae (ss v) = (b, ae', s) \<Longrightarrow>
    sstep sl v (v\<lparr>ss := s, owed := (if b then owed v + 1 else owed v)\<rparr>)"
| Unlist: "sstep sl v (v\<lparr>ss := poll_unlist sl (ss v)\<rparr>)"
| Expire: "poll_expire sl (ss v) = (b, s) \<Longrightarrow>
    sstep sl v (v\<lparr>ss := s, owed := (if b then owed v + 1 else owed v)\<rparr>)"
| Kill: "SocketEventKill type (ss v) = (b, s) \<Longrightarrow> kill_slot type = Some sl \<Longrightarrow>
    sstep sl v (v\<lparr>ss := s, owed := (if b then owed v + 1 else owed v)\<rparr>)"
| Run: "owed v > 0 \<Longrightarrow> HandleSocketEvent mod_err obs acc_obs sl (ss v) = Some (h, s) \<Longrightarrow>
    sstep sl v (v\<lparr>ss := s, owed := owed v - 1, called := called v @ callback_args h\<rparr>)"

definition slot_initial :: "slot \<Rightarrow> slot_world \<Rightarrow> bool" where
  "slot_initial sl v \<longleftrightarrow> sl \<noteq> Connect_slot \<and> get_se sl (ss v) = sockEventInit \<and>
     owed v = 0 \<and> waits v = [] \<and> called v = []"

definition slot_inv :: "slot \<Rightarrow> slot_world \<Rightarrow> bool" where
  "slot_inv sl v \<longleftrightarrow>
     (let e = get_se sl (ss v)
      in se_type e \<noteq> SOCK_EVENT_TYPE_LISTEN \<and>
         (has (se_flags e) FSE_IN_ENGINE \<longrightarrow> se_cbArg e \<noteq> None) \<and>
         waits v = called v @ (case se_cbArg e of None \<Rightarrow> [] | Some ce \<Rightarrow> [ce]) \<and>
         owed v = (if se_cbArg e \<noteq> None \<and> \<not> has (se_flags e) FSE_IN_ENGINE then 1 else 0))"

lemma slot_inv_complete:
  assumes inv: "slot_inv sl v" and e: "get_se sl s = e" "se_type e = se_type (get_se sl (ss v))"
    "se_cbArg e = se_cbArg (get_se sl (ss v))" "has (se_flags e) FSE_IN_ENGINE = has (se_flags (get_se sl (ss v))) FSE_IN_ENGINE"
    and c: "complete_slot sl s = (b, t)"
  shows "slot_inv sl (v\<lparr>ss := t, owed := (if b then owed v + 1 else owed v)\<rparr>)"
proof -
  from c complete_slot_spec [of sl s] have b: "b = has (se_flags e) FSE_IN_ENGINE"
    and t: "get_se sl t = snd (SocketEventComplete e)" using e(1) by auto
  show ?thesis
    using inv b e SocketEventComplete_flags(1) [of e] SocketEventComplete_keeps [of e]
    by (auto simp: slot_inv_def Let_def t)
qed

lemma kill_complete: "se_type e \<noteq> SOCK_EVENT_TYPE_LISTEN \<Longrightarrow> sockEventKill e = SocketEventComplete (e\<lparr>se_error := ECANCELED\<rparr>)"
  by (simp add: sockEventKill_def Let_def)

lemma resume_other: "sl \<noteq> Connect_slot \<Longrightarrow> get_se sl (snd (SocketListenerResume s)) = get_se sl s"
  by (cases sl) (auto simp: SocketListenerResume_def Let_def split: option.splits)

lemma wait_unfold:
  assumes "type \<in> wait_types sl"
  shows "SocketEventWaitEx alloc add_err thr lecb type t ce s =
    (let (err, s2) =
       (if number s = SOCKET_INVALID then (ENOTSOCK, s)
        else (let (linked, se) = SeLinkCe (sockEventTranslate type) ce (get_se sl s)
              in if \<not> linked then (EBUSY, s)
                 else (let (e, u) = sockEventAdd add_err sl t (put_se sl se s)
                       in if e \<noteq> 0 then (e, put_se sl (SeUnlinkCe (get_se sl u)) u) else (0, u))))
     in if err \<noteq> 0 then (err, asyncListenerRelease s2) else (0, s2))"
  using assms by (cases sl; cases type; hypsubst)
    (simp_all add: wait_types_def SocketEventWaitEx_def sockEventTranslate_def)

lemma translate_wait: "type \<in> wait_types sl \<Longrightarrow> sockEventTranslate type \<noteq> SOCK_EVENT_TYPE_LISTEN"
  by (cases sl; cases type) (simp_all add: wait_types_def sockEventTranslate_def)

lemma sel_flags:
  "se_cbArg (SeAddFlags f e) = se_cbArg e" "se_type (SeAddFlags f e) = se_type e"
  "se_cbArg (SeRemoveFlags f e) = se_cbArg e" "se_type (SeRemoveFlags f e) = se_type e"
  by (simp_all add: SeAddFlags_def SeRemoveFlags_def)

lemma release_slot [simp]: "get_se sl (asyncListenerRelease s) = get_se sl s"
  by (cases sl) (simp_all add: asyncListenerRelease_def)

lemma wait_slot_inv:
  assumes inv: "slot_inv sl v" and ty: "type \<in> wait_types sl"
    and w: "SocketEventWaitEx alloc add_err thr lecb type t ce (ss v) = (err, s)"
  shows "slot_inv sl (v\<lparr>ss := s, waits := (if err = 0 then waits v @ [ce] else waits v)\<rparr>)"
proof -
  let ?e = "get_se sl (ss v)"
  note u = w [unfolded wait_unfold [OF ty] Let_def]
  show ?thesis
  proof (cases "number (ss v) = SOCKET_INVALID \<or> se_cbArg ?e \<noteq> None")
    case True
    then have "err \<noteq> 0 \<and> get_se sl s = ?e" using u by (auto simp: SeLinkCe_def split: if_splits)
    with inv show ?thesis by (simp add: slot_inv_def Let_def)
  next
    case False
    then obtain u1 where link: "SeLinkCe (sockEventTranslate type) ce ?e = (True, u1)"
      "se_cbArg u1 = Some ce" "se_type u1 = sockEventTranslate type"
      by (auto simp: SeLinkCe_def)
    show ?thesis
    proof (cases "add_err = 0")
      case True
      with u False link have "err = 0" "se_cbArg (get_se sl s) = Some ce" "has (se_flags (get_se sl s)) FSE_IN_ENGINE"
        "se_type (get_se sl s) = sockEventTranslate type"
        by (auto simp: sockEventAdd_def Let_def SeAddFlags_def has_or split: if_splits)
      with inv False translate_wait [OF ty] show ?thesis by (simp add: slot_inv_def Let_def)
    next
      case ae: False
      with u False link have "err \<noteq> 0" "se_cbArg (get_se sl s) = None" "\<not> has (se_flags (get_se sl s)) FSE_IN_ENGINE"
        "se_type (get_se sl s) = sockEventTranslate type"
        by (auto simp: sockEventAdd_def Let_def SeUnlinkCe_def sel_flags split: if_splits)
      with inv False translate_wait [OF ty] show ?thesis by (simp add: slot_inv_def Let_def)
    qed
  qed
qed

lemma sstep_inv:
  assumes "sstep sl v v'" and "slot_inv sl v" and "sl \<noteq> Connect_slot"
  shows "slot_inv sl v'"
  using assms
proof (cases rule: sstep.cases)
  case (Wait alloc add_err thr lecb type timeOut ce err s)
  then show ?thesis using wait_slot_inv assms(2) by simp
next
  case (Ready acc mod_err count_read count_update events ae b ae' s)
  show ?thesis
  proof (cases "has (se_flags (get_se sl (ss v))) FSE_IN_ENGINE")
    case False
    with Ready have "v' = v" by (auto simp: poll_dispatch_def)
    with assms(2) show ?thesis by simp
  next
    case True
    let ?s0 = "put_se sl (event_error events (get_se sl (ss v))) (ss v)"
    have ev: "se_type (event_error events e) = se_type e" "se_cbArg (event_error events e) = se_cbArg e"
      "se_flags (event_error events e) = se_flags e" for e
      by (simp_all add: event_error_def)
    have nl: "se_type (get_se sl (ss v)) \<noteq> SOCK_EVENT_TYPE_LISTEN" using assms(2) by (simp add: slot_inv_def Let_def)
    have "complete_slot sl ?s0 = (b, s) \<or>
        complete_slot sl (put_se sl ((get_se sl ?s0)\<lparr>se_error := EINVAL\<rparr>) ?s0) = (b, s)"
      using Ready(2) True nl
      by (cases "se_type (get_se sl (ss v))") (auto simp: poll_dispatch_def socketEventHandle_def ev split: prod.splits)
    then show ?thesis
    proof
      assume c: "complete_slot sl ?s0 = (b, s)"
      show ?thesis unfolding Ready(1) by (rule slot_inv_complete [OF assms(2) refl _ _ _ c]) (simp_all add: ev)
    next
      assume c: "complete_slot sl (put_se sl ((get_se sl ?s0)\<lparr>se_error := EINVAL\<rparr>) ?s0) = (b, s)"
      show ?thesis unfolding Ready(1) by (rule slot_inv_complete [OF assms(2) refl _ _ _ c]) (simp_all add: ev)
    qed
  qed
next
  case (Expire b s)
  let ?s1 = "put_se sl ((get_se sl (ss v))\<lparr>se_error := ETIMEDOUT\<rparr>) (ss v)"
  from Expire(2) have c: "complete_slot sl ?s1 = (b, s)" by (simp add: poll_expire_def)
  show ?thesis unfolding Expire(1) by (rule slot_inv_complete [OF assms(2) refl _ _ _ c]) simp_all
next
  case Unlist
  with assms(2) show ?thesis by (simp add: slot_inv_def poll_unlist_def sel_flags Let_def)
next
  case (Kill type b s)
  let ?e = "get_se sl (ss v)"
  have nl: "se_type ?e \<noteq> SOCK_EVENT_TYPE_LISTEN" using assms(2) by (simp add: slot_inv_def Let_def)
  let ?s1 = "put_se sl (?e\<lparr>se_error := ECANCELED\<rparr>) (snd (SocketListenerResume (ss v)))"
  have "complete_slot sl ?s1 = (b, s)"
    using Kill(2,3) nl resume_other [OF assms(3)]
    by (auto simp: SocketEventKill_def complete_slot_def kill_complete split: prod.splits)
  with Kill(1) show ?thesis using slot_inv_complete [OF assms(2) refl _ _ _ \<open>complete_slot sl ?s1 = (b, s)\<close>] by simp
next
  case (Run mod_err obs acc_obs h s)
  then show ?thesis using assms(2)
    by (auto simp: slot_inv_def HandleSocketEvent_def Let_def SeUnlinkCe_def callback_args_def
        split: option.splits bool.splits if_splits)
qed

lemma slot_reachable_inv:
  assumes "(sstep sl)\<^sup>*\<^sup>* v v'" and "slot_initial sl v"
  shows "slot_inv sl v'"
  using assms(1)
proof induction
  case base
  from assms(2) show ?case by (simp add: slot_initial_def slot_inv_def sockEventInit_def Let_def)
next
  case (step u w)
  with assms(2) show ?case using sstep_inv by (simp add: slot_initial_def)
qed

text \<open>
  C5. In every interleaving of waits, poll events, timeouts, kills and worker threads, each wait
  that was accepted is called back exactly once and in order: the events called back are those
  waited for, less the one still linked to the slot; there is never more than one worker thread
  owed; and a slot that is not linked owes nothing.
\<close>

theorem every_wait_called_back_once:
  assumes "slot_initial sl v" and "(sstep sl)\<^sup>*\<^sup>* v v'"
  shows "waits v' = called v' @ (case se_cbArg (get_se sl (ss v')) of None \<Rightarrow> [] | Some ce \<Rightarrow> [ce]) \<and>
    owed v' \<le> 1 \<and>
    (owed v' = 1 \<longleftrightarrow> se_cbArg (get_se sl (ss v')) \<noteq> None \<and> \<not> has (se_flags (get_se sl (ss v'))) FSE_IN_ENGINE)"
  using slot_reachable_inv [OF assms(2,1)] by (auto simp: slot_inv_def Let_def)

theorem every_wait_called_back_once_witness:
  "\<exists>v'. (sstep Send_slot)\<^sup>*\<^sup>* \<lparr>ss = idle_SOCK 4, owed = 0, waits = [], called = []\<rparr> v' \<and>
     waits v' = [5] \<and> called v' = [5] \<and> owed v' \<le> 1"
proof -
  let ?v = "\<lparr>ss = idle_SOCK 4, owed = 0, waits = [], called = []\<rparr>"
  let ?w = "SocketEventWaitEx True 0 0 False SOCK_EVENT_TYPE_CONNECT 100 5 (idle_SOCK 4)"
  let ?x = "poll_expire Send_slot (snd ?w)"
  let ?h = "HandleSocketEvent 0 [] [] Send_slot (snd ?x)"
  note eval = idle_SOCK_def SocketEventWaitEx_def sockEventTranslate_def SeLinkCe_def sockEventInit_def sockEventAdd_def
    notify_def SeAddFlags_def SeRemoveFlags_def poll_expire_def complete_slot_def SocketEventComplete_def has_def Let_def
  have w: "?w = (0, snd ?w)" and x: "?x = (True, snd ?x)" by (simp_all add: eval)
  have h: "?h = Some (Called 5 SOCK_EVENT_TYPE_WRITABLE ETIMEDOUT, snd (the ?h))"
    by (simp add: eval HandleSocketEvent_def)
  from sstep.Wait [where v = ?v and sl = Send_slot, of True 0 0 False SOCK_EVENT_TYPE_CONNECT 100 5, OF _ , of 0 "snd ?w"] w
  have 1: "sstep Send_slot ?v \<lparr>ss = snd ?w, owed = 0, waits = [5], called = []\<rparr>"
    by (simp add: wait_types_def)
  from sstep.Expire [where v = "\<lparr>ss = snd ?w, owed = 0, waits = [5], called = []\<rparr>" and sl = Send_slot, of True "snd ?x"] x
  have 2: "sstep Send_slot \<lparr>ss = snd ?w, owed = 0, waits = [5], called = []\<rparr> \<lparr>ss = snd ?x, owed = 1, waits = [5], called = []\<rparr>"
    by simp
  from sstep.Run [where v = "\<lparr>ss = snd ?x, owed = 1, waits = [5], called = []\<rparr>" and sl = Send_slot, OF _ , of 0 "[]" "[]"] h
  have 3: "sstep Send_slot \<lparr>ss = snd ?x, owed = 1, waits = [5], called = []\<rparr> \<lparr>ss = snd (the ?h), owed = 0, waits = [5], called = [5]\<rparr>"
    by (simp add: callback_args_def) (metis (no_types, lifting) callback_args_def handled.simps)
  from 1 2 3 have r: "(sstep Send_slot)\<^sup>*\<^sup>* ?v \<lparr>ss = snd (the ?h), owed = 0, waits = [5], called = [5]\<rparr>" by simp
  have "slot_initial Send_slot ?v" by (simp add: slot_initial_def idle_SOCK_def)
  from every_wait_called_back_once [OF this r] r show ?thesis by force
qed

section \<open>Sending on a socket\<close>

text \<open>
  \<^verbatim>\<open>SocketSend()\<close> always returns, and tells the truth: a positive result is the number of bytes
  that went out, from the front of the buffer and never more than it holds; any other result comes
  with an errno, and on a clear-text socket with nothing sent.
\<close>

theorem send_reports_what_went_out:
  assumes "buff \<noteq> []" and "socketSend sys buff bo sn = (r, bo', err, sn')"
  shows "r \<le> int (length buff) \<and>
    (r > 0 \<longrightarrow> wire_out (snd sn') = wire_out (snd sn) @ take (nat r) buff) \<and>
    (r \<le> 0 \<longrightarrow> err \<noteq> 0 \<and> (ssl_conn (fst sn) = None \<longrightarrow> wire_out (snd sn') = wire_out (snd sn))) \<and>
    wire_in (snd sn') = wire_in (snd sn) \<and> fst sn' = fst sn"
proof -
  note part = socketSend_part [OF assms(2,1)]
  have "r \<le> 0 \<Longrightarrow> ssl_conn (fst sn) = None \<Longrightarrow> wire_out (snd sn') = wire_out (snd sn)"
    using assms(2,1) by (cases rule: socketSend_cases) (use assms(1) clear_send_part in fastforce)+
  with part show ?thesis by (auto simp: sent_part_def)
qed

theorem send_reports_what_went_out_witness:
  "let (r, _, err, sn) = socketSend demo_sys [7, 8, 9] SOCK_EVENT_TYPE_NONE (idle_SOCK 4, \<lparr>kernel = [], wire_out = [], wire_in = []\<rparr>)
   in r = 3 \<and> err = 0 \<and> wire_out (snd sn) = [7, 8, 9]"
proof -
  let ?sn = "(idle_SOCK 4, \<lparr>kernel = [], wire_out = [], wire_in = []\<rparr>) :: byte list io"
  obtain r b e sn where s: "socketSend demo_sys [7, 8, 9] SOCK_EVENT_TYPE_NONE ?sn = (r, b, e, sn)" by (metis prod_cases4)
  then have re: "r = 3" "e = 0"
    by (auto simp: socketSend_def idle_SOCK_def clearSend_def clear_send_loop.simps XplIpSend_def demo_sys_def split: prod.splits)
  with send_reports_what_went_out [OF _ s] s show ?thesis by simp
qed

section \<open>SSL\<close>

text \<open>
  C18. A socket never has two SSL objects.  A handshake that is done moves its object from \<^verbatim>\<open>ssl.new\<close> to
  \<^verbatim>\<open>ssl.conn\<close>; one that would block keeps it in \<^verbatim>\<open>ssl.new\<close>, so that the next attempt continues it,
  and says what to wait for; a secured socket refuses another handshake and is left alone.
\<close>

theorem ssl_handshake_states:
  assumes "ssl_new s = None \<or> ssl_conn s = None" and "sslConnect sys server tls bo (s, n) = (err, bo', s', n')"
  shows "(ssl_new s' = None \<or> ssl_conn s' = None) \<and>
    (ssl_conn s \<noteq> None \<longrightarrow> err = ECONNALREADYSECURED \<and> s' = s \<and> n' = n) \<and>
    (ssl_conn s = None \<longrightarrow> (err = 0 \<longleftrightarrow> ssl_conn s' \<noteq> None)) \<and>
    (ssl_conn s = None \<and> err = 0 \<and> ssl_new s \<noteq> None \<longrightarrow> ssl_conn s' = ssl_new s) \<and>
    (err = EWOULDBLOCK \<longrightarrow> ssl_new s' \<noteq> None \<and> (ssl_new s \<noteq> None \<longrightarrow> ssl_new s' = ssl_new s) \<and>
       bo' \<in> {SOCK_EVENT_TYPE_READABLE, SOCK_EVENT_TYPE_WRITABLE}) \<and>
    number s' = number s \<and> wire_out n' = wire_out n \<and> wire_in n' = wire_in n"
proof (cases "ssl_conn s")
  case (Some x)
  with assms show ?thesis by (auto simp: sslConnect_def)
next
  case None
  obtain so n1 where a: "(case ssl_new s of None \<Rightarrow> SocketSSLAlloc sys server tls (number s) n | Some x \<Rightarrow> (Some x, n)) = (so, n1)"
    by fastforce
  have w1: "wire_out n1 = wire_out n \<and> wire_in n1 = wire_in n"
    using a by (auto simp: SocketSSLAlloc_def dest!: in_kernel_wire split: option.splits prod.splits if_splits)
  have so: "\<And>x. ssl_new s = Some x \<Longrightarrow> so = Some x" using a by auto
  show ?thesis
  proof (cases so)
    case no: None
    with assms(2) None a w1 so show ?thesis by (auto simp: sslConnect_def)
  next
    case (Some ssl)
    obtain ret n2 where k: "in_kernel (if server then ssl_accept sys ssl else ssl_connect sys ssl) (clear_queue sys n1) = (ret, n2)"
      by fastforce
    note w2 = in_kernel_wire [OF k]
    obtain e b n3 where g: "sslErrorGet sys ssl ret bo n2 = (e, b, n3)" by (metis prod_cases3)
    note w3 = sslErrorGet_spec [OF g]
    have blk: "e = EWOULDBLOCK \<Longrightarrow> b \<in> {SOCK_EVENT_TYPE_READABLE, SOCK_EVENT_TYPE_WRITABLE}"
      using g by (auto simp: sslErrorGet_def split: prod.splits if_splits)
    have "err = (if ret = 1 then 0 else e) \<and> bo' = (if ret = 1 then bo else b) \<and>
        s' = (if ret = 1 then s\<lparr>ssl_conn := Some ssl, ssl_new := None\<rparr> else s\<lparr>ssl_new := Some ssl\<rparr>) \<and>
        n' = (if ret = 1 then n2 else n3)"
      using assms(2) by (auto simp: sslConnect_def None a Some k g)
    with None Some so w1 w2 w3 blk show ?thesis by (auto split: if_splits)
  qed
qed

theorem ssl_handshake_states_witness:
  "ssl_conn (fst (snd (snd (sslConnect demo_sys True True SOCK_EVENT_TYPE_NONE
     (idle_SOCK 4, \<lparr>kernel = [], wire_out = [], wire_in = []\<rparr>))))) \<noteq> None"
proof -
  let ?r = "sslConnect demo_sys True True SOCK_EVENT_TYPE_NONE (idle_SOCK 4, \<lparr>kernel = [], wire_out = [], wire_in = []\<rparr>)"
  obtain err bo s n where r: "?r = (err, bo, s, n)" by (metis prod_cases4)
  then have "err = 0"
    by (auto simp: sslConnect_def idle_SOCK_def SocketSSLAlloc_def in_kernel_def demo_sys_def clear_queue_def sslErrorQueueClear_def)
  with ssl_handshake_states [OF _ r] r show ?thesis by (simp add: idle_SOCK_def)
qed

text \<open>
  A peer that closes an SSL connection properly (\<^verbatim>\<open>SSL_ERROR_ZERO_RETURN\<close>) is reported as \<^verbatim>\<open>EIO\<close>,
  never as \<^verbatim>\<open>ECONNCLOSEDBYPEER\<close>: \<^verbatim>\<open>sslErrorQueueClear()\<close> returns 0 for every error that is not a want,
  and that is \<^verbatim>\<open>SSL_ERROR_NONE\<close> to the \<^verbatim>\<open>switch\<close>.
\<close>

theorem ssl_close_reported_as_eio:
  assumes "ssl_get_error sys ssl ret (kernel n) = SSL_ERROR_ZERO_RETURN"
  shows "\<exists>n'. sslErrorGet sys ssl ret bo n = (EIO, bo, n')"
  using assms by (auto simp: sslErrorGet_def sslErrorQueueClear_def split: prod.splits)

theorem ssl_close_reported_as_eio_witness:
  "\<exists>n'. sslErrorGet demo_sys 1 0 SOCK_EVENT_TYPE_NONE \<lparr>kernel = [], wire_out = [], wire_in = []\<rparr> = (EIO, SOCK_EVENT_TYPE_NONE, n')"
  by (rule ssl_close_reported_as_eio) (simp add: demo_sys_def)

section \<open>Errors that do not arrive\<close>

text \<open>
  \<^verbatim>\<open>SocketDisconnect()\<close> returns 0 whatever happens: it returns \<^verbatim>\<open>errno\<close>, which its helpers have
  already moved into their result and cleared.
\<close>

theorem socket_disconnect_never_fails:
  assumes "socketDisconnect sys timeOut errno0 sn = Some (r, sn')"
  shows "r = 0"
  using assms
  by (auto simp: socketDisconnect_def disconnectWithTimeout_def sockDisconnect_def split: Option.bind_splits prod.splits if_splits)

theorem socket_disconnect_never_fails_witness:
  "\<exists>sn. socketDisconnect (demo_sys\<lparr>sys_shutdown := (\<lambda>_ w. (107, w))\<rparr>) 10 0
      (idle_SOCK 4, \<lparr>kernel = [], wire_out = [], wire_in = []\<rparr>) = Some (0, sn)"
proof -
  obtain r sn where s: "socketDisconnect (demo_sys\<lparr>sys_shutdown := (\<lambda>_ w. (107, w))\<rparr>) 10 0
      (idle_SOCK 4, \<lparr>kernel = [], wire_out = [], wire_in = []\<rparr>) = Some (r, sn)"
    by (simp add: socketDisconnect_def disconnectWithTimeout_def sockDisconnect_def in_kernel_def demo_sys_def)
  from socket_disconnect_never_fails [OF s] s show ?thesis by blast
qed

text \<open>
  A hang-up seen while waiting for a socket to become readable is \<^verbatim>\<open>EIO\<close>, not \<^verbatim>\<open>ECONNRESET\<close> (an
  \<^verbatim>\<open>else\<close> is missing), so a synchronous disconnect whose peer resets the connection fails instead of
  ending well.
\<close>

theorem hangup_fails_the_disconnect:
  assumes "sys_poll sys (number s) (POLLIN OR POLLPRI) t (kernel n) = ((c, revents, e), w)" and "c > 0"
    and "number s \<noteq> SOCKET_INVALID" and "has revents POLLHUP" and "\<not> has revents POLLNVAL"
  shows "\<exists>sn'. socketWait sys SOCK_EVENT_TYPE_DISCONNECT t (s, n) = Some (EIO, sn')"
proof -
  have "has revents (POLLHUP OR POLLNVAL OR POLLERR)" using assms(4) by (simp only: has_or_right simp_thms)
  with assms(5) have "readable_result revents = EIO" by (simp add: readable_result_def)
  then have "sockWaitForReadable sys (number s) t n = Some (EIO, n\<lparr>kernel := w\<rparr>)"
    using assms(1-3) by (subst sockWaitForReadable.simps) (simp add: in_kernel_def)
  then show ?thesis by (simp add: socketWait_def)
qed

theorem hangup_fails_the_disconnect_witness:
  "\<exists>sn'. socketWait (demo_sys\<lparr>sys_poll := (\<lambda>_ _ _ w. ((1, POLLHUP, 0), w))\<rparr>) SOCK_EVENT_TYPE_DISCONNECT 10
      (idle_SOCK 4, \<lparr>kernel = [], wire_out = [], wire_in = []\<rparr>) = Some (EIO, sn')"
  by (rule hangup_fails_the_disconnect [where c = 1 and revents = POLLHUP and e = 0 and w = "[]"])
    (simp_all add: idle_SOCK_def has_def)

text \<open>
  Killing a connect does not reach it: a connect waits in the slot \<^verbatim>\<open>event.send\<close> (on unix
  \<^verbatim>\<open>SOCK_EVENT_TYPE_CONNECT\<close> is translated to \<^verbatim>\<open>SOCK_EVENT_TYPE_WRITABLE\<close>), and
  \<^verbatim>\<open>SocketEventKill( SOCK_EVENT_TYPE_CONNECT )\<close>, which is what a cancelled transaction calls, works on
  \<^verbatim>\<open>event.connect\<close>.  The waiting event stays in the engine and no callback is started.
\<close>

theorem kill_misses_a_waiting_connect:
  assumes "SocketEventWaitEx alloc add_err thr lecb SOCK_EVENT_TYPE_CONNECT t ce s = (0, s')"
    and "\<not> has (se_flags (ev_connect s)) FSE_IN_ENGINE"
  shows "fst (SocketEventKill SOCK_EVENT_TYPE_CONNECT s') = False \<and>
    ev_send (snd (SocketEventKill SOCK_EVENT_TYPE_CONNECT s')) = ev_send s' \<and>
    has (se_flags (ev_send s')) FSE_IN_ENGINE"
proof -
  have ty: "SOCK_EVENT_TYPE_CONNECT \<in> wait_types Send_slot" by (simp add: wait_types_def)
  note u = assms(1) [unfolded wait_unfold [OF ty]]
  obtain l se where link: "SeLinkCe (sockEventTranslate SOCK_EVENT_TYPE_CONNECT) ce (ev_send s) = (l, se)" by fastforce
  have c: "ev_connect s' = ev_connect s \<and> has (se_flags (ev_send s')) FSE_IN_ENGINE"
    using u link by (auto simp: sockEventAdd_def Let_def notify_def split: if_splits option.splits)
  have r: "has (se_flags (ev_connect (snd (SocketListenerResume s')))) FSE_IN_ENGINE = has (se_flags (ev_connect s')) FSE_IN_ENGINE"
    by (simp add: SocketListenerResume_def notify_def split: option.splits)
  have k: "fst (sockEventKill e) = (se_type e \<noteq> SOCK_EVENT_TYPE_LISTEN \<and> has (se_flags e) FSE_IN_ENGINE)" for e
    using SocketEventComplete_result [of "e\<lparr>se_error := ECANCELED\<rparr>"] by (simp add: sockEventKill_def Let_def)
  show ?thesis
    using c r k [of "ev_connect (snd (SocketListenerResume s'))"] assms(2) resume_other [of Send_slot s']
    by (cases "sockEventKill (ev_connect (snd (SocketListenerResume s')))") (simp add: SocketEventKill_def Let_def)
qed

theorem kill_misses_a_waiting_connect_witness:
  "has (se_flags (ev_send (snd (SocketEventKill SOCK_EVENT_TYPE_CONNECT
     (snd (SocketEventWaitEx True 0 0 False SOCK_EVENT_TYPE_CONNECT 100 5 (idle_SOCK 4))))))) FSE_IN_ENGINE"
proof -
  let ?w = "SocketEventWaitEx True 0 0 False SOCK_EVENT_TYPE_CONNECT 100 5 (idle_SOCK 4)"
  have "?w = (0, snd ?w)"
    by (simp add: idle_SOCK_def SocketEventWaitEx_def sockEventTranslate_def SeLinkCe_def sockEventInit_def sockEventAdd_def
        notify_def Let_def)
  from kill_misses_a_waiting_connect [OF this] show ?thesis by (simp add: idle_SOCK_def sockEventInit_def)
qed

text \<open>
  A listener is never throttled because of load: \<^verbatim>\<open>listenerStartThrottling()\<close> asks for
  \<^verbatim>\<open>FSE_LISTENER_SUSPENDED\<close> where \<^verbatim>\<open>listenerShouldThrottle()\<close>, which it is meant to repeat under the
  lock, accepts either that flag or the threshold; and a suspended listener without a threshold is not
  throttled either.
\<close>

theorem overload_does_not_throttle:
  assumes "listener s = Some l"
    and "\<not> has (se_flags (get_se sl s)) FSE_LISTENER_SUSPENDED \<and> 0 < throttlingThreshold l \<and> throttlingThreshold l < count
       \<or> has (se_flags (get_se sl s)) FSE_LISTENER_SUSPENDED \<and> throttlingThreshold l = 0"
  shows "listenerShouldThrottle count sl s \<and> listenerStartThrottling count' sl s = (False, s)"
  using assms by (auto simp: listenerShouldThrottle_def listenerStartThrottling_def listenerThresholdExceeded_def)

theorem overload_does_not_throttle_witness:
  "listenerShouldThrottle 50 Connect_slot
      ((idle_SOCK 4)\<lparr>listener := Some \<lparr>throttlingThreshold = 10, hasEventCallback = False, inAccept = 0\<rparr>\<rparr>) \<and>
   \<not> fst (listenerStartThrottling 50 Connect_slot
      ((idle_SOCK 4)\<lparr>listener := Some \<lparr>throttlingThreshold = 10, hasEventCallback = False, inAccept = 0\<rparr>\<rparr>))"
  using overload_does_not_throttle [of "(idle_SOCK 4)\<lparr>listener := Some \<lparr>throttlingThreshold = 10, hasEventCallback = False, inAccept = 0\<rparr>\<rparr>"
      "\<lparr>throttlingThreshold = 10, hasEventCallback = False, inAccept = 0\<rparr>" Connect_slot 50 50]
  by (simp add: idle_SOCK_def sockEventInit_def)

end
