(* ===== verification/SyncApi.thy ===== *)
theory SyncApi
  imports SockIO
begin

unbundle bit_operations_syntax

text \<open>
  The synchronous entry points of \<^verbatim>\<open>src/src/connio.c\<close>.  A synchronous call puts an event of its own
  (\<open>ce\<close> is the address of that local variable) into an active slot of the connection, works on it
  with \<^verbatim>\<open>ConnEventProcess()\<close> (the argument \<open>proc\<close>) and takes it out again.  Functions that set
  \<^verbatim>\<open>errno\<close> return it; \<open>src\<close> stands for file and line.  The checks for null pointers are arguments
  of type \<open>option\<close> or are done by the type.
\<close>

section \<open>Taking and leaving the active slots\<close>

definition SynchronousConnectEventInsert :: "ptr \<Rightarrow> 'b conn \<Rightarrow> errno \<times> 'b conn" where
  "SynchronousConnectEventInsert ce c =
     (if state c = CONN_STATE_IDLE then
        (if act_connect c = None \<and> act_receive c = None \<and> act_send c = None
         then (0, c\<lparr>state := CONN_STATE_SYNCHRONOUS, act_connect := Some ce\<rparr>)
         else (EBUSY, c))
      else (ECONNIOMODE, c))"

definition SynchronousConnectEventRemove :: "ptr \<Rightarrow> 'b conn \<Rightarrow> errno \<times> 'b conn" where
  "SynchronousConnectEventRemove ce c =
     (if state c = CONN_STATE_SYNCHRONOUS then
        (if act_connect c = Some ce then (0, c\<lparr>act_connect := None, state := CONN_STATE_IDLE\<rparr>)
         else (EINVAL, c))
      else (ECONNIOMODE, c))"

definition SynchronousReceiveEventInsert ::
    "'b iob_ops \<Rightarrow> ptr \<Rightarrow> 'b conn \<Rightarrow> errno \<times> 'b option \<times> 'b conn" where
  "SynchronousReceiveEventInsert ops ce c =
     (if state c = CONN_STATE_IDLE \<or> state c = CONN_STATE_SYNCHRONOUS then
        (if act_connect c = None \<and> act_receive c = None then
           (case bufferedSendDataGet ops WITH_DATA (c\<lparr>state := CONN_STATE_SYNCHRONOUS\<rparr>) of
              (Some sb, d) \<Rightarrow> (0, Some sb, d\<lparr>act_connect := Some ce\<rparr>)
            | (None, d) \<Rightarrow> (0, None, d\<lparr>act_receive := Some ce\<rparr>))
         else (EBUSY, None, c))
      else (ECONNIOMODE, None, c))"

definition SynchronousReceiveEventRemove :: "ptr \<Rightarrow> bool \<Rightarrow> 'b conn \<Rightarrow> errno \<times> 'b conn" where
  "SynchronousReceiveEventRemove ce haveConnectLock c =
     (if state c = CONN_STATE_SYNCHRONOUS then
        (if haveConnectLock \<and> act_connect c = Some ce
         then (0, c\<lparr>act_connect := None, state := CONN_STATE_IDLE\<rparr>)
         else if \<not> haveConnectLock \<and> act_receive c = Some ce
         then (0, c\<lparr>act_receive := None, state := CONN_STATE_IDLE\<rparr>)
         else (EINVAL, c))
      else (ECONNIOMODE, c))"

definition SynchronousSendEventInsert :: "ptr \<Rightarrow> 'b conn \<Rightarrow> errno \<times> 'b conn" where
  "SynchronousSendEventInsert ce c =
     (if state c = CONN_STATE_IDLE \<or> state c = CONN_STATE_SYNCHRONOUS then
        (if act_connect c = None \<and> act_send c = None
         then (0, c\<lparr>state := CONN_STATE_SYNCHRONOUS, act_send := Some ce\<rparr>)
         else (EBUSY, c))
      else (ECONNIOMODE, c))"

definition SynchronousSendEventRemove :: "ptr \<Rightarrow> 'b conn \<Rightarrow> errno \<times> 'b conn" where
  "SynchronousSendEventRemove ce c =
     (if state c = CONN_STATE_SYNCHRONOUS then
        (if act_send c = Some ce then
           (0, if act_receive c = None then c\<lparr>act_send := None, state := CONN_STATE_IDLE\<rparr>
               else c\<lparr>act_send := None\<rparr>)
         else (EINVAL, c))
      else (ECONNIOMODE, c))"

definition connKillEx :: "'w sys_ops \<Rightarrow> nat \<Rightarrow> 'b conn \<times> 'w net \<Rightarrow> (bool \<times> 'b conn \<times> 'w net) option" where
  "connKillEx sys src cw =
     (case cw of (c, n) \<Rightarrow>
        (case state c of
           CONN_STATE_CACHED \<Rightarrow> Some (False, c, n)
         | CONN_STATE_FREE \<Rightarrow> Some (False, c, n)
         | CONN_STATE_SYNCHRONOUS_LISTENER \<Rightarrow> Some (False, c, n)
         | CONN_STATE_ASYNCHRONOUS_LISTENER \<Rightarrow> Some (False, c, n)
         | CONN_STATE_IDLE \<Rightarrow>
             (case socketClose sys (sp c, n) of (_, s, n1) \<Rightarrow> Some (True, c\<lparr>sp := s\<rparr>, n1))
         | CONN_STATE_SYNCHRONOUS \<Rightarrow>
             (case socketClose sys (sp c, n) of (_, s, n1) \<Rightarrow> Some (True, c\<lparr>sp := s\<rparr>, n1))
         | _ \<Rightarrow>
             do { d \<leftarrow> EventQueueAbort None CONN_EVENT_KILLED ECANCELED src c;
                  Some (True, d, n) }))"

section \<open>Flushing and writing\<close>

type_synonym ('b, 'w) cw = "'b conn \<times> 'w"

definition assign_event :: "ptr \<Rightarrow> ('b conn \<Rightarrow> 'b ConnEvent \<Rightarrow> 'b ConnEvent) \<Rightarrow> 'b conn \<Rightarrow> 'b conn" where
  "assign_event ce f c = upd_event ce (f c) c"

definition assign_flush :: "ptr \<Rightarrow> 'b \<Rightarrow> int \<Rightarrow> nat \<Rightarrow> 'b conn \<Rightarrow> 'b conn" where
  "assign_flush ce sb timeout src c =
     assign_event ce (ConnEventAssign None 0 timeout CONN_EVENT_FLUSH CONN_EVENT_CLASS_SEND
       CONN_EVENT_MODE_SYNCHRONOUS (Some sb) src) c"

text \<open>Result: what the event transferred, and \<^verbatim>\<open>errno\<close>.\<close>

definition connFlushEx ::
    "('b, 'w) processor \<Rightarrow> ptr \<Rightarrow> 'b \<Rightarrow> int \<Rightarrow> nat \<Rightarrow> ('b, 'w) cw \<Rightarrow> (nat \<times> errno \<times> ('b, 'w) cw) option" where
  "connFlushEx proc ce writeBuffer timeout src cw =
     (case cw of (c, w) \<Rightarrow>
      let c1 = assign_flush ce writeBuffer timeout src (upd_event ce (\<lambda>_. ConnEventInit) c)
      in case SynchronousSendEventInsert ce c1 of (err, c2) \<Rightarrow>
           if err \<noteq> 0 then Some (0, err, c2, w)
           else
             do { (_, c3, w3) \<leftarrow> proc ce (c2, w);
                  Some (ce_transferred (mem c3 ce), ce_error (mem c3 ce),
                        snd (SynchronousSendEventRemove ce c3), w3) })"

definition ConnFlushEx ::
    "'b iob_ops \<Rightarrow> ('b, 'w) processor \<Rightarrow> ptr \<Rightarrow> int \<Rightarrow> nat \<Rightarrow> ('b, 'w) cw \<Rightarrow> (nat \<times> errno \<times> ('b, 'w) cw) option" where
  "ConnFlushEx ops proc ce timeout src cw =
     (case cw of (c, w) \<Rightarrow>
      case bufferedSendDataGet ops WITH_DATA c of
        (None, c1) \<Rightarrow> Some (0, 0, c1, w)
      | (Some sb, c1) \<Rightarrow> connFlushEx proc ce sb timeout src (c1, w))"

text \<open>
  The inner loop of \<^verbatim>\<open>writeClientData()\<close>: fill the buffer.  The boolean is whether everything was
  written; otherwise the buffer is full.  Every round but the last writes at least one byte.
\<close>

function fill_write_buffer ::
    "'b iob_ops \<Rightarrow> byte list \<Rightarrow> nat \<Rightarrow> 'b \<Rightarrow> bool \<times> nat \<times> 'b" where
  "fill_write_buffer ops data transferred b =
     (let bufferSpace = IOBGetFree ops b; remaining = length data - transferred
      in if bufferSpace = 0 then (False, transferred, b)
         else if bufferSpace > remaining
         then (True, transferred + remaining, IOBWrite ops (take remaining (drop transferred data)) b)
         else fill_write_buffer ops data (transferred + bufferSpace)
                (IOBWrite ops (take bufferSpace (drop transferred data)) b))"
  by pat_completeness auto

termination
  by (relation "measure (\<lambda>(ops, data, transferred, b). length data - transferred)") auto

declare fill_write_buffer.simps [simp del]

partial_function (option) write_loop ::
    "'b iob_ops \<Rightarrow> ('b, 'w) processor \<Rightarrow> ptr \<Rightarrow> int \<Rightarrow> nat \<Rightarrow> byte list \<Rightarrow> nat \<Rightarrow> ('b, 'w) cw \<Rightarrow>
     (nat \<times> errno \<times> ('b, 'w) cw) option" where
  "write_loop ops proc ce timeout src data transferred cw =
     (case bufferedSendDataGet ops EMPTY_OK (fst cw) of (bo, c1) \<Rightarrow>
        if bo = None then Some (transferred, ENOMEM, c1, snd cw)
        else
          (case fill_write_buffer ops data transferred (the bo) of (finished, t, b) \<Rightarrow>
             if finished then Some (t, 0, bufferedSendDataKeep ops b c1, snd cw)
             else
               do { (_, err, cw2) \<leftarrow> connFlushEx proc ce b timeout src (c1, snd cw);
                    if err \<noteq> 0 then Some (t, err, cw2)
                    else write_loop ops proc ce timeout src data t cw2 }))"

definition writeClientData ::
    "'b iob_ops \<Rightarrow> ('b, 'w) processor \<Rightarrow> ptr \<Rightarrow> int \<Rightarrow> nat \<Rightarrow> byte list \<Rightarrow> ('b, 'w) cw \<Rightarrow>
     (nat \<times> errno \<times> ('b, 'w) cw) option" where
  "writeClientData ops proc ce timeout src data cw =
     (if data \<noteq> [] then write_loop ops proc ce timeout src data 0 cw else Some (0, 0, cw))"

definition ConnWriteEx ::
    "'b iob_ops \<Rightarrow> ('b, 'w) processor \<Rightarrow> ConnHandleView \<Rightarrow> ptr \<Rightarrow> int \<Rightarrow> nat \<Rightarrow> byte list \<Rightarrow> ('b, 'w) cw \<Rightarrow>
     (nat \<times> errno \<times> ('b, 'w) cw) option" where
  "ConnWriteEx ops proc h ce timeout src data cw =
     (if data = [] then Some (0, 0, cw)
      else if shuttingDown h then Some (0, ECONNHANDLESHUTDOWN, cw)
      else writeClientData ops proc ce timeout src data cw)"

definition ConnWriteFromCBEx ::
    "'b iob_ops \<Rightarrow> ('b, 'w) processor \<Rightarrow> ConnHandleView \<Rightarrow> ptr \<Rightarrow> int \<Rightarrow> int \<Rightarrow> nat \<Rightarrow> ('b, 'w) cw \<Rightarrow>
     (nat \<times> errno \<times> ('b, 'w) cw) option" where
  "ConnWriteFromCBEx ops proc h ce count timeout src cw =
     (if count < 0 then Some (0, EINVAL, cw)
      else if shuttingDown h then Some (0, ECONNHANDLESHUTDOWN, cw)
      else
        (case bufferedSendDataGet ops EMPTY_OK (fst cw) of
           (None, c1) \<Rightarrow> Some (0, ENOMEM, c1, snd cw)
         | (Some b, c1) \<Rightarrow>
             (case SynchronousSendEventInsert ce (upd_event ce (\<lambda>_. ConnEventInit) c1) of (err, c2) \<Rightarrow>
                if err \<noteq> 0 then Some (0, err, bufferedSendDataKeep ops b c2, snd cw)
                else
                  do { (_, c4, w4) \<leftarrow> proc ce (assign_event ce
                         (ConnEventAssign None (nat count) timeout CONN_EVENT_WRITE_FROM_CB
                            CONN_EVENT_CLASS_SEND CONN_EVENT_MODE_SYNCHRONOUS (Some b) src) c2, snd cw);
                       Some (ce_transferred (mem c4 ce), ce_error (mem c4 ce),
                             snd (SynchronousSendEventRemove ce c4), w4) })))"

section \<open>Reading\<close>

text \<open>
  The body the synchronous reads share: take the slot, flush what is buffered, read, leave.  \<open>setup\<close>
  assigns the read event.
\<close>

definition sync_receive ::
    "'b iob_ops \<Rightarrow> ('b, 'w) processor \<Rightarrow> ptr \<Rightarrow> int \<Rightarrow> nat \<Rightarrow> ('b conn \<Rightarrow> 'b ConnEvent \<Rightarrow> 'b ConnEvent) \<Rightarrow>
     ('b, 'w) cw \<Rightarrow> (nat \<times> errno \<times> ('b, 'w) cw) option" where
  "sync_receive ops proc ce timeout src setup cw =
     (case SynchronousReceiveEventInsert ops ce (upd_event ce (\<lambda>_. ConnEventInit) (fst cw)) of
        (err, bo, c1) \<Rightarrow>
          if err \<noteq> 0 then Some (0, err, c1, snd cw)
          else
            do { (c2, w2) \<leftarrow> (case bo of
                    None \<Rightarrow> Some (c1, snd cw)
                  | Some sb \<Rightarrow> map_option snd (proc ce (assign_flush ce sb timeout src c1, snd cw)));
                 (_, c3, w3) \<leftarrow> proc ce (assign_event ce setup c2, w2);
                 Some (ce_transferred (mem c3 ce), ce_error (mem c3 ce),
                       snd (SynchronousReceiveEventRemove ce (bo \<noteq> None) c3), w3) })"

abbreviation (input) MAX_PATTERN_SIZE :: nat where "MAX_PATTERN_SIZE \<equiv> 7"

text \<open>
  \<open>err0\<close> is what the checks of the arguments left in \<^verbatim>\<open>errno\<close>, \<open>buff\<close> is where the client's buffer is.
\<close>

definition ConnReadToCondition ::
    "'b iob_ops \<Rightarrow> ('b, 'w) processor \<Rightarrow> ConnHandleView \<Rightarrow> ptr \<Rightarrow> errno \<Rightarrow> ptr option \<Rightarrow> int \<Rightarrow>
     ConnEventType \<Rightarrow> byte list \<Rightarrow> ConnEventMode \<Rightarrow> u32 \<Rightarrow> int \<Rightarrow> nat \<Rightarrow> ('b, 'w) cw \<Rightarrow>
     (nat \<times> errno \<times> ('b, 'w) cw) option" where
  "ConnReadToCondition ops proc h ce err0 buff buffSize type pattern mode dataMode timeout src cw =
     (if err0 \<noteq> 0 then Some (0, err0, cw)
      else if type = CONN_EVENT_READ_UNTIL_PATTERN \<and> length pattern > MAX_PATTERN_SIZE then Some (0, EINVAL, cw)
      else if shuttingDown h then Some (0, ECONNHANDLESHUTDOWN, cw)
      else sync_receive ops proc ce timeout src
             (\<lambda>c e. (ConnEventAssign (map_option (\<lambda>a. (a, [])) buff) (nat buffSize) timeout type CONN_EVENT_CLASS_RECEIVE mode None src c e)
                \<lparr>ce_dataMode := dataMode,
                 arg_pattern := (if type = CONN_EVENT_READ_UNTIL_PATTERN then pattern else [])\<rparr>) cw)"

text \<open>\<^verbatim>\<open>errno = 0; notNull( buff ); isPos( buffSize );\<close>\<close>

definition read_args :: "ptr option \<Rightarrow> int \<Rightarrow> errno" where
  "read_args buff buffSize = (if buff = None \<or> buffSize \<le> 0 then EINVAL else 0)"

type_synonym ('b, 'w) read_call =
  "ptr option \<Rightarrow> int \<Rightarrow> int \<Rightarrow> nat \<Rightarrow> ('b, 'w) cw \<Rightarrow> (nat \<times> errno \<times> ('b, 'w) cw) option"

definition ConnReadEx ::
    "'b iob_ops \<Rightarrow> ('b, 'w) processor \<Rightarrow> ConnHandleView \<Rightarrow> ptr \<Rightarrow> ('b, 'w) read_call" where
  "ConnReadEx ops proc h ce buff buffSize =
     ConnReadToCondition ops proc h ce (read_args buff buffSize) buff buffSize CONN_EVENT_READ []
       CONN_EVENT_MODE_SYNCHRONOUS (CONN_READ_COPY OR CONN_READ_DELETE)"

definition ConnReadCountEx ::
    "'b iob_ops \<Rightarrow> ('b, 'w) processor \<Rightarrow> ConnHandleView \<Rightarrow> ptr \<Rightarrow> ('b, 'w) read_call" where
  "ConnReadCountEx ops proc h ce buff buffSize =
     ConnReadToCondition ops proc h ce (read_args buff buffSize) buff buffSize CONN_EVENT_READ_COUNT []
       CONN_EVENT_MODE_SYNCHRONOUS (CONN_READ_COPY OR CONN_READ_DELETE)"

abbreviation (input) LF :: "byte list" where "LF \<equiv> [10]"

definition ConnReadLineEx ::
    "'b iob_ops \<Rightarrow> ('b, 'w) processor \<Rightarrow> ConnHandleView \<Rightarrow> ptr \<Rightarrow> ('b, 'w) read_call" where
  "ConnReadLineEx ops proc h ce buff buffSize =
     ConnReadToCondition ops proc h ce (read_args buff buffSize) buff buffSize CONN_EVENT_READ_UNTIL_PATTERN LF
       CONN_EVENT_MODE_SYNCHRONOUS
       (CONN_READ_COPY OR CONN_READ_DELETE OR CONN_READ_INCLUDE_PATTERN OR CONN_READ_TERMINATE)"

definition ConnReadCRLFEx ::
    "'b iob_ops \<Rightarrow> ('b, 'w) processor \<Rightarrow> ConnHandleView \<Rightarrow> ptr \<Rightarrow> ('b, 'w) read_call" where
  "ConnReadCRLFEx ops proc h ce buff buffSize =
     ConnReadToCondition ops proc h ce (read_args buff buffSize) buff buffSize CONN_EVENT_READ_UNTIL_PATTERN
       SPECIAL_PATTERN_CRLF CONN_EVENT_MODE_SYNCHRONOUS (CONN_READ_COPY OR CONN_READ_DELETE OR CONN_READ_TERMINATE)"

text \<open>The \<^verbatim>\<open>mode\<close> of the functions that accept a part of a line.\<close>

definition gets_mode :: "bool \<Rightarrow> u32" where
  "gets_mode includeLF =
     (if includeLF
      then CONN_READ_COPY OR CONN_READ_DELETE OR CONN_READ_PARTIAL_OK OR CONN_READ_TERMINATE OR CONN_READ_INCLUDE_PATTERN
      else CONN_READ_COPY OR CONN_READ_DELETE OR CONN_READ_PARTIAL_OK OR CONN_READ_TERMINATE)"

definition ConnReadGetSEx ::
    "'b iob_ops \<Rightarrow> ('b, 'w) processor \<Rightarrow> ConnHandleView \<Rightarrow> ptr \<Rightarrow> bool \<Rightarrow> ('b, 'w) read_call" where
  "ConnReadGetSEx ops proc h ce includeLF buff buffSize =
     ConnReadToCondition ops proc h ce (read_args buff buffSize) buff buffSize CONN_EVENT_READ_UNTIL_PATTERN LF
       CONN_EVENT_MODE_SYNCHRONOUS (gets_mode includeLF)"

definition ConnReadAnswerEx ::
    "'b iob_ops \<Rightarrow> ('b, 'w) processor \<Rightarrow> ConnHandleView \<Rightarrow> ptr \<Rightarrow> ('b, 'w) read_call" where
  "ConnReadAnswerEx ops proc h ce buff buffSize =
     ConnReadToCondition ops proc h ce (read_args buff buffSize) buff buffSize CONN_EVENT_READ_UNTIL_PATTERN LF
       CONN_EVENT_MODE_SYNCHRONOUS (CONN_READ_COPY OR CONN_READ_DELETE OR CONN_READ_TERMINATE)"

definition ConnReadUntilPatternEx ::
    "'b iob_ops \<Rightarrow> ('b, 'w) processor \<Rightarrow> ConnHandleView \<Rightarrow> ptr \<Rightarrow> byte list \<Rightarrow> ('b, 'w) read_call" where
  "ConnReadUntilPatternEx ops proc h ce pattern buff buffSize =
     ConnReadToCondition ops proc h ce (read_args buff buffSize) buff buffSize CONN_EVENT_READ_UNTIL_PATTERN pattern
       CONN_EVENT_MODE_SYNCHRONOUS (CONN_READ_COPY OR CONN_READ_DELETE)"

definition ConnEatCountEx ::
    "'b iob_ops \<Rightarrow> ('b, 'w) processor \<Rightarrow> ConnHandleView \<Rightarrow> ptr \<Rightarrow> int \<Rightarrow> int \<Rightarrow> nat \<Rightarrow> ('b, 'w) cw \<Rightarrow>
     (nat \<times> errno \<times> ('b, 'w) cw) option" where
  "ConnEatCountEx ops proc h ce count =
     ConnReadToCondition ops proc h ce (if count > 0 then 0 else EINVAL) None 0 CONN_EVENT_READ_COUNT []
       CONN_EVENT_MODE_SYNCHRONOUS CONN_READ_DELETE"

definition ConnPeekEx ::
    "'b iob_ops \<Rightarrow> ('b, 'w) processor \<Rightarrow> ConnHandleView \<Rightarrow> ptr \<Rightarrow> ('b, 'w) read_call" where
  "ConnPeekEx ops proc h ce buff buffSize =
     ConnReadToCondition ops proc h ce (read_args buff buffSize) buff buffSize CONN_EVENT_READ []
       CONN_EVENT_MODE_SYNCHRONOUS_NON_BLOCKING CONN_READ_COPY"

definition ConnPeekCountEx ::
    "'b iob_ops \<Rightarrow> ('b, 'w) processor \<Rightarrow> ConnHandleView \<Rightarrow> ptr \<Rightarrow> ('b, 'w) read_call" where
  "ConnPeekCountEx ops proc h ce buff buffSize =
     ConnReadToCondition ops proc h ce (read_args buff buffSize) buff buffSize CONN_EVENT_READ_COUNT []
       CONN_EVENT_MODE_SYNCHRONOUS_NON_BLOCKING CONN_READ_COPY"

definition ConnPeekLineEx ::
    "'b iob_ops \<Rightarrow> ('b, 'w) processor \<Rightarrow> ConnHandleView \<Rightarrow> ptr \<Rightarrow> ('b, 'w) read_call" where
  "ConnPeekLineEx ops proc h ce buff buffSize =
     ConnReadToCondition ops proc h ce (read_args buff buffSize) buff buffSize CONN_EVENT_READ_UNTIL_PATTERN LF
       CONN_EVENT_MODE_SYNCHRONOUS_NON_BLOCKING (CONN_READ_COPY OR CONN_READ_INCLUDE_PATTERN OR CONN_READ_TERMINATE)"

definition ConnPeekAnswerEx ::
    "'b iob_ops \<Rightarrow> ('b, 'w) processor \<Rightarrow> ConnHandleView \<Rightarrow> ptr \<Rightarrow> ('b, 'w) read_call" where
  "ConnPeekAnswerEx ops proc h ce buff buffSize =
     ConnReadToCondition ops proc h ce (read_args buff buffSize) buff buffSize CONN_EVENT_READ_UNTIL_PATTERN LF
       CONN_EVENT_MODE_SYNCHRONOUS_NON_BLOCKING (CONN_READ_COPY OR CONN_READ_TERMINATE)"

definition ConnPeekUntilPatternEx ::
    "'b iob_ops \<Rightarrow> ('b, 'w) processor \<Rightarrow> ConnHandleView \<Rightarrow> ptr \<Rightarrow> byte list \<Rightarrow> ('b, 'w) read_call" where
  "ConnPeekUntilPatternEx ops proc h ce pattern buff buffSize =
     ConnReadToCondition ops proc h ce (read_args buff buffSize) buff buffSize CONN_EVENT_READ_UNTIL_PATTERN pattern
       CONN_EVENT_MODE_SYNCHRONOUS_NON_BLOCKING CONN_READ_COPY"

definition ConnReadToCBEx ::
    "'b iob_ops \<Rightarrow> ('b, 'w) processor \<Rightarrow> ConnHandleView \<Rightarrow> ptr \<Rightarrow> int \<Rightarrow> int \<Rightarrow> nat \<Rightarrow> ('b, 'w) cw \<Rightarrow>
     (nat \<times> errno \<times> ('b, 'w) cw) option" where
  "ConnReadToCBEx ops proc h ce count timeout src cw =
     (if count < 0 then Some (0, EINVAL, cw)
      else if shuttingDown h then Some (0, ECONNHANDLESHUTDOWN, cw)
      else sync_receive ops proc ce timeout src
             (ConnEventAssign None (nat count) timeout CONN_EVENT_READ_TO_CB CONN_EVENT_CLASS_RECEIVE
                CONN_EVENT_MODE_SYNCHRONOUS None src) cw)"

text \<open>\<^verbatim>\<open>args.conn.count\<close> is an \<^verbatim>\<open>unsigned long\<close>: a negative count becomes a huge one.\<close>

definition ConnReadToConnEx ::
    "'b iob_ops \<Rightarrow> ('b, 'w) processor \<Rightarrow> ConnHandleView \<Rightarrow> ptr \<Rightarrow> int \<Rightarrow> int \<Rightarrow> nat \<Rightarrow> ('b, 'w) cw \<Rightarrow>
     (nat \<times> errno \<times> ('b, 'w) cw) option" where
  "ConnReadToConnEx ops proc h ce count timeout src cw =
     (if count = 0 then Some (0, 0, cw)
      else if shuttingDown h then Some (0, ECONNHANDLESHUTDOWN, cw)
      else sync_receive ops proc ce timeout src
             (ConnEventAssign None (nat (count mod 2 ^ 64)) timeout CONN_EVENT_READ_TO_CONN CONN_EVENT_CLASS_RECEIVE
                CONN_EVENT_MODE_SYNCHRONOUS None src) cw)"

section \<open>Strings and formatted output\<close>

definition ConnWriteStringEx ::
    "'b iob_ops \<Rightarrow> ('b, 'w) processor \<Rightarrow> ConnHandleView \<Rightarrow> ptr \<Rightarrow> int \<Rightarrow> nat \<Rightarrow> byte list \<Rightarrow> ('b, 'w) cw \<Rightarrow>
     (nat \<times> errno \<times> ('b, 'w) cw) option" where
  "ConnWriteStringEx ops proc h ce timeout src string cw =
     (if shuttingDown h then Some (0, ECONNHANDLESHUTDOWN, cw)
      else writeClientData ops proc ce timeout src string cw)"

abbreviation (input) STACK_BUFFER_SIZE :: nat where "STACK_BUFFER_SIZE \<equiv> 1023"

definition MAX_CONN_WRITE_FORMATTED_SIZE :: nat where
  "MAX_CONN_WRITE_FORMATTED_SIZE = 1024 * 1024 * 64"

text \<open>
  \<open>vsn n\<close> is \<^verbatim>\<open>XplVsnprintf()\<close> into a buffer of \<open>n\<close> bytes: its result and the bytes it stored;
  \<open>alloc n\<close> tells whether \<^verbatim>\<open>MemRealloc()\<close> succeeds.  A failure is an errno and whether the buffer is
  still allocated when the function returns.  The size starts at \<^verbatim>\<open>STACK_BUFFER_SIZE\<close> and is never 0.
\<close>

datatype formatted = Formatted "byte list" | Not_formatted errno bool

function format_loop :: "(nat \<Rightarrow> int \<times> byte list) \<Rightarrow> (nat \<Rightarrow> bool) \<Rightarrow> nat \<Rightarrow> formatted" where
  "format_loop vsn alloc nextSize =
     (if alloc nextSize then
        (let required = fst (vsn nextSize)
         in if 0 \<le> required \<and> required < int nextSize
            then Formatted (take (nat required) (snd (vsn nextSize)))
            else if nextSize < MAX_CONN_WRITE_FORMATTED_SIZE
            then (if required < 0
                  then (if nextSize = 0 then Not_formatted EMSGSIZE True
                        else format_loop vsn alloc (2 * nextSize))
                  else format_loop vsn alloc (nat required + 1))
            else Not_formatted EMSGSIZE True)
      else Not_formatted ENOMEM False)"
  by pat_completeness auto

termination
  by (relation "measure (\<lambda>(vsn, alloc, n). MAX_CONN_WRITE_FORMATTED_SIZE - n)") auto

declare format_loop.simps [simp del]

definition CreateFormattedString :: "(nat \<Rightarrow> int \<times> byte list) \<Rightarrow> (nat \<Rightarrow> bool) \<Rightarrow> formatted" where
  "CreateFormattedString vsn alloc = format_loop vsn alloc STACK_BUFFER_SIZE"

definition ConnWriteVEx ::
    "'b iob_ops \<Rightarrow> ('b, 'w) processor \<Rightarrow> ConnHandleView \<Rightarrow> ptr \<Rightarrow> int \<Rightarrow> nat \<Rightarrow>
     (nat \<Rightarrow> int \<times> byte list) \<Rightarrow> (nat \<Rightarrow> bool) \<Rightarrow> ('b, 'w) cw \<Rightarrow> (nat \<times> errno \<times> ('b, 'w) cw) option" where
  "ConnWriteVEx ops proc h ce timeout src vsn alloc cw =
     (if shuttingDown h then Some (0, ECONNHANDLESHUTDOWN, cw)
      else
        (case vsn STACK_BUFFER_SIZE of (outSize, out) \<Rightarrow>
           if 0 \<le> outSize \<and> outSize < int STACK_BUFFER_SIZE
           then writeClientData ops proc ce timeout src (take (nat outSize) out) cw
           else
             (case CreateFormattedString vsn alloc of
                Formatted data \<Rightarrow> writeClientData ops proc ce timeout src data cw
              | Not_formatted err _ \<Rightarrow> Some (0, err, cw))))"

end
