(* ===== verification/ConnApi.thy ===== *)
theory ConnApi
  imports SyncApi
begin

unbundle bit_operations_syntax

text \<open>
  The synchronous entry points that own the whole connection (\<^verbatim>\<open>src/src/connio.c\<close>): connecting,
  disconnecting, the SSL handshakes, and giving a connection back to the cache.  They take the
  connect slot, flush what is buffered, do their work and leave the slot.  The errno returned is 0
  when the call returns \<^verbatim>\<open>TRUE\<close>.
\<close>

section \<open>Tests\<close>

definition connIsStillConnected :: "'b conn \<Rightarrow> errno" where
  "connIsStillConnected c = (if number (sp c) \<noteq> SOCKET_INVALID then 0 else ENOTCONN)"

definition connIsSecured :: "'b conn \<Rightarrow> errno" where
  "connIsSecured c = (if ssl_conn (sp c) \<noteq> None then 0 else EALREADY)"

definition connIsNotSecured :: "'b conn \<Rightarrow> errno" where
  "connIsNotSecured c = (if ssl_conn (sp c) = None then 0 else EALREADY)"

definition clear_and_connected :: "'b conn \<Rightarrow> errno" where
  "clear_and_connected c =
     (if connIsStillConnected c \<noteq> 0 then connIsStillConnected c else connIsNotSecured c)"

definition ConnSyncReadyEx :: "'b conn \<Rightarrow> bool" where
  "ConnSyncReadyEx c \<longleftrightarrow> state c = CONN_STATE_IDLE"

definition ConnIsSecureEx :: "'b conn \<Rightarrow> bool" where
  "ConnIsSecureEx c \<longleftrightarrow> ssl_conn (sp c) \<noteq> None"

section \<open>Implicit events\<close>

definition ImplicitFlushOnConnectEvent ::
    "'b iob_ops \<Rightarrow> ('b, 'w) processor \<Rightarrow> ptr \<Rightarrow> nat \<Rightarrow> ('b, 'w) cw \<Rightarrow> ('b, 'w) cw option" where
  "ImplicitFlushOnConnectEvent ops proc ce src cw =
     (case bufferedSendDataGet ops WITH_DATA (fst cw) of
        (None, c1) \<Rightarrow> Some (c1, snd cw)
      | (Some sb, c1) \<Rightarrow>
          map_option snd (proc ce (assign_flush ce sb CONN_TIMEOUT_DEFAULT src c1, snd cw)))"

definition assign_connect :: "ptr \<Rightarrow> int \<Rightarrow> ConnEventType \<Rightarrow> nat \<Rightarrow> 'b conn \<Rightarrow> 'b conn" where
  "assign_connect ce timeout type src c =
     assign_event ce (ConnEventAssign None 0 timeout type CONN_EVENT_CLASS_CONNECT
       CONN_EVENT_MODE_SYNCHRONOUS None src) c"

definition ImplicitSSLDisconnectOnConnectEvent ::
    "('b, 'w) processor \<Rightarrow> ptr \<Rightarrow> nat \<Rightarrow> ('b, 'w) cw \<Rightarrow> ('b, 'w) cw option" where
  "ImplicitSSLDisconnectOnConnectEvent proc ce src cw =
     (if ssl_conn (sp (fst cw)) \<noteq> None
      then map_option snd
             (proc ce (assign_connect ce CONN_TIMEOUT_DEFAULT CONN_EVENT_SSL_DISCONNECT src (fst cw), snd cw))
      else Some cw)"

section \<open>Disconnecting and handshakes\<close>

text \<open>The body these functions share.  \<open>check\<close> is the test made while the slot is held.\<close>

definition connect_call ::
    "'b iob_ops \<Rightarrow> ('b, 'w) processor \<Rightarrow> ptr \<Rightarrow> ('b conn \<Rightarrow> errno) \<Rightarrow> int \<Rightarrow> ConnEventType \<Rightarrow> nat \<Rightarrow>
     ('b, 'w) cw \<Rightarrow> (errno \<times> ('b, 'w) cw) option" where
  "connect_call ops proc ce check timeout type src cw =
     (case SynchronousConnectEventInsert ce (upd_event ce (\<lambda>_. ConnEventInit) (fst cw)) of (err, c1) \<Rightarrow>
        if err \<noteq> 0 then Some (err, c1, snd cw)
        else if check c1 \<noteq> 0
        then Some (check c1, snd (SynchronousConnectEventRemove ce c1), snd cw)
        else
          do { (c2, w2) \<leftarrow> ImplicitFlushOnConnectEvent ops proc ce src (c1, snd cw);
               (status, c3, w3) \<leftarrow> proc ce (assign_connect ce timeout type src c2, w2);
               Some (if status = CONN_EVENT_COMPLETE then 0 else ce_error (mem c3 ce),
                     snd (SynchronousConnectEventRemove ce c3), w3) })"

definition ConnDisconnectEx ::
    "'b iob_ops \<Rightarrow> ('b, 'w) processor \<Rightarrow> ptr \<Rightarrow> int \<Rightarrow> nat \<Rightarrow> ('b, 'w) cw \<Rightarrow> (errno \<times> ('b, 'w) cw) option" where
  "ConnDisconnectEx ops proc ce timeout =
     connect_call ops proc ce clear_and_connected timeout CONN_EVENT_DISCONNECT"

definition ConnSSLConnectEx ::
    "'b iob_ops \<Rightarrow> ('b, 'w) processor \<Rightarrow> ConnHandleView \<Rightarrow> ptr \<Rightarrow> int \<Rightarrow> bool \<Rightarrow> nat \<Rightarrow> ('b, 'w) cw \<Rightarrow>
     (errno \<times> ('b, 'w) cw) option" where
  "ConnSSLConnectEx ops proc h ce timeout tls src cw =
     (if shuttingDown h then Some (ECONNHANDLESHUTDOWN, cw)
      else connect_call ops proc ce clear_and_connected timeout
             (if tls then CONN_EVENT_TLS_CONNECT else CONN_EVENT_SSL_CONNECT) src cw)"

definition ConnSSLAcceptEx ::
    "'b iob_ops \<Rightarrow> ('b, 'w) processor \<Rightarrow> ConnHandleView \<Rightarrow> ptr \<Rightarrow> int \<Rightarrow> bool \<Rightarrow> nat \<Rightarrow> ('b, 'w) cw \<Rightarrow>
     (errno \<times> ('b, 'w) cw) option" where
  "ConnSSLAcceptEx ops proc h ce timeout tls src cw =
     (if shuttingDown h then Some (ECONNHANDLESHUTDOWN, cw)
      else connect_call ops proc ce clear_and_connected timeout
             (if tls then CONN_EVENT_TLS_ACCEPT else CONN_EVENT_SSL_ACCEPT) src cw)"

definition ConnSSLDisconnectEx ::
    "'b iob_ops \<Rightarrow> ('b, 'w) processor \<Rightarrow> ptr \<Rightarrow> nat \<Rightarrow> ('b, 'w) cw \<Rightarrow> (errno \<times> ('b, 'w) cw) option" where
  "ConnSSLDisconnectEx ops proc ce =
     connect_call ops proc ce connIsSecured CONN_TIMEOUT_DEFAULT CONN_EVENT_SSL_DISCONNECT"

section \<open>Back to the cache\<close>

text \<open>
  \<open>tm\<close> holds the timeouts of the handle (connect, disconnect, send, receive), \<open>init\<close> is
  \<^verbatim>\<open>IOBInit()\<close>.  The memory of the events and the record of what was started are not part of the
  structure that is cleared; a connection in the cache has no socket, and what the field \<open>sp\<close>
  holds then has no meaning.
\<close>

definition ConnectionInit :: "int \<times> int \<times> int \<times> int \<Rightarrow> ('b \<Rightarrow> 'b) \<Rightarrow> 'b conn \<Rightarrow> 'b conn" where
  "ConnectionInit tm init c =
     (case tm of (t1, t2, t3, t4) \<Rightarrow>
        (bufferedSendDataFree c)
          \<lparr>queue := \<lparr>l_head = None, l_tail = None, l_count = 0\<rparr>, freeList := None, bytes_sent := 0,
           bytes_received := 0, cl_client := 0, problem := None, threads := 0, sslEnabled := False,
           act_connect := None, act_send := None, act_receive := None, state := CONN_STATE_CACHED,
           receiveBuffer := init (receiveBuffer c), to_connect := t1, to_disconnect := t2,
           to_send := t3, to_receive := t4\<rparr>)"

definition is_listener :: "'b conn \<Rightarrow> bool" where
  "is_listener c \<longleftrightarrow> state c \<in> {CONN_STATE_ASYNCHRONOUS_LISTENER, CONN_STATE_SYNCHRONOUS_LISTENER}"

text \<open>The end of a connection that is still connected: flush, leave SSL, disconnect, close.\<close>

definition end_connection ::
    "'b iob_ops \<Rightarrow> ('b, 'w net) processor \<Rightarrow> 'w sys_ops \<Rightarrow> ptr \<Rightarrow> nat \<Rightarrow> ('b, 'w net) cw \<Rightarrow> ('b, 'w net) cw option" where
  "end_connection ops proc sys ce src cw =
     do { cw1 \<leftarrow> ImplicitFlushOnConnectEvent ops proc ce src cw;
          (c2, n2) \<leftarrow> ImplicitSSLDisconnectOnConnectEvent proc ce src cw1;
          (_, s3, n3) \<leftarrow> socketDisconnect sys (to_disconnect c2) 0 (sp c2, n2);
          (case socketClose sys (s3, n3) of (_, s4, n4) \<Rightarrow> Some (c2\<lparr>sp := s4\<rparr>, n4)) }"

text \<open>
  SSL objects that are left are freed; \<^verbatim>\<open>SocketRelease()\<close> then closes a descriptor that is still open,
  which is that of a listener, and frees the socket.
\<close>

definition release_socket :: "'w sys_ops \<Rightarrow> ('b, 'w net) cw \<Rightarrow> ('b, 'w net) cw" where
  "release_socket sys cw =
     (case cw of (c, n) \<Rightarrow>
        (case (if ssl_conn (sp c) \<noteq> None \<or> ssl_new (sp c) \<noteq> None
               then SocketSSLAbort_unix sys (sp c, n) else (sp c, n)) of (s1, n1) \<Rightarrow>
           (case socketClose sys (s1, n1) of (_, s2, n2) \<Rightarrow> (c\<lparr>sp := s2\<rparr>, n2))))"

definition connFreeEx ::
    "'b iob_ops \<Rightarrow> ('b, 'w net) processor \<Rightarrow> 'w sys_ops \<Rightarrow> int \<times> int \<times> int \<times> int \<Rightarrow> ('b \<Rightarrow> 'b) \<Rightarrow> ptr \<Rightarrow> nat \<Rightarrow>
     ('b, 'w net) cw \<Rightarrow> (bool \<times> ('b, 'w net) cw) option" where
  "connFreeEx ops proc sys tm init ce src cw =
     (case cw of (c, n) \<Rightarrow>
        if state c \<in> {CONN_STATE_FREE, CONN_STATE_CACHED} then Some (False, cw)
        else if is_listener c
        then (case release_socket sys cw of (c1, n1) \<Rightarrow> Some (True, ConnectionInit tm init c1, n1))
        else
          (case SynchronousConnectEventInsert ce (upd_event ce (\<lambda>_. ConnEventInit) c) of (err, c1) \<Rightarrow>
             if err \<noteq> 0 then Some (False, c1, n)
             else
               do { cw2 \<leftarrow> (if connIsStillConnected c1 = 0 then end_connection ops proc sys ce src (c1, n)
                            else Some (c1, n));
                    (case release_socket sys cw2 of (c3, n3) \<Rightarrow>
                       Some (True, ConnectionInit tm init (snd (SynchronousConnectEventRemove ce c3)), n3)) }))"

text \<open>
  \<^verbatim>\<open>_ConnAllocEx()\<close>: \<open>SP\<close> is the socket of the caller, \<open>new_sp\<close> the result of \<^verbatim>\<open>SocketAlloc()\<close>, \<open>entry\<close>
  a connection of the cache.  The caller appends the connection to the list of its handle.
\<close>

definition ConnAllocEx :: "SOCK option \<Rightarrow> SOCK option \<Rightarrow> 'b conn option \<Rightarrow> errno \<times> 'b conn option" where
  "ConnAllocEx SP new_sp entry =
     (case (case SP of Some s \<Rightarrow> Some s | None \<Rightarrow> new_sp) of
        None \<Rightarrow> (ENOMEM, None)
      | Some s \<Rightarrow>
          (case entry of
             None \<Rightarrow> (ENOMEM, None)
           | Some c \<Rightarrow> (0, Some (c\<lparr>sp := s, state := CONN_STATE_IDLE\<rparr>))))"

text \<open>
  \<^verbatim>\<open>ConnConnectEx()\<close> on the connection it allocated.  The addresses are stored in the event;
  \<open>None\<close> for the source when there is none.
\<close>

definition ConnectAddressesCopy :: "ptr \<Rightarrow> ptr option \<Rightarrow> 'b ConnEvent \<Rightarrow> 'b ConnEvent" where
  "ConnectAddressesCopy dest srcaddr e = e\<lparr>arg_src := srcaddr, arg_dst := Some dest\<rparr>"

definition connect_allocated ::
    "('b, 'w) processor \<Rightarrow> ConnHandleView \<Rightarrow> ptr \<Rightarrow> ptr option \<Rightarrow> nat \<Rightarrow> ptr option \<Rightarrow> int \<Rightarrow> nat \<Rightarrow> ('b, 'w) cw \<Rightarrow>
     (bool \<times> ('b, 'w) cw) option" where
  "connect_allocated proc h ce dest destLen srcaddr timeout src cw =
     (if shuttingDown h \<or> destLen = 0 \<or> dest = None then Some (False, cw)
      else
        (case SynchronousConnectEventInsert ce (upd_event ce (\<lambda>_. ConnEventInit) (fst cw)) of (err, c1) \<Rightarrow>
           if err \<noteq> 0 then Some (False, c1, snd cw)
           else
             do { (status, c2, w2) \<leftarrow>
                    proc ce (upd_event ce (ConnectAddressesCopy (the dest) srcaddr)
                               (assign_connect ce timeout CONN_EVENT_CONNECT src c1), snd cw);
                  Some (status = CONN_EVENT_COMPLETE, snd (SynchronousConnectEventRemove ce c2), w2) }))"

text \<open>
  A connection that could not be connected goes back to the cache; the boolean is whether the caller
  gets it.  \<open>cccb\<close> is the consumer's callback.
\<close>

definition ConnConnectEx ::
    "'b iob_ops \<Rightarrow> ('b, 'w net) processor \<Rightarrow> 'w sys_ops \<Rightarrow> ConnHandleView \<Rightarrow> int \<times> int \<times> int \<times> int \<Rightarrow> ('b \<Rightarrow> 'b) \<Rightarrow>
     ptr \<Rightarrow> SOCK option \<Rightarrow> 'b conn option \<Rightarrow> ('b conn \<Rightarrow> 'b conn) \<Rightarrow> ptr option \<Rightarrow> nat \<Rightarrow> ptr option \<Rightarrow> int \<Rightarrow> nat \<Rightarrow>
     'w net \<Rightarrow> (bool \<times> 'b conn option \<times> 'w net) option" where
  "ConnConnectEx ops proc sys h tm init ce new_sp entry cccb dest destLen srcaddr timeout src n =
     (case ConnAllocEx None new_sp entry of
        (_, None) \<Rightarrow> Some (False, None, n)
      | (_, Some c) \<Rightarrow>
          do { (ok, c1, n1) \<leftarrow> connect_allocated proc h ce dest destLen srcaddr timeout src (cccb c, n);
               if ok then Some (True, Some c1, n1)
               else do { (_, c2, n2) \<leftarrow> connFreeEx ops proc sys tm init ce src (c1, n1);
                         Some (False, Some c2, n2) } })"

end
