(* ===== verification/AsyncApi.thy ===== *)
theory AsyncApi
  imports ConnApi
begin

unbundle bit_operations_syntax

text \<open>
  The asynchronous entry points of \<^verbatim>\<open>src/src/connio.c\<close>.  Each allocates an event (\<open>fresh\<close> is its
  address, \<open>None\<close> when there is no memory), fills it in and hands it to \<^verbatim>\<open>EventEnqueue()\<close>; when that
  is refused, or there was an error before, the error goes to the queue with
  \<^verbatim>\<open>EventEnqueueFailure()\<close>.  \<open>fresh1\<close> and \<open>fresh2\<close> are the addresses of the events that
  \<^verbatim>\<open>EventEnqueue()\<close> may insert.  The result is what is left in \<^verbatim>\<open>errno\<close> and whether the callback
  thread was started.
\<close>

type_synonym ('b, 'w) async_result = "((errno \<times> bool) \<times> ('b, 'w) cw) option"

section \<open>Enqueueing\<close>

definition enqueue_failure :: "errno \<Rightarrow> nat \<Rightarrow> ('b, 'w) cw \<Rightarrow> ('b, 'w) async_result" where
  "enqueue_failure err src cw =
     do { (e, c1) \<leftarrow> EventEnqueueFailure err src (fst cw); Some ((e, False), c1, snd cw) }"

definition async_call ::
    "'b iob_ops \<Rightarrow> ('b, 'w) processor \<Rightarrow> ConnHandleView \<Rightarrow> ptr option \<Rightarrow> ptr option \<Rightarrow> ptr option \<Rightarrow> nat \<Rightarrow>
     ('b conn \<Rightarrow> 'b ConnEvent \<Rightarrow> 'b ConnEvent) \<Rightarrow> ('b, 'w) cw \<Rightarrow> ('b, 'w) async_result" where
  "async_call ops proc h fresh fresh1 fresh2 src setup cw =
     (case fresh of
        None \<Rightarrow> enqueue_failure ENOMEM src cw
      | Some p \<Rightarrow>
          do { ((r, notify), c2, w2) \<leftarrow>
                 EventEnqueue ops proc h fresh1 fresh2 src (Some p)
                   (upd_event p (\<lambda>_. setup (fst cw) ConnEventInit) (fst cw), snd cw);
               (case r of
                  None \<Rightarrow> Some ((0, notify), c2, w2)
                | Some err \<Rightarrow> enqueue_failure err src (ConnEventFree p c2, w2)) })"

definition asyncEnabled :: "ConnHandleView \<Rightarrow> bool" where
  "asyncEnabled h \<longleftrightarrow> has (flags_fixed h) CONN_HANDLE_ASYNC_ENABLED"

definition if_async :: "ConnHandleView \<Rightarrow> ('b, 'w) cw \<Rightarrow> ('b, 'w) async_result \<Rightarrow> ('b, 'w) async_result" where
  "if_async h cw r = (if asyncEnabled h then r else Some ((ECONNIOINIT, False), cw))"

definition assign_async ::
    "(ptr \<times> byte list) option \<Rightarrow> nat \<Rightarrow> int \<Rightarrow> ConnEventType \<Rightarrow> ConnEventClass \<Rightarrow> 'b option \<Rightarrow> nat \<Rightarrow>
     'b conn \<Rightarrow> 'b ConnEvent \<Rightarrow> 'b ConnEvent" where
  "assign_async data len timeout type cls b src =
     ConnEventAssign data len timeout type cls CONN_EVENT_MODE_ASYNCHRONOUS b src"

section \<open>Reading\<close>

definition ConnAReadToCondition ::
    "'b iob_ops \<Rightarrow> ('b, 'w) processor \<Rightarrow> ConnHandleView \<Rightarrow> ptr option \<times> ptr option \<times> ptr option \<Rightarrow> errno \<Rightarrow>
     ptr option \<Rightarrow> int \<Rightarrow> ConnEventType \<Rightarrow> byte list \<Rightarrow> u32 \<Rightarrow> int \<Rightarrow> nat \<Rightarrow> ('b, 'w) cw \<Rightarrow> ('b, 'w) async_result" where
  "ConnAReadToCondition ops proc h fr err0 buff buffSize type pattern dataMode timeout src cw =
     if_async h cw
       (if err0 \<noteq> 0 then enqueue_failure err0 src cw
        else if type = CONN_EVENT_READ_UNTIL_PATTERN \<and> length pattern > MAX_PATTERN_SIZE
        then enqueue_failure EINVAL src cw
        else if shuttingDown h then enqueue_failure ECONNHANDLESHUTDOWN src cw
        else
          (case fr of (fresh, fresh1, fresh2) \<Rightarrow>
             async_call ops proc h fresh fresh1 fresh2 src
               (\<lambda>c e. (assign_async (map_option (\<lambda>a. (a, [])) buff) (nat buffSize) timeout type
                         CONN_EVENT_CLASS_RECEIVE None src c e)
                  \<lparr>ce_dataMode := dataMode,
                   arg_pattern := (if type = CONN_EVENT_READ_UNTIL_PATTERN then pattern else [])\<rparr>) cw))"

type_synonym ('b, 'w) async_env =
  "'b iob_ops \<times> ('b, 'w) processor \<times> ConnHandleView \<times> (ptr option \<times> ptr option \<times> ptr option)"

text \<open>The arguments every call has, in one tuple.\<close>

definition areadc ::
    "('b, 'w) async_env \<Rightarrow> errno \<Rightarrow> ptr option \<Rightarrow> int \<Rightarrow> ConnEventType \<Rightarrow> byte list \<Rightarrow> u32 \<Rightarrow> int \<Rightarrow> nat \<Rightarrow>
     ('b, 'w) cw \<Rightarrow> ('b, 'w) async_result" where
  "areadc a = (case a of (ops, proc, h, fr) \<Rightarrow> ConnAReadToCondition ops proc h fr)"

type_synonym ('b, 'w) aread_call =
  "('b, 'w) async_env \<Rightarrow> ptr option \<Rightarrow> int \<Rightarrow> int \<Rightarrow> nat \<Rightarrow> ('b, 'w) cw \<Rightarrow> ('b, 'w) async_result"

definition ConnAReadEx :: "('b, 'w) aread_call" where
  "ConnAReadEx a buff buffSize =
     areadc a (read_args buff buffSize) buff buffSize CONN_EVENT_READ [] (CONN_READ_COPY OR CONN_READ_DELETE)"

definition ConnAReadCountEx :: "('b, 'w) aread_call" where
  "ConnAReadCountEx a buff buffSize =
     areadc a (read_args buff buffSize) buff buffSize CONN_EVENT_READ_COUNT [] (CONN_READ_COPY OR CONN_READ_DELETE)"

definition ConnAReadLineEx :: "('b, 'w) aread_call" where
  "ConnAReadLineEx a buff buffSize =
     areadc a (read_args buff buffSize) buff buffSize CONN_EVENT_READ_UNTIL_PATTERN LF
       (CONN_READ_COPY OR CONN_READ_DELETE OR CONN_READ_INCLUDE_PATTERN OR CONN_READ_TERMINATE)"

definition ConnAReadAnswerEx :: "('b, 'w) aread_call" where
  "ConnAReadAnswerEx a buff buffSize =
     areadc a (read_args buff buffSize) buff buffSize CONN_EVENT_READ_UNTIL_PATTERN LF
       (CONN_READ_COPY OR CONN_READ_DELETE OR CONN_READ_TERMINATE)"

definition ConnAReadUntilPatternEx :: "byte list \<Rightarrow> ('b, 'w) aread_call" where
  "ConnAReadUntilPatternEx pattern a buff buffSize =
     areadc a (read_args buff buffSize) buff buffSize CONN_EVENT_READ_UNTIL_PATTERN pattern
       (CONN_READ_COPY OR CONN_READ_DELETE)"

definition ConnAEatCountEx ::
    "('b, 'w) async_env \<Rightarrow> int \<Rightarrow> int \<Rightarrow> nat \<Rightarrow> ('b, 'w) cw \<Rightarrow> ('b, 'w) async_result" where
  "ConnAEatCountEx a count =
     areadc a (if count > 0 then 0 else EINVAL) None count CONN_EVENT_READ_COUNT [] CONN_READ_DELETE"

definition ConnAPeekEx :: "('b, 'w) aread_call" where
  "ConnAPeekEx a buff buffSize = areadc a (read_args buff buffSize) buff buffSize CONN_EVENT_READ [] CONN_READ_COPY"

definition ConnAPeekCountEx :: "('b, 'w) aread_call" where
  "ConnAPeekCountEx a buff buffSize =
     areadc a (read_args buff buffSize) buff buffSize CONN_EVENT_READ_COUNT [] CONN_READ_COPY"

definition ConnAPeekLineEx :: "('b, 'w) aread_call" where
  "ConnAPeekLineEx a buff buffSize =
     areadc a (read_args buff buffSize) buff buffSize CONN_EVENT_READ_UNTIL_PATTERN LF
       (CONN_READ_COPY OR CONN_READ_TERMINATE)"

definition ConnAPeekAnswerEx :: "('b, 'w) aread_call" where
  "ConnAPeekAnswerEx a buff buffSize =
     areadc a (read_args buff buffSize) buff buffSize CONN_EVENT_READ_UNTIL_PATTERN LF
       (CONN_READ_COPY OR CONN_READ_INCLUDE_PATTERN OR CONN_READ_TERMINATE)"

definition ConnAPeekUntilPatternEx :: "byte list \<Rightarrow> ('b, 'w) aread_call" where
  "ConnAPeekUntilPatternEx pattern a buff buffSize =
     areadc a (read_args buff buffSize) buff buffSize CONN_EVENT_READ_UNTIL_PATTERN pattern CONN_READ_COPY"

type_synonym ('b, 'w) atest_call =
  "('b, 'w) async_env \<Rightarrow> int \<Rightarrow> nat \<Rightarrow> ('b, 'w) cw \<Rightarrow> ('b, 'w) async_result"

definition ConnATestReadEx :: "('b, 'w) atest_call" where
  "ConnATestReadEx a = areadc a 0 None 0 CONN_EVENT_READ [] 0"

definition ConnATestReadCountEx :: "int \<Rightarrow> ('b, 'w) atest_call" where
  "ConnATestReadCountEx count a =
     areadc a (if count > 0 then 0 else EINVAL) None count CONN_EVENT_READ_COUNT [] 0"

definition ConnATestReadLineEx :: "('b, 'w) atest_call" where
  "ConnATestReadLineEx a = areadc a 0 None 0 CONN_EVENT_READ_UNTIL_PATTERN LF 0"

definition ConnATestReadCRLFEx :: "('b, 'w) atest_call" where
  "ConnATestReadCRLFEx a = areadc a 0 None 0 CONN_EVENT_READ_UNTIL_PATTERN SPECIAL_PATTERN_CRLF 0"

definition ConnATestReadUntilPatternEx :: "byte list \<Rightarrow> ('b, 'w) atest_call" where
  "ConnATestReadUntilPatternEx pattern a = areadc a 0 None 0 CONN_EVENT_READ_UNTIL_PATTERN pattern 0"

text \<open>
  The two reads that also submit.  \<open>client\<close> is the consumer's argument; the second pair of
  booleans is the result of \<^verbatim>\<open>EventsSubmit()\<close> and whether it started the callback thread.
\<close>

definition then_submit ::
    "('b, 'w) async_env \<Rightarrow> nat \<Rightarrow> nat \<Rightarrow> ('b, 'w) async_result \<Rightarrow> ((bool \<times> bool) \<times> ('b, 'w) cw) option" where
  "then_submit a client src r =
     (case a of (ops, proc, h, fr) \<Rightarrow> do { (_, cw1) \<leftarrow> r; EventsSubmit proc h client src cw1 })"

definition ConnAReadCRLFEx ::
    "bool \<Rightarrow> nat \<Rightarrow> ('b, 'w) async_env \<Rightarrow> ptr option \<Rightarrow> int \<Rightarrow> int \<Rightarrow> nat \<Rightarrow> ('b, 'w) cw \<Rightarrow>
     ((bool \<times> bool) \<times> ('b, 'w) cw) option" where
  "ConnAReadCRLFEx includeLF client a buff buffSize timeout src cw =
     then_submit a client src
       (areadc a (read_args buff buffSize) buff buffSize CONN_EVENT_READ_UNTIL_PATTERN SPECIAL_PATTERN_CRLF
          (gets_mode includeLF) timeout src cw)"

definition ConnAGetSEx ::
    "bool \<Rightarrow> nat \<Rightarrow> ('b, 'w) async_env \<Rightarrow> ptr option \<Rightarrow> int \<Rightarrow> int \<Rightarrow> nat \<Rightarrow> ('b, 'w) cw \<Rightarrow>
     ((bool \<times> bool) \<times> ('b, 'w) cw) option" where
  "ConnAGetSEx includeLF client a buff buffSize timeout src cw =
     then_submit a client src
       (areadc a (read_args buff buffSize) buff buffSize CONN_EVENT_READ_UNTIL_PATTERN LF
          (gets_mode includeLF) timeout src cw)"

definition ConnAReadToCBEx ::
    "('b, 'w) async_env \<Rightarrow> int \<Rightarrow> int \<Rightarrow> nat \<Rightarrow> ('b, 'w) cw \<Rightarrow> ('b, 'w) async_result" where
  "ConnAReadToCBEx a count timeout src cw =
     (case a of (ops, proc, h, fresh, fresh1, fresh2) \<Rightarrow>
        if count < 0 then Some ((EINVAL, False), cw)
        else if_async h cw
          (if shuttingDown h then enqueue_failure ECONNHANDLESHUTDOWN src cw
           else async_call ops proc h fresh fresh1 fresh2 src
                  (assign_async None (nat count) timeout CONN_EVENT_READ_TO_CB CONN_EVENT_CLASS_RECEIVE None src) cw))"

definition ConnAReadToConnEx ::
    "('b, 'w) async_env \<Rightarrow> int \<Rightarrow> int \<Rightarrow> nat \<Rightarrow> ('b, 'w) cw \<Rightarrow> ('b, 'w) async_result" where
  "ConnAReadToConnEx a count timeout src cw =
     (case a of (ops, proc, h, fresh, fresh1, fresh2) \<Rightarrow>
        if count = 0 then Some ((0, False), cw)
        else if_async h cw
          (if shuttingDown h then enqueue_failure ECONNHANDLESHUTDOWN src cw
           else async_call ops proc h fresh fresh1 fresh2 src
                  (assign_async None (nat (count mod 2 ^ 64)) timeout CONN_EVENT_READ_TO_CONN
                     CONN_EVENT_CLASS_RECEIVE None src) cw))"

section \<open>Events of the connect class\<close>

definition async_connect_call ::
    "('b, 'w) async_env \<Rightarrow> int \<Rightarrow> ConnEventType \<Rightarrow> nat \<Rightarrow> ('b, 'w) cw \<Rightarrow> ('b, 'w) async_result" where
  "async_connect_call a timeout type src =
     (case a of (ops, proc, h, fresh, fresh1, fresh2) \<Rightarrow>
        async_call ops proc h fresh fresh1 fresh2 src
          (assign_async None 0 timeout type CONN_EVENT_CLASS_CONNECT None src))"

definition view_of :: "('b, 'w) async_env \<Rightarrow> ConnHandleView" where
  "view_of a = fst (snd (snd a))"

definition ConnADisconnectEx ::
    "('b, 'w) async_env \<Rightarrow> int \<Rightarrow> nat \<Rightarrow> ('b, 'w) cw \<Rightarrow> ('b, 'w) async_result" where
  "ConnADisconnectEx a timeout src cw =
     if_async (view_of a) cw (async_connect_call a timeout CONN_EVENT_DISCONNECT src cw)"

definition ConnASSLConnectEx ::
    "('b, 'w) async_env \<Rightarrow> int \<Rightarrow> bool \<Rightarrow> nat \<Rightarrow> ('b, 'w) cw \<Rightarrow> ('b, 'w) async_result" where
  "ConnASSLConnectEx a timeout tls src cw =
     if_async (view_of a) cw
       (if shuttingDown (view_of a) then Some ((ECONNHANDLESHUTDOWN, False), cw)
        else async_connect_call a timeout
               (if tls then CONN_EVENT_TLS_CONNECT else CONN_EVENT_SSL_CONNECT) src cw)"

definition ConnASSLAcceptEx ::
    "('b, 'w) async_env \<Rightarrow> int \<Rightarrow> bool \<Rightarrow> nat \<Rightarrow> ('b, 'w) cw \<Rightarrow> ('b, 'w) async_result" where
  "ConnASSLAcceptEx a timeout tls src cw =
     if_async (view_of a) cw
       (if shuttingDown (view_of a) then enqueue_failure ECONNHANDLESHUTDOWN src cw
        else async_connect_call a timeout
               (if tls then CONN_EVENT_TLS_ACCEPT else CONN_EVENT_SSL_ACCEPT) src cw)"

definition ConnASSLDisconnectEx ::
    "('b, 'w) async_env \<Rightarrow> nat \<Rightarrow> ('b, 'w) cw \<Rightarrow> ('b, 'w) async_result" where
  "ConnASSLDisconnectEx a src cw =
     if_async (view_of a) cw
       (async_connect_call a CONN_TIMEOUT_DEFAULT CONN_EVENT_SSL_DISCONNECT src cw)"

text \<open>
  \<^verbatim>\<open>ConnAConnectEx()\<close>.  The addresses are copied: \<open>dst_copy\<close> and \<open>src_copy\<close> are the results of
  \<^verbatim>\<open>MemMalloc()\<close>, \<open>has_src\<close> tells whether there is a source address.
\<close>

definition ConnectAddressesDuplicate ::
    "ptr option \<Rightarrow> bool \<Rightarrow> ptr option \<Rightarrow> 'b ConnEvent \<Rightarrow> bool \<times> 'b ConnEvent" where
  "ConnectAddressesDuplicate dst_copy has_src src_copy e =
     (let e1 = e\<lparr>arg_src := None, arg_dst := dst_copy\<rparr>
      in if dst_copy = None then (False, e1)
         else if \<not> has_src then (True, e1)
         else (src_copy \<noteq> None, e1\<lparr>arg_src := src_copy\<rparr>))"

definition ConnectAddressesFreeCopy :: "'b ConnEvent \<Rightarrow> 'b ConnEvent" where
  "ConnectAddressesFreeCopy e = e\<lparr>arg_dst := None, arg_src := None\<rparr>"

definition aconnect_allocated ::
    "('b, 'w) async_env \<Rightarrow> ptr option \<Rightarrow> nat \<Rightarrow> bool \<Rightarrow> ptr option \<times> ptr option \<Rightarrow> int \<Rightarrow> nat \<Rightarrow> ('b, 'w) cw \<Rightarrow>
     (bool \<times> ('b, 'w) cw) option" where
  "aconnect_allocated a dest destLen has_src copies timeout src cw =
     (case a of (ops, proc, h, fresh, fresh1, fresh2) \<Rightarrow>
        if destLen = 0 \<or> dest = None \<or> fresh = None then Some (False, cw)
        else
          (let p = the fresh;
               e = assign_async None 0 timeout CONN_EVENT_CONNECT CONN_EVENT_CLASS_CONNECT None src (fst cw) ConnEventInit
           in case ConnectAddressesDuplicate (fst copies) has_src (snd copies) e of
                (False, e1) \<Rightarrow> Some (False, ConnEventFree p (upd_event p (\<lambda>_. e1) (fst cw)), snd cw)
              | (True, e1) \<Rightarrow>
                  do { ((r, _), c2, w2) \<leftarrow>
                         EventEnqueue ops proc h fresh1 fresh2 src (Some p) (upd_event p (\<lambda>_. e1) (fst cw), snd cw);
                       Some (if r = None then (True, c2, w2)
                             else (False, ConnEventFree p (upd_event p ConnectAddressesFreeCopy c2), w2)) }))"

definition ConnAConnectEx ::
    "('b, 'w net) async_env \<Rightarrow> 'w sys_ops \<Rightarrow> int \<times> int \<times> int \<times> int \<Rightarrow> ('b \<Rightarrow> 'b) \<Rightarrow> ptr \<Rightarrow> SOCK option \<Rightarrow>
     'b conn option \<Rightarrow> ('b conn \<Rightarrow> 'b conn) \<Rightarrow> ptr option \<Rightarrow> nat \<Rightarrow> bool \<Rightarrow> ptr option \<times> ptr option \<Rightarrow> int \<Rightarrow> nat \<Rightarrow>
     'w net \<Rightarrow> (bool \<times> 'b conn option \<times> 'w net) option" where
  "ConnAConnectEx a sys tm init ce new_sp entry cccb dest destLen has_src copies timeout src n =
     (if \<not> asyncEnabled (view_of a) \<or> shuttingDown (view_of a) then Some (False, None, n)
      else
        (case ConnAllocEx None new_sp entry of
           (_, None) \<Rightarrow> Some (False, None, n)
         | (_, Some c) \<Rightarrow>
             do { (ok, c1, n1) \<leftarrow> aconnect_allocated a dest destLen has_src copies timeout src (cccb c, n);
                  if ok then Some (True, Some c1, n1)
                  else do { (_, c2, n2) \<leftarrow> connFreeEx (fst a) (fst (snd a)) sys tm init ce src (c1, n1);
                            Some (False, Some c2, n2) } }))"

section \<open>Writing\<close>

definition connAFlushEx ::
    "'b iob_ops \<Rightarrow> ('b, 'w) processor \<Rightarrow> ConnHandleView \<Rightarrow> ptr option \<Rightarrow> 'b \<Rightarrow> int \<Rightarrow> nat \<Rightarrow> ('b, 'w) cw \<Rightarrow>
     ('b, 'w) async_result" where
  "connAFlushEx ops proc h fresh writeBuffer timeout src =
     async_call ops proc h fresh None None src
       (assign_async None 0 timeout CONN_EVENT_FLUSH CONN_EVENT_CLASS_SEND (Some writeBuffer) src)"

definition ConnAFlushEx ::
    "'b iob_ops \<Rightarrow> ('b, 'w) processor \<Rightarrow> ConnHandleView \<Rightarrow> ptr option \<Rightarrow> int \<Rightarrow> nat \<Rightarrow> ('b, 'w) cw \<Rightarrow>
     ('b, 'w) async_result" where
  "ConnAFlushEx ops proc h fresh timeout src cw =
     if_async h cw
       (case bufferedSendDataGet ops WITH_DATA (fst cw) of
          (None, c1) \<Rightarrow> Some ((0, False), c1, snd cw)
        | (Some sb, c1) \<Rightarrow> connAFlushEx ops proc h fresh sb timeout src (c1, snd cw))"

text \<open>
  The loop of \<^verbatim>\<open>writeClientData()\<close> when it is asynchronous: a full buffer is enqueued.  \<open>fresh k\<close> is
  the address of the event for the \<open>k\<close>-th full buffer, \<open>notified\<close> whether a callback thread was started.
\<close>

partial_function (option) awrite_loop ::
    "'b iob_ops \<Rightarrow> ('b, 'w) processor \<Rightarrow> ConnHandleView \<Rightarrow> (nat \<Rightarrow> ptr option) \<Rightarrow> nat \<Rightarrow> int \<Rightarrow> nat \<Rightarrow>
     byte list \<Rightarrow> nat \<Rightarrow> bool \<Rightarrow> ('b, 'w) cw \<Rightarrow> ('b, 'w) async_result" where
  "awrite_loop ops proc h fresh k timeout src data transferred notified cw =
     (case bufferedSendDataGet ops EMPTY_OK (fst cw) of (bo, c1) \<Rightarrow>
        if bo = None then
          do { ((e, _), cw2) \<leftarrow> enqueue_failure ENOMEM src (c1, snd cw); Some ((e, notified), cw2) }
        else
          (case fill_write_buffer ops data transferred (the bo) of (finished, t, b) \<Rightarrow>
             if finished then Some ((0, notified), bufferedSendDataKeep ops b c1, snd cw)
             else
               do { ((err, nt), cw2) \<leftarrow> connAFlushEx ops proc h (fresh k) b timeout src (c1, snd cw);
                    if err \<noteq> 0 then Some ((err, notified \<or> nt), cw2)
                    else awrite_loop ops proc h fresh (k + 1) timeout src data t (notified \<or> nt) cw2 }))"

definition writeClientData_async ::
    "'b iob_ops \<Rightarrow> ('b, 'w) processor \<Rightarrow> ConnHandleView \<Rightarrow> (nat \<Rightarrow> ptr option) \<Rightarrow> int \<Rightarrow> nat \<Rightarrow>
     byte list \<Rightarrow> ('b, 'w) cw \<Rightarrow> ('b, 'w) async_result" where
  "writeClientData_async ops proc h fresh timeout src data cw =
     (let c1 = (if state (fst cw) = CONN_STATE_IDLE
                then (fst cw)\<lparr>state := CONN_STATE_ASYNCHRONOUS_CLIENT\<rparr> else fst cw)
      in if data \<noteq> [] then awrite_loop ops proc h fresh 0 timeout src data 0 False (c1, snd cw)
         else Some ((0, False), c1, snd cw))"

definition ConnAWriteEx ::
    "'b iob_ops \<Rightarrow> ('b, 'w) processor \<Rightarrow> ConnHandleView \<Rightarrow> (nat \<Rightarrow> ptr option) \<Rightarrow> int \<Rightarrow> nat \<Rightarrow>
     byte list \<Rightarrow> ('b, 'w) cw \<Rightarrow> ('b, 'w) async_result" where
  "ConnAWriteEx ops proc h fresh timeout src data cw =
     (if data = [] then Some ((0, False), cw)
      else if_async h cw (writeClientData_async ops proc h fresh timeout src data cw))"

definition ConnAWriteStringEx ::
    "'b iob_ops \<Rightarrow> ('b, 'w) processor \<Rightarrow> ConnHandleView \<Rightarrow> (nat \<Rightarrow> ptr option) \<Rightarrow> int \<Rightarrow> nat \<Rightarrow>
     byte list \<Rightarrow> ('b, 'w) cw \<Rightarrow> ('b, 'w) async_result" where
  "ConnAWriteStringEx ops proc h fresh timeout src string cw =
     if_async h cw (writeClientData_async ops proc h fresh timeout src string cw)"

text \<open>\<open>freed\<close> is whether the client's buffer was given back through \<^verbatim>\<open>freeCB\<close> before the call returned.\<close>

definition ConnAWriteFromBufferEx ::
    "'b iob_ops \<Rightarrow> ('b, 'w) processor \<Rightarrow> ConnHandleView \<Rightarrow> (nat \<Rightarrow> ptr option) \<Rightarrow> ptr option \<Rightarrow> int \<Rightarrow> nat \<Rightarrow>
     ptr \<times> byte list \<Rightarrow> ('b, 'w) cw \<Rightarrow> (bool \<times> bool \<times> ('b, 'w) cw) option" where
  "ConnAWriteFromBufferEx ops proc h fresh fresh0 timeout src data cw =
     (if snd data = [] \<or> \<not> asyncEnabled h then Some (False, False, cw)
      else if length (snd data) < CONN_IOB_SIZE then
        do { ((_, nt), cw1) \<leftarrow> writeClientData_async ops proc h fresh timeout src (snd data) cw;
             Some (True, nt, cw1) }
      else
        do { (nt1, c1, w1) \<leftarrow>
               (case bufferedSendDataGet ops WITH_DATA (fst cw) of
                  (None, d) \<Rightarrow> Some (False, d, snd cw)
                | (Some sb, d) \<Rightarrow>
                    map_option (\<lambda>((_, nt), cw1). (nt, cw1)) (connAFlushEx ops proc h (fresh 0) sb timeout src (d, snd cw)));
             (case fresh0 of
                None \<Rightarrow> do { c2 \<leftarrow> EventQueueAbort None CONN_EVENT_FAILED ENOMEM src c1; Some (True, nt1, c2, w1) }
              | Some p \<Rightarrow>
                  do { ((r, nt2), c2, w2) \<leftarrow>
                         EventEnqueue ops proc h None None src (Some p)
                           (upd_event p (\<lambda>_. assign_async (Some data) (length (snd data)) timeout
                              CONN_EVENT_WRITE_FROM_CLIENT_BUFFER CONN_EVENT_CLASS_SEND None src c1 ConnEventInit) c1, w1);
                       (if r = None then Some (False, nt1 \<or> nt2, c2, w2)
                        else do { c3 \<leftarrow> EventQueueAbort None CONN_EVENT_FAILED ENOMEM src (ConnEventFree p c2);
                                  Some (True, nt1, c3, w2) }) }) })"

definition ConnAWriteVEx ::
    "'b iob_ops \<Rightarrow> ('b, 'w) processor \<Rightarrow> ConnHandleView \<Rightarrow> (nat \<Rightarrow> ptr option) \<Rightarrow> int \<Rightarrow> nat \<Rightarrow>
     (nat \<Rightarrow> int \<times> byte list) \<Rightarrow> (nat \<Rightarrow> bool) \<Rightarrow> ('b, 'w) cw \<Rightarrow> ('b, 'w) async_result" where
  "ConnAWriteVEx ops proc h fresh timeout src vsn alloc cw =
     if_async h cw
       (case vsn STACK_BUFFER_SIZE of (outSize, out) \<Rightarrow>
          if 0 \<le> outSize \<and> outSize < int STACK_BUFFER_SIZE
          then writeClientData_async ops proc h fresh timeout src (take (nat outSize) out) cw
          else
            (case CreateFormattedString vsn alloc of
               Formatted data \<Rightarrow> writeClientData_async ops proc h fresh timeout src data cw
             | Not_formatted err _ \<Rightarrow> Some ((err, False), cw)))"

text \<open>\<open>iob_errno\<close> is what a failing \<^verbatim>\<open>IOBAlloc()\<close> leaves in \<^verbatim>\<open>errno\<close>.\<close>

definition ConnAWriteFromCBEx ::
    "('b, 'w) async_env \<Rightarrow> errno \<Rightarrow> int \<Rightarrow> int \<Rightarrow> nat \<Rightarrow> ('b, 'w) cw \<Rightarrow> ('b, 'w) async_result" where
  "ConnAWriteFromCBEx a iob_errno count timeout src cw =
     (case a of (ops, proc, h, fresh, fresh1, fresh2) \<Rightarrow>
        if count < 0 then Some ((EINVAL, False), cw)
        else if_async h cw
          (if fresh = None then enqueue_failure ENOMEM src cw
           else
             (case bufferedSendDataGet ops EMPTY_OK (fst cw) of
                (None, c1) \<Rightarrow> 
                  enqueue_failure iob_errno src
                    (ConnEventFree (the fresh) (upd_event (the fresh) (\<lambda>_. ConnEventInit) c1), snd cw)
              | (Some b, c1) \<Rightarrow>
                  async_call ops proc h fresh fresh1 fresh2 src
                    (assign_async None (nat count) timeout CONN_EVENT_WRITE_FROM_CB CONN_EVENT_CLASS_SEND (Some b) src)
                    (c1, snd cw))))"

section \<open>Submitting\<close>

definition ConnAWriteBacklogEx :: "ConnHandleView \<Rightarrow> 'b conn \<Rightarrow> int option" where
  "ConnAWriteBacklogEx h c = (if asyncEnabled h then EventQueueCountFlushes c else Some 0)"

definition ConnANoopEx ::
    "'b iob_ops \<Rightarrow> ('b, 'w) processor \<Rightarrow> ConnHandleView \<Rightarrow> nat \<Rightarrow> ('b, 'w) cw \<Rightarrow> ('b, 'w) async_result" where
  "ConnANoopEx ops proc h src cw =
     if_async h cw
       (do { ((r, notify), cw1) \<leftarrow> EventEnqueue ops proc h None None src None cw;
             Some ((case r of None \<Rightarrow> 0 | Some e \<Rightarrow> e, notify), cw1) })"

definition ConnAQueuedEventsEx :: "ConnHandleView \<Rightarrow> 'b conn \<Rightarrow> bool" where
  "ConnAQueuedEventsEx h c \<longleftrightarrow> asyncEnabled h \<and> EventsQueued c"

definition ConnASubmitEx ::
    "('b, 'w) processor \<Rightarrow> ConnHandleView \<Rightarrow> nat \<Rightarrow> nat \<Rightarrow> ('b, 'w) cw \<Rightarrow> ((bool \<times> bool) \<times> ('b, 'w) cw) option" where
  "ConnASubmitEx proc h client src cw =
     (if asyncEnabled h then EventsSubmit proc h client src cw else Some ((False, False), cw))"

end
