(* ===== verification/WriteStream.thy ===== *)
theory WriteStream
  imports AsyncApi ProcessProps
begin

unbundle bit_operations_syntax

text \<open>
  From \<^verbatim>\<open>ConnWrite()\<close> to the wire.  The locale \<open>flush_service\<close> is what the writing functions of
  \<^verbatim>\<open>connio.c\<close> rely on when they have \<^verbatim>\<open>ConnEventProcess()\<close> work on a flush event: the bytes go out in
  order, and all of them when no error is reported.  It is interpreted on \<^verbatim>\<open>ConnEventProcess()\<close> over
  the unix socket layer.
\<close>

section \<open>The contract\<close>

definition flush_ready :: "'b ConnEvent \<Rightarrow> 'b \<Rightarrow> bool" where
  "flush_ready e b \<longleftrightarrow> ce_type e = CONN_EVENT_FLUSH \<and> ce_class e = CONN_EVENT_CLASS_SEND \<and>
     ce_mode e = CONN_EVENT_MODE_SYNCHRONOUS \<and> ce_error e = 0 \<and> ce_ioBuffer e = Some b"

definition slots :: "'b conn \<Rightarrow> ConnState \<times> ptr option \<times> ptr option \<times> ptr option" where
  "slots c = (state c, act_connect c, act_send c, act_receive c)"

definition pending :: "('b \<Rightarrow> byte list) \<Rightarrow> 'b conn \<Rightarrow> byte list" where
  "pending contents c = (case sendBuffer c of None \<Rightarrow> [] | Some b \<Rightarrow> contents b)"

locale flush_service =
  fixes proc :: "'b iob_ops \<Rightarrow> ('b, 'w) processor" and out :: "'w \<Rightarrow> byte list"
  assumes flush_law: "iob_ok norm contents ops \<Longrightarrow> flush_ready (mem c ce) b \<Longrightarrow>
      proc ops ce (c, w) = Some (st, c', w') \<Longrightarrow>
      \<exists>rest. out w' @ rest = out w @ contents b \<and> (ce_error (mem c' ce) = 0 \<longrightarrow> rest = [])"
    and quiet_law: "proc ops ce (c, w) = Some (st, c', w') \<Longrightarrow> slots c' = slots c \<and> sendBuffer c' = sendBuffer c"

section \<open>Filling a buffer\<close>

lemma fill_buffer:
  "iob_ok norm contents ops \<Longrightarrow> t \<le> length data \<Longrightarrow> fill_write_buffer ops data t b = (fin, t', b') \<Longrightarrow>
     t \<le> t' \<and> t' \<le> length data \<and> contents b' = contents b @ take (t' - t) (drop t data) \<and>
     (fin \<longrightarrow> t' = length data)"
proof (induction ops data t b rule: fill_write_buffer.induct)
  case (1 ops data t b)
  let ?n = "IOBGetFree ops b" and ?r = "length data - t"
  note step = 1(4) [unfolded fill_write_buffer.simps [of ops data t b] Let_def]
  show ?case
  proof (cases "?n = 0")
    case True
    with step 1(3) show ?thesis by simp
  next
    case n: False
    show ?thesis
    proof (cases "?n > ?r")
      case True
      with step n have "t' = t + ?r" "b' = IOBWrite ops (take ?r (drop t data)) b" by auto
      with iob_write [OF 1(2), of "take ?r (drop t data)" b] True 1(3) show ?thesis by simp
    next
      case False
      let ?b = "IOBWrite ops (take ?n (drop t data)) b"
      from step n False have "fill_write_buffer ops data (t + ?n) ?b = (fin, t', b')" by simp
      from 1(1) [OF refl refl n False 1(2) _ this] False n 1(3)
      have ih: "t + ?n \<le> t'" "t' \<le> length data" "contents b' = contents ?b @ take (t' - (t + ?n)) (drop (t + ?n) data)"
        "fin \<longrightarrow> t' = length data" by auto
      with iob_write [OF 1(2), of "take ?n (drop t data)" b] take_round [OF ih(1), of data] show ?thesis by auto
    qed
  qed
qed

lemma send_data_get:
  assumes "bufferedSendDataGet ops options c = (bo, c1)"
  shows "sendBuffer c1 = None" and "slots c1 = slots c" and "mem c1 = mem c"
    and "iob_ok norm contents ops \<Longrightarrow> bo = Some b \<Longrightarrow> contents b = pending contents c"
    and "iob_ok norm contents ops \<Longrightarrow> bo = None \<Longrightarrow> pending contents c = []"
  using assms iob_alloc [of norm contents ops CONN_IOB_SIZE b] iob_used_empty [of norm contents ops]
  by (auto simp: bufferedSendDataGet_def slots_def pending_def split: option.splits if_splits)

lemma send_data_keep:
  assumes "iob_ok norm contents ops" and "sendBuffer c = None"
  shows "pending contents (bufferedSendDataKeep ops b c) = contents b" "slots (bufferedSendDataKeep ops b c) = slots c"
  using assms iob_used_empty [OF assms(1), of b] by (auto simp: bufferedSendDataKeep_def pending_def slots_def)

section \<open>Writing over the contract\<close>

lemma assign_ready [simp]: "flush_ready (mem (assign_flush ce b timeout src c) ce) b"
  by (simp add: assign_flush_def assign_event_def flush_ready_def ConnEventAssign_def ConnEventSetTimeout_def Let_def)

lemma assign_quiet [simp]:
  "sendBuffer (assign_flush ce b timeout src c) = sendBuffer c" "slots (assign_flush ce b timeout src c) = slots c"
  "slots (upd_event ce f c) = slots c"
  by (simp_all add: assign_flush_def assign_event_def slots_def)

lemma send_insert:
  "SynchronousSendEventInsert ce c = (err, c') \<Longrightarrow> sendBuffer c' = sendBuffer c \<and> mem c' = mem c"
  by (auto simp: SynchronousSendEventInsert_def split: if_splits)

lemma send_remove [simp]: "sendBuffer (snd (SynchronousSendEventRemove ce c)) = sendBuffer c"
  by (simp add: SynchronousSendEventRemove_def)

text \<open>
  What a write has put on the wire and into the send buffer is what was there, followed by the new
  data; with an error, what is on the wire is a first part of that.
\<close>

definition wrote ::
    "('w \<Rightarrow> byte list) \<Rightarrow> ('b \<Rightarrow> byte list) \<Rightarrow> byte list \<Rightarrow> nat \<Rightarrow> 'b conn \<times> 'w \<Rightarrow> nat \<times> errno \<times> 'b conn \<times> 'w \<Rightarrow> bool" where
  "wrote out contents data t cw r \<longleftrightarrow> (case r of (t', err, cw') \<Rightarrow>
     t \<le> t' \<and> t' \<le> length data \<and>
     (err = 0 \<longrightarrow> t' = length data \<and>
        out (snd cw') @ pending contents (fst cw') = out (snd cw) @ pending contents (fst cw) @ drop t data) \<and>
     (err \<noteq> 0 \<longrightarrow> pending contents (fst cw') = [] \<and>
        (\<exists>rest. out (snd cw') @ rest = out (snd cw) @ pending contents (fst cw) @ take (t' - t) (drop t data))))"

context flush_service
begin

lemma flush_call:
  assumes ok: "iob_ok norm contents ops" and f: "connFlushEx (proc ops) ce b timeout src (c, w) = Some (n, err, c', w')"
  shows "\<exists>rest. out w' @ rest = out w @ contents b \<and> (err = 0 \<longrightarrow> rest = [])" and "sendBuffer c' = sendBuffer c"
proof -
  let ?c1 = "assign_flush ce b timeout src (upd_event ce (\<lambda>_. ConnEventInit) c)"
  obtain e c2 where ins: "SynchronousSendEventInsert ce ?c1 = (e, c2)" by fastforce
  note i = send_insert [OF ins]
  have "(\<exists>rest. out w' @ rest = out w @ contents b \<and> (err = 0 \<longrightarrow> rest = [])) \<and> sendBuffer c' = sendBuffer c"
  proof (cases "e = 0")
    case False
    with f ins i show ?thesis by (auto simp: connFlushEx_def)
  next
    case True
    with f ins obtain st c3 where p: "proc ops ce (c2, w) = Some (st, c3, w')" and err: "err = ce_error (mem c3 ce)"
      and c': "c' = snd (SynchronousSendEventRemove ce c3)"
      by (auto simp: connFlushEx_def split: Option.bind_splits)
    have "flush_ready (mem c2 ce) b" using i by simp
    from flush_law [OF ok this p] quiet_law [OF p] i show ?thesis by (simp add: err c')
  qed
  then show "\<exists>rest. out w' @ rest = out w @ contents b \<and> (err = 0 \<longrightarrow> rest = [])" and "sendBuffer c' = sendBuffer c"
    by blast+
qed

lemma write_loop_stream:
  assumes "iob_ok norm contents ops" and "t \<le> length data"
    and "write_loop ops (proc ops) ce timeout src data t cw = Some r"
  shows "wrote out contents data t cw r"
proof -
  let ?Q = "\<lambda>o1 pr t d. o1 = ops \<and> pr = proc ops \<and> t \<le> length d"
  from assms(3) have "?Q ops (proc ops) t data \<longrightarrow> wrote out contents data t cw r"
  proof (rule write_loop.raw_induct [rotated, where
        P = "\<lambda>o1 pr ce timeout src d t cw r. ?Q o1 pr t d \<longrightarrow> wrote out contents d t cw r"], goal_cases)
    case (1 f o1 pr ce timeout src d t cw r)
    show ?case
    proof (intro impI)
      assume Q: "?Q o1 pr t d"
      obtain c w where cw: "cw = (c, w)" by fastforce
      obtain bo c1 where g: "bufferedSendDataGet ops EMPTY_OK c = (bo, c1)" by fastforce
      show "wrote out contents d t cw r"
      proof (cases bo)
        case None
        with 1(2) Q g cw have "r = (t, ENOMEM, c1, w)" by auto
        with send_data_get [OF g] Q cw None show ?thesis by (simp add: wrote_def pending_def)
      next
        case (Some b)
        note sg = send_data_get(1-3) [OF g] send_data_get(4) [OF g assms(1) Some]
        obtain fin t1 b1 where fl: "fill_write_buffer ops d t b = (fin, t1, b1)" by (metis prod_cases3)
        from fill_buffer [OF assms(1) _ fl] Q
        have t1: "t \<le> t1" "t1 \<le> length d" and b1: "contents b1 = contents b @ take (t1 - t) (drop t d)"
          and fin: "fin \<longrightarrow> t1 = length d" by auto
        show ?thesis
        proof (cases fin)
          case True
          with 1(2) Q g cw Some fl have "r = (t1, 0, bufferedSendDataKeep ops b1 c1, w)" by auto
          with send_data_keep(1) [OF assms(1) sg(1)] b1 sg t1 fin True cw show ?thesis by (simp add: wrote_def)
        next
          case False
          with 1(2) Q g cw Some fl obtain n err c2 w2 where
            fe: "connFlushEx (proc ops) ce b1 timeout src (c1, w) = Some (n, err, c2, w2)" and
            r: "if err \<noteq> 0 then r = (t1, err, c2, w2) else f ops (proc ops) ce timeout src d t1 (c2, w2) = Some r"
            by (auto split: Option.bind_splits if_splits)
          from flush_call [OF assms(1) fe] sg b1 obtain rest where
            rest: "out w2 @ rest = out w @ pending contents c @ take (t1 - t) (drop t d)" "err = 0 \<longrightarrow> rest = []"
            and p2: "pending contents c2 = []" by (auto simp: pending_def)
          show ?thesis
          proof (cases "err = 0")
            case False
            with r rest p2 t1 cw show ?thesis by (auto simp: wrote_def)
          next
            case True
            with r have "f ops (proc ops) ce timeout src d t1 (c2, w2) = Some r" by simp
            from 1(1) [OF this] t1 have ih: "wrote out contents d t1 (c2, w2) r" by simp
            obtain t2 err2 c3 w3 where r2: "r = (t2, err2, c3, w3)" by (metis prod_cases4)
            have w2: "out w2 = out w @ pending contents c @ take (t1 - t) (drop t d)" using rest True by simp
            have d1: "take (t1 - t) (drop t d) @ drop t1 d = drop t d"
              using t1 append_take_drop_id [of "t1 - t" "drop t d"] by simp
            have d2: "t1 \<le> t2 \<Longrightarrow> take (t1 - t) (drop t d) @ take (t2 - t1) (drop t1 d) = take (t2 - t) (drop t d)"
              using t1 take_round [of t "t1 - t" t2 d] by simp
            from ih t1 Q show ?thesis by (auto simp: wrote_def r2 cw p2 w2 d1 d2)
          qed
        qed
      qed
    qed
  qed
  with assms(2) show ?thesis by simp
qed

lemma write_stream:
  assumes "iob_ok norm contents ops"
    and "ConnWriteEx ops (proc ops) h ce timeout src data (c, w) = Some (t, err, c', w')"
  shows "t \<le> length data \<and>
    (err = 0 \<longrightarrow> t = length data \<and> out w' @ pending contents c' = out w @ pending contents c @ data) \<and>
    (err \<noteq> 0 \<longrightarrow> (\<exists>rest. out w' @ rest = out w @ pending contents c @ take t data))"
proof (cases "data = [] \<or> shuttingDown h")
  case True
  with assms(2) show ?thesis by (auto simp: ConnWriteEx_def split: if_splits)
next
  case False
  with assms(2) have "write_loop ops (proc ops) ce timeout src data 0 (c, w) = Some (t, err, c', w')"
    by (simp add: ConnWriteEx_def writeClientData_def)
  from write_loop_stream [OF assms(1) _ this] show ?thesis by (auto simp: wrote_def)
qed

lemma flush_stream:
  assumes "iob_ok norm contents ops"
    and "ConnFlushEx ops (proc ops) ce timeout src (c, w) = Some (t, err, c', w')"
  shows "pending contents c' = [] \<and> (\<exists>rest. out w' @ rest = out w @ pending contents c \<and> (err = 0 \<longrightarrow> rest = []))"
proof -
  obtain bo c1 where g: "bufferedSendDataGet ops WITH_DATA c = (bo, c1)" by fastforce
  note sg = send_data_get [OF g]
  show ?thesis
  proof (cases bo)
    case None
    with assms g sg show ?thesis by (auto simp: ConnFlushEx_def pending_def)
  next
    case (Some b)
    with assms(2) g have "connFlushEx (proc ops) ce b timeout src (c1, w) = Some (t, err, c', w')"
      by (simp add: ConnFlushEx_def)
    from flush_call [OF assms(1) this] sg(1) sg(4) [OF assms(1) Some] show ?thesis by (simp add: pending_def)
  qed
qed

end

section \<open>ConnEventProcess() as the service\<close>

text \<open>
  \<open>prompt_sends\<close>: \<^verbatim>\<open>send()\<close> of at least one byte moves a byte or fails with an errno.  \<open>io_env\<close> is the
  environment of an event on the unix socket layer.
\<close>

definition prompt_sends :: "'w sys_ops \<Rightarrow> 'w sys_ops" where
  "prompt_sends sys = sys\<lparr>sys_send := (\<lambda>fd buff w. case sys_send sys fd buff w of
     (c, err, w') \<Rightarrow> if c > 0 then (c, err, w') else (-1, if err = 0 then EIO else err, w'))\<rparr>"

lemma prompt_reports [simp]: "send_reports (prompt_sends sys)"
  by (auto simp: send_reports_def prompt_sends_def split: prod.splits)

definition io_env ::
    "'w sys_ops \<Rightarrow> bool \<Rightarrow> ptr \<Rightarrow> ('b, 'w io) penv \<Rightarrow> 'b iob_ops \<Rightarrow> ('b, 'w io) penv" where
  "io_env sys src ce env ops =
     env\<lparr>iob := ops, sock := unix_sock_ops (whole_writes (prompt_sends sys)) src ce\<rparr>"

lemma io_env_fields [simp]:
  "iob (io_env sys src ce env ops) = ops"
  "sock (io_env sys src ce env ops) = unix_sock_ops (whole_writes (prompt_sends sys)) src ce"
  by (simp_all add: io_env_def)

lemma wait_writable_out [simp]: "wire_out (snd (sockWaitForWritable sys fd t n)) = wire_out n"
  by (metis prod.collapse wait_writable_wire)

lemma wait_wire:
  assumes "socketWait sys bo t sn = Some (err, sn')"
  shows "wire_out (snd sn') = wire_out (snd sn) \<and> fst sn' = fst sn"
  using assms
  by (cases sn) (auto simp: socketWait_def on_net_def dest!: wait_readable_wire
      split: SocketEventType.splits)

text \<open>The state of a flush after some attempts, and at its end.\<close>

definition flushed :: "('b \<Rightarrow> byte list) \<Rightarrow> ('b, 'w io) pst \<Rightarrow> ('b, 'w io) pst \<Rightarrow> bool" where
  "flushed contents p q \<longleftrightarrow>
     wire_out (snd (psock q)) @ contents (pbuf q) = wire_out (snd (psock p)) @ contents (pbuf p)"

lemma flush_attempts:
  assumes iob: "iob_ok norm contents (iob env)" and sk: "sock env = unix_sock_ops (whole_writes sys) src ce"
    and rep: "send_reports sys" and ev: "ce_type (pe p) = CONN_EVENT_FLUSH" "ce_mode (pe p) = CONN_EVENT_MODE_SYNCHRONOUS"
    and a: "event_attempts env prob bo p = Some (st, q)" and e0: "ce_error (pe p) = 0"
  shows "flushed contents p q \<and> st \<noteq> CONN_EVENT_IN_PROGRESS \<and> (ce_error (pe q) = 0 \<longrightarrow> contents (pbuf q) = [])"
proof -
  let ?Q = "\<lambda>env' p. env' = env \<and> ce_type (pe p) = CONN_EVENT_FLUSH \<and> ce_mode (pe p) = CONN_EVENT_MODE_SYNCHRONOUS"
  let ?P = "\<lambda>p r. flushed contents p (snd r) \<and> fst r \<noteq> CONN_EVENT_IN_PROGRESS \<and>
    (ce_error (pe (snd r)) = 0 \<longrightarrow> contents (pbuf (snd r)) = [])"
  have "?Q env p \<longrightarrow> ?P p r" if "event_attempts env prob bo p = Some r" for r
    using that
  proof (rule event_attempts.raw_induct [rotated, where P = "\<lambda>env' prob bo p r. ?Q env' p \<longrightarrow> ?P p r"], goal_cases)
    case (1 f env' prob bo p r)
    show ?case
    proof (intro impI)
      assume Q: "?Q env' p"
      from flush_returns [OF iob sk, of bo p] obtain err b1 p1 where
        fl: "flushSendBuffer env bo p = Some (err, b1, p1)" by auto
      note fs = unixx.flush_stream [OF iob sk fl] and pe1 = flush_pe [OF fl]
      have f1: "flushed contents p p1" using fs by (simp add: flushed_def)
      have step: "socketEventProcess env bo p = Some (err, b1, p1)" using Q fl by (simp add: socketEventProcess_def)
      have ab: "?P p (abort_event env (set_error z (p1\<lparr>psock := y\<rparr>)))"
        if "z \<noteq> 0" "wire_out (snd y) = wire_out (snd (psock p1))" for y z
        using that f1 Q pe1 by (simp add: abort_event_def socketEventAbort_def set_error_def flushed_def Let_def)
      show "?P p r"
      proof (cases "err = 0")
        case True
        with 1(2) Q step have "r = (CONN_EVENT_COMPLETE, socketEventComplete env p1)" by simp
        with flush_success [OF iob sk, of bo p b1 p1] rep True fl f1 Q pe1 show ?thesis
          by (simp add: socketEventComplete_def)
      next
        case False
        show ?thesis
        proof (cases "err = EWOULDBLOCK")
          case False
          with 1(2) Q step \<open>err \<noteq> 0\<close> have "r = abort_event env (set_error err p1)" by simp
          with ab [OF \<open>err \<noteq> 0\<close>, of "psock p1"] show ?thesis by simp
        next
          case True
          with 1(2) Q step pe1 obtain werr s where
            wt: "socketWait (whole_writes sys) b1 (ce_timeOut (pe p1)) (psock p1) = Some (werr, s)" and
            r: "if werr = 0 then f env prob b1 (set_status CONN_EVENT_IN_PROGRESS (p1\<lparr>psock := s\<rparr>)) = Some r
              else r = abort_event env (set_error werr (p1\<lparr>psock := s\<rparr>))"
            by (auto simp: sk unix_sock_ops_def split: Option.bind_splits if_splits)
          note ww = wait_wire [OF wt]
          show ?thesis
          proof (cases "werr = 0")
            case True
            let ?p2 = "set_status CONN_EVENT_IN_PROGRESS (p1\<lparr>psock := s\<rparr>)"
            from r True have "f env prob b1 ?p2 = Some r" by simp
            from 1(1) [OF this] Q pe1 have "?P ?p2 r" by (simp add: set_status_def)
            with f1 ww show ?thesis by (simp add: flushed_def set_status_def)
          next
            case False
            with r ab [OF False] ww show ?thesis by simp
          qed
        qed
      qed
    qed
  qed
  from this [OF a] ev show ?thesis by simp
qed

interpretation unixf: flush_service "\<lambda>ops. ConnEventProcess (io_env sys src ce env ops)" wire_out
  for sys :: "'w sys_ops" and src ce and env :: "('b, 'w io) penv"
proof (unfold_locales, goal_cases)
  case (1 norm contents ops c ev b w st c' w')
  let ?env = "io_env sys src ce env ops" and ?p = "load_event ev (c, w)"
  from 1(3) obtain st1 p1 where e: "EventProcess ?env (problem c \<noteq> None) ?p = Some (st1, p1)"
    and cw: "(c', w') = store_event ev c (if st1 \<noteq> CONN_EVENT_IN_PROGRESS
      then set_status st1 (on_event ConnEventFreeResources (p1\<lparr>pe := keep_buffer p1\<rparr>))
      else p1\<lparr>pe := keep_buffer p1\<rparr>)"
    by (auto simp: ConnEventProcess_def run_event_def Let_def split: Option.bind_splits)
  have p: "pe ?p = mem c ev" "pbuf ?p = b" "psock ?p = (sp c, w)"
    using 1(2) by (simp_all add: load_event_def flush_ready_def)
  from e 1(2) have a: "event_attempts ?env (problem c \<noteq> None) SOCK_EVENT_TYPE_NONE ?p = Some (st1, p1)"
    by (simp add: EventProcess_def p flush_ready_def)
  have "flushed contents ?p p1 \<and> st1 \<noteq> CONN_EVENT_IN_PROGRESS \<and> (ce_error (pe p1) = 0 \<longrightarrow> contents (pbuf p1) = [])"
    by (rule flush_attempts [OF _ _ prompt_reports _ _ a]) (use 1(1,2) in \<open>simp_all add: p flush_ready_def\<close>)
  moreover have "ce_error (ConnEventFreeResources (keep_buffer p1)) = ce_error (pe p1)"
    by (simp add: ConnEventFreeResources_def keep_buffer_def split: option.splits)
  ultimately show ?case using cw
    by (intro exI [of _ "contents (pbuf p1)"]) (simp add: store_event_def flushed_def p set_status_def on_event_def)
next
  case (2 ops ev c w st c' w')
  from 2 ConnEventProcess_quiet [OF 2] show ?case
    by (auto simp: quiet_def same_slots_def same_trans_def slots_def ConnEventProcess_def store_event_def
        split: Option.bind_splits)
qed

end
