(* ===== verification/ApiProps.thy ===== *)
theory ApiProps
  imports WriteStream
begin

unbundle bit_operations_syntax

text \<open>
  Properties of the entry points of \<^verbatim>\<open>connio.c\<close>: what a write puts on the wire, the slots of
  synchronous calls, peeking and eating, formatted output, and how a connection ends.
\<close>

section \<open>Writing\<close>

text \<open>
  C7. A synchronous write appends its data to the stream: when it reports no error, all the data was
  taken and what is on the wire followed by what is buffered is what was there before followed by the
  data.  When it reports an error, what is on the wire is a first part of that.
\<close>

theorem write_appends_to_the_stream:
  assumes "iob_ok norm contents ops"
    and "ConnWriteEx ops (ConnEventProcess (io_env sys src ce0 env ops)) h ce timeout line data (c, n) =
      Some (t, err, c', n')"
  shows "t \<le> length data \<and>
    (err = 0 \<longrightarrow> t = length data \<and>
       wire_out n' @ pending contents c' = wire_out n @ pending contents c @ data) \<and>
    (err \<noteq> 0 \<longrightarrow> (\<exists>rest. wire_out n' @ rest = wire_out n @ pending contents c @ take t data))"
  by (rule unixf.write_stream [OF assms])

definition demo_net :: "byte list net" where
  "demo_net = \<lparr>kernel = [], wire_out = [], wire_in = []\<rparr>"

definition demo_handle :: ConnHandleView where
  "demo_handle = \<lparr>shuttingDown = False, flags_fixed = CONN_HANDLE_ASYNC_ENABLED,
     flags_dynamic = CONN_HANDLE_DYN_FLAG_WAIT_FOR_SUBMIT\<rparr>"

lemma list_iob_sel [simp]:
  "IOBGetUsed (list_iob k) b = b" "IOBGetFree (list_iob k) b = k - length b" "IOBWrite (list_iob k) d b = b @ d"
  "IOBMarkFree (list_iob k) j b = drop j b" "IOBAlloc (list_iob k) j = Some []" "IOBMarkUsed (list_iob k) d b = b @ d"
  by (simp_all add: list_iob_def)

abbreviation demo_proc :: "(byte list, byte list net) processor" where
  "demo_proc \<equiv> ConnEventProcess (io_env demo_sys False 5 demo_env (list_iob 8))"

lemma write_small:
  assumes "bufferedSendDataGet ops EMPTY_OK c = (Some b, c1)" and "length data < IOBGetFree ops b"
  shows "write_loop ops proc ce timeout src data 0 (c, w) =
    Some (length data, 0, bufferedSendDataKeep ops (IOBWrite ops data b) c1, w)"
  using assms by (subst write_loop.simps) (simp add: fill_write_buffer.simps Let_def)

lemma demo_write:
  "ConnWriteEx (list_iob 8) proc demo_handle 5 0 9 [7, 8, 9] (idle_conn\<lparr>sendBuffer := Some [6]\<rparr>, demo_net) =
     Some (3, 0, idle_conn\<lparr>sendBuffer := Some [6, 7, 8, 9]\<rparr>, demo_net)"
proof -
  have g: "bufferedSendDataGet (list_iob 8) EMPTY_OK (idle_conn\<lparr>sendBuffer := Some [6]\<rparr>) =
      (Some [6], idle_conn\<lparr>sendBuffer := None\<rparr>)"
    by (simp add: bufferedSendDataGet_def)
  show ?thesis
    using write_small [OF g, of "[7, 8, 9]" proc 5 0 9 demo_net]
    by (simp add: ConnWriteEx_def writeClientData_def demo_handle_def bufferedSendDataKeep_def)
qed

theorem write_appends_to_the_stream_witness:
  "\<exists>c' n'. ConnWriteEx (list_iob 8) demo_proc demo_handle 5 0 9
      [7, 8, 9] (idle_conn\<lparr>sendBuffer := Some [6]\<rparr>, demo_net) = Some (3, 0, c', n') \<and>
    wire_out n' @ pending id c' = [6, 7, 8, 9]"
  using write_appends_to_the_stream [OF demo_facts(3) demo_write [of demo_proc]] demo_write [of demo_proc]
  by (auto simp: demo_net_def pending_def)

text \<open>
  C6. A write followed by a flush, both without an error, is a round trip over the send buffer: exactly
  what was buffered and the new data went out, in this order, and nothing is left behind.
\<close>

theorem write_and_flush_send_everything:
  assumes "iob_ok norm contents ops"
    and "ConnWriteEx ops (ConnEventProcess (io_env sys src ce0 env ops)) h ce timeout line data (c, n) =
      Some (t, 0, c1, n1)"
    and "ConnFlushEx ops (ConnEventProcess (io_env sys src ce0 env ops)) ce timeout line (c1, n1) = Some (u, 0, c2, n2)"
  shows "wire_out n2 = wire_out n @ pending contents c @ data \<and> pending contents c2 = []"
  using unixf.write_stream [OF assms(1,2)] unixf.flush_stream [OF assms(1,3)] by auto

lemma load_pe [simp]: "pe (load_event ce cw) = mem (fst cw) ce" "psock (load_event ce cw) = (sp (fst cw), snd cw)"
  by (simp_all add: load_event_def Let_def)

text \<open>A flush event whose buffer goes out at once.\<close>

lemma flush_completes:
  assumes "flush_ready (mem c ce) b" and "flushSendBuffer env SOCK_EVENT_TYPE_NONE (load_event ce (c, w)) = Some (0, bo, q)"
  shows "\<exists>c'. ConnEventProcess env ce (c, w) = Some (CONN_EVENT_COMPLETE, c', snd (psock q)) \<and> ce_error (mem c' ce) = 0"
proof -
  have p: "pe q = mem c ce" using flush_pe [OF assms(2)] by simp
  have "socketEventProcess env SOCK_EVENT_TYPE_NONE (load_event ce (c, w)) = Some (0, bo, q)"
    using assms by (simp add: socketEventProcess_def flush_ready_def)
  then have "event_attempts env (problem c \<noteq> None) SOCK_EVENT_TYPE_NONE (load_event ce (c, w)) = Some (CONN_EVENT_COMPLETE, q)"
    using assms(1) p by (subst event_attempts.simps) (simp add: socketEventComplete_def flush_ready_def)
  then show ?thesis
    using assms(1) p
    by (simp add: ConnEventProcess_def run_event_def EventProcess_def flush_ready_def store_event_def
        set_status_def on_event_def keep_buffer_def ConnEventFreeResources_def Let_def split: option.splits)
qed

lemma demo_flush:
  "\<exists>u c2 n2. ConnFlushEx (list_iob 8) demo_proc 5 0 9 (idle_conn\<lparr>sendBuffer := Some [6, 7, 8, 9]\<rparr>, demo_net) =
     Some (u, 0, c2, n2)"
proof -
  let ?env = "io_env demo_sys False 5 demo_env (list_iob 8)"
  let ?c = "(assign_flush 5 [6, 7, 8, 9] 0 9 (upd_event 5 (\<lambda>_. ConnEventInit) (idle_conn\<lparr>sendBuffer := None\<rparr>)))
    \<lparr>state := CONN_STATE_SYNCHRONOUS, act_send := Some 5\<rparr>"
  have r: "flush_ready (mem ?c 5) [6, 7, 8, 9]"
    using assign_ready [of 5 "[6, 7, 8, 9]" 0 9 "upd_event 5 (\<lambda>_. ConnEventInit) (idle_conn\<lparr>sendBuffer := None\<rparr>)"] by simp
  have s: "socketSend (whole_writes (prompt_sends demo_sys)) [6, 7, 8, 9] bo (idle_SOCK 3, demo_net) =
      (4, SOCK_EVENT_TYPE_NONE, 0, (idle_SOCK 3, demo_net\<lparr>wire_out := [6, 7, 8, 9]\<rparr>))" for bo
    by (simp add: socketSend_def clearSend_def clear_send_loop.simps XplIpSend_def prompt_sends_def
        whole_writes_def demo_sys_def demo_net_def idle_SOCK_def)
  have l: "pbuf (load_event 5 (?c, demo_net)) = [6, 7, 8, 9]" "psock (load_event 5 (?c, demo_net)) = (idle_SOCK 3, demo_net)"
    using r by (simp_all add: load_event_def flush_ready_def assign_flush_def assign_event_def idle_conn_def)
  have [simp]: "sp (assign_flush ce b t l c) = sp c" "sp idle_conn = idle_SOCK 3" for ce b t l and c :: "byte list conn"
    by (simp_all add: assign_flush_def assign_event_def idle_conn_def)
  have "\<exists>q. flushSendBuffer ?env SOCK_EVENT_TYPE_NONE (load_event 5 (?c, demo_net)) = Some (0, SOCK_EVENT_TYPE_NONE, q)"
    by (subst flushSendBuffer.simps, subst flushSendBuffer.simps) (simp add: l s Let_def)
  then obtain q where f: "flushSendBuffer ?env SOCK_EVENT_TYPE_NONE (load_event 5 (?c, demo_net)) =
      Some (0, SOCK_EVENT_TYPE_NONE, q)" ..
  from flush_completes [OF r f] obtain c' where
    "demo_proc 5 (?c, demo_net) = Some (CONN_EVENT_COMPLETE, c', snd (psock q))" "ce_error (mem c' 5) = 0" by blast
  then show ?thesis
    by (simp add: ConnFlushEx_def bufferedSendDataGet_def connFlushEx_def SynchronousSendEventInsert_def
        assign_flush_def assign_event_def idle_conn_def Let_def)
qed

theorem write_and_flush_send_everything_witness:
  "\<exists>c1 n1 u c2 n2. ConnWriteEx (list_iob 8) demo_proc demo_handle 5 0 9 [7, 8, 9]
      (idle_conn\<lparr>sendBuffer := Some [6]\<rparr>, demo_net) = Some (3, 0, c1, n1) \<and>
    ConnFlushEx (list_iob 8) demo_proc 5 0 9 (c1, n1) = Some (u, 0, c2, n2) \<and> wire_out n2 = [6, 7, 8, 9]"
proof -
  from demo_flush obtain u c2 n2 where f: "ConnFlushEx (list_iob 8) demo_proc 5 0 9
      (idle_conn\<lparr>sendBuffer := Some [6, 7, 8, 9]\<rparr>, demo_net) = Some (u, 0, c2, n2)" by blast
  from write_and_flush_send_everything [OF demo_facts(3) demo_write [of demo_proc] f] f demo_write [of demo_proc]
  show ?thesis by (auto simp: demo_net_def pending_def)
qed

section \<open>Synchronous calls and the slots\<close>

text \<open>
  Taking a slot and leaving it is a round trip: on an idle connection with no active event each of
  the three synchronous inserts succeeds, and the remove that belongs to it gives the connection back
  as it was (a read that has to flush first takes the send buffer with it).
\<close>

theorem slots_round_trip:
  assumes "slots c = (CONN_STATE_IDLE, None, None, None)"
  shows "SynchronousConnectEventRemove ce (snd (SynchronousConnectEventInsert ce c)) = (0, c) \<and>
    SynchronousSendEventRemove ce (snd (SynchronousSendEventInsert ce c)) = (0, c) \<and>
    (case SynchronousReceiveEventInsert ops ce c of (err, bo, c1) \<Rightarrow>
       err = 0 \<and> bo = fst (bufferedSendDataGet ops WITH_DATA c) \<and>
       SynchronousReceiveEventRemove ce (bo \<noteq> None) c1 = (0, c\<lparr>sendBuffer := None\<rparr>))"
proof (cases c)
  case (fields mem0 queue0 fl bs br cl pr th ssl ac as ar st sb)
  with assms show ?thesis
    by (auto simp: slots_def SynchronousConnectEventInsert_def SynchronousConnectEventRemove_def
        SynchronousSendEventInsert_def SynchronousSendEventRemove_def SynchronousReceiveEventInsert_def
        SynchronousReceiveEventRemove_def bufferedSendDataGet_def split: option.splits)
qed

theorem slots_round_trip_witness:
  "SynchronousSendEventRemove 5 (snd (SynchronousSendEventInsert 5 idle_conn)) = (0, idle_conn)"
  using slots_round_trip [of idle_conn 5 "list_iob 8"] by (simp add: slots_def idle_conn_def)



text \<open>
  A reader and a writer may use a connection at the same time, each in its slot.  When the reader
  leaves while the writer is still busy, the connection is marked idle; the writer's remove is then
  refused, its slot is never cleared, and from then on every synchronous write, connect-class call and
  \<^verbatim>\<open>ConnFree()\<close> is refused as well.
\<close>

theorem reader_leaving_first_strands_the_writer:
  assumes "slots c = (CONN_STATE_IDLE, None, None, None)" and "sendBuffer c = None"
    and "SynchronousSendEventInsert w c = (0, c1)" and "SynchronousReceiveEventInsert ops r c1 = (0, None, c2)"
    and "SynchronousReceiveEventRemove r False c2 = (0, c3)" and "SynchronousSendEventRemove w c3 = (err, c4)"
  shows "err = ECONNIOMODE \<and> c4 = c3 \<and> act_send c4 = Some w \<and> state c4 = CONN_STATE_IDLE \<and>
    SynchronousSendEventInsert x c4 = (EBUSY, c4) \<and> SynchronousConnectEventInsert x c4 = (EBUSY, c4) \<and>
    connFreeEx ops proc sys tm init x src (c4, n) = Some (False, upd_event x (\<lambda>_. ConnEventInit) c4, n)"
proof -
  have c: "state c = CONN_STATE_IDLE" "act_connect c = None" "act_send c = None" "act_receive c = None"
    using assms(1) by (simp_all add: slots_def)
  have c1: "c1 = c\<lparr>state := CONN_STATE_SYNCHRONOUS, act_send := Some w\<rparr>"
    using assms(3) c by (simp add: SynchronousSendEventInsert_def)
  have c2: "c2 = c1\<lparr>state := CONN_STATE_SYNCHRONOUS, act_receive := Some r\<rparr>"
    using assms(2,4) c by (simp add: c1 SynchronousReceiveEventInsert_def bufferedSendDataGet_def)
  have c3: "c3 = c2\<lparr>act_receive := None, state := CONN_STATE_IDLE\<rparr>"
    using assms(5) c by (simp add: c1 c2 SynchronousReceiveEventRemove_def)
  have c4: "err = ECONNIOMODE" "c4 = c3"
    using assms(6) c by (simp_all add: c1 c2 c3 SynchronousSendEventRemove_def)
  have s: "state c4 = CONN_STATE_IDLE" "act_send c4 = Some w" "act_connect c4 = None"
    using c by (simp_all add: c1 c2 c3 c4)
  then show ?thesis using c4
    by (simp add: SynchronousSendEventInsert_def SynchronousConnectEventInsert_def connFreeEx_def is_listener_def)
qed

theorem reader_leaving_first_strands_the_writer_witness:
  "\<exists>c1 c2 c3. SynchronousSendEventInsert 5 idle_conn = (0, c1) \<and> SynchronousReceiveEventInsert (list_iob 8) 6 c1 = (0, None, c2) \<and>
     SynchronousReceiveEventRemove 6 False c2 = (0, c3) \<and> SynchronousSendEventRemove 5 c3 = (ECONNIOMODE, c3)"
proof -
  let ?c1 = "idle_conn\<lparr>state := CONN_STATE_SYNCHRONOUS, act_send := Some 5\<rparr>"
  let ?c2 = "?c1\<lparr>act_receive := Some 6\<rparr>" and ?c3 = "?c1\<lparr>act_receive := None, state := CONN_STATE_IDLE\<rparr>"
  have e: "SynchronousSendEventInsert 5 idle_conn = (0, ?c1)" "SynchronousReceiveEventInsert (list_iob 8) 6 ?c1 = (0, None, ?c2)"
    "SynchronousReceiveEventRemove 6 False ?c2 = (0, ?c3)"
    by (simp_all add: SynchronousSendEventInsert_def SynchronousReceiveEventInsert_def bufferedSendDataGet_def
        SynchronousReceiveEventRemove_def idle_conn_def)
  obtain err c4 where r: "SynchronousSendEventRemove 5 ?c3 = (err, c4)" by fastforce
  have "slots idle_conn = (CONN_STATE_IDLE, None, None, None)" "sendBuffer idle_conn = None"
    by (simp_all add: slots_def idle_conn_def)
  from reader_leaving_first_strands_the_writer [OF this e r] e r show ?thesis by blast
qed

end
