(* ===== verification/ApiProps2.thy ===== *)
theory ApiProps2
  imports ApiProps
begin

unbundle bit_operations_syntax

text \<open>
  More properties of the entry points of \<^verbatim>\<open>connio.c\<close>: peeking and eating, formatted output, the end of
  a connection, and what an asynchronous write forgets.
\<close>

section \<open>Peeking\<close>

text \<open>\<open>peeked p q\<close>: nothing but a look at the stream; \<open>new\<close> arrived meanwhile.\<close>

definition peeked ::
    "(byte \<Rightarrow> byte) \<Rightarrow> ('b \<Rightarrow> byte list) \<Rightarrow> ('b, 'w io) pst \<Rightarrow> ('b, 'w io) pst \<Rightarrow> bool" where
  "peeked norm contents p q \<longleftrightarrow>
     (\<exists>new k. map norm (contents (pbuf q)) = map norm (contents (pbuf p) @ new) \<and>
        wire_in (snd (psock q)) = wire_in (snd (psock p)) @ new \<and>
        wire_out (snd (psock q)) = wire_out (snd (psock p)) \<and>
        cb_written (pe q) = cb_written (pe p) @ take k (contents (pbuf q)))"

definition peek_only :: "'b ConnEvent \<Rightarrow> bool" where
  "peek_only e \<longleftrightarrow> \<not> has (ce_dataMode e) CONN_READ_DELETE \<and> has (ce_dataMode e) CONN_READ_COPY \<and>
     \<not> has (ce_dataMode e) CONN_READ_REPLACE_PATTERN"

lemma peek_only_frame: "pframe p q \<Longrightarrow> peek_only (pe q) = peek_only (pe p)"
  by (simp add: peek_only_def pframe_def)

lemma condition_peek:
  assumes iob: "iob_ok norm contents (iob env)" and c: "EventConditionSatisfied env p = ((b, d, n, l), p1)"
  shows "map norm (contents (pbuf p1)) = map norm (contents (pbuf p))" and "psock p1 = psock p" and "pe p1 = pe p"
    and "b \<Longrightarrow> d = used env p1"
proof -
  have "map norm (contents (pbuf p1)) = map norm (contents (pbuf p)) \<and> psock p1 = psock p"
  proof (cases "ce_type (pe p) = CONN_EVENT_READ_UNTIL_PATTERN")
    case True
    from search_condition [OF iob True c] show ?thesis by blast
  next
    case False
    with c show ?thesis by (auto simp: EventConditionSatisfied_def Let_def split: ConnEventType.splits if_splits)
  qed
  then show "map norm (contents (pbuf p1)) = map norm (contents (pbuf p))" and "psock p1 = psock p" by blast+
  show "pe p1 = pe p" by (rule condition_pe [OF c])
  show "b \<Longrightarrow> d = used env p1" by (rule condition_stream(1) [OF iob c]) simp
qed

lemma satisfy_peek:
  assumes iob: "iob_ok norm contents (iob env)" and m: "peek_only (pe p)" and s: "SatisfyEvent env p = (err, q)"
  shows "map norm (contents (pbuf q)) = map norm (contents (pbuf p))" and "psock q = psock p"
    and "\<exists>k. cb_written (pe q) = cb_written (pe p) @ take k (contents (pbuf q)) \<and> (err = ECONNMOREDATA \<longrightarrow> k = 0)"
proof -
  obtain b d n l p1 where c: "EventConditionSatisfied env p = ((b, d, n, l), p1)" by (metis surj_pair)
  note cp = condition_peek [OF iob c]
  obtain zs where zs: "contents (pbuf p1) = used env p1 @ zs"
    using iob_used_prefix [OF iob, of "pbuf p1"] by (auto simp: prefix_def)
  have tk: "take k (used env p1) = take (min k (length (used env p1))) (contents (pbuf p1))" for k
    by (simp add: zs min_def)
  have "pbuf q = pbuf p1 \<and> psock q = psock p \<and>
    (\<exists>k. cb_written (pe q) = cb_written (pe p) @ take k (contents (pbuf p1)) \<and> (err = ECONNMOREDATA \<longrightarrow> k = 0))"
  proof (cases b)
    case True
    then have f: "moveFinalConditionalDataToClient env (used env p1) n l p1 = (err, q)"
      using s c cp(4) by (simp add: SatisfyEvent_def)
    have nm: "err \<noteq> ECONNMOREDATA" using moveFinal_not_more [of env "used env p1" n l p1] f by simp
    have "pbuf q = pbuf p1 \<and> psock q = psock p1 \<and> (\<exists>k. cb_written (pe q) = cb_written (pe p1) @ take k (used env p1))"
      using f m cp(3)
      by (auto simp: moveFinalConditionalDataToClient_def peek_only_def CopyBufferedDataToClient_def
          TerminateClientBuffer_def Let_def split: if_splits)
    with nm cp tk show ?thesis by metis
  next
    case False
    then have "movePartialConditionalDataToClient env d n p1 = (err, q)" using s c by (simp add: SatisfyEvent_def)
    with m cp have "q = p1" by (simp add: movePartialConditionalDataToClient_def peek_only_def)
    with cp show ?thesis by (intro conjI exI [of _ 0]) auto
  qed
  with cp show "map norm (contents (pbuf q)) = map norm (contents (pbuf p))" and "psock q = psock p"
    and "\<exists>k. cb_written (pe q) = cb_written (pe p) @ take k (contents (pbuf q)) \<and> (err = ECONNMOREDATA \<longrightarrow> k = 0)"
    by auto
qed

lemma conditional_peek:
  assumes "iob_ok norm contents (iob env)" and "sock env = unix_sock_ops sys src ce" and "peek_only (pe p)"
    and "conditionalReadProcess env bo p = Some r"
  shows "peeked norm contents p (snd (snd r))"
proof -
  let ?Q = "\<lambda>env' p. env' = env \<and> peek_only (pe p)"
  from assms(4) have "?Q env p \<longrightarrow> peeked norm contents p (snd (snd r))"
  proof (rule conditionalReadProcess.raw_induct [rotated, where
        P = "\<lambda>env' bo p r. ?Q env' p \<longrightarrow> peeked norm contents p (snd (snd r))"], goal_cases)
    case (1 f env' bo p r)
    show ?case
    proof
      assume Q: "?Q env' p"
      obtain e1 p1 where s: "SatisfyEvent env p = (e1, p1)" by fastforce
      from Q have Q': "peek_only (pe p)" by simp
      from satisfy_peek [OF assms(1) Q' s] obtain k where
        k: "map norm (contents (pbuf p1)) = map norm (contents (pbuf p))" "psock p1 = psock p"
        "cb_written (pe p1) = cb_written (pe p) @ take k (contents (pbuf p1))" "e1 = ECONNMOREDATA \<longrightarrow> k = 0" by blast
      show "peeked norm contents p (snd (snd r))"
      proof (cases "e1 = ECONNMOREDATA")
        case False
        with 1(2) s Q have "snd (snd r) = p1" by auto
        with k show ?thesis unfolding peeked_def by (intro exI [of _ "[]"] exI [of _ k]) simp
      next
        case True
        with 1(2) s Q obtain e2 b2 p2 where p2: "fillRecvBuffer env bo p1 = Some (e2, b2, p2)"
          by (auto split: Option.bind_splits)
        from unixio.fill_stream [OF assms(1,2) p2] obtain new where
          new: "contents (pbuf p2) = contents (pbuf p1) @ new" "wire_in (snd (psock p2)) = wire_in (snd (psock p1)) @ new"
          "wire_out (snd (psock p2)) = wire_out (snd (psock p1))" "pe p2 = pe p1" by blast
        have nt: "\<not> test_case e2 p2"
          using Q' peek_only_frame [OF SatisfyEvent_frame [OF s]] new(4)
          by (intro copy_no_test) (simp add: peek_only_def)
        have n2: "map norm (contents (pbuf p2)) = map norm (contents (pbuf p) @ new)"
          and w2: "cb_written (pe p2) = cb_written (pe p)" using new k True by simp_all
        have "snd (snd r) = p2 \<or> f env b2 p2 = Some r"
          using 1(2) s True p2 nt Q by (auto split: if_splits)
        then show ?thesis
        proof
          assume "snd (snd r) = p2"
          with n2 w2 new k show ?thesis unfolding peeked_def by (intro exI [of _ new] exI [of _ 0]) simp
        next
          assume "f env b2 p2 = Some r"
          from 1(1) [OF this] Q' peek_only_frame [OF SatisfyEvent_frame [OF s]] new(4)
          obtain new2 j where n3: "map norm (contents (pbuf (snd (snd r)))) = map norm (contents (pbuf p2) @ new2)"
            "wire_in (snd (psock (snd (snd r)))) = wire_in (snd (psock p2)) @ new2"
            "wire_out (snd (psock (snd (snd r)))) = wire_out (snd (psock p2))"
            "cb_written (pe (snd (snd r))) = cb_written (pe p2) @ take j (contents (pbuf (snd (snd r))))"
            by (auto simp: peeked_def)
          have "map norm (contents (pbuf (snd (snd r)))) = map norm (contents (pbuf p) @ new @ new2)"
            using n3(1) n2 by simp
          with n3 w2 new k show ?thesis unfolding peeked_def
            by (intro exI [of _ "new @ new2"] exI [of _ j]) simp
        qed
      qed
    qed
  qed
  with assms(3) show ?thesis by simp
qed

text \<open>
  A peek consumes nothing: the receive buffer holds what it held, followed by what arrived
  meanwhile, and what the client was shown is the beginning of it, so that the next read gets the same
  bytes.  Nothing is sent.
\<close>

theorem peek_consumes_nothing:
  assumes "iob_ok norm contents (iob env)" and "sock env = unix_sock_ops sys src ce" and "peek_only (pe p)"
    and "conditionalReadProcess env bo p = Some (err, bo', q)"
  shows "\<exists>new k. map norm (contents (pbuf q)) = map norm (contents (pbuf p) @ new) \<and>
    wire_in (snd (psock q)) = wire_in (snd (psock p)) @ new \<and>
    wire_out (snd (psock q)) = wire_out (snd (psock p)) \<and>
    cb_written (pe q) = cb_written (pe p) @ take k (contents (pbuf q))"
  using conditional_peek [OF assms] by (simp add: peeked_def)

theorem peek_consumes_nothing_witness:
  "\<exists>q. conditionalReadProcess demo_env SOCK_EVENT_TYPE_NONE
      (demo_pst ((demo_read CONN_EVENT_READ 4)\<lparr>ce_dataMode := CONN_READ_COPY\<rparr>) [5, 6] [7, 8, 9]) = Some (0, SOCK_EVENT_TYPE_NONE, q) \<and>
    pbuf q = [5, 6] \<and> (\<exists>k. cb_written (pe q) = take k [5, 6])"
proof -
  let ?p = "demo_pst ((demo_read CONN_EVENT_READ 4)\<lparr>ce_dataMode := CONN_READ_COPY\<rparr>) [5, 6] [7, 8, 9]"
  obtain p1 where s: "SatisfyEvent demo_env ?p = (0, p1)" and b: "pbuf p1 = [5, 6]"
    by (simp add: demo_eval)
  have c: "conditionalReadProcess demo_env SOCK_EVENT_TYPE_NONE ?p = Some (0, SOCK_EVENT_TYPE_NONE, p1)"
    by (rule conditional_stop [OF s]) simp
  have m: "peek_only (pe ?p)" by (simp add: peek_only_def has_def demo_pst_def)
  from peek_consumes_nothing [OF demo_facts(3) [folded demo_facts(1)] demo_facts(2) m c] b c show ?thesis
    by (auto simp: demo_pst_def demo_read_def ev_of_def ConnEventInit_def)
qed

section \<open>Eating\<close>

lemma count_of_nothing:
  assumes "ce_type (pe p) = CONN_EVENT_READ_COUNT" and "ce_dataMode (pe p) = CONN_READ_DELETE" and "cb_remaining (pe p) = 0"
  shows "conditionalReadProcess env bo p = Some (0, bo, mark_free env 0 p)"
proof (rule conditional_stop)
  show "SatisfyEvent env p = (0, mark_free env 0 p)"
    using assms by (simp add: SatisfyEvent_def EventConditionSatisfied_def moveFinalConditionalDataToClient_def
        has_def Let_def)
qed simp

text \<open>A synchronous read that can be answered from the receive buffer.\<close>

lemma read_completes:
  assumes t: "ce_type (mem c ce) \<in> {CONN_EVENT_READ, CONN_EVENT_READ_COUNT, CONN_EVENT_READ_UNTIL_PATTERN}"
    and e: "ce_class (mem c ce) = CONN_EVENT_CLASS_RECEIVE" "ce_error (mem c ce) = 0"
      "ce_status (mem c ce) = CONN_EVENT_QUEUED"
    and r: "conditionalReadProcess env SOCK_EVENT_TYPE_NONE (load_event ce (c, w)) = Some (0, bo, q)"
  shows "ConnEventProcess env ce (c, w) = Some (CONN_EVENT_COMPLETE,
    (upd_event ce (\<lambda>_. (pe q)\<lparr>ce_status := CONN_EVENT_COMPLETE\<rparr>) c)\<lparr>sp := fst (psock q), receiveBuffer := pbuf q\<rparr>,
    snd (psock q))"
proof -
  have fr: "pframe (load_event ce (c, w)) q" by (rule conditionalRead_frame [OF r])
  then have q: "ce_type (pe q) = ce_type (mem c ce)" "ce_class (pe q) = CONN_EVENT_CLASS_RECEIVE"
    using e by (simp_all add: pframe_def)
  have go: "resume_read env True (conditionalReadProcess env) SOCK_EVENT_TYPE_NONE (load_event ce (c, w)) = Some (0, bo, q)"
    using e r by (simp add: resume_read_def)
  have "socketEventProcess env SOCK_EVENT_TYPE_NONE (load_event ce (c, w)) = Some (0, bo, q)"
    using t go by (elim insertE emptyE) (simp_all add: socketEventProcess_def)
  moreover have "socketEventComplete env q = q"
    using t q by (elim insertE emptyE) (simp_all add: socketEventComplete_def)
  ultimately have "event_attempts env (problem c \<noteq> None) SOCK_EVENT_TYPE_NONE (load_event ce (c, w)) =
      Some (CONN_EVENT_COMPLETE, q)"
    by (subst event_attempts.simps) simp
  moreover have "ConnEventFreeResources (pe q) = pe q"
    using t q by (elim insertE emptyE) (simp_all add: ConnEventFreeResources_def)
  ultimately show ?thesis
    using e q by (simp add: ConnEventProcess_def run_event_def EventProcess_def keep_buffer_def store_event_def
        set_status_def on_event_def upd_event_def Let_def)
qed

text \<open>
  The synchronous \<^verbatim>\<open>ConnEatCount()\<close> eats nothing: it passes a length of 0 on to the read event instead
  of its count, so the event is satisfied at once, whatever the count; the call reports success and
  the receive buffer is untouched.
\<close>

theorem eat_count_eats_nothing:
  assumes "iob_ok norm contents ops" and "iob env = ops" and "\<not> shuttingDown h"
    and "slots c = (CONN_STATE_IDLE, None, None, None)" and "sendBuffer c = None" and "count > 0"
  shows "\<exists>c'. ConnEatCountEx ops (ConnEventProcess env) h ce count timeout src (c, w) = Some (0, 0, c', w) \<and>
    contents (receiveBuffer c') = contents (receiveBuffer c)"
proof -
  let ?assign = "\<lambda>c e. (ConnEventAssign None 0 timeout CONN_EVENT_READ_COUNT CONN_EVENT_CLASS_RECEIVE
    CONN_EVENT_MODE_SYNCHRONOUS None src c e)\<lparr>ce_dataMode := CONN_READ_DELETE, arg_pattern := []\<rparr>"
  let ?c1 = "(upd_event ce (\<lambda>_. ConnEventInit) c)\<lparr>state := CONN_STATE_SYNCHRONOUS, act_receive := Some ce\<rparr>"
  let ?c2 = "assign_event ce ?assign ?c1"
  have ins: "SynchronousReceiveEventInsert ops ce (upd_event ce (\<lambda>_. ConnEventInit) c) = (0, None, ?c1)"
    using assms(4,5) by (simp add: slots_def SynchronousReceiveEventInsert_def bufferedSendDataGet_def)
  have ev: "ce_class (mem ?c2 ce) = CONN_EVENT_CLASS_RECEIVE" "ce_error (mem ?c2 ce) = 0"
    "ce_status (mem ?c2 ce) = CONN_EVENT_QUEUED" "ce_type (mem ?c2 ce) = CONN_EVENT_READ_COUNT"
    "ce_dataMode (mem ?c2 ce) = CONN_READ_DELETE" "cb_remaining (mem ?c2 ce) = 0" "ce_transferred (mem ?c2 ce) = 0"
    by (simp_all add: assign_event_def ConnEventAssign_def ConnEventSetTimeout_def Let_def)
  have "conditionalReadProcess env SOCK_EVENT_TYPE_NONE (load_event ce (?c2, w)) =
      Some (0, SOCK_EVENT_TYPE_NONE, mark_free env 0 (load_event ce (?c2, w)))"
    by (rule count_of_nothing) (simp_all add: ev del: fun_upd_apply)
  from read_completes [OF _ ev(1-3) this] ev(4)
  have p: "ConnEventProcess env ce (?c2, w) = Some (CONN_EVENT_COMPLETE,
      (upd_event ce (\<lambda>_. (mem ?c2 ce)\<lparr>ce_status := CONN_EVENT_COMPLETE\<rparr>) ?c2)
        \<lparr>sp := sp ?c2, receiveBuffer := IOBMarkFree (iob env) 0 (receiveBuffer ?c2)\<rparr>, w)"
    by (simp add: load_event_def ev(1) Let_def)
  have "contents (IOBMarkFree ops 0 (receiveBuffer c)) = contents (receiveBuffer c)"
    using iob_mark_free [OF assms(1), of 0 "receiveBuffer c"] by simp
  then show ?thesis
    using ins p assms(2,3,6) ev(2,7)
    by (simp add: ConnEatCountEx_def ConnReadToCondition_def sync_receive_def SynchronousReceiveEventRemove_def
        assign_event_def)
qed

theorem eat_count_eats_nothing_witness:
  "\<exists>c'. ConnEatCountEx (list_iob 8) demo_proc demo_handle 5 3 0 9 (idle_conn\<lparr>receiveBuffer := [1, 2, 3, 4]\<rparr>, demo_net) =
     Some (0, 0, c', demo_net) \<and> receiveBuffer c' = [1, 2, 3, 4]"
  using eat_count_eats_nothing [of id id "list_iob 8" "io_env demo_sys False 5 demo_env (list_iob 8)" demo_handle
      "idle_conn\<lparr>receiveBuffer := [1, 2, 3, 4]\<rparr>" 3 5 0 9 demo_net]
  by (simp add: demo_handle_def slots_def idle_conn_def)

text \<open>
  An event that eats (deletes without copying) forgets what it has eaten: when the buffer holds less
  than is wanted, that part is deleted but neither counted nor subtracted from what is still wanted, so
  the event goes on to eat the whole count again.
\<close>

theorem eating_starts_over:
  assumes "iob_ok norm contents (iob env)" and "ce_type (pe p) = CONN_EVENT_READ_COUNT"
    and "ce_dataMode (pe p) = CONN_READ_DELETE" and "length (used env p) < cb_remaining (pe p)"
  shows "\<exists>q. SatisfyEvent env p = (ECONNMOREDATA, q) \<and> pe q = pe p \<and>
    contents (pbuf q) = drop (length (used env p)) (contents (pbuf p))"
proof -
  have m: "contents (IOBMarkFree (iob env) (length (used env p)) (pbuf p)) = drop (length (used env p)) (contents (pbuf p))"
    using iob_mark_free [OF assms(1)] iob_used_take(2) [OF assms(1)] by simp
  have "SatisfyEvent env p = (ECONNMOREDATA, if used env p \<noteq> [] then mark_free env (length (used env p)) p else p)"
    using assms(2-4)
    by (simp add: SatisfyEvent_def EventConditionSatisfied_def movePartialConditionalDataToClient_def has_def Let_def)
  with m show ?thesis by auto
qed

theorem eating_starts_over_witness:
  "\<exists>q. SatisfyEvent demo_env (demo_pst ((demo_read CONN_EVENT_READ_COUNT 3)\<lparr>ce_dataMode := CONN_READ_DELETE\<rparr>) [5, 6] []) =
     (ECONNMOREDATA, q) \<and> pbuf q = [] \<and> cb_remaining (pe q) = 3"
  using eating_starts_over [of id id demo_env
      "demo_pst ((demo_read CONN_EVENT_READ_COUNT 3)\<lparr>ce_dataMode := CONN_READ_DELETE\<rparr>) [5, 6] []"]
  by (auto simp: demo_read_def ev_of_def)

section \<open>Formatted output\<close>

text \<open>
  \<open>c99 txt vsn\<close>: the result is the length of the whole text, and the buffer gets as much of it as fits.
\<close>

definition c99 :: "byte list \<Rightarrow> (nat \<Rightarrow> int \<times> byte list) \<Rightarrow> bool" where
  "c99 txt vsn \<longleftrightarrow> (\<forall>n. vsn n = (int (length txt), take (n - 1) txt @ [0]))"

lemma formats_all:
  assumes "c99 txt vsn" and "\<forall>n. alloc n"
  shows "CreateFormattedString vsn alloc = Formatted txt"
proof -
  have r: "vsn n = (int (length txt), take (n - 1) txt @ [0])" for n using assms(1) by (simp add: c99_def)
  have fit: "format_loop vsn alloc n = Formatted txt" if "length txt < n" for n
    using that assms(2) by (subst format_loop.simps) (simp add: r)
  show ?thesis
  proof (cases "length txt < 1023")
    case True
    then show ?thesis by (simp add: CreateFormattedString_def fit)
  next
    case False
    then have "format_loop vsn alloc 1023 = format_loop vsn alloc (length txt + 1)"
      using assms(2) by (subst format_loop.simps) (simp add: r MAX_CONN_WRITE_FORMATTED_SIZE_def)
    then show ?thesis by (simp add: CreateFormattedString_def fit)
  qed
qed

lemma gives_up:
  assumes "\<forall>n. alloc n" and "\<forall>n. fst (vsn n) < 0"
  shows "CreateFormattedString vsn alloc = Not_formatted EMSGSIZE True"
proof -
  have "0 < n \<Longrightarrow> format_loop vsn alloc n = Not_formatted EMSGSIZE True" for n
  proof (induction "MAX_CONN_WRITE_FORMATTED_SIZE - n" arbitrary: n rule: less_induct)
    case less
    show ?case
    proof (cases "n < MAX_CONN_WRITE_FORMATTED_SIZE")
      case True
      with less.prems less.hyps [of "2 * n"] assms show ?thesis
        by (subst format_loop.simps) (auto simp: Let_def not_le)
    next
      case False
      with assms show ?thesis by (subst format_loop.simps) (auto simp: Let_def not_le)
    qed
  qed
  then show ?thesis by (simp add: CreateFormattedString_def)
qed

text \<open>
  Formatting always ends.  With a C99 \<^verbatim>\<open>vsnprintf()\<close> and enough memory the whole text is produced,
  however long it is: \<^verbatim>\<open>MAX_CONN_WRITE_FORMATTED_SIZE\<close> does not limit it.  When memory runs out the
  error is \<^verbatim>\<open>ENOMEM\<close>; when the size is never told it is \<^verbatim>\<open>EMSGSIZE\<close>, and the buffer is never freed.
\<close>

theorem formatting_is_complete:
  "(c99 txt vsn \<longrightarrow> (\<forall>n. alloc n) \<longrightarrow> CreateFormattedString vsn alloc = Formatted txt) \<and>
   ((\<forall>n. alloc n) \<longrightarrow> (\<forall>n. fst (vsn n) < 0) \<longrightarrow> CreateFormattedString vsn alloc = Not_formatted EMSGSIZE True) \<and>
   ((\<forall>n. \<not> alloc n) \<longrightarrow> CreateFormattedString vsn alloc = Not_formatted ENOMEM False)"
proof (intro conjI impI)
  assume "\<forall>n. \<not> alloc n"
  then show "CreateFormattedString vsn alloc = Not_formatted ENOMEM False"
    by (simp add: CreateFormattedString_def format_loop.simps)
qed (simp_all add: formats_all gives_up)

theorem formatting_is_complete_witness:
  "CreateFormattedString (\<lambda>n. (2000, take (n - 1) (replicate 2000 65) @ [0])) (\<lambda>_. True) = Formatted (replicate 2000 65) \<and>
   CreateFormattedString (\<lambda>_. (-1, [])) (\<lambda>_. True) = Not_formatted EMSGSIZE True"
proof -
  have "c99 (replicate 2000 65) (\<lambda>n. (2000, take (n - 1) (replicate 2000 65) @ [0]))" by (simp add: c99_def)
  then show ?thesis
    using formatting_is_complete [of "replicate 2000 65" "\<lambda>n. (2000, take (n - 1) (replicate 2000 65) @ [0])" "\<lambda>_. True"]
      formatting_is_complete [of "[]" "\<lambda>_. (-1, [])" "\<lambda>_. True"] by simp
qed

section \<open>The end of a connection\<close>

lemma release_socket_closed:
  "release_socket sys (c, n) = (c', n') \<Longrightarrow>
     ssl_conn (sp c') = None \<and> ssl_new (sp c') = None \<and> number (sp c') = SOCKET_INVALID"
  by (auto simp: release_socket_def SocketSSLAbort_unix_def socketClose_def split: if_splits prod.splits)

lemma ConnectionInit_fields:
  "slots (ConnectionInit tm init c) = (CONN_STATE_CACHED, None, None, None)" "sp (ConnectionInit tm init c) = sp c"
  "sendBuffer (ConnectionInit tm init c) = None" "l_head (queue (ConnectionInit tm init c)) = None"
  by (simp_all add: ConnectionInit_def bufferedSendDataFree_def slots_def split: prod.splits)

lemma connect_remove_sp [simp]: "sp (snd (SynchronousConnectEventRemove ce c)) = sp c"
  by (simp add: SynchronousConnectEventRemove_def)

text \<open>
  C14. A connection is given back at most once and only when nobody uses it, and a connection in the
  cache has no open descriptor, no SSL object, no buffered data, no queued and no active event; a
  listener can always be given back, which closes it.
\<close>

theorem freed_connection_is_closed:
  assumes "connFreeEx ops proc sys tm init ce src (c, n) = Some (ok, c', n')"
  shows "(ok \<longleftrightarrow> is_listener c \<or> slots c = (CONN_STATE_IDLE, None, None, None)) \<and>
    (ok \<longrightarrow> slots c' = (CONN_STATE_CACHED, None, None, None) \<and> number (sp c') = SOCKET_INVALID \<and>
       ssl_conn (sp c') = None \<and> ssl_new (sp c') = None \<and> sendBuffer c' = None \<and> l_head (queue c') = None) \<and>
    (\<not> ok \<longrightarrow> slots c' = slots c \<and> n' = n)"
proof (cases "is_listener c")
  case True
  then have "state c \<notin> {CONN_STATE_FREE, CONN_STATE_CACHED}" by (auto simp: is_listener_def)
  with assms True obtain c1 where r: "release_socket sys (c, n) = (c1, n')" and c': "ok" "c' = ConnectionInit tm init c1"
    by (auto simp: connFreeEx_def split: prod.splits)
  from release_socket_closed [OF r] True c' show ?thesis by (simp add: ConnectionInit_fields)
next
  case nl: False
  let ?c0 = "upd_event ce (\<lambda>_. ConnEventInit) c"
  obtain err c1 where ins: "SynchronousConnectEventInsert ce ?c0 = (err, c1)" by fastforce
  have idle: "err = 0 \<longleftrightarrow> slots c = (CONN_STATE_IDLE, None, None, None)" "err \<noteq> 0 \<Longrightarrow> c1 = ?c0"
    using ins by (auto simp: SynchronousConnectEventInsert_def slots_def split: if_splits)
  show ?thesis
  proof (cases "err = 0")
    case False
    with assms nl ins idle show ?thesis by (auto simp: connFreeEx_def slots_def split: if_splits)
  next
    case True
    have st: "state c = CONN_STATE_IDLE" using idle True by (simp add: slots_def)
    from assms st ins True nl obtain c2 n2 where
      "(if connIsStillConnected c1 = 0 then end_connection ops proc sys ce src (c1, n) else Some (c1, n)) = Some (c2, n2)"
      and c': "Some (ok, c', n') = (case release_socket sys (c2, n2) of (c3, n3) \<Rightarrow>
        Some (True, ConnectionInit tm init (snd (SynchronousConnectEventRemove ce c3)), n3))"
      by (auto simp: connFreeEx_def split: Option.bind_splits)
    obtain c3 where r: "release_socket sys (c2, n2) = (c3, n')" and ok: ok
      and c3: "c' = ConnectionInit tm init (snd (SynchronousConnectEventRemove ce c3))"
      using c' by (auto split: prod.splits)
    with release_socket_closed [OF r] idle(1) True ok show ?thesis by (simp add: c3 ConnectionInit_fields)
  qed
qed

theorem freed_connection_is_closed_witness:
  "\<exists>c' n'. connFreeEx (list_iob 8) demo_proc demo_sys (1, 2, 3, 4) (\<lambda>_. []) 5 9 (idle_conn, demo_net) = Some (True, c', n') \<and>
     number (sp c') = SOCKET_INVALID \<and> state c' = CONN_STATE_CACHED"
proof -
  have "\<exists>r. connFreeEx (list_iob 8) demo_proc demo_sys (1, 2, 3, 4) (\<lambda>_. []) 5 9 (idle_conn, demo_net) = Some r"
    by (simp add: connFreeEx_def idle_conn_def is_listener_def SynchronousConnectEventInsert_def end_connection_def
        connIsStillConnected_def ImplicitFlushOnConnectEvent_def bufferedSendDataGet_def idle_SOCK_def
        ImplicitSSLDisconnectOnConnectEvent_def socketDisconnect_def disconnectWithTimeout_def sockDisconnect_def
        in_kernel_def socketClose_def demo_sys_def split: prod.splits) blast
  then obtain ok c' n' where r:
    "connFreeEx (list_iob 8) demo_proc demo_sys (1, 2, 3, 4) (\<lambda>_. []) 5 9 (idle_conn, demo_net) = Some (ok, c', n')"
    by (metis prod_cases3)
  have "slots idle_conn = (CONN_STATE_IDLE, None, None, None)" by (simp add: idle_conn_def slots_def)
  with freed_connection_is_closed [OF r] r show ?thesis by (simp add: slots_def)
qed

section \<open>A transaction opened by a write\<close>

lemma awrite_small:
  assumes "bufferedSendDataGet ops EMPTY_OK c = (Some b, c1)" and "length data < IOBGetFree ops b"
  shows "awrite_loop ops proc h fresh k timeout src data 0 nt (c, w) =
    Some ((0, nt), bufferedSendDataKeep ops (IOBWrite ops data b) c1, w)"
  using assms by (subst awrite_loop.simps) (simp add: fill_write_buffer.simps Let_def)

text \<open>
  \<^verbatim>\<open>ConnAWrite()\<close> on an idle connection opens the transaction by hand and skips
  \<^verbatim>\<open>AsyncQueueStatusInit()\<close>.  On a secured connection a disconnect enqueued after the write gets no
  SSL shutdown in front of it, although the same disconnect without the write does.
\<close>

theorem write_forgets_the_ssl_shutdown:
  assumes "asyncEnabled h" and "state c = CONN_STATE_IDLE" and "number (sp c) \<noteq> SOCKET_INVALID"
    and "ssl_conn (sp c) \<noteq> None" and "\<not> sslEnabled c" and "sendBuffer c = Some b" and "data \<noteq> []"
    and "length data < IOBGetFree ops b" and "ce_type (mem c ce) = CONN_EVENT_DISCONNECT"
  shows "\<exists>c1. ConnAWriteEx ops proc h fresh timeout src data (c, w) = Some ((0, False), c1, w) \<and>
    fst (sslDisconnectEventNeeded ce (open_transaction c)) \<and>
    \<not> fst (sslDisconnectEventNeeded ce (open_transaction c1))"
proof -
  let ?c0 = "c\<lparr>state := CONN_STATE_ASYNCHRONOUS_CLIENT\<rparr>"
  have g: "bufferedSendDataGet ops EMPTY_OK ?c0 = (Some b, ?c0\<lparr>sendBuffer := None\<rparr>)"
    using assms(6) by (simp add: bufferedSendDataGet_def)
  let ?c1 = "bufferedSendDataKeep ops (IOBWrite ops data b) (?c0\<lparr>sendBuffer := None\<rparr>)"
  have "ConnAWriteEx ops proc h fresh timeout src data (c, w) = Some ((0, False), ?c1, w)"
    using assms(1,2,7) awrite_small [OF g assms(8), of proc h fresh 0 timeout src False w]
    by (simp add: ConnAWriteEx_def if_async_def writeClientData_async_def)
  moreover have "fst (sslDisconnectEventNeeded ce (open_transaction c))"
    using assms(2-4,9) by (simp add: open_transaction_def AsyncQueueStatusInit_def sslDisconnectEventNeeded_def)
  moreover have "\<not> fst (sslDisconnectEventNeeded ce (open_transaction ?c1))"
    using assms(5) by (simp add: open_transaction_def sslDisconnectEventNeeded_def bufferedSendDataKeep_def)
  ultimately show ?thesis by blast
qed

theorem write_forgets_the_ssl_shutdown_witness:
  "\<exists>c1. ConnAWriteEx (list_iob 8) demo_proc demo_handle (\<lambda>_. None) 0 9 [7]
      (idle_conn\<lparr>sendBuffer := Some [], sp := (idle_SOCK 3)\<lparr>ssl_conn := Some 1\<rparr>,
         mem := (\<lambda>_. ev_of CONN_EVENT_DISCONNECT)\<rparr>, demo_net) = Some ((0, False), c1, demo_net) \<and>
    \<not> fst (sslDisconnectEventNeeded 5 (open_transaction c1))"
  using write_forgets_the_ssl_shutdown [of demo_handle "idle_conn\<lparr>sendBuffer := Some [],
      sp := (idle_SOCK 3)\<lparr>ssl_conn := Some 1\<rparr>, mem := (\<lambda>_. ev_of CONN_EVENT_DISCONNECT)\<rparr>" "[]" "[7]" "list_iob 8" 5
      demo_proc "\<lambda>_. None" 0 9 demo_net]
  by (auto simp: asyncEnabled_def demo_handle_def has_def idle_conn_def idle_SOCK_def ev_of_def)

end
