(* ===== verification/Listeners.thy ===== *)
theory Listeners
  imports ConnTypes LinkedList "HOL-Library.Monad_Syntax"
begin

unbundle bit_operations_syntax

text \<open>
  The listeners of a handle (\<^verbatim>\<open>ConnListenerPriv\<close> and the \<^verbatim>\<open>ConnA...ListenerEx()\<close> functions of
  \<^verbatim>\<open>connio.c\<close>).  A listener is a node of the handle's list; \<open>li_live\<close> are the nodes that are
  allocated, and touching any other node, or a null pointer, is a fault.  \<^verbatim>\<open>ConnAListenEx()\<close> is the
  argument \<open>listen\<close> (the address of the new connection, \<open>None\<close> when it failed); what is asked of the
  socket layer is recorded in \<open>li_calls\<close>.  Functions are one locked section each; \<open>None\<close> is a loop
  that does not end.
\<close>

abbreviation (input) CONN_LISTENER_FRESH :: u32 where "CONN_LISTENER_FRESH \<equiv> 0x01"
abbreviation (input) CONN_LISTENER_ACTIVE :: u32 where "CONN_LISTENER_ACTIVE \<equiv> 0x02"
abbreviation (input) CONN_LISTENER_FAILED :: u32 where "CONN_LISTENER_FAILED \<equiv> 0x04"
abbreviation (input) CONN_LISTENER_STOPPED :: u32 where "CONN_LISTENER_STOPPED \<equiv> 0x08"
abbreviation (input) CONN_LISTENER_SUSPENDED :: u32 where "CONN_LISTENER_SUSPENDED \<equiv> 0x10"
abbreviation (input) CONN_LISTENER_EXPIRED :: u32 where "CONN_LISTENER_EXPIRED \<equiv> 0x20"
abbreviation (input) CONN_LISTENER_INDEPENDENT :: u32 where "CONN_LISTENER_INDEPENDENT \<equiv> 0x40"

datatype fault = Null_pointer | Freed_memory

datatype listener_call = Call_shutdown ptr | Call_suspend ptr | Call_resume ptr

record ConnListener =
  li_conn :: "ptr option"          \<comment> \<open>\<^verbatim>\<open>pub.conn\<close>\<close>
  li_callback :: nat
  li_threshold :: nat              \<comment> \<open>\<^verbatim>\<open>throttlingThreshold\<close>\<close>
  li_eventCallback :: "nat option"
  li_sa :: "byte list"
  li_backlog :: int
  li_id :: int
  li_next :: "ptr option"
  li_previous :: "ptr option"
  li_state :: u32
  li_name :: nat

record listeners =
  li :: "ptr \<Rightarrow> ConnListener"
  li_live :: "ptr set"
  li_head :: "ptr option"
  li_tail :: "ptr option"
  li_last :: int
  li_preventNew :: bool
  li_calls :: "listener_call list"

definition upd_li :: "ptr \<Rightarrow> (ConnListener \<Rightarrow> ConnListener) \<Rightarrow> listeners \<Rightarrow> listeners" where
  "upd_li p f s = s\<lparr>li := (li s)(p := f (li s p))\<rparr>"

definition li_call :: "listener_call \<Rightarrow> listeners \<Rightarrow> listeners" where
  "li_call x s = s\<lparr>li_calls := li_calls s @ [x]\<rparr>"

section \<open>Adding and freeing\<close>

definition newListenersAllowed :: "listeners \<Rightarrow> bool" where
  "newListenersAllowed s \<longleftrightarrow> \<not> li_preventNew s"

definition ConnHandlePreventNewListeners :: "listeners \<Rightarrow> listeners" where
  "ConnHandlePreventNewListeners s = s\<lparr>li_preventNew := True\<rparr>"

definition may_add :: "ConnHandleView \<Rightarrow> listeners \<Rightarrow> bool" where
  "may_add h s \<longleftrightarrow> has (flags_fixed h) CONN_HANDLE_ASYNC_ENABLED \<and> \<not> shuttingDown h \<and> newListenersAllowed s"

partial_function (option) find_listener ::
    "(ConnListener \<Rightarrow> bool) \<Rightarrow> ptr option \<Rightarrow> listeners \<Rightarrow> ptr option option" where
  "find_listener same l s =
     (case l of None \<Rightarrow> Some None
      | Some p \<Rightarrow> if same (li s p) then Some (Some p) else find_listener same (li_next (li s p)) s)"

definition link_listener :: "ptr \<Rightarrow> ConnListener \<Rightarrow> listeners \<Rightarrow> listeners" where
  "link_listener p new s =
     (let s1 = s\<lparr>li_last := li_last s + 1, li_live := insert p (li_live s),
                 li := (li s)(p := new\<lparr>li_id := li_last s + 1, li_next := None, li_previous := li_tail s\<rparr>)\<rparr>;
          s2 = (case li_tail s of
                  Some t \<Rightarrow> upd_li t (\<lambda>x. x\<lparr>li_next := Some p\<rparr>) s1
                | None \<Rightarrow> s1\<lparr>li_head := Some p\<rparr>)
      in s2\<lparr>li_tail := Some p\<rparr>)"

text \<open>\<open>fresh\<close> and \<open>fresh_sa\<close>: the results of the two allocations.\<close>

definition ConnAAddListenerEx ::
    "ConnHandleView \<Rightarrow> ptr option \<Rightarrow> bool \<Rightarrow> nat \<Rightarrow> byte list \<Rightarrow> int \<Rightarrow> nat \<Rightarrow> listeners \<Rightarrow>
     (ptr option \<times> listeners) option" where
  "ConnAAddListenerEx h fresh fresh_sa name addr backlog acb s =
     (if \<not> may_add h s then Some (None, s)
      else
        do { r \<leftarrow> find_listener (\<lambda>x. li_sa x = addr \<and> li_backlog x = backlog \<and> li_callback x = acb \<and> li_name x = name)
                    (li_head s) s;
             case r of
               Some p \<Rightarrow> Some (Some p, upd_li p (\<lambda>x. x\<lparr>li_state := li_state x AND NOT CONN_LISTENER_EXPIRED\<rparr>) s)
             | None \<Rightarrow>
                 (case fresh of
                    None \<Rightarrow> Some (None, s)
                  | Some p \<Rightarrow>
                      if \<not> fresh_sa then Some (None, s)
                      else Some (Some p, link_listener p
                             \<lparr>li_conn = None, li_callback = acb, li_threshold = 0, li_eventCallback = None, li_sa = addr,
                              li_backlog = backlog, li_id = 0, li_next = None, li_previous = None,
                              li_state = CONN_LISTENER_FRESH, li_name = name\<rparr> s)) })"

definition ConnAAddIndependentListenerEx ::
    "ConnHandleView \<Rightarrow> ptr option \<Rightarrow> bool \<Rightarrow> nat \<Rightarrow> byte list \<Rightarrow> int \<Rightarrow> nat \<Rightarrow> listeners \<Rightarrow>
     (ptr option \<times> listeners) option" where
  "ConnAAddIndependentListenerEx h fresh fresh_sa name addr backlog acb s =
     (if \<not> newListenersAllowed s then Some (None, s)
      else
        do { (r, s1) \<leftarrow> ConnAAddListenerEx h fresh fresh_sa name addr backlog acb s;
             case r of
               None \<Rightarrow> Some (None, s1)
             | Some p \<Rightarrow> Some (Some p, upd_li p (\<lambda>x. x\<lparr>li_state := li_state x OR CONN_LISTENER_INDEPENDENT\<rparr>) s1) })"

definition ConnAListenerConfigure :: "ptr \<Rightarrow> nat \<Rightarrow> nat option \<Rightarrow> listeners \<Rightarrow> errno \<times> listeners" where
  "ConnAListenerConfigure p threshold cb s =
     (if li_state (li s p) = CONN_LISTENER_FRESH
      then (0, upd_li p (\<lambda>x. x\<lparr>li_threshold := threshold, li_eventCallback := cb\<rparr>) s)
      else (EBUSY, s))"

definition ConnListenerFree :: "ptr \<Rightarrow> listeners \<Rightarrow> listeners" where
  "ConnListenerFree p s =
     (let nx = li_next (li s p); pv = li_previous (li s p);
          s1 = (case pv of
                  Some q \<Rightarrow> upd_li q (\<lambda>x. x\<lparr>li_next := nx\<rparr>) s
                | None \<Rightarrow> s\<lparr>li_head := nx\<rparr>);
          s2 = (case nx of
                  Some n \<Rightarrow> upd_li n (\<lambda>x. x\<lparr>li_previous := pv\<rparr>) s1
                | None \<Rightarrow> s1\<lparr>li_tail := pv\<rparr>);
          s3 = upd_li p (\<lambda>x. x\<lparr>li_next := None, li_previous := None\<rparr>) s2
      in s3\<lparr>li_live := li_live s3 - {p}\<rparr>)"

section \<open>Walking the list\<close>

text \<open>
  The three tests of the loops: an independent listener is only reached by name, \<open>which\<close> selects by
  state (0 for any), \<open>only\<close> by address (\<open>None\<close> for any).
\<close>

definition selected :: "u32 \<Rightarrow> ptr option \<Rightarrow> ptr \<Rightarrow> ConnListener \<Rightarrow> bool" where
  "selected which only p x \<longleftrightarrow>
     \<not> (only = None \<and> has (li_state x) CONN_LISTENER_INDEPENDENT) \<and>
     (which = 0 \<or> has (li_state x) which) \<and>
     (only = None \<or> only = Some p)"

text \<open>\<^verbatim>\<open>for( l = head; l; l = l->next )\<close>: the next pointer is read after the body.\<close>

partial_function (option) walk ::
    "(ptr \<Rightarrow> listeners \<Rightarrow> bool \<times> listeners) \<Rightarrow> ptr option \<Rightarrow> int \<Rightarrow> listeners \<Rightarrow> (fault + int \<times> listeners) option" where
  "walk body l c s =
     (case l of None \<Rightarrow> Some (Inr (c, s))
      | Some p \<Rightarrow>
          (case body p s of (counted, s1) \<Rightarrow>
             if p \<notin> li_live s1 then Some (Inl Freed_memory)
             else walk body (li_next (li s1 p)) (if counted then c + 1 else c) s1))"

definition walk_selected ::
    "ConnHandleView \<Rightarrow> (ConnListener \<Rightarrow> bool) \<Rightarrow> ptr option \<Rightarrow> u32 \<Rightarrow> (ptr \<Rightarrow> listeners \<Rightarrow> listeners) \<Rightarrow> listeners \<Rightarrow>
     (fault + int \<times> listeners) option" where
  "walk_selected h also_if only which act s =
     (if has (flags_fixed h) CONN_HANDLE_ASYNC_ENABLED
      then walk (\<lambda>p s. if selected which only p (li s p) \<and> also_if (li s p) then (True, act p s) else (False, s))
             (li_head s) 0 s
      else Some (Inr (0, s)))"

definition new_state :: "u32 \<Rightarrow> ConnListener \<Rightarrow> ConnListener" where
  "new_state st x = x\<lparr>li_state := st OR (li_state x AND CONN_LISTENER_INDEPENDENT)\<rparr>"

definition tell_conn :: "(ptr \<Rightarrow> listener_call) \<Rightarrow> ptr \<Rightarrow> listeners \<Rightarrow> listeners" where
  "tell_conn f p s = (case li_conn (li s p) of None \<Rightarrow> s | Some c \<Rightarrow> li_call (f c) s)"

definition ConnAStopListenerEx ::
    "ConnHandleView \<Rightarrow> u32 \<Rightarrow> ptr option \<Rightarrow> listeners \<Rightarrow> (fault + int \<times> listeners) option" where
  "ConnAStopListenerEx h which only =
     walk_selected h (\<lambda>_. True) only which
       (\<lambda>p s. tell_conn Call_shutdown p (upd_li p (new_state CONN_LISTENER_STOPPED) s))"

definition ConnASuspendListenerEx ::
    "ConnHandleView \<Rightarrow> ptr option \<Rightarrow> listeners \<Rightarrow> (fault + int \<times> listeners) option" where
  "ConnASuspendListenerEx h only =
     walk_selected h (\<lambda>x. has (li_state x) CONN_LISTENER_ACTIVE) only 0
       (\<lambda>p s. tell_conn Call_suspend p (upd_li p (new_state CONN_LISTENER_SUSPENDED) s))"

definition ConnAResumeListenerEx ::
    "ConnHandleView \<Rightarrow> ptr option \<Rightarrow> listeners \<Rightarrow> (fault + int \<times> listeners) option" where
  "ConnAResumeListenerEx h only =
     walk_selected h (\<lambda>x. has (li_state x) CONN_LISTENER_SUSPENDED) only 0
       (\<lambda>p s. tell_conn Call_resume p (upd_li p (new_state CONN_LISTENER_ACTIVE) s))"

definition ConnAExpireListenerEx ::
    "ConnHandleView \<Rightarrow> ptr option \<Rightarrow> listeners \<Rightarrow> (fault + int \<times> listeners) option" where
  "ConnAExpireListenerEx h only =
     walk_selected h (\<lambda>x. \<not> has (li_state x) CONN_LISTENER_EXPIRED) only 0
       (\<lambda>p. upd_li p (\<lambda>x. x\<lparr>li_state := li_state x OR CONN_LISTENER_EXPIRED\<rparr>))"

definition ConnAListenerStatusEx ::
    "ConnHandleView \<Rightarrow> u32 \<Rightarrow> ptr option \<Rightarrow> bool \<Rightarrow> listeners \<Rightarrow> (fault + int \<times> listeners) option" where
  "ConnAListenerStatusEx h which only shutting s =
     (if has (flags_fixed h) CONN_HANDLE_ASYNC_ENABLED
      then walk (\<lambda>p s. if \<not> selected which only p (li s p) then (False, s)
                       else if shutting \<and> li_conn (li s p) = None then (False, ConnListenerFree p s)
                       else (True, s))
             (li_head s) 0 s
      else Some (Inr (0, s)))"

section \<open>Removing\<close>

definition remove_listener :: "ConnHandleView \<Rightarrow> ptr \<Rightarrow> listeners \<Rightarrow> bool \<times> listeners" where
  "remove_listener h p s =
     (if \<not> has (flags_fixed h) CONN_HANDLE_ASYNC_ENABLED then (False, s)
      else
        (let s1 = upd_li p (\<lambda>x. x\<lparr>li_state := CONN_LISTENER_STOPPED\<rparr>) s
         in case li_conn (li s1 p) of
              Some c \<Rightarrow> (True, li_call (Call_shutdown c) s1)
            | None \<Rightarrow> (True, ConnListenerFree p s1)))"

text \<open>
  \<^verbatim>\<open>ConnARemoveListenerEx()\<close>: the next pointer is read before the body, the id after it.  \<open>want_list\<close> is
  whether the caller wants the list of the ids.
\<close>

partial_function (option) remove_walk ::
    "ConnHandleView \<Rightarrow> u32 \<Rightarrow> ptr option \<Rightarrow> bool \<Rightarrow> ptr option \<Rightarrow> int list \<times> int \<Rightarrow> listeners \<Rightarrow>
     (fault + (int list \<times> int) \<times> listeners) option" where
  "remove_walk h which only want_list l acc s =
     (case l of None \<Rightarrow> Some (Inr (acc, s))
      | Some p \<Rightarrow>
          (let n = li_next (li s p)
           in if \<not> selected which only p (li s p) then remove_walk h which only want_list n acc s
              else
                (case remove_listener h p s of (removed, s1) \<Rightarrow>
                   if \<not> removed then remove_walk h which only want_list n acc s1
                   else if want_list \<and> p \<notin> li_live s1 then Some (Inl Freed_memory)
                   else remove_walk h which only want_list n
                          (if want_list then fst acc @ [li_id (li s1 p)] else fst acc, snd acc + 1) s1)))"

definition ConnARemoveListenerEx ::
    "ConnHandleView \<Rightarrow> u32 \<Rightarrow> ptr option \<Rightarrow> bool \<Rightarrow> listeners \<Rightarrow>
     (fault + (int list \<times> int) \<times> listeners) option" where
  "ConnARemoveListenerEx h which only want_list s =
     (if has (flags_fixed h) CONN_HANDLE_ASYNC_ENABLED
      then remove_walk h which only want_list (li_head s) ([], 0) s
      else Some (Inr (([], -1), s)))"

section \<open>Starting\<close>

definition start_one :: "(ptr \<Rightarrow> ptr option) \<Rightarrow> ptr option \<Rightarrow> u32 \<Rightarrow> ptr \<Rightarrow> listeners \<Rightarrow> bool \<times> listeners" where
  "start_one listen only which p s =
     (if only = None \<and> has (li_state (li s p)) CONN_LISTENER_INDEPENDENT then (False, s)
      else if li_conn (li s p) \<noteq> None \<or> \<not> has (li_state (li s p)) which then (False, s)
      else
        (case listen p of
           Some c \<Rightarrow> (True, upd_li p (\<lambda>x. (new_state CONN_LISTENER_ACTIVE x)\<lparr>li_conn := Some c\<rparr>) s)
         | None \<Rightarrow> (False, upd_li p (\<lambda>x. (new_state CONN_LISTENER_FAILED x)\<lparr>li_conn := None\<rparr>) s)))"

text \<open>
  \<open>pub\<close> tells whether the caller passes the handle; without it the handle is the listener's, but
  \<^verbatim>\<open>newListenersAllowed()\<close> is still called with the pointer that was passed.
\<close>

definition ConnAStartListenerEx ::
    "ConnHandleView \<Rightarrow> (ptr \<Rightarrow> ptr option) \<Rightarrow> bool \<Rightarrow> u32 \<Rightarrow> ptr option \<Rightarrow> listeners \<Rightarrow>
     (fault + int \<times> listeners) option" where
  "ConnAStartListenerEx h listen pub which only s =
     (if \<not> pub \<and> only = None then Some (Inr (0, s))
      else if \<not> has (flags_fixed h) CONN_HANDLE_ASYNC_ENABLED \<or> shuttingDown h then Some (Inr (0, s))
      else if \<not> pub then Some (Inl Null_pointer)
      else if \<not> newListenersAllowed s then Some (Inr (0, s))
      else
        (let w = (if which = 0 then CONN_LISTENER_FRESH OR CONN_LISTENER_ACTIVE OR CONN_LISTENER_FAILED OR
                                    CONN_LISTENER_STOPPED else which)
         in case only of
              Some p \<Rightarrow> (case start_one listen only w p s of (b, s1) \<Rightarrow> Some (Inr (if b then 1 else 0, s1)))
            | None \<Rightarrow> walk (start_one listen only w) (li_head s) 0 s))"

text \<open>
  \<^verbatim>\<open>ConnAListenerCallback()\<close>, called when the connection of a listener comes out of the engine; \<open>l\<close>
  is the client data of that connection, which has been freed.
\<close>

definition ConnAListenerCallback ::
    "ConnHandleView \<Rightarrow> (ptr \<Rightarrow> ptr option) \<Rightarrow> ptr option \<Rightarrow> listeners \<Rightarrow> (fault + listeners) option" where
  "ConnAListenerCallback h listen l s =
     (case l of None \<Rightarrow> Some (Inr s)
      | Some p \<Rightarrow>
          (let s1 = upd_li p (\<lambda>x. x\<lparr>li_conn := None\<rparr>) s
           in if \<not> (shuttingDown h \<or> li_preventNew s1) \<and> \<not> has (li_state (li s1 p)) CONN_LISTENER_STOPPED
              then map_option (map_sum id snd) (ConnAStartListenerEx h listen False 0 (Some p) s1)
              else Some (Inr s1)))"

text \<open>\<open>fresh_sa\<close>: whether the copy of the address could be allocated.\<close>

definition ConnARestartListenerEx ::
    "ConnHandleView \<Rightarrow> (ptr \<Rightarrow> ptr option) \<Rightarrow> bool \<Rightarrow> ptr \<Rightarrow> byte list \<Rightarrow> listeners \<Rightarrow>
     (fault + bool \<times> listeners) option" where
  "ConnARestartListenerEx h listen fresh_sa p addr s =
     (if \<not> may_add h s then Some (Inr (False, s))
      else if addr = li_sa (li s p) then
        (if li_conn (li s p) \<noteq> None then Some (Inr (True, s))
         else map_option (map_sum id (\<lambda>(c, s1). (c \<noteq> 0, s1))) (ConnAStartListenerEx h listen False 0 (Some p) s))
      else
        (let old = li s p;
             s1 = upd_li p (\<lambda>x. x\<lparr>li_state := CONN_LISTENER_FRESH, li_conn := None\<rparr>) s;
             restore = upd_li p (\<lambda>x. x\<lparr>li_conn := li_conn old, li_sa := li_sa old\<rparr>)
         in if \<not> fresh_sa then Some (Inr (False, restore s1))
            else
              do { r \<leftarrow> ConnAStartListenerEx h listen False 0 (Some p) (upd_li p (\<lambda>x. x\<lparr>li_sa := addr\<rparr>) s1);
                   case r of
                     Inl f \<Rightarrow> Some (Inl f)
                   | Inr (c, s2) \<Rightarrow>
                       if c \<noteq> 0 then
                         (case li_conn old of
                            None \<Rightarrow> Some (Inl Null_pointer)
                          | Some cn \<Rightarrow> Some (Inr (True, upd_li p (\<lambda>x. x\<lparr>li_state := li_state x AND NOT CONN_LISTENER_EXPIRED\<rparr>)
                                         (li_call (Call_shutdown cn) s2))))
                       else Some (Inr (False, restore s2)) }))"

section \<open>The list\<close>

definition li_repr :: "listeners \<Rightarrow> ptr list \<Rightarrow> bool" where
  "li_repr s xs \<longleftrightarrow> dll (\<lambda>p. li_next (li s p)) (\<lambda>p. li_previous (li s p)) (li_head s) (li_tail s) xs \<and>
     set xs \<subseteq> li_live s"

lemma li_link:
  assumes "li_repr s xs" and "x \<notin> set xs"
  shows "li_repr (link_listener x new s) (xs @ [x])"
proof -
  let ?s = "link_listener x new s"
  from assms(1) have d: "dll (\<lambda>p. li_next (li s p)) (\<lambda>p. li_previous (li s p)) (li_head s) (li_tail s) xs"
    by (simp add: li_repr_def)
  have t: "li_tail s \<noteq> Some x" using dll_last [OF d] assms(2) by (auto split: if_splits)
  have "dll_push_back (\<lambda>p. li_next (li s p)) (\<lambda>p. li_previous (li s p)) (li_head s) (li_tail s) x =
      ((\<lambda>p. li_next (li ?s p)), (\<lambda>p. li_previous (li ?s p)), li_head ?s, li_tail ?s)"
    using t by (auto simp: dll_push_back_def link_listener_def upd_li_def Let_def fun_eq_iff split: option.splits)
  from dll_push_back_correct [OF d assms(2) this] assms(1) show ?thesis
    by (auto simp: li_repr_def link_listener_def upd_li_def Let_def split: option.splits)
qed

lemma free_is_unlink:
  assumes "li_next (li s x) \<noteq> Some x" and "li_previous (li s x) \<noteq> Some x"
  shows "((\<lambda>p. li_next (li (ConnListenerFree x s) p)), (\<lambda>p. li_previous (li (ConnListenerFree x s) p)),
      li_head (ConnListenerFree x s), li_tail (ConnListenerFree x s)) =
    (case dll_unlink (\<lambda>p. li_next (li s p)) (\<lambda>p. li_previous (li s p)) (li_head s) (li_tail s) x of
       (n, p, h, t) \<Rightarrow> (n(x := None), p(x := None), h, t))"
  using assms by (auto simp: dll_unlink_def ConnListenerFree_def upd_li_def Let_def fun_eq_iff split: option.splits)

lemma li_free:
  assumes "li_repr s xs" and "x \<in> set xs"
  shows "li_repr (ConnListenerFree x s) (remove1 x xs)"
proof -
  let ?s = "ConnListenerFree x s"
  from assms(1) have d: "dll (\<lambda>p. li_next (li s p)) (\<lambda>p. li_previous (li s p)) (li_head s) (li_tail s) xs"
    by (simp add: li_repr_def)
  obtain n p h t where u: "dll_unlink (\<lambda>p. li_next (li s p)) (\<lambda>p. li_previous (li s p)) (li_head s) (li_tail s) x = (n, p, h, t)"
    by (metis prod_cases4)
  have x: "x \<notin> set (remove1 x xs)" using dll_distinct [OF d] by (simp add: set_remove1_eq)
  with dll_unlink_correct [OF d assms(2) u] have "dll (n(x := None)) (p(x := None)) h t (remove1 x xs)"
    by (simp add: dll_frame)
  moreover have "((\<lambda>p. li_next (li ?s p)), (\<lambda>p. li_previous (li ?s p)), li_head ?s, li_tail ?s) =
      (n(x := None), p(x := None), h, t)"
    using u free_is_unlink [OF dll_no_loop(1) [OF d assms(2)] dll_no_loop(2) [OF d assms(2)]] by simp
  moreover have "set (remove1 x xs) \<subseteq> li_live ?s"
    using assms(1) x set_remove1_subset [of x xs]
    by (auto simp: li_repr_def ConnListenerFree_def upd_li_def Let_def split: option.splits)
  ultimately show ?thesis by (simp add: li_repr_def)
qed

interpretation lis: linked_list li_repr "\<lambda>x. link_listener x new" ConnListenerFree li_head
  for new
proof (unfold_locales, goal_cases)
  case (1 s xs)
  then show ?case by (auto simp: li_repr_def dll_distinct)
next
  case (2 s xs ys)
  then show ?case by (auto simp: li_repr_def dest: dll_unique)
next
  case (3 s xs x)
  then show ?case by (rule li_link)
next
  case (4 s xs x)
  then show ?case by (rule li_free)
next
  case (5 s xs)
  then show ?case by (auto simp: li_repr_def dest: dll_head)
qed

end
