(* ===== verification/ListenerInv.thy ===== *)
theory ListenerInv
  imports ListenerWalk
begin

unbundle bit_operations_syntax

text \<open>
  The operations on listeners as a step relation, and its invariant \<open>linv\<close>: the list holds exactly the
  allocated listeners, in the order of their identifiers, and every listener is in exactly one of the
  five states.
\<close>

section \<open>States\<close>

definition state_ok :: "u32 \<Rightarrow> bool" where
  "state_ok st \<longleftrightarrow> st AND 0x1F \<in> {CONN_LISTENER_FRESH, CONN_LISTENER_ACTIVE, CONN_LISTENER_FAILED,
     CONN_LISTENER_STOPPED, CONN_LISTENER_SUSPENDED}"

lemma state_masks:
  fixes st :: u32
  shows "(st AND - 33) AND 0x1F = st AND 0x1F"
    and "(st OR CONN_LISTENER_EXPIRED) AND 0x1F = st AND 0x1F"
    and "(st OR CONN_LISTENER_INDEPENDENT) AND 0x1F = st AND 0x1F"
    and "(c OR (st AND CONN_LISTENER_INDEPENDENT)) AND 0x1F = c AND 0x1F"
  by (simp_all add: and.assoc bit.conj_disj_distrib2)

lemma state_ok_simps [simp]:
  "state_ok (st AND - 33) = state_ok st"
  "state_ok (st OR CONN_LISTENER_EXPIRED) = state_ok st"
  "state_ok (st OR CONN_LISTENER_INDEPENDENT) = state_ok st"
  "state_ok (c OR (st AND CONN_LISTENER_INDEPENDENT)) = state_ok c"
  "state_ok CONN_LISTENER_FRESH" "state_ok CONN_LISTENER_ACTIVE" "state_ok CONN_LISTENER_FAILED"
  "state_ok CONN_LISTENER_STOPPED" "state_ok CONN_LISTENER_SUSPENDED"
  by (simp_all only: state_ok_def state_masks) simp_all

section \<open>The invariant\<close>

definition linv :: "listeners \<Rightarrow> ptr list \<Rightarrow> bool" where
  "linv s xs \<longleftrightarrow> li_repr s xs \<and> li_live s = set xs \<and> (\<forall>p \<in> set xs. state_ok (li_state (li s p)) \<and> li_id (li s p) \<le> li_last s) \<and>
     sorted_wrt (<) (map (\<lambda>p. li_id (li s p)) xs)"

definition mild :: "(ConnListener \<Rightarrow> ConnListener) \<Rightarrow> bool" where
  "mild g \<longleftrightarrow> (\<forall>x. li_next (g x) = li_next x \<and> li_previous (g x) = li_previous x \<and> li_id (g x) = li_id x \<and>
     (state_ok (li_state x) \<longrightarrow> state_ok (li_state (g x))))"

lemma upd_fields:
  "li_head (upd_li p g s) = li_head s" "li_tail (upd_li p g s) = li_tail s" "li_live (upd_li p g s) = li_live s"
  "li_last (upd_li p g s) = li_last s" "li_preventNew (upd_li p g s) = li_preventNew s"
  "li (upd_li p g s) q = (if q = p then g (li s p) else li s q)"
  by (simp_all add: upd_li_def)

lemma linv_cong:
  assumes "li_head s' = li_head s" "li_tail s' = li_tail s" "li_live s' = li_live s" "li_last s' = li_last s"
    and "\<And>q. li_next (li s' q) = li_next (li s q) \<and> li_previous (li s' q) = li_previous (li s q) \<and> li_id (li s' q) = li_id (li s q)"
    and "\<And>q. state_ok (li_state (li s q)) \<Longrightarrow> state_ok (li_state (li s' q))"
    and "linv s xs"
  shows "linv s' xs"
  using assms by (simp add: linv_def li_repr_def)

lemma linv_upd: "mild g \<Longrightarrow> linv s xs \<Longrightarrow> linv (upd_li p g s) xs"
  by (rule linv_cong [of _ s]) (auto simp: upd_fields mild_def)

lemma linv_call: "linv s xs \<Longrightarrow> linv (li_call c s) xs"
  by (rule linv_cong [of _ s]) (auto simp: li_call_def)

lemma linv_tell: "linv s xs \<Longrightarrow> linv (tell_conn f p s) xs"
  by (simp add: tell_conn_def linv_call split: option.splits)

lemma mild_new_state: "state_ok c \<Longrightarrow> mild (new_state c)"
  by (simp add: mild_def new_state_def)

lemma linv_free:
  assumes "linv s xs" and "p \<in> set xs"
  shows "linv (ConnListenerFree p s) (remove1 p xs)"
proof -
  let ?s = "ConnListenerFree p s"
  have f: "li_state (li ?s q) = li_state (li s q)" "li_id (li ?s q) = li_id (li s q)" for q
    by (auto simp: ConnListenerFree_def upd_li_def Let_def split: option.splits)
  have l: "li_last ?s = li_last s" "li_live ?s = li_live s - {p}"
    by (auto simp: ConnListenerFree_def upd_li_def Let_def split: option.splits)
  from assms have d: "distinct xs" using lis.repr_distinct by (auto simp: linv_def)
  obtain ys zs where xs: "xs = ys @ p # zs" using split_list [OF assms(2)] by blast
  with d have r: "remove1 p xs = ys @ zs" by (simp add: remove1_append)
  moreover have "li_repr ?s (remove1 p xs)" using assms li_free by (auto simp: linv_def)
  ultimately show ?thesis using assms(1) d by (auto simp: linv_def f l xs sorted_wrt_append)
qed

lemma linv_link:
  assumes "linv s xs" and "p \<notin> li_live s" and "state_ok (li_state new)"
  shows "linv (link_listener p new s) (xs @ [p])"
proof -
  let ?s = "link_listener p new s"
  from assms have p: "p \<notin> set xs" by (simp add: linv_def)
  have f: "li_state (li ?s q) = (if q = p then li_state new else li_state (li s q))"
      "li_id (li ?s q) = (if q = p then li_last s + 1 else li_id (li s q))" for q
    by (auto simp: link_listener_def upd_li_def Let_def split: option.splits)
  have l: "li_last ?s = li_last s + 1" "li_live ?s = insert p (li_live s)"
    by (auto simp: link_listener_def upd_li_def Let_def split: option.splits)
  have m: "map (\<lambda>q. li_id (li ?s q)) xs = map (\<lambda>q. li_id (li s q)) xs"
    by (rule map_cong [OF refl]) (use p in \<open>auto simp: f(2)\<close>)
  have "sorted_wrt (<) (map (\<lambda>q. li_id (li ?s q)) xs)"
    unfolding m using assms(1) by (simp add: linv_def)
  moreover have "\<forall>q \<in> set xs. li_id (li ?s q) < li_id (li ?s p)" using assms(1) p by (auto simp: linv_def f)
  ultimately have "sorted_wrt (<) (map (\<lambda>q. li_id (li ?s q)) (xs @ [p]))"
    by (simp add: sorted_wrt_append)
  moreover have "li_repr ?s (xs @ [p])" using assms(1) p li_link by (auto simp: linv_def)
  moreover have "\<forall>q \<in> set (xs @ [p]). state_ok (li_state (li ?s q)) \<and> li_id (li ?s q) \<le> li_last ?s"
    using assms(1,3) p by (fastforce simp: linv_def f l)
  ultimately show ?thesis using assms(1) l(2) by (auto simp: linv_def)
qed

section \<open>The loops\<close>

lemma walk_inv:
  assumes body: "\<And>p s b s1. p \<in> set xs \<Longrightarrow> linv s xs \<Longrightarrow> body p s = (b, s1) \<Longrightarrow> p \<in> li_live s1 \<Longrightarrow> linv s1 xs"
    and "xs = ys @ zs" and "linv s xs" and "walk body (first_of zs) c s = Some (Inr (c', s'))"
  shows "linv s' xs"
  using assms(2-)
proof (induction zs arbitrary: ys c s)
  case Nil
  then show ?case by (subst (asm) walk.simps) simp
next
  case (Cons p zs)
  obtain b s1 where b: "body p s = (b, s1)" by fastforce
  from Cons.prems(3) b have l: "p \<in> li_live s1"
    and w: "walk body (li_next (li s1 p)) (if b then c + 1 else c) s1 = Some (Inr (c', s'))"
    by (subst (asm) walk.simps, simp split: if_splits)+
  have i: "linv s1 xs" using body [OF _ Cons.prems(2) b l] Cons.prems(1) by simp
  then have "li_next (li s1 p) = first_of zs"
    using li_repr_next [of s1 ys p zs] Cons.prems(1) by (simp add: linv_def)
  with w Cons.IH [of "ys @ [p]" s1] i Cons.prems(1) show ?case by simp
qed

lemma walk_from_head:
  assumes "linv s xs" and "walk body (li_head s) c s = Some (Inr (c', s'))"
    and "\<And>p s b s1. p \<in> set xs \<Longrightarrow> linv s xs \<Longrightarrow> body p s = (b, s1) \<Longrightarrow> p \<in> li_live s1 \<Longrightarrow> linv s1 xs"
  shows "linv s' xs"
proof (rule walk_inv [where ys = "[]" and zs = xs, OF assms(3)])
  show "walk body (first_of xs) c s = Some (Inr (c', s'))"
    using assms(1,2) li_repr_head [of s xs] by (simp add: linv_def)
qed (use assms(1) in simp_all)

lemma walk_selected_inv:
  assumes "linv s xs" and "walk_selected h also_if only which act s = Some (Inr (c, s'))"
    and "\<And>p s. linv s xs \<Longrightarrow> linv (act p s) xs"
  shows "linv s' xs"
proof (cases "has (flags_fixed h) CONN_HANDLE_ASYNC_ENABLED")
  case True
  with assms(2) have "walk (\<lambda>p s. if selected which only p (li s p) \<and> also_if (li s p) then (True, act p s) else (False, s))
      (li_head s) 0 s = Some (Inr (c, s'))" by (simp add: walk_selected_def)
  then show ?thesis by (rule walk_from_head [OF assms(1)]) (use assms(3) in \<open>auto split: if_splits\<close>)
next
  case False
  with assms(1,2) show ?thesis by (simp add: walk_selected_def)
qed

lemma remove_walk_inv:
  assumes "linv s (ys @ zs)" and "remove_walk h which only w (first_of zs) acc s = Some (Inr (acc', s'))"
  shows "\<exists>xs. linv s' xs"
  using assms
proof (induction zs arbitrary: ys acc s)
  case Nil
  then show ?case by (subst (asm) remove_walk.simps) auto
next
  case (Cons p zs)
  have n: "li_next (li s p) = first_of zs" using Cons.prems(1) li_repr_next by (auto simp: linv_def)
  obtain r s1 where r: "remove_listener h p s = (r, s1)" by fastforce
  have "\<exists>acc1 s2. remove_walk h which only w (first_of zs) acc1 s2 = Some (Inr (acc', s')) \<and> s2 \<in> {s, s1}"
    using Cons.prems(2) remove_walk.simps [of h which only w "Some p" acc s]
    by (cases acc) (simp add: n r Let_def split: if_splits; blast)
  then obtain acc1 s2 where w: "remove_walk h which only w (first_of zs) acc1 s2 = Some (Inr (acc', s'))" and s2: "s2 \<in> {s, s1}"
    by blast
  have m: "mild (\<lambda>x. x\<lparr>li_state := CONN_LISTENER_STOPPED\<rparr>)" by (simp add: mild_def)
  have d: "remove1 p (ys @ p # zs) = ys @ zs"
    using Cons.prems(1) lis.repr_distinct [of s "ys @ p # zs"] by (simp add: linv_def remove1_append)
  have "linv s1 (ys @ p # zs) \<or> linv s1 (ys @ zs)"
    using r Cons.prems(1) linv_upd [OF m Cons.prems(1), of p]
      linv_free [OF linv_upd [OF m Cons.prems(1)], of p p] d
    by (auto simp: remove_listener_def Let_def linv_call split: if_splits option.splits)
  with s2 Cons.prems(1) have "linv s2 (ys @ p # zs) \<or> linv s2 (ys @ zs)" by auto
  with Cons.IH [OF _ w, of ys] Cons.IH [OF _ w, of "ys @ [p]"] show ?case by auto
qed

section \<open>Steps\<close>

text \<open>
  Everything a program may do with the listeners of a handle; an allocation returns memory that is not
  in use, and listeners that are passed are allocated.
\<close>

inductive listener_step :: "listeners \<Rightarrow> listeners \<Rightarrow> bool" where
  add: "ConnAAddListenerEx h fresh sa_ok nm addr backlog acb s = Some (r, s') \<Longrightarrow>
    \<forall>p. fresh = Some p \<longrightarrow> p \<notin> li_live s \<Longrightarrow> listener_step s s'"
| independent: "ConnAAddIndependentListenerEx h fresh sa_ok nm addr backlog acb s = Some (r, s') \<Longrightarrow>
    \<forall>p. fresh = Some p \<longrightarrow> p \<notin> li_live s \<Longrightarrow> listener_step s s'"
| configure: "listener_step s (snd (ConnAListenerConfigure p threshold cb s))"
| stop: "ConnAStopListenerEx h which only s = Some (Inr (c, s')) \<Longrightarrow> listener_step s s'"
| suspend: "ConnASuspendListenerEx h only s = Some (Inr (c, s')) \<Longrightarrow> listener_step s s'"
| resume: "ConnAResumeListenerEx h only s = Some (Inr (c, s')) \<Longrightarrow> listener_step s s'"
| expire: "ConnAExpireListenerEx h only s = Some (Inr (c, s')) \<Longrightarrow> listener_step s s'"
| status: "ConnAListenerStatusEx h which only shutting s = Some (Inr (c, s')) \<Longrightarrow> listener_step s s'"
| remove: "ConnARemoveListenerEx h which only want_list s = Some (Inr (r, s')) \<Longrightarrow> listener_step s s'"
| start: "ConnAStartListenerEx h listen pub which only s = Some (Inr (c, s')) \<Longrightarrow> listener_step s s'"
| callback: "ConnAListenerCallback h listen l s = Some (Inr s') \<Longrightarrow> listener_step s s'"
| restart: "ConnARestartListenerEx h listen sa_ok p addr s = Some (Inr (ok, s')) \<Longrightarrow> listener_step s s'"
| prevent: "listener_step s (ConnHandlePreventNewListeners s)"

definition no_listeners :: listeners where
  "no_listeners = \<lparr>li = (\<lambda>_. \<lparr>li_conn = None, li_callback = 0, li_threshold = 0, li_eventCallback = None, li_sa = [],
     li_backlog = 0, li_id = 0, li_next = None, li_previous = None, li_state = 0, li_name = 0\<rparr>),
     li_live = {}, li_head = None, li_tail = None, li_last = 0, li_preventNew = False, li_calls = []\<rparr>"

lemma linv_init: "linv no_listeners []"
  by (simp add: linv_def li_repr_def no_listeners_def)

lemma linv_add:
  assumes "linv s xs" and "ConnAAddListenerEx h fresh sa_ok nm addr backlog acb s = Some (r, s')"
    and "\<forall>p. fresh = Some p \<longrightarrow> p \<notin> li_live s"
  shows "\<exists>ys. linv s' ys"
proof -
  have m: "mild (\<lambda>x. x\<lparr>li_state := li_state x AND - 33\<rparr>)" by (simp add: mild_def)
  from assms(2) have "s' = s \<or> (\<exists>p. s' = upd_li p (\<lambda>x. x\<lparr>li_state := li_state x AND - 33\<rparr>) s) \<or>
      (\<exists>p new. fresh = Some p \<and> state_ok (li_state new) \<and> s' = link_listener p new s)"
    by (auto simp: ConnAAddListenerEx_def bind_eq_Some_conv split: if_splits option.splits)
      (metis ConnListener.select_convs(10) state_ok_simps(5))
  with assms(1,3) linv_upd [OF m assms(1)] linv_link [OF assms(1)] show ?thesis by blast
qed

lemma linv_start_one:
  assumes "linv s xs" and "start_one listen only which p s = (b, s1)"
  shows "linv s1 xs"
proof -
  have m: "mild (\<lambda>x. (new_state CONN_LISTENER_ACTIVE x)\<lparr>li_conn := Some c\<rparr>)"
      "mild (\<lambda>x. (new_state CONN_LISTENER_FAILED x)\<lparr>li_conn := None\<rparr>)" for c
    by (simp_all add: mild_def new_state_def)
  from assms show ?thesis
    by (auto simp: start_one_def split: if_splits option.splits intro: linv_upd [OF m(1)] linv_upd [OF m(2)])
qed

lemma linv_start:
  assumes "linv s xs" and "ConnAStartListenerEx h listen pub which only s = Some (Inr (c, s'))"
  shows "linv s' xs"
proof -
  have w: "walk (start_one listen only w) (li_head s) 0 s = Some (Inr (c, s')) \<Longrightarrow> linv s' xs" for w
    by (rule walk_from_head [OF assms(1)]) (auto intro: linv_start_one)
  from assms w show ?thesis
    by (auto simp: ConnAStartListenerEx_def Let_def intro: linv_start_one split: if_splits option.splits prod.splits)
qed

lemma mild_conn: "mild (\<lambda>x. x\<lparr>li_conn := v\<rparr>)" "mild (\<lambda>x. x\<lparr>li_sa := a\<rparr>)"
    "mild (\<lambda>x. x\<lparr>li_conn := v, li_sa := a\<rparr>)" "mild (\<lambda>x. x\<lparr>li_state := CONN_LISTENER_FRESH, li_conn := v\<rparr>)"
    "mild (\<lambda>x. x\<lparr>li_threshold := t, li_eventCallback := cb\<rparr>)"
    "mild (\<lambda>x. x\<lparr>li_state := li_state x AND - 33\<rparr>)"
    "mild (\<lambda>x. x\<lparr>li_state := li_state x OR CONN_LISTENER_EXPIRED\<rparr>)"
    "mild (\<lambda>x. x\<lparr>li_state := li_state x OR CONN_LISTENER_INDEPENDENT\<rparr>)"
  by (simp_all add: mild_def)

lemmas linv_intros = linv_upd [OF mild_conn(1)] linv_upd [OF mild_conn(2)] linv_upd [OF mild_conn(3)]
  linv_upd [OF mild_conn(4)] linv_upd [OF mild_conn(5)] linv_upd [OF mild_conn(6)] linv_upd [OF mild_conn(7)]
  linv_upd [OF mild_conn(8)] linv_call linv_tell linv_upd [OF mild_new_state]

lemma start_without_handle:
  "ConnAStartListenerEx h listen False which only s = Some (Inl Null_pointer) \<or>
   ConnAStartListenerEx h listen False which only s = Some (Inr (0, s))"
  by (auto simp: ConnAStartListenerEx_def)

lemma linv_callback:
  assumes "linv s xs" and "ConnAListenerCallback h listen l s = Some (Inr s')"
  shows "linv s' xs"
proof (cases l)
  case None
  with assms show ?thesis by (simp add: ConnAListenerCallback_def)
next
  case (Some p)
  let ?s = "upd_li p (\<lambda>x. x\<lparr>li_conn := None\<rparr>) s"
  have "s' = ?s"
    using assms(2) Some start_without_handle [of h listen 0 "Some p" ?s]
    by (auto simp: ConnAListenerCallback_def Let_def split: if_splits)
  then show ?thesis using assms(1) by (simp add: linv_intros(1))
qed

lemma linv_restart:
  assumes "linv s xs" and "ConnARestartListenerEx h listen sa_ok p addr s = Some (Inr (ok, s'))"
  shows "linv s' xs"
proof -
  let ?f = "upd_li p (\<lambda>x. x\<lparr>li_state := CONN_LISTENER_FRESH, li_conn := None\<rparr>) s"
  let ?g = "upd_li p (\<lambda>x. x\<lparr>li_sa := addr\<rparr>) ?f"
  let ?r = "upd_li p (\<lambda>x. x\<lparr>li_conn := li_conn (li s p), li_sa := li_sa (li s p)\<rparr>)"
  have "s' = s \<or> s' = ?r ?f \<or> s' = ?r ?g"
    using assms(2) start_without_handle [of h listen 0 "Some p" s] start_without_handle [of h listen 0 "Some p" ?g]
    by (auto simp: ConnARestartListenerEx_def Let_def split: if_splits)
  with assms(1) show ?thesis by (auto intro: linv_intros(2-4))
qed

lemma linv_status:
  assumes "linv s xs" and "ConnAListenerStatusEx h which only shutting s = Some (Inr (c, s'))"
  shows "linv s' xs"
proof -
  have "linv s' xs" if "walk (\<lambda>p s. if \<not> selected which only p (li s p) then (False, s)
      else if shutting \<and> li_conn (li s p) = None then (False, ConnListenerFree p s) else (True, s)) (li_head s) 0 s =
      Some (Inr (c, s'))"
    using that
    by (rule walk_from_head [OF assms(1)]) (auto simp: ConnListenerFree_def Let_def split: if_splits)
  with assms show ?thesis by (auto simp: ConnAListenerStatusEx_def split: if_splits)
qed

lemma listener_step_inv:
  assumes "listener_step s s'" and "linv s xs"
  shows "\<exists>ys. linv s' ys"
  using assms
proof cases
  case (add h fresh sa_ok nm addr backlog acb r)
  then show ?thesis using linv_add assms(2) by blast
next
  case (independent h fresh sa_ok nm addr backlog acb r)
  then have "s' = s \<or> (\<exists>r1 s1. ConnAAddListenerEx h fresh sa_ok nm addr backlog acb s = Some (r1, s1) \<and>
      (s' = s1 \<or> (\<exists>p. s' = upd_li p (\<lambda>x. x\<lparr>li_state := li_state x OR CONN_LISTENER_INDEPENDENT\<rparr>) s1)))"
    by (auto simp: ConnAAddIndependentListenerEx_def bind_eq_Some_conv split: if_splits option.splits)
  then show ?thesis
    using linv_add [OF assms(2) _ independent(2)] assms(2) linv_intros(8) by blast
next
  case (configure p threshold cb)
  then show ?thesis using assms(2) linv_intros(5) [OF assms(2)] by (auto simp: ConnAListenerConfigure_def)
next
  case (stop h which only c)
  then have "linv s' xs"
    unfolding ConnAStopListenerEx_def
    by (elim walk_selected_inv [OF assms(2)]) (intro linv_tell linv_upd mild_new_state; simp)
  then show ?thesis by blast
next
  case (suspend h only c)
  then have "linv s' xs"
    unfolding ConnASuspendListenerEx_def
    by (elim walk_selected_inv [OF assms(2)]) (intro linv_tell linv_upd mild_new_state; simp)
  then show ?thesis by blast
next
  case (resume h only c)
  then have "linv s' xs"
    unfolding ConnAResumeListenerEx_def
    by (elim walk_selected_inv [OF assms(2)]) (intro linv_tell linv_upd mild_new_state; simp)
  then show ?thesis by blast
next
  case (expire h only c)
  then have "linv s' xs"
    unfolding ConnAExpireListenerEx_def
    by (elim walk_selected_inv [OF assms(2)]) (auto intro: linv_intros(7))
  then show ?thesis by blast
next
  case (status h which only shutting c)
  then show ?thesis using linv_status [OF assms(2)] by blast
next
  case (remove h which only want_list r)
  then show ?thesis
    using remove_walk_inv [of s "[]" xs h which only want_list "([], 0)" r s'] assms(2) li_repr_head [of s xs]
    by (auto simp: ConnARemoveListenerEx_def linv_def split: if_splits)
next
  case (start h listen pub which only c)
  then show ?thesis using linv_start [OF assms(2)] by blast
next
  case (callback h listen l)
  then show ?thesis using linv_callback [OF assms(2)] by blast
next
  case (restart h listen sa_ok p addr ok)
  then show ?thesis using linv_restart [OF assms(2)] by blast
next
  case prevent
  then show ?thesis using assms(2) by (auto simp: ConnHandlePreventNewListeners_def linv_def li_repr_def)
qed

end
