(* ===== verification/ConnLists.thy ===== *)
theory ConnLists
  imports LinkedList
begin

text \<open>
  The lists of \<^verbatim>\<open>connio.c\<close>: the connections of a handle that are in use (\<^verbatim>\<open>ConnList\<close>) and the handles
  of the library (\<^verbatim>\<open>ConnIO.handles\<close>).  Both are intrusive, doubly linked and written out by hand; both
  are interpretations of \<open>linked_list\<close>.
\<close>

section \<open>Connections in use\<close>

record ConnList =
  cl_head :: "ptr option"
  cl_tail :: "ptr option"
  cl_count :: int
  cl_peak :: int
  cl_limit :: int

text \<open>\<^verbatim>\<open>conn->list.next\<close> and \<^verbatim>\<open>conn->list.previous\<close> of every connection, and the list.\<close>

record cl_state =
  cl_next :: "ptr \<Rightarrow> ptr option"
  cl_prev :: "ptr \<Rightarrow> ptr option"
  cl_list :: ConnList

definition ConnListInit :: "cl_state \<Rightarrow> cl_state" where
  "ConnListInit s = s\<lparr>cl_list := \<lparr>cl_head = None, cl_tail = None, cl_count = 0, cl_peak = 0, cl_limit = 0\<rparr>\<rparr>"

definition connListAppend :: "ptr \<Rightarrow> cl_state \<Rightarrow> cl_state" where
  "connListAppend conn s =
     (let l = cl_list s;
          l1 = l\<lparr>cl_count := cl_count l + 1\<rparr>;
          l2 = (if cl_count l1 > cl_peak l1 then l1\<lparr>cl_peak := cl_count l1\<rparr> else l1);
          s1 = s\<lparr>cl_prev := (cl_prev s)(conn := cl_tail l)\<rparr>
      in case cl_tail l of
           Some t \<Rightarrow> s1\<lparr>cl_next := (cl_next s1)(t := Some conn), cl_list := l2\<lparr>cl_tail := Some conn\<rparr>\<rparr>
         | None \<Rightarrow> s1\<lparr>cl_list := l2\<lparr>cl_head := Some conn, cl_tail := Some conn\<rparr>\<rparr>)"

definition ConnListAppend :: "ptr \<Rightarrow> cl_state \<Rightarrow> cl_state" where
  "ConnListAppend conn s = connListAppend conn (s\<lparr>cl_next := (cl_next s)(conn := None)\<rparr>)"

definition ConnListRemove :: "ptr \<Rightarrow> cl_state \<Rightarrow> cl_state" where
  "ConnListRemove conn s =
     (let nx = cl_next s conn; pv = cl_prev s conn;
          s1 = (case pv of
                  Some p \<Rightarrow> s\<lparr>cl_next := (cl_next s)(p := nx)\<rparr>
                | None \<Rightarrow> s\<lparr>cl_list := (cl_list s)\<lparr>cl_head := nx\<rparr>\<rparr>);
          s2 = (case nx of
                  Some n \<Rightarrow> s1\<lparr>cl_prev := (cl_prev s1)(n := pv)\<rparr>
                | None \<Rightarrow> s1\<lparr>cl_list := (cl_list s1)\<lparr>cl_tail := pv\<rparr>\<rparr>);
          s3 = s2\<lparr>cl_list := (cl_list s2)\<lparr>cl_count := cl_count (cl_list s2) - 1\<rparr>\<rparr>
      in s3\<lparr>cl_next := (cl_next s3)(conn := None), cl_prev := (cl_prev s3)(conn := None)\<rparr>)"

text \<open>
  \<^verbatim>\<open>connListRemoveMature()\<close>, called when the list is not empty: nothing corrects the count or the new
  head's back pointer.
\<close>

definition connListRemoveMature :: "cl_state \<Rightarrow> ptr option \<times> cl_state" where
  "connListRemoveMature s =
     (if cl_count (cl_list s) > cl_limit (cl_list s) then
        (case cl_head (cl_list s) of
           None \<Rightarrow> (None, s)
         | Some mature \<Rightarrow>
             (let h = cl_next s mature;
                  l1 = (cl_list s)\<lparr>cl_head := h\<rparr>;
                  l2 = (if h = None then l1\<lparr>cl_tail := None\<rparr> else l1)
              in (Some mature, s\<lparr>cl_list := l2, cl_next := (cl_next s)(mature := None),
                                 cl_prev := (cl_prev s)(mature := None)\<rparr>)))
      else (None, s))"

definition ConnListPush :: "ptr \<Rightarrow> cl_state \<Rightarrow> ptr option \<times> cl_state" where
  "ConnListPush conn s =
     connListRemoveMature (connListAppend conn (s\<lparr>cl_next := (cl_next s)(conn := None)\<rparr>))"

definition cl_repr :: "cl_state \<Rightarrow> ptr list \<Rightarrow> bool" where
  "cl_repr s xs \<longleftrightarrow> dll (cl_next s) (cl_prev s) (cl_head (cl_list s)) (cl_tail (cl_list s)) xs \<and>
     cl_count (cl_list s) = int (length xs) \<and> cl_count (cl_list s) \<le> cl_peak (cl_list s)"

lemma append_is_push_back:
  assumes "cl_tail (cl_list s) \<noteq> Some x"
  shows "dll_push_back (cl_next s) (cl_prev s) (cl_head (cl_list s)) (cl_tail (cl_list s)) x =
    (cl_next (ConnListAppend x s), cl_prev (ConnListAppend x s), cl_head (cl_list (ConnListAppend x s)),
     cl_tail (cl_list (ConnListAppend x s)))"
  using assms by (auto simp: dll_push_back_def ConnListAppend_def connListAppend_def Let_def fun_eq_iff split: option.splits)

lemma cl_append:
  assumes "cl_repr s xs" and "x \<notin> set xs"
  shows "cl_repr (ConnListAppend x s) (xs @ [x])"
proof -
  from assms(1) have d: "dll (cl_next s) (cl_prev s) (cl_head (cl_list s)) (cl_tail (cl_list s)) xs"
    by (simp add: cl_repr_def)
  have "cl_tail (cl_list s) \<noteq> Some x" using dll_last [OF d] assms(2) by (auto split: if_splits)
  from dll_push_back_correct [OF d assms(2) append_is_push_back [OF this]] assms(1) show ?thesis
    by (auto simp: cl_repr_def ConnListAppend_def connListAppend_def Let_def split: option.splits)
qed

lemma remove_is_unlink:
  assumes "cl_next s x \<noteq> Some x" and "cl_prev s x \<noteq> Some x"
  shows "(cl_next (ConnListRemove x s), cl_prev (ConnListRemove x s), cl_head (cl_list (ConnListRemove x s)),
      cl_tail (cl_list (ConnListRemove x s))) =
    (case dll_unlink (cl_next s) (cl_prev s) (cl_head (cl_list s)) (cl_tail (cl_list s)) x of
       (n, p, h, t) \<Rightarrow> (n(x := None), p(x := None), h, t))"
  using assms by (auto simp: dll_unlink_def ConnListRemove_def Let_def fun_eq_iff split: option.splits)

lemma remove_counts:
  "cl_count (cl_list (ConnListRemove x s)) = cl_count (cl_list s) - 1"
  "cl_peak (cl_list (ConnListRemove x s)) = cl_peak (cl_list s)"
  by (simp_all add: ConnListRemove_def Let_def split: option.splits)

lemma cl_remove:
  assumes "cl_repr s xs" and "x \<in> set xs"
  shows "cl_repr (ConnListRemove x s) (remove1 x xs)"
proof -
  from assms(1) have d: "dll (cl_next s) (cl_prev s) (cl_head (cl_list s)) (cl_tail (cl_list s)) xs"
    by (simp add: cl_repr_def)
  obtain n p h t where u: "dll_unlink (cl_next s) (cl_prev s) (cl_head (cl_list s)) (cl_tail (cl_list s)) x = (n, p, h, t)"
    by (metis prod_cases4)
  have "x \<notin> set (remove1 x xs)" using dll_distinct [OF d] by (simp add: set_remove1_eq)
  with dll_unlink_correct [OF d assms(2) u] have "dll (n(x := None)) (p(x := None)) h t (remove1 x xs)"
    by (simp add: dll_frame)
  moreover have "int (length (remove1 x xs)) = int (length xs) - 1"
    using assms(2) length_pos_if_in_set [OF assms(2)] by (simp add: length_remove1 Suc_leI)
  ultimately show ?thesis
    using assms(1) remove_is_unlink [OF dll_no_loop(1) [OF d assms(2)] dll_no_loop(2) [OF d assms(2)]] u
    by (auto simp: cl_repr_def remove_counts)
qed

interpretation inuse: linked_list cl_repr ConnListAppend ConnListRemove "\<lambda>s. cl_head (cl_list s)"
proof (unfold_locales, goal_cases)
  case (1 s xs)
  then show ?case by (auto simp: cl_repr_def dll_distinct)
next
  case (2 s xs ys)
  then show ?case by (auto simp: cl_repr_def dest: dll_unique)
next
  case (3 s xs x)
  then show ?case by (rule cl_append)
next
  case (4 s xs x)
  then show ?case by (rule cl_remove)
next
  case (5 s xs)
  then show ?case by (auto simp: cl_repr_def dest: dll_head)
qed

section \<open>Handles\<close>

record handle_list =
  hl_next :: "ptr \<Rightarrow> ptr option"
  hl_prev :: "ptr \<Rightarrow> ptr option"
  hl_head :: "ptr option"
  hl_tail :: "ptr option"
  hl_count :: int
  hl_internal :: "nat option"         \<comment> \<open>\<^verbatim>\<open>ConnIO.threadEngine.internal\<close>\<close>
  hl_consumer :: "nat option"         \<comment> \<open>\<^verbatim>\<open>ConnIO.threadEngine.defaultConsumer\<close>\<close>
  hl_destroyed :: "nat list"          \<comment> \<open>engines passed to \<^verbatim>\<open>AThreadEngineDestroy()\<close>\<close>

text \<open>
  The engines of a handle, and those its configuration asked for.  The links of a handle are
  cleared when it is allocated (\<open>handle_memset\<close>).
\<close>

definition handle_memset :: "ptr \<Rightarrow> handle_list \<Rightarrow> handle_list" where
  "handle_memset p s = s\<lparr>hl_next := (hl_next s)(p := None), hl_prev := (hl_prev s)(p := None)\<rparr>"

definition adopt :: "nat option \<Rightarrow> nat option \<Rightarrow> nat option \<Rightarrow> nat option" where
  "adopt global own configured =
     (if global = None \<and> own \<noteq> None \<and> configured = None then own else global)"

definition ConnHandleRemember ::
    "nat option \<times> nat option \<Rightarrow> nat option \<times> nat option \<Rightarrow> ptr \<Rightarrow> handle_list \<Rightarrow> handle_list" where
  "ConnHandleRemember own configured p s =
     (let s1 = s\<lparr>hl_prev := (hl_prev s)(p := hl_tail s)\<rparr>;
          s2 = (case hl_tail s of
                  Some t \<Rightarrow> s1\<lparr>hl_next := (hl_next s1)(t := Some p)\<rparr>
                | None \<Rightarrow> s1\<lparr>hl_head := Some p\<rparr>)
      in s2\<lparr>hl_tail := Some p, hl_count := hl_count s + 1,
            hl_internal := adopt (hl_internal s) (fst own) (fst configured),
            hl_consumer := adopt (hl_consumer s) (snd own) (snd configured)\<rparr>)"

definition ConnHandleForget :: "ptr \<Rightarrow> handle_list \<Rightarrow> handle_list" where
  "ConnHandleForget p s =
     (let nx = hl_next s p; pv = hl_prev s p;
          s1 = (case pv of
                  Some q \<Rightarrow> s\<lparr>hl_next := (hl_next s)(q := nx)\<rparr>
                | None \<Rightarrow> s\<lparr>hl_head := nx\<rparr>);
          s2 = (case nx of
                  Some n \<Rightarrow> s1\<lparr>hl_prev := (hl_prev s1)(n := pv)\<rparr>
                | None \<Rightarrow> s1\<lparr>hl_tail := pv\<rparr>);
          s3 = s2\<lparr>hl_count := hl_count s - 1\<rparr>
      in if hl_count s3 < 1
         then s3\<lparr>hl_internal := None, hl_consumer := None,
                 hl_destroyed := hl_destroyed s @ (case hl_internal s of None \<Rightarrow> [] | Some a \<Rightarrow> [a]) @
                   (case hl_consumer s of None \<Rightarrow> [] | Some a \<Rightarrow> [a])\<rparr>
         else s3)"

definition hl_repr :: "handle_list \<Rightarrow> ptr list \<Rightarrow> bool" where
  "hl_repr s xs \<longleftrightarrow> dll (hl_next s) (hl_prev s) (hl_head s) (hl_tail s) xs \<and> hl_count s = int (length xs)"

lemma remember_is_push_back:
  assumes "hl_tail s \<noteq> Some x"
  shows "dll_push_back (hl_next s) (hl_prev s) (hl_head s) (hl_tail s) x =
    (hl_next (ConnHandleRemember own cf x (handle_memset x s)), hl_prev (ConnHandleRemember own cf x (handle_memset x s)),
     hl_head (ConnHandleRemember own cf x (handle_memset x s)), hl_tail (ConnHandleRemember own cf x (handle_memset x s)))"
  using assms by (auto simp: dll_push_back_def ConnHandleRemember_def handle_memset_def Let_def fun_eq_iff split: option.splits)

lemma hl_remember:
  assumes "hl_repr s xs" and "x \<notin> set xs"
  shows "hl_repr (ConnHandleRemember own cf x (handle_memset x s)) (xs @ [x])"
proof -
  from assms(1) have d: "dll (hl_next s) (hl_prev s) (hl_head s) (hl_tail s) xs" by (simp add: hl_repr_def)
  have "hl_tail s \<noteq> Some x" using dll_last [OF d] assms(2) by (auto split: if_splits)
  from dll_push_back_correct [OF d assms(2) remember_is_push_back [OF this]] assms(1) show ?thesis
    by (auto simp: hl_repr_def ConnHandleRemember_def handle_memset_def Let_def split: option.splits)
qed

lemma forget_is_unlink:
  assumes "hl_next s x \<noteq> Some x" and "hl_prev s x \<noteq> Some x"
  shows "(hl_next (ConnHandleForget x s), hl_prev (ConnHandleForget x s), hl_head (ConnHandleForget x s),
      hl_tail (ConnHandleForget x s)) = dll_unlink (hl_next s) (hl_prev s) (hl_head s) (hl_tail s) x"
  using assms by (auto simp: dll_unlink_def ConnHandleForget_def Let_def fun_eq_iff split: option.splits)

lemma forget_count: "hl_count (ConnHandleForget x s) = hl_count s - 1"
  by (simp add: ConnHandleForget_def Let_def split: option.splits)

lemma hl_forget:
  assumes "hl_repr s xs" and "x \<in> set xs"
  shows "hl_repr (ConnHandleForget x s) (remove1 x xs)"
proof -
  from assms(1) have d: "dll (hl_next s) (hl_prev s) (hl_head s) (hl_tail s) xs" by (simp add: hl_repr_def)
  have "int (length (remove1 x xs)) = int (length xs) - 1"
    using assms(2) length_pos_if_in_set [OF assms(2)] by (simp add: length_remove1 Suc_leI)
  with dll_unlink_correct [OF d assms(2) forget_is_unlink [symmetric]] dll_no_loop [OF d assms(2)] assms(1)
  show ?thesis by (simp add: hl_repr_def forget_count)
qed

interpretation handles: linked_list hl_repr "\<lambda>x s. ConnHandleRemember own cf x (handle_memset x s)" ConnHandleForget hl_head
  for own cf
proof (unfold_locales, goal_cases)
  case (1 s xs)
  then show ?case by (auto simp: hl_repr_def dll_distinct)
next
  case (2 s xs ys)
  then show ?case by (auto simp: hl_repr_def dest: dll_unique)
next
  case (3 s xs x)
  then show ?case by (rule hl_remember)
next
  case (4 s xs x)
  then show ?case by (rule hl_forget)
next
  case (5 s xs)
  then show ?case by (auto simp: hl_repr_def dest: dll_head)
qed

end
