(* ===== verification/ListenerProps.thy ===== *)
theory ListenerProps
  imports ListenerInv ConnLists
begin

unbundle bit_operations_syntax

text \<open>
  The properties of listeners and of the list of connections in use.  The witnesses work on two
  listeners, at 1 (active, with a connection) and at 2 (failed, independent).
\<close>

section \<open>Witness\<close>

definition async_handle :: ConnHandleView where
  "async_handle = \<lparr>shuttingDown = False, flags_fixed = CONN_HANDLE_ASYNC_ENABLED, flags_dynamic = 0\<rparr>"

definition two_listeners :: listeners where
  "two_listeners = no_listeners\<lparr>li_live := {1, 2}, li_head := Some 1, li_tail := Some 2, li_last := 2,
     li := (li no_listeners)
       (1 := (li no_listeners 1)\<lparr>li_conn := Some 7, li_id := 1, li_next := Some 2, li_state := CONN_LISTENER_ACTIVE\<rparr>,
        2 := (li no_listeners 2)\<lparr>li_id := 2, li_previous := Some 1, li_sa := [5],
          li_state := CONN_LISTENER_FAILED OR CONN_LISTENER_INDEPENDENT\<rparr>)\<rparr>"

lemma two_listeners_repr: "li_repr two_listeners [1, 2]"
  by (simp add: li_repr_def two_listeners_def dll_def no_listeners_def)

lemma async_handle_flag: "has (flags_fixed async_handle) CONN_HANDLE_ASYNC_ENABLED"
  by (simp add: async_handle_def has_def)

section \<open>Properties\<close>

text \<open>
  C20. Stopping, suspending, resuming and expiring listeners all end, and do what a single
  simultaneous update of the selected listeners does: each listener of the list that is selected is
  counted once, gets its new state (keeping the independent flag), its connection is told once and in
  the order of the list; no other listener and no link changes.
\<close>

theorem listener_loops_update_the_selected:
  assumes "li_repr s xs" and "has (flags_fixed h) CONN_HANDLE_ASYNC_ENABLED"
  shows "ConnAStopListenerEx h which only s =
      (let ys = filter (\<lambda>p. selected which only p (li s p)) xs
       in Some (Inr (int (length ys), update_all (new_state CONN_LISTENER_STOPPED) (Some Call_shutdown) ys s))) \<and>
    ConnASuspendListenerEx h only s =
      (let ys = filter (\<lambda>p. selected 0 only p (li s p) \<and> has (li_state (li s p)) CONN_LISTENER_ACTIVE) xs
       in Some (Inr (int (length ys), update_all (new_state CONN_LISTENER_SUSPENDED) (Some Call_suspend) ys s))) \<and>
    ConnAResumeListenerEx h only s =
      (let ys = filter (\<lambda>p. selected 0 only p (li s p) \<and> has (li_state (li s p)) CONN_LISTENER_SUSPENDED) xs
       in Some (Inr (int (length ys), update_all (new_state CONN_LISTENER_ACTIVE) (Some Call_resume) ys s))) \<and>
    ConnAExpireListenerEx h only s =
      (let ys = filter (\<lambda>p. selected 0 only p (li s p) \<and> \<not> has (li_state (li s p)) CONN_LISTENER_EXPIRED) xs
       in Some (Inr (int (length ys),
            update_all (\<lambda>x. x\<lparr>li_state := li_state x OR CONN_LISTENER_EXPIRED\<rparr>) None ys s)))"
proof (intro conjI, goal_cases)
  note tell = walk_selected_update [OF assms new_state_kept tell_update [OF new_state_kept]]
  case 1
  show ?case using tell [where also_if = "\<lambda>_. True"] by (simp add: ConnAStopListenerEx_def)
  case 2
  show ?case unfolding ConnASuspendListenerEx_def by (rule tell)
  case 3
  show ?case unfolding ConnAResumeListenerEx_def by (rule tell)
  case 4
  show ?case unfolding ConnAExpireListenerEx_def by (rule walk_selected_update [OF assms expire_kept upd_update])
qed

theorem listener_loops_update_the_selected_witness:
  "\<exists>s'. ConnASuspendListenerEx async_handle None two_listeners = Some (Inr (1, s')) \<and>
     li_state (li s' 1) = CONN_LISTENER_SUSPENDED \<and> li s' 2 = li two_listeners 2 \<and> li_calls s' = [Call_suspend 7]"
  using listener_loops_update_the_selected [OF two_listeners_repr async_handle_flag, of 0 None]
  by (simp add: two_listeners_def no_listeners_def selected_def has_def update_all_def told_def new_state_def)



text \<open>
  A listener whose connection left the engine by an error is not restarted: the callback calls
  \<^verbatim>\<open>ConnAStartListenerEx()\<close> without the handle, and that passes the null pointer on to
  \<^verbatim>\<open>newListenersAllowed()\<close>, which dereferences it.  The same happens when a listener is moved to another
  address.
\<close>

theorem restarting_a_listener_faults:
  assumes "has (flags_fixed h) CONN_HANDLE_ASYNC_ENABLED" and "\<not> shuttingDown h" and "\<not> li_preventNew s"
  shows "(\<not> has (li_state (li s p)) CONN_LISTENER_STOPPED \<longrightarrow>
      ConnAListenerCallback h listen (Some p) s = Some (Inl Null_pointer)) \<and>
    (addr \<noteq> li_sa (li s q) \<longrightarrow> ConnARestartListenerEx h listen True q addr s = Some (Inl Null_pointer))"
proof -
  have "ConnAStartListenerEx h listen False 0 (Some p) t = Some (Inl Null_pointer)" for p t
    using assms by (simp add: ConnAStartListenerEx_def)
  with assms show ?thesis
    by (simp add: ConnAListenerCallback_def ConnARestartListenerEx_def may_add_def newListenersAllowed_def Let_def upd_fields)
qed

theorem restarting_a_listener_faults_witness:
  "ConnAListenerCallback async_handle (\<lambda>_. Some 8) (Some 1) two_listeners = Some (Inl Null_pointer) \<and>
   ConnARestartListenerEx async_handle (\<lambda>_. Some 8) True 2 [6] two_listeners = Some (Inl Null_pointer)"
proof -
  have "\<not> shuttingDown async_handle" "\<not> li_preventNew two_listeners"
    by (simp_all add: async_handle_def two_listeners_def no_listeners_def)
  from restarting_a_listener_faults [OF async_handle_flag this, of 1 "\<lambda>_. Some 8" "[6]" 2] show ?thesis
    by (simp add: two_listeners_def has_def)
qed

text \<open>
  \<^verbatim>\<open>ConnAListenerStatusEx()\<close> returns the number of the selected listeners and changes nothing,
  unless it is called for a shutdown and a selected listener has no connection: then it frees that
  listener and reads its \<^verbatim>\<open>next\<close> pointer afterwards.
\<close>

theorem listener_status:
  assumes "li_repr s xs" and "has (flags_fixed h) CONN_HANDLE_ASYNC_ENABLED"
  shows "ConnAListenerStatusEx h which only shutting s =
    (let ys = filter (\<lambda>p. selected which only p (li s p)) xs
     in if shutting \<and> (\<exists>p \<in> set ys. li_conn (li s p) = None) then Some (Inl Freed_memory)
        else Some (Inr (int (length ys), s)))"
proof -
  let ?body = "\<lambda>p s. if \<not> selected which only p (li s p) then (False, s)
      else if shutting \<and> li_conn (li s p) = None then (False, ConnListenerFree p s) else (True, s)"
  have freed: "p \<notin> li_live (ConnListenerFree p s)" for p by (simp add: ConnListenerFree_def Let_def)
  have "walk ?body (first_of zs) c s =
      (if shutting \<and> (\<exists>p \<in> set zs. selected which only p (li s p) \<and> li_conn (li s p) = None) then Some (Inl Freed_memory)
       else Some (Inr (c + int (length (filter (\<lambda>p. selected which only p (li s p)) zs)), s)))"
    if "li_repr s (ys @ zs)" for ys zs c
    using that
  proof (induction zs arbitrary: ys c)
    case Nil
    then show ?case by (subst walk.simps) simp
  next
    case (Cons p zs)
    note n = li_repr_next [OF Cons.prems] and l = li_repr_live [OF Cons.prems, of p]
    from Cons.prems have "li_repr s ((ys @ [p]) @ zs)" by simp
    from Cons.IH [OF this] show ?case
      by (subst walk.simps) (simp add: n l freed; auto)
  qed
  from this [of "[]" xs 0] assms show ?thesis
    by (simp add: ConnAListenerStatusEx_def li_repr_head [OF assms(1)] Let_def; auto)
qed

theorem listener_status_witness:
  "ConnAListenerStatusEx async_handle 0 (Some 2) True two_listeners = Some (Inl Freed_memory) \<and>
   ConnAListenerStatusEx async_handle 0 None True two_listeners = Some (Inr (1, two_listeners))"
proof -
  note l = listener_status [OF two_listeners_repr async_handle_flag]
  show ?thesis unfolding l by (simp add: two_listeners_def no_listeners_def selected_def has_def)
qed

section \<open>Connections in use\<close>

datatype in_use_op = In_use_append ptr | In_use_remove ptr

primrec in_use_exec :: "in_use_op \<Rightarrow> cl_state \<Rightarrow> cl_state" where
  "in_use_exec (In_use_append c) s = ConnListAppend c s"
| "in_use_exec (In_use_remove c) s = ConnListRemove c s"

text \<open>The reference: the list and the greatest length it has had.\<close>

primrec in_use_spec :: "in_use_op \<Rightarrow> ptr list \<times> int \<Rightarrow> ptr list \<times> int" where
  "in_use_spec (In_use_append c) x = (fst x @ [c], max (snd x) (int (length (fst x)) + 1))"
| "in_use_spec (In_use_remove c) x = (remove1 c (fst x), snd x)"

text \<open>A connection is linked when it is allocated and unlinked when it is freed.\<close>

fun in_use_ok :: "in_use_op list \<Rightarrow> ptr list \<Rightarrow> bool" where
  "in_use_ok [] xs \<longleftrightarrow> True"
| "in_use_ok (In_use_append c # ops) xs \<longleftrightarrow> c \<notin> set xs \<and> in_use_ok ops (xs @ [c])"
| "in_use_ok (In_use_remove c # ops) xs \<longleftrightarrow> c \<in> set xs \<and> in_use_ok ops (remove1 c xs)"

lemma append_peak:
  "cl_peak (cl_list (ConnListAppend c s)) = max (cl_peak (cl_list s)) (cl_count (cl_list s) + 1)"
  by (auto simp: ConnListAppend_def connListAppend_def Let_def split: option.splits)

lemma in_use_run:
  assumes "cl_repr s xs" and "in_use_ok ops xs"
  shows "cl_repr (fold in_use_exec ops s) (fst (fold in_use_spec ops (xs, cl_peak (cl_list s)))) \<and>
    cl_peak (cl_list (fold in_use_exec ops s)) = snd (fold in_use_spec ops (xs, cl_peak (cl_list s)))"
  using assms
proof (induction ops xs arbitrary: s rule: in_use_ok.induct)
  case (1 xs)
  then show ?case by simp
next
  case (2 c ops xs)
  from 2(2,3) have "cl_repr (ConnListAppend c s) (xs @ [c])" by (simp add: inuse.repr_ins)
  moreover have "cl_count (cl_list s) = int (length xs)" using 2(2) by (simp add: cl_repr_def)
  ultimately show ?case using 2(1) [of "ConnListAppend c s"] 2(3) by (simp add: append_peak)
next
  case (3 c ops xs)
  from 3(2,3) have "cl_repr (ConnListRemove c s) (remove1 c xs)" by (simp add: inuse.repr_del)
  then show ?case using 3(1) [of "ConnListRemove c s"] 3(3) by (simp add: remove_counts)
qed

text \<open>
  C21. The list of the connections in use of a handle holds, at any time, the connections that have
  been allocated and not freed in the order of their allocation; its count is their number, and its
  peak the greatest number there has been.
\<close>

theorem in_use_list_is_exact:
  assumes "in_use_ok ops []"
  shows "case fold in_use_spec ops ([], 0) of (xs, pk) \<Rightarrow>
    (let s = fold in_use_exec ops (ConnListInit s0)
     in dll (cl_next s) (cl_prev s) (cl_head (cl_list s)) (cl_tail (cl_list s)) xs \<and>
        cl_count (cl_list s) = int (length xs) \<and> cl_peak (cl_list s) = pk)"
proof -
  have "cl_repr (ConnListInit s0) []" and pk: "cl_peak (cl_list (ConnListInit s0)) = 0"
    by (simp_all add: cl_repr_def ConnListInit_def)
  from in_use_run [OF this(1) assms] show ?thesis
    by (simp add: pk cl_repr_def Let_def case_prod_beta)
qed

theorem in_use_list_is_exact_witness:
  "let s = fold in_use_exec [In_use_append 3, In_use_append 4, In_use_remove 3]
       (ConnListInit \<lparr>cl_next = \<lambda>_. None, cl_prev = \<lambda>_. None, cl_list = undefined\<rparr>)
   in cl_head (cl_list s) = Some 4 \<and> cl_count (cl_list s) = 1 \<and> cl_peak (cl_list s) = 2"
proof -
  have "in_use_ok [In_use_append 3, In_use_append 4, In_use_remove 3] []" by simp
  from in_use_list_is_exact [OF this, of "\<lparr>cl_next = \<lambda>_. None, cl_prev = \<lambda>_. None, cl_list = undefined\<rparr>"]
  show ?thesis by (auto simp: Let_def dest: dll_head)
qed

end
