(* ===== verification/HandleShutdown.thy ===== *)
theory HandleShutdown
  imports Listeners ConnApi
begin

unbundle bit_operations_syntax

text \<open>
  Shutting a handle down (\<^verbatim>\<open>connio.c\<close>): wait for the listeners, wait for the connections, abort what is
  left, wait again, close what is left, wait for ever.  The state is the handle with the connections of
  its list \<^verbatim>\<open>inUse\<close> in order, and the kernel; \<open>tick\<close> is what the other threads do to it during the
  second a wait sleeps.  \<open>None\<close> is a wait that does not end.
\<close>

record 'b handle_state =
  hs_conns :: "'b conn list"
  hs_cleanup :: int                  \<comment> \<open>\<^verbatim>\<open>inCleanup\<close>\<close>
  hs_down :: bool                    \<comment> \<open>\<^verbatim>\<open>shuttingDown\<close>\<close>
  hs_listeners :: listeners

type_synonym ('b, 'w) hw = "'b handle_state \<times> 'w net"

section \<open>Children of listeners\<close>

text \<open>The identifiers of a \<^verbatim>\<open>ConnListenerList\<close> are read up to the first 0.\<close>

definition isChildOfListener :: "int list \<Rightarrow> 'b conn \<Rightarrow> bool" where
  "isChildOfListener ids c \<longleftrightarrow>
     listenerID (sp c) \<noteq> 0 \<and> listenerID (sp c) \<in> set (takeWhile (\<lambda>i. i \<noteq> 0) ids)"

definition connChild :: "int list \<Rightarrow> 'b conn \<Rightarrow> bool" where
  "connChild ids c \<longleftrightarrow>
     (case state c of
        CONN_STATE_SYNCHRONOUS_LISTENER \<Rightarrow> False
      | CONN_STATE_ASYNCHRONOUS_LISTENER \<Rightarrow> False
      | CONN_STATE_CACHED \<Rightarrow> False
      | CONN_STATE_FREE \<Rightarrow> False
      | _ \<Rightarrow> listenerID (sp c) \<noteq> 0 \<and> listenerID (sp c) \<in> set (takeWhile (\<lambda>i. i \<noteq> 0) ids))"

section \<open>Waiting\<close>

abbreviation (input) CONN_TIMEOUT_INFINITE :: int where "CONN_TIMEOUT_INFINITE \<equiv> - 2"

definition translateShutdownTimeout :: "int \<Rightarrow> int" where
  "translateShutdownTimeout timeout =
     (if timeout > 0 then (if timeout > 1000 then timeout div 1000 else 1)
      else if timeout = CONN_TIMEOUT_IMMEDIATE then 0
      else if timeout = CONN_TIMEOUT_INFINITE then -1
      else 10)"

text \<open>The loop of both waits: whether it was left because everybody was gone, the seconds, the state.\<close>

partial_function (option) wait_exit ::
    "(('b, 'w) hw \<Rightarrow> bool) \<Rightarrow> (('b, 'w) hw \<Rightarrow> ('b, 'w) hw) \<Rightarrow> int \<Rightarrow> nat \<Rightarrow> ('b, 'w) hw \<Rightarrow>
     (bool \<times> nat \<times> ('b, 'w) hw) option" where
  "wait_exit gone tick timeout i s =
     (if gone s then Some (True, i, s)
      else if timeout > -1 \<and> int i \<ge> timeout then Some (False, i, s)
      else wait_exit gone tick timeout (i + 1) (tick s))"

definition conns_gone :: "('b, 'w) hw \<Rightarrow> bool" where
  "conns_gone s \<longleftrightarrow> hs_conns (fst s) = [] \<and> hs_cleanup (fst s) = 0"

definition ConnHandleWaitForConnectionsToExit ::
    "(('b, 'w) hw \<Rightarrow> ('b, 'w) hw) \<Rightarrow> int \<Rightarrow> ('b, 'w) hw \<Rightarrow> (bool \<times> nat \<times> ('b, 'w) hw) option" where
  "ConnHandleWaitForConnectionsToExit tick timeout =
     wait_exit conns_gone tick (translateShutdownTimeout timeout) 0"

definition ConnHandleWaitForChildrenToExit ::
    "int list \<Rightarrow> (('b, 'w) hw \<Rightarrow> ('b, 'w) hw) \<Rightarrow> int \<Rightarrow> ('b, 'w) hw \<Rightarrow> (bool \<times> nat \<times> ('b, 'w) hw) option" where
  "ConnHandleWaitForChildrenToExit ids tick timeout =
     wait_exit (\<lambda>s. length (filter (connChild ids) (hs_conns (fst s))) = 0) tick
       (translateShutdownTimeout timeout) 0"

partial_function (option) wait_listeners ::
    "ConnHandleView \<Rightarrow> (('b, 'w) hw \<Rightarrow> ('b, 'w) hw) \<Rightarrow> ('b, 'w) hw \<Rightarrow> (fault + ('b, 'w) hw) option" where
  "wait_listeners h tick s =
     do { r \<leftarrow> ConnAListenerStatusEx h 0 None True (hs_listeners (fst s));
          case r of
            Inl f \<Rightarrow> Some (Inl f)
          | Inr cl \<Rightarrow>
              if fst cl = 0 then Some (Inr ((fst s)\<lparr>hs_listeners := snd cl\<rparr>, snd s))
              else wait_listeners h tick (tick ((fst s)\<lparr>hs_listeners := snd cl\<rparr>, snd s)) }"

definition ConnAListenerWaitForShutdownEx ::
    "ConnHandleView \<Rightarrow> (('b, 'w) hw \<Rightarrow> ('b, 'w) hw) \<Rightarrow> ('b, 'w) hw \<Rightarrow> (fault + ('b, 'w) hw) option" where
  "ConnAListenerWaitForShutdownEx h tick s =
     (if has (flags_fixed h) CONN_HANDLE_ASYNC_ENABLED then wait_listeners h tick s else Some (Inr s))"

section \<open>Aborting and closing\<close>

text \<open>
  The callers of \<^verbatim>\<open>synchronousListenerClose()\<close> hold the lock of the connection, which it takes again:
  the mutex is taken to be recursive.
\<close>

definition synchronousListenerClose :: "'w sys_ops \<Rightarrow> 'b conn \<times> 'w net \<Rightarrow> 'b conn \<times> 'w net" where
  "synchronousListenerClose sys cn =
     (case cn of (c, n) \<Rightarrow>
        if number (sp c) \<noteq> SOCKET_INVALID
        then (case socketClose sys (sp c, n) of (_, s, n1) \<Rightarrow> (c\<lparr>sp := s, state := CONN_STATE_IDLE\<rparr>, n1))
        else (c\<lparr>state := CONN_STATE_IDLE\<rparr>, n))"

definition asynchronousListenerShutdown :: "'b conn \<Rightarrow> 'b conn" where
  "asynchronousListenerShutdown c =
     (if act_connect c \<noteq> None \<and> state c = CONN_STATE_ASYNCHRONOUS_LISTENER
      then c\<lparr>sp := snd (SocketEventKill SOCK_EVENT_TYPE_CONNECT (sp c))\<rparr>
      else c)"

text \<open>\<open>ids\<close> are the listeners whose children are meant, \<open>None\<close> for all connections.\<close>

definition meant :: "int list option \<Rightarrow> 'b conn \<Rightarrow> bool" where
  "meant ids c \<longleftrightarrow> (case ids of None \<Rightarrow> True | Some l \<Rightarrow> isChildOfListener l c)"

definition disconnect_and_close ::
    "'w sys_ops \<Rightarrow> int \<Rightarrow> 'b conn \<times> 'w net \<Rightarrow> ('b conn \<times> 'w net) option" where
  "disconnect_and_close sys timeout cn =
     (case cn of (c, n) \<Rightarrow>
        if number (sp c) \<noteq> -1
        then do { (_, s, n1) \<leftarrow> socketDisconnect sys timeout 0 (sp c, n);
                  (case socketClose sys (s, n1) of (_, s2, n2) \<Rightarrow> Some (c\<lparr>sp := s2\<rparr>, n2)) }
        else Some (c, n))"

definition abort_conn ::
    "'w sys_ops \<Rightarrow> int \<Rightarrow> int list option \<Rightarrow> nat \<Rightarrow> 'b conn \<times> 'w net \<Rightarrow> ('b conn \<times> 'w net) option" where
  "abort_conn sys timeout ids src cn =
     (case state (fst cn) of
        CONN_STATE_CACHED \<Rightarrow> Some cn
      | CONN_STATE_FREE \<Rightarrow> Some cn
      | CONN_STATE_IDLE \<Rightarrow> if meant ids (fst cn) then disconnect_and_close sys timeout cn else Some cn
      | CONN_STATE_SYNCHRONOUS \<Rightarrow> if meant ids (fst cn) then disconnect_and_close sys timeout cn else Some cn
      | CONN_STATE_ASYNCHRONOUS_ENGINE_COMPLETE \<Rightarrow> Some cn
      | CONN_STATE_SYNCHRONOUS_LISTENER \<Rightarrow> Some (synchronousListenerClose sys cn)
      | CONN_STATE_ASYNCHRONOUS_LISTENER \<Rightarrow> Some (asynchronousListenerShutdown (fst cn), snd cn)
      | _ \<Rightarrow>
          if meant ids (fst cn)
          then do { d \<leftarrow> EventQueueAbort None CONN_EVENT_KILLED ESHUTDOWN src (fst cn); Some (d, snd cn) }
          else Some cn)"

text \<open>\<open>shutdown_cb\<close> is the consumer's callback on a connection: its answer and what it did; \<open>(False, c)\<close> without one.\<close>

definition close_conn ::
    "'w sys_ops \<Rightarrow> int \<Rightarrow> int list option \<Rightarrow> ('b conn \<Rightarrow> bool \<times> 'b conn) \<Rightarrow> 'b conn \<times> 'w net \<Rightarrow>
     ('b conn \<times> 'w net) option" where
  "close_conn sys timeout ids shutdown_cb cn =
     (case shutdown_cb (fst cn) of (handled, c) \<Rightarrow>
        if handled then Some (c, snd cn)
        else
          (case state c of
             CONN_STATE_CACHED \<Rightarrow> Some (c, snd cn)
           | CONN_STATE_FREE \<Rightarrow> Some (c, snd cn)
           | CONN_STATE_SYNCHRONOUS_LISTENER \<Rightarrow> Some (synchronousListenerClose sys (c, snd cn))
           | CONN_STATE_ASYNCHRONOUS_LISTENER \<Rightarrow> Some (asynchronousListenerShutdown c, snd cn)
           | _ \<Rightarrow> if meant ids c then disconnect_and_close sys timeout (c, snd cn) else Some (c, snd cn)))"

primrec each_conn ::
    "('b conn \<times> 'w net \<Rightarrow> ('b conn \<times> 'w net) option) \<Rightarrow> 'b conn list \<Rightarrow> 'w net \<Rightarrow> ('b conn list \<times> 'w net) option" where
  "each_conn f [] n = Some ([], n)"
| "each_conn f (c # cs) n = do { (c1, n1) \<leftarrow> f (c, n); (cs1, n2) \<leftarrow> each_conn f cs n1; Some (c1 # cs1, n2) }"

definition on_conns ::
    "('b conn \<times> 'w net \<Rightarrow> ('b conn \<times> 'w net) option) \<Rightarrow> ('b, 'w) hw \<Rightarrow> ('b, 'w) hw option" where
  "on_conns f s =
     do { (cs, n) \<leftarrow> each_conn f (hs_conns (fst s)) (snd s); Some ((fst s)\<lparr>hs_conns := cs\<rparr>, n) }"

definition ConnHandleConnectionsAbortEx ::
    "'w sys_ops \<Rightarrow> int \<Rightarrow> int list option \<Rightarrow> nat \<Rightarrow> ('b, 'w) hw \<Rightarrow> ('b, 'w) hw option" where
  "ConnHandleConnectionsAbortEx sys timeout ids src = on_conns (abort_conn sys timeout ids src)"

definition ConnHandleConnectionsCloseEx ::
    "'w sys_ops \<Rightarrow> int \<Rightarrow> int list option \<Rightarrow> ('b conn \<Rightarrow> bool \<times> 'b conn) \<Rightarrow> ('b, 'w) hw \<Rightarrow> ('b, 'w) hw option" where
  "ConnHandleConnectionsCloseEx sys timeout ids shutdown_cb = on_conns (close_conn sys timeout ids shutdown_cb)"

section \<open>Shutting down\<close>

text \<open>Both return 0 when they return; \<open>tmo\<close> is the handle's timeout for a shutdown.\<close>

definition ConnHandleShutdownEx ::
    "'w sys_ops \<Rightarrow> ConnHandleView \<Rightarrow> (('b, 'w) hw \<Rightarrow> ('b, 'w) hw) \<Rightarrow> int \<Rightarrow> ('b conn \<Rightarrow> bool \<times> 'b conn) \<Rightarrow>
     int \<Rightarrow> int \<Rightarrow> nat \<Rightarrow> ('b, 'w) hw \<Rightarrow> (fault + ('b, 'w) hw) option" where
  "ConnHandleShutdownEx sys h tick tmo shutdown_cb errorTimeout closeTimeout src s =
     do { r \<leftarrow> ConnAListenerWaitForShutdownEx h tick s;
          case r of
            Inl f \<Rightarrow> Some (Inl f)
          | Inr s1 \<Rightarrow>
              do { (ok, _, hs, n) \<leftarrow> ConnHandleWaitForConnectionsToExit tick errorTimeout s1;
                   let s2 = (hs\<lparr>hs_down := True\<rparr>, n);
                   if ok then Some (Inr s2)
                   else
                     do { s3 \<leftarrow> ConnHandleConnectionsAbortEx sys tmo None src s2;
                          (ok2, _, s4) \<leftarrow> ConnHandleWaitForConnectionsToExit tick closeTimeout s3;
                          if ok2 then Some (Inr s4)
                          else
                            do { s5 \<leftarrow> ConnHandleConnectionsCloseEx sys tmo None shutdown_cb s4;
                                 (_, _, s6) \<leftarrow> ConnHandleWaitForConnectionsToExit tick CONN_TIMEOUT_INFINITE s5;
                                 Some (Inr s6) } } } }"

definition ConnChildrenShutdownEx ::
    "'w sys_ops \<Rightarrow> int list \<Rightarrow> (('b, 'w) hw \<Rightarrow> ('b, 'w) hw) \<Rightarrow> int \<Rightarrow> ('b conn \<Rightarrow> bool \<times> 'b conn) \<Rightarrow>
     int \<Rightarrow> int \<Rightarrow> nat \<Rightarrow> ('b, 'w) hw \<Rightarrow> ('b, 'w) hw option" where
  "ConnChildrenShutdownEx sys ids tick tmo shutdown_cb errorTimeout closeTimeout src s =
     do { (ok, _, s1) \<leftarrow> ConnHandleWaitForChildrenToExit ids tick errorTimeout s;
          if ok then Some s1
          else
            do { s2 \<leftarrow> ConnHandleConnectionsAbortEx sys tmo (Some ids) src s1;
                 (ok2, _, s3) \<leftarrow> ConnHandleWaitForChildrenToExit ids tick closeTimeout s2;
                 if ok2 then Some s3
                 else
                   do { s4 \<leftarrow> ConnHandleConnectionsCloseEx sys tmo (Some ids) shutdown_cb s3;
                        (_, _, s5) \<leftarrow> ConnHandleWaitForChildrenToExit ids tick CONN_TIMEOUT_INFINITE s4;
                        Some s5 } } }"

end
