(* ===== verification/ShutdownProps.thy ===== *)
theory ShutdownProps
  imports HandleShutdown ListenerInv ApiProps
begin

text \<open>
  What a shutdown guarantees.  The environment is asked for three things only: the other threads keep
  the event lists of the connections intact, never take \<open>shuttingDown\<close> back, and release their
  connections at some time; and \<^verbatim>\<open>poll()\<close> is not interrupted for ever.
\<close>

section \<open>Waiting\<close>

lemma wait_found:
  "gone ((tick ^^ k) s) \<Longrightarrow> timeout < 0 \<or> int (i + k) \<le> timeout \<Longrightarrow>
   \<exists>j \<le> k. wait_exit gone tick timeout i s = Some (True, i + j, (tick ^^ j) s) \<and> gone ((tick ^^ j) s)"
proof (induction k arbitrary: i s)
  case 0
  then show ?case by (subst wait_exit.simps) auto
next
  case (Suc k)
  show ?case
  proof (cases "gone s")
    case True
    then show ?thesis by (subst wait_exit.simps) auto
  next
    case False
    from Suc.prems have "gone ((tick ^^ k) (tick s))" "timeout < 0 \<or> int ((i + 1) + k) \<le> timeout"
      by (auto simp: funpow_swap1)
    from Suc.IH [OF this] obtain j where "j \<le> k" and j: "gone ((tick ^^ j) (tick s))"
        "wait_exit gone tick timeout (i + 1) (tick s) = Some (True, i + 1 + j, (tick ^^ j) (tick s))" by blast
    moreover have "wait_exit gone tick timeout i s = wait_exit gone tick timeout (i + 1) (tick s)"
      using False Suc.prems(2) by (subst wait_exit.simps) auto
    ultimately show ?thesis by (intro exI [of _ "Suc j"]) (simp add: funpow_swap1)
  qed
qed

lemma wait_bounded:
  assumes "0 \<le> timeout"
  shows "\<exists>ok j. wait_exit gone tick timeout i s = Some (ok, i + j, (tick ^^ j) s) \<and> (ok \<longrightarrow> gone ((tick ^^ j) s))"
proof (induction "nat (timeout - int i)" arbitrary: i s)
  case 0
  then have "wait_exit gone tick timeout i s = Some (gone s, i, s)"
    using assms by (subst wait_exit.simps) auto
  then show ?case by (intro exI [of _ "gone s"] exI [of _ 0]) simp
next
  case (Suc m)
  show ?case
  proof (cases "gone s")
    case True
    then have "wait_exit gone tick timeout i s = Some (True, i, s)" by (subst wait_exit.simps) simp
    then show ?thesis using True by (intro exI [of _ True] exI [of _ 0]) simp
  next
    case False
    from Suc(2) have "m = nat (timeout - int (i + 1))" by simp
    from Suc(1) [OF this] obtain ok j where j: "ok \<longrightarrow> gone ((tick ^^ j) (tick s))"
        "wait_exit gone tick timeout (i + 1) (tick s) = Some (ok, i + 1 + j, (tick ^^ j) (tick s))" by blast
    moreover have "wait_exit gone tick timeout i s = wait_exit gone tick timeout (i + 1) (tick s)"
      using False Suc(2) by (subst wait_exit.simps) auto
    ultimately show ?thesis by (intro exI [of _ ok] exI [of _ "Suc j"]) (simp add: funpow_swap1)
  qed
qed

text \<open>A wait returns when its timeout is finite, or when everybody goes at some time.\<close>

lemma wait_returns:
  assumes "\<exists>k. gone ((tick ^^ k) s)"
  shows "\<exists>ok j. wait_exit gone tick timeout i s = Some (ok, i + j, (tick ^^ j) s) \<and> (ok \<longrightarrow> gone ((tick ^^ j) s)) \<and>
    (timeout < 0 \<longrightarrow> ok)"
proof (cases "timeout < 0")
  case True
  from assms obtain k where "gone ((tick ^^ k) s)" by blast
  from wait_found [where gone = gone and k = k and tick = tick and s = s and timeout = timeout and i = i] this True
  show ?thesis by blast
next
  case False
  then show ?thesis using wait_bounded [of timeout gone tick i s] by auto
qed

lemma translate_infinite [simp]: "translateShutdownTimeout CONN_TIMEOUT_INFINITE = -1"
  by (simp add: translateShutdownTimeout_def)

section \<open>Connections\<close>

definition conn_wf :: "'b conn \<Rightarrow> bool" where
  "conn_wf c \<longleftrightarrow> (\<exists>xs fs. events_inv c xs fs)"

definition poll_returns :: "'w sys_ops \<Rightarrow> bool" where
  "poll_returns sys \<longleftrightarrow> (\<forall>fd t n. sockWaitForReadable sys fd t n \<noteq> None)"

lemma conn_wf_links: "conn_wf c \<Longrightarrow> QueueInv.same_links c d \<Longrightarrow> same_slots c d \<Longrightarrow> conn_wf d"
  unfolding conn_wf_def by (blast intro: events_inv_links)

lemma conn_wf_sp: "conn_wf c \<Longrightarrow> conn_wf (c\<lparr>sp := s\<rparr>)" "conn_wf c \<Longrightarrow> conn_wf (c\<lparr>state := st\<rparr>)"
    "conn_wf c \<Longrightarrow> conn_wf (c\<lparr>sp := s, state := st\<rparr>)"
  by (auto elim!: conn_wf_links simp: QueueInv.same_links_def same_slots_def)

lemma disconnect_returns:
  assumes "poll_returns sys" and "conn_wf c"
  shows "\<exists>d n'. disconnect_and_close sys timeout (c, n) = Some (d, n') \<and> conn_wf d"
proof -
  have "\<exists>r. socketDisconnect sys timeout 0 (sp c, n) = Some r"
  proof -
    obtain err en n1 where d: "sockDisconnect sys (number (sp c)) 0 n = (err, en, n1)" using prod_cases3 by blast
    obtain e n2 where "sockWaitForReadable sys (number (sp c)) timeout n1 = Some (e, n2)"
      using assms(1) unfolding poll_returns_def by (metis option.exhaust surj_pair)
    with d show ?thesis by (simp add: socketDisconnect_def disconnectWithTimeout_def)
  qed
  then show ?thesis
    using assms(2) by (auto simp: disconnect_and_close_def conn_wf_sp split: prod.splits)
qed

lemma listener_close_wf:
  "conn_wf c \<Longrightarrow> conn_wf (fst (synchronousListenerClose sys (c, n)))"
  "conn_wf c \<Longrightarrow> conn_wf (asynchronousListenerShutdown c)"
  by (auto simp: synchronousListenerClose_def asynchronousListenerShutdown_def conn_wf_sp split: prod.splits)

lemma abort_returns:
  assumes "conn_wf c"
  shows "\<exists>d. EventQueueAbort ce st er src c = Some d \<and> conn_wf d"
  using assms settles_abort [of c _ _ ce st er src] unfolding conn_wf_def settles_def by blast

lemma abort_conn_returns:
  assumes "poll_returns sys" and "conn_wf c"
  shows "\<exists>d n'. abort_conn sys timeout ids src (c, n) = Some (d, n') \<and> conn_wf d"
  using disconnect_returns [OF assms, of timeout n] abort_returns [OF assms(2), of None CONN_EVENT_KILLED ESHUTDOWN src]
    listener_close_wf(1) [OF assms(2), of sys n] listener_close_wf(2) [OF assms(2)] assms(2)
  by (cases "state c"; cases "synchronousListenerClose sys (c, n)") (auto simp: abort_conn_def)

lemma close_conn_returns:
  assumes "poll_returns sys" and "\<And>c. conn_wf c \<Longrightarrow> conn_wf (snd (shutdown_cb c))" and "conn_wf c"
  shows "\<exists>d n'. close_conn sys timeout ids shutdown_cb (c, n) = Some (d, n') \<and> conn_wf d"
proof -
  obtain b d where d: "shutdown_cb c = (b, d)" by fastforce
  with assms(2,3) have "conn_wf d" by (metis snd_conv)
  with disconnect_returns [OF assms(1) this, of timeout n] listener_close_wf(1) [OF this, of sys n]
    listener_close_wf(2) [OF this] d show ?thesis
    by (cases "state d"; cases "synchronousListenerClose sys (d, n)") (auto simp: close_conn_def)
qed

lemma each_conn_returns:
  assumes "\<And>c n. conn_wf c \<Longrightarrow> \<exists>d n'. f (c, n) = Some (d, n') \<and> conn_wf d"
  shows "\<forall>c \<in> set cs. conn_wf c \<Longrightarrow> \<exists>ds n'. each_conn f cs n = Some (ds, n') \<and> (\<forall>d \<in> set ds. conn_wf d) \<and> length ds = length cs"
proof (induction cs arbitrary: n)
  case Nil
  then show ?case by simp
next
  case (Cons c cs)
  from assms [of c n] Cons.prems obtain d n1 where "f (c, n) = Some (d, n1)" "conn_wf d" by auto
  moreover obtain ds n2 where "each_conn f cs n1 = Some (ds, n2)" "\<forall>d \<in> set ds. conn_wf d" "length ds = length cs"
    using Cons.IH [of n1] Cons.prems by auto
  ultimately show ?case by simp
qed

definition hw_wf :: "('b, 'w) hw \<Rightarrow> bool" where
  "hw_wf s \<longleftrightarrow> (\<forall>c \<in> set (hs_conns (fst s)). conn_wf c)"

lemma on_conns_returns:
  assumes "\<And>c n. conn_wf c \<Longrightarrow> \<exists>d n'. f (c, n) = Some (d, n') \<and> conn_wf d" and "hw_wf s"
  shows "\<exists>s'. on_conns f s = Some s' \<and> hw_wf s' \<and> hs_down (fst s') = hs_down (fst s)"
  using each_conn_returns [of f "hs_conns (fst s)" "snd s"] assms by (fastforce simp: on_conns_def hw_wf_def)

section \<open>The shutdown\<close>

text \<open>What is asked of the other threads.\<close>

definition releasing :: "(('b, 'w) hw \<Rightarrow> ('b, 'w) hw) \<Rightarrow> bool" where
  "releasing tick \<longleftrightarrow> (\<forall>s. hw_wf s \<longrightarrow> hw_wf (tick s) \<and> (hs_down (fst s) \<longrightarrow> hs_down (fst (tick s))) \<and>
     (\<exists>k. conns_gone ((tick ^^ k) s)))"

lemma releasingD:
  assumes "releasing tick" and "hw_wf s"
  shows "hw_wf (tick s)" "hs_down (fst s) \<Longrightarrow> hs_down (fst (tick s))" "\<exists>k. conns_gone ((tick ^^ k) s)"
  using assms unfolding releasing_def by blast+

lemma releasing_steps:
  assumes "releasing tick" and "hw_wf s"
  shows "hw_wf ((tick ^^ k) s) \<and> (hs_down (fst s) \<longrightarrow> hs_down (fst ((tick ^^ k) s)))"
  using assms by (induction k) (auto intro: releasingD)

lemma wait_conns:
  assumes "releasing tick" and "hw_wf s"
  shows "\<exists>ok j s'. ConnHandleWaitForConnectionsToExit tick timeout s = Some (ok, j, s') \<and> hw_wf s' \<and>
    (hs_down (fst s) \<longrightarrow> hs_down (fst s')) \<and> (ok \<longrightarrow> conns_gone s') \<and> (timeout = CONN_TIMEOUT_INFINITE \<longrightarrow> ok)"
proof -
  have "\<exists>k. conns_gone ((tick ^^ k) s)" using releasingD(3) [OF assms] .
  from wait_returns [where gone = conns_gone, OF this, of "translateShutdownTimeout timeout" 0]
  obtain ok j where w: "wait_exit conns_gone tick (translateShutdownTimeout timeout) 0 s = Some (ok, j, (tick ^^ j) s)"
      "ok \<longrightarrow> conns_gone ((tick ^^ j) s)" "translateShutdownTimeout timeout < 0 \<longrightarrow> ok"
    by auto
  with releasing_steps [OF assms, of j] show ?thesis
    by (auto simp: ConnHandleWaitForConnectionsToExit_def translateShutdownTimeout_def split: if_splits)
qed

lemma no_listeners_to_wait_for:
  assumes "li_head (hs_listeners (fst s)) = None"
  shows "ConnAListenerWaitForShutdownEx h tick s = Some (Inr s)"
proof -
  have "ConnAListenerStatusEx h 0 None True (hs_listeners (fst s)) = Some (Inr (0, hs_listeners (fst s)))"
    using assms by (simp add: ConnAListenerStatusEx_def walk.simps)
  then show ?thesis
    by (subst ConnAListenerWaitForShutdownEx_def, subst wait_listeners.simps) simp
qed


text \<open>One idle connection that its owner never releases before a second has passed; no patience.\<close>

definition owner_releases :: "(byte list, byte list) hw \<Rightarrow> (byte list, byte list) hw" where
  "owner_releases s = ((fst s)\<lparr>hs_conns := [], hs_cleanup := 0\<rparr>, snd s)"


end
