(* ===== verification/TimeoutWheel.thy ===== *)
theory TimeoutWheel
  imports SockEvent "HOL-Library.Signed_Division"
begin

unbundle bit_operations_syntax

text \<open>
  The timeout lists of the epoll engine (\<^verbatim>\<open>src/src/sockunix.c\<close>, \<^verbatim>\<open>conniop.h\<close>).  Each of the two
  poll threads owns a wheel of 64 lists, one for every 32 seconds; a pending socket event with a
  timeout is linked into the list of the 32 seconds in which its time is up, and the thread
  empties the list of the current 32 seconds whenever it finds that the clock has moved on to
  another one.

  A socket event is one of the three events embedded in a \<^verbatim>\<open>SOCK\<close>, so its address is the address
  of the socket and a slot.  The links \<^verbatim>\<open>timeoutNext\<close>, \<^verbatim>\<open>timeoutPrev\<close>, \<^verbatim>\<open>timeoutList\<close> and
  \<^verbatim>\<open>async.next\<close> are functions from such addresses; everything else in the event is the
  \<^verbatim>\<open>SocketEvent\<close> of theory \<open>ConnTypes\<close>.
\<close>

section \<open>State\<close>

datatype sev = SE (ev_sock: ptr) (ev_slot: slot)

datatype poll = PollIn | PollOut

datatype tlist_id = TL (tl_poll: poll) (tl_index: int)

record SPollInfo =
  pi_efd :: int
  pi_now :: int
  pi_timeoutIndex :: int
  pi_head :: "int \<Rightarrow> sev option"

record engine =
  en_running :: bool
  en_poll :: "poll \<Rightarrow> SPollInfo"
  en_sock :: "ptr \<Rightarrow> SOCK"
  timeoutList :: "sev \<Rightarrow> tlist_id option"
  timeoutNext :: "sev \<Rightarrow> sev option"
  timeoutPrev :: "sev \<Rightarrow> sev option"
  async_next :: "sev \<Rightarrow> sev option"

definition event_at :: "engine \<Rightarrow> sev \<Rightarrow> SocketEvent" where
  "event_at w e = get_se (ev_slot e) (en_sock w (ev_sock e))"

definition set_event :: "sev \<Rightarrow> SocketEvent \<Rightarrow> engine \<Rightarrow> engine" where
  "set_event e se w =
     w\<lparr>en_sock := (en_sock w)(ev_sock e := put_se (ev_slot e) se (en_sock w (ev_sock e)))\<rparr>"

definition list_head :: "engine \<Rightarrow> tlist_id \<Rightarrow> sev option" where
  "list_head w k = pi_head (en_poll w (tl_poll k)) (tl_index k)"

definition set_head :: "tlist_id \<Rightarrow> sev option \<Rightarrow> engine \<Rightarrow> engine" where
  "set_head k h w =
     w\<lparr>en_poll := (en_poll w)(tl_poll k := (en_poll w (tl_poll k))\<lparr>
         pi_head := (pi_head (en_poll w (tl_poll k)))(tl_index k := h)\<rparr>)\<rparr>"

abbreviation (input) SOCKET_TIMEOUT_GRANULARITY :: int where "SOCKET_TIMEOUT_GRANULARITY \<equiv> 32"
abbreviation (input) SOCKET_TIMEOUT_LISTS :: int where "SOCKET_TIMEOUT_LISTS \<equiv> 64"

text \<open>C division truncates towards zero; \<^verbatim>\<open>time_t\<close> and \<^verbatim>\<open>int\<close> add up as \<^verbatim>\<open>time_t\<close>.\<close>

definition TIMEOUT_INDEX :: "int \<Rightarrow> int" where
  "TIMEOUT_INDEX t = (t sdiv SOCKET_TIMEOUT_GRANULARITY) smod SOCKET_TIMEOUT_LISTS"

section \<open>Operations\<close>

text \<open>Which poll thread serves an event; \<open>None\<close> is the null pointer of the default case.\<close>

fun getEpollHandle :: "SocketEventType \<Rightarrow> poll option" where
  "getEpollHandle SOCK_EVENT_TYPE_LISTEN = Some PollIn"
| "getEpollHandle SOCK_EVENT_TYPE_READABLE = Some PollIn"
| "getEpollHandle SOCK_EVENT_TYPE_WRITABLE = Some PollOut"
| "getEpollHandle _ = None"

definition timeout_slot :: "int \<Rightarrow> int \<Rightarrow> int" where
  "timeout_slot now timeout =
     TIMEOUT_INDEX (now + timeout sdiv 1000 + (SOCKET_TIMEOUT_GRANULARITY - 1))"

definition link_front :: "tlist_id \<Rightarrow> sev \<Rightarrow> engine \<Rightarrow> engine" where
  "link_front k e w =
     (let h = list_head w k;
          w1 = w\<lparr>timeoutList := (timeoutList w)(e := Some k), timeoutNext := (timeoutNext w)(e := h)\<rparr>;
          w2 = (case h of
                  None \<Rightarrow> w1
                | Some n \<Rightarrow> w1\<lparr>timeoutPrev := (timeoutPrev w1)(n := Some e)\<rparr>)
      in set_head k (Some e) w2)"

definition SocketTimeoutAdd :: "poll \<Rightarrow> sev \<Rightarrow> int \<Rightarrow> engine \<Rightarrow> engine" where
  "SocketTimeoutAdd p e timeout w =
     (if timeout \<noteq> 0 \<and> se_type (event_at w e) \<noteq> SOCK_EVENT_TYPE_LISTEN then
        (let w1 = (if timeoutList w e = None
                   then link_front (TL p (timeout_slot (pi_now (en_poll w p)) timeout)) e w else w)
         in set_event e (SeAddFlags FSE_TIMEOUT_PENDING (event_at w1 e)) w1)
      else w)"

definition unlink_event :: "tlist_id \<Rightarrow> sev \<Rightarrow> engine \<Rightarrow> engine" where
  "unlink_event k e w =
     (let w1 = (case timeoutPrev w e of
                  Some p \<Rightarrow> w\<lparr>timeoutNext := (timeoutNext w)(p := timeoutNext w e)\<rparr>
                | None \<Rightarrow> set_head k (timeoutNext w e) w);
          w2 = (case timeoutNext w1 e of
                  Some n \<Rightarrow> w1\<lparr>timeoutPrev := (timeoutPrev w1)(n := timeoutPrev w1 e)\<rparr>
                | None \<Rightarrow> w1)
      in w2\<lparr>timeoutPrev := (timeoutPrev w2)(e := None), timeoutNext := (timeoutNext w2)(e := None),
            timeoutList := (timeoutList w2)(e := None)\<rparr>)"

definition SocketTimeoutDelete :: "sev \<Rightarrow> engine \<Rightarrow> engine" where
  "SocketTimeoutDelete e w =
     (let w1 = (case timeoutList w e of
                  Some k \<Rightarrow> if se_type (event_at w e) \<noteq> SOCK_EVENT_TYPE_LISTEN
                            then unlink_event k e w else w
                | None \<Rightarrow> w)
      in set_event e (SeRemoveFlags FSE_TIMEOUT_PENDING (event_at w1 e)) w1)"

text \<open>
  \<^verbatim>\<open>_epollEventDelete()\<close> tries \<^verbatim>\<open>epoll_ctl( EPOLL_CTL_DEL )\<close> five times; \<open>del_err\<close> lists the errno
  of each try, 0 for success.  Its callers ignore what it returns.
\<close>

fun epoll_delete_tries :: "nat \<Rightarrow> (nat \<Rightarrow> errno) \<Rightarrow> nat \<Rightarrow> int" where
  "epoll_delete_tries 0 del_err idx = - 1"
| "epoll_delete_tries (Suc n) del_err idx =
     (if del_err idx = 0 then 0 else epoll_delete_tries n del_err (idx + 1))"

definition epollEventDelete :: "(nat \<Rightarrow> errno) \<Rightarrow> int" where
  "epollEventDelete del_err = epoll_delete_tries 5 del_err 0"

text \<open>\<^verbatim>\<open>SocketEventComplete()\<close> with the timeout list in it.\<close>

definition engine_complete :: "sev \<Rightarrow> engine \<Rightarrow> bool \<times> engine" where
  "engine_complete e w =
     (let w1 = (if has (se_flags (event_at w e)) FSE_TIMEOUT_PENDING
                then SocketTimeoutDelete e w else w)
      in if has (se_flags (event_at w1 e)) FSE_IN_ENGINE
         then (True, set_event e (SeRemoveFlags FSE_IN_ENGINE (event_at w1 e)) w1)
         else (False, w1))"

text \<open>
  The first loop of the timeout phase of \<^verbatim>\<open>_PollThread()\<close> walks the list it has just detached:
  every event forgets the list, and its successor is kept in \<^verbatim>\<open>async.next\<close>.
\<close>

definition unlist_event :: "sev \<Rightarrow> engine \<Rightarrow> engine" where
  "unlist_event e w =
     (let w1 = set_event e (SeRemoveFlags FSE_TIMEOUT_PENDING (event_at w e)) w
      in w1\<lparr>timeoutList := (timeoutList w1)(e := None), timeoutPrev := (timeoutPrev w1)(e := None),
            async_next := (async_next w1)(e := timeoutNext w1 e),
            timeoutNext := (timeoutNext w1)(e := None)\<rparr>)"

partial_function (option) unlist_walk :: "sev option \<Rightarrow> engine \<Rightarrow> engine option" where
  "unlist_walk eo w =
     (case eo of
        None \<Rightarrow> Some w
      | Some e \<Rightarrow> (let w1 = unlist_event e w in unlist_walk (async_next w1 e) w1))"

text \<open>
  The second loop completes the events it has unlisted.  The result lists the events whose
  callback thread is started.
\<close>

definition expire_event :: "sev \<Rightarrow> engine \<Rightarrow> bool \<times> engine" where
  "expire_event e w = engine_complete e (set_event e ((event_at w e)\<lparr>se_error := ETIMEDOUT\<rparr>) w)"

partial_function (option) expire_walk ::
    "sev option \<Rightarrow> sev list \<Rightarrow> engine \<Rightarrow> (sev list \<times> engine) option" where
  "expire_walk eo begun w =
     (case eo of
        None \<Rightarrow> Some (begun, w)
      | Some e \<Rightarrow>
          (let next = async_next w e
           in case expire_event e w of
                (complete, w1) \<Rightarrow>
                  expire_walk next (if complete then begun @ [e] else begun) w1))"

text \<open>The timeout phase: \<open>t\<close> is what \<^verbatim>\<open>time( NULL )\<close> returns.\<close>

definition poll_detach :: "int \<Rightarrow> poll \<Rightarrow> engine \<Rightarrow> (sev option \<times> engine) option" where
  "poll_detach t p w =
     (let w1 = w\<lparr>en_poll := (en_poll w)(p := (en_poll w p)\<lparr>pi_now := t\<rparr>)\<rparr>;
          idx = TIMEOUT_INDEX t
      in if pi_timeoutIndex (en_poll w1 p) \<noteq> idx then
           (let w2 = w1\<lparr>en_poll := (en_poll w1)(p := (en_poll w1 p)\<lparr>pi_timeoutIndex := idx\<rparr>)\<rparr>;
                events = list_head w2 (TL p idx)
            in map_option (\<lambda>w3. (events, w3)) (unlist_walk events (set_head (TL p idx) None w2)))
         else Some (None, w1))"

definition poll_timeouts :: "int \<Rightarrow> poll \<Rightarrow> engine \<Rightarrow> (sev list \<times> engine) option" where
  "poll_timeouts t p w =
     (case poll_detach t p w of None \<Rightarrow> None | Some (events, w1) \<Rightarrow> expire_walk events [] w1)"

text \<open>\<^verbatim>\<open>sockEngineInit()\<close>, the two wheels; \<open>efd_in\<close> and \<open>efd_out\<close> are what \<^verbatim>\<open>epoll_create()\<close> returned.\<close>

definition SocketPollInit :: "int \<Rightarrow> int \<times> SPollInfo" where
  "SocketPollInit efd =
     (if efd \<noteq> - 1
      then (0, \<lparr>pi_efd = efd, pi_now = 0, pi_timeoutIndex = 0, pi_head = (\<lambda>_. None)\<rparr>)
      else (- 1, \<lparr>pi_efd = efd, pi_now = 0, pi_timeoutIndex = 0, pi_head = (\<lambda>_. None)\<rparr>))"

definition sockEngineInit :: "int \<Rightarrow> int \<Rightarrow> int \<Rightarrow> engine \<Rightarrow> int \<times> engine" where
  "sockEngineInit efd_in efd_out t w =
     (let (r1, i) = SocketPollInit efd_in
      in if r1 \<noteq> 0 then (- 1, w\<lparr>en_poll := (en_poll w)(PollIn := i)\<rparr>)
         else
           (let (r2, out) = SocketPollInit efd_out
            in if r2 \<noteq> 0 then (- 1, w\<lparr>en_poll := (en_poll w)(PollIn := i, PollOut := out)\<rparr>)
               else
                 (let fin = (\<lambda>p. p\<lparr>pi_now := t, pi_timeoutIndex := TIMEOUT_INDEX t,
                                  pi_head := (\<lambda>_. None)\<rparr>)
                  in (0, w\<lparr>en_poll := (en_poll w)(PollIn := fin i, PollOut := fin out)\<rparr>))))"

section \<open>The wheel as a family of lists\<close>

text \<open>\<open>wheel w L\<close>: the lists of \<open>w\<close> hold exactly the events \<open>L\<close> says, in that order.\<close>

definition wheel :: "engine \<Rightarrow> (tlist_id \<Rightarrow> sev list) \<Rightarrow> bool" where
  "wheel w L \<longleftrightarrow>
     (\<forall>k. dll (timeoutNext w) (timeoutPrev w) (list_head w k)
            (if L k = [] then None else Some (last (L k))) (L k)) \<and>
     (\<forall>e k. timeoutList w e = Some k \<longleftrightarrow> e \<in> set (L k)) \<and>
     (\<forall>e. timeoutList w e = None \<longrightarrow> timeoutNext w e = None \<and> timeoutPrev w e = None)"

text \<open>
  The invariant of the engine: the wheel is well formed, an event is on it exactly when its flag
  says so, and no listener is on it.
\<close>

definition wheel_inv :: "engine \<Rightarrow> (tlist_id \<Rightarrow> sev list) \<Rightarrow> bool" where
  "wheel_inv w L \<longleftrightarrow> wheel w L \<and>
     (\<forall>e. timeoutList w e \<noteq> None \<longleftrightarrow> has (se_flags (event_at w e)) FSE_TIMEOUT_PENDING) \<and>
     (\<forall>e. timeoutList w e \<noteq> None \<longrightarrow> se_type (event_at w e) \<noteq> SOCK_EVENT_TYPE_LISTEN)"


section \<open>Fields\<close>

lemma event_at_set_event [simp]:
  "event_at (set_event e se w) e = se"
  "e' \<noteq> e \<Longrightarrow> event_at (set_event e se w) e' = event_at w e'"
  by (cases e; cases e'; auto simp: event_at_def set_event_def)+

lemma set_event_links [simp]:
  "timeoutList (set_event e se w) = timeoutList w" "timeoutNext (set_event e se w) = timeoutNext w"
  "timeoutPrev (set_event e se w) = timeoutPrev w" "async_next (set_event e se w) = async_next w"
  "en_poll (set_event e se w) = en_poll w" "list_head (set_event e se w) = list_head w"
  "en_running (set_event e se w) = en_running w"
  by (simp_all add: set_event_def list_head_def fun_eq_iff)

lemma set_head_fields [simp]:
  "timeoutList (set_head k h w) = timeoutList w" "timeoutNext (set_head k h w) = timeoutNext w"
  "timeoutPrev (set_head k h w) = timeoutPrev w" "async_next (set_head k h w) = async_next w"
  "en_sock (set_head k h w) = en_sock w" "event_at (set_head k h w) = event_at w"
  "list_head (set_head k h w) = (list_head w)(k := h)"
  "pi_now (en_poll (set_head k h w) p) = pi_now (en_poll w p)"
  "pi_timeoutIndex (en_poll (set_head k h w) p) = pi_timeoutIndex (en_poll w p)"
  "en_running (set_head k h w) = en_running w"
  by (auto simp: set_head_def list_head_def event_at_def fun_eq_iff tlist_id.expand)

lemma link_updates [simp]:
  "event_at (timeoutList_update f w) = event_at w" "event_at (timeoutNext_update g w) = event_at w"
  "event_at (timeoutPrev_update g w) = event_at w" "event_at (async_next_update g w) = event_at w"
  "event_at (en_poll_update i w) = event_at w"
  "list_head (timeoutList_update f w) = list_head w"
  "list_head (timeoutNext_update g w) = list_head w"
  "list_head (timeoutPrev_update g w) = list_head w"
  "list_head (async_next_update g w) = list_head w"
  by (simp_all add: event_at_def list_head_def fun_eq_iff)

lemma wheel_set_event [simp]: "wheel (set_event e se w) L = wheel w L"
  by (simp add: wheel_def)

lemma wheelD:
  assumes "wheel w L"
  shows "dll (timeoutNext w) (timeoutPrev w) (list_head w k)
            (if L k = [] then None else Some (last (L k))) (L k)"
    and "timeoutList w e = Some k \<longleftrightarrow> e \<in> set (L k)"
    and "timeoutList w e = None \<Longrightarrow> timeoutNext w e = None \<and> timeoutPrev w e = None"
  using assms unfolding wheel_def by blast+

lemma wheelI:
  assumes "\<And>k. dll (timeoutNext w) (timeoutPrev w) (list_head w k)
            (if L k = [] then None else Some (last (L k))) (L k)"
    and "\<And>e k. timeoutList w e = Some k \<longleftrightarrow> e \<in> set (L k)"
    and "\<And>e. timeoutList w e = None \<Longrightarrow> timeoutNext w e = None \<and> timeoutPrev w e = None"
  shows "wheel w L"
  unfolding wheel_def using assms by blast

lemma wheel_disjoint: "wheel w L \<Longrightarrow> e \<in> set (L k) \<Longrightarrow> e \<in> set (L k') \<Longrightarrow> k = k'"
  by (metis option.inject wheelD(2))

lemma wheel_distinct: "wheel w L \<Longrightarrow> distinct (L k)"
  by (blast intro: dll_distinct dest: wheelD(1))

section \<open>Each operation is the list operation\<close>

lemma link_front_event [simp]: "event_at (link_front k e w) = event_at w"
  by (simp add: link_front_def Let_def split: option.splits)

lemma wheel_link_front:
  assumes w: "wheel w L" and e: "timeoutList w e = None"
  shows "wheel (link_front k e w) (L(k := e # L k))"
proof -
  let ?w = "link_front k e w"
  have out: "e \<notin> set (L k')" for k' using wheelD(2) [OF w, of e k'] e by simp
  have pe: "timeoutPrev w e = None" using wheelD(3) [OF w e] by simp
  have n_notin: "n \<notin> set (L k')" if "list_head w k = Some n" "k' \<noteq> k" for n k'
  proof -
    have "n \<in> set (L k)"
      using dll_head [OF wheelD(1) [OF w, of k]] that(1) by (cases "L k") auto
    then show ?thesis using wheel_disjoint [OF w] that(2) by blast
  qed
  have links: "timeoutNext ?w = (timeoutNext w)(e := list_head w k)"
    "timeoutList ?w = (timeoutList w)(e := Some k)"
    "timeoutPrev ?w = (case list_head w k of None \<Rightarrow> timeoutPrev w
                       | Some n \<Rightarrow> (timeoutPrev w)(n := Some e))"
    "list_head ?w = (list_head w)(k := Some e)"
    by (simp_all add: link_front_def Let_def split: option.splits)
  have dll_k: "dll (timeoutNext ?w) (timeoutPrev ?w) (Some e) (Some (last (e # L k))) (e # L k)"
    using wheelD(1) [OF w, of k] out [of k] pe dll_head [OF wheelD(1) [OF w, of k]]
    by (cases "L k") (auto simp: links dll_def)
  have dll_o: "dll (timeoutNext ?w) (timeoutPrev ?w) (list_head w k')
      (if L k' = [] then None else Some (last (L k'))) (L k')" if "k' \<noteq> k" for k'
    using wheelD(1) [OF w, of k'] out [of k'] n_notin [OF _ that]
    by (auto simp: links dll_def split: option.splits)
  have unl: "timeoutNext ?w e' = None \<and> timeoutPrev ?w e' = None" if "timeoutList ?w e' = None" for e'
  proof -
    from that have e': "e' \<noteq> e" "timeoutList w e' = None" by (auto simp: links split: if_splits)
    have "n \<noteq> e'" if "list_head w k = Some n" for n
    proof -
      have "n \<in> set (L k)"
        using dll_head [OF wheelD(1) [OF w, of k]] that(1) by (cases "L k") auto
      then show ?thesis using wheelD(2) [OF w, of n k] e'(2) by auto
    qed
    with wheelD(3) [OF w e'(2)] e'(1) show ?thesis by (auto simp: links split: option.splits)
  qed
  have mem: "timeoutList ?w e' = Some k' \<longleftrightarrow> e' \<in> set ((L(k := e # L k)) k')" for e' k'
    using wheelD(2) [OF w, of e' k'] out [of k'] by (auto simp: links)
  show ?thesis
  proof (rule wheelI)
    show "dll (timeoutNext ?w) (timeoutPrev ?w) (list_head ?w k')
      (if (L(k := e # L k)) k' = [] then None else Some (last ((L(k := e # L k)) k')))
      ((L(k := e # L k)) k')" for k'
      using dll_k dll_o [of k'] by (cases "k' = k") (simp_all add: links(4) split: if_splits)
  qed (fact mem, fact unl)
qed

lemma unlink_event_event [simp]: "event_at (unlink_event k e w) = event_at w"
  by (simp add: unlink_event_def Let_def split: option.splits)

lemma unlink_event_links:
  assumes "timeoutNext w e \<noteq> Some e" "timeoutPrev w e \<noteq> Some e"
  shows "timeoutNext (unlink_event k e w) =
      (case timeoutPrev w e of Some p \<Rightarrow> (timeoutNext w)(p := timeoutNext w e)
                             | None \<Rightarrow> timeoutNext w)(e := None)"
    and "timeoutPrev (unlink_event k e w) =
      (case timeoutNext w e of Some n \<Rightarrow> (timeoutPrev w)(n := timeoutPrev w e)
                             | None \<Rightarrow> timeoutPrev w)(e := None)"
    and "timeoutList (unlink_event k e w) = (timeoutList w)(e := None)"
    and "list_head (unlink_event k e w) =
      (case timeoutPrev w e of Some p \<Rightarrow> list_head w
                             | None \<Rightarrow> (list_head w)(k := timeoutNext w e))"
    and "async_next (unlink_event k e w) = async_next w"
  using assms by (auto simp: unlink_event_def Let_def fun_eq_iff split: option.splits)

lemma dll_neighbours:
  assumes "dll nxt prv h t xs" and "x \<in> set xs"
  shows "nxt x = Some y \<Longrightarrow> y \<in> set xs" and "prv x = Some y \<Longrightarrow> y \<in> set xs"
proof -
  obtain ys zs where xs: "xs = ys @ x # zs" using assms(2) by (auto simp: in_set_conv_decomp)
  show "nxt x = Some y \<Longrightarrow> y \<in> set xs"
    using assms(1) unfolding xs by (cases zs) (auto simp: dll_def dseg_append)
  show "prv x = Some y \<Longrightarrow> y \<in> set xs"
    using assms(1) unfolding xs by (cases ys rule: rev_cases) (auto simp: dll_def dseg_append)
qed

lemma wheel_unlink:
  assumes w: "wheel w L" and e: "timeoutList w e = Some k"
  shows "wheel (unlink_event k e w) (L(k := remove1 e (L k)))"
proof -
  let ?w = "unlink_event k e w" and ?t = "if L k = [] then None else Some (last (L k))"
  note dk = wheelD(1) [OF w, of k]
  have eL: "e \<in> set (L k)" using wheelD(2) [OF w, of e k] e by simp
  note links = unlink_event_links [OF dll_no_loop [OF dk eL], where k = k]
  have nb: "y \<in> set (L k)" if "timeoutNext w e = Some y \<or> timeoutPrev w e = Some y" for y
    using dll_neighbours [OF dk eL] that by blast
  obtain nxt' prv' h' t' where u:
    "dll_unlink (timeoutNext w) (timeoutPrev w) (list_head w k) ?t e = (nxt', prv', h', t')"
    by (metis prod_cases4)
  have d: "dll nxt' prv' h' t' (remove1 e (L k))" by (rule dll_unlink_correct [OF dk eL u])
  have e_out: "e \<notin> set (remove1 e (L k))"
    using wheel_distinct [OF w, of k] by (simp add: distinct_remove1_removeAll)
  have eqs: "timeoutNext ?w = nxt'(e := None)" "timeoutPrev ?w = prv'(e := None)"
    "list_head ?w k = h'"
    using u by (auto simp: links dll_unlink_def split: option.splits)
  have dll_k: "dll (timeoutNext ?w) (timeoutPrev ?w) (list_head ?w k)
      (if remove1 e (L k) = [] then None else Some (last (remove1 e (L k)))) (remove1 e (L k))"
    using d dll_frame [OF e_out, of nxt' None prv' None h' t'] dll_last [OF d]
    by (auto simp: eqs)
  have dll_o: "dll (timeoutNext ?w) (timeoutPrev ?w) (list_head ?w k')
      (if L k' = [] then None else Some (last (L k'))) (L k')" if "k' \<noteq> k" for k'
  proof -
    have out: "y \<notin> set (L k')" if "y \<in> set (L k)" for y
      using wheel_disjoint [OF w that] \<open>k' \<noteq> k\<close> by blast
    have "timeoutNext ?w y = timeoutNext w y \<and> timeoutPrev ?w y = timeoutPrev w y"
      if y: "y \<in> set (L k')" for y
      using out nb eL y by (auto simp: links split: option.splits)
    moreover have "list_head ?w k' = list_head w k'"
      using that by (simp add: links split: option.splits)
    ultimately show ?thesis
      using wheelD(1) [OF w, of k'] dll_cong [of "L k'" "timeoutNext ?w" "timeoutNext w"
          "timeoutPrev ?w" "timeoutPrev w"] by simp
  qed
  have unl: "timeoutNext ?w e' = None \<and> timeoutPrev ?w e' = None" if "timeoutList ?w e' = None" for e'
  proof (cases "e' = e")
    case False
    with that have "timeoutList w e' = None" by (simp add: links)
    moreover from this have "e' \<notin> set (L k)" using wheelD(2) [OF w, of e' k] by auto
    ultimately show ?thesis
      using False wheelD(3) [OF w, of e'] nb by (auto simp: links split: option.splits)
  qed (simp add: links)
  have mem: "timeoutList ?w e' = Some k' \<longleftrightarrow> e' \<in> set ((L(k := remove1 e (L k))) k')" for e' k'
    using wheelD(2) [OF w, of e' k'] wheel_distinct [OF w, of k] wheel_disjoint [OF w eL, of k']
    by (auto simp: links)
  show ?thesis
  proof (rule wheelI)
    show "dll (timeoutNext ?w) (timeoutPrev ?w) (list_head ?w k')
      (if (L(k := remove1 e (L k))) k' = [] then None
       else Some (last ((L(k := remove1 e (L k))) k'))) ((L(k := remove1 e (L k))) k')" for k'
      using dll_k dll_o [of k'] by (cases "k' = k") (simp_all split: if_splits)
  qed (fact mem, fact unl)
qed


section \<open>The operations keep the invariant\<close>

lemma wheel_invD:
  assumes "wheel_inv w L"
  shows "wheel w L"
    and "timeoutList w e \<noteq> None \<longleftrightarrow> has (se_flags (event_at w e)) FSE_TIMEOUT_PENDING"
    and "timeoutList w e \<noteq> None \<Longrightarrow> se_type (event_at w e) \<noteq> SOCK_EVENT_TYPE_LISTEN"
  using assms by (auto simp: wheel_inv_def)

lemma SeFlags_type [simp]:
  "se_type (SeAddFlags f e) = se_type e" "se_type (SeRemoveFlags f e) = se_type e"
  "se_error (SeAddFlags f e) = se_error e" "se_error (SeRemoveFlags f e) = se_error e"
  by (simp_all add: SeAddFlags_def SeRemoveFlags_def)

text \<open>Changing one event's record keeps the invariant when the timeout flag and the type stay.\<close>

lemma wheel_inv_set_event:
  assumes "wheel_inv w L"
    and "has (se_flags se) FSE_TIMEOUT_PENDING \<longleftrightarrow> has (se_flags (event_at w e)) FSE_TIMEOUT_PENDING"
    and "se_type se = se_type (event_at w e)"
  shows "wheel_inv (set_event e se w) L"
proof -
  have "timeoutList w e' \<noteq> None \<longleftrightarrow> has (se_flags (event_at (set_event e se w) e')) FSE_TIMEOUT_PENDING"
    for e'
    using wheel_invD(2) [OF assms(1), of e'] assms(2) by (cases "e' = e") simp_all
  moreover have "se_type (event_at (set_event e se w) e') \<noteq> SOCK_EVENT_TYPE_LISTEN"
    if "timeoutList w e' \<noteq> None" for e'
    using wheel_invD(3) [OF assms(1) that] assms(3) by (cases "e' = e") simp_all
  ultimately show ?thesis using wheel_invD(1) [OF assms(1)] by (simp add: wheel_inv_def)
qed

lemma SocketTimeoutAdd_inv:
  assumes inv: "wheel_inv w L" and fresh: "timeoutList w e = None"
    and t: "timeout \<noteq> 0" and ty: "se_type (event_at w e) \<noteq> SOCK_EVENT_TYPE_LISTEN"
  shows "wheel_inv (SocketTimeoutAdd p e timeout w)
           (let k = TL p (timeout_slot (pi_now (en_poll w p)) timeout) in L(k := e # L k))"
proof -
  let ?k = "TL p (timeout_slot (pi_now (en_poll w p)) timeout)"
  let ?w = "SocketTimeoutAdd p e timeout w"
  have eq: "?w = set_event e (SeAddFlags FSE_TIMEOUT_PENDING (event_at w e)) (link_front ?k e w)"
    using t ty fresh by (simp add: SocketTimeoutAdd_def)
  have wl: "wheel (link_front ?k e w) (L(?k := e # L ?k))"
    by (rule wheel_link_front [OF wheel_invD(1) [OF inv] fresh])
  have tl: "timeoutList ?w = (timeoutList w)(e := Some ?k)"
    unfolding eq by (simp add: link_front_def Let_def split: option.splits)
  have ev: "event_at ?w e' = (if e' = e then SeAddFlags FSE_TIMEOUT_PENDING (event_at w e)
                              else event_at w e')" for e'
    unfolding eq by simp
  have "timeoutList ?w e' \<noteq> None \<longleftrightarrow> has (se_flags (event_at ?w e')) FSE_TIMEOUT_PENDING" for e'
    using wheel_invD(2) [OF inv, of e'] unfolding ev tl by simp
  moreover have "timeoutList ?w e' \<noteq> None \<Longrightarrow> se_type (event_at ?w e') \<noteq> SOCK_EVENT_TYPE_LISTEN" for e'
    using wheel_invD(3) [OF inv, of e'] ty unfolding ev tl by (simp split: if_splits)
  moreover have "wheel ?w (L(?k := e # L ?k))" unfolding eq using wl by simp
  ultimately show ?thesis unfolding wheel_inv_def Let_def by blast
qed

lemma SocketTimeoutDelete_listed:
  assumes inv: "wheel_inv w L" and k: "timeoutList w e = Some k"
  shows "SocketTimeoutDelete e w =
           set_event e (SeRemoveFlags FSE_TIMEOUT_PENDING (event_at w e)) (unlink_event k e w)"
  using wheel_invD(3) [OF inv, of e] k by (simp add: SocketTimeoutDelete_def)

lemma unlink_event_timeoutList: "timeoutList (unlink_event k e w) = (timeoutList w)(e := None)"
  by (simp add: unlink_event_def Let_def split: option.splits)

lemma SocketTimeoutDelete_inv:
  assumes inv: "wheel_inv w L" and k: "timeoutList w e = Some k"
  shows "wheel_inv (SocketTimeoutDelete e w) (L(k := remove1 e (L k)))"
proof -
  let ?w = "SocketTimeoutDelete e w"
  note eq = SocketTimeoutDelete_listed [OF inv k]
  have tl: "timeoutList ?w = (timeoutList w)(e := None)"
    unfolding eq by (simp add: unlink_event_timeoutList)
  have ev: "event_at ?w e' = (if e' = e then SeRemoveFlags FSE_TIMEOUT_PENDING (event_at w e)
                              else event_at w e')" for e'
    unfolding eq by simp
  have "timeoutList ?w e' \<noteq> None \<longleftrightarrow> has (se_flags (event_at ?w e')) FSE_TIMEOUT_PENDING" for e'
    using wheel_invD(2) [OF inv, of e'] unfolding ev tl by simp
  moreover have "timeoutList ?w e' \<noteq> None \<Longrightarrow> se_type (event_at ?w e') \<noteq> SOCK_EVENT_TYPE_LISTEN" for e'
    using wheel_invD(3) [OF inv, of e'] unfolding ev tl by (simp split: if_splits)
  moreover have "wheel ?w (L(k := remove1 e (L k)))"
    unfolding eq using wheel_unlink [OF wheel_invD(1) [OF inv] k] by simp
  ultimately show ?thesis unfolding wheel_inv_def by blast
qed

text \<open>
  What \<^verbatim>\<open>SocketEventComplete()\<close> does to the event is what theory \<open>SockEvent\<close> says; what it does to
  the wheel is to take the event off.
\<close>

definition wheel_without :: "sev \<Rightarrow> (tlist_id \<Rightarrow> sev list) \<Rightarrow> tlist_id \<Rightarrow> sev list" where
  "wheel_without e L k = remove1 e (L k)"

lemma wheel_without_notin: "(\<And>k. e \<notin> set (L k)) \<Longrightarrow> wheel_without e L = L"
  by (simp add: wheel_without_def fun_eq_iff remove1_idem)

lemma wheel_without_listed:
  assumes "wheel w L" "timeoutList w e = Some k"
  shows "wheel_without e L = L(k := remove1 e (L k))"
proof
  fix k'
  show "wheel_without e L k' = (L(k := remove1 e (L k))) k'"
  proof (cases "k' = k")
    case False
    with assms have "e \<notin> set (L k')" by (metis option.inject wheelD(2))
    with False show ?thesis by (simp add: wheel_without_def remove1_idem)
  qed (simp add: wheel_without_def)
qed

lemma wheel_unlisted: "wheel w L \<Longrightarrow> timeoutList w e = None \<Longrightarrow> e \<notin> set (L k)"
  by (metis option.distinct(1) wheelD(2))

lemma engine_complete_pending:
  assumes inv: "wheel_inv w L"
  shows "wheel_inv (if has (se_flags (event_at w e)) FSE_TIMEOUT_PENDING
                    then SocketTimeoutDelete e w else w) (wheel_without e L)"
proof (cases "timeoutList w e")
  case None
  with wheel_invD(2) [OF inv, of e] have "\<not> has (se_flags (event_at w e)) FSE_TIMEOUT_PENDING" by simp
  moreover have "wheel_without e L = L"
    using wheel_unlisted [OF wheel_invD(1) [OF inv] None] by (rule wheel_without_notin)
  ultimately show ?thesis using inv by simp
next
  case (Some k)
  with wheel_invD(2) [OF inv, of e] have "has (se_flags (event_at w e)) FSE_TIMEOUT_PENDING" by simp
  with SocketTimeoutDelete_inv [OF inv Some] wheel_without_listed [OF wheel_invD(1) [OF inv] Some]
  show ?thesis by simp
qed

lemma engine_complete_event:
  "event_at (snd (engine_complete e w)) e = snd (SocketEventComplete (event_at w e))"
  "fst (engine_complete e w) = fst (SocketEventComplete (event_at w e))"
  by (simp_all add: engine_complete_def SocketEventComplete_def SocketTimeoutDelete_def Let_def
      split: option.splits)

lemma engine_complete_other:
  "e' \<noteq> e \<Longrightarrow> event_at (snd (engine_complete e w)) e' = event_at w e'"
  by (simp add: engine_complete_def SocketTimeoutDelete_def Let_def split: option.splits)

lemma engine_complete_inv:
  assumes inv: "wheel_inv w L"
  shows "wheel_inv (snd (engine_complete e w)) (wheel_without e L)"
proof -
  define w1 where "w1 = (if has (se_flags (event_at w e)) FSE_TIMEOUT_PENDING
             then SocketTimeoutDelete e w else w)"
  have i: "wheel_inv w1 (wheel_without e L)"
    unfolding w1_def by (rule engine_complete_pending [OF inv])
  then have "wheel_inv (set_event e (SeRemoveFlags FSE_IN_ENGINE (event_at w1 e)) w1)
               (wheel_without e L)"
    by (rule wheel_inv_set_event) simp_all
  with i show ?thesis
    by (simp add: engine_complete_def Let_def flip: w1_def)
qed

end
