(* ===== verification/WheelProps.thy ===== *)
theory WheelProps
  imports TimeoutWheel
begin

unbundle bit_operations_syntax

text \<open>
  What the timeout lists of the epoll engine promise: the timeout phase of a poll thread ends, it
  takes off exactly the events of the list that is due and starts the callbacks of those still in
  epoll; no event is timed out early, and none is left waiting, within the bounds stated here.
  The runs considered interleave the locked sections of all threads.
\<close>

section \<open>The two walks\<close>

lemma wheel_chain: "wheel w L \<Longrightarrow> chain (timeoutNext w) (list_head w k) (L k)"
  using wheelD(1) [of w L k] by (auto simp: dll_def intro: dseg_chain)

lemma unlist_event_links [simp]:
  "timeoutList (unlist_event e w) = (timeoutList w)(e := None)"
  "timeoutNext (unlist_event e w) = (timeoutNext w)(e := None)"
  "timeoutPrev (unlist_event e w) = (timeoutPrev w)(e := None)"
  "async_next (unlist_event e w) = (async_next w)(e := timeoutNext w e)"
  "en_poll (unlist_event e w) = en_poll w"
  "list_head (unlist_event e w) = list_head w"
  "event_at (unlist_event e w) =
     (event_at w)(e := SeRemoveFlags FSE_TIMEOUT_PENDING (event_at w e))"
  by (auto simp: unlist_event_def Let_def fun_eq_iff)

lemma fold_unlist_links [simp]:
  "timeoutList (fold unlist_event xs w) e = (if e \<in> set xs then None else timeoutList w e)"
  "timeoutNext (fold unlist_event xs w) e = (if e \<in> set xs then None else timeoutNext w e)"
  "timeoutPrev (fold unlist_event xs w) e = (if e \<in> set xs then None else timeoutPrev w e)"
  "en_poll (fold unlist_event xs w) = en_poll w"
  "list_head (fold unlist_event xs w) = list_head w"
  by (induction xs arbitrary: w) auto

lemma fold_unlist_event_at:
  "distinct xs \<Longrightarrow> event_at (fold unlist_event xs w) e =
     (if e \<in> set xs then SeRemoveFlags FSE_TIMEOUT_PENDING (event_at w e) else event_at w e)"
  by (induction xs arbitrary: w) auto

lemma fold_unlist_async:
  "e \<notin> set xs \<Longrightarrow> async_next (fold unlist_event xs w) e = async_next w e"
  by (induction xs arbitrary: w) auto

lemma unlist_walk_chain:
  assumes "chain (timeoutNext w) h xs" "distinct xs"
  shows "unlist_walk h w = Some (fold unlist_event xs w) \<and>
         chain (async_next (fold unlist_event xs w)) h xs"
  using assms
proof (induction xs arbitrary: h w)
  case Nil
  then show ?case by (subst unlist_walk.simps) simp
next
  case (Cons x xs)
  let ?w1 = "unlist_event x w"
  have "chain (timeoutNext ?w1) (timeoutNext w x) xs" using Cons.prems by simp
  from Cons.IH [OF this] Cons.prems(2)
  have ih: "unlist_walk (timeoutNext w x) ?w1 = Some (fold unlist_event xs ?w1)"
    "chain (async_next (fold unlist_event xs ?w1)) (timeoutNext w x) xs" by simp_all
  have "unlist_walk h w = unlist_walk (timeoutNext w x) ?w1"
    using Cons.prems(1) by (subst unlist_walk.simps) simp
  moreover have "async_next (fold unlist_event xs ?w1) x = timeoutNext w x"
    using Cons.prems(2) by (simp add: fold_unlist_async)
  ultimately show ?case using ih Cons.prems(1) by simp
qed

lemma expire_event_spec:
  "fst (expire_event e w) \<longleftrightarrow> has (se_flags (event_at w e)) FSE_IN_ENGINE"
  "event_at (snd (expire_event e w)) e =
     snd (SocketEventComplete ((event_at w e)\<lparr>se_error := ETIMEDOUT\<rparr>))"
  "e' \<noteq> e \<Longrightarrow> event_at (snd (expire_event e w)) e' = event_at w e'"
  by (simp_all add: expire_event_def engine_complete_event engine_complete_other
      SocketEventComplete_result)

lemma expire_event_async [simp]: "async_next (snd (expire_event e w)) = async_next w"
  by (simp add: expire_event_def engine_complete_def SocketTimeoutDelete_def unlink_event_def Let_def
      split: option.splits)

lemma expire_event_inv:
  "wheel_inv w L \<Longrightarrow> wheel_inv (snd (expire_event e w)) (wheel_without e L)"
  unfolding expire_event_def by (intro engine_complete_inv wheel_inv_set_event) simp_all

text \<open>An event that was taken off the wheel and then expired: out of epoll, with the error set.\<close>

definition timed_out :: "SocketEvent \<Rightarrow> bool" where
  "timed_out se \<longleftrightarrow> se_error se = ETIMEDOUT \<and> \<not> has (se_flags se) FSE_IN_ENGINE \<and>
     \<not> has (se_flags se) FSE_TIMEOUT_PENDING"

lemma expire_walk_chain:
  assumes "chain (async_next w) h xs" "distinct xs" "wheel_inv w L"
    and "\<And>e k. e \<in> set xs \<Longrightarrow> e \<notin> set (L k)"
  shows "\<exists>w'. expire_walk h acc w =
            Some (acc @ filter (\<lambda>e. has (se_flags (event_at w e)) FSE_IN_ENGINE) xs, w') \<and>
          wheel_inv w' L \<and> (\<forall>e \<in> set xs. timed_out (event_at w' e)) \<and>
          (\<forall>e. e \<notin> set xs \<longrightarrow> event_at w' e = event_at w e)"
  using assms
proof (induction xs arbitrary: h acc w)
  case Nil
  then show ?case by (subst expire_walk.simps) simp
next
  case (Cons x xs)
  define w1 where "w1 = snd (expire_event x w)"
  have out: "wheel_without x L = L" by (rule wheel_without_notin) (simp add: Cons.prems(4))
  have inv1: "wheel_inv w1 L"
    using expire_event_inv [OF Cons.prems(3), of x] unfolding w1_def out .
  have ch: "chain (async_next w1) (async_next w x) xs" using Cons.prems(1) by (simp add: w1_def)
  let ?acc = "if fst (expire_event x w) then acc @ [x] else acc"
  from Cons.IH [OF ch _ inv1, of ?acc] Cons.prems(2,4) obtain w' where w':
    "expire_walk (async_next w x) ?acc w1 =
       Some (?acc @ filter (\<lambda>e. has (se_flags (event_at w1 e)) FSE_IN_ENGINE) xs, w')"
    "wheel_inv w' L" "\<forall>e \<in> set xs. timed_out (event_at w' e)"
    "\<forall>e. e \<notin> set xs \<longrightarrow> event_at w' e = event_at w1 e" by auto
  have step: "expire_walk h acc w = expire_walk (async_next w x) ?acc w1"
    using Cons.prems(1) by (subst expire_walk.simps) (simp add: w1_def Let_def split_beta)
  have flt: "filter (\<lambda>e. has (se_flags (event_at w1 e)) FSE_IN_ENGINE) xs =
        filter (\<lambda>e. has (se_flags (event_at w e)) FSE_IN_ENGINE) xs"
  proof (rule filter_cong [OF refl])
    fix e assume "e \<in> set xs"
    with Cons.prems(2) have "e \<noteq> x" by auto
    then show "has (se_flags (event_at w1 e)) FSE_IN_ENGINE =
               has (se_flags (event_at w e)) FSE_IN_ENGINE"
      by (simp add: w1_def expire_event_spec(3))
  qed
  have "timed_out (event_at w' x)"
    using w'(4) Cons.prems(2)
    by (simp add: w1_def expire_event_spec timed_out_def SocketEventComplete_keeps
        SocketEventComplete_flags)
  moreover have "event_at w' e = event_at w e" if "e \<notin> set (x # xs)" for e
    using w'(4) that by (simp add: w1_def expire_event_spec(3))
  ultimately show ?case
    using w'(1-3) unfolding step flt by (auto simp: expire_event_spec(1))
qed

section \<open>The timeout phase\<close>

lemma poll_update_fields [simp]:
  "pi_head (en_poll (w\<lparr>en_poll := (en_poll w)(p := (en_poll w p)\<lparr>pi_now := t\<rparr>)\<rparr>) q) =
     pi_head (en_poll w q)"
  "pi_head (en_poll (w\<lparr>en_poll := (en_poll w)(p := (en_poll w p)\<lparr>pi_timeoutIndex := i\<rparr>)\<rparr>) q) =
     pi_head (en_poll w q)"
  by simp_all

lemma list_head_clock [simp]:
  "list_head (w\<lparr>en_poll := (en_poll w)(p := (en_poll w p)\<lparr>pi_now := t\<rparr>)\<rparr>) = list_head w"
  "list_head (w\<lparr>en_poll := (en_poll w)(p := (en_poll w p)\<lparr>pi_timeoutIndex := i\<rparr>)\<rparr>) = list_head w"
  by (auto simp: list_head_def fun_eq_iff)

lemma wheel_inv_cong:
  assumes "wheel_inv w L" "list_head w' = list_head w" "timeoutList w' = timeoutList w"
    "timeoutNext w' = timeoutNext w" "timeoutPrev w' = timeoutPrev w" "event_at w' = event_at w"
  shows "wheel_inv w' L"
  using assms unfolding wheel_inv_def wheel_def by metis

text \<open>Emptying one list and clearing its events leaves a wheel without that list.\<close>

lemma wheel_detach:
  assumes inv: "wheel_inv w L"
  shows "wheel_inv (fold unlist_event (L k) (set_head k None w)) (L(k := []))" (is "wheel_inv ?w _")
proof -
  note wh = wheel_invD(1) [OF inv]
  have dis: "distinct (L k)" by (rule wheel_distinct [OF wh])
  have tl: "timeoutList ?w e = (if e \<in> set (L k) then None else timeoutList w e)" for e by simp
  have "wheel ?w (L(k := []))"
  proof (rule wheelI)
    fix k'
    show "dll (timeoutNext ?w) (timeoutPrev ?w) (list_head ?w k')
        (if (L(k := [])) k' = [] then None else Some (last ((L(k := [])) k'))) ((L(k := [])) k')"
    proof (cases "k' = k")
      case False
      have "dll (timeoutNext ?w) (timeoutPrev ?w) (list_head w k')
              (if L k' = [] then None else Some (last (L k'))) (L k') =
            dll (timeoutNext w) (timeoutPrev w) (list_head w k')
              (if L k' = [] then None else Some (last (L k'))) (L k')"
        using wheel_disjoint [OF wh, of _ k k'] False by (intro dll_cong) auto
      with wheelD(1) [OF wh, of k'] False show ?thesis by (simp split: if_splits)
    qed simp
  next
    fix e k'
    show "timeoutList ?w e = Some k' \<longleftrightarrow> e \<in> set ((L(k := [])) k')"
      using wheelD(2) [OF wh, of e k'] wheelD(2) [OF wh, of e k] by (auto simp: tl)
  next
    fix e assume "timeoutList ?w e = None"
    then show "timeoutNext ?w e = None \<and> timeoutPrev ?w e = None"
      using wheelD(3) [OF wh, of e] by (auto split: if_splits)
  qed
  moreover have ev: "event_at ?w e = (if e \<in> set (L k)
      then SeRemoveFlags FSE_TIMEOUT_PENDING (event_at w e) else event_at w e)" for e
    by (simp add: fold_unlist_event_at [OF dis])
  moreover have "timeoutList ?w e \<noteq> None \<longleftrightarrow> has (se_flags (event_at ?w e)) FSE_TIMEOUT_PENDING" for e
    using wheel_invD(2) [OF inv, of e] unfolding ev tl by simp
  moreover have "se_type (event_at ?w e) \<noteq> SOCK_EVENT_TYPE_LISTEN" if "timeoutList ?w e \<noteq> None" for e
    using wheel_invD(3) [OF inv, of e] that unfolding ev tl by (simp split: if_splits)
  ultimately show ?thesis unfolding wheel_inv_def by blast
qed

text \<open>What \<^verbatim>\<open>_PollThread()\<close> detaches at time \<open>t\<close>: the list of \<open>t\<close>, if it is not the current one.\<close>

definition due :: "int \<Rightarrow> poll \<Rightarrow> engine \<Rightarrow> (tlist_id \<Rightarrow> sev list) \<Rightarrow> sev list" where
  "due t p w L = (if pi_timeoutIndex (en_poll w p) \<noteq> TIMEOUT_INDEX t
                  then L (TL p (TIMEOUT_INDEX t)) else [])"

definition undue :: "int \<Rightarrow> poll \<Rightarrow> engine \<Rightarrow> (tlist_id \<Rightarrow> sev list) \<Rightarrow> tlist_id \<Rightarrow> sev list" where
  "undue t p w L = (if pi_timeoutIndex (en_poll w p) \<noteq> TIMEOUT_INDEX t
                    then L(TL p (TIMEOUT_INDEX t) := []) else L)"

lemma poll_detach_spec:
  assumes inv: "wheel_inv w L"
  shows "\<exists>h w'. poll_detach t p w = Some (h, w') \<and> wheel_inv w' (undue t p w L) \<and>
     chain (async_next w') h (due t p w L) \<and>
     pi_now (en_poll w' p) = t \<and>
     pi_timeoutIndex (en_poll w' p) = TIMEOUT_INDEX t \<and>
     (\<forall>q. q \<noteq> p \<longrightarrow> pi_now (en_poll w' q) = pi_now (en_poll w q) \<and>
                   pi_timeoutIndex (en_poll w' q) = pi_timeoutIndex (en_poll w q)) \<and>
     (\<forall>e. timeoutList w' e = (if e \<in> set (due t p w L) then None else timeoutList w e)) \<and>
     (\<forall>e. event_at w' e = (if e \<in> set (due t p w L)
            then SeRemoveFlags FSE_TIMEOUT_PENDING (event_at w e) else event_at w e))"
proof (cases "pi_timeoutIndex (en_poll w p) = TIMEOUT_INDEX t")
  case True
  let ?w = "w\<lparr>en_poll := (en_poll w)(p := (en_poll w p)\<lparr>pi_now := t\<rparr>)\<rparr>"
  have "wheel_inv ?w L" by (rule wheel_inv_cong [OF inv]) simp_all
  with True show ?thesis by (simp add: poll_detach_def due_def undue_def)
next
  case False
  define i where "i = TIMEOUT_INDEX t"
  define w2 where "w2 = w\<lparr>en_poll := (en_poll w)(p := (en_poll w p)\<lparr>pi_now := t, pi_timeoutIndex := i\<rparr>)\<rparr>"
  let ?k = "TL p i" and ?h = "list_head w (TL p i)"
  have lh: "list_head w2 = list_head w" by (auto simp: w2_def list_head_def fun_eq_iff)
  have inv2: "wheel_inv w2 L" by (rule wheel_inv_cong [OF inv lh]) (simp_all add: w2_def)
  let ?w' = "fold unlist_event (L ?k) (set_head ?k None w2)"
  have dis: "distinct (L ?k)" by (rule wheel_distinct [OF wheel_invD(1) [OF inv]])
  have "chain (timeoutNext (set_head ?k None w2)) ?h (L ?k)"
    using wheel_chain [OF wheel_invD(1) [OF inv], of ?k] by (simp add: w2_def)
  from unlist_walk_chain [OF this dis]
  have walk: "unlist_walk ?h (set_head ?k None w2) = Some ?w'" "chain (async_next ?w') ?h (L ?k)"
    by simp_all
  have "poll_detach t p w = Some (?h, ?w')"
    using False walk(1) lh by (simp add: poll_detach_def Let_def w2_def i_def)
  moreover have "wheel_inv ?w' (L(?k := []))" by (rule wheel_detach [OF inv2])
  moreover have "event_at ?w' e = (if e \<in> set (L ?k)
      then SeRemoveFlags FSE_TIMEOUT_PENDING (event_at w e) else event_at w e)" for e
    by (simp add: fold_unlist_event_at [OF dis]) (simp add: w2_def)
  ultimately show ?thesis
    using False walk(2) by (simp add: due_def undue_def flip: i_def) (simp add: w2_def)
qed


section \<open>Runs of the engine\<close>

text \<open>
  \<open>wheel_run ok w A T\<close>: \<open>w\<close> is reached from an engine that was just set up, by locked sections of
  any threads in any order.  Events are put on the wheel by \<^verbatim>\<open>sockEventAdd()\<close> when no flag says
  they are on it already, taken off when they complete, detached by a poll thread that looks at
  the clock, expired one by one afterwards; whatever else happens to an event leaves its flag
  and, while it is on the wheel, its type alone.  \<open>ok old new\<close> restricts two successive looks of a
  poll thread at the clock.  \<open>A\<close> and \<open>T\<close> record, for every event, what the thread's clock said when
  the event was put on the wheel, and the timeout in milliseconds that was asked for.
\<close>

inductive wheel_run ::
    "(int \<Rightarrow> int \<Rightarrow> bool) \<Rightarrow> engine \<Rightarrow> (sev \<Rightarrow> int) \<Rightarrow> (sev \<Rightarrow> int) \<Rightarrow> bool"
  for ok :: "int \<Rightarrow> int \<Rightarrow> bool" where
  start: "sockEngineInit efd_in efd_out t w0 = (0, w) \<Longrightarrow> 0 \<le> t \<Longrightarrow>
     wheel_inv w (\<lambda>_. []) \<Longrightarrow> wheel_run ok w A T"
| add: "wheel_run ok w A T \<Longrightarrow> \<not> has (se_flags (event_at w e)) FSE_TIMEOUT_PENDING \<Longrightarrow>
     getEpollHandle (se_type (event_at w e)) = Some p \<Longrightarrow>
     wheel_run ok (SocketTimeoutAdd p e timeout w)
       (A(e := pi_now (en_poll w p))) (T(e := timeout))"
| complete: "wheel_run ok w A T \<Longrightarrow> wheel_run ok (snd (engine_complete e w)) A T"
| detach: "wheel_run ok w A T \<Longrightarrow> ok (pi_now (en_poll w p)) t \<Longrightarrow>
     poll_detach t p w = Some (events, w') \<Longrightarrow> wheel_run ok w' A T"
| expire: "wheel_run ok w A T \<Longrightarrow> wheel_run ok (snd (expire_event e w)) A T"
| other: "wheel_run ok w A T \<Longrightarrow>
     (has (se_flags se) FSE_TIMEOUT_PENDING \<longleftrightarrow> has (se_flags (event_at w e)) FSE_TIMEOUT_PENDING) \<Longrightarrow>
     (timeoutList w e \<noteq> None \<longrightarrow> se_type se = se_type (event_at w e)) \<Longrightarrow>
     wheel_run ok (set_event e se w) A T"

lemma wheel_inv_other:
  assumes "wheel_inv w L"
    and "has (se_flags se) FSE_TIMEOUT_PENDING \<longleftrightarrow> has (se_flags (event_at w e)) FSE_TIMEOUT_PENDING"
    and "timeoutList w e \<noteq> None \<longrightarrow> se_type se = se_type (event_at w e)"
  shows "wheel_inv (set_event e se w) L"
proof -
  have "timeoutList w e' \<noteq> None \<longleftrightarrow> has (se_flags (event_at (set_event e se w) e')) FSE_TIMEOUT_PENDING"
    for e'
    using wheel_invD(2) [OF assms(1), of e'] assms(2) by (cases "e' = e") simp_all
  moreover have "se_type (event_at (set_event e se w) e') \<noteq> SOCK_EVENT_TYPE_LISTEN"
    if "timeoutList w e' \<noteq> None" for e'
    using wheel_invD(3) [OF assms(1) that] assms(3) that by (cases "e' = e") simp_all
  ultimately show ?thesis using wheel_invD(1) [OF assms(1)] by (simp add: wheel_inv_def)
qed

text \<open>What every state of a run satisfies.\<close>

definition clock_ok :: "engine \<Rightarrow> bool" where
  "clock_ok w \<longleftrightarrow> (\<forall>p. 0 \<le> pi_now (en_poll w p) \<and>
     pi_timeoutIndex (en_poll w p) = TIMEOUT_INDEX (pi_now (en_poll w p)))"

definition slots_ok :: "engine \<Rightarrow> (sev \<Rightarrow> int) \<Rightarrow> (sev \<Rightarrow> int) \<Rightarrow> bool" where
  "slots_ok w A T \<longleftrightarrow> (\<forall>e p i. timeoutList w e = Some (TL p i) \<longrightarrow>
     i = timeout_slot (A e) (T e) \<and> 0 \<le> A e \<and> A e \<le> pi_now (en_poll w p))"

lemma engine_complete_fields [simp]:
  "pi_now (en_poll (snd (engine_complete e w)) p) = pi_now (en_poll w p)"
  "pi_timeoutIndex (en_poll (snd (engine_complete e w)) p) = pi_timeoutIndex (en_poll w p)"
  by (simp_all add: engine_complete_def SocketTimeoutDelete_def unlink_event_def Let_def
      split: option.splits)

lemma engine_complete_timeoutList:
  "timeoutList (snd (engine_complete e w)) e' = Some k \<Longrightarrow> timeoutList w e' = Some k"
  by (auto simp: engine_complete_def SocketTimeoutDelete_def unlink_event_timeoutList Let_def
      split: option.splits if_splits)

lemma SocketTimeoutAdd_fields [simp]:
  "pi_now (en_poll (SocketTimeoutAdd q e t w) p) = pi_now (en_poll w p)"
  "pi_timeoutIndex (en_poll (SocketTimeoutAdd q e t w) p) = pi_timeoutIndex (en_poll w p)"
  by (simp_all add: SocketTimeoutAdd_def link_front_def Let_def split: option.splits)

lemma SocketTimeoutAdd_timeoutList:
  assumes "timeoutList w e = None"
  shows "timeoutList (SocketTimeoutAdd p e t w) = (timeoutList w)(e :=
     if t \<noteq> 0 \<and> se_type (event_at w e) \<noteq> SOCK_EVENT_TYPE_LISTEN
     then Some (TL p (timeout_slot (pi_now (en_poll w p)) t)) else None)"
  using assms by (auto simp: SocketTimeoutAdd_def link_front_def Let_def fun_eq_iff split: option.splits)

lemma SocketTimeoutAdd_keeps_inv:
  assumes inv: "wheel_inv w L" and "timeoutList w e = None"
  shows "\<exists>L'. wheel_inv (SocketTimeoutAdd p e t w) L'"
proof (cases "t \<noteq> 0 \<and> se_type (event_at w e) \<noteq> SOCK_EVENT_TYPE_LISTEN")
  case True
  with SocketTimeoutAdd_inv [OF inv assms(2), of t p] show ?thesis by auto
next
  case False
  then have "SocketTimeoutAdd p e t w = w" by (auto simp: SocketTimeoutAdd_def)
  with inv show ?thesis by auto
qed

lemma sockEngineInit_ok:
  assumes "sockEngineInit efd_in efd_out t w0 = (0, w)" and "0 \<le> t"
  shows "clock_ok w"
proof -
  have "pi_now (en_poll w p) = t \<and> pi_timeoutIndex (en_poll w p) = TIMEOUT_INDEX t" for p
    using assms(1)
    by (cases p) (auto simp: sockEngineInit_def SocketPollInit_def Let_def split: if_splits)
  with assms(2) show ?thesis by (simp add: clock_ok_def)
qed

lemma wheel_run_invariant:
  assumes "wheel_run ok w A T" and mono: "\<And>o' n. ok o' n \<Longrightarrow> o' \<le> n"
  shows "(\<exists>L. wheel_inv w L) \<and> clock_ok w \<and> slots_ok w A T"
  using assms(1)
proof (induction rule: wheel_run.induct)
  case (start efd_in efd_out t w0 w A T)
  have "timeoutList w e = None" for e
    using wheelD(2) [OF wheel_invD(1) [OF start(3)], of e] by (cases "timeoutList w e") auto
  then have "slots_ok w A T" by (simp add: slots_ok_def)
  with start sockEngineInit_ok [OF start(1,2)] show ?case by blast
next
  case (add w A T e p timeout)
  then obtain L where L: "wheel_inv w L" by blast
  have fresh: "timeoutList w e = None" using wheel_invD(2) [OF L, of e] add(2) by simp
  have "slots_ok (SocketTimeoutAdd p e timeout w) (A(e := pi_now (en_poll w p))) (T(e := timeout))"
    using add.IH unfolding slots_ok_def SocketTimeoutAdd_timeoutList [OF fresh]
    by (auto simp: clock_ok_def)
  moreover have "clock_ok (SocketTimeoutAdd p e timeout w)" using add.IH by (simp add: clock_ok_def)
  ultimately show ?case using SocketTimeoutAdd_keeps_inv [OF L fresh] by blast
next
  case (complete w A T e)
  then show ?case
    by (auto simp: clock_ok_def slots_ok_def dest: engine_complete_timeoutList intro: engine_complete_inv)
next
  case (detach w A T p t events w')
  then obtain L where L: "wheel_inv w L" by blast
  from poll_detach_spec [OF L, of t p] detach(3)
  have d: "wheel_inv w' (undue t p w L)" "pi_now (en_poll w' p) = t"
    "pi_timeoutIndex (en_poll w' p) = TIMEOUT_INDEX t"
    "\<And>q. q \<noteq> p \<Longrightarrow> pi_now (en_poll w' q) = pi_now (en_poll w q) \<and>
                   pi_timeoutIndex (en_poll w' q) = pi_timeoutIndex (en_poll w q)"
    "\<And>e k. timeoutList w' e = Some k \<Longrightarrow> timeoutList w e = Some k"
    by (auto split: if_splits)
  have le: "pi_now (en_poll w q) \<le> pi_now (en_poll w' q)" for q
    using mono [OF detach(2)] d(2,4) by (cases "q = p") auto
  have "clock_ok w'"
    unfolding clock_ok_def
  proof
    fix q
    show "0 \<le> pi_now (en_poll w' q) \<and>
          pi_timeoutIndex (en_poll w' q) = TIMEOUT_INDEX (pi_now (en_poll w' q))"
    proof -
      have "0 \<le> pi_now (en_poll w q)"
        "pi_timeoutIndex (en_poll w q) = TIMEOUT_INDEX (pi_now (en_poll w q))"
        using detach.IH by (auto simp: clock_ok_def)
      with d(2,3) d(4) [of q] le [of q] show ?thesis by (cases "q = p") simp_all
    qed
  qed
  moreover have "slots_ok w' A T"
    using detach.IH d(5) le unfolding slots_ok_def by (meson order_trans)
  ultimately show ?case using d(1) by blast
next
  case (expire w A T e)
  then show ?case
    unfolding expire_event_def
    by (auto simp: clock_ok_def slots_ok_def dest: engine_complete_timeoutList
        intro!: exI engine_complete_inv wheel_inv_set_event)
next
  case (other w A T se e)
  then show ?case by (auto simp: clock_ok_def slots_ok_def intro: wheel_inv_other)
qed

section \<open>Time\<close>


lemma sdiv_nonneg: "0 \<le> (t::int) \<Longrightarrow> 0 < m \<Longrightarrow> t sdiv m = t div m"
  by (simp add: signed_divide_int_def sgn_if)

lemma TIMEOUT_INDEX_nonneg: "0 \<le> t \<Longrightarrow> TIMEOUT_INDEX t = (t div 32) mod 64"
proof -
  assume "0 \<le> t"
  then have "0 \<le> t div 32" by simp
  with \<open>0 \<le> t\<close> show ?thesis
    by (auto simp: TIMEOUT_INDEX_def signed_modulo_int_def sdiv_nonneg minus_div_mult_eq_mod sgn_if)
qed

text \<open>Two times of the same list are in the same granule, or a whole revolution apart.\<close>

lemma same_index:
  assumes "0 \<le> s" "0 \<le> t" "TIMEOUT_INDEX s = TIMEOUT_INDEX t" "s div 32 < t div 32"
  shows "s div 32 + 64 \<le> t div 32"
proof -
  from assms(3) have "(t div 32) mod 64 = (s div 32) mod 64"
    using assms(1,2) by (simp add: TIMEOUT_INDEX_nonneg)
  then have "64 dvd (t div 32 - s div 32)" by (simp only: mod_eq_dvd_iff)
  with assms(4) show ?thesis by (auto dest: zdvd_imp_le)
qed

lemma slot_not_before:
  assumes "0 \<le> a" "a \<le> t" "0 \<le> s" "s \<le> 1985" "TIMEOUT_INDEX t = TIMEOUT_INDEX (a + s + 31)"
  shows "a + s \<le> t"
proof (rule ccontr)
  assume "\<not> a + s \<le> t"
  then have "t div 32 < (a + s + 31) div 32" by linarith
  with same_index [of t "a + s + 31"] assms have "t div 32 + 64 \<le> (a + s + 31) div 32" by simp
  with assms show False by linarith
qed

lemma index_step:
  assumes "0 \<le> s" "s div 32 + 1 = t div 32"
  shows "TIMEOUT_INDEX s \<noteq> TIMEOUT_INDEX t"
proof
  assume e: "TIMEOUT_INDEX s = TIMEOUT_INDEX t"
  have "0 \<le> t" using assms by linarith
  from same_index [OF assms(1) this e] assms(2) show False by simp
qed

text \<open>A detached event was in the list of the moment, and that list was not the current one.\<close>

lemma detached:
  assumes inv: "wheel_inv w L" and d: "poll_detach t p w = Some (events, w')"
    and e: "timeoutList w e = Some k" "timeoutList w' e = None"
  shows "k = TL p (TIMEOUT_INDEX t)" "pi_timeoutIndex (en_poll w p) \<noteq> TIMEOUT_INDEX t"
proof -
  from poll_detach_spec [OF inv, of t p] d e have "e \<in> set (due t p w L)" by (auto split: if_splits)
  then have m: "e \<in> set (L (TL p (TIMEOUT_INDEX t)))"
    and "pi_timeoutIndex (en_poll w p) \<noteq> TIMEOUT_INDEX t" by (auto simp: due_def split: if_splits)
  then show "pi_timeoutIndex (en_poll w p) \<noteq> TIMEOUT_INDEX t" by simp
  from m e(1) show "k = TL p (TIMEOUT_INDEX t)" by (metis inv option.inject wheelD(2) wheel_invD(1))
qed

section \<open>Properties\<close>

text \<open>
  C8. No timeout fires early: for a timeout of up to 1985 seconds, when a poll thread takes an
  event off the wheel because its time is up, the time that was asked for has passed since the
  poll thread looked at the clock last before the event was added.  (\<^verbatim>\<open>_PollThread()\<close> and
  \<^verbatim>\<open>_SocketTimeoutAdd()\<close>, in any interleaving with other threads, as long as the clock does not
  run backwards.)
\<close>
theorem timeout_not_early:
  assumes run: "wheel_run (\<le>) w A T"
    and t: "pi_now (en_poll w p) \<le> t" and d: "poll_detach t p w = Some (events, w')"
    and e: "timeoutList w e = Some (TL p i)" "timeoutList w' e = None"
    and T: "0 < T e" "T e < 1986000"
  shows "A e + T e div 1000 \<le> t"
proof -
  from wheel_run_invariant [OF run] obtain L where L: "wheel_inv w L" and s: "slots_ok w A T" by auto
  from s e(1) have i: "i = timeout_slot (A e) (T e)" "0 \<le> A e" "A e \<le> pi_now (en_poll w p)"
    by (auto simp: slots_ok_def)
  have "TIMEOUT_INDEX t = TIMEOUT_INDEX (A e + T e div 1000 + 31)"
    using detached(1) [OF L d e] i(1) T(1) by (simp add: timeout_slot_def sdiv_nonneg)
  with slot_not_before [of "A e" t "T e div 1000"] i t T show ?thesis by simp
qed

text \<open>The list an event waits for is still ahead as long as no list is skipped.\<close>

definition ahead :: "engine \<Rightarrow> (sev \<Rightarrow> int) \<Rightarrow> (sev \<Rightarrow> int) \<Rightarrow> bool" where
  "ahead w A T \<longleftrightarrow> (\<forall>e p i. timeoutList w e = Some (TL p i) \<longrightarrow> 1000 \<le> T e \<longrightarrow>
     pi_now (en_poll w p) div 32 < (A e + T e div 1000 + 31) div 32)"

abbreviation every_32_seconds :: "int \<Rightarrow> int \<Rightarrow> bool" where
  "every_32_seconds o' n \<equiv> o' \<le> n \<and> n \<le> o' + 32"

lemma ahead_cong:
  assumes "ahead w A T" "\<And>e k. timeoutList w' e = Some k \<Longrightarrow> timeoutList w e = Some k"
    and "\<And>p. pi_now (en_poll w' p) = pi_now (en_poll w p)"
  shows "ahead w' A T"
  using assms unfolding ahead_def by metis

lemma ahead_detach:
  assumes L: "wheel_inv w L" and c: "clock_ok w" and s: "slots_ok w A T" and a: "ahead w A T"
    and t: "every_32_seconds (pi_now (en_poll w p)) t"
    and d: "poll_detach t p w = Some (events, w')"
  shows "ahead w' A T"
  unfolding ahead_def
proof (intro allI impI)
  fix e q i assume e: "timeoutList w' e = Some (TL q i)" and T: "1000 \<le> T e"
  from poll_detach_spec [OF L, of t p] d e have e0: "timeoutList w e = Some (TL q i)"
    and nd: "e \<notin> set (due t p w L)" and now: "pi_now (en_poll w' q) = (if q = p then t else pi_now (en_poll w q))"
    by (auto split: if_splits)
  from a e0 T have lt: "pi_now (en_poll w q) div 32 < (A e + T e div 1000 + 31) div 32"
    by (simp add: ahead_def)
  show "pi_now (en_poll w' q) div 32 < (A e + T e div 1000 + 31) div 32"
  proof (cases "q = p")
    case True
    show ?thesis
    proof (rule ccontr)
      assume "\<not> ?thesis"
      with lt t now True have g: "t div 32 = (A e + T e div 1000 + 31) div 32"
        "pi_now (en_poll w p) div 32 + 1 = t div 32" by auto
      have nn: "0 \<le> pi_now (en_poll w p)" using c by (simp add: clock_ok_def)
      with t have "0 \<le> t" by simp
      have "i = timeout_slot (A e) (T e)" "0 \<le> A e" using s e0 by (auto simp: slots_ok_def)
      with T g(1) \<open>0 \<le> t\<close> have "i = TIMEOUT_INDEX t"
        by (simp add: timeout_slot_def sdiv_nonneg TIMEOUT_INDEX_nonneg)
      moreover have "pi_timeoutIndex (en_poll w p) \<noteq> TIMEOUT_INDEX t"
        using index_step [OF nn g(2)] c by (simp add: clock_ok_def)
      moreover have "e \<in> set (L (TL q i))" using wheelD(2) [OF wheel_invD(1) [OF L]] e0 by simp
      ultimately show False using nd True by (simp add: due_def)
    qed
  qed (use lt now in simp)
qed

lemma wheel_run_ahead:
  assumes "wheel_run every_32_seconds w A T"
  shows "ahead w A T"
  using assms
proof (induction rule: wheel_run.induct)
  case (start efd_in efd_out t w0 w A T)
  have "timeoutList w e = None" for e
    using wheelD(2) [OF wheel_invD(1) [OF start(3)], of e] by (cases "timeoutList w e") auto
  then show ?case by (simp add: ahead_def)
next
  case (add w A T e p timeout)
  from wheel_run_invariant [OF add(1)] obtain L where L: "wheel_inv w L" by auto
  have fresh: "timeoutList w e = None" using wheel_invD(2) [OF L, of e] add(2) by simp
  have "n div 32 < (n + timeout div 1000 + 31) div 32" if "1000 \<le> timeout" for n :: int
    using that by linarith
  with add.IH show ?case unfolding ahead_def SocketTimeoutAdd_timeoutList [OF fresh] by auto
next
  case (complete w A T e)
  from ahead_cong [OF complete.IH engine_complete_timeoutList] show ?case by simp
next
  case (detach w A T p t events w')
  from wheel_run_invariant [OF detach(1)] obtain L
    where "wheel_inv w L" "clock_ok w" "slots_ok w A T" by auto
  from ahead_detach [OF this detach.IH detach(2,3)] show ?case .
next
  case (expire w A T e)
  show ?case unfolding expire_event_def
    by (rule ahead_cong [OF expire.IH]) (auto dest: engine_complete_timeoutList)
next
  case (other w A T se e)
  show ?case by (rule ahead_cong [OF other.IH]) simp_all
qed

text \<open>
  C9. No timeout is forgotten: as long as a poll thread looks at the clock at least every 32
  seconds, an event with a timeout of a second or more never stays on the wheel for more than 30
  seconds after its time is up (both counted on the clock of the poll thread).
\<close>
theorem timeout_not_late:
  assumes "wheel_run every_32_seconds w A T"
    and "timeoutList w e = Some (TL p i)" and "1000 \<le> T e"
  shows "pi_now (en_poll w p) \<le> A e + T e div 1000 + 30"
proof -
  from wheel_run_ahead [OF assms(1)] assms(2,3)
  have "pi_now (en_poll w p) div 32 < (A e + T e div 1000 + 31) div 32" by (simp add: ahead_def)
  then show ?thesis by linarith
qed

text \<open>
  A timeout of less than a second is not the shortest of timeouts: when the clock of the poll
  thread stands at a multiple of 32 seconds, the event is put into the current list, which is
  next looked at after a whole revolution of the wheel, 2048 seconds later.
\<close>
theorem subsecond_timeout_takes_a_revolution:
  assumes run: "wheel_run (\<le>) w A T"
    and t: "pi_now (en_poll w p) \<le> t" and d: "poll_detach t p w = Some (events, w')"
    and e: "timeoutList w e = Some (TL p i)" "timeoutList w' e = None"
    and T: "0 < T e" "T e < 1000" and A: "A e mod 32 = 0"
  shows "A e + 2048 \<le> t"
proof -
  from wheel_run_invariant [OF run] obtain L
    where L: "wheel_inv w L" and s: "slots_ok w A T" and c: "clock_ok w" by auto
  from s e(1) have i: "i = timeout_slot (A e) (T e)" "0 \<le> A e" "A e \<le> pi_now (en_poll w p)"
    by (auto simp: slots_ok_def)
  note dt = detached [OF L d e]
  from A obtain q where q: "A e = 32 * q" by (auto simp: mod_eq_0_iff_dvd dvd_def)
  then have "(A e + 31) div 32 = A e div 32" by simp
  then have idx: "TIMEOUT_INDEX (A e) = TIMEOUT_INDEX t"
    using dt(1) i T by (simp add: timeout_slot_def sdiv_nonneg TIMEOUT_INDEX_nonneg)
  have "A e div 32 \<noteq> t div 32"
  proof
    assume "A e div 32 = t div 32"
    with i t have "pi_now (en_poll w p) div 32 = t div 32"
      by (metis antisym zdiv_mono1 zero_less_numeral)
    then have "pi_timeoutIndex (en_poll w p) = TIMEOUT_INDEX t"
      using c i t by (simp add: clock_ok_def TIMEOUT_INDEX_nonneg)
    with dt(2) show False by simp
  qed
  moreover have "A e div 32 \<le> t div 32" using i t by (intro zdiv_mono1) auto
  ultimately have "A e div 32 + 64 \<le> t div 32" using same_index [OF i(2) _ idx] i t by simp
  then have "q + 64 \<le> t div 32" using q by simp
  with q show ?thesis by linarith
qed

lemma poll_timeouts_spec:
  assumes inv: "wheel_inv w L"
  shows "\<exists>w'. poll_timeouts t p w =
            Some (filter (\<lambda>e. has (se_flags (event_at w e)) FSE_IN_ENGINE) (due t p w L), w') \<and>
          wheel_inv w' (undue t p w L) \<and>
          (\<forall>e \<in> set (due t p w L). timed_out (event_at w' e)) \<and>
          (\<forall>e. e \<notin> set (due t p w L) \<longrightarrow> event_at w' e = event_at w e)"
proof -
  let ?D = "due t p w L"
  from poll_detach_spec [OF inv, of t p] obtain h w1 where
    d: "poll_detach t p w = Some (h, w1)" "wheel_inv w1 (undue t p w L)" "chain (async_next w1) h ?D"
      "\<And>e. timeoutList w1 e = (if e \<in> set ?D then None else timeoutList w e)"
      "\<And>e. event_at w1 e = (if e \<in> set ?D
            then SeRemoveFlags FSE_TIMEOUT_PENDING (event_at w e) else event_at w e)" by blast
  have dis: "distinct ?D" by (simp add: due_def wheel_distinct [OF wheel_invD(1) [OF inv]])
  have out: "e \<notin> set (undue t p w L k)" if "e \<in> set ?D" for e k
    using wheel_unlisted [OF wheel_invD(1) [OF d(2)], of e] d(4) [of e] that by simp
  have flt: "filter (\<lambda>e. has (se_flags (event_at w1 e)) FSE_IN_ENGINE) ?D =
             filter (\<lambda>e. has (se_flags (event_at w e)) FSE_IN_ENGINE) ?D"
    by (rule filter_cong [OF refl]) (simp add: d(5))
  from expire_walk_chain [OF d(3) dis d(2) out, of "[]"] obtain w' where
    "expire_walk h [] w1 = Some ([] @ filter (\<lambda>e. has (se_flags (event_at w1 e)) FSE_IN_ENGINE) ?D, w')"
    "wheel_inv w' (undue t p w L)" "\<forall>e \<in> set ?D. timed_out (event_at w' e)"
    "\<forall>e. e \<notin> set ?D \<longrightarrow> event_at w' e = event_at w1 e" by blast
  with d(1,5) show ?thesis by (simp add: poll_timeouts_def flt)
qed


text \<open>
  C25. The timeout phase of \<^verbatim>\<open>_PollThread()\<close> always ends.  It empties the list that is due and no
  other; every event of that list is out of epoll and off the wheel afterwards with
  \<^verbatim>\<open>ETIMEDOUT\<close>, the callback threads are started for exactly those that were still in epoll, in
  the order of the list, and no other event changes.
\<close>
theorem poll_timeouts_exact:
  assumes inv: "wheel_inv w L"
  shows "\<exists>w'. poll_timeouts t p w =
            Some (filter (\<lambda>e. has (se_flags (event_at w e)) FSE_IN_ENGINE) (due t p w L), w') \<and>
          wheel_inv w' (undue t p w L) \<and>
          (\<forall>e \<in> set (due t p w L). timed_out (event_at w' e)) \<and>
          (\<forall>e. e \<notin> set (due t p w L) \<longrightarrow> event_at w' e = event_at w e)"
  by (rule poll_timeouts_spec [OF inv])

section \<open>Witnesses\<close>

definition demo_SOCK :: SOCK where
  "demo_SOCK = \<lparr>number = 7, ssl_new = None, ssl_conn = None, listener = None,
     ev_connect = sockEventInit, ev_receive = sockEventInit, ev_send = sockEventInit,
     listenerID = 0, lev_log = []\<rparr>"

definition blank_engine :: engine where
  "blank_engine = \<lparr>en_running = True, en_poll = (\<lambda>_. snd (SocketPollInit 0)),
     en_sock = (\<lambda>_. demo_SOCK), timeoutList = (\<lambda>_. None), timeoutNext = (\<lambda>_. None),
     timeoutPrev = (\<lambda>_. None), async_next = (\<lambda>_. None)\<rparr>"

definition demo_engine :: "int \<Rightarrow> engine" where
  "demo_engine t = snd (sockEngineInit 3 4 t blank_engine)"

definition demo_readable :: SocketEvent where
  "demo_readable = sockEventInit\<lparr>se_type := SOCK_EVENT_TYPE_READABLE, se_flags := FSE_IN_ENGINE,
     se_cbArg := Some 1, se_linked := True\<rparr>"

abbreviation demo_event :: sev where "demo_event \<equiv> SE 0 Receive_slot"

definition demo_waiting :: "int \<Rightarrow> int \<Rightarrow> engine" where
  "demo_waiting t timeout =
     SocketTimeoutAdd PollIn demo_event timeout (set_event demo_event demo_readable (demo_engine t))"

lemma demo_engine_init: "sockEngineInit 3 4 t blank_engine = (0, demo_engine t)"
  by (simp add: demo_engine_def sockEngineInit_def SocketPollInit_def Let_def)

lemma demo_engine_fields:
  "timeoutList (demo_engine t) e = None" "timeoutNext (demo_engine t) e = None"
  "timeoutPrev (demo_engine t) e = None" "list_head (demo_engine t) k = None"
  "event_at (demo_engine t) e = sockEventInit"
  "pi_now (en_poll (demo_engine t) p) = t"
  "pi_timeoutIndex (en_poll (demo_engine t) p) = TIMEOUT_INDEX t"
  "en_sock (demo_engine t) = (\<lambda>_. demo_SOCK)"
  by (cases p; cases "tl_poll k"; cases "ev_slot e";
      simp add: demo_engine_def sockEngineInit_def SocketPollInit_def Let_def blank_engine_def
        list_head_def event_at_def demo_SOCK_def)+

lemma demo_engine_inv: "wheel_inv (demo_engine t) (\<lambda>_. [])"
  by (simp add: wheel_inv_def wheel_def demo_engine_fields sockEventInit_def has_def)

lemma demo_waiting_run:
  assumes "0 \<le> t"
  shows "wheel_run ok (demo_waiting t timeout) (\<lambda>e. if e = demo_event then t else 0)
           (\<lambda>e. if e = demo_event then timeout else 0)"
proof -
  let ?w = "set_event demo_event demo_readable (demo_engine t)"
  have "wheel_run ok (demo_engine t) (\<lambda>_. 0) (\<lambda>_. 0)"
    by (rule wheel_run.start [OF demo_engine_init assms demo_engine_inv])
  then have "wheel_run ok ?w (\<lambda>_. 0) (\<lambda>_. 0)"
    by (rule wheel_run.other)
      (simp_all add: demo_engine_fields demo_readable_def sockEventInit_def has_def)
  then have "wheel_run ok (demo_waiting t timeout) ((\<lambda>_. 0)(demo_event := pi_now (en_poll ?w PollIn)))
      ((\<lambda>_. 0)(demo_event := timeout))"
    unfolding demo_waiting_def
    by (rule wheel_run.add) (simp_all add: demo_readable_def sockEventInit_def has_def)
  moreover have "((\<lambda>_. 0)(demo_event := pi_now (en_poll ?w PollIn))) =
      (\<lambda>e. if e = demo_event then t else 0)"
    "((\<lambda>_. 0)(demo_event := timeout)) = (\<lambda>e. if e = demo_event then timeout else 0)"
    by (simp_all add: fun_eq_iff demo_engine_fields)
  ultimately show ?thesis by simp
qed

lemma demo_waiting_inv:
  assumes "timeout \<noteq> 0"
  shows "wheel_inv (demo_waiting t timeout)
           ((\<lambda>_. [])(TL PollIn (timeout_slot t timeout) := [demo_event]))"
proof -
  let ?w = "set_event demo_event demo_readable (demo_engine t)"
  have "wheel_inv ?w (\<lambda>_. [])"
    by (rule wheel_inv_other [OF demo_engine_inv])
      (simp_all add: demo_engine_fields demo_readable_def sockEventInit_def has_def)
  from SocketTimeoutAdd_inv [OF this, of demo_event timeout PollIn] assms show ?thesis
    by (simp add: demo_waiting_def demo_engine_fields demo_readable_def sockEventInit_def Let_def)
qed

lemma demo_waiting_fields:
  "pi_now (en_poll (demo_waiting t timeout) p) = t"
  "pi_timeoutIndex (en_poll (demo_waiting t timeout) p) = TIMEOUT_INDEX t"
  "timeout \<noteq> 0 \<Longrightarrow> timeoutList (demo_waiting t timeout) demo_event =
     Some (TL PollIn (timeout_slot t timeout))"
  by (simp_all add: demo_waiting_def demo_engine_fields SocketTimeoutAdd_timeoutList
      demo_readable_def sockEventInit_def)

text \<open>The poll thread that looks at the clock at time \<open>u\<close> detaches the waiting event.\<close>

lemma demo_detach:
  assumes "timeout \<noteq> 0" "TIMEOUT_INDEX u = timeout_slot t timeout" "TIMEOUT_INDEX t \<noteq> TIMEOUT_INDEX u"
  obtains h w' where "poll_detach u PollIn (demo_waiting t timeout) = Some (h, w')"
    "timeoutList w' demo_event = None"
  using poll_detach_spec [OF demo_waiting_inv [OF assms(1), of t], of u PollIn] assms(2,3)
  by (auto simp: due_def demo_waiting_fields)

lemma timeout_not_early_witness:
  "\<exists>h w'. poll_detach 128 PollIn (demo_waiting 100 5000) = Some (h, w') \<and>
     timeoutList w' demo_event = None \<and> (100::int) + 5000 div 1000 \<le> 128"
proof -
  obtain h w' where d: "poll_detach 128 PollIn (demo_waiting 100 5000) = Some (h, w')"
    "timeoutList w' demo_event = None"
    by (rule demo_detach [of 5000 128 100]) (simp_all add: TIMEOUT_INDEX_nonneg timeout_slot_def sdiv_nonneg)
  have "(if demo_event = demo_event then 100 else 0) +
      (if demo_event = demo_event then 5000 else 0) div 1000 \<le> (128::int)"
    by (rule timeout_not_early [OF demo_waiting_run _ d(1) demo_waiting_fields(3) d(2)])
      (simp_all add: demo_waiting_fields)
  with d show ?thesis by auto
qed

lemma timeout_not_late_witness:
  "pi_now (en_poll (demo_waiting 100 5000) PollIn) \<le> 100 + 5000 div 1000 + 30"
  using timeout_not_late [OF demo_waiting_run demo_waiting_fields(3), of 100 5000] by simp

lemma subsecond_witness:
  "\<exists>h w' w''. poll_detach 96 PollIn (demo_waiting 64 500) = Some (h, w') \<and>
     (\<exists>h'. poll_detach 2112 PollIn w' = Some (h', w'')) \<and> timeoutList w' demo_event \<noteq> None \<and>
     timeoutList w'' demo_event = None \<and> (64::int) + 2048 \<le> 2112"
proof -
  let ?L = "(\<lambda>_. [])(TL PollIn (timeout_slot 64 500) := [demo_event])"
  have idx: "timeout_slot 64 500 = 2" "TIMEOUT_INDEX 96 = 3" "TIMEOUT_INDEX 64 = 2" "TIMEOUT_INDEX 2112 = 2"
    by (simp_all add: TIMEOUT_INDEX_nonneg timeout_slot_def sdiv_nonneg)
  have due1: "due 96 PollIn (demo_waiting 64 500) ?L = []"
    "undue 96 PollIn (demo_waiting 64 500) ?L = ?L"
    by (simp_all add: due_def undue_def idx demo_waiting_fields fun_eq_iff)
  from poll_detach_spec [OF demo_waiting_inv [of 500 64], of 96 PollIn] obtain h w' where
    d: "poll_detach 96 PollIn (demo_waiting 64 500) = Some (h, w')" "wheel_inv w' ?L"
      "pi_now (en_poll w' PollIn) = 96" "pi_timeoutIndex (en_poll w' PollIn) = 3"
      "timeoutList w' demo_event = Some (TL PollIn 2)"
    unfolding due1 by (auto simp: demo_waiting_fields idx)
  from poll_detach_spec [OF d(2), of 2112 PollIn] obtain h' w'' where
    d2: "poll_detach 2112 PollIn w' = Some (h', w'')" "timeoutList w'' demo_event = None"
    by (auto simp: due_def d(4) idx)
  have run: "wheel_run (\<le>) w' (\<lambda>e. if e = demo_event then 64 else 0)
           (\<lambda>e. if e = demo_event then 500 else 0)"
    by (rule wheel_run.detach [OF demo_waiting_run _ d(1)]) (simp_all add: demo_waiting_fields)
  have "(if demo_event = demo_event then 64 else 0) + 2048 \<le> (2112::int)"
    by (rule subsecond_timeout_takes_a_revolution [OF run _ d2(1) d(5) d2(2)]) (simp_all add: d(3))
  with d d2 show ?thesis by auto
qed

lemma poll_timeouts_witness:
  "\<exists>w'. poll_timeouts 128 PollIn (demo_waiting 100 5000) = Some ([demo_event], w') \<and>
     timed_out (event_at w' demo_event)"
proof -
  let ?L = "(\<lambda>_. [])(TL PollIn (timeout_slot 100 5000) := [demo_event])"
  have due: "due 128 PollIn (demo_waiting 100 5000) ?L = [demo_event]"
    by (simp add: due_def demo_waiting_fields TIMEOUT_INDEX_nonneg timeout_slot_def sdiv_nonneg)
  have fl: "has (se_flags (event_at (demo_waiting 100 5000) demo_event)) FSE_IN_ENGINE"
    by (simp add: demo_waiting_def SocketTimeoutAdd_def demo_engine_fields demo_readable_def
        sockEventInit_def)
  from poll_timeouts_exact [OF demo_waiting_inv [of 5000 100], of 128 PollIn] fl
  show ?thesis unfolding due by auto
qed

end
