(* ===== verification/LockOrder.thy ===== *)
theory LockOrder
  imports WheelProps
begin

text \<open>
  The locks that the poll thread and the threads that submit or kill events take around the timeout
  lists (\<^verbatim>\<open>src/src/sockunix.c\<close>, \<^verbatim>\<open>sockcommon.c\<close>): the lock of a timeout list, and the lock of a
  socket.  An operation is the sequence of its acquire and release calls; threads are interleaved;
  an acquire waits while another thread, or the same one, holds the lock.
\<close>

section \<open>Lock sequences\<close>

datatype lock_id = Slock ptr | Tlock tlist_id

datatype lock_call = Acquire lock_id | Release lock_id

text \<open>
  \<^verbatim>\<open>SocketEventKill()\<close> of an event: the socket lock, and inside it, when the event is on the
  wheel, the lock of its timeout list (\<^verbatim>\<open>_SocketTimeoutDelete()\<close>).
\<close>

definition kill_locks :: "engine \<Rightarrow> sev \<Rightarrow> lock_call list" where
  "kill_locks w e =
     [Acquire (Slock (ev_sock e))] @
     (case timeoutList w e of Some k \<Rightarrow> [Acquire (Tlock k), Release (Tlock k)] | None \<Rightarrow> []) @
     [Release (Slock (ev_sock e))]"

text \<open>
  The timeout phase of \<^verbatim>\<open>_PollThread()\<close>: the lock of the list, and inside it the socket lock of
  every event on it, one after the other.
\<close>

definition unlist_locks :: "tlist_id \<Rightarrow> sev list \<Rightarrow> lock_call list" where
  "unlist_locks k es =
     [Acquire (Tlock k)] @
     concat (map (\<lambda>e. [Acquire (Slock (ev_sock e)), Release (Slock (ev_sock e))]) es) @
     [Release (Tlock k)]"

section \<open>Interleaving\<close>

text \<open>\<open>todo\<close>: what every thread still has to call; \<open>holder\<close>: who holds a lock.\<close>

inductive lock_run ::
    "(nat \<Rightarrow> lock_call list) \<Rightarrow> (nat \<Rightarrow> lock_call list) \<Rightarrow> (lock_id \<Rightarrow> nat option) \<Rightarrow> bool"
  for prog :: "nat \<Rightarrow> lock_call list" where
  begin_run: "lock_run prog prog (\<lambda>_. None)"
| acquire: "lock_run prog todo holder \<Longrightarrow> todo i = Acquire l # cs \<Longrightarrow> holder l = None \<Longrightarrow>
     lock_run prog (todo(i := cs)) (holder(l := Some i))"
| release: "lock_run prog todo holder \<Longrightarrow> todo i = Release l # cs \<Longrightarrow> holder l = Some i \<Longrightarrow>
     lock_run prog (todo(i := cs)) (holder(l := None))"

text \<open>Every thread that is not through waits for a lock that is held.\<close>

definition deadlocked :: "nat set \<Rightarrow> (nat \<Rightarrow> lock_call list) \<Rightarrow> (lock_id \<Rightarrow> nat option) \<Rightarrow> bool" where
  "deadlocked ts todo holder \<longleftrightarrow>
     (\<exists>i \<in> ts. todo i \<noteq> []) \<and>
     (\<forall>i \<in> ts. todo i \<noteq> [] \<longrightarrow>
        (\<exists>l cs. todo i = Acquire l # cs \<and> holder l \<noteq> None))"

text \<open>A thread takes and gives back the socket locks of events whose sockets nobody has locked.\<close>

lemma walk_free:
  assumes "lock_run prog todo holder"
    and "todo i = concat (map (\<lambda>e. [Acquire (Slock (ev_sock e)), Release (Slock (ev_sock e))]) es) @ cs"
    and "\<And>e. e \<in> set es \<Longrightarrow> holder (Slock (ev_sock e)) = None"
  shows "lock_run prog (todo(i := cs)) holder"
  using assms
proof (induction es arbitrary: todo)
  case Nil
  then have "todo(i := cs) = todo" by (simp only: fun_upd_idem list.map concat.simps append.simps)
  with Nil.prems(1) show ?case by (simp only:)
next
  case (Cons e es)
  let ?l = "Slock (ev_sock e)"
  let ?rest = "concat (map (\<lambda>e. [Acquire (Slock (ev_sock e)), Release (Slock (ev_sock e))]) es) @ cs"
  have free: "holder ?l = None" using Cons.prems(3) by simp
  have "todo i = Acquire ?l # Release ?l # ?rest" using Cons.prems(2) by simp
  from lock_run.acquire [OF Cons.prems(1) this free]
  have "lock_run prog (todo(i := Release ?l # ?rest)) (holder(?l := Some i))" .
  from lock_run.release [OF this, of i ?l ?rest]
  have "lock_run prog (todo(i := ?rest)) (holder(?l := None))" by simp
  moreover have "holder(?l := None) = holder" using free by (simp add: fun_upd_idem)
  ultimately have "lock_run prog (todo(i := ?rest)) holder" by simp
  from Cons.IH [OF this] Cons.prems(3)
  have "lock_run prog ((todo(i := ?rest))(i := cs)) holder" by fastforce
  then show ?case by (simp only: fun_upd_upd)
qed

section \<open>Properties\<close>

text \<open>
  The poll thread and a thread that kills an event can wait for each other for ever: the poll
  thread takes the lock of a timeout list before the locks of the sockets on it, every other user
  of the list takes the socket lock first.  For every event on a list that is due, there is an
  interleaving of \<^verbatim>\<open>SocketEventKill()\<close> with the timeout phase in which neither ever continues.
\<close>
theorem timeout_lock_order_deadlock:
  assumes inv: "wheel_inv w L" and e: "e \<in> set (L k)"
    and prog: "prog = (\<lambda>i. if i = 0 then unlist_locks k (L k) else if i = 1 then kill_locks w e else [])"
  shows "\<exists>todo holder. lock_run prog todo holder \<and> deadlocked {0, 1} todo holder"
proof -
  let ?s = "Slock (ev_sock e)"
  from e obtain es1 f es2 where L: "L k = es1 @ f # es2" and f: "ev_sock f = ev_sock e"
    and first: "\<forall>g \<in> set es1. ev_sock g \<noteq> ev_sock e"
    using split_list_first_prop [of "L k" "\<lambda>g. ev_sock g = ev_sock e"] by blast
  have k: "timeoutList w e = Some k" using wheelD(2) [OF wheel_invD(1) [OF inv]] e by simp
  let ?walk = "\<lambda>es. concat (map (\<lambda>e. [Acquire (Slock (ev_sock e)), Release (Slock (ev_sock e))]) es)"
  let ?r0 = "Acquire ?s # Release ?s # ?walk es2 @ [Release (Tlock k)]"
  let ?r1 = "[Acquire (Tlock k), Release (Tlock k), Release ?s]"
  have p0: "prog 0 = Acquire (Tlock k) # ?walk es1 @ ?r0"
    using f by (simp add: prog unlist_locks_def L)
  have p1: "prog 1 = Acquire ?s # ?r1" by (simp add: prog kill_locks_def k)
  have "lock_run prog (prog(0 := ?walk es1 @ ?r0)) ((\<lambda>_. None)(Tlock k := Some 0))"
    by (rule lock_run.acquire [where holder = "\<lambda>_. None" and todo = prog and i = 0, OF lock_run.begin_run p0]) simp
  from lock_run.acquire [OF this, of 1 ?s ?r1] p1
  have "lock_run prog (prog(0 := ?walk es1 @ ?r0, 1 := ?r1))
          ((\<lambda>_. None)(Tlock k := Some 0, ?s := Some 1))" by simp
  from walk_free [OF this, of 0 es1 ?r0] first
  have "lock_run prog ((prog(0 := ?walk es1 @ ?r0, 1 := ?r1))(0 := ?r0))
          ((\<lambda>_. None)(Tlock k := Some 0, ?s := Some 1))" by auto
  moreover have "deadlocked {0, 1} ((prog(0 := ?walk es1 @ ?r0, 1 := ?r1))(0 := ?r0))
      ((\<lambda>_. None)(Tlock k := Some 0, ?s := Some 1))"
    by (simp add: deadlocked_def)
  ultimately show ?thesis by blast
qed

lemma lock_order_witness:
  "\<exists>todo holder. lock_run
       (\<lambda>i. if i = 0 then unlist_locks (TL PollIn 4) [demo_event]
            else if i = 1 then kill_locks (demo_waiting 100 5000) demo_event else []) todo holder \<and>
     deadlocked {0, 1} todo holder"
proof -
  have s: "timeout_slot 100 5000 = 4"
    by (simp add: timeout_slot_def sdiv_nonneg TIMEOUT_INDEX_nonneg)
  note demo = demo_waiting_inv [of 5000 100, unfolded s]
  have l: "((\<lambda>_. [])(TL PollIn 4 := [demo_event])) (TL PollIn 4) = [demo_event]" by simp
  from timeout_lock_order_deadlock [OF demo, of demo_event "TL PollIn 4", unfolded l]
  show ?thesis by (simp only: refl) simp
qed

text \<open>
  Between the two loops of the timeout phase the events are on no list and the locks are free.  An
  event that comes out of epoll then, and is submitted again by its owner, is completed by the
  second loop: the new wait ends with \<^verbatim>\<open>ETIMEDOUT\<close> although its own time has only begun.
\<close>
lemma expire_hits_new_wait:
  assumes "has (se_flags (event_at w e)) FSE_IN_ENGINE"
  shows "fst (expire_event e w)" "se_error (event_at (snd (expire_event e w)) e) = ETIMEDOUT"
  using assms by (simp_all add: expire_event_spec SocketEventComplete_keeps)

end
