(* ===== verification/AcceptCache.thy ===== *)
theory AcceptCache
  imports Prelude
begin

text \<open>
  The cache of accept events of the epoll engine (\<^verbatim>\<open>src/src/sockcommon.c\<close>, \<^verbatim>\<open>sockunix.c\<close>): a
  singly linked list under a lock, with a pointer to the cell that ends it, and in front of it an
  array of five events that only the poll thread of the listeners touches.  The sixth cell of the
  array is never written and stops every loop.
\<close>

section \<open>State\<close>

text \<open>\<^verbatim>\<open>ListMember **tail\<close> points to the head of the list or to the \<^verbatim>\<open>next\<close> of a member.\<close>

datatype tail_cell = Head_cell | Next_cell ptr

record AcceptEventCache =
  safe_head :: "ptr option"
  safe_tail :: tail_cell
  ae_next :: "ptr \<Rightarrow> ptr option"
  fastList :: "ptr option list"
  ae_index :: nat                   \<comment> \<open>\<^verbatim>\<open>next\<close>\<close>
  ae_memory :: "ptr option list"    \<comment> \<open>what \<^verbatim>\<open>MemMalloc()\<close> will answer, one by one\<close>

abbreviation (input) ACCEPT_EVENT_FAST_CACHE_SIZE :: nat where "ACCEPT_EVENT_FAST_CACHE_SIZE \<equiv> 5"

section \<open>Operations\<close>

definition AECInit :: "ptr option list \<Rightarrow> AcceptEventCache" where
  "AECInit mem = \<lparr>safe_head = None, safe_tail = Head_cell, ae_next = (\<lambda>_. None),
     fastList = replicate (ACCEPT_EVENT_FAST_CACHE_SIZE + 1) None,
     ae_index = ACCEPT_EVENT_FAST_CACHE_SIZE, ae_memory = mem\<rparr>"

definition AEMalloc :: "AcceptEventCache \<Rightarrow> ptr option \<times> AcceptEventCache" where
  "AEMalloc c =
     (case ae_memory c of [] \<Rightarrow> (None, c) | a # mem \<Rightarrow> (a, c\<lparr>ae_memory := mem\<rparr>))"

definition acceptEventPop :: "AcceptEventCache \<Rightarrow> ptr option \<times> AcceptEventCache" where
  "acceptEventPop c =
     (case safe_head c of
        None \<Rightarrow> (None, c)
      | Some ae \<Rightarrow>
          (let c1 = c\<lparr>safe_head := ae_next c ae\<rparr>
           in (Some ae, if safe_head c1 = None then c1\<lparr>safe_tail := Head_cell\<rparr> else c1)))"

definition acceptEventAlloc :: "AcceptEventCache \<Rightarrow> ptr option \<times> AcceptEventCache" where
  "acceptEventAlloc c =
     (case acceptEventPop c of
        (Some ae, c1) \<Rightarrow> (Some ae, c1)
      | (None, c1) \<Rightarrow> AEMalloc c1)"

definition acceptEventRelease :: "ptr \<Rightarrow> AcceptEventCache \<Rightarrow> AcceptEventCache" where
  "acceptEventRelease ae c =
     (let c1 = c\<lparr>ae_next := (ae_next c)(ae := None)\<rparr>;
          c2 = (case safe_tail c1 of
                  Head_cell \<Rightarrow> c1\<lparr>safe_head := Some ae\<rparr>
                | Next_cell l \<Rightarrow> c1\<lparr>ae_next := (ae_next c1)(l := Some ae)\<rparr>)
      in c2\<lparr>safe_tail := Next_cell ae\<rparr>)"

text \<open>The two loops of \<^verbatim>\<open>AECRefill()\<close>; \<open>get\<close> is where an event comes from.\<close>

function refill_loop ::
    "(AcceptEventCache \<Rightarrow> ptr option \<times> AcceptEventCache) \<Rightarrow> nat \<Rightarrow> AcceptEventCache \<Rightarrow>
     AcceptEventCache" where
  "refill_loop get n c =
     (if n = 0 then c\<lparr>ae_index := n\<rparr>
      else (case get c of
              (a, c1) \<Rightarrow>
                (let c2 = c1\<lparr>fastList := (fastList c1)[n - 1 := a]\<rparr>
                 in if a = None then c2\<lparr>ae_index := n\<rparr> else refill_loop get (n - 1) c2)))"
  by pat_completeness auto
termination by (relation "measure (\<lambda>(get, n, c). n)") auto

definition AECRefill :: "AcceptEventCache \<Rightarrow> AcceptEventCache" where
  "AECRefill c =
     (if ae_index c > 0
      then (let c1 = refill_loop acceptEventPop (ae_index c) c
            in refill_loop AEMalloc (ae_index c1) c1)
      else c)"

text \<open>Reading the array; \<open>None\<close>: the index is outside.\<close>

definition fast_at :: "AcceptEventCache \<Rightarrow> ptr option option" where
  "fast_at c = (if ae_index c < length (fastList c) then Some (fastList c ! ae_index c) else None)"

text \<open>\<open>None\<close>: the array was read outside its bounds.\<close>

function AECFlush :: "AcceptEventCache \<Rightarrow> AcceptEventCache option" where
  "AECFlush c =
     (case fast_at c of
        None \<Rightarrow> None
      | Some None \<Rightarrow> Some c
      | Some (Some ae) \<Rightarrow>
          AECFlush ((acceptEventRelease ae c)\<lparr>fastList := (fastList c)[ae_index c := None],
                                              ae_index := ae_index c + 1\<rparr>))"
  by pat_completeness auto
termination
  by (relation "measure (\<lambda>c. length (fastList c) - ae_index c)")
    (auto simp: fast_at_def split: if_splits)

definition acceptEventAcquire ::
    "AcceptEventCache \<Rightarrow> (ptr option \<times> AcceptEventCache) option" where
  "acceptEventAcquire c =
     (case fast_at c of
        None \<Rightarrow> None
      | Some (Some ae) \<Rightarrow>
          Some (Some ae, c\<lparr>fastList := (fastList c)[ae_index c := None], ae_index := ae_index c + 1\<rparr>)
      | Some None \<Rightarrow> Some (acceptEventAlloc c))"

text \<open>\<^verbatim>\<open>AECShutdown()\<close> frees what is on the list; the result is what was freed, in order.\<close>

partial_function (option) shutdown_loop ::
    "ptr list \<Rightarrow> AcceptEventCache \<Rightarrow> (ptr list \<times> AcceptEventCache) option" where
  "shutdown_loop freed c =
     (case safe_head c of
        None \<Rightarrow> Some (freed, c)
      | Some ae \<Rightarrow>
          (let c1 = c\<lparr>safe_head := ae_next c ae\<rparr>
           in if safe_head c1 = None
              then Some (freed @ [ae], c1\<lparr>safe_tail := Head_cell\<rparr>)
              else shutdown_loop (freed @ [ae]) c1))"

definition AECShutdown :: "AcceptEventCache \<Rightarrow> (ptr list \<times> AcceptEventCache) option" where
  "AECShutdown c = shutdown_loop [] c"

section \<open>What the cache holds\<close>

text \<open>
  \<open>cache c xs fs\<close>: the list holds \<open>xs\<close> in order, the array holds \<open>fs\<close>; the cells before the index
  and the last cell are empty; no event is there twice.
\<close>

definition cache :: "AcceptEventCache \<Rightarrow> ptr list \<Rightarrow> ptr list \<Rightarrow> bool" where
  "cache c xs fs \<longleftrightarrow>
     chain (ae_next c) (safe_head c) xs \<and>
     safe_tail c = (if xs = [] then Head_cell else Next_cell (last xs)) \<and>
     fastList c = replicate (ae_index c) None @ map Some fs @ [None] \<and>
     ae_index c + length fs = ACCEPT_EVENT_FAST_CACHE_SIZE \<and>
     distinct (xs @ fs)"

text \<open>What \<^verbatim>\<open>MemMalloc()\<close> promises: a new block is none of the blocks in use.\<close>

definition fresh_memory :: "ptr set \<Rightarrow> ptr option list \<Rightarrow> bool" where
  "fresh_memory used mem \<longleftrightarrow> distinct (filter (\<lambda>a. a \<noteq> None) mem) \<and>
     (\<forall>a \<in> used. Some a \<notin> set mem)"

lemma cacheD:
  assumes "cache c xs fs"
  shows "chain (ae_next c) (safe_head c) xs"
    "safe_tail c = (if xs = [] then Head_cell else Next_cell (last xs))"
    "fastList c = replicate (ae_index c) None @ map Some fs @ [None]"
    "ae_index c + length fs = 5" "distinct (xs @ fs)"
  using assms by (simp_all add: cache_def)

lemma AECInit_cache: "cache (AECInit mem) [] []"
  by (simp add: cache_def AECInit_def eval_nat_numeral)

lemma acceptEventPop_cache:
  assumes "cache c xs fs"
  shows "case xs of
      [] \<Rightarrow> acceptEventPop c = (None, c)
    | x # ys \<Rightarrow> (\<exists>c'. acceptEventPop c = (Some x, c') \<and> cache c' ys fs \<and>
                      ae_memory c' = ae_memory c \<and> ae_index c' = ae_index c \<and>
                      fastList c' = fastList c)"
proof (cases xs)
  case Nil
  with assms show ?thesis by (simp add: cache_def acceptEventPop_def)
next
  case (Cons x ys)
  with assms show ?thesis
    by (cases ys) (auto simp: cache_def acceptEventPop_def)
qed

lemma acceptEventRelease_cache:
  assumes c: "cache c xs fs" and ae: "ae \<notin> set xs" "ae \<notin> set fs"
  shows "cache (acceptEventRelease ae c) (xs @ [ae]) fs"
    "ae_index (acceptEventRelease ae c) = ae_index c"
    "ae_memory (acceptEventRelease ae c) = ae_memory c"
    "fastList (acceptEventRelease ae c) = fastList c"
proof -
  show "cache (acceptEventRelease ae c) (xs @ [ae]) fs"
  proof (cases "xs = []")
    case True
    with c ae show ?thesis by (simp add: cache_def acceptEventRelease_def)
  next
    case False
    with c ae chain_snoc [of "ae_next c" "safe_head c" xs ae] show ?thesis
      by (simp add: cache_def acceptEventRelease_def)
  qed
qed (simp_all add: acceptEventRelease_def Let_def split: tail_cell.splits)

lemma acceptEventAcquire_fast:
  assumes "cache c xs (f # fs)"
  shows "\<exists>c'. acceptEventAcquire c = Some (Some f, c') \<and> cache c' xs fs \<and> ae_memory c' = ae_memory c"
proof -
  let ?n = "ae_index c"
  note d = cacheD [OF assms]
  have at: "fast_at c = Some (Some f)" using d(3,4) by (simp add: fast_at_def nth_append)
  have "(fastList c)[?n := None] = replicate (Suc ?n) None @ map Some fs @ [None]"
    unfolding d(3) by (simp add: list_update_append replicate_append_same [symmetric]
        del: replicate_Suc) (simp add: replicate_app_Cons_same)
  with d at show ?thesis by (simp add: acceptEventAcquire_def cache_def)
qed

lemma acceptEventAcquire_empty:
  assumes "cache c xs []"
  shows "acceptEventAcquire c = Some (acceptEventAlloc c)"
  using cacheD(3,4) [OF assms] by (simp add: acceptEventAcquire_def fast_at_def nth_append)


section \<open>The loops\<close>

lemma fast_cells:
  assumes "cache (c\<lparr>ae_index := Suc n\<rparr>) xs fs"
  shows "fastList c = replicate n None @ None # map Some fs @ [None]"
  using cacheD(3) [OF assms] replicate_app_Cons_same [of n None "map Some fs @ [None]"] by simp

lemma fast_fill:
  assumes "cache (c\<lparr>ae_index := Suc n\<rparr>) xs fs" "a \<notin> set xs" "a \<notin> set fs"
  shows "cache (c\<lparr>fastList := (fastList c)[n := Some a], ae_index := n\<rparr>) xs (a # fs)"
proof -
  have "(fastList c)[n := Some a] = replicate n None @ Some a # map Some fs @ [None]"
    using fast_cells [OF assms(1)] by (simp add: list_update_append)
  with cacheD [OF assms(1)] assms(2,3) show ?thesis by (simp add: cache_def)
qed

lemma fast_fill_none:
  assumes "cache (c\<lparr>ae_index := Suc n\<rparr>) xs fs"
  shows "(fastList c)[n := None] = fastList c"
  using fast_cells [OF assms] by (simp add: list_update_append)

lemma cache_memory [simp]: "cache (c\<lparr>ae_memory := mem\<rparr>) xs fs = cache c xs fs"
  by (simp add: cache_def)

declare refill_loop.simps [simp del] AECFlush.simps [simp del]

lemma acceptEventPop_Cons:
  assumes "cache c (x # ys) fs"
  obtains c' where "acceptEventPop c = (Some x, c')" "cache c' ys fs"
    "ae_memory c' = ae_memory c" "ae_index c' = ae_index c" "fastList c' = fastList c"
  using acceptEventPop_cache [OF assms] by auto

lemma acceptEventPop_index:
  "acceptEventPop (c\<lparr>ae_index := n\<rparr>) = (a, c') \<Longrightarrow>
     acceptEventPop c = (a, c'\<lparr>ae_index := ae_index c\<rparr>)"
  by (auto simp: acceptEventPop_def Let_def split: option.splits if_splits)

lemma refill_safe:
  assumes "cache (c\<lparr>ae_index := n\<rparr>) xs fs"
  shows "cache (refill_loop acceptEventPop n c) (drop n xs) (rev (take n xs) @ fs) \<and>
     ae_memory (refill_loop acceptEventPop n c) = ae_memory c \<and>
     ae_index (refill_loop acceptEventPop n c) = n - length xs"
  using assms
proof (induction n arbitrary: c xs fs)
  case 0
  then show ?case by (simp add: refill_loop.simps)
next
  case (Suc n)
  show ?case
  proof (cases xs)
    case Nil
    have "acceptEventPop c = (None, c)"
      using acceptEventPop_cache [OF Suc.prems] Nil by (auto dest: acceptEventPop_index)
    then have "refill_loop acceptEventPop (Suc n) c = c\<lparr>ae_index := Suc n\<rparr>"
      using fast_fill_none [OF Suc.prems] by (subst refill_loop.simps) simp
    with Suc.prems Nil show ?thesis by simp
  next
    case (Cons x ys)
    obtain c1 where p: "acceptEventPop (c\<lparr>ae_index := Suc n\<rparr>) = (Some x, c1)" "cache c1 ys fs"
      "ae_memory c1 = ae_memory c" "ae_index c1 = Suc n" "fastList c1 = fastList c"
      using acceptEventPop_Cons [OF Suc.prems [unfolded Cons]] by (metis select_convs(6) ext_inject surjective update_convs(5) select_convs(4,5))
    have "distinct (x # ys @ fs)" using cacheD(5) [OF Suc.prems] Cons by simp
    let ?c2 = "c1\<lparr>ae_index := ae_index c, fastList := (fastList c)[n := Some x]\<rparr>"
    have "cache (?c2\<lparr>ae_index := n\<rparr>) ys (x # fs)"
      using fast_fill [where c = c1 and n = n and xs = ys and fs = fs and a = x] p \<open>distinct _\<close>
      by (simp add: cache_def)
    from Suc.IH [OF this] have ih: "cache (refill_loop acceptEventPop n ?c2) (drop n ys) (rev (take n ys) @ x # fs)"
      "ae_memory (refill_loop acceptEventPop n ?c2) = ae_memory c"
      "ae_index (refill_loop acceptEventPop n ?c2) = n - length ys" using p(3) by simp_all
    have "refill_loop acceptEventPop (Suc n) c = refill_loop acceptEventPop n ?c2"
      using acceptEventPop_index [OF p(1)] p(5) by (subst refill_loop.simps) simp
    with ih Cons show ?thesis by simp
  qed
qed

lemma fresh_memory_Cons:
  assumes "fresh_memory U (Some a # mem)"
  shows "a \<notin> U" "fresh_memory (insert a U) mem"
  using assms by (auto simp: fresh_memory_def)

lemma fresh_memory_None: "fresh_memory U (None # mem) \<longleftrightarrow> fresh_memory U mem"
  by (auto simp: fresh_memory_def)

text \<open>How far the second loop gets: until the array is full or the memory is exhausted.\<close>

definition took :: "ptr list \<Rightarrow> nat \<Rightarrow> ptr option list \<Rightarrow> ptr option list \<Rightarrow> bool" where
  "took gs n mem mem' \<longleftrightarrow>
     length gs = n \<and> mem = map Some gs @ mem' \<or>
     length gs < n \<and> (mem = map Some gs @ None # mem' \<or> mem = map Some gs \<and> mem' = [])"

lemma refill_malloc:
  assumes "cache (c\<lparr>ae_index := n\<rparr>) xs fs" "fresh_memory U (ae_memory c)" "set xs \<union> set fs \<subseteq> U"
  shows "\<exists>gs. cache (refill_loop AEMalloc n c) xs (rev gs @ fs) \<and>
     took gs n (ae_memory c) (ae_memory (refill_loop AEMalloc n c)) \<and>
     fresh_memory (U \<union> set gs) (ae_memory (refill_loop AEMalloc n c)) \<and>
     set gs \<inter> U = {} \<and> ae_index (refill_loop AEMalloc n c) = n - length gs"
  using assms
proof (induction n arbitrary: c fs U)
  case 0
  then show ?case by (intro exI [of _ "[]"]) (simp add: refill_loop.simps took_def)
next
  case (Suc n)
  show ?case
  proof (cases "ae_memory c")
    case Nil
    then have "refill_loop AEMalloc (Suc n) c = c\<lparr>ae_index := Suc n\<rparr>"
      using fast_fill_none [OF Suc.prems(1)] by (subst refill_loop.simps) (simp add: AEMalloc_def)
    with Suc.prems Nil show ?thesis by (intro exI [of _ "[]"]) (simp add: took_def)
  next
    case (Cons a mem)
    show ?thesis
    proof (cases a)
      case None
      then have "refill_loop AEMalloc (Suc n) c = c\<lparr>ae_memory := mem, ae_index := Suc n\<rparr>"
        using Cons fast_fill_none [OF Suc.prems(1)] by (subst refill_loop.simps) (simp add: AEMalloc_def)
      with Suc.prems Cons None show ?thesis
        by (intro exI [of _ "[]"]) (simp add: took_def fresh_memory_None cache_def)
    next
      case (Some g)
      let ?c2 = "c\<lparr>ae_memory := mem, fastList := (fastList c)[n := Some g]\<rparr>"
      have g: "g \<notin> U" "fresh_memory (insert g U) mem"
        using fresh_memory_Cons Suc.prems(2) Cons Some by auto
      have "cache (?c2\<lparr>ae_index := n\<rparr>) xs (g # fs)"
      proof -
        have "g \<notin> set xs" "g \<notin> set fs" using g(1) Suc.prems(3) by auto
        from fast_fill [OF Suc.prems(1) this] show ?thesis by (simp add: cache_def)
      qed
      from Suc.IH [OF this, of "insert g U"] g(2) Suc.prems(3) obtain gs where gs:
        "cache (refill_loop AEMalloc n ?c2) xs (rev gs @ g # fs)"
        "took gs n mem (ae_memory (refill_loop AEMalloc n ?c2))"
        "fresh_memory (insert g U \<union> set gs) (ae_memory (refill_loop AEMalloc n ?c2))"
        "set gs \<inter> insert g U = {}" "ae_index (refill_loop AEMalloc n ?c2) = n - length gs" by auto
      have "refill_loop AEMalloc (Suc n) c = refill_loop AEMalloc n ?c2"
        using Cons Some by (subst refill_loop.simps) (simp add: AEMalloc_def)
      moreover have "took (g # gs) (Suc n) (ae_memory c) (ae_memory (refill_loop AEMalloc n ?c2))"
        using gs(2) Cons Some by (auto simp: took_def)
      ultimately show ?thesis
        using gs g by (intro exI [of _ "g # gs"]) (auto simp: insert_commute Un_insert_left)
    qed
  qed
qed

lemma AECFlush_cache:
  assumes "cache c xs fs"
  shows "\<exists>c'. AECFlush c = Some c' \<and> cache c' (xs @ fs) [] \<and> ae_memory c' = ae_memory c"
  using assms
proof (induction fs arbitrary: c xs)
  case Nil
  then show ?case
    by (subst AECFlush.simps) (simp add: fast_at_def cache_def nth_append)
next
  case (Cons f fs)
  note d = cacheD [OF Cons.prems]
  let ?c = "(acceptEventRelease f c)\<lparr>fastList := (fastList c)[ae_index c := None], ae_index := ae_index c + 1\<rparr>"
  obtain c1 where a: "acceptEventAcquire c = Some (Some f, c1)" "cache c1 xs fs"
    using acceptEventAcquire_fast [OF Cons.prems] by blast
  have at: "fast_at c = Some (Some f)" using d(3,4) by (simp add: fast_at_def nth_append)
  have c1: "c1 = c\<lparr>fastList := (fastList c)[ae_index c := None], ae_index := ae_index c + 1\<rparr>"
    using a(1) at by (simp add: acceptEventAcquire_def)
  have eq: "?c = acceptEventRelease f c1"
    by (simp add: c1 acceptEventRelease_def Let_def split: tail_cell.splits)
  have "cache ?c (xs @ [f]) fs" unfolding eq using acceptEventRelease_cache(1) [OF a(2)] d(5) by simp
  from Cons.IH [OF this] show ?case
    using at by (subst AECFlush.simps) (auto simp: acceptEventRelease_def Let_def split: tail_cell.splits)
qed

lemma shutdown_loop_chain:
  assumes "chain (ae_next c) (safe_head c) xs"
  shows "\<exists>c'. shutdown_loop acc c = Some (acc @ xs, c') \<and> safe_head c' = None"
  using assms
proof (induction xs arbitrary: acc c)
  case Nil
  then show ?case by (subst shutdown_loop.simps) simp
next
  case (Cons x xs)
  let ?c = "c\<lparr>safe_head := ae_next c x\<rparr>"
  show ?case
  proof (cases xs)
    case Nil
    with Cons.prems show ?thesis by (subst shutdown_loop.simps) simp
  next
    case (Cons y ys)
    with Cons.prems Cons.IH [of ?c "acc @ [x]"] show ?thesis
      by (subst shutdown_loop.simps) (auto simp: Let_def)
  qed
qed


lemma cache_index_id: "cache (c\<lparr>ae_index := ae_index c\<rparr>) xs fs = cache c xs fs"
  by simp

lemma took_zero [simp]: "took [] 0 mem mem' \<longleftrightarrow> mem = mem'"
  by (auto simp: took_def)

lemma AECRefill_cache:
  assumes c: "cache c xs fs" and fresh: "fresh_memory U (ae_memory c)" and U: "set xs \<union> set fs \<subseteq> U"
  shows "\<exists>gs. cache (AECRefill c) (drop (ae_index c) xs) (rev gs @ rev (take (ae_index c) xs) @ fs) \<and>
     took gs (ae_index c - length xs) (ae_memory c) (ae_memory (AECRefill c)) \<and>
     fresh_memory (U \<union> set gs) (ae_memory (AECRefill c)) \<and> set gs \<inter> U = {}"
proof (cases "ae_index c = 0")
  case True
  with c fresh show ?thesis by (intro exI [of _ "[]"]) (simp add: AECRefill_def)
next
  case False
  let ?n = "ae_index c" and ?c1 = "refill_loop acceptEventPop (ae_index c) c"
  have s: "cache ?c1 (drop ?n xs) (rev (take ?n xs) @ fs)" "ae_memory ?c1 = ae_memory c"
    "ae_index ?c1 = ?n - length xs"
    using refill_safe [of ?n c xs fs] c by simp_all
  have sub: "set (drop ?n xs) \<union> set (rev (take ?n xs) @ fs) \<subseteq> U"
    using U set_take_subset set_drop_subset by fastforce
  have "AECRefill c = refill_loop AEMalloc (ae_index ?c1) ?c1"
    using False by (simp add: AECRefill_def Let_def)
  moreover have "cache (?c1\<lparr>ae_index := ae_index ?c1\<rparr>) (drop ?n xs) (rev (take ?n xs) @ fs)"
    using s(1) by simp
  from refill_malloc [OF this, of U] fresh sub obtain gs where
    "cache (refill_loop AEMalloc (ae_index ?c1) ?c1) (drop ?n xs) (rev gs @ rev (take ?n xs) @ fs)"
    "took gs (ae_index ?c1) (ae_memory ?c1) (ae_memory (refill_loop AEMalloc (ae_index ?c1) ?c1))"
    "fresh_memory (U \<union> set gs) (ae_memory (refill_loop AEMalloc (ae_index ?c1) ?c1))"
    "set gs \<inter> U = {}"
    by (auto simp: s(2))
  ultimately show ?thesis using s(2,3) by auto
qed

text \<open>An event is handed out: one that the cache holds, or a new one.\<close>

definition handed ::
    "AcceptEventCache \<Rightarrow> ptr list \<Rightarrow> ptr list \<Rightarrow> ptr option \<Rightarrow> AcceptEventCache \<Rightarrow> bool" where
  "handed c xs fs a c' \<longleftrightarrow>
     (\<exists>xs' fs' b. a = Some b \<and> cache c' xs' fs' \<and> ae_memory c' = ae_memory c \<and>
        b \<notin> set xs' \<union> set fs' \<and> set xs \<union> set fs = insert b (set xs' \<union> set fs')) \<or>
     (cache c' xs fs \<and> xs = [] \<and>
        (case ae_memory c of [] \<Rightarrow> a = None \<and> ae_memory c' = []
         | m # ms \<Rightarrow> a = m \<and> ae_memory c' = ms))"

lemma acceptEventAlloc_cache:
  assumes c: "cache c xs fs"
  shows "\<exists>a c'. acceptEventAlloc c = (a, c') \<and> handed c xs fs a c'"
proof (cases xs)
  case (Cons x ys)
  obtain c' where p: "acceptEventPop c = (Some x, c')" "cache c' ys fs" "ae_memory c' = ae_memory c"
    using acceptEventPop_Cons [OF c [unfolded Cons]] by blast
  have "acceptEventAlloc c = (Some x, c')" using p(1) by (simp add: acceptEventAlloc_def)
  moreover have "x \<notin> set ys \<union> set fs" using cacheD(5) [OF c] Cons by simp
  ultimately show ?thesis using p(2,3) Cons
    by (intro exI [of _ "Some x"] exI [of _ c']) (auto simp: handed_def)
next
  case Nil
  have "acceptEventPop c = (None, c)" using acceptEventPop_cache [OF c] Nil by simp
  then have "acceptEventAlloc c = AEMalloc c" by (simp add: acceptEventAlloc_def)
  with c Nil show ?thesis by (auto simp: AEMalloc_def handed_def split: list.splits)
qed

lemma acceptEventAcquire_cache:
  assumes c: "cache c xs fs"
  shows "\<exists>a c'. acceptEventAcquire c = Some (a, c') \<and> handed c xs fs a c' \<and> (a = None \<longrightarrow> fs = [])"
proof (cases fs)
  case (Cons f fs')
  obtain c' where "acceptEventAcquire c = Some (Some f, c')" "cache c' xs fs'" "ae_memory c' = ae_memory c"
    using acceptEventAcquire_fast [OF c [unfolded Cons]] by blast
  moreover have "f \<notin> set xs \<union> set fs'" using cacheD(5) [OF c] Cons by simp
  ultimately show ?thesis using Cons
    by (intro exI [of _ "Some f"] exI [of _ c']) (auto simp: handed_def)
next
  case Nil
  with acceptEventAlloc_cache [OF c] acceptEventAcquire_empty [OF c [unfolded Nil]] show ?thesis by auto
qed

section \<open>Accept events in circulation\<close>

text \<open>
  \<open>ae_run mem c out\<close>: the cache was initialised when \<^verbatim>\<open>MemMalloc()\<close> was going to answer \<open>mem\<close>, and
  has since been refilled, emptied into the list, and asked for events by the poll thread; \<open>out\<close>
  are the events that were handed out and are not back yet.  A worker thread gives its event back
  with \<^verbatim>\<open>acceptEventRelease()\<close>, at any time.
\<close>

inductive ae_run :: "ptr option list \<Rightarrow> AcceptEventCache \<Rightarrow> ptr set \<Rightarrow> bool"
  for mem :: "ptr option list" where
  init: "ae_run mem (AECInit mem) {}"
| acquire_some: "ae_run mem c out \<Longrightarrow> acceptEventAcquire c = Some (Some a, c') \<Longrightarrow>
     ae_run mem c' (insert a out)"
| acquire_none: "ae_run mem c out \<Longrightarrow> acceptEventAcquire c = Some (None, c') \<Longrightarrow> ae_run mem c' out"
| alloc_some: "ae_run mem c out \<Longrightarrow> acceptEventAlloc c = (Some a, c') \<Longrightarrow> ae_run mem c' (insert a out)"
| alloc_none: "ae_run mem c out \<Longrightarrow> acceptEventAlloc c = (None, c') \<Longrightarrow> ae_run mem c' out"
| give_back: "ae_run mem c out \<Longrightarrow> a \<in> out \<Longrightarrow> ae_run mem (acceptEventRelease a c) (out - {a})"
| refill: "ae_run mem c out \<Longrightarrow> ae_run mem (AECRefill c) out"
| flush: "ae_run mem c out \<Longrightarrow> AECFlush c = Some c' \<Longrightarrow> ae_run mem c' out"

text \<open>Every event that was ever allocated is in the list, in the array or handed out, once.\<close>

definition ae_owned :: "ptr option list \<Rightarrow> AcceptEventCache \<Rightarrow> ptr set \<Rightarrow> ptr list \<Rightarrow> ptr list \<Rightarrow>
    ptr option list \<Rightarrow> bool" where
  "ae_owned mem c out xs fs got \<longleftrightarrow> cache c xs fs \<and> mem = got @ ae_memory c \<and>
     set xs \<union> set fs \<union> out = {a. Some a \<in> set got} \<and> out \<inter> (set xs \<union> set fs) = {}"

lemma fresh_rest:
  assumes "fresh_memory {} (got @ rest)"
  shows "fresh_memory {a. Some a \<in> set got} rest"
  using assms by (auto simp: fresh_memory_def)

lemma took_split:
  assumes "took gs n mem mem'"
  shows "\<exists>got. mem = got @ mem' \<and> {a. Some a \<in> set got} = set gs"
  using assms unfolding took_def
  by (auto intro: exI [of _ "map Some gs"] exI [of _ "map Some gs @ [None]"])

lemma handed_some:
  assumes o: "ae_owned mem c out xs fs got" and fresh: "fresh_memory {} mem"
    and h: "handed c xs fs (Some a) c'"
  shows "a \<notin> out \<and> (\<exists>xs' fs' got'. ae_owned mem c' (insert a out) xs' fs' got')"
  using h unfolding handed_def
proof (elim disjE)
  assume "\<exists>xs' fs' b. Some a = Some b \<and> cache c' xs' fs' \<and> ae_memory c' = ae_memory c \<and>
        b \<notin> set xs' \<union> set fs' \<and> set xs \<union> set fs = insert b (set xs' \<union> set fs')"
  then obtain xs' fs' where n: "cache c' xs' fs'" "ae_memory c' = ae_memory c"
    "a \<notin> set xs' \<union> set fs'" "set xs \<union> set fs = insert a (set xs' \<union> set fs')" by blast
  from o n(4) have "a \<notin> out" by (auto simp: ae_owned_def)
  moreover have "ae_owned mem c' (insert a out) xs' fs' got"
    using o n unfolding ae_owned_def by auto
  ultimately show ?thesis by blast
next
  assume "cache c' xs fs \<and> xs = [] \<and> (case ae_memory c of [] \<Rightarrow> Some a = None \<and> ae_memory c' = []
         | m # ms \<Rightarrow> Some a = m \<and> ae_memory c' = ms)"
  then have n: "cache c' xs fs" "ae_memory c = Some a # ae_memory c'" by (auto split: list.splits)
  have "fresh_memory {a. Some a \<in> set got} (ae_memory c)"
    using fresh o fresh_rest by (auto simp: ae_owned_def)
  then have "Some a \<notin> set got" using n(2) by (auto simp: fresh_memory_def)
  then have out: "a \<notin> out" "a \<notin> set xs \<union> set fs" using o by (auto simp: ae_owned_def)
  have "ae_owned mem c' (insert a out) xs fs (got @ [Some a])"
    using o n out by (auto simp: ae_owned_def)
  with out show ?thesis by blast
qed

lemma handed_none:
  assumes o: "ae_owned mem c out xs fs got" and h: "handed c xs fs None c'"
  shows "\<exists>got'. ae_owned mem c' out xs fs got'"
proof -
  from h have n: "cache c' xs fs" "ae_memory c = ae_memory c' \<or> ae_memory c = None # ae_memory c'"
    by (auto simp: handed_def split: list.splits)
  from n(2) show ?thesis
  proof
    assume "ae_memory c = ae_memory c'"
    with o n have "ae_owned mem c' out xs fs got" by (simp add: ae_owned_def)
    then show ?thesis by blast
  next
    assume "ae_memory c = None # ae_memory c'"
    with o n have "ae_owned mem c' out xs fs (got @ [None])" by (simp add: ae_owned_def)
    then show ?thesis by blast
  qed
qed

lemma ae_run_owned:
  assumes "ae_run mem c out" and fresh: "fresh_memory {} mem"
  shows "\<exists>xs fs got. ae_owned mem c out xs fs got"
  using assms(1)
proof (induction rule: ae_run.induct)
  case init
  have "ae_owned mem (AECInit mem) {} [] [] []"
    using AECInit_cache [of mem] by (simp add: ae_owned_def) (simp add: AECInit_def)
  then show ?case by blast
next
  case (acquire_some c out a c')
  then obtain xs fs got where o: "ae_owned mem c out xs fs got" by blast
  then have "handed c xs fs (Some a) c'"
    using acceptEventAcquire_cache [of c xs fs] acquire_some(2) by (auto simp: ae_owned_def)
  from handed_some [OF o fresh this] show ?case by blast
next
  case (acquire_none c out c')
  then obtain xs fs got where o: "ae_owned mem c out xs fs got" by blast
  then have "handed c xs fs None c'"
    using acceptEventAcquire_cache [of c xs fs] acquire_none(2) by (auto simp: ae_owned_def)
  from handed_none [OF o this] show ?case by blast
next
  case (alloc_some c out a c')
  then obtain xs fs got where o: "ae_owned mem c out xs fs got" by blast
  then have "handed c xs fs (Some a) c'"
    using acceptEventAlloc_cache [of c xs fs] alloc_some(2) by (auto simp: ae_owned_def)
  from handed_some [OF o fresh this] show ?case by blast
next
  case (alloc_none c out c')
  then obtain xs fs got where o: "ae_owned mem c out xs fs got" by blast
  then have "handed c xs fs None c'"
    using acceptEventAlloc_cache [of c xs fs] alloc_none(2) by (auto simp: ae_owned_def)
  from handed_none [OF o this] show ?case by blast
next
  case (give_back c out a)
  then obtain xs fs got where o: "ae_owned mem c out xs fs got" by blast
  with give_back(2) have "a \<notin> set xs" "a \<notin> set fs" by (auto simp: ae_owned_def)
  with o acceptEventRelease_cache [of c xs fs a] give_back(2)
  have "ae_owned mem (acceptEventRelease a c) (out - {a}) (xs @ [a]) fs got"
    by (auto simp: ae_owned_def)
  then show ?case by blast
next
  case (refill c out)
  then obtain xs fs got where o: "cache c xs fs" "mem = got @ ae_memory c"
    "set xs \<union> set fs \<union> out = {a. Some a \<in> set got}" "out \<inter> (set xs \<union> set fs) = {}"
    by (auto simp: ae_owned_def)
  have fr: "fresh_memory {a. Some a \<in> set got} (ae_memory c)" using fresh o(2) fresh_rest by simp
  from AECRefill_cache [OF o(1) fr] o(3) obtain gs where r:
    "cache (AECRefill c) (drop (ae_index c) xs) (rev gs @ rev (take (ae_index c) xs) @ fs)"
    "took gs (ae_index c - length xs) (ae_memory c) (ae_memory (AECRefill c))"
    "set gs \<inter> {a. Some a \<in> set got} = {}" by auto
  from took_split [OF r(2)] obtain more_got where
    m: "ae_memory c = more_got @ ae_memory (AECRefill c)" "{a. Some a \<in> set more_got} = set gs" by blast
  have xs: "set (drop (ae_index c) xs) \<union> set (take (ae_index c) xs) = set xs"
    by (metis append_take_drop_id set_append sup_commute)
  have "ae_owned mem (AECRefill c) out (drop (ae_index c) xs)
          (rev gs @ rev (take (ae_index c) xs) @ fs) (got @ more_got)"
    using r o m xs by (auto simp: ae_owned_def dest: in_set_takeD in_set_dropD)
  then show ?case by blast
next
  case (flush c out c')
  then obtain xs fs got where o: "ae_owned mem c out xs fs got" by blast
  with AECFlush_cache [of c xs fs] flush(2)
  have "ae_owned mem c' out (xs @ fs) [] got" by (auto simp: ae_owned_def)
  then show ?case by blast
qed

section \<open>Properties\<close>

text \<open>
  C24. The poll thread never reads the array of cached accept events outside its bounds, and what
  it gets is its own: in every state the cache can reach, \<^verbatim>\<open>acceptEventAcquire()\<close> returns an event
  that is in no list, in no cell of the array and with no worker; it returns nothing only if the
  cache is empty and \<^verbatim>\<open>MemMalloc()\<close> fails.
\<close>
theorem accept_event_is_exclusive:
  assumes run: "ae_run mem c out" and fresh: "fresh_memory {} mem"
  shows "\<exists>a c' xs fs. acceptEventAcquire c = Some (a, c') \<and> cache c' xs fs \<and>
     (\<forall>b. a = Some b \<longrightarrow> b \<notin> out \<and> b \<notin> set xs \<and> b \<notin> set fs) \<and>
     (a = None \<longrightarrow> cache c [] [] \<and> (ae_memory c = [] \<or> hd (ae_memory c) = None))"
proof -
  from ae_run_owned [OF run fresh] obtain xs fs got where o: "ae_owned mem c out xs fs got" by blast
  then have c: "cache c xs fs" by (simp add: ae_owned_def)
  from acceptEventAcquire_cache [OF c] obtain a c' where
    acq: "acceptEventAcquire c = Some (a, c')" "handed c xs fs a c'" "a = None \<longrightarrow> fs = []" by blast
  show ?thesis
  proof (cases a)
    case None
    with acq(2,3) have "xs = [] \<and> fs = [] \<and> cache c' xs fs \<and> (ae_memory c = [] \<or> hd (ae_memory c) = None)"
      by (auto simp: handed_def split: list.splits)
    with acq(1) None c show ?thesis by auto
  next
    case (Some b)
    from handed_some [OF o fresh] acq(2) Some obtain xs' fs' got' where
      n: "b \<notin> out" "ae_owned mem c' (insert b out) xs' fs' got'" by blast
    then have "cache c' xs' fs'" "b \<notin> set xs'" "b \<notin> set fs'" by (auto simp: ae_owned_def)
    with acq(1) Some n(1) show ?thesis by (intro exI [of _ a] exI [of _ c'] exI [of _ xs'] exI [of _ fs']) simp
  qed
qed

text \<open>
  No accept event is lost: once every event that was handed out is back, flushing the array
  and shutting the cache down frees every event that was ever allocated, each exactly once.
\<close>
theorem accept_cache_frees_everything:
  assumes run: "ae_run mem c {}" and fresh: "fresh_memory {} mem"
  shows "\<exists>c1 freed c2 got. AECFlush c = Some c1 \<and> AECShutdown c1 = Some (freed, c2) \<and>
     mem = got @ ae_memory c \<and> distinct freed \<and> set freed = {a. Some a \<in> set got}"
proof -
  from ae_run_owned [OF run fresh] obtain xs fs got where o: "cache c xs fs" "mem = got @ ae_memory c"
    "set xs \<union> set fs = {a. Some a \<in> set got}" by (auto simp: ae_owned_def)
  from AECFlush_cache [OF o(1)] obtain c1 where c1: "AECFlush c = Some c1" "cache c1 (xs @ fs) []" by blast
  from shutdown_loop_chain [OF cacheD(1) [OF c1(2)], of "[]"] obtain c2 where
    "AECShutdown c1 = Some (xs @ fs, c2)" by (auto simp: AECShutdown_def)
  with o c1(1) cacheD(5) [OF o(1)] show ?thesis by auto
qed

definition demo_cache :: AcceptEventCache where
  "demo_cache = AECRefill (AECInit (map Some [11, 12, 13, 14, 15, 16] @ [None]))"

lemma demo_cache_run:
  "ae_run (map Some [11, 12, 13, 14, 15, 16] @ [None]) demo_cache {}"
  "fresh_memory {} (map Some [11, 12, 13, 14, 15, 16] @ [None])"
  unfolding demo_cache_def
  by (rule ae_run.refill, rule ae_run.init) (simp add: fresh_memory_def)

lemma accept_event_is_exclusive_witness:
  "\<exists>a c' xs fs. acceptEventAcquire demo_cache = Some (a, c') \<and> cache c' xs fs \<and>
     (\<forall>b. a = Some b \<longrightarrow> b \<notin> {} \<and> b \<notin> set xs \<and> b \<notin> set fs)"
  using accept_event_is_exclusive [OF demo_cache_run] by blast

lemma accept_cache_frees_everything_witness:
  "\<exists>c1 freed c2. AECFlush demo_cache = Some c1 \<and> AECShutdown c1 = Some (freed, c2) \<and> distinct freed"
  using accept_cache_frees_everything [OF demo_cache_run] by blast

end
