(* ===== verification/PollThread.thy ===== *)
theory PollThread
  imports WheelProps AcceptCache
begin

unbundle bit_operations_syntax

text \<open>
  The threads of the epoll engine (\<^verbatim>\<open>_PollThread()\<close> in \<^verbatim>\<open>src/src/sockunix.c\<close>), put together from the
  socket events, the timeout lists and the cache of accept events.  What the kernel reports, the
  clock and the engine's state as the thread reads it are arguments, one \<open>tick\<close> for every turn of
  the thread's loop; what the thread does with the locks released is between the ticks.
\<close>

section \<open>One event that epoll reports\<close>

record ready =
  rd_event :: sev
  rd_bits :: u32
  rd_accept :: int          \<comment> \<open>what \<^verbatim>\<open>accept()\<close> returns, if it is called\<close>
  rd_mod_err :: errno       \<comment> \<open>errno of \<^verbatim>\<open>epoll_ctl( EPOLL_CTL_MOD )\<close>\<close>
  rd_count_read :: nat      \<comment> \<open>\<^verbatim>\<open>AThreadCountRead()\<close>\<close>
  rd_count_update :: nat    \<comment> \<open>\<^verbatim>\<open>AThreadCountUpdate()\<close>\<close>

record tick =
  tk_ready :: "ready list"
  tk_time :: int

text \<open>
  \<open>poll_dispatch\<close> of theory \<open>SockEvent\<close> says what becomes of the socket.  The only way in which it
  takes away the timeout flag is \<^verbatim>\<open>SocketEventComplete()\<close>, which calls \<^verbatim>\<open>_SocketTimeoutDelete()\<close>.
\<close>

definition store_sock :: "sev \<Rightarrow> SOCK \<Rightarrow> engine \<Rightarrow> engine" where
  "store_sock e s w =
     (let before = has (se_flags (event_at w e)) FSE_TIMEOUT_PENDING;
          w1 = w\<lparr>en_sock := (en_sock w)(ev_sock e := s)\<rparr>
      in if before \<and> \<not> has (se_flags (event_at w1 e)) FSE_TIMEOUT_PENDING
         then (case timeoutList w1 e of Some k \<Rightarrow> unlink_event k e w1 | None \<Rightarrow> w1)
         else w1)"

definition dispatch_event :: "ready \<Rightarrow> bool \<Rightarrow> engine \<Rightarrow> bool \<times> bool \<times> engine" where
  "dispatch_event r ae w =
     (let e = rd_event r
      in case poll_dispatch (rd_accept r) (rd_mod_err r) (rd_count_read r) (rd_count_update r)
                (rd_bits r) (ev_slot e) ae (en_sock w (ev_sock e)) of
           (complete, ae1, s) \<Rightarrow> (complete, ae1, store_sock e s w))"

section \<open>The loop\<close>

text \<open>Threads that were started: on an event that is complete, or on an accepted connection.\<close>

datatype worker = Event_worker sev | Accept_worker ptr

record poll_state =
  ps_engine :: engine
  ps_cache :: AcceptEventCache
  ps_spare :: "ptr option"          \<comment> \<open>\<^verbatim>\<open>acceptEvent\<close>\<close>
  ps_begun :: "worker list"

definition handle_ready :: "poll \<Rightarrow> ready \<Rightarrow> poll_state \<Rightarrow> poll_state option" where
  "handle_ready p r s =
     (case dispatch_event r (ps_spare s \<noteq> None) (ps_engine s) of
        (complete, ae1, w) \<Rightarrow>
          (let accepted = (case ps_spare s of Some a \<Rightarrow> if ae1 then [] else [Accept_worker a] | None \<Rightarrow> []);
               spare = (if ae1 then ps_spare s else None);
               s1 = s\<lparr>ps_engine := w, ps_spare := spare,
                      ps_begun := ps_begun s @ accepted @
                        (if complete then [Event_worker (rd_event r)] else [])\<rparr>
           in if p = PollIn \<and> ps_spare s1 = None
              then map_option (\<lambda>(a, c). s1\<lparr>ps_spare := a, ps_cache := c\<rparr>)
                     (acceptEventAcquire (ps_cache s1))
              else Some s1))"

fun handle_all :: "poll \<Rightarrow> ready list \<Rightarrow> poll_state \<Rightarrow> poll_state option" where
  "handle_all p [] s = Some s"
| "handle_all p (r # rs) s =
     (case handle_ready p r s of None \<Rightarrow> None | Some s1 \<Rightarrow> handle_all p rs s1)"

definition poll_turn :: "poll \<Rightarrow> tick \<Rightarrow> poll_state \<Rightarrow> poll_state option" where
  "poll_turn p tk s =
     (let s0 = (if p = PollIn then s\<lparr>ps_cache := AECRefill (ps_cache s)\<rparr> else s)
      in case handle_all p (tk_ready tk) s0 of
           None \<Rightarrow> None
         | Some s1 \<Rightarrow>
             map_option (\<lambda>(es, w). s1\<lparr>ps_engine := w, ps_begun := ps_begun s1 @ map Event_worker es\<rparr>)
               (poll_timeouts (tk_time tk) p (ps_engine s1)))"

definition poll_end :: "poll \<Rightarrow> poll_state \<Rightarrow> poll_state option" where
  "poll_end p s =
     (if p = PollIn then
        (let s1 = (case ps_spare s of
                     Some a \<Rightarrow> s\<lparr>ps_cache := acceptEventRelease a (ps_cache s), ps_spare := None\<rparr>
                   | None \<Rightarrow> s)
         in map_option (\<lambda>c. s1\<lparr>ps_cache := c\<rparr>) (AECFlush (ps_cache s1)))
      else Some s)"

fun poll_turns :: "poll \<Rightarrow> tick list \<Rightarrow> poll_state \<Rightarrow> poll_state option" where
  "poll_turns p [] s = poll_end p s"
| "poll_turns p (tk # tks) s =
     (case poll_turn p tk s of None \<Rightarrow> None | Some s1 \<Rightarrow> poll_turns p tks s1)"

text \<open>The whole thread: it sees the engine running once for every tick, then no longer.\<close>

definition PollThread_run :: "poll \<Rightarrow> tick list \<Rightarrow> engine \<Rightarrow> AcceptEventCache \<Rightarrow> poll_state option" where
  "PollThread_run p tks w c =
     (case (if p = PollIn then acceptEventAlloc c else (None, c)) of
        (spare, c1) \<Rightarrow>
          poll_turns p tks \<lparr>ps_engine = w, ps_cache = c1, ps_spare = spare, ps_begun = []\<rparr>)"

section \<open>Dispatching keeps the wheel in order\<close>

text \<open>
  \<open>poll_dispatch\<close> touches one slot, keeps its type, and never sets the timeout flag; it takes it
  away only from an event that is no listener.
\<close>

lemma event_error_keeps [simp]:
  "se_flags (event_error b e) = se_flags e" "se_type (event_error b e) = se_type e"
  by (simp_all add: event_error_def)

definition slot_step :: "slot \<Rightarrow> SOCK \<Rightarrow> SOCK \<Rightarrow> bool" where
  "slot_step sl s s' \<longleftrightarrow>
     (\<forall>sl'. sl' \<noteq> sl \<longrightarrow> get_se sl' s' = get_se sl' s) \<and>
     se_type (get_se sl s') = se_type (get_se sl s) \<and>
     (has (se_flags (get_se sl s')) FSE_TIMEOUT_PENDING \<longrightarrow>
      has (se_flags (get_se sl s)) FSE_TIMEOUT_PENDING)"

lemma slot_step_refl [simp]: "slot_step sl s s"
  by (simp add: slot_step_def)

lemma slot_step_trans [trans]: "slot_step sl s s' \<Longrightarrow> slot_step sl s' s'' \<Longrightarrow> slot_step sl s s''"
  by (auto simp: slot_step_def)

lemma slot_step_put:
  assumes "se_type e = se_type (get_se sl s)"
    and "has (se_flags e) FSE_TIMEOUT_PENDING \<Longrightarrow> has (se_flags (get_se sl s)) FSE_TIMEOUT_PENDING"
  shows "slot_step sl s (put_se sl e s)"
  using assms by (simp add: slot_step_def)

lemma slot_step_notify [simp]: "slot_step sl s (notify evs s)"
  by (simp add: slot_step_def)

lemma slot_step_complete: "slot_step sl s (snd (complete_slot sl s))"
  unfolding complete_slot_spec snd_conv
  by (rule slot_step_put) (simp_all add: SocketEventComplete_keeps SocketEventComplete_flags)

lemma slot_step_requeue: "slot_step sl s (snd (requeue_listener mod_err sl s))"
proof -
  let ?e = "snd (SocketEventRequeue mod_err (get_se sl s))"
  have put: "slot_step sl s (put_se sl ?e s)"
    by (rule slot_step_put) (simp_all add: SocketEventRequeue_def split: if_splits)
  then have "slot_step sl s (notify [LISTENER_STOPPED] (put_se sl ?e s))"
    by (rule slot_step_trans) simp
  from slot_step_trans [OF this slot_step_complete] put show ?thesis
    by (simp add: requeue_listener_def split_beta Let_def)
qed

lemma get_acceptReady [simp]: "get_se sl (acceptReady s) = get_se sl s"
  by (cases sl) (simp_all add: acceptReady_def)

lemma slot_step_acceptReady [simp]: "slot_step sl s (acceptReady s)"
  by (simp add: slot_step_def)

lemma slot_step_throttle: "slot_step sl s (snd (listenerStartThrottling n sl s))"
proof (cases "listener s")
  case (Some l)
  have "slot_step sl (notify evs s) (put_se sl (SeAddFlags FSE_LISTENER_PAUSED (get_se sl (notify evs s))) (notify evs s))" for evs
    by (rule slot_step_put) (auto simp: has_def [of 16])
  from slot_step_trans [OF slot_step_notify this] Some show ?thesis
    by (simp add: listenerStartThrottling_def Let_def)
qed (simp add: listenerStartThrottling_def)

lemma slot_step_dispatch:
  "slot_step sl s (snd (snd (poll_dispatch acc me cr cu bits sl ae s)))"
proof -
  let ?s0 = "put_se sl (event_error bits (get_se sl s)) s"
  let ?s1 = "if ae then acceptReady ?s0 else ?s0"
  let ?s2 = "if listenerShouldThrottle cr sl ?s1 then snd (listenerStartThrottling cu sl ?s1) else ?s1"
  have s0: "slot_step sl s ?s0" by (rule slot_step_put) simp_all
  have s1: "slot_step sl s ?s1" using slot_step_trans [OF s0 slot_step_acceptReady] s0 by simp
  have s2: "slot_step sl s ?s2" using slot_step_trans [OF s1 slot_step_throttle] s1 by simp
  have einval: "slot_step sl s (put_se sl ((get_se sl ?s0)\<lparr>se_error := EINVAL\<rparr>) ?s0)"
    by (rule slot_step_trans [OF s0], rule slot_step_put) simp_all
  note tr = slot_step_trans [OF _ slot_step_complete] slot_step_trans [OF _ slot_step_requeue]
  show ?thesis
    using s2 tr(1) [OF slot_step_trans [OF s0 slot_step_notify]] tr(2) [OF s2] tr(2) [OF s0]
      tr(1) [OF s0] tr(1) [OF einval]
    by (cases "se_type (get_se sl s)")
      (simp_all add: poll_dispatch_def socketEventHandle_def Let_def split_beta split: if_splits)
qed


lemma store_sock_events:
  assumes "slot_step (ev_slot e) (en_sock w (ev_sock e)) s"
  shows "event_at (w\<lparr>en_sock := (en_sock w)(ev_sock e := s)\<rparr>) e' =
     (if e' = e then get_se (ev_slot e) s else event_at w e')"
  using assms by (cases e; cases e') (auto simp: event_at_def slot_step_def)

lemma wheel_links_cong:
  assumes "wheel w L" "list_head w' = list_head w" "timeoutList w' = timeoutList w"
    "timeoutNext w' = timeoutNext w" "timeoutPrev w' = timeoutPrev w"
  shows "wheel w' L"
  using assms by (simp add: wheel_def)

lemma store_sock_inv:
  assumes inv: "wheel_inv w L" and step: "slot_step (ev_slot e) (en_sock w (ev_sock e)) s"
  shows "wheel_inv (store_sock e s w) L \<or> wheel_inv (store_sock e s w) (wheel_without e L)"
proof -
  define w1 where "w1 = w\<lparr>en_sock := (en_sock w)(ev_sock e := s)\<rparr>"
  have ev: "event_at w1 e' = (if e' = e then get_se (ev_slot e) s else event_at w e')" for e'
    unfolding w1_def by (rule store_sock_events [OF step])
  have wh: "wheel w1 L"
    by (rule wheel_links_cong [OF wheel_invD(1) [OF inv]]) (auto simp: w1_def list_head_def fun_eq_iff)
  have tl: "timeoutList w1 = timeoutList w" by (simp add: w1_def)
  have ty: "se_type (event_at w1 e') = se_type (event_at w e')" for e'
    using step by (cases "e' = e") (simp_all add: ev slot_step_def, simp add: event_at_def)
  note flag = wheel_invD(2) [OF inv] and lis = wheel_invD(3) [OF inv]
  let ?before = "has (se_flags (event_at w e)) FSE_TIMEOUT_PENDING"
  let ?after = "has (se_flags (event_at w1 e)) FSE_TIMEOUT_PENDING"
  show ?thesis
  proof (cases "?before \<and> \<not> ?after")
    case False
    have "event_at w1 e = get_se (ev_slot e) s" by (simp add: ev)
    moreover have "event_at w e = get_se (ev_slot e) (en_sock w (ev_sock e))" by (simp add: event_at_def)
    ultimately have ba: "?after = ?before" using False step unfolding slot_step_def by metis
    have "timeoutList w1 e' \<noteq> None \<longleftrightarrow> has (se_flags (event_at w1 e')) FSE_TIMEOUT_PENDING" for e'
      using flag [of e'] ba by (cases "e' = e") (simp_all add: tl ev)
    moreover have "timeoutList w1 e' \<noteq> None \<Longrightarrow> se_type (event_at w1 e') \<noteq> SOCK_EVENT_TYPE_LISTEN" for e'
      using lis [of e'] by (simp add: tl ty)
    ultimately have "wheel_inv w1 L" using wh unfolding wheel_inv_def by blast
    moreover have "store_sock e s w = w1" using False by (auto simp: store_sock_def Let_def w1_def)
    ultimately show ?thesis by simp
  next
    case True
    then obtain k where k: "timeoutList w1 e = Some k" using flag [of e] tl by auto
    let ?w = "unlink_event k e w1"
    have "wheel ?w (wheel_without e L)"
      using wheel_unlink [OF wh k] wheel_without_listed [OF wh k] by simp
    moreover have "timeoutList ?w e' \<noteq> None \<longleftrightarrow> has (se_flags (event_at ?w e')) FSE_TIMEOUT_PENDING" for e'
      using flag [of e'] True by (cases "e' = e") (simp_all add: unlink_event_timeoutList tl ev)
    moreover have "timeoutList ?w e' \<noteq> None \<Longrightarrow> se_type (event_at ?w e') \<noteq> SOCK_EVENT_TYPE_LISTEN" for e'
      using lis [of e'] by (cases "e' = e") (simp_all add: unlink_event_timeoutList tl ty)
    ultimately have "wheel_inv ?w (wheel_without e L)" unfolding wheel_inv_def by blast
    moreover have "store_sock e s w = ?w" using True k by (simp add: store_sock_def Let_def flip: w1_def)
    ultimately show ?thesis by simp
  qed
qed

lemma dispatch_event_inv:
  assumes "wheel_inv w L" "dispatch_event r ae w = (complete, ae1, w')"
  shows "\<exists>L'. wheel_inv w' L'"
proof -
  let ?e = "rd_event r"
  obtain c a s where d: "poll_dispatch (rd_accept r) (rd_mod_err r) (rd_count_read r)
      (rd_count_update r) (rd_bits r) (ev_slot ?e) ae (en_sock w (ev_sock ?e)) = (c, a, s)"
    by (metis prod_cases3)
  then have "slot_step (ev_slot ?e) (en_sock w (ev_sock ?e)) s"
    by (metis slot_step_dispatch snd_conv)
  from store_sock_inv [OF assms(1) this] assms(2) d show ?thesis
    by (auto simp: dispatch_event_def)
qed

text \<open>
  For the event of a connection, dispatching is \<^verbatim>\<open>SocketEventComplete()\<close> as theory
  \<open>TimeoutWheel\<close> has it, after the error has been taken from the event bits.
\<close>

lemma dispatch_event_connection:
  assumes inv: "wheel_inv w L"
    and ty: "se_type (event_at w (rd_event r)) = SOCK_EVENT_TYPE_READABLE \<or>
             se_type (event_at w (rd_event r)) = SOCK_EVENT_TYPE_WRITABLE"
    and eng: "has (se_flags (event_at w (rd_event r))) FSE_IN_ENGINE"
  shows "fst (dispatch_event r ae w)"
    and "fst (snd (dispatch_event r ae w)) = ae"
    and "event_at (snd (snd (dispatch_event r ae w))) (rd_event r) =
         snd (SocketEventComplete (event_error (rd_bits r) (event_at w (rd_event r))))"
    and "timeoutList (snd (snd (dispatch_event r ae w))) (rd_event r) = None"
proof -
  let ?e = "rd_event r" and ?s = "en_sock w (ev_sock (rd_event r))"
  let ?se = "snd (SocketEventComplete (event_error (rd_bits r) (event_at w ?e)))"
  let ?put = "put_se (ev_slot ?e) ?se ?s"
  have d: "poll_dispatch (rd_accept r) (rd_mod_err r) (rd_count_read r) (rd_count_update r)
      (rd_bits r) (ev_slot ?e) ae ?s = (True, ae, ?put)"
    using ty eng
    by (auto simp: poll_dispatch_def socketEventHandle_def Let_def complete_slot_spec event_at_def)
  then have eq: "dispatch_event r ae w = (True, ae, store_sock ?e ?put w)"
    by (simp add: dispatch_event_def Let_def)
  show "fst (dispatch_event r ae w)" "fst (snd (dispatch_event r ae w)) = ae" by (simp_all add: eq)
  let ?w1 = "w\<lparr>en_sock := (en_sock w)(ev_sock ?e := ?put)\<rparr>"
  have e1: "event_at ?w1 ?e = ?se" by (simp add: event_at_def)
  show "event_at (snd (snd (dispatch_event r ae w))) ?e = ?se"
    unfolding eq using e1 by (simp add: store_sock_def Let_def split: option.splits)
  have flag: "timeoutList w ?e \<noteq> None \<longleftrightarrow> has (se_flags (event_at w ?e)) FSE_TIMEOUT_PENDING"
    by (rule wheel_invD(2) [OF inv])
  have "\<not> has (se_flags (event_at ?w1 ?e)) FSE_TIMEOUT_PENDING"
    unfolding e1 by (simp add: SocketEventComplete_flags)
  with flag show "timeoutList (snd (snd (dispatch_event r ae w))) ?e = None"
    unfolding eq by (auto simp: store_sock_def Let_def unlink_event_timeoutList split: option.splits)
qed

section \<open>The thread keeps the engine in order\<close>

text \<open>
  The thread's spare accept event counts as handed out.  \<open>others\<close> are the events that workers have
  still to give back; the thread adds those it starts workers on.
\<close>

definition accept_workers :: "worker list \<Rightarrow> ptr set" where
  "accept_workers ws = {a. Accept_worker a \<in> set ws}"

definition poll_ok :: "ptr option list \<Rightarrow> ptr set \<Rightarrow> poll_state \<Rightarrow> bool" where
  "poll_ok answers others s \<longleftrightarrow> (\<exists>L. wheel_inv (ps_engine s) L) \<and>
     ae_run answers (ps_cache s)
       (others \<union> accept_workers (ps_begun s) \<union> set_option (ps_spare s)) \<and>
     set_option (ps_spare s) \<inter> (others \<union> accept_workers (ps_begun s)) = {}"

lemma accept_workers_simps [simp]:
  "accept_workers [] = {}"
  "accept_workers (xs @ ys) = accept_workers xs \<union> accept_workers ys"
  "accept_workers (map Event_worker es) = {}"
  "accept_workers [Accept_worker a] = {a}" "accept_workers [Event_worker e] = {}"
  by (auto simp: accept_workers_def)

text \<open>Getting a new spare event when the old one is gone.\<close>

lemma acquire_ok:
  assumes ok: "poll_ok answers others s" and fresh: "fresh_memory {} answers" and none: "ps_spare s = None"
  shows "\<exists>a c. acceptEventAcquire (ps_cache s) = Some (a, c) \<and>
           poll_ok answers others (s\<lparr>ps_spare := a, ps_cache := c\<rparr>)"
proof -
  let ?out = "others \<union> accept_workers (ps_begun s)"
  have run: "ae_run answers (ps_cache s) ?out" using ok none by (simp add: poll_ok_def)
  from ae_run_owned [OF run fresh] obtain xs fs got where o: "ae_owned answers (ps_cache s) ?out xs fs got"
    by blast
  then have c: "cache (ps_cache s) xs fs" by (simp add: ae_owned_def)
  from acceptEventAcquire_cache [OF c] obtain a c' where
    acq: "acceptEventAcquire (ps_cache s) = Some (a, c')" "handed (ps_cache s) xs fs a c'" by blast
  show ?thesis
  proof (cases a)
    case None
    with ae_run.acquire_none [OF run] acq ok show ?thesis by (auto simp: poll_ok_def)
  next
    case (Some b)
    with handed_some [OF o fresh] acq(2) have "b \<notin> ?out" by blast
    with ae_run.acquire_some [OF run, of b c'] acq Some ok show ?thesis by (auto simp: poll_ok_def)
  qed
qed

lemma dispatch_event_no_spare:
  "dispatch_event r False w = (complete, ae1, w') \<Longrightarrow> \<not> ae1"
  by (auto simp: dispatch_event_def poll_dispatch_def socketEventHandle_def Let_def split_beta
      split: SocketEventType.splits if_splits)

lemma handle_ready_ok:
  assumes ok: "poll_ok answers others s" and fresh: "fresh_memory {} answers"
  shows "\<exists>s'. handle_ready p r s = Some s' \<and> poll_ok answers others s'"
proof -
  obtain complete ae1 w where d: "dispatch_event r (ps_spare s \<noteq> None) (ps_engine s) = (complete, ae1, w)"
    by (metis prod_cases3)
  define s1 where "s1 = s\<lparr>ps_engine := w, ps_spare := if ae1 then ps_spare s else None,
      ps_begun := ps_begun s @
        (case ps_spare s of Some a \<Rightarrow> if ae1 then [] else [Accept_worker a] | None \<Rightarrow> []) @
        (if complete then [Event_worker (rd_event r)] else [])\<rparr>"
  have L: "\<exists>L. wheel_inv w L" using ok dispatch_event_inv [OF _ d] by (auto simp: poll_ok_def)
  have s1: "poll_ok answers others s1"
    using ok L d dispatch_event_no_spare
    by (cases "ps_spare s") (auto simp: poll_ok_def s1_def insert_commute)
  have eq: "handle_ready p r s = (if p = PollIn \<and> ps_spare s1 = None
      then map_option (\<lambda>(a, c). s1\<lparr>ps_spare := a, ps_cache := c\<rparr>) (acceptEventAcquire (ps_cache s1))
      else Some s1)"
    unfolding handle_ready_def d s1_def by (simp only: prod.case Let_def)
  show ?thesis
  proof (cases "p = PollIn \<and> ps_spare s1 = None")
    case True
    with acquire_ok [OF s1 fresh] eq show ?thesis by auto
  qed (use eq s1 in auto)
qed

lemma handle_all_ok:
  assumes "poll_ok answers others s" "fresh_memory {} answers"
  shows "\<exists>s'. handle_all p rs s = Some s' \<and> poll_ok answers others s'"
  using assms
proof (induction rs arbitrary: s)
  case (Cons r rs)
  with handle_ready_ok [OF Cons.prems, of p r] show ?case by auto
qed simp

lemma poll_turn_ok:
  assumes ok: "poll_ok answers others s" and fresh: "fresh_memory {} answers"
  shows "\<exists>s'. poll_turn p tk s = Some s' \<and> poll_ok answers others s'"
proof -
  let ?s0 = "if p = PollIn then s\<lparr>ps_cache := AECRefill (ps_cache s)\<rparr> else s"
  have "poll_ok answers others ?s0" using ok by (auto simp: poll_ok_def intro: ae_run.refill)
  from handle_all_ok [OF this fresh] obtain s1 where
    s1: "handle_all p (tk_ready tk) ?s0 = Some s1" "poll_ok answers others s1" by blast
  then obtain L where L: "wheel_inv (ps_engine s1) L" by (auto simp: poll_ok_def)
  from poll_timeouts_spec [OF L] obtain es w where
    t: "poll_timeouts (tk_time tk) p (ps_engine s1) = Some (es, w)" "\<exists>L. wheel_inv w L" by metis
  with s1 show ?thesis by (auto simp: poll_turn_def Let_def poll_ok_def)
qed

lemma poll_end_ok:
  assumes ok: "poll_ok answers others s" and fresh: "fresh_memory {} answers"
  shows "\<exists>s'. poll_end p s = Some s' \<and> poll_ok answers others s' \<and> ps_begun s' = ps_begun s \<and>
     (p = PollIn \<longrightarrow> ps_spare s' = None \<and> (\<exists>xs. cache (ps_cache s') xs []))"
proof (cases p)
  case PollIn
  let ?s1 = "case ps_spare s of
      Some a \<Rightarrow> s\<lparr>ps_cache := acceptEventRelease a (ps_cache s), ps_spare := None\<rparr> | None \<Rightarrow> s"
  have s1: "poll_ok answers others ?s1 \<and> ps_spare ?s1 = None \<and> ps_begun ?s1 = ps_begun s"
  proof (cases "ps_spare s")
    case (Some a)
    let ?o = "others \<union> accept_workers (ps_begun s)"
    have r: "ae_run answers (ps_cache s) (insert a ?o)" "a \<notin> ?o"
      using ok Some by (auto simp: poll_ok_def)
    from ae_run.give_back [OF r(1), of a] r(2)
    have "ae_run answers (acceptEventRelease a (ps_cache s)) ?o" by simp
    with ok Some show ?thesis by (simp add: poll_ok_def)
  qed (use ok in simp)
  then have run: "ae_run answers (ps_cache ?s1) (others \<union> accept_workers (ps_begun ?s1))"
    by (auto simp: poll_ok_def)
  from ae_run_owned [OF run fresh] obtain xs fs where "cache (ps_cache ?s1) xs fs"
    by (auto simp: ae_owned_def)
  from AECFlush_cache [OF this] obtain c where c: "AECFlush (ps_cache ?s1) = Some c" "cache c (xs @ fs) []"
    by blast
  have "poll_ok answers others (?s1\<lparr>ps_cache := c\<rparr>)"
    using s1 ae_run.flush [OF run c(1)] by (auto simp: poll_ok_def)
  with s1 c PollIn show ?thesis by (auto simp: poll_end_def Let_def)
qed (use ok in \<open>simp add: poll_end_def\<close>)

lemma poll_turns_ok:
  assumes "poll_ok answers others s" "fresh_memory {} answers"
  shows "\<exists>s'. poll_turns p tks s = Some s' \<and> poll_ok answers others s' \<and>
     (p = PollIn \<longrightarrow> ps_spare s' = None \<and> (\<exists>xs. cache (ps_cache s') xs []))"
  using assms
proof (induction tks arbitrary: s)
  case Nil
  with poll_end_ok [OF Nil, of p] show ?case by auto
next
  case (Cons tk tks)
  from poll_turn_ok [OF Cons.prems, of p tk] Cons.IH Cons.prems(2) show ?case by auto
qed

section \<open>Properties\<close>

text \<open>
  C10. A poll thread cannot be made to fail: whatever events epoll reports, in whatever number of
  turns, whatever \<^verbatim>\<open>accept()\<close>, \<^verbatim>\<open>epoll_ctl()\<close>, \<^verbatim>\<open>MemMalloc()\<close> and the clock answer, every turn of
  \<^verbatim>\<open>_PollThread()\<close> ends, the timeout lists stay well formed and agree with the flags of the
  events, the array of accept events is never read outside its bounds, and no accept event is in
  two places.  When the thread stops, its spare accept event and its array are back in the list.
\<close>
theorem poll_thread_safe:
  assumes inv: "wheel_inv w L" and run: "ae_run answers c others" and fresh: "fresh_memory {} answers"
  shows "\<exists>s. PollThread_run p tks w c = Some s \<and> (\<exists>L'. wheel_inv (ps_engine s) L') \<and>
     ae_run answers (ps_cache s) (others \<union> accept_workers (ps_begun s) \<union> set_option (ps_spare s)) \<and>
     (p = PollIn \<longrightarrow> ps_spare s = None \<and> (\<exists>xs. cache (ps_cache s) xs []))"
proof -
  obtain spare c1 where sp: "(if p = PollIn then acceptEventAlloc c else (None, c)) = (spare, c1)"
    by (metis prod.exhaust)
  let ?s = "\<lparr>ps_engine = w, ps_cache = c1, ps_spare = spare, ps_begun = []\<rparr>"
  have "poll_ok answers others ?s"
  proof (cases "p = PollIn")
    case True
    from ae_run_owned [OF run fresh] obtain xs fs got where o: "ae_owned answers c others xs fs got" by blast
    then have "handed c xs fs spare c1"
      using acceptEventAlloc_cache [of c xs fs] sp True by (auto simp: ae_owned_def)
    with handed_some [OF o fresh] ae_run.alloc_some [OF run] ae_run.alloc_none [OF run] inv sp True
    show ?thesis by (cases spare) (auto simp: poll_ok_def)
  qed (use inv run sp in \<open>auto simp: poll_ok_def\<close>)
  from poll_turns_ok [OF this fresh, of p tks] show ?thesis
    unfolding PollThread_run_def sp by (auto simp: poll_ok_def)
qed


definition demo_tick :: tick where
  "demo_tick = \<lparr>tk_ready = [\<lparr>rd_event = demo_event, rd_bits = 1, rd_accept = - 1, rd_mod_err = 0,
     rd_count_read = 0, rd_count_update = 0\<rparr>], tk_time = 128\<rparr>"

lemma poll_thread_safe_witness:
  "\<exists>s. PollThread_run PollIn [demo_tick] (demo_waiting 100 5000) demo_cache = Some s \<and>
     (\<exists>L'. wheel_inv (ps_engine s) L') \<and> ps_spare s = None"
proof -
  have "wheel_inv (demo_waiting 100 5000) ((\<lambda>_. [])(TL PollIn (timeout_slot 100 5000) := [demo_event]))"
    by (rule demo_waiting_inv) simp
  from poll_thread_safe [OF this demo_cache_run, of PollIn "[demo_tick]"] show ?thesis by blast
qed

end
