(* ===== verification/SockBio.thy ===== *)
theory SockBio
  imports SockIO Instances
begin

unbundle bit_operations_syntax

text \<open>
  The BIO through which OpenSSL reads and writes connio's sockets (\<^verbatim>\<open>bioSock*()\<close> in
  \<^verbatim>\<open>src/src/sockcommon.c\<close>).  A BIO keeps a descriptor, whether it owns it, and the retry flags that
  tell OpenSSL whether a failed call was only too early.
\<close>

section \<open>State\<close>

record BIO =
  bio_init :: bool
  bio_num :: int
  bio_shutdown :: int
  bio_flags :: u32
  bio_sock :: "SOCK option"      \<comment> \<open>the callback argument\<close>

abbreviation (input) BIO_FLAGS_READ :: u32 where "BIO_FLAGS_READ \<equiv> 0x01"
abbreviation (input) BIO_FLAGS_WRITE :: u32 where "BIO_FLAGS_WRITE \<equiv> 0x02"
abbreviation (input) BIO_FLAGS_SHOULD_RETRY :: u32 where "BIO_FLAGS_SHOULD_RETRY \<equiv> 0x08"

definition BIO_set_retry_read :: "BIO \<Rightarrow> BIO" where
  "BIO_set_retry_read b = b\<lparr>bio_flags := bio_flags b OR (BIO_FLAGS_READ OR BIO_FLAGS_SHOULD_RETRY)\<rparr>"

definition BIO_set_retry_write :: "BIO \<Rightarrow> BIO" where
  "BIO_set_retry_write b = b\<lparr>bio_flags := bio_flags b OR (BIO_FLAGS_WRITE OR BIO_FLAGS_SHOULD_RETRY)\<rparr>"

section \<open>Operations\<close>

definition bioSockNew :: "BIO \<Rightarrow> BIO" where
  "bioSockNew b = b\<lparr>bio_init := False, bio_num := 0, bio_flags := 0\<rparr>"

text \<open>
  \<^verbatim>\<open>bioSockFree()\<close> of a BIO that owns its descriptor hangs up and closes it; \<open>None\<close>: the wait for
  the peer does not end.
\<close>

definition bioSockFree :: "'w sys_ops \<Rightarrow> BIO \<Rightarrow> 'w net \<Rightarrow> (int \<times> BIO \<times> 'w net) option" where
  "bioSockFree sys b n =
     (let closed =
        (if bio_shutdown b \<noteq> 0 \<and> bio_init b then
           (case bio_sock b of
              Some s \<Rightarrow>
                (case disconnectWithTimeout sys 2000 0 (s, n) of
                   None \<Rightarrow> None
                 | Some (_, _, _, n1) \<Rightarrow> Some (snd (in_kernel (sys_close sys (bio_num b)) n1)))
            | None \<Rightarrow> None)
         else Some n)
      in case closed of
           None \<Rightarrow> None
         | Some n1 \<Rightarrow>
             Some (1, (if bio_shutdown b \<noteq> 0 then b\<lparr>bio_init := False, bio_flags := 0\<rparr> else b)\<lparr>bio_num := - 1\<rparr>,
                   n1))"

text \<open>\<open>None\<close>: the call keeps being interrupted.\<close>

partial_function (option) bioSockWrite ::
    "'w sys_ops \<Rightarrow> BIO \<Rightarrow> byte list \<Rightarrow> 'w net \<Rightarrow> (int \<times> BIO \<times> 'w net) option" where
  "bioSockWrite sys b buff n =
     (case XplIpSend sys (bio_num b) buff n of (ret, err, n1) \<Rightarrow>
        if ret \<ge> 0 then Some (ret, b, n1)
        else if err = EINTR then bioSockWrite sys b buff n1
        else if err = EWOULDBLOCK then Some (- 1, BIO_set_retry_write b, n1)
        else if err = ECONNRESET \<or> err = EPIPE then Some (0, b, n1)
        else Some (- 1, b, n1))"

partial_function (option) bioSockRead ::
    "'w sys_ops \<Rightarrow> BIO \<Rightarrow> nat \<Rightarrow> 'w net \<Rightarrow> (int \<times> byte list \<times> BIO \<times> 'w net) option" where
  "bioSockRead sys b outl n =
     (case XplIpRecv sys (bio_num b) outl n of (res, err, n1) \<Rightarrow>
        case res of
          Some bytes \<Rightarrow> Some (int (length bytes), bytes, b, n1)
        | None \<Rightarrow>
            if err = EINTR then bioSockRead sys b outl n1
            else if err = EWOULDBLOCK then Some (- 1, [], BIO_set_retry_read b, n1)
            else if err = ECONNRESET \<or> err = EPIPE then Some (0, [], b, n1)
            else Some (- 1, [], b, n1))"

datatype bio_cmd =
    BIO_CTRL_RESET | BIO_C_FILE_SEEK | BIO_C_FILE_TELL | BIO_CTRL_INFO
  | BIO_C_SET_FD int | BIO_C_GET_FD | BIO_CTRL_GET_CLOSE | BIO_CTRL_SET_CLOSE
  | BIO_CTRL_PENDING | BIO_CTRL_WPENDING | BIO_CTRL_DUP | BIO_CTRL_FLUSH | BIO_CTRL_OTHER

definition bioSockCtrl ::
    "'w sys_ops \<Rightarrow> bio_cmd \<Rightarrow> int \<Rightarrow> BIO \<Rightarrow> 'w net \<Rightarrow> (int \<times> BIO \<times> 'w net) option" where
  "bioSockCtrl sys cmd num b n =
     (case cmd of
        BIO_CTRL_RESET \<Rightarrow> Some (0, b, n)
      | BIO_C_FILE_SEEK \<Rightarrow> Some (0, b, n)
      | BIO_C_FILE_TELL \<Rightarrow> Some (0, b, n)
      | BIO_CTRL_INFO \<Rightarrow> Some (0, b, n)
      | BIO_C_SET_FD fd \<Rightarrow>
          (case bioSockFree sys b n of
             None \<Rightarrow> None
           | Some (_, b1, n1) \<Rightarrow> Some (1, b1\<lparr>bio_num := fd, bio_shutdown := num, bio_init := True\<rparr>, n1))
      | BIO_C_GET_FD \<Rightarrow> Some (if bio_init b then bio_num b else - 1, b, n)
      | BIO_CTRL_GET_CLOSE \<Rightarrow> Some (bio_shutdown b, b, n)
      | BIO_CTRL_SET_CLOSE \<Rightarrow> Some (1, b\<lparr>bio_shutdown := num\<rparr>, n)
      | BIO_CTRL_PENDING \<Rightarrow> Some (0, b, n)
      | BIO_CTRL_WPENDING \<Rightarrow> Some (0, b, n)
      | BIO_CTRL_DUP \<Rightarrow> Some (1, b, n)
      | BIO_CTRL_FLUSH \<Rightarrow> Some (1, b, n)
      | BIO_CTRL_OTHER \<Rightarrow> Some (0, b, n))"

text \<open>
  \<^verbatim>\<open>bioSet()\<close> attaches a new BIO to the SSL structure: it is given the descriptor, which it does
  not own, and the socket.  \<open>fresh\<close> is what \<^verbatim>\<open>BIO_new()\<close> returns after \<^verbatim>\<open>bioSockNew()\<close>.
\<close>

definition bioSet :: "'w sys_ops \<Rightarrow> BIO option \<Rightarrow> int \<Rightarrow> SOCK \<Rightarrow> 'w net \<Rightarrow> (int \<times> BIO option \<times> 'w net) option" where
  "bioSet sys fresh fd s n =
     (case fresh of
        None \<Rightarrow> Some (0, None, n)
      | Some b \<Rightarrow>
          (case bioSockCtrl sys (BIO_C_SET_FD fd) 0 (bioSockNew b) n of
             None \<Rightarrow> None
           | Some (_, b1, n1) \<Rightarrow> Some (1, Some (b1\<lparr>bio_sock := Some s\<rparr>), n1)))"

section \<open>Lemmas\<close>

text \<open>What a write and a read leave behind: the bytes on the wire, and the retry flags.\<close>

definition bio_wrote :: "BIO \<Rightarrow> byte list \<Rightarrow> 'w net \<Rightarrow> int \<times> BIO \<times> 'w net \<Rightarrow> bool" where
  "bio_wrote b buff n r \<longleftrightarrow> (case r of (ret, b1, n1) \<Rightarrow>
     - 1 \<le> ret \<and> ret \<le> int (length buff) \<and>
     wire_out n1 = wire_out n @ take (nat ret) buff \<and> wire_in n1 = wire_in n \<and>
     (b1 = b \<or> b1 = BIO_set_retry_write b \<and> ret = - 1))"

definition bio_read :: "BIO \<Rightarrow> nat \<Rightarrow> 'w net \<Rightarrow> int \<times> byte list \<times> BIO \<times> 'w net \<Rightarrow> bool" where
  "bio_read b outl n r \<longleftrightarrow> (case r of (ret, bytes, b1, n1) \<Rightarrow>
     (ret = int (length bytes) \<or> ret = - 1 \<and> bytes = []) \<and> length bytes \<le> outl \<and>
     wire_in n1 = wire_in n @ bytes \<and> wire_out n1 = wire_out n \<and>
     (b1 = b \<or> b1 = BIO_set_retry_read b \<and> ret = - 1))"

lemma bioSockWrite_wrote:
  assumes "bioSockWrite sys b buff n = Some r"
  shows "bio_wrote b buff n r"
  using assms
proof (rule bioSockWrite.raw_induct [rotated, where P = "\<lambda>sys b buff n r. bio_wrote b buff n r"], goal_cases)
  case (1 f sys b buff n r)
  obtain k e n1 where x: "XplIpSend sys (bio_num b) buff n = (k, e, n1)" by (metis prod_cases3)
  note w = XplIpSend_wire [OF x]
  note step = 1(2) [unfolded x prod.case]
  show ?case
  proof (cases "\<not> 0 \<le> k \<and> e = EINTR")
    case True
    with step have "f sys b buff n1 = Some r" by simp
    from 1(1) [OF this] w True show ?thesis by (auto simp: bio_wrote_def)
  next
    case False
    with step w show ?thesis by (auto simp: bio_wrote_def split: if_splits)
  qed
qed

lemma bioSockRead_read:
  assumes "bioSockRead sys b outl n = Some r"
  shows "bio_read b outl n r"
  using assms
proof (rule bioSockRead.raw_induct [rotated, where P = "\<lambda>sys b outl n r. bio_read b outl n r"], goal_cases)
  case (1 f sys b outl n r)
  obtain bytes e n1 where x: "XplIpRecv sys (bio_num b) outl n = (bytes, e, n1)" by (metis prod_cases3)
  note w = XplIpRecv_wire [OF x]
  note step = 1(2) [unfolded x prod.case]
  show ?case
  proof (cases "bytes = None \<and> e = EINTR")
    case True
    with step have "f sys b outl n1 = Some r" by simp
    from 1(1) [OF this] w True show ?thesis by (auto simp: bio_read_def)
  next
    case False
    with step w show ?thesis by (auto simp: bio_read_def split: if_splits option.splits)
  qed
qed

section \<open>Properties\<close>

text \<open>
  C35. The BIO neither loses nor invents a byte: whatever the kernel does, what \<^verbatim>\<open>bioSockWrite()\<close>
  reports as written is the part of the buffer that went out, and what \<^verbatim>\<open>bioSockRead()\<close> returns is
  what came in; a failed call moves nothing.
\<close>
theorem bio_is_transparent:
  "(bioSockWrite sys b buff n = Some (ret, b1, n1) \<longrightarrow>
      wire_out n1 = wire_out n @ take (nat ret) buff \<and> wire_in n1 = wire_in n \<and>
      - 1 \<le> ret \<and> ret \<le> int (length buff)) \<and>
   (bioSockRead sys b outl n = Some (ret', bytes, b2, n2) \<longrightarrow>
      wire_in n2 = wire_in n @ bytes \<and> wire_out n2 = wire_out n \<and> length bytes \<le> outl \<and>
      (ret' = int (length bytes) \<or> ret' = - 1 \<and> bytes = []))"
  using bioSockWrite_wrote [of sys b buff n "(ret, b1, n1)"]
    bioSockRead_read [of sys b outl n "(ret', bytes, b2, n2)"]
  by (auto simp: bio_wrote_def bio_read_def)

text \<open>Sequences of reads and writes on one BIO.\<close>

inductive bio_run :: "'w sys_ops \<Rightarrow> BIO \<Rightarrow> 'w net \<Rightarrow> BIO \<Rightarrow> 'w net \<Rightarrow> bool" for sys b n where
  bio_start: "bio_run sys b n b n"
| bio_write: "bio_run sys b n b1 n1 \<Longrightarrow> bioSockWrite sys b1 buff n1 = Some (ret, b2, n2) \<Longrightarrow>
     bio_run sys b n b2 n2"
| bio_reads: "bio_run sys b n b1 n1 \<Longrightarrow> bioSockRead sys b1 outl n1 = Some (ret, bytes, b2, n2) \<Longrightarrow>
     bio_run sys b n b2 n2"

text \<open>
  The retry flags are never taken back: once a read or a write had to wait, OpenSSL is told to
  retry for ever.  No later read or write clears the flag, so that an error that is final, after
  any number of calls that worked, is still reported as one that is only too early.
\<close>
theorem bio_retry_flag_sticks:
  assumes "bio_run sys b n b1 n1" and "has (bio_flags b) BIO_FLAGS_SHOULD_RETRY"
  shows "has (bio_flags b1) BIO_FLAGS_SHOULD_RETRY"
  using assms(1)
proof (induction rule: bio_run.induct)
  case bio_start
  show ?case by (rule assms(2))
next
  case (bio_write b1 n1 buff ret b2 n2)
  from bioSockWrite_wrote [OF bio_write(2)] bio_write.IH show ?case
    by (auto simp: bio_wrote_def BIO_set_retry_write_def has_or)
next
  case (bio_reads b1 n1 outl ret bytes b2 n2)
  from bioSockRead_read [OF bio_reads(2)] bio_reads.IH show ?case
    by (auto simp: bio_read_def BIO_set_retry_read_def has_or)
qed

text \<open>
  What is set is what is read back: the descriptor and the ownership that \<^verbatim>\<open>bioSet()\<close> or
  \<^verbatim>\<open>BIO_set_fd()\<close> give a BIO that owned nothing before are what \<^verbatim>\<open>BIO_get_fd()\<close> and
  \<^verbatim>\<open>BIO_get_close()\<close> return; nothing is closed on the way.
\<close>
theorem bio_set_fd_round_trip:
  assumes "bio_shutdown b = 0 \<or> \<not> bio_init b"
  shows "\<exists>b1. bioSockCtrl sys (BIO_C_SET_FD fd) num b n = Some (1, b1, n) \<and>
     bioSockCtrl sys BIO_C_GET_FD x b1 n = Some (fd, b1, n) \<and>
     bioSockCtrl sys BIO_CTRL_GET_CLOSE x b1 n = Some (num, b1, n)"
  using assms by (auto simp: bioSockCtrl_def bioSockFree_def Let_def)

section \<open>Witnesses\<close>

definition demo_bio :: BIO where
  "demo_bio = \<lparr>bio_init = True, bio_num = 3, bio_shutdown = 0, bio_flags = 0, bio_sock = None\<rparr>"

text \<open>A kernel that has nothing to read, then loses the connection.\<close>

definition flaky_sys :: "nat sys_ops" where
  "flaky_sys = \<lparr>
     sys_socket = (\<lambda>w. ((4, 0), w)), sys_bind = (\<lambda>_ w. (0, w)), sys_nonblocking = (\<lambda>_ w. (0, w)),
     sys_nodelay = (\<lambda>_ w. (0, w)), sys_connect = (\<lambda>_ w. (0, w)), sys_shutdown = (\<lambda>_ w. (0, w)),
     sys_close = (\<lambda>_ w. (0, w)), sys_send = (\<lambda>_ buff w. (int (length buff), 0, w)),
     sys_recv = (\<lambda>_ _ w. if w = 0 then (None, EWOULDBLOCK, 1) else (None, EIO, w)),
     sys_poll = (\<lambda>_ _ _ w. ((0, 0, 0), w)), sys_epoll_add = (\<lambda>_ _ w. (0, w)),
     ssl_alloc = (\<lambda>_ _ w. (None, w)), ssl_bio = (\<lambda>_ _ w. (False, w)), ssl_release = (\<lambda>_ w. ((), w)),
     ssl_accept = (\<lambda>_ w. (- 1, w)), ssl_connect = (\<lambda>_ w. (- 1, w)), ssl_shutdown = (\<lambda>_ w. (- 1, w)),
     ssl_read = (\<lambda>_ _ w. ([], - 1, w)), ssl_write = (\<lambda>_ _ w. (- 1, w)),
     ssl_get_error = (\<lambda>_ _ _. 6), err_queue = (\<lambda>w. ([], w))\<rparr>"

lemma bio_is_transparent_witness:
  "bioSockWrite flaky_sys demo_bio [5, 6] \<lparr>kernel = 0, wire_out = [4], wire_in = []\<rparr> =
     Some (2, demo_bio, \<lparr>kernel = 0, wire_out = [4, 5, 6], wire_in = []\<rparr>) \<and>
   [4, 5, 6 :: byte] = [4] @ take (nat 2) [5, 6]"
proof -
  have w: "bioSockWrite flaky_sys demo_bio [5, 6] \<lparr>kernel = 0, wire_out = [4], wire_in = []\<rparr> =
     Some (2, demo_bio, \<lparr>kernel = 0, wire_out = [4, 5, 6], wire_in = []\<rparr>)"
    by (subst bioSockWrite.simps) (simp add: XplIpSend_def flaky_sys_def)
  with bio_is_transparent [of flaky_sys demo_bio "[5, 6]" "\<lparr>kernel = 0, wire_out = [4], wire_in = []\<rparr>" 2
      demo_bio "\<lparr>kernel = 0, wire_out = [4, 5, 6], wire_in = []\<rparr>"]
  show ?thesis by simp
qed

lemma bio_retry_flag_sticks_witness:
  "\<exists>b1 n1 n2. bioSockRead flaky_sys demo_bio 8 \<lparr>kernel = 0, wire_out = [], wire_in = []\<rparr> =
       Some (- 1, [], b1, n1) \<and>
     bioSockRead flaky_sys b1 8 n1 = Some (- 1, [], b1, n2) \<and>
     has (bio_flags b1) BIO_FLAGS_SHOULD_RETRY"
proof -
  let ?n = "\<lambda>k. \<lparr>kernel = k, wire_out = [], wire_in = []\<rparr> :: nat net"
  let ?b = "BIO_set_retry_read demo_bio"
  have r1: "bioSockRead flaky_sys demo_bio 8 (?n 0) = Some (- 1, [], ?b, ?n 1)"
    by (subst bioSockRead.simps) (simp add: XplIpRecv_def flaky_sys_def)
  have r2: "bioSockRead flaky_sys ?b 8 (?n 1) = Some (- 1, [], ?b, ?n 1)"
    by (subst bioSockRead.simps) (simp add: XplIpRecv_def flaky_sys_def)
  have "bio_run flaky_sys ?b (?n 1) ?b (?n 1)" by (rule bio_reads [OF bio_start r2])
  from bio_retry_flag_sticks [OF this] have "has (bio_flags ?b) BIO_FLAGS_SHOULD_RETRY"
    by (simp add: BIO_set_retry_read_def demo_bio_def has_def)
  with r1 r2 show ?thesis by blast
qed

lemma bio_set_fd_round_trip_witness:
  "\<exists>b1. bioSockCtrl flaky_sys (BIO_C_SET_FD 7) 1 demo_bio \<lparr>kernel = 0, wire_out = [], wire_in = []\<rparr> =
       Some (1, b1, \<lparr>kernel = 0, wire_out = [], wire_in = []\<rparr>) \<and>
     bioSockCtrl flaky_sys BIO_C_GET_FD 0 b1 \<lparr>kernel = 0, wire_out = [], wire_in = []\<rparr> =
       Some (7, b1, \<lparr>kernel = 0, wire_out = [], wire_in = []\<rparr>)"
  using bio_set_fd_round_trip [where b = demo_bio and sys = flaky_sys and fd = 7 and num = 1 and x = 0
      and n = "\<lparr>kernel = 0, wire_out = [], wire_in = []\<rparr>"]
  by (auto simp: demo_bio_def)

end
