(* ===== verification/SockLib.thy ===== *)
theory SockLib
  imports TimeoutWheel
begin

unbundle bit_operations_syntax

text \<open>
  Starting and stopping the socket library (\<^verbatim>\<open>src/src/sockcommon.c\<close>): the use count, SSL, and the
  event engine with its two epoll descriptors.  Every handle starts the library once.
\<close>

section \<open>State\<close>

text \<open>\<open>epoll_open\<close> is the number of epoll descriptors the process has open.\<close>

record SockLibGlobals =
  lib_initialized :: bool
  lib_useCount :: int
  lib_ssl :: bool
  lib_engine :: "engine option"
  epoll_open :: nat

abbreviation (input) SOCK_LIB_FLAG_ASYNC :: u32 where "SOCK_LIB_FLAG_ASYNC \<equiv> 0x1"
abbreviation (input) SOCK_LIB_FLAG_SSL :: u32 where "SOCK_LIB_FLAG_SSL \<equiv> 0x2"

text \<open>What memory, the thread library and \<^verbatim>\<open>epoll_create()\<close> answer to one start.\<close>

record start_env =
  st_memory :: bool
  st_group :: bool
  st_efd_in :: int
  st_efd_out :: int
  st_time :: int

section \<open>Operations\<close>

definition zero_engine :: engine where
  "zero_engine = \<lparr>en_running = True, en_poll = (\<lambda>_. snd (SocketPollInit 0)),
     en_sock = (\<lambda>_. \<lparr>number = 0, ssl_new = None, ssl_conn = None, listener = None,
       ev_connect = sockEventInit, ev_receive = sockEventInit, ev_send = sockEventInit,
       listenerID = 0, lev_log = []\<rparr>),
     timeoutList = (\<lambda>_. None), timeoutNext = (\<lambda>_. None), timeoutPrev = (\<lambda>_. None),
     async_next = (\<lambda>_. None)\<rparr>"

text \<open>The descriptors that \<^verbatim>\<open>sockEngineInit()\<close> opens; it closes none of them when it fails.\<close>

definition efds_opened :: "start_env \<Rightarrow> nat" where
  "efds_opened env =
     (if st_efd_in env = - 1 then 0 else if st_efd_out env = - 1 then 1 else 2)"

definition SocketEventEngineAlloc :: "start_env \<Rightarrow> engine option \<times> nat" where
  "SocketEventEngineAlloc env =
     (if \<not> st_memory env then (None, 0)
      else if \<not> st_group env then (None, 0)
      else (case sockEngineInit (st_efd_in env) (st_efd_out env) (st_time env) zero_engine of
              (r, w) \<Rightarrow> (if r = 0 then Some w else None, efds_opened env)))"

text \<open>
  \<^verbatim>\<open>SocketEventEngineFree()\<close> stops the threads and frees the engine; the number of descriptors it
  closes.
\<close>

definition SocketEventEngineFree :: "engine \<Rightarrow> nat" where
  "SocketEventEngineFree w = 0"

definition socketLibInit :: "SockLibGlobals \<Rightarrow> SockLibGlobals" where
  "socketLibInit g = g\<lparr>lib_useCount := 0, lib_ssl := False, lib_engine := None\<rparr>"

definition SocketLibStart :: "u32 \<Rightarrow> start_env \<Rightarrow> SockLibGlobals \<Rightarrow> bool \<times> SockLibGlobals" where
  "SocketLibStart flags env g =
     (let g0 = (if lib_initialized g then g else (socketLibInit g)\<lparr>lib_initialized := True\<rparr>);
          g1 = g0\<lparr>lib_useCount := lib_useCount g0 + 1\<rparr>;
          g2 = (if has flags SOCK_LIB_FLAG_SSL then g1\<lparr>lib_ssl := True\<rparr> else g1)
      in if has flags SOCK_LIB_FLAG_ASYNC \<and> lib_engine g2 = None
         then (case SocketEventEngineAlloc env of
                 (eng, opened) \<Rightarrow>
                   (eng \<noteq> None, g2\<lparr>lib_engine := eng, epoll_open := epoll_open g2 + opened\<rparr>))
         else (True, g2))"

definition SocketLibStop :: "SockLibGlobals \<Rightarrow> SockLibGlobals" where
  "SocketLibStop g =
     (let g1 = g\<lparr>lib_useCount := lib_useCount g - 1\<rparr>
      in if lib_useCount g1 = 0
         then (case lib_engine g1 of
                 Some w \<Rightarrow> g1\<lparr>lib_engine := None, epoll_open := epoll_open g1 - SocketEventEngineFree w\<rparr>
               | None \<Rightarrow> g1)
         else g1)"

section \<open>Runs\<close>

text \<open>
  \<open>lib_run g n\<close>: the library has been started, with whatever result, \<open>n\<close> times more than it has
  been stopped; nobody stops it without having started it.
\<close>

inductive lib_run :: "SockLibGlobals \<Rightarrow> nat \<Rightarrow> bool" where
  fresh: "\<not> lib_initialized g \<Longrightarrow> lib_run g 0"
| started: "lib_run g n \<Longrightarrow> lib_run (snd (SocketLibStart flags env g)) (Suc n)"
| stopped: "lib_run g (Suc n) \<Longrightarrow> lib_run (SocketLibStop g) n"

lemma SocketLibStart_fields:
  assumes "lib_initialized g"
  shows "lib_useCount (snd (SocketLibStart flags env g)) = lib_useCount g + 1"
    "lib_initialized (snd (SocketLibStart flags env g))"
    "lib_engine g \<noteq> None \<Longrightarrow> lib_engine (snd (SocketLibStart flags env g)) = lib_engine g"
    "fst (SocketLibStart flags env g) \<Longrightarrow> has flags SOCK_LIB_FLAG_ASYNC \<Longrightarrow>
       lib_engine (snd (SocketLibStart flags env g)) \<noteq> None"
  using assms by (auto simp: SocketLibStart_def Let_def split: prod.splits if_splits)

lemma SocketLibStart_first:
  assumes "\<not> lib_initialized g"
  shows "SocketLibStart flags env g =
    SocketLibStart flags env ((socketLibInit g)\<lparr>lib_initialized := True\<rparr>)"
  using assms by (simp add: SocketLibStart_def Let_def)

definition lib_ok :: "SockLibGlobals \<Rightarrow> nat \<Rightarrow> bool" where
  "lib_ok g n \<longleftrightarrow> (if lib_initialized g then lib_useCount g = int n \<and> (n = 0 \<longrightarrow> lib_engine g = None)
                  else n = 0)"

lemma lib_run_ok: "lib_run g n \<Longrightarrow> lib_ok g n"
proof (induction rule: lib_run.induct)
  case (fresh g)
  then show ?case by (simp add: lib_ok_def)
next
  case (started g n flags env)
  show ?case
  proof (cases "lib_initialized g")
    case True
    with started.IH SocketLibStart_fields [OF True] show ?thesis by (simp add: lib_ok_def)
  next
    case False
    let ?g = "(socketLibInit g)\<lparr>lib_initialized := True\<rparr>"
    have "lib_initialized ?g" "lib_useCount ?g = 0" by (simp_all add: socketLibInit_def)
    with SocketLibStart_fields [of ?g] SocketLibStart_first [OF False] started.IH False show ?thesis
      by (simp add: lib_ok_def)
  qed
next
  case (stopped g n)
  then show ?case
    by (auto simp: lib_ok_def SocketLibStop_def Let_def split: option.splits if_splits)
qed

section \<open>Properties\<close>

text \<open>
  The event engine lives exactly as long as it is in use: as long as any start has not been
  matched by a stop, an engine that exists is not freed by stopping; when every start has been
  matched, there is none.  The use count is the number of unmatched starts; a start that failed
  counts as one.
\<close>
theorem engine_lives_while_used:
  assumes "lib_run g n"
  shows "(n = 0 \<longrightarrow> lib_initialized g \<longrightarrow> lib_engine g = None) \<and>
     (1 < n \<longrightarrow> lib_engine (SocketLibStop g) = lib_engine g) \<and>
     (0 < n \<longrightarrow> lib_useCount g = int n)"
  using lib_run_ok [OF assms]
  by (auto simp: lib_ok_def SocketLibStop_def Let_def split: if_splits)

text \<open>
  The epoll descriptors are never closed: starting the library for asynchronous use and
  stopping it again frees the engine but leaves two more descriptors open each time; when only the
  second descriptor cannot be created the start fails and the first one stays open.
\<close>
theorem epoll_descriptors_leak:
  assumes "lib_initialized g" "lib_useCount g = 0" "lib_engine g = None"
    and "st_memory env" "st_group env" "st_efd_in env \<noteq> - 1" "has flags SOCK_LIB_FLAG_ASYNC"
  shows "case SocketLibStart flags env g of (ok, g1) \<Rightarrow>
     (ok \<longleftrightarrow> st_efd_out env \<noteq> - 1) \<and> lib_engine (SocketLibStop g1) = None \<and>
     epoll_open (SocketLibStop g1) = epoll_open g + (if ok then 2 else 1)"
  using assms
  by (auto simp: SocketLibStart_def SocketLibStop_def SocketEventEngineAlloc_def SocketEventEngineFree_def
      sockEngineInit_def SocketPollInit_def efds_opened_def Let_def)

definition demo_lib :: SockLibGlobals where
  "demo_lib = \<lparr>lib_initialized = True, lib_useCount = 0, lib_ssl = False, lib_engine = None, epoll_open = 0\<rparr>"

definition demo_start :: start_env where
  "demo_start = \<lparr>st_memory = True, st_group = True, st_efd_in = 5, st_efd_out = 6, st_time = 1000\<rparr>"

lemma engine_lives_while_used_witness:
  "lib_useCount (snd (SocketLibStart SOCK_LIB_FLAG_ASYNC demo_start
     (snd (SocketLibStart SOCK_LIB_FLAG_ASYNC demo_start (demo_lib\<lparr>lib_initialized := False\<rparr>))))) = 2"
proof -
  let ?g = "snd (SocketLibStart SOCK_LIB_FLAG_ASYNC demo_start
     (snd (SocketLibStart SOCK_LIB_FLAG_ASYNC demo_start (demo_lib\<lparr>lib_initialized := False\<rparr>))))"
  have "lib_run ?g (Suc (Suc 0))" by (intro started fresh) simp
  from engine_lives_while_used [OF this] show ?thesis by simp
qed

lemma epoll_descriptors_leak_witness:
  "case SocketLibStart SOCK_LIB_FLAG_ASYNC demo_start demo_lib of (ok, g1) \<Rightarrow>
     ok \<and> epoll_open (SocketLibStop g1) = 2"
  using epoll_descriptors_leak [of demo_lib demo_start SOCK_LIB_FLAG_ASYNC]
  by (simp add: demo_lib_def demo_start_def has_def split: prod.splits)

end
