(* ===== verification/ThreadEngine.thy ===== *)
theory ThreadEngine
  imports Prelude
begin

text \<open>
  The thread engines (\<^verbatim>\<open>src/src/threadengine.c\<close>): a global list of engines, each a context with a
  function that starts a thread in it and one that counts its threads, and the two structures that
  carry a function and its argument into a new thread.
\<close>

section \<open>State\<close>

type_synonym u64 = "64 word"

record AThreadEngine =
  te_context :: ptr
  te_hasFree :: bool               \<comment> \<open>\<^verbatim>\<open>fccb\<close> is set\<close>

text \<open>\<open>at_freed\<close> lists the calls of the context free callbacks, \<open>at_live\<close> the engines not yet freed.\<close>

record AThreadGlobals =
  at_initialized :: bool
  at_list :: "ptr option"
  at_next :: "ptr \<Rightarrow> ptr option"
  at_engine :: "ptr \<Rightarrow> AThreadEngine"
  at_count :: u64
  at_freed :: "ptr list"
  at_live :: "ptr set"

section \<open>The list of engines\<close>

definition AThreadLibInit :: "AThreadGlobals \<Rightarrow> AThreadGlobals" where
  "AThreadLibInit g = g\<lparr>at_list := None, at_count := 0\<rparr>"

text \<open>\<open>memory\<close> is what \<^verbatim>\<open>MemMalloc()\<close> returns.\<close>

definition AThreadEngineCreate ::
    "ptr option \<Rightarrow> AThreadEngine \<Rightarrow> AThreadGlobals \<Rightarrow> ptr option \<times> AThreadGlobals" where
  "AThreadEngineCreate memory te g =
     (let g0 = (if at_initialized g then g else (AThreadLibInit g)\<lparr>at_initialized := True\<rparr>)
      in case memory of
           None \<Rightarrow> (None, g0)
         | Some e \<Rightarrow>
             (Some e, g0\<lparr>at_engine := (at_engine g0)(e := te), at_next := (at_next g0)(e := at_list g0),
                         at_list := Some e, at_live := insert e (at_live g0)\<rparr>))"

partial_function (option) destroy_walk ::
    "ptr \<Rightarrow> ptr option \<Rightarrow> ptr option \<Rightarrow> AThreadGlobals \<Rightarrow> AThreadGlobals option" where
  "destroy_walk e prev current g =
     (case current of
        None \<Rightarrow> Some g
      | Some c \<Rightarrow>
          if c = e then
            Some (case prev of
                    Some l \<Rightarrow> g\<lparr>at_next := (at_next g)(l := at_next g c)\<rparr>
                  | None \<Rightarrow> g\<lparr>at_list := at_next g c\<rparr>)
          else destroy_walk e current (at_next g c) g)"

definition AThreadEngineDestroy :: "ptr option \<Rightarrow> AThreadGlobals \<Rightarrow> AThreadGlobals option" where
  "AThreadEngineDestroy engine g =
     (case engine of
        None \<Rightarrow> Some g
      | Some e \<Rightarrow>
          (case destroy_walk e None (at_list g) g of
             None \<Rightarrow> None
           | Some g1 \<Rightarrow>
               (let g2 = (if te_hasFree (at_engine g1 e)
                          then g1\<lparr>at_freed := at_freed g1 @ [te_context (at_engine g1 e)]\<rparr> else g1)
                in Some (g2\<lparr>at_live := at_live g2 - {e}\<rparr>))))"

text \<open>\<open>counts\<close> is what the counting function of each engine returns.\<close>

partial_function (option) count_walk ::
    "(ptr \<Rightarrow> u64) \<Rightarrow> ptr option \<Rightarrow> u64 \<Rightarrow> AThreadGlobals \<Rightarrow> u64 option" where
  "count_walk counts engine threadCount g =
     (case engine of
        None \<Rightarrow> Some threadCount
      | Some e \<Rightarrow> count_walk counts (at_next g e) (threadCount + counts e) g)"

definition AThreadCountUpdate :: "(ptr \<Rightarrow> u64) \<Rightarrow> AThreadGlobals \<Rightarrow> (u64 \<times> AThreadGlobals) option" where
  "AThreadCountUpdate counts g =
     (if at_initialized g
      then map_option (\<lambda>n. (n, g\<lparr>at_count := n\<rparr>)) (count_walk counts (at_list g) 0 g)
      else Some (0, g))"

definition AThreadCountRead :: "AThreadGlobals \<Rightarrow> u64" where
  "AThreadCountRead g = (if at_initialized g then at_count g else 0)"

definition AThreadPeakCount :: u64 where
  "AThreadPeakCount = 0"

definition AThreadPeakTime :: int where
  "AThreadPeakTime = 0"

section \<open>The default engine\<close>

text \<open>\<open>gr\<close> is what \<^verbatim>\<open>XplThreadGroupCreate()\<close> returns; the result also says whether a stack size is set.\<close>

definition AThreadDefaultCreateContext :: "ptr option \<Rightarrow> u64 \<Rightarrow> ptr option \<times> bool" where
  "AThreadDefaultCreateContext gr stacksize = (gr, gr \<noteq> None \<and> stacksize \<noteq> 0)"

definition AThreadDefaultFreeContext :: "ptr option \<Rightarrow> ptr list" where
  "AThreadDefaultFreeContext context = (case context of Some gr \<Rightarrow> [gr] | None \<Rightarrow> [])"

definition AThreadDefaultThreadCount :: "int \<Rightarrow> u64" where
  "AThreadDefaultThreadCount ret = (if ret > - 1 then of_int ret else 0)"

section \<open>Starting a thread\<close>

text \<open>
  A block of memory that carries a function and its argument.  The function of the outer block is
  \<^verbatim>\<open>athreadstart()\<close>, whose argument is the inner block.
\<close>

datatype thread_fun = Client_function ptr | athreadstart

record AThread =
  th_func :: thread_fun
  th_arg :: ptr
  th_engine :: "ptr option"
  th_free :: bool

definition AThreadInit :: "ptr option \<Rightarrow> thread_fun \<Rightarrow> ptr \<Rightarrow> bool \<Rightarrow> AThread" where
  "AThreadInit engine func arg freeAThread =
     \<lparr>th_func = func, th_arg = arg, th_engine = engine, th_free = freeAThread\<rparr>"

text \<open>\<open>blk\<close> are the blocks in use, \<open>calls\<close> the calls of client functions, \<open>begun\<close> the threads begun.\<close>

record thread_memory =
  blk :: "ptr \<rightharpoonup> AThread"
  begun :: "ptr list"
  calls :: "(ptr \<times> ptr) list"

definition AThreadBegin :: "ptr \<Rightarrow> thread_memory \<Rightarrow> thread_memory" where
  "AThreadBegin a m = m\<lparr>begun := begun m @ [a]\<rparr>"

definition AThreadStart ::
    "ptr option \<Rightarrow> ptr option \<Rightarrow> ptr option \<Rightarrow> ptr \<Rightarrow> ptr \<Rightarrow> thread_memory \<Rightarrow> int \<times> errno \<times> thread_memory" where
  "AThreadStart mem1 mem2 engine func arg m =
     (case mem1 of
        None \<Rightarrow> (- 1, ENOMEM, m)
      | Some callback \<Rightarrow>
          (let m1 = m\<lparr>blk := (blk m)(callback := Some (AThreadInit None (Client_function func) arg False))\<rparr>
           in case mem2 of
                None \<Rightarrow> (- 1, ENOMEM, m1\<lparr>blk := (blk m1)(callback := None)\<rparr>)
              | Some athread \<Rightarrow>
                  (0, 0, AThreadBegin athread
                     (m1\<lparr>blk := (blk m1)(athread := Some (AThreadInit engine athreadstart callback True))\<rparr>))))"

text \<open>
  The new thread, \<^verbatim>\<open>DefaultThreadFunc()\<close> and \<^verbatim>\<open>athreadstart()\<close>; \<open>None\<close>: it follows a pointer to a
  block that is not in use.
\<close>

fun thread_call :: "nat \<Rightarrow> thread_fun \<Rightarrow> ptr \<Rightarrow> thread_memory \<Rightarrow> thread_memory option" where
  "thread_call n (Client_function f) arg m = Some (m\<lparr>calls := calls m @ [(f, arg)]\<rparr>)"
| "thread_call (Suc n) athreadstart arg m =
     (case blk m arg of
        None \<Rightarrow> None
      | Some c \<Rightarrow> thread_call n (th_func c) (th_arg c) (m\<lparr>blk := (blk m)(arg := None)\<rparr>))"
| "thread_call 0 athreadstart arg m = None"

definition DefaultThreadFunc :: "ptr \<Rightarrow> thread_memory \<Rightarrow> thread_memory option" where
  "DefaultThreadFunc a m =
     (case blk m a of
        None \<Rightarrow> None
      | Some t \<Rightarrow>
          if th_free t then thread_call 1 (th_func t) (th_arg t) (m\<lparr>blk := (blk m)(a := None)\<rparr>)
          else thread_call 1 (th_func t) (th_arg t) m)"

section \<open>The list as a list\<close>

text \<open>\<open>engines g xs\<close>: the global list holds the engines \<open>xs\<close>, all of them live.\<close>

definition engines :: "AThreadGlobals \<Rightarrow> ptr list \<Rightarrow> bool" where
  "engines g xs \<longleftrightarrow> distinct xs \<and> set xs \<subseteq> at_live g \<and>
     (if at_initialized g then chain (at_next g) (at_list g) xs else xs = [])"

lemma chain_last:
  "chain nx h (xs @ [y]) \<Longrightarrow> h \<noteq> None"
  by (cases xs) auto

lemma destroy_walk_absent:
  assumes "chain (at_next g) h xs" "e \<notin> set xs"
  shows "destroy_walk e prev h g = Some g"
  using assms
proof (induction xs arbitrary: h prev)
  case Nil
  then show ?case by (subst destroy_walk.simps) simp
next
  case (Cons x xs)
  then show ?case by (subst destroy_walk.simps) auto
qed

lemma destroy_walk_middle:
  assumes "chain (at_next g) (at_next g l) (ys @ e # zs)" "distinct (l # ys @ e # zs)"
  shows "destroy_walk e (Some l) (at_next g l) g =
    Some (g\<lparr>at_next := (at_next g)(last (l # ys) := at_next g e)\<rparr>)"
  using assms
proof (induction ys arbitrary: l)
  case Nil
  then show ?case by (subst destroy_walk.simps) simp
next
  case (Cons y ys)
  have h: "at_next g l = Some y" "chain (at_next g) (at_next g y) (ys @ e # zs)" "y \<noteq> e"
    "distinct (y # ys @ e # zs)" using Cons.prems by auto
  have "destroy_walk e (Some l) (at_next g l) g = destroy_walk e (Some y) (at_next g y) g"
    using h(1,3) by (subst destroy_walk.simps) simp
  also have "\<dots> = Some (g\<lparr>at_next := (at_next g)(last (y # ys) := at_next g e)\<rparr>)"
    by (rule Cons.IH [OF h(2,4)])
  finally show ?case by (simp only: last_ConsR list.distinct simp_thms)
qed

lemma chain_split:
  assumes "chain nx h (xs @ y # ys)"
  shows "chain nx (nx y) ys"
  using assms by (induction xs arbitrary: h) auto

lemma chain_skip:
  assumes "chain nx h (xs @ e # ys)" "distinct (xs @ e # ys)" "xs \<noteq> []"
  shows "chain (nx(last xs := nx e)) h (xs @ ys)"
  using assms
proof (induction xs arbitrary: h)
  case Nil
  then show ?case by simp
next
  case (Cons x xs)
  show ?case
  proof (cases "xs = []")
    case True
    with Cons.prems chain_frame [of x ys nx "nx e" "nx e"] show ?thesis by (simp add: fun_upd_def)
  next
    case False
    with Cons.prems have "x \<noteq> last xs" by (metis distinct.simps(2) distinct_append last_in_set)
    with Cons False show ?thesis by (simp del: last.simps add: last_ConsR)
  qed
qed

lemma destroy_walk_list:
  assumes "chain (at_next g) (at_list g) xs" "distinct xs" "e \<in> set xs"
  shows "\<exists>g'. destroy_walk e None (at_list g) g = Some g' \<and>
     chain (at_next g') (at_list g') (remove1 e xs) \<and> at_engine g' = at_engine g \<and>
     at_freed g' = at_freed g \<and> at_live g' = at_live g \<and> at_initialized g' = at_initialized g"
proof -
  obtain ys zs where xs: "xs = ys @ e # zs" using assms(3) by (auto simp: in_set_conv_decomp)
  have r: "remove1 e xs = ys @ zs" using assms(2) unfolding xs by (simp add: remove1_append)
  show ?thesis
  proof (cases ys)
    case Nil
    then have "at_list g = Some e" "chain (at_next g) (at_next g e) zs" using assms(1) xs by auto
    then have "destroy_walk e None (at_list g) g = Some (g\<lparr>at_list := at_next g e\<rparr>)"
      by (subst destroy_walk.simps) simp
    with \<open>chain (at_next g) (at_next g e) zs\<close> r Nil show ?thesis by simp
  next
    case (Cons y us)
    have h: "at_list g = Some y" "chain (at_next g) (at_next g y) (us @ e # zs)"
      using assms(1) xs Cons by auto
    have ne: "y \<noteq> e" using assms(2) xs Cons by auto
    have d: "distinct (y # us @ e # zs)" using assms(2) xs Cons by simp
    have "destroy_walk e None (at_list g) g = destroy_walk e (Some y) (at_next g y) g"
      using h(1) ne by (subst destroy_walk.simps) simp
    also have "\<dots> = Some (g\<lparr>at_next := (at_next g)(last (y # us) := at_next g e)\<rparr>)"
      by (rule destroy_walk_middle [OF h(2) d])
    finally show ?thesis
      using chain_skip [of "at_next g" "at_list g" "y # us" e zs] assms(1) d xs Cons r by simp
  qed
qed

lemma count_walk_sum:
  assumes "chain (at_next g) h xs"
  shows "count_walk counts h n g = Some (n + sum_list (map counts xs))"
  using assms
proof (induction xs arbitrary: h n)
  case Nil
  then show ?case by (subst count_walk.simps) simp
next
  case (Cons x xs)
  then show ?case by (subst count_walk.simps) (simp add: add.assoc)
qed

section \<open>Properties\<close>

text \<open>
  C34. The list of thread engines is a list: creating an engine puts it in front, destroying one
  takes it out wherever it is, in any number of engines, and calls its free callback once; the
  thread count is the sum over the engines that are there, modulo the width of the counter.
\<close>
theorem thread_engines_refine_list:
  assumes "engines g xs"
  shows "(\<forall>e te. e \<notin> at_live g \<longrightarrow> engines (snd (AThreadEngineCreate (Some e) te g)) (e # xs)) \<and>
     (\<forall>e. e \<in> set xs \<longrightarrow> (\<exists>g'. AThreadEngineDestroy (Some e) g = Some g' \<and> engines g' (remove1 e xs) \<and>
        at_freed g' = at_freed g @ (if te_hasFree (at_engine g e) then [te_context (at_engine g e)] else []))) \<and>
     (\<forall>counts. \<exists>g'. AThreadCountUpdate counts g = Some (sum_list (map counts xs), g') \<and>
        engines g' xs \<and> AThreadCountRead g' = sum_list (map counts xs))"
proof (intro conjI allI impI)
  fix e te assume e: "e \<notin> at_live g"
  with assms have "e \<notin> set xs" by (auto simp: engines_def)
  with assms show "engines (snd (AThreadEngineCreate (Some e) te g)) (e # xs)"
    by (auto simp: engines_def AThreadEngineCreate_def AThreadLibInit_def Let_def split: if_splits)
next
  fix e assume e: "e \<in> set xs"
  with assms have i: "at_initialized g" "chain (at_next g) (at_list g) xs" "distinct xs"
    by (auto simp: engines_def split: if_splits)
  from destroy_walk_list [OF i(2,3) e] obtain g1 where g1: "destroy_walk e None (at_list g) g = Some g1"
    "chain (at_next g1) (at_list g1) (remove1 e xs)" "at_engine g1 = at_engine g"
    "at_freed g1 = at_freed g" "at_live g1 = at_live g" "at_initialized g1 = at_initialized g" by blast
  with assms i show "\<exists>g'. AThreadEngineDestroy (Some e) g = Some g' \<and> engines g' (remove1 e xs) \<and>
        at_freed g' = at_freed g @ (if te_hasFree (at_engine g e) then [te_context (at_engine g e)] else [])"
    by (auto simp: AThreadEngineDestroy_def engines_def Let_def)
next
  fix counts
  show "\<exists>g'. AThreadCountUpdate counts g = Some (sum_list (map counts xs), g') \<and>
        engines g' xs \<and> AThreadCountRead g' = sum_list (map counts xs)"
    using assms count_walk_sum [of g "at_list g" xs counts 0]
    by (auto simp: AThreadCountUpdate_def AThreadCountRead_def engines_def split: if_splits)
qed

text \<open>
  A thread that was started calls the client's function with its argument exactly once and
  frees both blocks that carried them; when either block cannot be allocated nothing is left behind
  and the caller is told.
\<close>
theorem thread_start_runs_once:
  assumes "\<forall>a b. mem1 = Some a \<longrightarrow> mem2 = Some b \<longrightarrow> a \<noteq> b"
    and "\<forall>a. mem1 = Some a \<or> mem2 = Some a \<longrightarrow> blk m a = None"
  shows "case AThreadStart mem1 mem2 engine func arg m of (ret, err, m1) \<Rightarrow>
     (if mem1 = None \<or> mem2 = None then ret = - 1 \<and> err = ENOMEM \<and> m1 = m
      else ret = 0 \<and> (\<exists>m2. DefaultThreadFunc (the mem2) m1 = Some m2 \<and>
             calls m2 = calls m @ [(func, arg)] \<and> blk m2 = blk m \<and> begun m2 = begun m @ [the mem2]))"
proof (cases mem1)
  case (Some a)
  show ?thesis
  proof (cases mem2)
    case None
    have "(blk m)(a := None) = blk m" using assms(2) Some by (auto simp: fun_eq_iff)
    with None Some show ?thesis by (simp add: AThreadStart_def)
  next
    case (Some b)
    have ab: "a \<noteq> b" "blk m a = None" "blk m b = None" using assms Some \<open>mem1 = Some a\<close> by auto
    have u: "((blk m)(b := x, a := y)) = ((blk m)(a := y, b := x))" for x y using ab by (simp add: fun_upd_twist)
    have f: "(blk m)(a := None) = blk m" "(blk m)(b := None) = blk m" using ab by (auto simp: fun_eq_iff)
    show ?thesis
      using ab Some \<open>mem1 = Some a\<close>
      by (simp add: AThreadStart_def AThreadBegin_def AThreadInit_def DefaultThreadFunc_def)
        (simp add: fun_eq_iff)
  qed
qed (simp add: AThreadStart_def)


definition demo_threads :: AThreadGlobals where
  "demo_threads = \<lparr>at_initialized = True, at_list = Some 8, at_next = (\<lambda>e. if e = 8 then Some 7 else None),
     at_engine = (\<lambda>_. \<lparr>te_context = 70, te_hasFree = True\<rparr>), at_count = 0, at_freed = [], at_live = {7, 8}\<rparr>"

lemma thread_engines_refine_list_witness:
  "\<exists>g'. AThreadEngineDestroy (Some 7) demo_threads = Some g' \<and> engines g' [8] \<and> at_freed g' = [70]"
proof -
  have "engines demo_threads [8, 7]" by (simp add: engines_def demo_threads_def)
  from thread_engines_refine_list [OF this] have "\<exists>g'. AThreadEngineDestroy (Some 7) demo_threads = Some g' \<and>
      engines g' (remove1 7 [8, 7]) \<and> at_freed g' = at_freed demo_threads @
        (if te_hasFree (at_engine demo_threads 7) then [te_context (at_engine demo_threads 7)] else [])" by simp
  then show ?thesis by (simp add: demo_threads_def)
qed

lemma thread_start_runs_once_witness:
  "\<exists>m1 m2. AThreadStart (Some 3) (Some 4) None 20 21 \<lparr>blk = Map.empty, begun = [], calls = []\<rparr> = (0, 0, m1) \<and>
     DefaultThreadFunc 4 m1 = Some m2 \<and> calls m2 = [(20, 21)]"
  using thread_start_runs_once [where ?mem1.0 = "Some 3" and ?mem2.0 = "Some 4" and engine = None
      and func = 20 and arg = 21 and m = "\<lparr>blk = Map.empty, begun = [], calls = []\<rparr>"]
  by (auto simp: AThreadStart_def)

end
