(* ===== verification/HandleAlloc.thy ===== *)
theory HandleAlloc
  imports SockLib ThreadEngine ConnLists HandleShutdown
begin

unbundle bit_operations_syntax

text \<open>
  Allocating and freeing a handle (\<^verbatim>\<open>src/src/connio.c\<close>): the identity, the time outs, the cache
  parameters, the SSL contexts, the two thread engines, and what each of the many error paths gives
  back.  The world keeps the blocks of memory and the SSL contexts that are in use, the socket
  library (theory \<open>SockLib\<close>), the thread engines (theory \<open>ThreadEngine\<close>) and the list of handles
  (theory \<open>ConnLists\<close>).
\<close>

section \<open>State\<close>

record ConnTimeouts =
  ct_accept :: int
  ct_connect :: int
  ct_disconnect :: int
  ct_receive :: int
  ct_send :: int
  ct_shutdown :: int

record ConnHandleConfig =
  cf_minimum :: nat
  cf_maximum :: nat
  cf_connect :: int
  cf_disconnect :: int
  cf_receive :: int
  cf_send :: int
  cf_shutdown :: int
  cf_internal :: "ptr option"
  cf_consumer :: "ptr option"

record ConnHandlePriv =
  ch_identity :: string
  ch_identity_block :: ptr
  ch_fixed :: u32
  ch_dynamic :: u32
  ch_shuttingDown :: bool
  ch_sslv23_client :: "ptr option"
  ch_tls_client :: "ptr option"
  ch_sslv23_server :: "ptr option"
  ch_tls_server :: "ptr option"
  ch_internal :: "ptr option"
  ch_consumer :: "ptr option"
  ch_timeOut :: ConnTimeouts
  ch_slab :: nat                    \<comment> \<open>conns the pool creates at a time\<close>

record connio_world =
  cw_lib :: SockLibGlobals
  cw_threads :: AThreadGlobals
  cw_handles :: handle_list
  cw_memory :: "ptr set"
  cw_contexts :: "ptr set"
  cw_groups :: "ptr set"            \<comment> \<open>thread groups, the contexts of default engines\<close>

text \<open>What the allocator, OpenSSL and the thread library answer to one call.\<close>

record alloc_env =
  al_start :: start_env
  al_handle :: "ptr option"
  al_identity :: "ptr option"
  al_sslv23 :: "ptr option"
  al_tls :: "ptr option"
  al_group_internal :: "ptr option"
  al_engine_internal :: "ptr option"
  al_group_consumer :: "ptr option"
  al_engine_consumer :: "ptr option"
  al_pool :: bool

abbreviation (input) CONN_HANDLE_SSL_CLIENT_ENABLED :: u32 where "CONN_HANDLE_SSL_CLIENT_ENABLED \<equiv> 0x01"
abbreviation (input) CONN_HANDLE_SSL_SERVER_ENABLED :: u32 where "CONN_HANDLE_SSL_SERVER_ENABLED \<equiv> 0x02"

section \<open>Pieces\<close>

text \<open>The part of a string behind the last occurrence of a character (\<^verbatim>\<open>strrchr()\<close>).\<close>

definition after_last :: "char \<Rightarrow> string \<Rightarrow> string option" where
  "after_last c s = (if c \<in> set s then Some (rev (takeWhile (\<lambda>x. x \<noteq> c) (rev s))) else None)"

definition base_name :: "string \<Rightarrow> string" where
  "base_name s =
     (case after_last (CHR ''/'') s of
        Some t \<Rightarrow> t
      | None \<Rightarrow> (case after_last (CHR 0x5C) s of Some t \<Rightarrow> t | None \<Rightarrow> s))"

text \<open>The text that \<^verbatim>\<open>CopyIdentity()\<close> copies; \<open>None\<close>: it is empty, or there is no identity.\<close>

definition identity_text :: "string \<Rightarrow> string" where
  "identity_text s =
     (let idStart = base_name s
      in if after_last (CHR ''.'') idStart = Some ''c'' then take (length idStart - 2) idStart
         else idStart)"

definition CopyIdentity :: "ptr option \<Rightarrow> string option \<Rightarrow> (string \<times> ptr) option" where
  "CopyIdentity memory identity =
     (case identity of
        None \<Rightarrow> None
      | Some s \<Rightarrow>
          if identity_text s = [] then None
          else map_option (\<lambda>p. (identity_text s, p)) memory)"

definition connTimeoutInit :: "ConnHandleConfig option \<Rightarrow> ConnTimeouts" where
  "connTimeoutInit config =
     (let pick = (\<lambda>field dflt. case config of Some c \<Rightarrow> (if field c \<noteq> 0 then field c else dflt) | None \<Rightarrow> dflt)
      in \<lparr>ct_accept = pick cf_connect (2 * 60 * 1000), ct_connect = pick cf_connect (2 * 60 * 1000),
          ct_disconnect = pick cf_disconnect (3 * 1000), ct_receive = pick cf_receive (15 * 60 * 1000),
          ct_send = pick cf_send (15 * 60 * 1000), ct_shutdown = pick cf_shutdown (3 * 1000)\<rparr>)"

text \<open>
  \<^verbatim>\<open>connCacheInit()\<close>: an errno, or the number of conns in a slab and the bytes of \<^verbatim>\<open>name[256]\<close>
  that were written.  A pool that cannot be created leaves errno alone.
\<close>

definition connCacheInit :: "bool \<Rightarrow> string \<Rightarrow> ConnHandleConfig option \<Rightarrow> errno + nat \<times> nat" where
  "connCacheInit pool identity config =
     (let bounds =
        (case config of
           None \<Rightarrow> Inr 250
         | Some c \<Rightarrow>
             if cf_minimum c = 0 \<and> cf_maximum c = 0 then Inr 250
             else if cf_minimum c < 1 \<or> cf_maximum c < cf_minimum c then Inl EINVAL
             else Inr (cf_minimum c))
      in case bounds of
           Inl e \<Rightarrow> Inl e
         | Inr minimum \<Rightarrow>
             if length identity \<ge> 256 - 16 then Inl EMSGSIZE
             else if pool then Inr (minimum, length identity + 1 + 12)
             else Inl 0)"

section \<open>Thread engines of a handle\<close>

definition new_engine ::
    "ptr option \<Rightarrow> ptr option \<Rightarrow> connio_world \<Rightarrow> ptr option \<times> connio_world" where
  "new_engine gr eng w =
     (case gr of
        None \<Rightarrow> (None, w)
      | Some g \<Rightarrow>
          (let w1 = w\<lparr>cw_groups := insert g (cw_groups w)\<rparr>;
               (e, th) = AThreadEngineCreate eng \<lparr>te_context = g, te_hasFree = True\<rparr> (cw_threads w1);
               w2 = w1\<lparr>cw_threads := th\<rparr>
           in case e of
                None \<Rightarrow> (None, w2\<lparr>cw_groups := cw_groups w2 - {g}\<rparr>)
              | Some p \<Rightarrow> (Some p, w2)))"

text \<open>\<^verbatim>\<open>internalThreadEngineSet()\<close> and \<^verbatim>\<open>defaultConsumerThreadEngineSet()\<close>: error, engine, world.\<close>

definition threadEngineSet ::
    "ptr option \<Rightarrow> ptr option \<Rightarrow> ptr option \<Rightarrow> ptr option \<Rightarrow> connio_world \<Rightarrow> int \<times> ptr option \<times> connio_world" where
  "threadEngineSet configured global gr eng w =
     (if configured \<noteq> None then (0, configured, w)
      else if global \<noteq> None then (0, global, w)
      else (case new_engine gr eng w of
              (None, w1) \<Rightarrow> (- 1, None, w1)
            | (Some e, w1) \<Rightarrow> (0, Some e, w1)))"

definition destroy_engine :: "ptr \<Rightarrow> connio_world \<Rightarrow> connio_world option" where
  "destroy_engine e w =
     map_option (\<lambda>th. w\<lparr>cw_threads := th,
         cw_groups := cw_groups w - (if te_hasFree (at_engine (cw_threads w) e)
                                     then {te_context (at_engine (cw_threads w) e)} else {})\<rparr>)
       (AThreadEngineDestroy (Some e) (cw_threads w))"

definition threadEngineClear ::
    "ptr option \<Rightarrow> ptr option \<Rightarrow> ptr option \<Rightarrow> connio_world \<Rightarrow> connio_world option" where
  "threadEngineClear own configured global w =
     (case own of
        None \<Rightarrow> Some w
      | Some e \<Rightarrow>
          if configured = Some e then Some w
          else if global = Some e then Some w
          else destroy_engine e w)"

section \<open>ConnHandleAllocEx\<close>

definition free_context :: "ptr option \<Rightarrow> connio_world \<Rightarrow> connio_world option" where
  "free_context c w =
     (case c of
        None \<Rightarrow> Some w
      | Some p \<Rightarrow> if p \<in> cw_contexts w then Some (w\<lparr>cw_contexts := cw_contexts w - {p}\<rparr>) else None)"

definition free_block :: "ptr \<Rightarrow> connio_world \<Rightarrow> connio_world" where
  "free_block p w = w\<lparr>cw_memory := cw_memory w - {p}\<rparr>"

definition new_context :: "ptr option \<Rightarrow> connio_world \<Rightarrow> connio_world" where
  "new_context c w = (case c of None \<Rightarrow> w | Some p \<Rightarrow> w\<lparr>cw_contexts := insert p (cw_contexts w)\<rparr>)"

text \<open>
  The two contexts of \<^verbatim>\<open>CONN_HANDLE_SSL_CLIENT_ENABLED\<close>; the second is only created when the first
  was.  \<open>None\<close>: a context was freed that is not in use.
\<close>

definition client_contexts ::
    "alloc_env \<Rightarrow> u32 \<Rightarrow> connio_world \<Rightarrow> ((ptr option \<times> ptr option) option \<times> connio_world) option" where
  "client_contexts env flags w =
     (if has flags CONN_HANDLE_SSL_CLIENT_ENABLED then
        (case al_sslv23 env of
           None \<Rightarrow> Some (None, w)
         | Some a \<Rightarrow>
             (let w1 = new_context (Some a) w
              in case al_tls env of
                   None \<Rightarrow> map_option (\<lambda>w2. (None, w2)) (free_context (Some a) w1)
                 | Some b \<Rightarrow> Some (Some (Some a, Some b), new_context (Some b) w1)))
      else Some (Some (None, None), w))"

definition lib_flags :: "u32 \<Rightarrow> u32" where
  "lib_flags flags =
     (if has flags (CONN_HANDLE_SSL_CLIENT_ENABLED OR CONN_HANDLE_SSL_SERVER_ENABLED)
      then SOCK_LIB_FLAG_SSL else 0) OR
     (if has flags CONN_HANDLE_ASYNC_ENABLED then SOCK_LIB_FLAG_ASYNC else 0)"

text \<open>
  \<^verbatim>\<open>ConnHandleAllocEx()\<close> from the parameter checks on, with \<^verbatim>\<open>ConnIO\<close> running.  The result is the
  handle with its address, or nothing.  The outer \<open>None\<close>: memory that is not in use was freed, or
  the list of engines is broken.
\<close>

definition alloc_engines ::
    "alloc_env \<Rightarrow> u32 \<Rightarrow> ConnHandleConfig option \<Rightarrow> connio_world \<Rightarrow>
     ((ptr option \<times> ptr option) option \<times> connio_world) option" where
  "alloc_engines env flags config w =
     (if has flags CONN_HANDLE_ASYNC_ENABLED then
        (let ci = Option.bind config cf_internal; cc = Option.bind config cf_consumer;
             gi = hl_internal (cw_handles w); gc = hl_consumer (cw_handles w);
             (r1, e1, w1) = threadEngineSet ci gi (al_group_internal env) (al_engine_internal env) w;
             (r2, e2, w2) = (if r1 \<noteq> 0 then (r1, None, w1)
                             else threadEngineSet cc gc (al_group_consumer env) (al_engine_consumer env) w1)
         in if r2 \<noteq> 0 then
              (case threadEngineClear e2 cc gc w2 of
                 None \<Rightarrow> None
               | Some w3 \<Rightarrow> map_option (\<lambda>w4. (None, w4)) (threadEngineClear e1 ci gi w3))
            else Some (Some (e1, e2), w2))
      else Some (Some (None, None), w))"

definition ConnHandleAllocEx ::
    "alloc_env \<Rightarrow> string option \<Rightarrow> u32 \<Rightarrow> ConnHandleConfig option \<Rightarrow> connio_world \<Rightarrow>
     ((ptr \<times> ConnHandlePriv) option \<times> connio_world) option" where
  "ConnHandleAllocEx env identity flags config w =
     (if identity = None then Some (None, w)
      else if has flags (NOT (CONN_HANDLE_SSL_CLIENT_ENABLED OR CONN_HANDLE_SSL_SERVER_ENABLED OR
                              CONN_HANDLE_ASYNC_ENABLED)) then Some (None, w)
      else
        (case SocketLibStart (lib_flags flags) (al_start env) (cw_lib w) of (ok, lib) \<Rightarrow>
          (let w0 = w\<lparr>cw_lib := lib\<rparr>
           in if \<not> ok then Some (None, w0)
              else (case al_handle env of
                None \<Rightarrow> Some (None, w0)
              | Some h \<Rightarrow>
                  (let w1 = w0\<lparr>cw_memory := insert h (cw_memory w0)\<rparr>
                   in case CopyIdentity (al_identity env) identity of
                        None \<Rightarrow> Some (None, free_block h w1)
                      | Some (name, ip) \<Rightarrow>
                          (let w2 = w1\<lparr>cw_memory := insert ip (cw_memory w1)\<rparr>;
                               give_up = (\<lambda>v. (None, free_block h (free_block ip v)))
                           in case client_contexts env flags w2 of
                                None \<Rightarrow> None
                              | Some (None, w3) \<Rightarrow> Some (give_up w3)
                              | Some (Some (c1, c2), w3) \<Rightarrow>
                                  (case alloc_engines env flags config w3 of
                                     None \<Rightarrow> None
                                   | Some (None, w4) \<Rightarrow>
                                       map_option give_up
                                         (Option.bind (free_context c1 w4) (free_context c2))
                                   | Some (Some (e1, e2), w4) \<Rightarrow>
                                       (case connCacheInit (al_pool env) name config of
                                          Inl _ \<Rightarrow>
                                            map_option give_up
                                              (Option.bind (free_context c1 w4) (free_context c2))
                                        | Inr (slab, _) \<Rightarrow>
                                            Some (Some (h, \<lparr>ch_identity = name, ch_identity_block = ip,
                                               ch_fixed = flags, ch_dynamic = 0, ch_shuttingDown = False,
                                               ch_sslv23_client = c1, ch_tls_client = c2,
                                               ch_sslv23_server = None, ch_tls_server = None,
                                               ch_internal = e1, ch_consumer = e2,
                                               ch_timeOut = connTimeoutInit config, ch_slab = slab\<rparr>),
                                             w4\<lparr>cw_handles := ConnHandleRemember (e1, e2)
                                               (Option.bind config cf_internal, Option.bind config cf_consumer)
                                               h (handle_memset h (cw_handles w4))\<rparr>)))))))))"

section \<open>Flags and certificates\<close>

definition ConnHandleFlagsModify :: "u32 \<Rightarrow> u32 \<Rightarrow> ConnHandlePriv option \<Rightarrow> u32 \<times> ConnHandlePriv option" where
  "ConnHandleFlagsModify addFlags removeFlags ho =
     (case ho of
        None \<Rightarrow> (- 1, None)
      | Some h \<Rightarrow>
          (let h1 = h\<lparr>ch_dynamic := ch_dynamic h OR addFlags\<rparr>;
               h2 = h1\<lparr>ch_dynamic := ch_dynamic h1 AND NOT removeFlags\<rparr>
           in (ch_dynamic h2, Some h2)))"

definition ConnHandleStaticFlags :: "ConnHandlePriv option \<Rightarrow> u32" where
  "ConnHandleStaticFlags ho = (case ho of None \<Rightarrow> - 1 | Some h \<Rightarrow> ch_fixed h)"

text \<open>
  \<^verbatim>\<open>CreateServerContext()\<close>: \<open>ctx\<close> is what \<^verbatim>\<open>SSL_CTX_new()\<close> returns, \<open>loads\<close> whether certificate and
  key can be loaded and match.  A context that is no use is freed at once.
\<close>

definition CreateServerContext :: "ptr option \<Rightarrow> bool \<Rightarrow> connio_world \<Rightarrow> ptr option \<times> connio_world" where
  "CreateServerContext ctx loads w =
     (case ctx of
        None \<Rightarrow> (None, w)
      | Some p \<Rightarrow> if loads then (Some p, new_context (Some p) w) else (None, w))"

text \<open>
  \<^verbatim>\<open>ConnLoadServerCertificate()\<close>; \<open>path\<close> tells whether there is a path to a public key.  \<open>None\<close>: a
  context that is not in use was freed.
\<close>

definition ConnLoadServerCertificate ::
    "(ptr option \<times> bool) \<times> (ptr option \<times> bool) \<Rightarrow> bool \<Rightarrow> ConnHandlePriv \<Rightarrow> connio_world \<Rightarrow>
     (bool \<times> ConnHandlePriv \<times> connio_world) option" where
  "ConnLoadServerCertificate ctxs path h w =
     (case free_context (ch_sslv23_server h) w of
        None \<Rightarrow> None
      | Some w1 \<Rightarrow>
          (case free_context (ch_tls_server h) w1 of
             None \<Rightarrow> None
           | Some w2 \<Rightarrow>
               (let h1 = h\<lparr>ch_sslv23_server := None, ch_tls_server := None\<rparr>
                in if \<not> ch_shuttingDown h1 \<and> has (ch_fixed h1) CONN_HANDLE_SSL_SERVER_ENABLED \<and> path then
                     (case CreateServerContext (fst (fst ctxs)) (snd (fst ctxs)) w2 of
                        (None, w3) \<Rightarrow> Some (False, h1, w3)
                      | (Some a, w3) \<Rightarrow>
                          (let h2 = h1\<lparr>ch_sslv23_server := Some a\<rparr>
                           in case CreateServerContext (fst (snd ctxs)) (snd (snd ctxs)) w3 of
                                (Some b, w4) \<Rightarrow> Some (True, h2\<lparr>ch_tls_server := Some b\<rparr>, w4)
                              | (None, w4) \<Rightarrow>
                                  map_option (\<lambda>w5. (False, h2, w5)) (free_context (ch_sslv23_server h2) w4)))
                   else Some (False, h1, w2))))"

section \<open>ConnHandleFree\<close>

definition destroy_opt :: "ptr option \<Rightarrow> connio_world \<Rightarrow> connio_world option" where
  "destroy_opt e w = (case e of None \<Rightarrow> Some w | Some p \<Rightarrow> destroy_engine p w)"

text \<open>\<^verbatim>\<open>ConnHandleForget()\<close> and the engines that go with the last handle.\<close>

definition forget_handle :: "ptr \<Rightarrow> connio_world \<Rightarrow> connio_world option" where
  "forget_handle p w =
     (let l = cw_handles w; w1 = w\<lparr>cw_handles := ConnHandleForget p l\<rparr>
      in if hl_count l - 1 < 1
         then Option.bind (destroy_opt (hl_internal l) w1) (destroy_opt (hl_consumer l))
         else Some w1)"

text \<open>
  \<^verbatim>\<open>CloseHandleConnections()\<close> kills the connections in use in order; it always returns 0.  Listeners are
  not killed.
\<close>

definition CloseHandleConnections :: "'w sys_ops \<Rightarrow> nat \<Rightarrow> ('b, 'w) hw \<Rightarrow> (int \<times> ('b, 'w) hw) option" where
  "CloseHandleConnections sys src s =
     map_option (Pair 0) (on_conns (\<lambda>cn. map_option snd (connKillEx sys src cn)) s)"

definition ConnHandleFree ::
    "'w sys_ops \<Rightarrow> nat \<Rightarrow> (ptr \<times> ConnHandlePriv) option \<Rightarrow> connio_world \<Rightarrow> ('b, 'w) hw \<Rightarrow>
     (int \<times> connio_world \<times> ('b, 'w) hw) option" where
  "ConnHandleFree sys src ho w s =
     (case ho of
        None \<Rightarrow> Some (SOCKET_ERROR, w, s)
      | Some (p, h) \<Rightarrow>
          Option.bind (forget_handle p w) (\<lambda>w1.
          Option.bind (CloseHandleConnections sys src s) (\<lambda>(ccode, s1).
            (let w2 = w1\<lparr>cw_lib := SocketLibStop (cw_lib w1)\<rparr>
             in Option.bind (free_context (ch_sslv23_client h) w2) (\<lambda>w3.
                Option.bind (free_context (ch_sslv23_server h) w3) (\<lambda>w4.
                Option.bind (free_context (ch_tls_client h) w4) (\<lambda>w5.
                Option.bind (free_context (ch_tls_server h) w5) (\<lambda>w6.
                  Some (ccode, free_block p (free_block (ch_identity_block h) w6), s1)))))))))"

end
