(* ===== verification/SockSetup.thy ===== *)
theory SockSetup
  imports SockIO Instances
begin

unbundle bit_operations_syntax

text \<open>
  Where sockets come from and where they go (\<^verbatim>\<open>src/src/sockcommon.c\<close>): allocating and releasing a
  \<^verbatim>\<open>SOCK\<close>, listening, accepting, the worker of an accepted connection, and the addresses of a
  socket.  What the kernel answers is the \<open>sys_ops\<close> of theory \<open>SockIO\<close> and, for the calls that
  only listeners make, \<open>listen_ops\<close>.
\<close>

section \<open>Timeouts\<close>

definition SocketTimeoutSet :: "int \<Rightarrow> int \<Rightarrow> int \<times> int" where
  "SocketTimeoutSet timeout milliseconds = (timeout, milliseconds)"

definition SocketTimeoutGet :: "int \<Rightarrow> int" where
  "SocketTimeoutGet timeout = timeout"

section \<open>Allocating and releasing\<close>

text \<open>\<open>memory\<close> tells whether \<^verbatim>\<open>MemMalloc()\<close> works; \<^verbatim>\<open>memset()\<close> clears everything first.\<close>

definition SocketAlloc :: "bool \<Rightarrow> int \<Rightarrow> SOCK option" where
  "SocketAlloc memory listenerId =
     (if memory then
        (let s = \<lparr>number = SOCKET_INVALID, ssl_new = None, ssl_conn = None, listener = None,
                   ev_connect = sockEventInit, ev_receive = sockEventInit, ev_send = sockEventInit,
                   listenerID = 0, lev_log = []\<rparr>;
             s1 = socketReset s
         in Some (s1\<lparr>listenerID := listenerId, ev_receive := sockEventInit,
                     ev_send := sockEventInit, ev_connect := sockEventInit\<rparr>))
      else None)"

definition SocketInit :: "SOCK \<Rightarrow> SOCK" where
  "SocketInit s = (socketReset s)\<lparr>ev_receive := sockEventInit, ev_send := sockEventInit,
     ev_connect := sockEventInit\<rparr>"

definition socketEventsClean :: "SOCK \<Rightarrow> SOCK" where
  "socketEventsClean s =
     (let s1 = s\<lparr>ev_send := sockEventClean (ev_send s)\<rparr>;
          s2 = s1\<lparr>ev_receive := sockEventClean (ev_receive s1)\<rparr>
      in s2\<lparr>ev_connect := sockEventClean (ev_connect s2)\<rparr>)"

text \<open>The socket is gone afterwards; the result is what is left of the world.\<close>

definition socketRelease :: "'w sys_ops \<Rightarrow> SOCK option \<Rightarrow> 'w net \<Rightarrow> 'w net" where
  "socketRelease sys so n =
     (case so of
        None \<Rightarrow> n
      | Some s \<Rightarrow> if number s \<noteq> SOCKET_INVALID then snd (snd (socketClose sys (s, n))) else n)"

section \<open>Listening\<close>

record 'w listen_ops =
  lo_reuse :: "int \<Rightarrow> 'w \<Rightarrow> errno \<times> 'w"
  lo_listen :: "int \<Rightarrow> int \<Rightarrow> 'w \<Rightarrow> errno \<times> 'w"
  lo_blocking :: "int \<Rightarrow> 'w \<Rightarrow> errno \<times> 'w"
  lo_sockname :: "int \<Rightarrow> 'w \<Rightarrow> (int \<times> ptr) \<times> 'w"   \<comment> \<open>result, address\<close>
  lo_peername :: "int \<Rightarrow> 'w \<Rightarrow> (int \<times> ptr) \<times> 'w"
  lo_accept :: "int \<Rightarrow> 'w \<Rightarrow> int \<times> 'w"

text \<open>
  The counter of listener identifiers is an \<^verbatim>\<open>unsigned long\<close>, the identifier an \<^verbatim>\<open>int\<close>; the
  conversion keeps the low 32 bits.
\<close>

definition getListenerUid :: "64 word \<Rightarrow> 64 word \<times> 64 word" where
  "getListenerUid nextListener = (let uid = nextListener + 1 in (uid, uid))"

definition as_int :: "64 word \<Rightarrow> int" where
  "as_int x = sint (ucast x :: 32 word)"

definition socketListen ::
    "'w sys_ops \<Rightarrow> 'w listen_ops \<Rightarrow> int \<Rightarrow> int \<Rightarrow> 64 word \<Rightarrow> 'w io \<Rightarrow> int \<times> 64 word \<times> 'w io" where
  "socketListen sys lo backlog lid uid sn =
     (case in_kernel (sys_socket sys) (snd sn) of ((fd, _), n1) \<Rightarrow>
        (let s1 = (fst sn)\<lparr>number := fd\<rparr>
         in if fd \<noteq> SOCKET_INVALID then
              (let n2 = snd (in_kernel (lo_reuse lo fd) n1);
                   fail = (\<lambda>n. (- 1, uid, snd (socketClose sys (s1, n))))
               in case in_kernel (sys_bind sys fd) n2 of (berr, n3) \<Rightarrow>
                    if berr \<noteq> 0 then fail n3
                    else (case in_kernel (lo_listen lo fd backlog) n3 of (lerr, n4) \<Rightarrow>
                      if lerr \<noteq> 0 then fail n4
                      else (case in_kernel (lo_blocking lo fd) n4 of (merr, n5) \<Rightarrow>
                        if merr \<noteq> 0 then fail n5
                        else (case in_kernel (lo_sockname lo fd) n5 of ((r, _), n6) \<Rightarrow>
                          if r \<noteq> 0 then fail n6
                          else if lid \<noteq> 0 then (0, uid, s1\<lparr>listenerID := lid\<rparr>, n6)
                          else (case getListenerUid uid of (new_id, uid1) \<Rightarrow>
                                  (0, uid1, s1\<lparr>listenerID := as_int new_id\<rparr>, n6))))))
            else (- 1, uid, s1, n1)))"

definition SocketAccept ::
    "'w sys_ops \<Rightarrow> 'w listen_ops \<Rightarrow> bool \<Rightarrow> SOCK \<Rightarrow> 'w net \<Rightarrow> SOCK option \<times> 'w net" where
  "SocketAccept sys lo memory listenerSp n =
     (case SocketAlloc memory (listenerID listenerSp) of
        None \<Rightarrow> (None, n)
      | Some childSp \<Rightarrow>
          (case in_kernel (lo_accept lo (number listenerSp)) n of (fd, n1) \<Rightarrow>
             (let c1 = childSp\<lparr>number := fd\<rparr>
              in if fd \<noteq> SOCKET_INVALID then
                   (case in_kernel (sys_nonblocking sys fd) n1 of (merr, n2) \<Rightarrow>
                      if merr = 0 then (Some (c1\<lparr>listenerID := listenerID listenerSp\<rparr>), n2)
                      else (None, socketRelease sys (Some c1) n2))
                 else (None, socketRelease sys (Some c1) n1))))"

section \<open>Addresses\<close>

text \<open>
  A client that connects from a loopback address is reported by the address it connected to.
  \<open>loopback\<close> is \<^verbatim>\<open>XplIsLoopbackAddress()\<close>; \<open>addr\<close> is what the caller's buffer holds before.
\<close>

definition socketGetSockAddr ::
    "'w listen_ops \<Rightarrow> ptr \<Rightarrow> 'w io \<Rightarrow> int \<times> ptr \<times> 'w net" where
  "socketGetSockAddr lo addr sn =
     (case in_kernel (lo_sockname lo (number (fst sn))) (snd sn) of ((r, a), n) \<Rightarrow>
        (r, if r = 0 then a else addr, n))"

definition SocketGetPeerAddr ::
    "'w listen_ops \<Rightarrow> (ptr \<Rightarrow> bool) \<Rightarrow> ptr \<Rightarrow> 'w io \<Rightarrow> int \<times> ptr \<times> 'w net" where
  "SocketGetPeerAddr lo loopback addr sn =
     (case in_kernel (lo_peername lo (number (fst sn))) (snd sn) of ((r, a), n) \<Rightarrow>
        (let addr1 = (if r = 0 then a else addr)
         in if loopback addr1 then socketGetSockAddr lo addr1 (fst sn, n) else (r, addr1, n)))"

section \<open>The worker of an accepted connection\<close>

definition inAccept_dec :: "SOCK \<Rightarrow> SOCK option" where
  "inAccept_dec s =
     (case listener s of
        None \<Rightarrow> None
      | Some l \<Rightarrow> Some (s\<lparr>listener := Some (l\<lparr>inAccept := inAccept l - 1\<rparr>)\<rparr>))"

text \<open>
  \<^verbatim>\<open>acceptPickup()\<close>, from the start of the worker to the end of the accept callback: the child
  that is handed to the callback, or nothing.  Then the listener's count goes down; \<open>None\<close>: the
  listener structure is gone, and the null pointer is followed.
\<close>

definition acceptPickup_child ::
    "'w sys_ops \<Rightarrow> bool \<Rightarrow> int \<Rightarrow> SOCK \<Rightarrow> 'w net \<Rightarrow> SOCK option \<times> 'w net" where
  "acceptPickup_child sys memory soc serverSp n =
     (case SocketAlloc memory (listenerID serverSp) of
        Some c \<Rightarrow> (Some (c\<lparr>number := soc\<rparr>), n)
      | None \<Rightarrow> (None, snd (in_kernel (sys_close sys soc) n)))"

definition acceptPickup_end :: "SOCK \<Rightarrow> SOCK option" where
  "acceptPickup_end serverSp = inAccept_dec serverSp"

text \<open>
  The end of \<^verbatim>\<open>HandleSocketEvent()\<close> for a listener that is out of epoll: it looks at the count, and
  releases the listener structure when no child is in its accept callback.  \<open>None\<close>: it waits.
\<close>

definition listener_let_go :: "SOCK \<Rightarrow> SOCK option" where
  "listener_let_go s =
     (case listener s of
        None \<Rightarrow> None
      | Some l \<Rightarrow> if inAccept l < 1 then Some (asyncListenerRelease (notify [LISTENER_RETURNED] s)) else None)"

section \<open>Descriptors\<close>

text \<open>
  What the kernel promises about descriptors: a new one was not open before, closing closes one,
  and the other calls open and close nothing.  \<open>open_fds\<close> reads them off the kernel's state.
\<close>

definition keeps_fds :: "('w \<Rightarrow> int set) \<Rightarrow> ('w \<Rightarrow> 'a \<times> 'w) \<Rightarrow> bool" where
  "keeps_fds open_fds f \<longleftrightarrow> (\<forall>w. open_fds (snd (f w)) = open_fds w)"

definition opens_fd :: "('w \<Rightarrow> int set) \<Rightarrow> ('w \<Rightarrow> int \<times> 'w) \<Rightarrow> bool" where
  "opens_fd open_fds f \<longleftrightarrow> (\<forall>w. case f w of (fd, w') \<Rightarrow>
     (if fd = - 1 then open_fds w' = open_fds w
      else fd \<notin> open_fds w \<and> open_fds w' = insert fd (open_fds w)))"

definition fd_laws :: "('w \<Rightarrow> int set) \<Rightarrow> 'w sys_ops \<Rightarrow> 'w listen_ops \<Rightarrow> bool" where
  "fd_laws open_fds sys lo \<longleftrightarrow>
     opens_fd open_fds (\<lambda>w. case sys_socket sys w of ((fd, _), w') \<Rightarrow> (fd, w')) \<and>
     (\<forall>l. opens_fd open_fds (lo_accept lo l)) \<and>
     (\<forall>fd w. open_fds (snd (sys_close sys fd w)) = open_fds w - {fd}) \<and>
     (\<forall>fd. keeps_fds open_fds (sys_bind sys fd)) \<and> (\<forall>fd. keeps_fds open_fds (sys_nonblocking sys fd)) \<and>
     (\<forall>fd. keeps_fds open_fds (lo_reuse lo fd)) \<and> (\<forall>fd b. keeps_fds open_fds (lo_listen lo fd b)) \<and>
     (\<forall>fd. keeps_fds open_fds (lo_blocking lo fd)) \<and> (\<forall>fd. keeps_fds open_fds (lo_sockname lo fd))"

abbreviation fds :: "('w \<Rightarrow> int set) \<Rightarrow> 'w net \<Rightarrow> int set" where
  "fds open_fds n \<equiv> open_fds (kernel n)"

lemma in_kernel_eq: "in_kernel f n = (fst (f (kernel n)), n\<lparr>kernel := snd (f (kernel n))\<rparr>)"
  by (simp add: in_kernel_def split_beta)

lemma keeps_in_kernel_snd:
  "keeps_fds open_fds f \<Longrightarrow> fds open_fds (snd (in_kernel f n)) = fds open_fds n"
  by (simp add: in_kernel_eq keeps_fds_def)

lemma keeps_in_kernel:
  "keeps_fds open_fds f \<Longrightarrow> in_kernel f n = (r, n') \<Longrightarrow> fds open_fds n' = fds open_fds n"
  by (metis keeps_in_kernel_snd snd_conv)

lemma opens_in_kernel:
  assumes "opens_fd open_fds f" "in_kernel f n = (fd, n')"
  shows "if fd = - 1 then fds open_fds n' = fds open_fds n
         else fd \<notin> fds open_fds n \<and> fds open_fds n' = insert fd (fds open_fds n)"
proof -
  obtain w' where "f (kernel n) = (fd, w')" "n' = n\<lparr>kernel := w'\<rparr>"
    using assms(2) by (auto simp: in_kernel_def split: prod.splits)
  with assms(1) show ?thesis by (auto simp: opens_fd_def split: prod.splits if_splits)
qed

lemma fd_lawsD:
  assumes "fd_laws open_fds sys lo"
  shows "opens_fd open_fds (\<lambda>w. case sys_socket sys w of ((fd, _), w') \<Rightarrow> (fd, w'))"
    "opens_fd open_fds (lo_accept lo l)"
    "open_fds (snd (sys_close sys fd w)) = open_fds w - {fd}"
    "keeps_fds open_fds (sys_bind sys fd)" "keeps_fds open_fds (sys_nonblocking sys fd)"
    "keeps_fds open_fds (lo_reuse lo fd)" "keeps_fds open_fds (lo_listen lo fd b)"
    "keeps_fds open_fds (lo_blocking lo fd)" "keeps_fds open_fds (lo_sockname lo fd)"
  using assms unfolding fd_laws_def by blast+

lemma socket_in_kernel:
  assumes "fd_laws open_fds sys lo" "in_kernel (sys_socket sys) n = ((fd, e), n')"
  shows "if fd = - 1 then fds open_fds n' = fds open_fds n
         else fd \<notin> fds open_fds n \<and> fds open_fds n' = insert fd (fds open_fds n)"
proof -
  have "in_kernel (\<lambda>w. case sys_socket sys w of ((fd, _), w') \<Rightarrow> (fd, w')) n = (fd, n')"
    using assms(2) by (auto simp: in_kernel_def split: prod.splits)
  from opens_in_kernel [OF fd_lawsD(1) [OF assms(1)] this] show ?thesis .
qed

lemma socketClose_fds:
  assumes "fd_laws open_fds sys lo" "number s \<noteq> - 1"
  shows "fds open_fds (snd (snd (socketClose sys (s, n)))) = fds open_fds n - {number s}"
    "number (fst (snd (socketClose sys (s, n)))) = - 1"
  using assms fd_lawsD(3) [OF assms(1)] by (simp_all add: socketClose_def in_kernel_eq)

lemma SocketAlloc_fields:
  "SocketAlloc True i = Some ((idle_SOCK (- 1))\<lparr>listenerID := i\<rparr>)"
  "SocketAlloc False i = None"
  by (simp_all add: SocketAlloc_def socketReset_def idle_SOCK_def)

section \<open>Properties\<close>

text \<open>
  Listening does not leak descriptors: \<^verbatim>\<open>SocketListen()\<close> either succeeds, and then exactly one
  descriptor has been opened, which the socket holds; or it fails and as many descriptors are open
  as before, whichever of its system calls failed, and the socket holds none.
\<close>
theorem socket_listen_no_leak:
  assumes laws: "fd_laws open_fds sys lo"
  shows "case socketListen sys lo backlog lid uid (s, n) of (r, uid', s', n') \<Rightarrow>
     (r = 0 \<and> number s' \<noteq> - 1 \<and> number s' \<notin> fds open_fds n \<and>
        fds open_fds n' = insert (number s') (fds open_fds n)) \<or>
     (r = - 1 \<and> number s' = - 1 \<and> fds open_fds n' = fds open_fds n \<and> uid' = uid)"
proof -
  obtain fd e n1 where sk: "in_kernel (sys_socket sys) n = ((fd, e), n1)" by (metis prod.exhaust)
  note o = socket_in_kernel [OF laws sk]
  show ?thesis
  proof (cases "fd = - 1")
    case True
    with o sk show ?thesis by (simp add: socketListen_def)
  next
    case False
    let ?s1 = "s\<lparr>number := fd\<rparr>"
    have o1: "fd \<notin> fds open_fds n" "fds open_fds n1 = insert fd (fds open_fds n)" using o False by auto
    define n2 where "n2 = snd (in_kernel (lo_reuse lo fd) n1)"
    obtain be n3 where b: "in_kernel (sys_bind sys fd) n2 = (be, n3)" by (metis prod.exhaust)
    obtain le n4 where l: "in_kernel (lo_listen lo fd backlog) n3 = (le, n4)" by (metis prod.exhaust)
    obtain me n5 where m: "in_kernel (lo_blocking lo fd) n4 = (me, n5)" by (metis prod.exhaust)
    obtain re a n6 where g: "in_kernel (lo_sockname lo fd) n5 = ((re, a), n6)" by (metis prod.exhaust)
    have eqs: "fds open_fds n2 = fds open_fds n1" "fds open_fds n3 = fds open_fds n2"
      "fds open_fds n4 = fds open_fds n3" "fds open_fds n5 = fds open_fds n4"
      "fds open_fds n6 = fds open_fds n5"
      using keeps_in_kernel_snd [OF fd_lawsD(6) [OF laws], of fd n1] n2_def
        keeps_in_kernel [OF fd_lawsD(4) [OF laws] b] keeps_in_kernel [OF fd_lawsD(7) [OF laws] l]
        keeps_in_kernel [OF fd_lawsD(8) [OF laws] m] keeps_in_kernel [OF fd_lawsD(9) [OF laws] g]
      by auto
    have cl: "number (fst (snd (socketClose sys (?s1, n')))) = - 1"
      "fds open_fds (snd (snd (socketClose sys (?s1, n')))) = fds open_fds n' - {fd}" for n'
      using socketClose_fds [OF laws, of ?s1 n'] False by simp_all
    have id: "insert fd (fds open_fds n) - {fd} = fds open_fds n" using o1(1) by simp
    show ?thesis
      using False o1 eqs cl id
      by (simp add: socketListen_def sk b l m g split_beta getListenerUid_def Let_def flip: n2_def)
  qed
qed

text \<open>
  Accepting does not leak descriptors either: \<^verbatim>\<open>SocketAccept()\<close> returns a socket that holds the
  one descriptor that was opened and the identifier of the listener, or nothing, with the
  descriptors as before.
\<close>
theorem socket_accept_no_leak:
  assumes laws: "fd_laws open_fds sys lo"
  shows "case SocketAccept sys lo memory ls n of
      (Some c, n') \<Rightarrow> number c \<noteq> - 1 \<and> number c \<notin> fds open_fds n \<and> listenerID c = listenerID ls \<and>
         fds open_fds n' = insert (number c) (fds open_fds n)
    | (None, n') \<Rightarrow> fds open_fds n' = fds open_fds n"
proof (cases memory)
  case True
  obtain fd n1 where a: "in_kernel (lo_accept lo (number ls)) n = (fd, n1)" by (metis prod.exhaust)
  note o = opens_in_kernel [OF fd_lawsD(2) [OF laws] a]
  obtain me n2 where m: "in_kernel (sys_nonblocking sys fd) n1 = (me, n2)" by (metis prod.exhaust)
  have k: "fds open_fds n2 = fds open_fds n1" by (rule keeps_in_kernel [OF fd_lawsD(5) [OF laws] m])
  have cl: "fd \<noteq> - 1 \<Longrightarrow> fds open_fds (socketRelease sys (Some (s\<lparr>number := fd\<rparr>)) n') = fds open_fds n' - {fd}" for s n'
    using socketClose_fds(1) [OF laws, of "s\<lparr>number := fd\<rparr>" n'] by (simp add: socketRelease_def)
  show ?thesis
    using True o k cl
    by (auto simp: SocketAccept_def SocketAlloc_fields a m socketRelease_def Let_def split: if_splits)
qed (simp add: SocketAccept_def SocketAlloc_fields)


section \<open>The listener and its children\<close>

text \<open>
  \<open>listener_run s n\<close>: a listening socket \<open>s\<close> with \<open>n\<close> workers between \<^verbatim>\<open>acceptReady()\<close> and the end
  of \<^verbatim>\<open>acceptPickup()\<close>.  Its event is reported by epoll, suspended, resumed, killed and put back;
  workers finish; once the event is out of epoll its own thread may let the listener structure go.
\<close>

inductive listener_run :: "SOCK \<Rightarrow> nat \<Rightarrow> bool" where
  submitted: "listener s = Some l \<Longrightarrow> inAccept l = 0 \<Longrightarrow> listener_run s 0"
| reported: "listener_run s n \<Longrightarrow>
     poll_dispatch acc me cr cu bits Connect_slot ae s = (complete, ae1, s1) \<Longrightarrow>
     listener_run s1 (if ae \<and> \<not> ae1 then Suc n else n)"
| child_done: "listener_run s (Suc n) \<Longrightarrow> acceptPickup_end s = Some s1 \<Longrightarrow> listener_run s1 n"
| killed: "listener_run s n \<Longrightarrow> listener_run (snd (SocketEventKill SOCK_EVENT_TYPE_LISTEN s)) n"
| suspended: "listener_run s n \<Longrightarrow> listener_run (snd (SocketListenerSuspend s)) n"
| resumed: "listener_run s n \<Longrightarrow> listener_run (snd (SocketListenerResume s)) n"
| requeued: "listener_run s n \<Longrightarrow>
     listener_run (s\<lparr>ev_connect := snd (sockEventListenerRequeue me (ev_connect s))\<rparr>) n"
| let_go: "listener_run s n \<Longrightarrow> \<not> has (se_flags (ev_connect s)) FSE_IN_ENGINE \<Longrightarrow>
     listener_let_go s = Some s1 \<Longrightarrow> listener_run s1 n"

definition counts_children :: "SOCK \<Rightarrow> nat \<Rightarrow> bool" where
  "counts_children s n \<longleftrightarrow>
     (case listener s of
        Some l \<Rightarrow> inAccept l = int n
      | None \<Rightarrow> n = 0 \<and> \<not> has (se_flags (ev_connect s)) FSE_IN_ENGINE)"

lemma complete_slot_connect:
  "listener (snd (complete_slot sl s)) = listener s"
  "has (se_flags (ev_connect (snd (complete_slot Connect_slot s)))) FSE_IN_ENGINE = False"
  by (simp_all add: complete_slot_spec SocketEventComplete_flags)

lemma requeue_listener_connect:
  "listener (snd (requeue_listener me sl s)) = listener s"
  "has (se_flags (ev_connect (snd (requeue_listener me Connect_slot s)))) FSE_IN_ENGINE \<Longrightarrow>
   has (se_flags (ev_connect s)) FSE_IN_ENGINE"
  by (simp_all add: requeue_listener_def SocketEventRequeue_def Let_def complete_slot_connect)
    (simp split: if_splits add: complete_slot_connect)

lemma startThrottling_connect:
  "listener (snd (listenerStartThrottling n sl s)) = listener s"
  "has (se_flags (ev_connect (snd (listenerStartThrottling n Connect_slot s)))) FSE_IN_ENGINE \<longleftrightarrow>
   has (se_flags (ev_connect s)) FSE_IN_ENGINE"
  by (simp_all add: listenerStartThrottling_def Let_def split: option.splits)

lemma acceptReady_connect [simp]:
  "ev_connect (acceptReady s) = ev_connect s"
  "listener (acceptReady s) = map_option (\<lambda>l. l\<lparr>inAccept := inAccept l + 1\<rparr>) (listener s)"
  by (simp_all add: acceptReady_def)

lemma event_error_flags: "se_flags (event_error b e) = se_flags e"
  and event_error_type: "se_type (event_error b e) = se_type e"
  by (simp_all add: event_error_def)

lemma handle_listener_event:
  assumes "se_type (ev_connect s) = SOCK_EVENT_TYPE_LISTEN"
  shows "case socketEventHandle acc me cr cu bits Connect_slot ae s of (complete, ae1, s1) \<Rightarrow>
     listener s1 = (if ae \<and> \<not> ae1 then map_option (\<lambda>l. l\<lparr>inAccept := inAccept l + 1\<rparr>) (listener s)
                    else listener s)"
proof -
  define s0 where "s0 = put_se Connect_slot (event_error bits (get_se Connect_slot s)) s"
  have s0: "listener s0 = listener s" "se_type (get_se Connect_slot s0) = SOCK_EVENT_TYPE_LISTEN"
    using assms by (simp_all add: s0_def event_error_type)
  define a where "a = (if ae then acceptReady s0 else s0)"
  define t where "t = (if listenerShouldThrottle cr Connect_slot a
            then listenerStartThrottling cu Connect_slot a else (False, a))"
  have t: "listener (snd t) = (if ae then map_option (\<lambda>l. l\<lparr>inAccept := inAccept l + 1\<rparr>) (listener s)
                                else listener s)"
    by (simp add: t_def a_def startThrottling_connect s0)
  have "socketEventHandle acc me cr cu bits Connect_slot ae s =
    (if has (se_flags (get_se Connect_slot s0)) FSE_LISTENER_KILLED
     then (fst (complete_slot Connect_slot (notify [LISTENER_KILLED, LISTENER_STOPPED] s0)), ae,
           snd (complete_slot Connect_slot (notify [LISTENER_KILLED, LISTENER_STOPPED] s0)))
     else if acc \<noteq> SOCKET_ERROR
     then (if fst t then (True, False, snd t)
           else (fst (requeue_listener me Connect_slot (snd t)), False,
                 snd (requeue_listener me Connect_slot (snd t))))
     else (fst (requeue_listener me Connect_slot s0), ae, snd (requeue_listener me Connect_slot s0)))"
    using s0(2) unfolding socketEventHandle_def Let_def s0_def [symmetric]
    by (cases ae) (simp_all add: split_beta t_def a_def)
  then show ?thesis by (simp add: complete_slot_connect requeue_listener_connect t s0)
qed

lemma handle_listener:
  "case socketEventHandle acc me cr cu bits Connect_slot ae s of (complete, ae1, s1) \<Rightarrow>
     listener s1 = (if ae \<and> \<not> ae1 then map_option (\<lambda>l. l\<lparr>inAccept := inAccept l + 1\<rparr>) (listener s)
                    else listener s)"
proof (cases "se_type (ev_connect s) = SOCK_EVENT_TYPE_LISTEN")
  case False
  then show ?thesis
    by (cases "se_type (ev_connect s)")
      (simp_all add: socketEventHandle_def Let_def split_beta event_error_type complete_slot_connect)
qed (rule handle_listener_event)

lemma dispatch_listener:
  assumes "poll_dispatch acc me cr cu bits Connect_slot ae s = (complete, ae1, s1)"
  shows "listener s1 = (if ae \<and> \<not> ae1 then map_option (\<lambda>l. l\<lparr>inAccept := inAccept l + 1\<rparr>) (listener s)
                        else listener s)"
    and "has (se_flags (ev_connect s1)) FSE_IN_ENGINE \<Longrightarrow> has (se_flags (ev_connect s)) FSE_IN_ENGINE"
    and "ae \<and> \<not> ae1 \<Longrightarrow> has (se_flags (ev_connect s)) FSE_IN_ENGINE"
proof -
  show "ae \<and> \<not> ae1 \<Longrightarrow> has (se_flags (ev_connect s)) FSE_IN_ENGINE"
    and "has (se_flags (ev_connect s1)) FSE_IN_ENGINE \<Longrightarrow> has (se_flags (ev_connect s)) FSE_IN_ENGINE"
    using assms by (cases "has (se_flags (ev_connect s)) FSE_IN_ENGINE"; simp add: poll_dispatch_def)+
  show "listener s1 = (if ae \<and> \<not> ae1 then map_option (\<lambda>l. l\<lparr>inAccept := inAccept l + 1\<rparr>) (listener s)
                        else listener s)"
    using assms handle_listener [where acc = acc and me = me and cr = cr and cu = cu and bits = bits and ae = ae and s = s]
    by (cases "has (se_flags (ev_connect s)) FSE_IN_ENGINE") (simp_all add: poll_dispatch_def)
qed

lemma SocketListenerResume_connect:
  "listener (snd (SocketListenerResume s)) = listener s"
  "has (se_flags (ev_connect (snd (SocketListenerResume s)))) FSE_IN_ENGINE \<longleftrightarrow>
   has (se_flags (ev_connect s)) FSE_IN_ENGINE"
  by (simp_all add: SocketListenerResume_def split: option.splits)

lemma sockEventKill_in_engine:
  "has (se_flags (snd (sockEventKill e))) FSE_IN_ENGINE \<Longrightarrow> has (se_flags e) FSE_IN_ENGINE"
  by (auto simp: sockEventKill_def Let_def SocketEventComplete_flags split: if_splits)

lemma sockEventListenerRequeue_in_engine:
  "has (se_flags (snd (sockEventListenerRequeue me e))) FSE_IN_ENGINE \<Longrightarrow> has (se_flags e) FSE_IN_ENGINE"
proof -
  have "\<not> has FSE_IN_ENGINE (FSE_LISTENER_PAUSED OR FSE_LISTENER_SUSPENDED)" by (simp add: has_def)
  from has_after_remove(2) [OF this, of e]
  show "has (se_flags (snd (sockEventListenerRequeue me e))) FSE_IN_ENGINE \<Longrightarrow>
    has (se_flags e) FSE_IN_ENGINE"
    by (auto simp: sockEventListenerRequeue_def SocketEventRequeue_def Let_def SocketEventComplete_flags
        split: if_splits)
qed

lemma listener_run_counts:
  assumes "listener_run s n"
  shows "counts_children s n"
  using assms
proof (induction rule: listener_run.induct)
  case (submitted s l)
  then show ?case by (simp add: counts_children_def)
next
  case (reported s n acc me cr cu bits ae complete ae1 s1)
  note d = dispatch_listener [OF reported(2)]
  from reported.IH d show ?case
    by (cases "listener s") (auto simp: counts_children_def)
next
  case (child_done s n s1)
  then show ?case
    by (auto simp: counts_children_def acceptPickup_end_def inAccept_dec_def split: option.splits)
next
  case (killed s n)
  have "ev_connect (snd (SocketEventKill SOCK_EVENT_TYPE_LISTEN s)) =
      snd (sockEventKill (ev_connect (snd (SocketListenerResume s))))"
    "listener (snd (SocketEventKill SOCK_EVENT_TYPE_LISTEN s)) = listener s"
    by (simp_all add: SocketEventKill_def Let_def split_beta SocketListenerResume_connect)
  with killed.IH sockEventKill_in_engine [of "ev_connect (snd (SocketListenerResume s))"] show ?case
    by (auto simp: counts_children_def SocketListenerResume_connect split: option.splits)
next
  case (suspended s n)
  then show ?case
    by (auto simp: counts_children_def SocketListenerSuspend_def split: option.splits)
next
  case (resumed s n)
  then show ?case
    by (auto simp: counts_children_def SocketListenerResume_connect split: option.splits)
next
  case (requeued s n me)
  then show ?case
    by (auto simp: counts_children_def dest: sockEventListenerRequeue_in_engine split: option.splits)
next
  case (let_go s n s1)
  then show ?case
    by (auto simp: counts_children_def listener_let_go_def asyncListenerRelease_def
        split: option.splits if_splits)
qed

text \<open>
  C23. The listener structure outlives its children: whatever happens to a listening socket, its
  count of children in their accept callbacks is right, so that \<^verbatim>\<open>HandleSocketEvent()\<close> releases the
  structure only when no worker will touch it any more; a worker that finishes always finds it.
\<close>
theorem listener_outlives_children:
  assumes "listener_run s n"
  shows "(listener s = None \<longrightarrow> n = 0) \<and> (0 < n \<longrightarrow> acceptPickup_end s \<noteq> None \<and> listener_let_go s = None)"
  using listener_run_counts [OF assms]
  by (auto simp: counts_children_def acceptPickup_end_def inAccept_dec_def listener_let_go_def
      split: option.splits if_splits)

section \<open>Witnesses\<close>

definition fd_sys :: "int set sys_ops" where
  "fd_sys = \<lparr>
     sys_socket = (\<lambda>w. if 4 \<in> w then ((- 1, 24), w) else ((4, 0), insert 4 w)),
     sys_bind = (\<lambda>_ w. (98, w)), sys_nonblocking = (\<lambda>_ w. (0, w)),
     sys_nodelay = (\<lambda>_ w. (0, w)), sys_connect = (\<lambda>_ w. (0, w)), sys_shutdown = (\<lambda>_ w. (0, w)),
     sys_close = (\<lambda>fd w. (0, w - {fd})), sys_send = (\<lambda>_ _ w. (0, 0, w)),
     sys_recv = (\<lambda>_ _ w. (None, EWOULDBLOCK, w)),
     sys_poll = (\<lambda>_ _ _ w. ((0, 0, 0), w)), sys_epoll_add = (\<lambda>_ _ w. (0, w)),
     ssl_alloc = (\<lambda>_ _ w. (None, w)), ssl_bio = (\<lambda>_ _ w. (False, w)), ssl_release = (\<lambda>_ w. ((), w)),
     ssl_accept = (\<lambda>_ w. (- 1, w)), ssl_connect = (\<lambda>_ w. (- 1, w)), ssl_shutdown = (\<lambda>_ w. (- 1, w)),
     ssl_read = (\<lambda>_ _ w. ([], - 1, w)), ssl_write = (\<lambda>_ _ w. (- 1, w)),
     ssl_get_error = (\<lambda>_ _ _. 6), err_queue = (\<lambda>w. ([], w))\<rparr>"

definition fd_listen :: "int set listen_ops" where
  "fd_listen = \<lparr>lo_reuse = (\<lambda>_ w. (0, w)), lo_listen = (\<lambda>_ _ w. (0, w)), lo_blocking = (\<lambda>_ w. (0, w)),
     lo_sockname = (\<lambda>_ w. ((0, 0), w)), lo_peername = (\<lambda>_ w. ((0, 0), w)),
     lo_accept = (\<lambda>_ w. if 5 \<in> w then (- 1, w) else (5, insert 5 w))\<rparr>"

lemma fd_laws_demo: "fd_laws (\<lambda>w. w) fd_sys fd_listen"
  by (auto simp: fd_laws_def opens_fd_def keeps_fds_def fd_sys_def fd_listen_def)

text \<open>The bind fails, and the descriptor is closed again.\<close>

lemma socket_listen_no_leak_witness:
  "case socketListen fd_sys fd_listen 5 0 0 (idle_SOCK (- 1), \<lparr>kernel = {}, wire_out = [], wire_in = []\<rparr>) of
     (r, _, s', n') \<Rightarrow> r = - 1 \<and> number s' = - 1 \<and> kernel n' = {}"
  using socket_listen_no_leak [OF fd_laws_demo, where backlog = 5 and lid = 0 and uid = 0
      and s = "idle_SOCK (- 1)" and n = "\<lparr>kernel = {}, wire_out = [], wire_in = []\<rparr>"]
  by (simp add: socketListen_def in_kernel_eq fd_sys_def fd_listen_def socketClose_def)

lemma socket_accept_no_leak_witness:
  "case SocketAccept fd_sys fd_listen True (idle_SOCK 3) \<lparr>kernel = {3}, wire_out = [], wire_in = []\<rparr> of
      (Some c, n') \<Rightarrow> number c = 5 \<and> kernel n' = insert (number c) {3}
    | (None, n') \<Rightarrow> False"
  using socket_accept_no_leak [OF fd_laws_demo, where memory = True and ls = "idle_SOCK 3"
      and n = "\<lparr>kernel = {3}, wire_out = [], wire_in = []\<rparr>"]
  by (simp add: SocketAccept_def SocketAlloc_fields in_kernel_eq fd_sys_def fd_listen_def)

definition demo_listening :: SOCK where
  "demo_listening = (idle_SOCK 3)\<lparr>
     listener := Some \<lparr>throttlingThreshold = 0, hasEventCallback = False, inAccept = 0\<rparr>,
     ev_connect := sockEventInit\<lparr>se_type := SOCK_EVENT_TYPE_LISTEN, se_flags := FSE_IN_ENGINE\<rparr>\<rparr>"

lemma demo_listening_accepts:
  "poll_dispatch 9 0 0 0 1 Connect_slot True demo_listening =
     (False, False, acceptReady demo_listening)"
  by (simp add: poll_dispatch_def socketEventHandle_def demo_listening_def Let_def event_error_def
      has_def listenerShouldThrottle_def listenerThresholdExceeded_def requeue_listener_def
      SocketEventRequeue_def acceptReady_def sockEventInit_def)

lemma listener_outlives_children_witness:
  "listener_run (acceptReady demo_listening) (Suc 0) \<and>
     acceptPickup_end (acceptReady demo_listening) \<noteq> None \<and>
     listener_let_go (acceptReady demo_listening) = None"
proof -
  have "listener_run demo_listening 0" by (rule submitted [of _ "\<lparr>throttlingThreshold = 0, hasEventCallback = False, inAccept = 0\<rparr>"])
      (simp_all add: demo_listening_def)
  from listener_run.reported [OF this demo_listening_accepts]
  have run: "listener_run (acceptReady demo_listening) (Suc 0)" by simp
  from listener_outlives_children [OF run] run show ?thesis by simp
qed

end
