(* ===== verification/HandleProps.thy ===== *)
theory HandleProps
  imports HandleAlloc SockSetup ListenerInv
begin

unbundle bit_operations_syntax

text \<open>
  What allocating and freeing handles promises: which resources an error path gives back and which
  it forgets, and that an allocation that worked is undone by freeing the handle.
\<close>

section \<open>Thread engines\<close>

definition only_threads :: "connio_world \<Rightarrow> connio_world \<Rightarrow> bool" where
  "only_threads w w' \<longleftrightarrow> cw_lib w' = cw_lib w \<and> cw_handles w' = cw_handles w \<and>
     cw_memory w' = cw_memory w \<and> cw_contexts w' = cw_contexts w"

lemma only_threads_refl [simp]: "only_threads w w"
  by (simp add: only_threads_def)

lemma only_threads_trans: "only_threads w w1 \<Longrightarrow> only_threads w1 w2 \<Longrightarrow> only_threads w w2"
  by (simp add: only_threads_def)

text \<open>The engines of the world, with the groups of the default engines.\<close>

definition engines_ok :: "connio_world \<Rightarrow> ptr list \<Rightarrow> bool" where
  "engines_ok w xs \<longleftrightarrow> engines (cw_threads w) xs"

lemma AThreadEngineCreate_engines:
  assumes "engines g xs" "e \<notin> at_live g"
  shows "engines (snd (AThreadEngineCreate (Some e) te g)) (e # xs)"
    "fst (AThreadEngineCreate (Some e) te g) = Some e"
    "at_live (snd (AThreadEngineCreate (Some e) te g)) = insert e (at_live g)"
    "at_engine (snd (AThreadEngineCreate (Some e) te g)) = (at_engine g)(e := te)"
proof -
  have "e \<notin> set xs" using assms by (auto simp: engines_def)
  with assms(1) show "engines (snd (AThreadEngineCreate (Some e) te g)) (e # xs)"
    by (auto simp: engines_def AThreadEngineCreate_def AThreadLibInit_def Let_def split: if_splits)
qed (simp_all add: AThreadEngineCreate_def AThreadLibInit_def Let_def)

lemma AThreadEngineCreate_None:
  "fst (AThreadEngineCreate None te g) = None"
  "engines g xs \<Longrightarrow> engines (snd (AThreadEngineCreate None te g)) xs"
  "at_live (snd (AThreadEngineCreate None te g)) = at_live g"
  "at_engine (snd (AThreadEngineCreate None te g)) = at_engine g"
  by (auto simp: AThreadEngineCreate_def AThreadLibInit_def engines_def Let_def split: if_splits)

lemma AThreadEngineDestroy_engines:
  assumes "engines g xs" "e \<in> set xs"
  shows "\<exists>g'. AThreadEngineDestroy (Some e) g = Some g' \<and> engines g' (remove1 e xs) \<and>
     at_live g' = at_live g - {e} \<and> at_engine g' = at_engine g"
proof -
  have i: "at_initialized g" "chain (at_next g) (at_list g) xs" "distinct xs"
    using assms by (auto simp: engines_def split: if_splits)
  from destroy_walk_list [OF i(2,3) assms(2)] obtain g1 where g1: "destroy_walk e None (at_list g) g = Some g1"
    "chain (at_next g1) (at_list g1) (remove1 e xs)" "at_engine g1 = at_engine g"
    "at_live g1 = at_live g" "at_initialized g1 = at_initialized g" by blast
  with assms i show ?thesis by (auto simp: AThreadEngineDestroy_def engines_def Let_def)
qed

lemma destroy_engine_ok:
  assumes "engines_ok w xs" "e \<in> set xs"
  shows "\<exists>w'. destroy_engine e w = Some w' \<and> engines_ok w' (remove1 e xs) \<and> only_threads w w' \<and>
     at_live (cw_threads w') = at_live (cw_threads w) - {e} \<and>
     cw_groups w' = cw_groups w - (if te_hasFree (at_engine (cw_threads w) e)
                                   then {te_context (at_engine (cw_threads w) e)} else {}) \<and>
     at_engine (cw_threads w') = at_engine (cw_threads w)"
  using AThreadEngineDestroy_engines [of "cw_threads w" xs e] assms
  by (auto simp: destroy_engine_def engines_ok_def only_threads_def)

lemma new_engine_ok:
  assumes "engines_ok w xs" and "\<And>e. eng = Some e \<Longrightarrow> e \<notin> at_live (cw_threads w)"
    and "\<And>g. gr = Some g \<Longrightarrow> g \<notin> cw_groups w"
  shows "case new_engine gr eng w of
      (None, w') \<Rightarrow> (gr = None \<or> eng = None) \<and> only_threads w w' \<and> engines_ok w' xs \<and>
         at_live (cw_threads w') = at_live (cw_threads w) \<and> cw_groups w' = cw_groups w \<and>
         at_engine (cw_threads w') = at_engine (cw_threads w)
    | (Some e, w') \<Rightarrow> eng = Some e \<and> only_threads w w' \<and> engines_ok w' (e # xs) \<and>
         at_live (cw_threads w') = insert e (at_live (cw_threads w)) \<and>
         cw_groups w' = insert (the gr) (cw_groups w) \<and> gr \<noteq> None \<and>
         at_engine (cw_threads w') = (at_engine (cw_threads w))(e := \<lparr>te_context = the gr, te_hasFree = True\<rparr>)"
proof (cases gr)
  case None
  with assms(1) show ?thesis by (simp add: new_engine_def)
next
  case (Some g)
  let ?te = "\<lparr>te_context = g, te_hasFree = True\<rparr>"
  have g: "g \<notin> cw_groups w" using assms(3) Some by simp
  show ?thesis
  proof (cases eng)
    case None
    with Some g assms(1) AThreadEngineCreate_None [where te = ?te and g = "cw_threads w"]
    show ?thesis by (simp add: new_engine_def split_beta engines_ok_def only_threads_def)
  next
    case (Some e)
    with \<open>gr = Some g\<close> assms AThreadEngineCreate_engines [where g = "cw_threads w" and xs = xs and e = e and te = ?te]
    show ?thesis by (simp add: new_engine_def split_beta engines_ok_def only_threads_def)
  qed
qed

section \<open>Allocations\<close>

text \<open>What \<^verbatim>\<open>MemMalloc()\<close>, OpenSSL and the thread library promise: new things were not in use.\<close>

definition fresh_answers :: "alloc_env \<Rightarrow> connio_world \<Rightarrow> bool" where
  "fresh_answers env w \<longleftrightarrow>
     (\<forall>p. al_handle env = Some p \<longrightarrow> p \<notin> cw_memory w) \<and>
     (\<forall>p. al_identity env = Some p \<longrightarrow> p \<notin> cw_memory w \<and> al_handle env \<noteq> Some p) \<and>
     (\<forall>p. al_sslv23 env = Some p \<longrightarrow> p \<notin> cw_contexts w) \<and>
     (\<forall>p. al_tls env = Some p \<longrightarrow> p \<notin> cw_contexts w \<and> al_sslv23 env \<noteq> Some p) \<and>
     (\<forall>p. al_engine_internal env = Some p \<longrightarrow> p \<notin> at_live (cw_threads w)) \<and>
     (\<forall>p. al_engine_consumer env = Some p \<longrightarrow>
        p \<notin> at_live (cw_threads w) \<and> al_engine_internal env \<noteq> Some p) \<and>
     (\<forall>p. al_group_internal env = Some p \<longrightarrow> p \<notin> cw_groups w) \<and>
     (\<forall>p. al_group_consumer env = Some p \<longrightarrow> p \<notin> cw_groups w \<and> al_group_internal env \<noteq> Some p)"

lemma client_contexts_ok:
  assumes "fresh_answers env w'" "cw_contexts w = cw_contexts w'"
  shows "\<exists>r w1. client_contexts env flags w = Some (r, w1) \<and>
     (r = None \<longrightarrow> w1 = w) \<and>
     (\<forall>c1 c2. r = Some (c1, c2) \<longrightarrow>
        w1 = w\<lparr>cw_contexts := cw_contexts w \<union> set_option c1 \<union> set_option c2\<rparr> \<and>
        set_option c1 \<inter> cw_contexts w = {} \<and> set_option c2 \<inter> cw_contexts w = {} \<and>
        set_option c1 \<inter> set_option c2 = {})"
proof -
  have "Set.remove a (insert a (cw_contexts w)) = cw_contexts w" if "al_sslv23 env = Some a" for a
    using that assms by (auto simp: fresh_answers_def)
  then have "w\<lparr>cw_contexts := insert a (cw_contexts w) - {a}\<rparr> = w" if "al_sslv23 env = Some a" for a
    using that assms by (simp add: fresh_answers_def)
  with assms show ?thesis
    by (cases "al_sslv23 env"; cases "al_tls env")
      (auto simp: client_contexts_def free_context_def new_context_def fresh_answers_def Let_def)
qed

lemma free_both_contexts:
  assumes "cw_contexts w = C \<union> set_option c1 \<union> set_option c2" "set_option c1 \<inter> C = {}"
    "set_option c2 \<inter> C = {}" "set_option c1 \<inter> set_option c2 = {}"
  shows "Option.bind (free_context c1 w) (free_context c2) = Some (w\<lparr>cw_contexts := C\<rparr>)"
proof -
  have "insert b (insert a C) - {a} - {b} = C" if "c1 = Some a" "c2 = Some b" for a b
    using assms that by auto
  with assms show ?thesis by (cases c1; cases c2) (auto simp: free_context_def)
qed

lemma has_member: "x \<in> set xs \<Longrightarrow> engines_ok w xs \<Longrightarrow> x \<in> at_live (cw_threads w)"
  by (auto simp: engines_ok_def engines_def)

text \<open>The engine of a handle is one that is given, or a new one; or there is none.\<close>

lemma threadEngineSet_ok:
  assumes ok: "engines_ok w xs" and fr: "\<And>e. eng = Some e \<Longrightarrow> e \<notin> at_live (cw_threads w)"
    "\<And>g. gr = Some g \<Longrightarrow> g \<notin> cw_groups w"
  obtains (given) "threadEngineSet cf gl gr eng w = (0, if cf \<noteq> None then cf else gl, w)"
      "cf \<noteq> None \<or> gl \<noteq> None"
  | (new) e w' where "threadEngineSet cf gl gr eng w = (0, Some e, w')" "cf = None" "gl = None" "eng = Some e"
      "gr \<noteq> None" "only_threads w w'" "engines_ok w' (e # xs)"
      "at_live (cw_threads w') = insert e (at_live (cw_threads w))"
      "cw_groups w' = insert (the gr) (cw_groups w)"
      "at_engine (cw_threads w') = (at_engine (cw_threads w))(e := \<lparr>te_context = the gr, te_hasFree = True\<rparr>)"
  | (failed) w' where "threadEngineSet cf gl gr eng w = (- 1, None, w')" "only_threads w w'" "engines_ok w' xs"
      "at_live (cw_threads w') = at_live (cw_threads w)" "cw_groups w' = cw_groups w"
      "at_engine (cw_threads w') = at_engine (cw_threads w)"
proof (cases "cf \<noteq> None \<or> gl \<noteq> None")
  case True
  then show ?thesis by (intro given) (auto simp: threadEngineSet_def)
next
  case False
  obtain r w' where n: "new_engine gr eng w = (r, w')" by (metis prod.exhaust)
  note spec = new_engine_ok [where w = w and xs = xs and eng = eng and gr = gr, OF ok fr, unfolded n prod.case]
  show ?thesis
  proof (cases r)
    case None
    with False n spec show ?thesis by (intro failed [of w']) (auto simp: threadEngineSet_def)
  next
    case (Some e)
    with False n spec show ?thesis by (intro new [of e w']) (auto simp: threadEngineSet_def)
  qed
qed

lemma threadEngineClear_given:
  "e = None \<or> cf = e \<or> gl = e \<Longrightarrow> threadEngineClear e cf gl w = Some w"
  by (cases e) (auto simp: threadEngineClear_def)

lemma threadEngineClear_new:
  assumes "engines_ok w xs" "e \<in> set xs"
  shows "\<exists>w'. threadEngineClear (Some e) None None w = Some w' \<and> engines_ok w' (remove1 e xs) \<and>
     only_threads w w' \<and> at_live (cw_threads w') = at_live (cw_threads w) - {e} \<and>
     cw_groups w' = cw_groups w - (if te_hasFree (at_engine (cw_threads w) e)
                                   then {te_context (at_engine (cw_threads w) e)} else {})"
  using destroy_engine_ok [OF assms] by (auto simp: threadEngineClear_def)

lemma alloc_engines_ok:
  assumes ok: "engines_ok w xs" and fresh: "fresh_answers env w0"
    and same: "cw_threads w = cw_threads w0" "cw_groups w = cw_groups w0"
  shows "\<exists>r w1. alloc_engines env flags config w = Some (r, w1) \<and> only_threads w w1 \<and>
     (r = None \<longrightarrow> engines_ok w1 xs \<and> at_live (cw_threads w1) = at_live (cw_threads w) \<and>
        cw_groups w1 = cw_groups w)"
proof (cases "has flags CONN_HANDLE_ASYNC_ENABLED")
  case False
  with ok show ?thesis by (simp add: alloc_engines_def)
next
  case True
  let ?ci = "Option.bind config cf_internal" and ?cc = "Option.bind config cf_consumer"
  let ?gi = "hl_internal (cw_handles w)" and ?gc = "hl_consumer (cw_handles w)"
  let ?g1 = "al_group_internal env" and ?e1 = "al_engine_internal env"
  let ?g2 = "al_group_consumer env" and ?e2 = "al_engine_consumer env"
  have f1: "\<And>e. ?e1 = Some e \<Longrightarrow> e \<notin> at_live (cw_threads w)" "\<And>g. ?g1 = Some g \<Longrightarrow> g \<notin> cw_groups w"
    using fresh same by (auto simp: fresh_answers_def)
  show ?thesis
  proof (rule threadEngineSet_ok [OF ok f1, where cf = ?ci and gl = ?gi])
    assume g: "threadEngineSet ?ci ?gi ?g1 ?e1 w = (0, if ?ci \<noteq> None then ?ci else ?gi, w)" "?ci \<noteq> None \<or> ?gi \<noteq> None"
    have f2: "\<And>e. ?e2 = Some e \<Longrightarrow> e \<notin> at_live (cw_threads w)" "\<And>g. ?g2 = Some g \<Longrightarrow> g \<notin> cw_groups w"
      using fresh same by (auto simp: fresh_answers_def)
    have cl: "threadEngineClear (if ?ci \<noteq> None then ?ci else ?gi) ?ci ?gi v = Some v" for v
      by (rule threadEngineClear_given) auto
    show ?thesis
      by (rule threadEngineSet_ok [OF ok f2, where cf = ?cc and gl = ?gc])
        (use True g ok cl in \<open>auto simp: alloc_engines_def Let_def threadEngineClear_given\<close>)
  next
    fix e w1 assume n: "threadEngineSet ?ci ?gi ?g1 ?e1 w = (0, Some e, w1)" "?ci = None" "?gi = None" "?e1 = Some e"
      "?g1 \<noteq> None" "only_threads w w1" "engines_ok w1 (e # xs)"
      "at_live (cw_threads w1) = insert e (at_live (cw_threads w))"
      "cw_groups w1 = insert (the ?g1) (cw_groups w)"
      "at_engine (cw_threads w1) = (at_engine (cw_threads w))(e := \<lparr>te_context = the ?g1, te_hasFree = True\<rparr>)"
    have f2: "\<And>e. ?e2 = Some e \<Longrightarrow> e \<notin> at_live (cw_threads w1)" "\<And>g. ?g2 = Some g \<Longrightarrow> g \<notin> cw_groups w1"
      using fresh same n(4,5,8,9) by (auto simp: fresh_answers_def)
    show ?thesis
    proof (rule threadEngineSet_ok [OF n(7) f2, where cf = ?cc and gl = ?gc])
      fix w2 assume x: "threadEngineSet ?cc ?gc ?g2 ?e2 w1 = (- 1, None, w2)" "only_threads w1 w2"
        "engines_ok w2 (e # xs)" "at_live (cw_threads w2) = at_live (cw_threads w1)"
        "cw_groups w2 = cw_groups w1" "at_engine (cw_threads w2) = at_engine (cw_threads w1)"
      from threadEngineClear_new [OF x(3), of e] obtain w3 where c: "threadEngineClear (Some e) None None w2 = Some w3"
        "engines_ok w3 xs" "only_threads w2 w3" "at_live (cw_threads w3) = at_live (cw_threads w2) - {e}"
        "cw_groups w3 = cw_groups w2 - {the ?g1}" using x(6) n(10) by auto
      have "e \<notin> at_live (cw_threads w)" "the ?g1 \<notin> cw_groups w" using f1 n(4,5) by auto
      with c x n True show ?thesis
        by (auto simp: alloc_engines_def Let_def threadEngineClear_given
            intro: only_threads_trans [OF n(6) only_threads_trans [OF x(2) c(3)]])
    next
      fix e2 w2 assume "threadEngineSet ?cc ?gc ?g2 ?e2 w1 = (0, Some e2, w2)" "only_threads w1 w2"
      with True n only_threads_trans [OF n(6)] show ?thesis by (auto simp: alloc_engines_def Let_def)
    next
      assume "threadEngineSet ?cc ?gc ?g2 ?e2 w1 = (0, if ?cc \<noteq> None then ?cc else ?gc, w1)"
      with True n show ?thesis by (auto simp: alloc_engines_def Let_def)
    qed
  next
    fix w1 assume "threadEngineSet ?ci ?gi ?g1 ?e1 w = (- 1, None, w1)" "only_threads w w1" "engines_ok w1 xs"
      "at_live (cw_threads w1) = at_live (cw_threads w)" "cw_groups w1 = cw_groups w"
    with True show ?thesis by (auto simp: alloc_engines_def Let_def threadEngineClear_given)
  qed
qed

section \<open>Failing\<close>

text \<open>Undoing the blocks of memory.\<close>

lemma free_block_insert:
  "p \<notin> M \<Longrightarrow> cw_memory w = insert p M \<Longrightarrow> cw_memory (free_block p w) = M"
  by (auto simp: free_block_def)

lemma free_block_fields [simp]:
  "cw_lib (free_block p w) = cw_lib w" "cw_threads (free_block p w) = cw_threads w"
  "cw_handles (free_block p w) = cw_handles w" "cw_contexts (free_block p w) = cw_contexts w"
  "cw_groups (free_block p w) = cw_groups w" "cw_memory (free_block p w) = cw_memory w - {p}"
  by (simp_all add: free_block_def)

definition alloc_params :: "string option \<Rightarrow> u32 \<Rightarrow> bool" where
  "alloc_params identity flags \<longleftrightarrow> identity \<noteq> None \<and>
     \<not> has flags (NOT (CONN_HANDLE_SSL_CLIENT_ENABLED OR CONN_HANDLE_SSL_SERVER_ENABLED OR
                     CONN_HANDLE_ASYNC_ENABLED))"

lemma failed_alloc_spec:
  assumes ok: "engines_ok w xs" and fresh: "fresh_answers env w"
  shows "\<exists>r w'. ConnHandleAllocEx env identity flags config w = Some (r, w') \<and>
     (r = None \<longrightarrow> cw_memory w' = cw_memory w \<and> cw_contexts w' = cw_contexts w \<and>
        cw_handles w' = cw_handles w) \<and>
     (alloc_params identity flags \<longrightarrow>
        cw_lib w' = snd (SocketLibStart (lib_flags flags) (al_start env) (cw_lib w)))"
proof -
  obtain started lib where st: "SocketLibStart (lib_flags flags) (al_start env) (cw_lib w) = (started, lib)"
    by (metis prod.exhaust)
  let ?w0 = "w\<lparr>cw_lib := lib\<rparr>"
  show ?thesis
  proof (cases "\<exists>h name ip. started \<and> al_handle env = Some h \<and> CopyIdentity (al_identity env) identity = Some (name, ip)")
    case False
    have "cw_memory (free_block h (?w0\<lparr>cw_memory := insert h (cw_memory w)\<rparr>)) = cw_memory w" if "al_handle env = Some h" for h
      using fresh that by (simp add: fresh_answers_def)
    with False st show ?thesis
      by (auto simp: ConnHandleAllocEx_def alloc_params_def Let_def split: option.splits)
  next
    case True
    then obtain h name ip where b: "started" "al_handle env = Some h"
      "CopyIdentity (al_identity env) identity = Some (name, ip)" by blast
    have ip: "al_identity env = Some ip"
      using b(3) by (auto simp: CopyIdentity_def split: option.splits if_splits)
    have new: "h \<notin> cw_memory w" "ip \<notin> cw_memory w" "ip \<noteq> h" using fresh b(2) ip by (auto simp: fresh_answers_def)
    let ?w2 = "?w0\<lparr>cw_memory := insert ip (insert h (cw_memory w))\<rparr>"
    from client_contexts_ok [OF fresh, of ?w2 flags] obtain r w3 where c: "client_contexts env flags ?w2 = Some (r, w3)"
      "r = None \<Longrightarrow> w3 = ?w2"
      "\<And>c1 c2. r = Some (c1, c2) \<Longrightarrow> w3 = ?w2\<lparr>cw_contexts := cw_contexts w \<union> set_option c1 \<union> set_option c2\<rparr> \<and>
        set_option c1 \<inter> cw_contexts w = {} \<and> set_option c2 \<inter> cw_contexts w = {} \<and> set_option c1 \<inter> set_option c2 = {}"
      by auto
    have mem: "insert ip (insert h (cw_memory w)) - {ip} - {h} = cw_memory w" using new by auto
    show ?thesis
    proof (cases r)
      case None
      with c st b mem show ?thesis by (auto simp: ConnHandleAllocEx_def alloc_params_def Let_def)
    next
      case (Some cs)
      obtain c1 c2 where cs: "cs = (c1, c2)" by (metis prod.exhaust)
      note c3 = c(3) [unfolded Some cs, OF refl]
      have e3: "engines_ok w3 xs" "cw_threads w3 = cw_threads w" "cw_groups w3 = cw_groups w"
        using ok c3 by (simp_all add: engines_ok_def)
      from alloc_engines_ok [OF e3(1) fresh e3(2,3), of flags config] obtain r4 w4 where
        a: "alloc_engines env flags config w3 = Some (r4, w4)" "only_threads w3 w4" by blast
      have w4: "cw_lib w4 = lib" "cw_memory w4 = insert ip (insert h (cw_memory w))" "cw_handles w4 = cw_handles w"
        "cw_contexts w4 = cw_contexts w \<union> set_option c1 \<union> set_option c2"
        using a(2) c3 by (simp_all add: only_threads_def)
      have fb: "Option.bind (free_context c1 w4) (free_context c2) = Some (w4\<lparr>cw_contexts := cw_contexts w\<rparr>)"
        using free_both_contexts [OF w4(4)] c3 by simp
      show ?thesis
        using c(1) st b mem a(1) w4 fb unfolding Some cs
        by (auto simp: ConnHandleAllocEx_def alloc_params_def Let_def split: option.splits sum.splits prod.splits)
    qed
  qed
qed


text \<open>
  What a failing allocation does forget is the socket library: once the parameters were
  accepted, every failure leaves the library with one more user, for which nobody will ever stop it.
\<close>
theorem failed_handle_alloc_keeps_library:
  assumes "engines_ok w xs" and "fresh_answers env w" and "lib_initialized (cw_lib w)"
    and "alloc_params identity flags"
    and "ConnHandleAllocEx env identity flags config w = Some (None, w')"
  shows "lib_useCount (cw_lib w') = lib_useCount (cw_lib w) + 1"
  using failed_alloc_spec [OF assms(1,2), of identity flags config] assms(3-) SocketLibStart_fields(1)
  by auto

text \<open>
  Nor does it destroy the thread engines it has just created when the connection cache cannot be
  set up, for instance because of an identity of 240 characters or more: the engines stay in the
  list, and the next handle creates new ones.
\<close>
theorem cache_failure_leaks_engines:
  assumes "engines_ok w xs" and "fresh_answers env w" and "alloc_params (Some s) CONN_HANDLE_ASYNC_ENABLED"
    and "fst (SocketLibStart SOCK_LIB_FLAG_ASYNC (al_start env) (cw_lib w))"
    and "al_handle env \<noteq> None" and "al_identity env \<noteq> None" and "240 \<le> length (identity_text s)"
    and "al_group_internal env = Some g1" and "al_engine_internal env = Some e1"
    and "al_group_consumer env = Some g2" and "al_engine_consumer env = Some e2"
    and "hl_internal (cw_handles w) = None" and "hl_consumer (cw_handles w) = None"
  shows "\<exists>w'. ConnHandleAllocEx env (Some s) CONN_HANDLE_ASYNC_ENABLED None w = Some (None, w') \<and>
     engines_ok w' (e2 # e1 # xs) \<and> hl_internal (cw_handles w') = None \<and> hl_consumer (cw_handles w') = None"
proof -
  have fl: "lib_flags CONN_HANDLE_ASYNC_ENABLED = SOCK_LIB_FLAG_ASYNC" "has CONN_HANDLE_ASYNC_ENABLED 0x10"
    "\<not> has CONN_HANDLE_ASYNC_ENABLED CONN_HANDLE_SSL_CLIENT_ENABLED"
    by (simp_all add: lib_flags_def has_def)
  obtain lib where st: "SocketLibStart SOCK_LIB_FLAG_ASYNC (al_start env) (cw_lib w) = (True, lib)"
    using assms(4) by (metis prod.collapse)
  obtain h ip where m: "al_handle env = Some h" "al_identity env = Some ip" using assms(5,6) by blast
  have id: "CopyIdentity (Some ip) (Some s) = Some (identity_text s, ip)"
    using assms(7) by (auto simp: CopyIdentity_def)
  let ?w2 = "w\<lparr>cw_lib := lib, cw_memory := insert ip (insert h (cw_memory w))\<rparr>"
  have f: "e1 \<notin> at_live (cw_threads w)" "e2 \<notin> at_live (cw_threads w)" "e1 \<noteq> e2" "g1 \<notin> cw_groups w"
    "g2 \<notin> cw_groups w" "g1 \<noteq> g2" using assms(2,8-11) by (auto simp: fresh_answers_def)
  obtain w3 where n1: "new_engine (Some g1) (Some e1) ?w2 = (Some e1, w3)" and w3: "engines_ok w3 (e1 # xs)"
    "at_live (cw_threads w3) = insert e1 (at_live (cw_threads w))" "cw_groups w3 = insert g1 (cw_groups w)"
    "only_threads ?w2 w3"
    using new_engine_ok [where w = ?w2 and xs = xs and eng = "Some e1" and gr = "Some g1"] f assms(1)
    by (auto simp: engines_ok_def split: prod.splits option.splits)
  obtain w4 where n2: "new_engine (Some g2) (Some e2) w3 = (Some e2, w4)" and w4: "engines_ok w4 (e2 # e1 # xs)"
    "only_threads w3 w4"
    using new_engine_ok [where w = w3 and xs = "e1 # xs" and eng = "Some e2" and gr = "Some g2"] f w3
    by (auto split: prod.splits option.splits)
  have "connCacheInit (al_pool env) (identity_text s) None = Inl EMSGSIZE"
    using assms(7) by (simp add: connCacheInit_def)
  with assms(3,8-13) st m id fl n1 n2 w3 w4 show ?thesis
    by (simp add: ConnHandleAllocEx_def alloc_params_def client_contexts_def alloc_engines_def threadEngineSet_def
        free_context_def only_threads_def engines_ok_def Let_def)
qed

lemma destroy_engine_contexts: "destroy_engine e w = Some w' \<Longrightarrow> cw_contexts w' = cw_contexts w"
  by (auto simp: destroy_engine_def)

lemma destroy_opt_contexts: "destroy_opt e w = Some w' \<Longrightarrow> cw_contexts w' = cw_contexts w"
  by (cases e) (auto simp: destroy_opt_def destroy_engine_contexts)

lemma forget_handle_contexts:
  assumes "forget_handle p w = Some w'"
  shows "cw_contexts w' = cw_contexts w"
proof (cases "hl_count (cw_handles w) - 1 < 1")
  case True
  with assms obtain w1 where "destroy_opt (hl_internal (cw_handles w)) (w\<lparr>cw_handles := ConnHandleForget p (cw_handles w)\<rparr>) = Some w1"
    "destroy_opt (hl_consumer (cw_handles w)) w1 = Some w'"
    by (auto simp: forget_handle_def Let_def bind_eq_Some_conv)
  then show ?thesis by (simp add: destroy_opt_contexts)
next
  case False
  with assms show ?thesis by (auto simp: forget_handle_def Let_def)
qed

text \<open>
  When the context for TLS cannot be created, \<^verbatim>\<open>ConnLoadServerCertificate()\<close> frees the other
  context but keeps pointing at it: freeing the handle, or loading the next certificate, frees it
  again.
\<close>
theorem certificate_double_free:
  assumes "ch_sslv23_server h = None" and "ch_tls_server h = None" and "\<not> ch_shuttingDown h"
    and "has (ch_fixed h) CONN_HANDLE_SSL_SERVER_ENABLED" and "a \<notin> cw_contexts w"
    and "ch_sslv23_client h = None"
  shows "\<exists>h' w'. ConnLoadServerCertificate ((Some a, True), (tls, False)) True h w = Some (False, h', w') \<and>
     cw_contexts w' = cw_contexts w \<and>
     ConnLoadServerCertificate ctxs path h' w' = None \<and>
     ConnHandleFree sys src (Some (p, h')) w' s = None"
proof -
  let ?h = "h\<lparr>ch_sslv23_server := Some a, ch_tls_server := None\<rparr>"
  let ?w = "w\<lparr>cw_contexts := cw_contexts w\<rparr>"
  have "insert a (cw_contexts w) - {a} = cw_contexts w" using assms(5) by simp
  with assms have "ConnLoadServerCertificate ((Some a, True), (tls, False)) True h w = Some (False, ?h, ?w)"
    by (cases tls) (simp_all add: ConnLoadServerCertificate_def free_context_def CreateServerContext_def new_context_def Let_def)
  moreover have "ConnLoadServerCertificate ctxs path ?h ?w = None"
    using assms(5) by (simp add: ConnLoadServerCertificate_def free_context_def)
  moreover have "ConnHandleFree sys src (Some (p, ?h)) ?w s = None"
    using forget_handle_contexts [of p ?w] assms(5,6)
    by (auto simp: ConnHandleFree_def free_context_def Let_def split: option.splits bind_splits)
  ultimately show ?thesis by (intro exI conjI) simp_all
qed

section \<open>Freeing\<close>

text \<open>
  The engines that the first handle has created are adopted by the library and destroyed with the
  last handle; those its configuration named are left alone.
\<close>

lemma adopted_engine_destroyed:
  assumes ok: "engines_ok w xs" and fr: "\<And>e. eng = Some e \<Longrightarrow> e \<notin> at_live (cw_threads w)"
    "\<And>g. gr = Some g \<Longrightarrow> g \<notin> cw_groups w"
    and t: "threadEngineSet cf None gr eng w = (0, e, w1)"
  shows "only_threads w w1 \<and> (\<forall>a. adopt None e cf = Some a \<longrightarrow> gr \<noteq> None \<and> eng = Some a \<and> engines_ok w1 (a # xs) \<and>
        at_live (cw_threads w1) = insert a (at_live (cw_threads w)) \<and>
        cw_groups w1 = insert (the gr) (cw_groups w) \<and>
        at_engine (cw_threads w1) = (at_engine (cw_threads w))(a := \<lparr>te_context = the gr, te_hasFree = True\<rparr>)) \<and>
     (adopt None e cf = None \<longrightarrow> w1 = w)"
  by (rule threadEngineSet_ok [where w = w and xs = xs and eng = eng and gr = gr and cf = cf and gl = None, OF ok fr])
    (use t in \<open>auto simp: adopt_def\<close>)

lemma destroy_opt_ok:
  assumes "engines_ok w xs" "\<And>a. e = Some a \<Longrightarrow> a \<in> set xs"
  shows "\<exists>w'. destroy_opt e w = Some w' \<and> only_threads w w' \<and>
     engines_ok w' (case e of None \<Rightarrow> xs | Some a \<Rightarrow> remove1 a xs) \<and>
     at_live (cw_threads w') = at_live (cw_threads w) - set_option e \<and>
     at_engine (cw_threads w') = at_engine (cw_threads w) \<and>
     cw_groups w' = cw_groups w - (case e of None \<Rightarrow> {} | Some a \<Rightarrow>
        if te_hasFree (at_engine (cw_threads w) a) then {te_context (at_engine (cw_threads w) a)} else {})"
proof (cases e)
  case (Some a)
  with destroy_engine_ok [OF assms(1), of a] assms(2) show ?thesis by (auto simp: destroy_opt_def)
qed (use assms in \<open>simp add: destroy_opt_def\<close>)

lemma first_engines_destroyed:
  assumes ok: "engines_ok w xs" and fresh: "fresh_answers env w0"
    and same: "cw_threads w = cw_threads w0" "cw_groups w = cw_groups w0"
    and none: "hl_internal (cw_handles w) = None" "hl_consumer (cw_handles w) = None"
    and a: "alloc_engines env flags config w = Some (Some (e1, e2), w1)"
    and w1': "cw_threads w1' = cw_threads w1" "cw_groups w1' = cw_groups w1"
  shows "\<exists>w2. Option.bind (destroy_opt (adopt None e1 (Option.bind config cf_internal)) w1')
       (destroy_opt (adopt None e2 (Option.bind config cf_consumer))) = Some w2 \<and>
     only_threads w1' w2 \<and> engines_ok w2 xs \<and> at_live (cw_threads w2) = at_live (cw_threads w) \<and>
     cw_groups w2 = cw_groups w"
proof (cases "has flags CONN_HANDLE_ASYNC_ENABLED")
  case False
  with a ok w1' show ?thesis by (simp add: alloc_engines_def adopt_def destroy_opt_def engines_ok_def)
next
  case True
  let ?ci = "Option.bind config cf_internal" and ?cc = "Option.bind config cf_consumer"
  let ?g1 = "al_group_internal env" and ?n1 = "al_engine_internal env"
  let ?g2 = "al_group_consumer env" and ?n2 = "al_engine_consumer env"
  obtain r1 v where t1: "threadEngineSet ?ci None ?g1 ?n1 w = (r1, e1, v)"
    and t2: "threadEngineSet ?cc None ?g2 ?n2 v = (0, e2, w1)" and r1: "r1 = 0"
    using a True none by (auto simp: alloc_engines_def Let_def split: prod.splits if_splits option.splits)
  have f1: "\<And>e. ?n1 = Some e \<Longrightarrow> e \<notin> at_live (cw_threads w)" "\<And>g. ?g1 = Some g \<Longrightarrow> g \<notin> cw_groups w"
    using fresh same by (auto simp: fresh_answers_def)
  note A1 = adopted_engine_destroyed [OF ok f1 t1 [unfolded r1]]
  let ?a1 = "adopt None e1 ?ci" and ?a2 = "adopt None e2 ?cc"
  define ys where "ys = (case ?a1 of None \<Rightarrow> xs | Some a \<Rightarrow> a # xs)"
  have okv: "engines_ok v ys" using A1 ok by (auto simp: ys_def split: option.splits)
  have f2: "\<And>e. ?n2 = Some e \<Longrightarrow> e \<notin> at_live (cw_threads v)" "\<And>g. ?g2 = Some g \<Longrightarrow> g \<notin> cw_groups v"
    using fresh same A1 by (cases ?a1; force simp: fresh_answers_def)+
  note A2 = adopted_engine_destroyed [OF okv f2 t2]
  show ?thesis
  proof (cases ?a1)
    case None
    then have v: "v = w" "ys = xs" using A1 by (simp_all add: ys_def)
    show ?thesis
    proof (cases ?a2)
      case None
      with A2 v \<open>?a1 = None\<close> ok w1' show ?thesis by (simp add: destroy_opt_def engines_ok_def)
    next
      case (Some b)
      with A2 v have w1: "engines_ok w1' (b # xs)" "?n2 = Some b" "?g2 \<noteq> None"
        "at_live (cw_threads w1') = insert b (at_live (cw_threads w))" "cw_groups w1' = insert (the ?g2) (cw_groups w)"
        "at_engine (cw_threads w1') b = \<lparr>te_context = the ?g2, te_hasFree = True\<rparr>"
        using w1' by (simp_all add: engines_ok_def)
      have "b \<notin> at_live (cw_threads w)" "the ?g2 \<notin> cw_groups w" using f2 w1(2,3) v by auto
      with destroy_engine_ok [OF w1(1), of b] w1 \<open>?a1 = None\<close> Some show ?thesis by (auto simp: destroy_opt_def)
    qed
  next
    case (Some a)
    with A1 have v: "engines_ok v (a # xs)" "?n1 = Some a" "?g1 \<noteq> None" "ys = a # xs"
      "at_live (cw_threads v) = insert a (at_live (cw_threads w))" "cw_groups v = insert (the ?g1) (cw_groups w)"
      "at_engine (cw_threads v) a = \<lparr>te_context = the ?g1, te_hasFree = True\<rparr>"
      by (simp_all add: ys_def)
    have na: "a \<notin> at_live (cw_threads w)" "the ?g1 \<notin> cw_groups w" using f1 v(2,3) by auto
    show ?thesis
    proof (cases ?a2)
      case None
      with A2 have e: "w1 = v" by simp
      have "engines_ok w1' (a # xs)" using v(1) w1' e by (simp add: engines_ok_def)
      from destroy_engine_ok [OF this, of a] v w1' na None Some e show ?thesis by (auto simp: destroy_opt_def)
    next
      case (Some b)
      with A2 v(4) w1' have w1: "engines_ok w1' (b # a # xs)" "?n2 = Some b" "?g2 \<noteq> None"
        "at_live (cw_threads w1') = insert b (at_live (cw_threads v))" "cw_groups w1' = insert (the ?g2) (cw_groups v)"
        "at_engine (cw_threads w1') = (at_engine (cw_threads v))(b := \<lparr>te_context = the ?g2, te_hasFree = True\<rparr>)"
        by (simp_all add: engines_ok_def)
      have nb: "b \<notin> insert a (at_live (cw_threads w))" "the ?g2 \<notin> insert (the ?g1) (cw_groups w)"
        using f2 [unfolded v(5,6)] w1(2,3) by auto
      then have "at_engine (cw_threads w1') a = \<lparr>te_context = the ?g1, te_hasFree = True\<rparr>"
        "remove1 a (b # a # xs) = b # xs" using w1(6) v(7) by auto
      with destroy_engine_ok [OF w1(1), of a] obtain w2 where d: "destroy_engine a w1' = Some w2" "engines_ok w2 (b # xs)"
        "only_threads w1' w2" "at_live (cw_threads w2) = insert b (at_live (cw_threads w))"
        "cw_groups w2 = insert (the ?g2) (cw_groups w)" "at_engine (cw_threads w2) = at_engine (cw_threads w1')"
        using w1(4,5) v(5,6) na nb by (auto simp: insert_Diff_if)
      have "at_engine (cw_threads w2) b = \<lparr>te_context = the ?g2, te_hasFree = True\<rparr>" using d(6) w1(6) by simp
      with destroy_engine_ok [OF d(2), of b] obtain w3 where "destroy_engine b w2 = Some w3" "engines_ok w3 xs"
        "only_threads w2 w3" "at_live (cw_threads w3) = at_live (cw_threads w)" "cw_groups w3 = cw_groups w"
        using d(4,5) nb by auto
      with d(1,3) Some \<open>?a1 = Some a\<close> only_threads_trans [OF d(3)] show ?thesis by (simp add: destroy_opt_def)
    qed
  qed
qed

text \<open>What freeing a handle does to its connections: idle ones are closed, listeners are left open.\<close>

definition killed :: "'b conn \<Rightarrow> 'b conn \<Rightarrow> bool" where
  "killed c c' \<longleftrightarrow>
     (if state c \<in> {CONN_STATE_IDLE, CONN_STATE_SYNCHRONOUS} then c' = c\<lparr>sp := (sp c)\<lparr>number := SOCKET_INVALID\<rparr>\<rparr>
      else if state c \<in> {CONN_STATE_ASYNCHRONOUS_ENGINE, CONN_STATE_ASYNCHRONOUS_ENGINE_COMPLETE,
                         CONN_STATE_ASYNCHRONOUS_CLIENT} then problem c' \<noteq> None
      else c' = c)"

lemma connKillEx_killed:
  assumes "events_inv c xs fs"
  shows "\<exists>b c' n'. connKillEx sys src (c, n) = Some (b, c', n') \<and> killed c c'"
proof -
  obtain d ys gs where "EventQueueAbort None CONN_EVENT_KILLED ECANCELED src c = Some d" "problem d \<noteq> None"
    using settles_abort [OF assms] by blast
  then show ?thesis
    by (cases "state c") (auto simp: connKillEx_def killed_def socketClose_def split: prod.splits)
qed

lemma each_conn_killed:
  assumes "\<forall>c \<in> set cs. \<exists>xs fs. events_inv c xs fs"
  shows "\<exists>ds n'. each_conn (\<lambda>cn. map_option snd (connKillEx sys src cn)) cs n = Some (ds, n') \<and> list_all2 killed cs ds"
  using assms
proof (induction cs arbitrary: n)
  case (Cons c cs)
  then obtain b c' n1 where "connKillEx sys src (c, n) = Some (b, c', n1)" "killed c c'"
    using connKillEx_killed by (metis list.set_intros(1))
  moreover obtain ds n2 where "each_conn (\<lambda>cn. map_option snd (connKillEx sys src cn)) cs n1 = Some (ds, n2)"
    "list_all2 killed cs ds" using Cons by (metis list.set_intros(2))
  ultimately show ?case by simp
qed simp

text \<open>
  Freeing a handle ends every connection in use: it returns, each idle or synchronous connection
  has its socket closed, each asynchronous one has its queue aborted; listeners are left as they are.
\<close>
theorem handle_free_ends_connections:
  assumes "\<forall>c \<in> set (hs_conns (fst s)). \<exists>xs fs. events_inv c xs fs"
  shows "\<exists>s'. CloseHandleConnections sys src s = Some (0, s') \<and>
     list_all2 killed (hs_conns (fst s)) (hs_conns (fst s'))"
proof -
  from each_conn_killed [OF assms, of sys src "snd s"] obtain ds n where
    "each_conn (\<lambda>cn. map_option snd (connKillEx sys src cn)) (hs_conns (fst s)) (snd s) = Some (ds, n)"
    "list_all2 killed (hs_conns (fst s)) ds" by blast
  then show ?thesis by (simp add: CloseHandleConnections_def on_conns_def)
qed

lemma alloc_success:
  assumes ok: "engines_ok w xs" and fresh: "fresh_answers env w"
    and a: "ConnHandleAllocEx env identity flags config w = Some (Some (p, h), w')"
  shows "\<exists>w3 w4. p \<notin> cw_memory w \<and> ch_identity_block h \<notin> cw_memory w \<and> ch_identity_block h \<noteq> p \<and>
     engines_ok w3 xs \<and> cw_threads w3 = cw_threads w \<and> cw_groups w3 = cw_groups w \<and> cw_handles w3 = cw_handles w \<and>
     alloc_engines env flags config w3 = Some (Some (ch_internal h, ch_consumer h), w4) \<and>
     w' = w4\<lparr>cw_handles := ConnHandleRemember (ch_internal h, ch_consumer h)
        (Option.bind config cf_internal, Option.bind config cf_consumer) p (handle_memset p (cw_handles w))\<rparr> \<and>
     cw_memory w4 = insert (ch_identity_block h) (insert p (cw_memory w)) \<and>
     cw_contexts w4 = cw_contexts w \<union> set_option (ch_sslv23_client h) \<union> set_option (ch_tls_client h) \<and>
     cw_lib w4 = snd (SocketLibStart (lib_flags flags) (al_start env) (cw_lib w)) \<and>
     set_option (ch_sslv23_client h) \<inter> cw_contexts w = {} \<and> set_option (ch_tls_client h) \<inter> cw_contexts w = {} \<and>
     set_option (ch_sslv23_client h) \<inter> set_option (ch_tls_client h) = {} \<and>
     ch_sslv23_server h = None \<and> ch_tls_server h = None"
proof -
  obtain started lib where st: "SocketLibStart (lib_flags flags) (al_start env) (cw_lib w) = (started, lib)"
    by (metis prod.exhaust)
  let ?w0 = "w\<lparr>cw_lib := lib\<rparr>"
  have "\<exists>name ip. started \<and> al_handle env = Some p \<and> CopyIdentity (al_identity env) identity = Some (name, ip)"
    using a st by (auto simp: ConnHandleAllocEx_def Let_def split: option.splits if_splits sum.splits)
  then obtain name ip where b: "started" "al_handle env = Some p"
    "CopyIdentity (al_identity env) identity = Some (name, ip)" by blast
  have ip: "al_identity env = Some ip"
    using b(3) by (auto simp: CopyIdentity_def split: option.splits if_splits)
  have new: "p \<notin> cw_memory w" "ip \<notin> cw_memory w" "ip \<noteq> p" using fresh b(2) ip by (auto simp: fresh_answers_def)
  let ?w2 = "?w0\<lparr>cw_memory := insert ip (insert p (cw_memory w))\<rparr>"
  have "\<exists>c1 c2 w3. client_contexts env flags ?w2 = Some (Some (c1, c2), w3)"
    using a st b by (auto simp: ConnHandleAllocEx_def Let_def split: option.splits if_splits sum.splits prod.splits)
  then obtain c1 c2 w3 where c: "client_contexts env flags ?w2 = Some (Some (c1, c2), w3)" by blast
  have c3: "w3 = ?w2\<lparr>cw_contexts := cw_contexts w \<union> set_option c1 \<union> set_option c2\<rparr> \<and>
        set_option c1 \<inter> cw_contexts w = {} \<and> set_option c2 \<inter> cw_contexts w = {} \<and> set_option c1 \<inter> set_option c2 = {}"
    using client_contexts_ok [OF fresh, of ?w2 flags] c by auto
  have e3: "engines_ok w3 xs" "cw_threads w3 = cw_threads w" "cw_groups w3 = cw_groups w"
    using ok c3 by (simp_all add: engines_ok_def)
  from alloc_engines_ok [OF e3(1) fresh e3(2,3), of flags config] obtain r4 w4 where
    al: "alloc_engines env flags config w3 = Some (r4, w4)" "only_threads w3 w4" by blast
  obtain e1 e2 slab nb where r: "r4 = Some (e1, e2)" "connCacheInit (al_pool env) name config = Inr (slab, nb)"
    using a st b c al(1) by (auto simp: ConnHandleAllocEx_def Let_def split: option.splits if_splits sum.splits prod.splits)
  have w4: "cw_handles w4 = cw_handles w" using al(2) c3 by (simp add: only_threads_def)
  have hw: "h = \<lparr>ch_identity = name, ch_identity_block = ip, ch_fixed = flags, ch_dynamic = 0, ch_shuttingDown = False,
       ch_sslv23_client = c1, ch_tls_client = c2, ch_sslv23_server = None, ch_tls_server = None,
       ch_internal = e1, ch_consumer = e2, ch_timeOut = connTimeoutInit config, ch_slab = slab\<rparr>"
    "w' = w4\<lparr>cw_handles := ConnHandleRemember (e1, e2)
        (Option.bind config cf_internal, Option.bind config cf_consumer) p (handle_memset p (cw_handles w))\<rparr>"
    using a st b c al(1) r w4 by (auto simp: ConnHandleAllocEx_def Let_def split: if_splits)
  show ?thesis
    by (rule exI [of _ w3], rule exI [of _ w4]) (use new e3 al r hw c3 st in \<open>simp add: only_threads_def\<close>)
qed

text \<open>
  C27. Freeing undoes allocating: when the only handle is freed, the memory, the SSL contexts, the
  thread engines, their thread groups and the list of handles are what they were before it was
  allocated, and the use count of the socket library is back, whichever engines its configuration
  named.
\<close>
theorem handle_alloc_free_round_trip:
  assumes ok: "engines_ok w xs" and fresh: "fresh_answers env w" and li: "lib_initialized (cw_lib w)"
    and hl: "hl_repr (cw_handles w) []" "hl_internal (cw_handles w) = None" "hl_consumer (cw_handles w) = None"
    and a: "ConnHandleAllocEx env identity flags config w = Some (Some (p, h), w1)"
    and "hs_conns (fst s) = []"
  shows "\<exists>w2. ConnHandleFree sys src (Some (p, h)) w1 s = Some (0, w2, s) \<and>
     cw_memory w2 = cw_memory w \<and> cw_contexts w2 = cw_contexts w \<and> cw_groups w2 = cw_groups w \<and>
     engines_ok w2 xs \<and> at_live (cw_threads w2) = at_live (cw_threads w) \<and>
     hl_repr (cw_handles w2) [] \<and> hl_internal (cw_handles w2) = None \<and> hl_consumer (cw_handles w2) = None \<and>
     lib_useCount (cw_lib w2) = lib_useCount (cw_lib w)"
proof -
  from alloc_success [OF ok fresh a] obtain w3 w4 where al: "p \<notin> cw_memory w" "ch_identity_block h \<notin> cw_memory w"
    "ch_identity_block h \<noteq> p" "engines_ok w3 xs" "cw_threads w3 = cw_threads w" "cw_groups w3 = cw_groups w"
    "cw_handles w3 = cw_handles w" "alloc_engines env flags config w3 = Some (Some (ch_internal h, ch_consumer h), w4)"
    "w1 = w4\<lparr>cw_handles := ConnHandleRemember (ch_internal h, ch_consumer h)
        (Option.bind config cf_internal, Option.bind config cf_consumer) p (handle_memset p (cw_handles w))\<rparr>"
    "cw_memory w4 = insert (ch_identity_block h) (insert p (cw_memory w))"
    "cw_contexts w4 = cw_contexts w \<union> set_option (ch_sslv23_client h) \<union> set_option (ch_tls_client h)"
    "cw_lib w4 = snd (SocketLibStart (lib_flags flags) (al_start env) (cw_lib w))"
    "set_option (ch_sslv23_client h) \<inter> cw_contexts w = {}" "set_option (ch_tls_client h) \<inter> cw_contexts w = {}"
    "set_option (ch_sslv23_client h) \<inter> set_option (ch_tls_client h) = {}"
    "ch_sslv23_server h = None" "ch_tls_server h = None" by blast
  let ?l = "cw_handles w1"
  have l: "hl_repr ?l [p]" using hl_remember [OF hl(1)] al(9) by simp
  have cnt: "hl_count ?l = 1" using l by (simp add: hl_repr_def)
  have g: "hl_internal ?l = adopt None (ch_internal h) (Option.bind config cf_internal)"
    "hl_consumer ?l = adopt None (ch_consumer h) (Option.bind config cf_consumer)"
    using al(9) hl by (simp_all add: ConnHandleRemember_def handle_memset_def Let_def split: option.splits)
  let ?w1' = "w1\<lparr>cw_handles := ConnHandleForget p ?l\<rparr>"
  have fg: "hl_repr (ConnHandleForget p ?l) []" "hl_internal (ConnHandleForget p ?l) = None"
    "hl_consumer (ConnHandleForget p ?l) = None"
    using hl_forget [OF l, of p] cnt by (simp_all add: ConnHandleForget_def Let_def split: option.splits)
  have "hl_internal (cw_handles w3) = None" "hl_consumer (cw_handles w3) = None" using al(7) hl by simp_all
  from first_engines_destroyed [OF al(4) fresh al(5,6) this al(8), of ?w1'] al(9) g obtain w5 where
    d: "Option.bind (destroy_opt (hl_internal ?l) ?w1') (destroy_opt (hl_consumer ?l)) = Some w5"
    "only_threads ?w1' w5" "engines_ok w5 xs" "at_live (cw_threads w5) = at_live (cw_threads w)"
    "cw_groups w5 = cw_groups w" using al(5,6) by auto
  have f: "forget_handle p w1 = Some w5" using d(1) cnt by (simp add: forget_handle_def Let_def)
  have close: "CloseHandleConnections sys src s = Some (0, s)"
    using \<open>hs_conns (fst s) = []\<close> by (cases s) (simp add: CloseHandleConnections_def on_conns_def)
  let ?w6 = "w5\<lparr>cw_lib := SocketLibStop (cw_lib w5)\<rparr>"
  have k: "cw_contexts ?w6 = cw_contexts w \<union> set_option (ch_sslv23_client h) \<union> set_option (ch_tls_client h)"
    "cw_memory w5 = insert (ch_identity_block h) (insert p (cw_memory w))" "cw_lib w5 = cw_lib w4"
    "cw_handles w5 = ConnHandleForget p ?l"
    using d(2) al(9-11) by (simp_all add: only_threads_def)
  have "lib_useCount (SocketLibStop (cw_lib w4)) = lib_useCount (cw_lib w)"
    using al(12) SocketLibStart_fields(1) [OF li] by (simp add: SocketLibStop_def Let_def split: option.splits)
  moreover have "insert (ch_identity_block h) (insert p (cw_memory w)) - {ch_identity_block h} - {p} = cw_memory w"
    using al(1-3) by auto
  moreover have "ConnHandleFree sys src (Some (p, h)) w1 s =
      Some (0, free_block p (free_block (ch_identity_block h) (?w6\<lparr>cw_contexts := cw_contexts w\<rparr>)), s)"
    using f close free_both_contexts [OF k(1) al(13-15)] al(16,17)
    by (cases "free_context (ch_sslv23_client h) ?w6") (simp_all add: ConnHandleFree_def free_context_def [of None] Let_def)
  ultimately show ?thesis using d k fg by (simp add: engines_ok_def)
qed

section \<open>Examples\<close>

text \<open>A library that has been used before, with one foreign thread engine, and answers for one call.\<close>

definition demo_connio :: connio_world where
  "demo_connio =
     \<lparr>cw_lib = demo_lib,
      cw_threads = \<lparr>at_initialized = True, at_list = Some 7, at_next = (\<lambda>_. None),
        at_engine = (\<lambda>_. \<lparr>te_context = 70, te_hasFree = False\<rparr>), at_count = 0, at_freed = [], at_live = {7}\<rparr>,
      cw_handles = \<lparr>hl_next = (\<lambda>_. None), hl_prev = (\<lambda>_. None), hl_head = None, hl_tail = None, hl_count = 0,
        hl_internal = None, hl_consumer = None, hl_destroyed = []\<rparr>,
      cw_memory = {1}, cw_contexts = {2}, cw_groups = {3}\<rparr>"

definition demo_env :: alloc_env where
  "demo_env = \<lparr>al_start = demo_start, al_handle = Some 10, al_identity = Some 11, al_sslv23 = Some 12,
     al_tls = Some 13, al_group_internal = Some 14, al_engine_internal = Some 15, al_group_consumer = Some 16,
     al_engine_consumer = Some 17, al_pool = True\<rparr>"

definition demo_no_conns :: "(byte list, int set) hw" where
  "demo_no_conns = (\<lparr>hs_conns = [], hs_cleanup = 0, hs_down = False,
     hs_listeners = no_listeners\<rparr>, \<lparr>kernel = {}, wire_out = [], wire_in = []\<rparr>)"

lemma demo_connio_ok:
  "engines_ok demo_connio [7]" "fresh_answers demo_env demo_connio" "lib_initialized (cw_lib demo_connio)"
  "hl_repr (cw_handles demo_connio) []" "hl_internal (cw_handles demo_connio) = None"
  "hl_consumer (cw_handles demo_connio) = None"
  "fresh_answers (demo_env\<lparr>al_tls := None\<rparr>) demo_connio"
  by (simp_all add: demo_connio_def demo_env_def engines_ok_def engines_def fresh_answers_def demo_lib_def hl_repr_def dll_def)


lemma demo_alloc_fails:
  "\<exists>w'. ConnHandleAllocEx (demo_env\<lparr>al_tls := None\<rparr>) (Some ''mail'') CONN_HANDLE_SSL_CLIENT_ENABLED None demo_connio
     = Some (None, w')"
  by (simp add: ConnHandleAllocEx_def demo_env_def demo_connio_def demo_lib_def demo_start_def has_def lib_flags_def
      SocketLibStart_def Let_def CopyIdentity_def identity_text_def base_name_def after_last_def client_contexts_def
      new_context_def free_context_def)

lemma failed_handle_alloc_keeps_library_witness:
  "\<exists>w'. ConnHandleAllocEx (demo_env\<lparr>al_tls := None\<rparr>) (Some ''mail'') CONN_HANDLE_SSL_CLIENT_ENABLED None demo_connio
     = Some (None, w') \<and> lib_useCount (cw_lib w') = 1"
proof -
  obtain w' where w: "ConnHandleAllocEx (demo_env\<lparr>al_tls := None\<rparr>) (Some ''mail'') CONN_HANDLE_SSL_CLIENT_ENABLED None demo_connio
     = Some (None, w')" using demo_alloc_fails by blast
  have "alloc_params (Some ''mail'') CONN_HANDLE_SSL_CLIENT_ENABLED" by (simp add: alloc_params_def has_def)
  from failed_handle_alloc_keeps_library [OF demo_connio_ok(1,7,3) this w] w show ?thesis
    by (simp add: demo_connio_def demo_lib_def)
qed

lemma cache_failure_leaks_engines_witness:
  "\<exists>w'. ConnHandleAllocEx demo_env (Some (replicate 240 CHR ''a'')) CONN_HANDLE_ASYNC_ENABLED None demo_connio = Some (None, w') \<and>
     engines_ok w' [17, 15, 7]"
proof -
  have i: "identity_text (replicate 240 CHR ''a'') = replicate 240 CHR ''a''"
    by (simp add: identity_text_def base_name_def after_last_def)
  have "fst (SocketLibStart SOCK_LIB_FLAG_ASYNC (al_start demo_env) (cw_lib demo_connio))"
    by (simp add: demo_env_def demo_connio_def demo_lib_def demo_start_def SocketLibStart_def SocketEventEngineAlloc_def
        sockEngineInit_def SocketPollInit_def has_def Let_def)
  then show ?thesis
    using cache_failure_leaks_engines [OF demo_connio_ok(1,2), where s = "replicate 240 CHR ''a''" and
        ?g1.0 = 14 and ?e1.0 = 15 and ?g2.0 = 16 and ?e2.0 = 17] demo_connio_ok(5,6) i
    by (auto simp: alloc_params_def has_def demo_env_def)
qed

definition demo_priv :: ConnHandlePriv where
  "demo_priv = \<lparr>ch_identity = ''mail'', ch_identity_block = 11, ch_fixed = CONN_HANDLE_SSL_SERVER_ENABLED,
     ch_dynamic = 0, ch_shuttingDown = False, ch_sslv23_client = None, ch_tls_client = None, ch_sslv23_server = None,
     ch_tls_server = None, ch_internal = None, ch_consumer = None, ch_timeOut = connTimeoutInit None, ch_slab = 250\<rparr>"

lemma certificate_double_free_witness:
  "\<exists>h' w'. ConnLoadServerCertificate ((Some 20, True), (None, False)) True demo_priv demo_connio = Some (False, h', w') \<and>
     ConnLoadServerCertificate ((Some 21, True), (Some 22, True)) True h' w' = None"
  using certificate_double_free [where h = demo_priv and w = demo_connio and a = 20 and tls = None and
      ctxs = "((Some 21, True), (Some 22, True))" and path = True and p = 10 and
      sys = fd_sys and src = 0 and s = demo_no_conns]
  by (auto simp: demo_priv_def demo_connio_def has_def)

lemma demo_alloc_works:
  "\<exists>h w'. ConnHandleAllocEx demo_env (Some ''mail'') CONN_HANDLE_SSL_CLIENT_ENABLED None demo_connio = Some (Some (10, h), w')"
  by (simp add: ConnHandleAllocEx_def demo_env_def demo_connio_def demo_lib_def demo_start_def has_def lib_flags_def
      SocketLibStart_def Let_def CopyIdentity_def identity_text_def base_name_def after_last_def client_contexts_def
      new_context_def alloc_engines_def connCacheInit_def)

lemma handle_alloc_free_round_trip_witness:
  "\<exists>h w1 w2. ConnHandleAllocEx demo_env (Some ''mail'') CONN_HANDLE_SSL_CLIENT_ENABLED None demo_connio = Some (Some (10, h), w1) \<and>
     ConnHandleFree fd_sys 0 (Some (10, h)) w1 demo_no_conns = Some (0, w2, demo_no_conns) \<and> cw_memory w2 = {1} \<and> cw_contexts w2 = {2}"
proof -
  obtain h w1 where a: "ConnHandleAllocEx demo_env (Some ''mail'') CONN_HANDLE_SSL_CLIENT_ENABLED None demo_connio = Some (Some (10, h), w1)"
    using demo_alloc_works by blast
  have "hs_conns (fst demo_no_conns) = []" by (simp add: demo_no_conns_def)
  from handle_alloc_free_round_trip [where sys = fd_sys and src = 0, OF demo_connio_ok(1-6) a this] a show ?thesis by (auto simp: demo_connio_def)
qed

end
