(* ===== verification/ConnListen.thy ===== *)
theory ConnListen
  imports HandleShutdown SockSetup
begin

unbundle bit_operations_syntax

text \<open>
  The public functions around listening sockets (\<^verbatim>\<open>src/src/connio.c\<close>, \<^verbatim>\<open>src/src/queue.c\<close>): listening
  synchronously and asynchronously, suspending, resuming and closing a listener, accepting, and the
  callback that hands an accepted socket to the consumer; killing, freeing and releasing a
  connection, and asking for addresses.  A connection comes from the cache (\<open>entry\<close>) and gets a new
  socket if \<open>memory\<close> allows; one that cannot be used goes back with \<^verbatim>\<open>connFreeEx()\<close>.
\<close>

record ('b, 'w) listen_env =
  le_ops :: "'b iob_ops"
  le_proc :: "('b, 'w net) processor"
  le_sys :: "'w sys_ops"
  le_lo :: "'w listen_ops"
  le_tm :: "int \<times> int \<times> int \<times> int"
  le_init :: "'b \<Rightarrow> 'b"

definition give_back ::
    "('b, 'w) listen_env \<Rightarrow> ptr \<Rightarrow> nat \<Rightarrow> ('b, 'w net) cw \<Rightarrow> (bool \<times> ('b, 'w net) cw) option" where
  "give_back env = connFreeEx (le_ops env) (le_proc env) (le_sys env) (le_tm env) (le_init env)"

section \<open>Listening\<close>

text \<open>
  The result: whether the caller gets the connection, the connection (in the cache again, if not),
  the counter of listener identifiers, the network.
\<close>

definition ConnListenEx ::
    "('b, 'w) listen_env \<Rightarrow> ConnHandleView option \<Rightarrow> bool \<Rightarrow> 'b conn option \<Rightarrow> ptr \<Rightarrow> int \<Rightarrow> nat \<Rightarrow> 64 word \<Rightarrow> 'w net \<Rightarrow>
     (bool \<times> 'b conn option \<times> 64 word \<times> 'w net) option" where
  "ConnListenEx env ho memory entry ce backlog src uid n =
     (case ho of
        None \<Rightarrow> Some (False, None, uid, n)
      | Some h \<Rightarrow>
          (case ConnAllocEx None (SocketAlloc memory 0) entry of
             (_, None) \<Rightarrow> Some (False, None, uid, n)
           | (_, Some c) \<Rightarrow>
               (let (err, uid1, s1, n1) =
                      (if shuttingDown h then (- 1, uid, sp c, n)
                       else socketListen (le_sys env) (le_lo env) backlog 0 uid (sp c, n))
                in if err = 0 then Some (True, Some (c\<lparr>sp := s1, state := CONN_STATE_SYNCHRONOUS_LISTENER\<rparr>), uid1, n1)
                   else do { (_, c2, n2) \<leftarrow> give_back env ce src (c\<lparr>sp := s1\<rparr>, n1);
                             Some (False, Some c2, uid1, n2) })))"

definition ConnCloseListenerEx :: "'w sys_ops \<Rightarrow> 'b conn option \<Rightarrow> 'w net \<Rightarrow> bool \<times> 'b conn option \<times> 'w net" where
  "ConnCloseListenerEx sys co n =
     (case co of
        None \<Rightarrow> (False, None, n)
      | Some c \<Rightarrow>
          if state c = CONN_STATE_SYNCHRONOUS_LISTENER
          then (case synchronousListenerClose sys (c, n) of (c1, n1) \<Rightarrow> (True, Some c1, n1))
          else (False, Some c, n))"

definition ConnAListenSuspendEx :: "'b conn option \<Rightarrow> bool \<times> 'b conn option" where
  "ConnAListenSuspendEx co =
     (case co of
        None \<Rightarrow> (False, None)
      | Some c \<Rightarrow> (case SocketListenerSuspend (sp c) of (ok, s) \<Rightarrow> (ok, Some (c\<lparr>sp := s\<rparr>))))"

definition ConnAListenResumeEx :: "'b conn option \<Rightarrow> bool \<times> 'b conn option" where
  "ConnAListenResumeEx co =
     (case co of
        None \<Rightarrow> (False, None)
      | Some c \<Rightarrow> (case SocketListenerResume (sp c) of (ok, s) \<Rightarrow> (ok, Some (c\<lparr>sp := s\<rparr>))))"

text \<open>
  The asynchronous listener.  \<open>allowed\<close> is \<^verbatim>\<open>newListenersAllowed()\<close>, \<open>fresh\<close> the event of
  \<^verbatim>\<open>connEventAlloc()\<close>, \<open>alloc\<close> and \<open>add_err\<close> what memory and epoll answer to the wait.
\<close>

definition accept_event :: "nat \<Rightarrow> 'b conn \<Rightarrow> 'b ConnEvent" where
  "accept_event src c =
     ConnEventAssign None 0 (- 1) CONN_EVENT_ACCEPT CONN_EVENT_CLASS_CONNECT CONN_EVENT_MODE_ASYNCHRONOUS None src c
       ConnEventInit"

definition start_listening ::
    "ptr option \<Rightarrow> nat \<Rightarrow> bool \<times> errno \<times> nat \<times> bool \<Rightarrow> 'b conn \<Rightarrow> bool \<times> 'b conn" where
  "start_listening fresh src wait c =
     (case wait of (alloc, add_err, thr, lecb) \<Rightarrow>
        (case connEventCreate fresh (accept_event src c) c of
           (None, c1) \<Rightarrow> (False, c1)
         | (Some e, c1) \<Rightarrow>
             (let c2 = connEventInProgressSet e (c1\<lparr>state := CONN_STATE_ASYNCHRONOUS_LISTENER\<rparr>)
              in case SocketEventWaitEx alloc add_err thr lecb SOCK_EVENT_TYPE_LISTEN (ce_timeOut (mem c2 e)) e (sp c2) of
                   (err, s) \<Rightarrow>
                     if err = 0 then (True, c2\<lparr>sp := s\<rparr>)
                     else (let c3 = connEventInProgressClear e (c2\<lparr>sp := s\<rparr>)
                           in (False, ConnEventFree e (c3\<lparr>state := CONN_STATE_IDLE\<rparr>))))))"

definition ConnAListenEx ::
    "('b, 'w) listen_env \<Rightarrow> ConnHandleView option \<Rightarrow> bool \<Rightarrow> bool \<Rightarrow> 'b conn option \<Rightarrow> ptr option \<Rightarrow> ptr \<Rightarrow>
     bool \<times> errno \<times> nat \<times> bool \<Rightarrow> int \<Rightarrow> int \<Rightarrow> nat \<Rightarrow> 64 word \<Rightarrow> 'w net \<Rightarrow>
     (bool \<times> 'b conn option \<times> 64 word \<times> 'w net) option" where
  "ConnAListenEx env ho allowed memory entry fresh ce wait backlog lid src uid n =
     (case ho of
        None \<Rightarrow> Some (False, None, uid, n)
      | Some h \<Rightarrow>
          if shuttingDown h \<or> \<not> allowed \<or> \<not> has (flags_fixed h) CONN_HANDLE_ASYNC_ENABLED then Some (False, None, uid, n)
          else (case ConnAllocEx None (SocketAlloc memory 0) entry of
             (_, None) \<Rightarrow> Some (False, None, uid, n)
           | (_, Some c) \<Rightarrow>
               (case socketListen (le_sys env) (le_lo env) backlog lid uid (sp c, n) of (err, uid1, s1, n1) \<Rightarrow>
                  (case (if err = 0 then start_listening fresh src wait (c\<lparr>sp := s1\<rparr>) else (False, c\<lparr>sp := s1\<rparr>)) of
                     (True, c2) \<Rightarrow> Some (True, Some c2, uid1, n1)
                   | (False, c2) \<Rightarrow>
                       do { (_, c3, n3) \<leftarrow> give_back env ce src (c2, n1);
                            Some (False, Some c3, uid1, n3) }))))"

section \<open>Accepting\<close>

text \<open>
  \<^verbatim>\<open>AcceptCallback()\<close>: the connection that is handed to the consumer, or nothing when the socket had
  to be released.
\<close>

definition AcceptCallback ::
    "'w sys_ops \<Rightarrow> 'b conn option \<Rightarrow> SOCK \<Rightarrow> SOCK \<Rightarrow> 'w net \<Rightarrow> 'b conn option \<times> 'w net" where
  "AcceptCallback sys entry listenerSp s n =
     (case ConnAllocEx (Some s) None entry of
        (_, Some c) \<Rightarrow>
          (let c1 = c\<lparr>sp := (sp c)\<lparr>listenerID := listenerID listenerSp\<rparr>\<rparr>;
               n1 = snd (in_kernel (sys_nonblocking sys (number (sp c1))) n);
               n2 = snd (in_kernel (sys_nodelay sys (number (sp c1))) n1)
           in (Some c1, n2))
      | (_, None) \<Rightarrow> (None, socketRelease sys (Some s) n))"

text \<open>
  \<^verbatim>\<open>ConnAcceptEx()\<close> with the sockets nothing points to any more.  \<open>Inl\<close>: the socket of the child is
  a null pointer when \<^verbatim>\<open>connFreeEx()\<close> follows it.
\<close>

definition ConnAcceptEx ::
    "('b, 'w) listen_env \<Rightarrow> bool \<times> bool \<Rightarrow> 'b conn option \<Rightarrow> ConnHandleView \<Rightarrow> 'b conn option \<Rightarrow> 'w net \<Rightarrow>
     SOCK list \<times> (fault + 'b conn option \<times> 'w net)" where
  "ConnAcceptEx env memory entry h server n =
     (case server of
        None \<Rightarrow> ([], Inr (None, n))
      | Some sv \<Rightarrow>
          if shuttingDown h then ([], Inr (None, n))
          else (case ConnAllocEx None (SocketAlloc (fst memory) 0) entry of
             (_, None) \<Rightarrow> ([], Inr (None, n))
           | (_, Some child) \<Rightarrow>
               (case SocketAccept (le_sys env) (le_lo env) (snd memory) (sp sv) n of
                  (Some s, n1) \<Rightarrow> ([sp child], Inr (Some (child\<lparr>sp := s\<rparr>), n1))
                | (None, n1) \<Rightarrow> ([sp child], Inl Null_pointer))))"

section \<open>Killing, freeing, addresses\<close>

definition ConnKillEx :: "'w sys_ops \<Rightarrow> nat \<Rightarrow> 'b conn option \<Rightarrow> 'w net \<Rightarrow> (bool \<times> 'b conn option \<times> 'w net) option" where
  "ConnKillEx sys src co n =
     (case co of
        None \<Rightarrow> Some (False, None, n)
      | Some c \<Rightarrow> map_option (\<lambda>(b, c1, n1). (b, Some c1, n1)) (connKillEx sys src (c, n)))"

definition ConnFreeEx ::
    "('b, 'w) listen_env \<Rightarrow> ptr \<Rightarrow> nat \<Rightarrow> 'b conn option \<Rightarrow> 'w net \<Rightarrow> (bool \<times> 'b conn option \<times> 'w net) option" where
  "ConnFreeEx env ce src co n =
     (case co of
        None \<Rightarrow> Some (False, None, n)
      | Some c \<Rightarrow> map_option (\<lambda>(b, c1, n1). (b, Some c1, n1)) (give_back env ce src (c, n)))"

text \<open>\<^verbatim>\<open>ConnReleaseEx()\<close>: the third component is what the caller's pointer is afterwards.\<close>

definition ConnReleaseEx ::
    "('b, 'w) listen_env \<Rightarrow> ptr \<Rightarrow> nat \<Rightarrow> 'b conn option \<Rightarrow> 'w net \<Rightarrow>
     (bool \<times> 'b conn option \<times> ptr option \<times> 'w net) option" where
  "ConnReleaseEx env ce src co n =
     map_option (\<lambda>(b, c1, n1). (b, c1, None, n1)) (ConnFreeEx env ce src co n)"

definition ConnGetPeerAddrEx ::
    "'w listen_ops \<Rightarrow> (ptr \<Rightarrow> bool) \<Rightarrow> ptr option \<Rightarrow> 'b conn option \<Rightarrow> 'w net \<Rightarrow> int \<times> ptr option \<times> 'w net" where
  "ConnGetPeerAddrEx lo loopback addr co n =
     (case (co, addr) of
        (Some c, Some a) \<Rightarrow> (case SocketGetPeerAddr lo loopback a (sp c, n) of (r, a1, n1) \<Rightarrow> (r, Some a1, n1))
      | _ \<Rightarrow> (EINVAL, addr, n))"

definition ConnGetSockAddrEx ::
    "'w listen_ops \<Rightarrow> ptr option \<Rightarrow> 'b conn option \<Rightarrow> 'w net \<Rightarrow> int \<times> ptr option \<times> 'w net" where
  "ConnGetSockAddrEx lo addr co n =
     (case (co, addr) of
        (Some c, Some a) \<Rightarrow> (case socketGetSockAddr lo a (sp c, n) of (r, a1, n1) \<Rightarrow> (r, Some a1, n1))
      | _ \<Rightarrow> (EINVAL, addr, n))"

section \<open>Descriptors\<close>

text \<open>
  A connection of the cache, and what is asked of \<^verbatim>\<open>shutdown()\<close>: it opens and closes no descriptor and
  does not block.
\<close>

definition cached :: "'b conn \<Rightarrow> bool" where
  "cached c \<longleftrightarrow> act_connect c = None \<and> act_send c = None \<and> act_receive c = None \<and> sendBuffer c = None"

definition shutdown_laws :: "('w \<Rightarrow> int set) \<Rightarrow> 'w sys_ops \<Rightarrow> bool" where
  "shutdown_laws open_fds sys \<longleftrightarrow>
     (\<forall>fd. keeps_fds open_fds (sys_shutdown sys fd)) \<and> (\<forall>fd w. fst (sys_shutdown sys fd w) \<noteq> EWOULDBLOCK)"

lemma socketDisconnect_fds:
  assumes "shutdown_laws open_fds sys"
  shows "\<exists>e n'. socketDisconnect sys t 0 (s, n) = Some (e, s, n') \<and> fds open_fds n' = fds open_fds n"
proof -
  obtain e n1 where k: "in_kernel (sys_shutdown sys (number s)) n = (e, n1)" by (metis prod.exhaust)
  then have "e \<noteq> EWOULDBLOCK" "fds open_fds n1 = fds open_fds n"
    using assms keeps_in_kernel [of open_fds "sys_shutdown sys (number s)" n e n1]
    by (auto simp: shutdown_laws_def in_kernel_eq)
  with k show ?thesis
    by (cases "e = 0") (simp_all add: socketDisconnect_def disconnectWithTimeout_def sockDisconnect_def)
qed

lemma socketClose_any:
  assumes "fd_laws open_fds sys lo"
  shows "\<exists>r n'. socketClose sys (s, n) = (r, s\<lparr>number := - 1\<rparr>, n') \<and>
    fds open_fds n' = (if number s = - 1 then fds open_fds n else fds open_fds n - {number s})"
  using socketClose_fds [OF assms, of s n] by (auto simp: socketClose_def in_kernel_eq)

text \<open>Giving an idle connection without buffered data and SSL back closes its descriptor.\<close>

lemma give_back_idle:
  assumes laws: "fd_laws open_fds (le_sys env) lo" "shutdown_laws open_fds (le_sys env)"
    and c: "cached c" "state c = CONN_STATE_IDLE" "ssl_conn (sp c) = None" "ssl_new (sp c) = None"
  shows "\<exists>c' n'. give_back env ce src (c, n) = Some (True, c', n') \<and> state c' = CONN_STATE_CACHED \<and> cached c' \<and>
    number (sp c') = - 1 \<and> fds open_fds n' = (if number (sp c) = - 1 then fds open_fds n else fds open_fds n - {number (sp c)})"
proof -
  let ?sys = "le_sys env"
  let ?c1 = "(upd_event ce (\<lambda>_. ConnEventInit) c)\<lparr>state := CONN_STATE_SYNCHRONOUS, act_connect := Some ce\<rparr>"
  have ins: "SynchronousConnectEventInsert ce (upd_event ce (\<lambda>_. ConnEventInit) c) = (0, ?c1)"
    using c by (simp add: SynchronousConnectEventInsert_def cached_def)
  have b: "bufferedSendDataGet (le_ops env) WITH_DATA ?c1 = (None, ?c1)"
    using c(1) by (simp add: bufferedSendDataGet_def cached_def)
  obtain e n1 where d: "socketDisconnect ?sys (to_disconnect ?c1) 0 (sp c, n) = Some (e, sp c, n1)"
    "fds open_fds n1 = fds open_fds n" using socketDisconnect_fds [OF laws(2)] by blast
  obtain r n2 where cl: "socketClose ?sys (sp c, n1) = (r, (sp c)\<lparr>number := - 1\<rparr>, n2)"
    "fds open_fds n2 = (if number (sp c) = - 1 then fds open_fds n else fds open_fds n - {number (sp c)})"
    using socketClose_any [OF laws(1), of "sp c" n1] d(2) by auto
  have "end_connection (le_ops env) (le_proc env) ?sys ce src (?c1, n) = Some (?c1\<lparr>sp := (sp c)\<lparr>number := - 1\<rparr>\<rparr>, n2)"
    using b c(3) d cl
    by (simp add: end_connection_def ImplicitFlushOnConnectEvent_def ImplicitSSLDisconnectOnConnectEvent_def)
  then show ?thesis
    using c ins cl(2)
    by (cases "number (sp c) = - 1")
      (auto simp: give_back_def connFreeEx_def is_listener_def connIsStillConnected_def release_socket_def socketClose_def
        ConnectionInit_def bufferedSendDataFree_def SynchronousConnectEventRemove_def cached_def split: prod.splits)
qed

section \<open>Properties\<close>

text \<open>Waiting keeps the descriptor and the SSL objects of a socket.\<close>

definition same_fd :: "SOCK \<Rightarrow> SOCK \<Rightarrow> bool" where
  "same_fd s t \<longleftrightarrow> number t = number s \<and> ssl_conn t = ssl_conn s \<and> ssl_new t = ssl_new s"

lemma same_fd_simps [simp]:
  "same_fd s s" "same_fd s (put_se sl e t) = same_fd s t" "same_fd s (notify evs t) = same_fd s t"
  "same_fd s (asyncListenerRelease t) = same_fd s t" "same_fd s (t\<lparr>listener := l\<rparr>) = same_fd s t"
  by (auto simp: same_fd_def asyncListenerRelease_def)

lemma sockEventAdd_fd: "same_fd s t \<Longrightarrow> same_fd s (snd (sockEventAdd add_err sl tm t))"
  by (simp add: sockEventAdd_def Let_def)

definition link_and_add :: "errno \<Rightarrow> slot \<Rightarrow> SocketEventType \<Rightarrow> int \<Rightarrow> ptr \<Rightarrow> SOCK \<Rightarrow> errno \<times> SOCK" where
  "link_and_add add_err sl type tm e s1 =
     (let (linked, se) = SeLinkCe type e (get_se sl s1)
      in if \<not> linked then (EBUSY, s1)
         else (let (er, t) = sockEventAdd add_err sl tm (put_se sl se s1)
               in if er \<noteq> 0 then (er, put_se sl (SeUnlinkCe (get_se sl t)) t) else (0, t)))"

lemma link_and_add_fd: "same_fd s (snd (link_and_add add_err sl type tm e s1)) = same_fd s s1"
  using sockEventAdd_fd [of s] by (auto simp: link_and_add_def sockEventAdd_def Let_def split: prod.splits)

lemma SocketEventWaitEx_listen:
  "SocketEventWaitEx alloc add_err thr lecb SOCK_EVENT_TYPE_LISTEN tm e s =
    (let s1 = notify [LISTENER_SUBMITTED] (s\<lparr>listener := Some \<lparr>throttlingThreshold = thr, hasEventCallback = lecb, inAccept = 0\<rparr>\<rparr>);
         (err2, s2) = (if has (se_flags (ev_connect s)) FSE_LISTENER_KILLED then (ECONNABORTED, s)
                       else if \<not> alloc then (ENOMEM, s\<lparr>listener := None\<rparr>)
                       else if number s1 = SOCKET_INVALID then (ENOTSOCK, s1)
                       else link_and_add add_err Connect_slot SOCK_EVENT_TYPE_LISTEN tm e s1)
     in if err2 \<noteq> 0 then (err2, asyncListenerRelease s2) else (0, s2))"
  by (simp add: SocketEventWaitEx_def sockEventTranslate_def link_and_add_def Let_def)

lemma SocketEventWaitEx_fd:
  "same_fd s (snd (SocketEventWaitEx alloc add_err thr lecb SOCK_EVENT_TYPE_LISTEN tm e s))"
  unfolding SocketEventWaitEx_listen Let_def
  by (simp add: split_beta link_and_add_fd)

lemma start_listening_result:
  assumes "start_listening fresh src wait c = (ok, c')" and "cached c" and "state c = CONN_STATE_IDLE"
  shows "same_fd (sp c) (sp c') \<and>
    (if ok then state c' = CONN_STATE_ASYNCHRONOUS_LISTENER else cached c' \<and> state c' = CONN_STATE_IDLE)"
proof -
  obtain alloc add_err thr lecb where w: "wait = (alloc, add_err, thr, lecb)" by (metis prod_cases4)
  have cls: "ce_class (accept_event src c) = CONN_EVENT_CLASS_CONNECT"
    by (simp add: accept_event_def ConnEventAssign_def)
  show ?thesis
  proof (cases fresh)
    case None
    with assms w show ?thesis by (auto simp: start_listening_def connEventCreate_def)
  next
    case (Some e)
    let ?c1 = "upd_event e (\<lambda>_. accept_event src c) c"
    let ?c2 = "?c1\<lparr>state := CONN_STATE_ASYNCHRONOUS_LISTENER, act_connect := Some e\<rparr>"
    obtain err s where x: "SocketEventWaitEx alloc add_err thr lecb SOCK_EVENT_TYPE_LISTEN (ce_timeOut (mem ?c2 e)) e (sp c) = (err, s)"
      by (metis prod.exhaust)
    have fd: "same_fd (sp c) s"
      using SocketEventWaitEx_fd [of "sp c" alloc add_err thr lecb "ce_timeOut (mem ?c2 e)" e] x by simp
    have m: "mem ?c2 e = accept_event src c" by (simp add: upd_event_def)
    show ?thesis
      using assms w Some x fd cls m
      by (auto simp: start_listening_def connEventCreate_def connEventInProgressSet_def connEventInProgressClear_def
          ConnEventFree_def cached_def upd_event_def Let_def split: if_splits)
  qed
qed

lemma socketClose_ssl:
  "ssl_conn (fst (snd (socketClose sys (s, n)))) = ssl_conn s" "ssl_new (fst (snd (socketClose sys (s, n)))) = ssl_new s"
  by (simp_all add: socketClose_def split_beta)

lemma socketListen_ssl:
  assumes "socketListen sys lo backlog lid uid (s, n) = (r, uid', s', n')"
  shows "ssl_conn s' = ssl_conn s \<and> ssl_new s' = ssl_new s"
proof -
  have "ssl_conn (fst (snd (snd (socketListen sys lo backlog lid uid (s, n))))) = ssl_conn s"
    "ssl_new (fst (snd (snd (socketListen sys lo backlog lid uid (s, n))))) = ssl_new s"
    by (simp_all add: socketListen_def split_beta Let_def socketClose_ssl getListenerUid_def)
  with assms show ?thesis by simp
qed

text \<open>What a listen call leaves: a listener that holds the one new descriptor, or nothing.\<close>

definition listened ::
    "('w \<Rightarrow> int set) \<Rightarrow> ConnState \<Rightarrow> 'w net \<Rightarrow> bool \<times> 'b conn option \<times> 64 word \<times> 'w net \<Rightarrow> bool" where
  "listened open_fds st n r \<longleftrightarrow>
     (case r of (ok, co, uid', n') \<Rightarrow>
        if ok then \<exists>c. co = Some c \<and> state c = st \<and> number (sp c) \<noteq> - 1 \<and> number (sp c) \<notin> fds open_fds n \<and>
                      fds open_fds n' = insert (number (sp c)) (fds open_fds n)
        else fds open_fds n' = fds open_fds n \<and>
             (\<forall>c. co = Some c \<longrightarrow> state c = CONN_STATE_CACHED \<and> cached c \<and> number (sp c) = - 1))"

lemma given_back:
  assumes laws: "fd_laws open_fds (le_sys env) lo" "shutdown_laws open_fds (le_sys env)"
    and c: "cached c" "state c = CONN_STATE_IDLE" "ssl_conn (sp c) = None" "ssl_new (sp c) = None"
    and fd: "number (sp c) = - 1 \<and> fds open_fds n1 = fds open_fds n \<or>
       number (sp c) \<noteq> - 1 \<and> number (sp c) \<notin> fds open_fds n \<and> fds open_fds n1 = insert (number (sp c)) (fds open_fds n)"
  shows "\<exists>r. do { (_, c3, n3) \<leftarrow> give_back env ce src (c, n1); Some (False, Some c3, uid, n3) } = Some r \<and>
    listened open_fds st n r"
  using give_back_idle [OF laws c, of ce src n1] fd by (auto simp: listened_def)

lemma ConnAllocEx_new:
  assumes "ConnAllocEx None (SocketAlloc memory 0) entry = (e, Some c)" and "\<forall>d. entry = Some d \<longrightarrow> cached d"
  shows "cached c \<and> state c = CONN_STATE_IDLE \<and> ssl_conn (sp c) = None \<and> ssl_new (sp c) = None \<and> number (sp c) = - 1"
  using assms by (cases memory) (auto simp: ConnAllocEx_def SocketAlloc_fields idle_SOCK_def cached_def split: option.splits)

text \<open>
  C26. Listening neither leaks nor loses a descriptor, synchronously (\<^verbatim>\<open>ConnListenEx()\<close>) or asynchronously
  (\<^verbatim>\<open>ConnAListenEx()\<close>): the call returns; either the caller gets a listener that holds the one
  descriptor that was opened, or the open descriptors are as before and the connection is closed and
  back in the cache, whichever step failed: memory, the handle, a system call, the event, epoll.
\<close>
theorem listen_owns_one_descriptor:
  assumes laws: "fd_laws open_fds (le_sys env) (le_lo env)" "shutdown_laws open_fds (le_sys env)"
    and entry: "\<forall>d. entry = Some d \<longrightarrow> cached d"
  shows "(\<exists>r. ConnListenEx env ho memory entry ce backlog src uid n = Some r \<and>
       listened open_fds CONN_STATE_SYNCHRONOUS_LISTENER n r) \<and>
     (\<exists>r. ConnAListenEx env ho allowed memory entry fresh ce wait backlog lid src uid n = Some r \<and>
       listened open_fds CONN_STATE_ASYNCHRONOUS_LISTENER n r)"
proof (cases "\<exists>h e c. ho = Some h \<and> ConnAllocEx None (SocketAlloc memory 0) entry = (e, Some c)")
  case False
  then show ?thesis
    by (auto simp: ConnListenEx_def ConnAListenEx_def listened_def split: option.splits prod.splits)
next
  case True
  then obtain h e c where h: "ho = Some h" and al: "ConnAllocEx None (SocketAlloc memory 0) entry = (e, Some c)" by blast
  note c = ConnAllocEx_new [OF al entry]
  have ls: "(r = 0 \<and> number s' \<noteq> - 1 \<and> number s' \<notin> fds open_fds n \<and> fds open_fds n' = insert (number s') (fds open_fds n) \<or>
      r \<noteq> 0 \<and> number s' = - 1 \<and> fds open_fds n' = fds open_fds n) \<and> ssl_conn s' = None \<and> ssl_new s' = None"
    if "socketListen (le_sys env) (le_lo env) backlog i uid (sp c, n) = (r, u, s', n')" for i r u s' n'
  proof -
    from socket_listen_no_leak [OF laws(1), where backlog = backlog and lid = i and uid = uid and s = "sp c" and n = n]
    have "r = 0 \<and> number s' \<noteq> - 1 \<and> number s' \<notin> fds open_fds n \<and> fds open_fds n' = insert (number s') (fds open_fds n) \<or>
      r = - 1 \<and> number s' = - 1 \<and> fds open_fds n' = fds open_fds n \<and> u = uid" unfolding that prod.case .
    then have "r = 0 \<and> number s' \<noteq> - 1 \<and> number s' \<notin> fds open_fds n \<and> fds open_fds n' = insert (number s') (fds open_fds n) \<or>
      r \<noteq> 0 \<and> number s' = - 1 \<and> fds open_fds n' = fds open_fds n" by (elim disjE) simp_all
    moreover have "ssl_conn s' = None \<and> ssl_new s' = None" using socketListen_ssl [OF that] c by simp
    ultimately show ?thesis by (rule conjI)
  qed
  have sync: "\<exists>r. ConnListenEx env ho memory entry ce backlog src uid n = Some r \<and>
       listened open_fds CONN_STATE_SYNCHRONOUS_LISTENER n r"
  proof (cases "shuttingDown h")
    case True
    with h al c given_back [OF laws, of c n n ce src uid CONN_STATE_SYNCHRONOUS_LISTENER] show ?thesis
      by (simp add: ConnListenEx_def)
  next
    case False
    obtain r u s' n' where l: "socketListen (le_sys env) (le_lo env) backlog 0 uid (sp c, n) = (r, u, s', n')"
      by (metis prod_cases4)
    show ?thesis
    proof (cases "r = 0")
      case True
      with False h al l ls [OF l] show ?thesis by (simp add: ConnListenEx_def listened_def)
    next
      case r: False
      have "cached (c\<lparr>sp := s'\<rparr>)" using c by (simp add: cached_def)
      with False r h al l ls [OF l] c given_back [OF laws, of "c\<lparr>sp := s'\<rparr>" n' n ce src u CONN_STATE_SYNCHRONOUS_LISTENER]
      show ?thesis by (simp add: ConnListenEx_def)
    qed
  qed
  have async: "\<exists>r. ConnAListenEx env ho allowed memory entry fresh ce wait backlog lid src uid n = Some r \<and>
       listened open_fds CONN_STATE_ASYNCHRONOUS_LISTENER n r"
  proof (cases "shuttingDown h \<or> \<not> allowed \<or> \<not> has (flags_fixed h) CONN_HANDLE_ASYNC_ENABLED")
    case True
    with h show ?thesis by (simp add: ConnAListenEx_def listened_def)
  next
    case False
    obtain r u s' n' where l: "socketListen (le_sys env) (le_lo env) backlog lid uid (sp c, n) = (r, u, s', n')"
      by (metis prod_cases4)
    obtain ok c2 where st: "(if r = 0 then start_listening fresh src wait (c\<lparr>sp := s'\<rparr>) else (False, c\<lparr>sp := s'\<rparr>)) = (ok, c2)"
      by (metis prod.exhaust)
    have cs: "cached (c\<lparr>sp := s'\<rparr>)" "state (c\<lparr>sp := s'\<rparr>) = CONN_STATE_IDLE" using c by (simp_all add: cached_def)
    have c2: "same_fd s' (sp c2)" "ok \<Longrightarrow> r = 0 \<and> state c2 = CONN_STATE_ASYNCHRONOUS_LISTENER"
      "\<not> ok \<Longrightarrow> cached c2 \<and> state c2 = CONN_STATE_IDLE"
      using st cs start_listening_result [of fresh src wait "c\<lparr>sp := s'\<rparr>" ok c2] by (auto split: if_splits)
    show ?thesis
    proof (cases ok)
      case True
      with False h al l st c2 ls [OF l] show ?thesis by (simp add: ConnAListenEx_def listened_def same_fd_def)
    next
      case nok: False
      from given_back [OF laws, of c2 n' n ce src u CONN_STATE_ASYNCHRONOUS_LISTENER] c2 nok ls [OF l]
      have "\<exists>r. do { (_, c3, n3) \<leftarrow> give_back env ce src (c2, n'); Some (False, Some c3, u, n3) } = Some r \<and>
        listened open_fds CONN_STATE_ASYNCHRONOUS_LISTENER n r" by (auto simp: same_fd_def)
      with False h al l st nok show ?thesis by (simp add: ConnAListenEx_def)
    qed
  qed
  from sync async show ?thesis ..
qed

text \<open>
  \<^verbatim>\<open>ConnAcceptEx()\<close> loses the socket structure its child was allocated with, every time; and when
  nothing can be accepted it follows a null pointer instead of reporting the error.
\<close>
theorem failed_accept_faults:
  assumes "\<not> shuttingDown h" and "entry = Some d"
  shows "case SocketAccept (le_sys env) (le_lo env) m (sp sv) n of
      (Some s, n1) \<Rightarrow> \<exists>c. ConnAcceptEx env (True, m) entry h (Some sv) n = ([idle_SOCK (- 1)], Inr (Some c, n1)) \<and>
                        sp c = s \<and> state c = CONN_STATE_IDLE
    | (None, n1) \<Rightarrow> ConnAcceptEx env (True, m) entry h (Some sv) n = ([idle_SOCK (- 1)], Inl Null_pointer)"
  using assms
  by (auto simp: ConnAcceptEx_def ConnAllocEx_def SocketAlloc_fields idle_SOCK_def split: option.splits prod.splits)

section \<open>Examples\<close>

text \<open>A kernel whose \<^verbatim>\<open>bind()\<close> works.\<close>

definition demo_listen_env :: "(byte list, int set) listen_env" where
  "demo_listen_env = \<lparr>le_ops = list_iob 8, le_proc = (\<lambda>_ cw. Some (CONN_EVENT_COMPLETE, cw)),
     le_sys = fd_sys\<lparr>sys_bind := (\<lambda>_ w. (0, w))\<rparr>, le_lo = fd_listen, le_tm = (1, 2, 3, 4), le_init = (\<lambda>_. [])\<rparr>"

definition demo_view :: ConnHandleView where
  "demo_view = \<lparr>shuttingDown = False, flags_fixed = CONN_HANDLE_ASYNC_ENABLED, flags_dynamic = 0\<rparr>"

lemma listen_owns_one_descriptor_witness:
  "\<exists>r. ConnListenEx demo_listen_env (Some demo_view) True (Some idle_conn) 9 5 0 0 \<lparr>kernel = {}, wire_out = [], wire_in = []\<rparr> = Some r \<and>
     fst r \<and> kernel (snd (snd (snd r))) = {4}"
proof -
  let ?n = "\<lparr>kernel = {}, wire_out = [], wire_in = []\<rparr>"
  have "fd_laws (\<lambda>w. w) (le_sys demo_listen_env) (le_lo demo_listen_env)"
    by (auto simp: demo_listen_env_def fd_laws_def opens_fd_def keeps_fds_def fd_sys_def fd_listen_def)
  moreover have "shutdown_laws (\<lambda>w. w) (le_sys demo_listen_env)"
    by (simp add: demo_listen_env_def shutdown_laws_def keeps_fds_def fd_sys_def)
  ultimately have "\<exists>r. ConnListenEx demo_listen_env (Some demo_view) True (Some idle_conn) 9 5 0 0 ?n = Some r \<and>
       listened (\<lambda>w. w) CONN_STATE_SYNCHRONOUS_LISTENER ?n r"
    using listen_owns_one_descriptor [of "\<lambda>w. w" demo_listen_env "Some idle_conn" "Some demo_view" True 9 5 0 0 ?n]
    by (simp add: cached_def idle_conn_def)
  moreover have "map_option (\<lambda>r. (fst r, map_option (\<lambda>c. number (sp c)) (fst (snd r))))
      (ConnListenEx demo_listen_env (Some demo_view) True (Some idle_conn) 9 5 0 0 ?n) = Some (True, Some 4)"
    by (simp add: ConnListenEx_def demo_listen_env_def demo_view_def ConnAllocEx_def SocketAlloc_fields socketListen_def
        in_kernel_def fd_sys_def fd_listen_def getListenerUid_def Let_def idle_conn_def)
  ultimately show ?thesis by (auto simp: listened_def)
qed

lemma failed_accept_faults_witness:
  "ConnAcceptEx demo_listen_env (True, False) (Some idle_conn) demo_view (Some idle_conn) \<lparr>kernel = {}, wire_out = [], wire_in = []\<rparr> =
     ([idle_SOCK (- 1)], Inl Null_pointer)"
  using failed_accept_faults [of demo_view "Some idle_conn" idle_conn demo_listen_env False idle_conn
      "\<lparr>kernel = {}, wire_out = [], wire_in = []\<rparr>"]
  by (simp add: demo_view_def SocketAccept_def SocketAlloc_fields)

end
