(* ===== verification/FileCallbacks.thy ===== *)
theory FileCallbacks
  imports Process
begin

text \<open>
  The callbacks that come with the library (\<^verbatim>\<open>src/src/callbacks.c\<close>): reading a file into a
  connection, writing what a connection receives to a file, and writing up to the line with a
  single dot.  A stdio stream is modelled by what is left to read, what has been written, its two
  flags and the number of bytes the device still transfers before it fails.  \<^verbatim>\<open>MemSearch()\<close> is a
  function of another library and a parameter.
\<close>

section \<open>Streams\<close>

record FILE =
  f_rest :: "byte list"
  f_written :: "byte list"
  f_eof :: bool
  f_error :: bool
  f_left :: "nat option"              \<comment> \<open>\<open>None\<close>: the device never fails\<close>

definition can_move :: "nat \<Rightarrow> FILE \<Rightarrow> nat" where
  "can_move n f = (case f_left f of None \<Rightarrow> n | Some k \<Rightarrow> min k n)"

definition moved :: "nat \<Rightarrow> FILE \<Rightarrow> FILE" where
  "moved k f = f\<lparr>f_left := map_option (\<lambda>l. l - k) (f_left f)\<rparr>"

definition fread :: "nat \<Rightarrow> FILE \<Rightarrow> byte list \<times> FILE" where
  "fread n f =
     (let want = min n (length (f_rest f)); k = can_move want f; f1 = moved k (f\<lparr>f_rest := drop k (f_rest f)\<rparr>)
      in (take k (f_rest f),
          if k < want then f1\<lparr>f_error := True\<rparr>
          else if want < n then f1\<lparr>f_eof := True\<rparr> else f1))"

definition fwrite :: "byte list \<Rightarrow> FILE \<Rightarrow> nat \<times> FILE" where
  "fwrite bs f =
     (let k = can_move (length bs) f; f1 = moved k (f\<lparr>f_written := f_written f @ take k bs\<rparr>)
      in (k, if k < length bs then f1\<lparr>f_error := True\<rparr> else f1))"

text \<open>A \<^verbatim>\<open>size_t\<close> stored in an \<^verbatim>\<open>int\<close>, and back.\<close>

definition size_as_int :: "nat \<Rightarrow> int" where
  "size_as_int n = sint (word_of_nat n :: 32 word)"

definition int_as_size :: "int \<Rightarrow> nat" where
  "int_as_size i = nat (i mod 2 ^ 64)"

lemma int_as_size_small [simp]: "n < 2 ^ 64 \<Longrightarrow> int_as_size (int n) = n"
  by (simp add: int_as_size_def)

lemma size_as_int_small [simp]: "n < 2 ^ 31 \<Longrightarrow> size_as_int n = int n"
  by (simp add: size_as_int_def signed_of_nat signed_take_bit_int_eq_self)

section \<open>Callbacks\<close>

text \<open>The answer, the bytes that are stored in the buffer and \<^verbatim>\<open>*size\<close>, the stream.\<close>

definition ConnFileReader ::
    "FILE option \<Rightarrow> nat \<Rightarrow> ConnIOCBResponse \<times> byte list \<times> nat \<times> FILE option" where
  "ConnFileReader fp sz =
     (case fp of
        None \<Rightarrow> (CONN_IOCBR_ERROR, [], 0, None)
      | Some f \<Rightarrow>
          (case fread sz f of (data, f1) \<Rightarrow>
             (let bytes = size_as_int (length data);
                  n = (if bytes > 0 then nat bytes else 0)
              in if f_eof f1 then (CONN_IOCBR_DONE, data, n, Some f1)
                 else if f_error f1 then (CONN_IOCBR_ERROR, data, n, Some f1)
                 else (CONN_IOCBR_CONTINUE, data, n, Some f1))))"

definition ConnFileWriter ::
    "FILE option \<Rightarrow> byte list \<Rightarrow> ConnIOCBResponse \<times> nat \<times> FILE option" where
  "ConnFileWriter fp buffer =
     (case fp of
        None \<Rightarrow> (CONN_IOCBR_ERROR, 0, None)
      | Some f \<Rightarrow>
          (case fwrite buffer f of (k, f1) \<Rightarrow>
             (let bytes = size_as_int k
              in if bytes > 0 then (CONN_IOCBR_CONTINUE, nat bytes, Some f1)
                 else (CONN_IOCBR_ERROR, 0, Some f1))))"

text \<open>
  \<open>mem_search\<close> gives the number of bytes in front of the pattern, or of those that cannot belong to
  it, whether it is there, and the buffer it leaves (\<^verbatim>\<open>SEARCH_REPLACE_NULL\<close>).
\<close>

abbreviation (input) EOS_LINE :: "byte list" where "EOS_LINE \<equiv> [13, 10, 46, 13, 10]"

definition ConnFileWriterEOS ::
    "(byte list \<Rightarrow> nat \<times> bool \<times> byte list) \<Rightarrow> FILE option \<Rightarrow> byte list \<Rightarrow>
     ConnIOCBResponse \<times> nat \<times> FILE option" where
  "ConnFileWriterEOS mem_search fp buffer =
     (case fp of
        None \<Rightarrow> (CONN_IOCBR_ERROR, 0, None)
      | Some f \<Rightarrow>
          (case mem_search buffer of (n, found, buffer1) \<Rightarrow>
             (let bytes = size_as_int n;
                  (ok, f1) = (if bytes > 0
                              then (case fwrite (take (nat bytes) buffer1) f of (k, g) \<Rightarrow> (int k = bytes, g))
                              else (True, f))
              in if \<not> ok then (CONN_IOCBR_ERROR, 0, Some f1)
                 else if found then
                   (case fwrite EOS_LINE f1 of (k, f2) \<Rightarrow>
                      if k \<noteq> 5 then (CONN_IOCBR_ERROR, int_as_size bytes, Some f2)
                      else (CONN_IOCBR_DONE, int_as_size (bytes + 5), Some f2))
                 else (if bytes \<noteq> 0 then CONN_IOCBR_CONTINUE else CONN_IOCBR_NEED_MORE_DATA,
                       int_as_size bytes, Some f1))))"

section \<open>Reading a file\<close>

text \<open>A consumer that calls the reader with one size after the other, up to the first other answer than \<^verbatim>\<open>CONTINUE\<close>.\<close>

fun read_file :: "nat list \<Rightarrow> FILE \<Rightarrow> ConnIOCBResponse \<times> byte list \<times> FILE" where
  "read_file [] f = (CONN_IOCBR_CONTINUE, [], f)"
| "read_file (n # ns) f =
     (case ConnFileReader (Some f) n of
        (CONN_IOCBR_CONTINUE, data, k, Some f1) \<Rightarrow>
          (case read_file ns f1 of (r, rest, f2) \<Rightarrow> (r, take k data @ rest, f2))
      | (r, data, k, Some f1) \<Rightarrow> (r, take k data, f1)
      | (r, data, k, None) \<Rightarrow> (r, take k data, f))"

fun write_file :: "byte list list \<Rightarrow> FILE \<Rightarrow> ConnIOCBResponse \<times> FILE" where
  "write_file [] f = (CONN_IOCBR_CONTINUE, f)"
| "write_file (b # bs) f =
     (case ConnFileWriter (Some f) b of
        (CONN_IOCBR_CONTINUE, k, Some f1) \<Rightarrow>
          if k = length b then write_file bs f1 else (CONN_IOCBR_ERROR, f1)
      | (r, k, Some f1) \<Rightarrow> (r, f1)
      | (r, k, None) \<Rightarrow> (r, f))"

lemma fread_working:
  assumes "f_left f = None"
  shows "fread n f = (take n (f_rest f), if length (f_rest f) < n then f\<lparr>f_rest := [], f_eof := True\<rparr>
                                         else f\<lparr>f_rest := drop n (f_rest f)\<rparr>)"
  using assms by (cases f) (auto simp: fread_def can_move_def moved_def Let_def min_def)

lemma fwrite_working:
  "f_left f = None \<Longrightarrow> fwrite bs f = (length bs, f\<lparr>f_written := f_written f @ bs\<rparr>)"
  by (cases f) (simp add: fwrite_def can_move_def moved_def Let_def)

lemma reader_working:
  assumes "f_left f = None" "\<not> f_eof f" "\<not> f_error f" "n < 2 ^ 31"
  shows "ConnFileReader (Some f) n =
    (if length (f_rest f) < n
     then (CONN_IOCBR_DONE, f_rest f, length (f_rest f), Some (f\<lparr>f_rest := [], f_eof := True\<rparr>))
     else (CONN_IOCBR_CONTINUE, take n (f_rest f), n, Some (f\<lparr>f_rest := drop n (f_rest f)\<rparr>)))"
  using assms by (auto simp: ConnFileReader_def fread_working Let_def min_def)

text \<open>
  C36. Reading a file through \<^verbatim>\<open>ConnFileReader\<close> gives the file: with buffers of any sizes below 2 GB that
  add up to more than the file, the parts the callback reports are the contents, in order, and the
  last answer is \<^verbatim>\<open>CONN_IOCBR_DONE\<close>; and writing any parts, none of them empty, through
  \<^verbatim>\<open>ConnFileWriter\<close> appends them to the file.
\<close>
theorem file_callbacks_round_trip:
  assumes "f_left f = None" "\<not> f_eof f" "\<not> f_error f" "\<forall>n \<in> set ns. n < 2 ^ 31" "length (f_rest f) < sum_list ns"
    and "f_left g = None" "\<forall>b \<in> set bs. b \<noteq> [] \<and> length b < 2 ^ 31" "concat bs = f_rest f"
  shows "(\<exists>f'. read_file ns f = (CONN_IOCBR_DONE, f_rest f, f') \<and> f_rest f' = []) \<and>
     write_file bs g = (CONN_IOCBR_CONTINUE, g\<lparr>f_written := f_written g @ f_rest f\<rparr>)"
proof
  show "\<exists>f'. read_file ns f = (CONN_IOCBR_DONE, f_rest f, f') \<and> f_rest f' = []"
    using assms(1-5)
  proof (induction ns arbitrary: f)
    case (Cons n ns)
    note rd = reader_working [OF Cons.prems(1-3), of n]
    show ?case
    proof (cases "length (f_rest f) < n")
      case True
      with rd Cons.prems(4) show ?thesis by simp
    next
      case False
      let ?f = "f\<lparr>f_rest := drop n (f_rest f)\<rparr>"
      have "\<exists>f'. read_file ns ?f = (CONN_IOCBR_DONE, f_rest ?f, f') \<and> f_rest f' = []"
        by (rule Cons.IH) (use Cons.prems False in simp_all)
      with rd Cons.prems(4) False show ?thesis by auto
    qed
  qed simp
  have "write_file bs g = (CONN_IOCBR_CONTINUE, g\<lparr>f_written := f_written g @ concat bs\<rparr>)"
    using assms(6,7)
  proof (induction bs arbitrary: g)
    case (Cons b bs)
    let ?g = "g\<lparr>f_written := f_written g @ b\<rparr>"
    have "ConnFileWriter (Some g) b = (CONN_IOCBR_CONTINUE, length b, Some ?g)"
      using Cons.prems by (simp add: ConnFileWriter_def fwrite_working Let_def)
    with Cons.IH [of ?g] Cons.prems show ?case by simp
  qed simp
  with assms(8) show "write_file bs g = (CONN_IOCBR_CONTINUE, g\<lparr>f_written := f_written g @ f_rest f\<rparr>)" by simp
qed

definition demo_file :: "byte list \<Rightarrow> FILE" where
  "demo_file bs = \<lparr>f_rest = bs, f_written = [], f_eof = False, f_error = False, f_left = None\<rparr>"

lemma file_callbacks_round_trip_witness:
  "(\<exists>f'. read_file [2, 2, 2] (demo_file [1, 2, 3]) = (CONN_IOCBR_DONE, [1, 2, 3], f')) \<and>
   f_written (snd (write_file [[1], [2, 3]] (demo_file []))) = [1, 2, 3]"
proof -
  note file_callbacks_round_trip [of "demo_file [1, 2, 3]" "[2, 2, 2]" "demo_file []" "[[1], [2, 3]]"]
  then show ?thesis by (auto simp: demo_file_def)
qed

section \<open>Up to the dot\<close>

text \<open>
  The writer up to the dot counts five bytes for the last line, whatever ended it on the wire: with
  bare newlines it reports two bytes more than there are, and reading to it fails with
  \<^verbatim>\<open>ECONNIOCBLONG\<close> although the text has been written completely.
\<close>

definition file_cb ::
    "(FILE option \<Rightarrow> byte list \<Rightarrow> ConnIOCBResponse \<times> nat \<times> FILE option) \<Rightarrow>
     byte list \<Rightarrow> FILE option \<Rightarrow> ConnIOCBResponse \<times> nat \<times> FILE option" where
  "file_cb w shown f = w f shown"

theorem bare_newlines_end_in_an_error:
  assumes "used env p = text @ [10, 46, 10]" and "length text < 2 ^ 31"
    and "mem_search (text @ [10, 46, 10]) = (length text, True, text @ [10, 46, 10])"
    and "read_cb env = file_cb (ConnFileWriterEOS mem_search)" and "psock p = Some f" and "f_left f = None"
    and "arg_cb_count (pe p) = 0"
  shows "\<exists>f'. read_cb_round env p = Finished ECONNIOCBLONG (p\<lparr>psock := Some f'\<rparr>) \<and>
     f_written f' = f_written f @ text @ EOS_LINE"
proof -
  have "ConnFileWriterEOS mem_search (Some f) (text @ [10, 46, 10]) =
    (CONN_IOCBR_DONE, length text + 5, Some (f\<lparr>f_written := f_written f @ text @ EOS_LINE\<rparr>))"
    using assms(2,3,6)
    by (cases "text = []") (auto simp: ConnFileWriterEOS_def fwrite_working Let_def int_as_size_def)
  with assms show ?thesis
    by (intro exI [of _ "f\<lparr>f_written := f_written f @ text @ EOS_LINE\<rparr>"]) (simp add: read_cb_round_def file_cb_def Let_def)
qed

end
