(* ===== verification/OpenSSLLocks.thy ===== *)
theory OpenSSLLocks
  imports Prelude
begin

unbundle bit_operations_syntax

text \<open>
  The table of mutexes for OpenSSL (\<^verbatim>\<open>src/src/crypto.c\<close>): it is created by the first consumer and
  freed with the last one.  A mutex is free or held by a thread.  \<^verbatim>\<open>CRYPTO_num_locks()\<close> and
  \<^verbatim>\<open>calloc()\<close> are arguments.
\<close>

section \<open>State and operations\<close>

record crypto =
  CryptoLocks :: "nat option list option"
  CryptoLockCount :: u32
  CryptoLockConsumers :: u32
  locking_callback :: bool            \<comment> \<open>whether OpenSSL has the callback\<close>

abbreviation (input) CRYPTO_LOCK :: u32 where "CRYPTO_LOCK \<equiv> 1"

text \<open>
  The outcome of a call from OpenSSL: done, waiting for the holder of the mutex, or an access
  outside the table.
\<close>

datatype lock_result = Locked crypto | Waits | Out_of_bounds

definition CryptoLockCallback :: "nat \<Rightarrow> u32 \<Rightarrow> int \<Rightarrow> crypto \<Rightarrow> lock_result" where
  "CryptoLockCallback thread mode lockn s =
     (case CryptoLocks s of
        None \<Rightarrow> Out_of_bounds
      | Some locks \<Rightarrow>
          if lockn - 1 < 0 \<or> lockn - 1 \<ge> int (length locks) then Out_of_bounds
          else (let i = nat (lockn - 1)
                in if mode AND CRYPTO_LOCK \<noteq> 0
                   then (if locks ! i = None then Locked (s\<lparr>CryptoLocks := Some (locks[i := Some thread])\<rparr>) else Waits)
                   else Locked (s\<lparr>CryptoLocks := Some (locks[i := None])\<rparr>)))"

text \<open>\<open>memory\<close> tells whether \<^verbatim>\<open>calloc()\<close> succeeds; the result is \<^verbatim>\<open>errno\<close>.\<close>

definition ConnCryptoLockInit :: "u32 \<Rightarrow> bool \<Rightarrow> crypto \<Rightarrow> errno \<times> crypto" where
  "ConnCryptoLockInit num_locks memory s =
     (let s1 = s\<lparr>CryptoLockConsumers := CryptoLockConsumers s + 1\<rparr>
      in if CryptoLocks s1 \<noteq> None then (0, s1)
         else (let s2 = s1\<lparr>CryptoLockCount := num_locks\<rparr>
               in if memory
                  then (0, s2\<lparr>CryptoLocks := Some (replicate (unat num_locks) None), locking_callback := True\<rparr>)
                  else (ENOMEM, s2)))"

definition ConnCryptoLockDestroy :: "crypto \<Rightarrow> crypto" where
  "ConnCryptoLockDestroy s =
     (let s1 = s\<lparr>CryptoLockConsumers := CryptoLockConsumers s - 1\<rparr>
      in if CryptoLockConsumers s1 = 0 \<and> CryptoLocks s1 \<noteq> None
         then s1\<lparr>locking_callback := False, CryptoLocks := None\<rparr>
         else s1)"

section \<open>Runs\<close>

text \<open>
  \<open>crypto_run k s n\<close>: \<open>n\<close> consumers have called \<^verbatim>\<open>ConnCryptoLockInit()\<close> and not yet
  \<^verbatim>\<open>ConnCryptoLockDestroy()\<close>; OpenSSL has \<open>k\<close> locks and takes and releases them as it likes.
\<close>

inductive crypto_run :: "u32 \<Rightarrow> crypto \<Rightarrow> nat \<Rightarrow> bool" for k where
  crypto_start: "crypto_run k \<lparr>CryptoLocks = None, CryptoLockCount = 0, CryptoLockConsumers = 0, locking_callback = False\<rparr> 0"
| crypto_init: "crypto_run k s n \<Longrightarrow> Suc n < 2 ^ 32 \<Longrightarrow> crypto_run k (snd (ConnCryptoLockInit k memory s)) (Suc n)"
| crypto_destroy: "crypto_run k s (Suc n) \<Longrightarrow> crypto_run k (ConnCryptoLockDestroy s) n"
| crypto_call: "crypto_run k s n \<Longrightarrow> locking_callback s \<Longrightarrow> CryptoLockCallback th mode lockn s = Locked s' \<Longrightarrow> crypto_run k s' n"

definition crypto_inv :: "u32 \<Rightarrow> crypto \<Rightarrow> nat \<Rightarrow> bool" where
  "crypto_inv k s n \<longleftrightarrow> n < 2 ^ 32 \<and> CryptoLockConsumers s = word_of_nat n \<and>
     (locking_callback s \<longleftrightarrow> CryptoLocks s \<noteq> None) \<and> (n = 0 \<longrightarrow> CryptoLocks s = None) \<and>
     (\<forall>l. CryptoLocks s = Some l \<longrightarrow> length l = unat k \<and> CryptoLockCount s = k)"

lemma of_nat_u32_zero: "n < 2 ^ 32 \<Longrightarrow> (word_of_nat n :: u32) = 0 \<longleftrightarrow> n = 0"
  by (auto simp: word_of_nat_eq_0_iff dest: nat_dvd_not_less)

lemma crypto_run_inv: "crypto_run k s n \<Longrightarrow> crypto_inv k s n"
proof (induction rule: crypto_run.induct)
  case crypto_start
  then show ?case by (simp add: crypto_inv_def)
next
  case (crypto_init s n memory)
  then show ?case by (auto simp: crypto_inv_def ConnCryptoLockInit_def Let_def)
next
  case (crypto_destroy s n)
  then have "(word_of_nat n :: u32) = 0 \<longleftrightarrow> n = 0" by (intro of_nat_u32_zero) (simp add: crypto_inv_def)
  with crypto_destroy.IH show ?case by (auto simp: crypto_inv_def ConnCryptoLockDestroy_def Let_def)
next
  case (crypto_call s n th mode lockn s')
  then show ?case
    by (auto simp: crypto_inv_def CryptoLockCallback_def Let_def split: option.splits if_splits)
qed



end
