(* ===== verification/TraceDump.thy ===== *)
theory TraceDump
  imports Prelude
begin

unbundle bit_operations_syntax

text \<open>
  The hex dump of traced data (\<^verbatim>\<open>_TraceData()\<close> in \<^verbatim>\<open>src/src/trace.c\<close>): rows of 76 characters are filled
  in place, byte by byte, and written out when they are full.
\<close>

section \<open>The loop\<close>

definition hexChart :: "nat \<Rightarrow> byte" where
  "hexChart n = (if n < 10 then of_nat (48 + n) else of_nat (87 + n))"

text \<open>\<^verbatim>\<open>"%8.8x"\<close> of the offset.\<close>

definition hex8 :: "u32 \<Rightarrow> byte list" where
  "hex8 off = map (\<lambda>i. hexChart (unat (drop_bit (28 - 4 * i) off AND 15))) [0..<8]"

definition isprint :: "byte \<Rightarrow> bool" where
  "isprint b \<longleftrightarrow> 32 \<le> b \<and> b < 127"

definition high_digit :: "byte \<Rightarrow> byte" where
  "high_digit b = hexChart (unat (drop_bit 4 b AND 15))"

definition low_digit :: "byte \<Rightarrow> byte" where
  "low_digit b = hexChart (unat (b AND 15))"

definition shown_char :: "byte \<Rightarrow> byte" where
  "shown_char b = (if isprint b then b else 46)"

text \<open>The 76 characters of \<^verbatim>\<open>dump[80]\<close> that are written; a fresh row and one more byte in it.\<close>

definition blank_row :: "u32 \<Rightarrow> byte list" where
  "blank_row off = (hex8 off @ replicate 67 32 @ [10])[8 := 32]"

definition put_byte :: "nat \<Rightarrow> byte \<Rightarrow> byte list \<Rightarrow> byte list" where
  "put_byte l b dump =
     (let d1 = dump[10 + l * 3 := high_digit b];
          d2 = d1[11 + l * 3 := low_digit b];
          d3 = d2[12 + l * 3 := 32]
      in d3[59 + l := shown_char b])"

fun dump_loop :: "byte list \<Rightarrow> nat \<Rightarrow> u32 \<Rightarrow> byte list \<Rightarrow> byte list list" where
  "dump_loop [] l offset dump = (if l \<noteq> 0 then [dump] else [])"
| "dump_loop (b # bs) l offset dump =
     (if l = 16 then dump # dump_loop bs 1 (offset + 16) (put_byte 0 b (blank_row (offset + 16)))
      else dump_loop bs (l + 1) offset (put_byte l b dump))"

definition TraceData_dump :: "byte list \<Rightarrow> byte list list" where
  "TraceData_dump buffer = dump_loop buffer 0 0 (blank_row 0)"

section \<open>Rows\<close>

text \<open>A row as a reader sees it.\<close>

definition row :: "u32 \<Rightarrow> byte list \<Rightarrow> byte list" where
  "row off bs =
     hex8 off @ [32, 32] @ concat (map (\<lambda>b. [high_digit b, low_digit b, 32]) bs) @
     replicate (3 * (16 - length bs)) 32 @ [32] @ map shown_char bs @ replicate (16 - length bs) 32 @ [10]"

fun rows :: "u32 \<Rightarrow> byte list \<Rightarrow> byte list list" where
  "rows off bs = (if bs = [] then [] else row off (take 16 bs) # rows (off + 16) (drop 16 bs))"

declare rows.simps [simp del]

lemma hex8_length [simp]: "length (hex8 off) = 8"
  by (simp add: hex8_def)

lemma blank_row_row: "blank_row off = row off []"
proof -
  have "hex8 off @ replicate 67 32 @ [10] = hex8 off @ 32 # replicate 66 32 @ [10]" by (simp add: numeral_eq_Suc)
  then have "blank_row off = hex8 off @ 32 # replicate 66 32 @ [10]"
    by (simp add: blank_row_def list_update_append)
  moreover have "replicate 66 (32 :: byte) = 32 # replicate 48 32 @ 32 # replicate 16 32"
    by (simp add: numeral_eq_Suc)
  ultimately show ?thesis by (simp add: row_def)
qed

lemma list_update_at: "i = length xs \<Longrightarrow> (xs @ y # ys)[i := v] = xs @ v # ys"
  by simp

lemma length_cols [simp]: "length (concat (map (\<lambda>b. [f b, g b, x]) bs)) = 3 * length bs"
  by (induction bs) simp_all

lemma put_byte_row:
  assumes "length bs < 16"
  shows "put_byte (length bs) b (row off bs) = row off (bs @ [b])"
proof -
  define n where "n = length bs"
  define A where "A = hex8 off @ [32, 32] @ concat (map (\<lambda>b. [high_digit b, low_digit b, 32]) bs)"
  define P where "P = replicate (3 * (15 - n)) (32 :: byte)"
  define S where "S = map shown_char bs"
  define R where "R = replicate (15 - n) (32 :: byte) @ [10]"
  have pad: "replicate (3 * (16 - n)) (32 :: byte) = 32 # 32 # 32 # P" "replicate (16 - n) (32 :: byte) = 32 # replicate (15 - n) 32"
    using assms by (simp_all add: P_def n_def numeral_eq_Suc Suc_diff_Suc flip: replicate_Suc)
  have len: "length A = 10 + n * 3" "length P = 3 * (15 - n)" "length S = n"
    by (simp_all add: A_def P_def S_def n_def)
  have r: "row off bs = A @ 32 # 32 # 32 # P @ 32 # S @ 32 # R"
    using pad by (simp add: row_def A_def S_def R_def n_def)
  have u1: "(row off bs)[10 + n * 3 := high_digit b] = A @ high_digit b # 32 # 32 # P @ 32 # S @ 32 # R"
    unfolding r by (rule list_update_at) (simp add: len)
  have u2: "(A @ high_digit b # 32 # 32 # P @ 32 # S @ 32 # R)[11 + n * 3 := low_digit b] =
      A @ high_digit b # low_digit b # 32 # P @ 32 # S @ 32 # R"
    using list_update_at [of "11 + n * 3" "A @ [high_digit b]"] len by simp
  have u3: "(A @ high_digit b # low_digit b # 32 # P @ 32 # S @ 32 # R)[12 + n * 3 := 32] =
      A @ high_digit b # low_digit b # 32 # P @ 32 # S @ 32 # R"
    using list_update_at [of "12 + n * 3" "A @ [high_digit b, low_digit b]"] len by simp
  have u4: "(A @ high_digit b # low_digit b # 32 # P @ 32 # S @ 32 # R)[59 + n := shown_char b] =
      A @ high_digit b # low_digit b # 32 # P @ 32 # S @ shown_char b # R"
    using list_update_at [of "59 + n" "A @ [high_digit b, low_digit b, 32] @ P @ 32 # S"] len assms by (simp add: n_def)
  show ?thesis
    unfolding put_byte_def Let_def n_def [symmetric] u1 u2 u3 u4
    by (simp add: row_def A_def P_def S_def R_def n_def)
qed

lemma dump_loop_rows:
  assumes "length bs \<le> 16"
  shows "dump_loop data (length bs) off (row off bs) = rows off (bs @ data)"
  using assms
proof (induction data arbitrary: bs off)
  case Nil
  then show ?case by (cases "bs = []") (simp_all add: rows.simps)
next
  case (Cons b data)
  show ?case
  proof (cases "length bs = 16")
    case True
    have "put_byte 0 b (blank_row (off + 16)) = row (off + 16) [b]"
      using put_byte_row [of "[]" b "off + 16"] by (simp add: blank_row_row)
    with True Cons.IH [of "[b]" "off + 16"] show ?thesis
      by (subst rows.simps) auto
  next
    case False
    with Cons.prems have "length bs < 16" by simp
    from put_byte_row [OF this] Cons.IH [of "bs @ [b]" off] False this show ?thesis by simp
  qed
qed

section \<open>Reading a dump\<close>

definition unhex :: "byte \<Rightarrow> nat" where
  "unhex c = (if c < 58 then unat c - 48 else unat c - 87)"

fun parse_cols :: "nat \<Rightarrow> byte list \<Rightarrow> byte list" where
  "parse_cols (Suc k) (h # l # s # rest) =
     (if h = 32 then [] else of_nat (16 * unhex h + unhex l) # parse_cols k rest)"
| "parse_cols _ _ = []"

definition parse_row :: "byte list \<Rightarrow> byte list" where
  "parse_row r = parse_cols 16 (drop 10 r)"

lemma digits: "n < 16 \<Longrightarrow> hexChart n \<noteq> 32 \<and> unhex (hexChart n) = n"
proof -
  assume n: "n < 16"
  have small: "unat (of_nat m :: byte) = m" if "m < 256" for m using that by (simp add: unat_of_nat take_bit_nat_eq_self)
  have "unat (hexChart n) = (if n < 10 then 48 + n else 87 + n)"
    using n small [of "48 + n"] small [of "87 + n"] by (auto simp: hexChart_def simp del: of_nat_add)
  moreover have "hexChart n < 58 \<longleftrightarrow> n < 10"
    using calculation n by (simp add: word_less_nat_alt)
  moreover have "hexChart n \<noteq> 32" using calculation(1) n by (auto simp: unat_arith_simps split: if_splits)
  ultimately show ?thesis by (simp add: unhex_def)
qed

lemma byte_small: "unat (b :: byte) < 256"
proof -
  have "unat b < 2 ^ LENGTH(8)" by (rule unsigned_less)
  then show ?thesis by simp
qed

lemma nibbles:
  fixes b :: byte
  shows "unat (drop_bit 4 b AND 15) = unat b div 16" "unat (b AND 15) = unat b mod 16"
proof -
  have "unat (x AND 15) = unat x mod 16" for x :: byte
  proof -
    have "unat (take_bit 4 x) = unat x mod 16"
      using unsigned_take_bit_eq [of 4 x, where 'a = nat] by (simp add: take_bit_eq_mod)
    then show ?thesis by (simp add: take_bit_eq_mask mask_eq_exp_minus_1)
  qed
  moreover have "unat (drop_bit 4 b) = unat b div 16" unfolding unat_drop_bit_eq by (simp add: drop_bit_eq_div)
  moreover have "unat b div 16 < 16" using byte_small by (simp add: less_mult_imp_div_less)
  ultimately show "unat (drop_bit 4 b AND 15) = unat b div 16" "unat (b AND 15) = unat b mod 16" by simp_all
qed

lemma digits_byte: "high_digit b \<noteq> 32" "(of_nat (16 * unhex (high_digit b) + unhex (low_digit b)) :: byte) = b"
proof -
  have l: "unat b div 16 < 16" "unat b mod 16 < 16" using byte_small by (simp_all add: less_mult_imp_div_less)
  show "high_digit b \<noteq> 32" unfolding high_digit_def nibbles(1) using digits [OF l(1)] by simp
  have "16 * unhex (high_digit b) + unhex (low_digit b) = unat b"
    unfolding high_digit_def low_digit_def nibbles(1) nibbles(2) [of b] using digits [OF l(1)] digits [OF l(2)] by simp
  then show "(of_nat (16 * unhex (high_digit b) + unhex (low_digit b)) :: byte) = b" by simp
qed

lemma parse_cols_data:
  "length bs \<le> k \<Longrightarrow> (length bs < k \<Longrightarrow> rest = 32 # 32 # 32 # rest') \<Longrightarrow>
    parse_cols k (concat (map (\<lambda>b. [high_digit b, low_digit b, 32]) bs) @ rest) = bs"
proof (induction bs arbitrary: k)
  case Nil
  then show ?case by (cases k) auto
next
  case (Cons b bs)
  then obtain j where "k = Suc j" by (cases k) auto
  with Cons digits_byte show ?case by simp
qed

lemma parse_row_row: "length bs \<le> 16 \<Longrightarrow> parse_row (row off bs) = bs"
proof -
  assume n: "length bs \<le> 16"
  have "replicate (3 * (16 - length bs)) (32 :: byte) = 32 # 32 # 32 # replicate (3 * (15 - length bs)) 32" if "length bs < 16"
    using that by (simp add: numeral_eq_Suc Suc_diff_Suc flip: replicate_Suc)
  with n show ?thesis by (simp add: parse_row_def row_def parse_cols_data)
qed

lemma rows_parse: "concat (map parse_row (rows off bs)) = bs \<and> (\<forall>r \<in> set (rows off bs). length r = 76) \<and>
    length (rows off bs) = (length bs + 15) div 16"
proof (induction off bs rule: rows.induct)
  case (1 off bs)
  show ?case
  proof (cases "bs = []")
    case True
    then show ?thesis by (simp add: rows.simps)
  next
    case False
    have "length (row off (take 16 bs)) = 76" by (simp add: row_def min_def) arith
    moreover have "Suc ((length bs - 16 + 15) div 16) = (length bs + 15) div 16"
      using False by (cases "length bs \<le> 16") (simp_all add: div_nat_eqI Suc_le_eq div_if)
    ultimately show ?thesis using False 1 parse_row_row [of "take 16 bs" off] by (subst (1 2 3) rows.simps) simp
  qed
qed

lemma TraceData_dump_rows: "TraceData_dump bs = rows 0 bs"
  using dump_loop_rows [of "[]" bs 0] by (simp add: TraceData_dump_def blank_row_row)

text \<open>
  C40. The dump is complete and readable: filling the row in place gives the same rows as laying out the
  data 16 bytes at a time, every row has 76 characters, there are as many rows as the data needs, and
  the hex columns read back give exactly the data.
\<close>
theorem trace_dump_round_trip:
  "TraceData_dump bs = rows 0 bs \<and> concat (map parse_row (TraceData_dump bs)) = bs \<and>
   map length (TraceData_dump bs) = replicate ((length bs + 15) div 16) 76"
proof -
  have "map length (rows 0 bs) = replicate ((length bs + 15) div 16) 76"
    using rows_parse [of 0 bs] by (intro replicate_eqI) auto
  then show ?thesis using rows_parse [of 0 bs] by (simp add: TraceData_dump_rows)
qed

end
