(* ===== verification/Trace.thy ===== *)
theory Trace
  imports TraceDump FileCallbacks
begin

unbundle bit_operations_syntax

text \<open>
  Tracing of connections (\<^verbatim>\<open>src/src/trace.c\<close>): a trace writes to a file, directly or through a buffer,
  and can be shared by several sockets.  The buffer is an \<^verbatim>\<open>IOBuffer\<close> of another library, whose
  operations are the members of a record; what \<^verbatim>\<open>printf()\<close> makes of a format is an argument.
\<close>

section \<open>Output\<close>

record 'b trace_ops =
  to_log :: "byte list \<Rightarrow> 'b \<Rightarrow> nat \<times> 'b"
  to_write :: "byte list \<Rightarrow> 'b \<Rightarrow> nat \<times> 'b"
  to_free :: "'b \<Rightarrow> nat"
  to_dump :: "'b \<Rightarrow> byte list"        \<comment> \<open>what \<^verbatim>\<open>iobDumpToFile()\<close> writes\<close>
  to_init :: "'b \<Rightarrow> 'b"
  to_copy :: "nat \<Rightarrow> bool"           \<comment> \<open>there is memory to copy so many bytes\<close>

record 'b TraceConfig =
  tr_flags :: u32
  tr_sequence :: nat
  tr_id :: u32
  tr_subject :: ptr
  tr_consumer :: string
  tr_useCount :: int
  tr_iob :: "'b option"
  tr_file :: FILE
  tr_console :: "byte list"

abbreviation (input) TRACE_TO_CONSOLE :: u32 where "TRACE_TO_CONSOLE \<equiv> 0x01000000"
abbreviation (input) TRACE_FLUSH_WHEN_FULL :: u32 where "TRACE_FLUSH_WHEN_FULL \<equiv> 0x02000000"
abbreviation (input) TRACE_FLUSH_WHEN_CLOSED :: u32 where "TRACE_FLUSH_WHEN_CLOSED \<equiv> 0x04000000"
abbreviation (input) TRACE_FLUSH_ALL :: u32 where "TRACE_FLUSH_ALL \<equiv> 0x08000000"
abbreviation (input) TRACE_DELETE_LOG :: u32 where "TRACE_DELETE_LOG \<equiv> 0x10000000"
abbreviation (input) TRACE_SUPRESS_DATA :: u32 where "TRACE_SUPRESS_DATA \<equiv> 0x20000000"
abbreviation (input) TRACE_DUMP_DATA :: u32 where "TRACE_DUMP_DATA \<equiv> 0x40000000"

text \<open>\<^verbatim>\<open>fwrite( data, len, 1, file )\<close>: the number of items, and the stream.\<close>

definition fwrite_item :: "byte list \<Rightarrow> FILE \<Rightarrow> nat \<times> FILE" where
  "fwrite_item bs f = (case fwrite bs f of (k, g) \<Rightarrow> (if bs \<noteq> [] \<and> k = length bs then 1 else 0, g))"

definition traceFlush :: "'b trace_ops \<Rightarrow> byte list option \<Rightarrow> 'b TraceConfig \<Rightarrow> nat \<times> 'b TraceConfig" where
  "traceFlush ops data tr =
     (let t1 = (case tr_iob tr of
                  None \<Rightarrow> tr
                | Some b \<Rightarrow> tr\<lparr>tr_file := snd (fwrite (to_dump ops b) (tr_file tr)), tr_iob := Some (to_init ops b)\<rparr>)
      in case data of
           None \<Rightarrow> (0, t1)
         | Some d \<Rightarrow>
             (case fwrite_item d (tr_file t1) of (k, f) \<Rightarrow> (if k = 1 then length d else 0, t1\<lparr>tr_file := f\<rparr>)))"

definition traceAppendIOB :: "'b trace_ops \<Rightarrow> byte list \<Rightarrow> 'b \<Rightarrow> 'b TraceConfig \<Rightarrow> nat \<times> 'b TraceConfig" where
  "traceAppendIOB ops data b tr =
     (if \<not> has (tr_flags tr) TRACE_FLUSH_WHEN_FULL
      then (case to_log ops data b of (k, b1) \<Rightarrow> (k, tr\<lparr>tr_iob := Some b1\<rparr>))
      else if to_free ops b > length data
      then (case to_write ops data b of (k, b1) \<Rightarrow> (k, tr\<lparr>tr_iob := Some b1\<rparr>))
      else traceFlush ops (Some data) tr)"

definition echo :: "byte list \<Rightarrow> 'b TraceConfig \<Rightarrow> 'b TraceConfig" where
  "echo d tr = (if has (tr_flags tr) TRACE_TO_CONSOLE then tr\<lparr>tr_console := tr_console tr @ d\<rparr> else tr)"

text \<open>\<^verbatim>\<open>consoleEcho()\<close> prints a copy with \<^verbatim>\<open>"%s"\<close>: up to the first zero byte.\<close>

definition consoleEcho :: "'b trace_ops \<Rightarrow> byte list \<Rightarrow> byte list" where
  "consoleEcho ops d = (if to_copy ops (length d + 1) then takeWhile (\<lambda>b. b \<noteq> 0) d else [])"

text \<open>
  \<^verbatim>\<open>CreateFormattedString()\<close>: \<open>vsn size\<close> is what \<^verbatim>\<open>XplVsnprintf()\<close> returns and writes for a buffer of that
  size, \<open>room\<close> says whether \<^verbatim>\<open>MemRealloc()\<close> succeeds.  A buffer
  that proves too small when it has the maximal size is not freed; its size is in the result.  (Sizes are
  never zero: the first one is \<^verbatim>\<open>STACK_BUFFER_SIZE\<close>.)
\<close>

datatype trace_formatted = Trace_text "byte list" | Trace_no_memory | Trace_too_long nat

definition MAX_FORMATTED_SIZE :: nat where
  "MAX_FORMATTED_SIZE = 1024 * 1024 * 64"

function trace_format_loop :: "(nat \<Rightarrow> int \<times> byte list) \<Rightarrow> (nat \<Rightarrow> bool) \<Rightarrow> nat \<Rightarrow> trace_formatted" where
  "trace_format_loop vsn room nextSize =
     (if \<not> room nextSize then Trace_no_memory
      else
        (case vsn nextSize of (required, text) \<Rightarrow>
           if required \<ge> 0 \<and> required < int nextSize then Trace_text text
           else if \<not> nextSize < MAX_FORMATTED_SIZE \<or> nextSize = 0 then Trace_too_long nextSize
           else trace_format_loop vsn room (if required < 0 then 2 * nextSize else nat required + 1)))"
  by pat_completeness auto
termination
  by (relation "measure (\<lambda>(_, _, n). MAX_FORMATTED_SIZE - n)") auto

declare trace_format_loop.simps [simp del]

definition trace_CreateFormattedString :: "(nat \<Rightarrow> int \<times> byte list) \<Rightarrow> (nat \<Rightarrow> bool) \<Rightarrow> trace_formatted" where
  "trace_CreateFormattedString vsn room = trace_format_loop vsn room 1023"

text \<open>What \<^verbatim>\<open>vfprintIOB()\<close> hands to the buffer: the text from its own array, or a formatted string.\<close>

definition vfprintIOB_text :: "(nat \<Rightarrow> int \<times> byte list) \<Rightarrow> (nat \<Rightarrow> bool) \<Rightarrow> byte list option" where
  "vfprintIOB_text vsn room =
     (case vsn 1023 of (outSize, text) \<Rightarrow>
        if 0 \<le> outSize \<and> outSize < 1023 then Some text
        else (case trace_CreateFormattedString vsn room of Trace_text t \<Rightarrow> Some t | _ \<Rightarrow> None))"

text \<open>
  \<^verbatim>\<open>tracePrintf()\<close>: \<open>txt\<close> is the formatted text, \<open>None\<close> if it cannot be formatted; the result is
  negative when the stream fails.
\<close>

definition tracePrintf :: "'b trace_ops \<Rightarrow> byte list option \<Rightarrow> 'b TraceConfig \<Rightarrow> int \<times> 'b TraceConfig" where
  "tracePrintf ops txt tr =
     (let d = (case txt of Some d \<Rightarrow> d | None \<Rightarrow> []);
          (ret, t1) = (case tr_iob tr of
                         Some b \<Rightarrow> (case txt of
                                      Some _ \<Rightarrow> (case traceAppendIOB ops d b tr of (k, t) \<Rightarrow> (int k, t))
                                    | None \<Rightarrow> (0, tr))
                       | None \<Rightarrow> (case txt of
                                    Some _ \<Rightarrow> (case fwrite d (tr_file tr) of (k, f) \<Rightarrow>
                                       (if k = length d then int k else - 1, tr\<lparr>tr_file := f\<rparr>))
                                  | None \<Rightarrow> (- 1, tr)))
      in (ret, echo d t1))"

definition traceWrite :: "'b trace_ops \<Rightarrow> byte list \<Rightarrow> 'b TraceConfig \<Rightarrow> nat \<times> 'b TraceConfig" where
  "traceWrite ops d tr =
     (let (ret, t1) = (case tr_iob tr of
                         Some b \<Rightarrow> (case traceAppendIOB ops d b tr of (k, t) \<Rightarrow> (if k \<noteq> 0 then 1 else 0, t))
                       | None \<Rightarrow> (case fwrite_item d (tr_file tr) of (k, f) \<Rightarrow> (k, tr\<lparr>tr_file := f\<rparr>)))
      in (ret, echo (consoleEcho ops d) t1))"

definition traceLog :: "'b trace_ops \<Rightarrow> byte list \<Rightarrow> 'b TraceConfig \<Rightarrow> bool \<times> 'b TraceConfig" where
  "traceLog ops d tr =
     (let (ret, t1) = (case tr_iob tr of
                         Some b \<Rightarrow> (case traceAppendIOB ops d b tr of (k, t) \<Rightarrow> (k \<noteq> 0, t))
                       | None \<Rightarrow> (case fwrite_item d (tr_file tr) of (k, f) \<Rightarrow> (k \<noteq> 0, tr\<lparr>tr_file := f\<rparr>)))
      in (ret, echo (consoleEcho ops d) t1))"

section \<open>Events\<close>

abbreviation (input) DATA_OMITTED :: "byte list" where
  "DATA_OMITTED \<equiv> map (\<lambda>c. of_nat (of_char c)) ''( DATA OMITTED )''"

fun write_rows :: "'b trace_ops \<Rightarrow> byte list list \<Rightarrow> 'b TraceConfig \<Rightarrow> 'b TraceConfig" where
  "write_rows ops [] tr = tr"
| "write_rows ops (r # rs) tr = write_rows ops rs (snd (traceWrite ops r tr))"

definition TraceData :: "'b trace_ops \<Rightarrow> byte list \<Rightarrow> 'b TraceConfig \<Rightarrow> 'b TraceConfig" where
  "TraceData ops buffer tr =
     (if has (tr_flags tr) TRACE_SUPRESS_DATA then snd (traceWrite ops DATA_OMITTED tr)
      else if has (tr_flags tr) TRACE_DUMP_DATA then write_rows ops (TraceData_dump buffer) tr
      else snd (traceWrite ops buffer tr))"

text \<open>What \<^verbatim>\<open>printf()\<close> makes of the formats of this file.\<close>

record trace_texts =
  tx_header :: "nat \<Rightarrow> string \<Rightarrow> char \<Rightarrow> nat \<Rightarrow> byte list option"   \<comment> \<open>sequence, message, direction, length\<close>
  tx_trailer :: "char \<Rightarrow> byte list option"
  tx_source :: "byte list option"
  tx_addresses :: "byte list option option"   \<comment> \<open>\<open>None\<close>: there are no addresses to print\<close>
  tx_error :: "byte list \<Rightarrow> nat \<Rightarrow> byte list option"

definition FormatHeader ::
    "'b trace_ops \<Rightarrow> trace_texts \<Rightarrow> string \<Rightarrow> char \<Rightarrow> nat \<Rightarrow> 'b TraceConfig \<Rightarrow> int \<times> 'b TraceConfig" where
  "FormatHeader ops tx message direction len tr =
     tracePrintf ops (tx_header tx (tr_sequence tr) message direction len) (tr\<lparr>tr_sequence := tr_sequence tr + 1\<rparr>)"

definition FormatTrailer :: "'b trace_ops \<Rightarrow> trace_texts \<Rightarrow> char \<Rightarrow> 'b TraceConfig \<Rightarrow> 'b TraceConfig" where
  "FormatTrailer ops tx direction tr = snd (tracePrintf ops (tx_trailer tx direction) tr)"

definition TraceSource :: "'b trace_ops \<Rightarrow> trace_texts \<Rightarrow> 'b TraceConfig \<Rightarrow> 'b TraceConfig" where
  "TraceSource ops tx tr = snd (tracePrintf ops (tx_source tx) tr)"

definition tracePrintAddresses :: "'b trace_ops \<Rightarrow> trace_texts \<Rightarrow> 'b TraceConfig \<Rightarrow> 'b TraceConfig" where
  "tracePrintAddresses ops tx tr =
     (case tx_addresses tx of None \<Rightarrow> tr | Some t \<Rightarrow> snd (tracePrintf ops t tr))"

text \<open>The cases of \<^verbatim>\<open>socketTraceEvent()\<close>.\<close>

datatype trace_case =
    Wire_case string char            \<comment> \<open>header, data, trailer\<close>
  | Api_case string char             \<comment> \<open>header, source, trailer, data, trailer\<close>
  | Plain_case string
  | Connected_case string            \<comment> \<open>header, addresses\<close>
  | Error_case
  | Other_case

definition trace_case_of :: "u32 \<Rightarrow> trace_case" where
  "trace_case_of event =
     (case map_of
        [(0x1, Wire_case ''RECV'' CHR ''<''), (0x2, Plain_case ''WAIT for READABLE''), (0x4, Wire_case ''SEND'' CHR ''>''),
         (0x8, Plain_case ''WAIT for WRITEABLE''), (0x10, Plain_case ''ACCEPT DONE''), (0x20, Plain_case ''ACCEPT START''),
         (0x40, Connected_case ''CONNECT DONE''), (0x80, Plain_case ''CONNECT START''),
         (0x100, Plain_case ''DISCONNECT DONE''), (0x200, Plain_case ''DISCONNECT START''),
         (0x400, Plain_case ''SSL ACCEPT  connection from''),
         (0x800, Plain_case ''SSL ACCEPT (started)  connection from''),
         (0x1000, Plain_case ''SSL CONNECT to''), (0x2000, Plain_case ''SSL CONNECT (started) to''),
         (0x4000, Plain_case ''SSL DISCONNECT DONE''), (0x8000, Plain_case ''SSL DISCONNECT START''),
         (0x10000, Error_case), (0x20000, Plain_case ''SOCKET CLOSED''),
         (0x100000, Api_case ''READ from conn'' CHR ''^''), (0x200000, Api_case ''WRITE to conn'' CHR ''v'')] event of
        Some c \<Rightarrow> c
      | None \<Rightarrow> Other_case)"

definition socketTraceEvent ::
    "'b trace_ops \<Rightarrow> trace_texts \<Rightarrow> u32 \<Rightarrow> byte list \<Rightarrow> nat \<Rightarrow> 'b TraceConfig \<Rightarrow> 'b TraceConfig" where
  "socketTraceEvent ops tx event buffer len tr =
     (if has (tr_flags tr) event then
        (let t1 =
           (case trace_case_of event of
              Wire_case m d \<Rightarrow>
                (case FormatHeader ops tx m d len tr of (r, t) \<Rightarrow>
                   if r > - 1 then FormatTrailer ops tx d (TraceData ops buffer t) else t)
            | Api_case m d \<Rightarrow>
                (case FormatHeader ops tx m CHR ''-'' len tr of (r, t) \<Rightarrow>
                   if r > - 1
                   then FormatTrailer ops tx d (TraceData ops buffer (FormatTrailer ops tx d (TraceSource ops tx t)))
                   else t)
            | Plain_case m \<Rightarrow> snd (FormatHeader ops tx m CHR ''-'' 0 tr)
            | Connected_case m \<Rightarrow> tracePrintAddresses ops tx (snd (FormatHeader ops tx m CHR ''-'' 0 tr))
            | Error_case \<Rightarrow>
                (case FormatHeader ops tx ''ERROR'' CHR ''#'' 0 tr of (r, t) \<Rightarrow>
                   if r > - 1
                   then (case tracePrintf ops (tx_error tx buffer len) t of (r2, t2) \<Rightarrow>
                           if r2 > - 1 then FormatTrailer ops tx CHR ''#'' t2 else t2)
                   else t)
            | Other_case \<Rightarrow> tr)
         in if has (tr_flags t1) TRACE_FLUSH_ALL then snd (traceFlush ops None t1) else t1)
      else tr)"

section \<open>Starting and ending\<close>

text \<open>
  The traces in memory with their open files, and the trace of every socket.  \<open>tw_closed\<close> lists the
  traces whose file has been closed, with what was in it, and \<open>tw_removed\<close> the files removed since.
\<close>

record 'b trace_world =
  tw_mem :: "ptr \<Rightarrow> 'b TraceConfig"
  tw_live :: "ptr set"
  tw_of :: "ptr \<Rightarrow> ptr option"
  tw_next :: "64 word"
  tw_closed :: "(ptr \<times> byte list) list"
  tw_removed :: "string list"

text \<open>
  What the system gives: memory, a file for a path when some directories have been made, a buffer,
  the longest path, and the text of \<^verbatim>\<open>"%lu.%p"\<close>.
\<close>

record 'b trace_env =
  te_memory :: "ptr option"
  te_fopen :: "string list \<Rightarrow> string \<Rightarrow> FILE option"
  te_iob :: "'b option"
  te_max_path :: nat
  te_print :: "u32 \<Rightarrow> ptr \<Rightarrow> string"

definition getTraceId :: "'b trace_world \<Rightarrow> 64 word \<times> 'b trace_world" where
  "getTraceId w = (let ident = tw_next w + 1 in (ident, w\<lparr>tw_next := ident\<rparr>))"

definition tracePathCreate :: "'b trace_env \<Rightarrow> string \<Rightarrow> u32 \<Rightarrow> ptr \<Rightarrow> string" where
  "tracePathCreate env consumer ident subject =
     take (te_max_path env - 1) (''trace-'' @ consumer @ ''/'' @ te_print env ident subject)"

text \<open>The directories that are made: what stands in front of each slash.\<close>

fun superior :: "string \<Rightarrow> string \<Rightarrow> string list" where
  "superior pre [] = []"
| "superior pre (c # cs) = (if c = CHR ''/'' then pre # superior (pre @ [c]) cs else superior (pre @ [c]) cs)"

definition traceFileOpen :: "'b trace_env \<Rightarrow> string \<Rightarrow> u32 \<Rightarrow> ptr \<Rightarrow> FILE option" where
  "traceFileOpen env consumer ident subject =
     (let path = tracePathCreate env consumer ident subject
      in case te_fopen env [] path of
           Some f \<Rightarrow> Some f
         | None \<Rightarrow> te_fopen env (superior [] path) path)"

definition traceAlloc ::
    "'b trace_env \<Rightarrow> ptr \<Rightarrow> u32 \<Rightarrow> string \<Rightarrow> ptr option \<Rightarrow> nat \<Rightarrow> 'b trace_world \<Rightarrow> ptr option \<times> 'b trace_world" where
  "traceAlloc env so flags consumer subject bufferSize w =
     (case te_memory env of
        None \<Rightarrow> (None, w)
      | Some p \<Rightarrow>
          (let subj = (case subject of Some x \<Rightarrow> x | None \<Rightarrow> so);
               (ident, w1) = getTraceId w
           in case traceFileOpen env consumer (ucast ident) subj of
                None \<Rightarrow> (None, w1)
              | Some f \<Rightarrow>
                  if bufferSize \<noteq> 0 \<and> te_iob env = None then (None, w1)
                  else (Some p, w1\<lparr>tw_live := insert p (tw_live w1), tw_mem := (tw_mem w1)(p :=
                         \<lparr>tr_flags = flags, tr_sequence = 0, tr_id = ucast ident, tr_subject = subj, tr_consumer = consumer,
                          tr_useCount = 0, tr_iob = (if bufferSize = 0 then None else te_iob env), tr_file = f,
                          tr_console = []\<rparr>)\<rparr>)))"

definition traceFree :: "'b trace_ops \<Rightarrow> 'b trace_env \<Rightarrow> ptr \<Rightarrow> 'b trace_world \<Rightarrow> 'b trace_world" where
  "traceFree ops env p w =
     (let tr = tw_mem w p;
          f = (case tr_iob tr of
                 Some b \<Rightarrow> if has (tr_flags tr) (TRACE_FLUSH_WHEN_CLOSED OR TRACE_FLUSH_WHEN_FULL)
                           then snd (fwrite (to_dump ops b) (tr_file tr)) else tr_file tr
               | None \<Rightarrow> tr_file tr);
          w1 = w\<lparr>tw_live := tw_live w - {p}, tw_closed := tw_closed w @ [(p, f_written f)]\<rparr>
      in if has (tr_flags tr) TRACE_DELETE_LOG
         then w1\<lparr>tw_removed := tw_removed w1 @ [tracePathCreate env (tr_consumer tr) (tr_id tr) (tr_subject tr)]\<rparr>
         else w1)"

text \<open>A banner: a line, the time, and if that could be printed the rest.\<close>

definition print_banner ::
    "'b trace_ops \<Rightarrow> byte list option \<Rightarrow> byte list option \<Rightarrow> byte list option list \<Rightarrow> 'b TraceConfig \<Rightarrow> 'b TraceConfig" where
  "print_banner ops stars time rest tr =
     (case tracePrintf ops time (snd (tracePrintf ops stars tr)) of (r, t) \<Rightarrow>
        if r > - 1 then foldl (\<lambda>t x. snd (tracePrintf ops x t)) t rest else t)"

type_synonym banner = "byte list option \<times> byte list option \<times> byte list option list"

definition banner_on :: "'b trace_ops \<Rightarrow> banner \<Rightarrow> ptr \<Rightarrow> 'b trace_world \<Rightarrow> 'b trace_world" where
  "banner_on ops bn p w =
     (case bn of (stars, time, rest) \<Rightarrow>
        w\<lparr>tw_mem := (tw_mem w)(p := print_banner ops stars time rest (tw_mem w p))\<rparr>)"

definition add_user :: "int \<Rightarrow> ptr \<Rightarrow> 'b trace_world \<Rightarrow> 'b trace_world" where
  "add_user k p w = w\<lparr>tw_mem := (tw_mem w)(p := (tw_mem w p)\<lparr>tr_useCount := tr_useCount (tw_mem w p) + k\<rparr>)\<rparr>"

text \<open>
  \<open>None\<close>: a null pointer or a trace that has been freed is used.  \<open>traced\<close> is the socket whose trace is
  to be shared.
\<close>

definition socketTraceBeginEx ::
    "'b trace_ops \<Rightarrow> banner \<Rightarrow> 'b trace_env \<Rightarrow> string \<Rightarrow> ptr option \<Rightarrow> u32 \<Rightarrow> nat \<Rightarrow> ptr \<Rightarrow> ptr option \<Rightarrow>
     'b trace_world \<Rightarrow> (bool \<times> 'b trace_world) option" where
  "socketTraceBeginEx ops bn env consumer subject flags bufferSize s traced w =
     (if tw_of w s \<noteq> None then Some (False, w)
      else
        (case traced of
           None \<Rightarrow>
             (case traceAlloc env s flags consumer subject bufferSize w of
                (None, w1) \<Rightarrow> None
              | (Some p, w1) \<Rightarrow> Some (True, banner_on ops bn p (add_user 1 p (w1\<lparr>tw_of := (tw_of w1)(s := Some p)\<rparr>))))
         | Some t \<Rightarrow>
             (case tw_of w t of
                None \<Rightarrow> Some (False, w)
              | Some p \<Rightarrow>
                  if p \<in> tw_live w
                  then Some (True, banner_on ops bn p ((add_user 1 p w)\<lparr>tw_of := (tw_of w)(s := Some p)\<rparr>))
                  else None)))"

definition socketTraceEnd :: "'b trace_ops \<Rightarrow> banner \<Rightarrow> 'b trace_env \<Rightarrow> ptr \<Rightarrow> 'b trace_world \<Rightarrow> 'b trace_world option" where
  "socketTraceEnd ops bn env s w =
     (case tw_of w s of
        None \<Rightarrow> Some w
      | Some p \<Rightarrow>
          if p \<in> tw_live w then
            (let w1 = add_user (- 1) p (banner_on ops bn p w);
                 w2 = (if tr_useCount (tw_mem w1 p) < 1 then traceFree ops env p w1 else w1)
             in Some (w2\<lparr>tw_of := (tw_of w2)(s := None)\<rparr>))
          else None)"

definition socketTraceFlagsModify :: "u32 \<Rightarrow> u32 \<Rightarrow> ptr \<Rightarrow> 'b trace_world \<Rightarrow> (u32 \<times> 'b trace_world) option" where
  "socketTraceFlagsModify addFlags removeFlags s w =
     (case tw_of w s of
        None \<Rightarrow> Some (- 1, w)
      | Some p \<Rightarrow>
          if p \<in> tw_live w then
            (let f = (tr_flags (tw_mem w p) OR addFlags) AND NOT removeFlags
             in Some (f, w\<lparr>tw_mem := (tw_mem w)(p := (tw_mem w p)\<lparr>tr_flags := f\<rparr>)\<rparr>))
          else None)"

text \<open>An operation on the trace of a socket, which does nothing when there is none.\<close>

definition on_trace :: "('b TraceConfig \<Rightarrow> 'r \<times> 'b TraceConfig) \<Rightarrow> 'r \<Rightarrow> ptr \<Rightarrow> 'b trace_world \<Rightarrow> ('r \<times> 'b trace_world) option" where
  "on_trace f r s w =
     (case tw_of w s of
        None \<Rightarrow> Some (r, w)
      | Some p \<Rightarrow>
          if p \<in> tw_live w
          then (case f (tw_mem w p) of (x, t) \<Rightarrow> Some (x, w\<lparr>tw_mem := (tw_mem w)(p := t)\<rparr>))
          else None)"

definition SocketTraceEvent ::
    "'b trace_ops \<Rightarrow> trace_texts \<Rightarrow> u32 \<Rightarrow> byte list \<Rightarrow> nat \<Rightarrow> ptr \<Rightarrow> 'b trace_world \<Rightarrow> (unit \<times> 'b trace_world) option" where
  "SocketTraceEvent ops tx event buffer len = on_trace (\<lambda>t. ((), socketTraceEvent ops tx event buffer len t)) ()"

definition SocketTraceFlush :: "'b trace_ops \<Rightarrow> ptr \<Rightarrow> 'b trace_world \<Rightarrow> (unit \<times> 'b trace_world) option" where
  "SocketTraceFlush ops = on_trace (\<lambda>t. ((), snd (traceFlush ops None t))) ()"

definition socketTraceAppend :: "'b trace_ops \<Rightarrow> byte list \<Rightarrow> ptr \<Rightarrow> 'b trace_world \<Rightarrow> (bool \<times> 'b trace_world) option" where
  "socketTraceAppend ops buff = on_trace (traceLog ops buff) False"

text \<open>The buffer goes to another file: the bytes that file gets.\<close>

definition socketTraceDumpToFile :: "'b trace_ops \<Rightarrow> ptr \<Rightarrow> 'b trace_world \<Rightarrow> (byte list \<times> 'b trace_world) option" where
  "socketTraceDumpToFile ops =
     on_trace (\<lambda>t. case tr_iob t of
                     None \<Rightarrow> ([], t)
                   | Some b \<Rightarrow> (to_dump ops b, t\<lparr>tr_iob := Some (to_init ops b)\<rparr>)) []"

text \<open>
  \<^verbatim>\<open>SocketTraceRemoveFiles()\<close>: the paths it unlinks, for the names \<^verbatim>\<open>XplReadDir()\<close> gives, with a buffer
  of \<open>room\<close> characters.
\<close>

fun unlink_entries :: "nat \<Rightarrow> string \<Rightarrow> string list \<Rightarrow> string list" where
  "unlink_entries bufferLeft pre [] = []"
| "unlink_entries bufferLeft pre (d # ds) =
     (if d \<noteq> [] \<and> hd d = CHR ''.'' then unlink_entries bufferLeft pre ds
      else if length d < bufferLeft then (pre @ d) # unlink_entries bufferLeft pre ds
      else unlink_entries bufferLeft pre ds)"

definition SocketTraceRemoveFiles :: "nat \<Rightarrow> (string \<Rightarrow> string list option) \<Rightarrow> string \<Rightarrow> string list" where
  "SocketTraceRemoveFiles room dir consumer =
     (let len = length ''trace-'' + length consumer
      in if len < room then
           (case dir (''trace-'' @ consumer) of
              None \<Rightarrow> []
            | Some names \<Rightarrow> unlink_entries (room - (len + 1)) (''trace-'' @ consumer @ ''/'') names)
         else [])"

section \<open>The stream of a trace\<close>

text \<open>
  What the buffer promises: it holds a sequence of bytes, what is written with room enough is
  appended, dumping gives it all and initialising empties it.
\<close>

definition trace_laws :: "('b \<Rightarrow> byte list) \<Rightarrow> 'b trace_ops \<Rightarrow> bool" where
  "trace_laws contents ops \<longleftrightarrow>
     (\<forall>b. to_dump ops b = contents b) \<and> (\<forall>b. contents (to_init ops b) = []) \<and>
     (\<forall>b d. length d < to_free ops b \<longrightarrow> fst (to_write ops d b) = length d \<and>
        contents (snd (to_write ops d b)) = contents b @ d)"

definition trace_stream :: "('b \<Rightarrow> byte list) \<Rightarrow> 'b TraceConfig \<Rightarrow> byte list" where
  "trace_stream contents tr = f_written (tr_file tr) @ (case tr_iob tr of None \<Rightarrow> [] | Some b \<Rightarrow> contents b)"

definition keeps_all :: "'b TraceConfig \<Rightarrow> bool" where
  "keeps_all tr \<longleftrightarrow> f_left (tr_file tr) = None \<and> (tr_iob tr \<noteq> None \<longrightarrow> has (tr_flags tr) TRACE_FLUSH_WHEN_FULL)"

text \<open>\<open>appended d tr tr'\<close>: nothing but \<open>d\<close> was added, and the configuration stays.\<close>

definition appended :: "('b \<Rightarrow> byte list) \<Rightarrow> byte list \<Rightarrow> 'b TraceConfig \<Rightarrow> 'b TraceConfig \<Rightarrow> bool" where
  "appended contents d tr tr' \<longleftrightarrow> trace_stream contents tr' = trace_stream contents tr @ d \<and> keeps_all tr' \<and>
     tr_flags tr' = tr_flags tr \<and> tr_useCount tr' = tr_useCount tr \<and> tr_sequence tr' = tr_sequence tr"

end
