(* ===== verification/TraceProps.thy ===== *)
theory TraceProps
  imports Trace
begin

unbundle bit_operations_syntax

text \<open>
  What tracing promises: the stream of a trace is complete, data that is to be suppressed leaves no
  mark, and a trace lives as long as a socket uses it.
\<close>

section \<open>Appending\<close>

lemma appended_trans: "appended f d a b \<Longrightarrow> appended f e b c \<Longrightarrow> appended f (d @ e) a c"
  by (simp add: appended_def)

lemma appended_nil: "keeps_all tr \<Longrightarrow> appended f [] tr tr"
  by (simp add: appended_def)

lemma appended_keeps: "appended f d a b \<Longrightarrow> keeps_all b"
  by (simp add: appended_def)

lemma fwrite_item_working:
  "f_left f = None \<Longrightarrow> fwrite_item d f = (if d \<noteq> [] then 1 else 0, f\<lparr>f_written := f_written f @ d\<rparr>)"
  by (simp add: fwrite_item_def fwrite_working)

lemma traceFlush_appended:
  assumes "trace_laws contents ops" "keeps_all tr"
  shows "appended contents (case data of None \<Rightarrow> [] | Some d \<Rightarrow> d) tr (snd (traceFlush ops data tr))"
  using assms
  by (auto simp: traceFlush_def appended_def trace_stream_def keeps_all_def trace_laws_def fwrite_working
      fwrite_item_working Let_def split: option.splits)

lemma traceAppendIOB_appended:
  assumes "trace_laws contents ops" "keeps_all tr" "tr_iob tr = Some b"
  shows "appended contents d tr (snd (traceAppendIOB ops d b tr))"
proof (cases "length d < to_free ops b")
  case True
  then have "contents (snd (to_write ops d b)) = contents b @ d" using assms(1) by (simp add: trace_laws_def)
  with True assms(2,3) show ?thesis
    by (simp add: traceAppendIOB_def appended_def trace_stream_def keeps_all_def split_beta)
next
  case False
  with assms traceFlush_appended [OF assms(1,2), of "Some d"] show ?thesis
    by (simp add: traceAppendIOB_def keeps_all_def)
qed

lemma echo_appended [simp]: "appended f d tr (echo x t) = appended f d tr t"
  by (simp add: echo_def appended_def trace_stream_def keeps_all_def)

lemma file_appended:
  "keeps_all tr \<Longrightarrow> tr_iob tr = None \<Longrightarrow>
     appended f d tr (tr\<lparr>tr_file := (tr_file tr)\<lparr>f_written := f_written (tr_file tr) @ d\<rparr>\<rparr>)"
  by (simp add: appended_def trace_stream_def keeps_all_def)

lemma traceWrite_appended:
  assumes "trace_laws contents ops" "keeps_all tr"
  shows "appended contents d tr (snd (traceWrite ops d tr))"
proof (cases "tr_iob tr")
  case None
  with assms file_appended [OF assms(2) None, of contents d] show ?thesis
    by (simp add: traceWrite_def fwrite_item_working keeps_all_def)
next
  case (Some b)
  with traceAppendIOB_appended [OF assms Some, of d] show ?thesis by (simp add: traceWrite_def split_beta)
qed

lemma traceLog_appended:
  assumes "trace_laws contents ops" "keeps_all tr"
  shows "appended contents d tr (snd (traceLog ops d tr))"
proof (cases "tr_iob tr")
  case None
  with assms file_appended [OF assms(2) None, of contents d] show ?thesis
    by (simp add: traceLog_def fwrite_item_working keeps_all_def)
next
  case (Some b)
  with traceAppendIOB_appended [OF assms Some, of d] show ?thesis by (simp add: traceLog_def split_beta)
qed

lemma tracePrintf_appended:
  assumes "trace_laws contents ops" "keeps_all tr"
  shows "appended contents d tr (snd (tracePrintf ops (Some d) tr))" "fst (tracePrintf ops (Some d) tr) > - 1"
proof -
  show "appended contents d tr (snd (tracePrintf ops (Some d) tr))"
  proof (cases "tr_iob tr")
    case None
    with assms file_appended [OF assms(2) None, of contents d] show ?thesis
      by (simp add: tracePrintf_def fwrite_working keeps_all_def)
  next
    case (Some b)
    with traceAppendIOB_appended [OF assms Some, of d] show ?thesis by (simp add: tracePrintf_def split_beta)
  qed
  show "fst (tracePrintf ops (Some d) tr) > - 1"
    using assms(2) by (auto simp: tracePrintf_def fwrite_working keeps_all_def split: option.splits prod.splits)
qed

lemma write_rows_appended:
  "trace_laws contents ops \<Longrightarrow> keeps_all tr \<Longrightarrow> appended contents (concat rs) tr (write_rows ops rs tr)"
proof (induction rs arbitrary: tr)
  case (Cons r rs)
  note a = traceWrite_appended [OF Cons.prems, of r]
  from appended_trans [OF a Cons.IH [OF Cons.prems(1) appended_keeps [OF a]]] show ?case by simp
qed (simp add: appended_nil)

section \<open>Events\<close>

text \<open>The text of an event.\<close>

definition data_text :: "u32 \<Rightarrow> byte list \<Rightarrow> byte list" where
  "data_text flags buffer =
     (if has flags TRACE_SUPRESS_DATA then DATA_OMITTED
      else if has flags TRACE_DUMP_DATA then concat (rows 0 buffer) else buffer)"

lemma TraceData_appended:
  assumes "trace_laws contents ops" "keeps_all tr"
  shows "appended contents (data_text (tr_flags tr) buffer) tr (TraceData ops buffer tr)"
  using traceWrite_appended [OF assms] write_rows_appended [OF assms]
  by (simp add: TraceData_def data_text_def TraceData_dump_rows)

definition event_text :: "trace_texts \<Rightarrow> u32 \<Rightarrow> nat \<Rightarrow> u32 \<Rightarrow> byte list \<Rightarrow> nat \<Rightarrow> byte list" where
  "event_text tx flags seqno event buffer len =
     (case trace_case_of event of
        Wire_case m d \<Rightarrow> the (tx_header tx seqno m d len) @ data_text flags buffer @ the (tx_trailer tx d)
      | Api_case m d \<Rightarrow> the (tx_header tx seqno m CHR ''-'' len) @ the (tx_source tx) @ the (tx_trailer tx d) @
                       data_text flags buffer @ the (tx_trailer tx d)
      | Plain_case m \<Rightarrow> the (tx_header tx seqno m CHR ''-'' 0)
      | Connected_case m \<Rightarrow> the (tx_header tx seqno m CHR ''-'' 0) @
                           (case tx_addresses tx of None \<Rightarrow> [] | Some t \<Rightarrow> the t)
      | Error_case \<Rightarrow> the (tx_header tx seqno ''ERROR'' CHR ''#'' 0) @ the (tx_error tx buffer len) @ the (tx_trailer tx CHR ''#'')
      | Other_case \<Rightarrow> [])"

definition texts_work :: "trace_texts \<Rightarrow> bool" where
  "texts_work tx \<longleftrightarrow> (\<forall>n m d l. tx_header tx n m d l \<noteq> None) \<and> (\<forall>d. tx_trailer tx d \<noteq> None) \<and> tx_source tx \<noteq> None \<and>
     (\<forall>b l. tx_error tx b l \<noteq> None) \<and> tx_addresses tx \<noteq> Some None"

section \<open>The configuration stays\<close>

lemma traceFlush_conf [simp]:
  "tr_flags (snd (traceFlush ops d tr)) = tr_flags tr" "tr_useCount (snd (traceFlush ops d tr)) = tr_useCount tr"
  by (auto simp: traceFlush_def Let_def split: option.splits prod.splits)

lemma traceAppendIOB_conf [simp]:
  "tr_flags (snd (traceAppendIOB ops d b tr)) = tr_flags tr" "tr_useCount (snd (traceAppendIOB ops d b tr)) = tr_useCount tr"
  by (simp_all add: traceAppendIOB_def split_beta)

lemma echo_conf [simp]: "tr_flags (echo d tr) = tr_flags tr" "tr_useCount (echo d tr) = tr_useCount tr"
  by (simp_all add: echo_def)

lemma tracePrintf_conf [simp]:
  "tr_flags (snd (tracePrintf ops x tr)) = tr_flags tr" "tr_useCount (snd (tracePrintf ops x tr)) = tr_useCount tr"
  by (simp_all add: tracePrintf_def Let_def split_beta split: option.split)

lemma traceWrite_conf [simp]:
  "tr_flags (snd (traceWrite ops d tr)) = tr_flags tr" "tr_useCount (snd (traceWrite ops d tr)) = tr_useCount tr"
  by (simp_all add: traceWrite_def Let_def split_beta split: option.split)

lemma traceLog_conf [simp]:
  "tr_flags (snd (traceLog ops d tr)) = tr_flags tr" "tr_useCount (snd (traceLog ops d tr)) = tr_useCount tr"
  by (simp_all add: traceLog_def Let_def split_beta split: option.split)

lemma write_rows_conf [simp]: "tr_useCount (write_rows ops rs tr) = tr_useCount tr"
  by (induction rs arbitrary: tr) simp_all

lemma TraceData_conf [simp]: "tr_useCount (TraceData ops b tr) = tr_useCount tr"
  by (simp add: TraceData_def)

lemma FormatHeader_conf [simp]:
  "tr_flags (snd (FormatHeader ops tx m d len tr)) = tr_flags tr"
  "tr_useCount (snd (FormatHeader ops tx m d len tr)) = tr_useCount tr"
  by (simp_all add: FormatHeader_def)

lemma FormatTrailer_conf [simp]:
  "tr_flags (FormatTrailer ops tx d tr) = tr_flags tr" "tr_useCount (FormatTrailer ops tx d tr) = tr_useCount tr"
  by (simp_all add: FormatTrailer_def)

lemma TraceSource_conf [simp]:
  "tr_flags (TraceSource ops tx tr) = tr_flags tr" "tr_useCount (TraceSource ops tx tr) = tr_useCount tr"
  by (simp_all add: TraceSource_def)

lemma tracePrintAddresses_conf [simp]: "tr_useCount (tracePrintAddresses ops tx tr) = tr_useCount tr"
  by (simp add: tracePrintAddresses_def split: option.split)

lemma socketTraceEvent_useCount [simp]: "tr_useCount (socketTraceEvent ops tx e b len tr) = tr_useCount tr"
  by (simp add: socketTraceEvent_def Let_def split_beta split: trace_case.split)

section \<open>Every event in the stream\<close>

lemma sequence_frame [simp]:
  "trace_stream f (tr\<lparr>tr_sequence := n\<rparr>) = trace_stream f tr" "keeps_all (tr\<lparr>tr_sequence := n\<rparr>) = keeps_all tr"
  by (simp_all add: trace_stream_def keeps_all_def)

lemma printf_step:
  assumes "trace_laws f ops" "appended f d a b" "txt \<noteq> None"
  shows "appended f (d @ the txt) a (snd (tracePrintf ops txt b))" "fst (tracePrintf ops txt b) > - 1"
proof -
  from assms(3) obtain t where t: "txt = Some t" by blast
  note p = tracePrintf_appended [OF assms(1) appended_keeps [OF assms(2)], of t]
  show "appended f (d @ the txt) a (snd (tracePrintf ops txt b))" using appended_trans [OF assms(2) p(1)] t by simp
  show "fst (tracePrintf ops txt b) > - 1" using p(2) t by simp
qed

lemma data_step:
  assumes "trace_laws f ops" "appended f d a b"
  shows "appended f (d @ data_text (tr_flags a) buffer) a (TraceData ops buffer b)"
proof -
  have "tr_flags b = tr_flags a" using assms(2) by (simp add: appended_def)
  with appended_trans [OF assms(2) TraceData_appended [OF assms(1) appended_keeps [OF assms(2)]]] show ?thesis by metis
qed

lemma header_step:
  assumes "trace_laws f ops" "keeps_all tr" "texts_work tx"
  shows "appended f (the (tx_header tx (tr_sequence tr) m d len)) (tr\<lparr>tr_sequence := tr_sequence tr + 1\<rparr>)
           (snd (FormatHeader ops tx m d len tr))"
    "fst (FormatHeader ops tx m d len tr) > - 1"
  using printf_step [OF assms(1) appended_nil [of "tr\<lparr>tr_sequence := tr_sequence tr + 1\<rparr>"], of "tx_header tx (tr_sequence tr) m d len"]
    assms(2,3)
  by (auto simp: FormatHeader_def texts_work_def)

lemma trailer_step:
  "trace_laws f ops \<Longrightarrow> texts_work tx \<Longrightarrow> appended f x a b \<Longrightarrow>
     appended f (x @ the (tx_trailer tx d)) a (FormatTrailer ops tx d b)"
  unfolding FormatTrailer_def by (rule printf_step) (auto simp: texts_work_def)

lemma source_step:
  "trace_laws f ops \<Longrightarrow> texts_work tx \<Longrightarrow> appended f x a b \<Longrightarrow>
     appended f (x @ the (tx_source tx)) a (TraceSource ops tx b)"
  unfolding TraceSource_def by (rule printf_step) (auto simp: texts_work_def)

lemma addresses_step:
  assumes "trace_laws f ops" "texts_work tx" "appended f x a b"
  shows "appended f (x @ (case tx_addresses tx of None \<Rightarrow> [] | Some t \<Rightarrow> the t)) a (tracePrintAddresses ops tx b)"
  using assms(3) printf_step(1) [OF assms(1,3)] assms(2)
  by (auto simp: tracePrintAddresses_def texts_work_def split: option.split)

lemma trace_flush_step: "trace_laws f ops \<Longrightarrow> appended f x a b \<Longrightarrow> appended f x a (snd (traceFlush ops None b))"
  using appended_trans [OF _ traceFlush_appended [OF _ appended_keeps, where data = None]] by fastforce

lemma event_appended:
  assumes "trace_laws f ops" "keeps_all tr" "texts_work tx" "has (tr_flags tr) event"
  shows "appended f (event_text tx (tr_flags tr) (tr_sequence tr) event buffer len)
           (if trace_case_of event = Other_case then tr else tr\<lparr>tr_sequence := tr_sequence tr + 1\<rparr>)
           (socketTraceEvent ops tx event buffer len tr)"
    (is "appended f ?d ?a _")
proof -
  note h = header_step [OF assms(1-3)]
  note steps = trailer_step [OF assms(1,3)] source_step [OF assms(1,3)] addresses_step [OF assms(1,3)] data_step [OF assms(1)]
  define body where "body = (case trace_case_of event of
      Wire_case m d \<Rightarrow> FormatTrailer ops tx d (TraceData ops buffer (snd (FormatHeader ops tx m d len tr)))
    | Api_case m d \<Rightarrow> FormatTrailer ops tx d (TraceData ops buffer (FormatTrailer ops tx d (TraceSource ops tx
        (snd (FormatHeader ops tx m CHR ''-'' len tr)))))
    | Plain_case m \<Rightarrow> snd (FormatHeader ops tx m CHR ''-'' 0 tr)
    | Connected_case m \<Rightarrow> tracePrintAddresses ops tx (snd (FormatHeader ops tx m CHR ''-'' 0 tr))
    | Error_case \<Rightarrow> FormatTrailer ops tx CHR ''#''
        (snd (tracePrintf ops (tx_error tx buffer len) (snd (FormatHeader ops tx ''ERROR'' CHR ''#'' 0 tr))))
    | Other_case \<Rightarrow> tr)"
  have err: "tx_error tx buffer len \<noteq> None" using assms(3) by (simp add: texts_work_def)
  have "appended f ?d ?a body"
  proof (cases "trace_case_of event")
    case (Wire_case m d)
    with steps(1) [OF steps(4) [OF h(1)]] show ?thesis by (simp add: body_def event_text_def)
  next
    case (Api_case m d)
    with steps(1) [OF steps(4) [OF steps(1) [OF steps(2) [OF h(1)]]]] show ?thesis
      by (simp add: body_def event_text_def)
  next
    case (Plain_case m)
    with h(1) show ?thesis by (simp add: body_def event_text_def)
  next
    case (Connected_case m)
    with steps(3) [OF h(1)] show ?thesis by (simp add: body_def event_text_def)
  next
    case Error_case
    with steps(1) [OF printf_step(1) [OF assms(1) h(1) err]] show ?thesis by (simp add: body_def event_text_def)
  next
    case Other_case
    with assms(2) show ?thesis by (simp add: body_def event_text_def appended_nil)
  qed
  moreover have "socketTraceEvent ops tx event buffer len tr =
      (if has (tr_flags body) TRACE_FLUSH_ALL then snd (traceFlush ops None body) else body)"
    using assms(4) h(2) printf_step(2) [OF assms(1) h(1) err]
    by (simp add: socketTraceEvent_def body_def Let_def split_beta split: trace_case.split)
  ultimately show ?thesis using trace_flush_step [OF assms(1)] by simp
qed


text \<open>A buffer that is a list with a limit.\<close>

definition demo_ops :: "byte list trace_ops" where
  "demo_ops = \<lparr>to_log = (\<lambda>d b. (length d, b @ d)), to_write = (\<lambda>d b. (length d, b @ d)), to_free = (\<lambda>b. 20 - length b),
     to_dump = (\<lambda>b. b), to_init = (\<lambda>_. []), to_copy = (\<lambda>_. True)\<rparr>"

definition demo_texts :: trace_texts where
  "demo_texts = \<lparr>tx_header = (\<lambda>n m d l. Some [of_nat n, of_nat l]), tx_trailer = (\<lambda>d. Some [45]), tx_source = Some [83],
     tx_addresses = None, tx_error = (\<lambda>b l. Some b)\<rparr>"

definition demo_trace :: "u32 \<Rightarrow> byte list TraceConfig" where
  "demo_trace flags = \<lparr>tr_flags = flags, tr_sequence = 7, tr_id = 1, tr_subject = 5, tr_consumer = ''c'', tr_useCount = 1,
     tr_iob = Some [1, 2], tr_file = demo_file [], tr_console = []\<rparr>"

lemma demo_trace_laws: "trace_laws (\<lambda>b. b) demo_ops"
  by (simp add: trace_laws_def demo_ops_def)

lemma demo_texts_work: "texts_work demo_texts"
  by (simp add: texts_work_def demo_texts_def)

lemma demo_keeps_all: "keeps_all (demo_trace 0x02000004)"
  by (simp add: keeps_all_def demo_trace_def demo_file_def has_def)


section \<open>Suppressed data\<close>

lemma TraceData_suppressed:
  "has (tr_flags tr) TRACE_SUPRESS_DATA \<Longrightarrow> TraceData ops b1 tr = TraceData ops b2 tr"
  by (simp add: TraceData_def)

text \<open>
  With \<^verbatim>\<open>TRACE_SUPRESS_DATA\<close> what a connection carries leaves no mark in its trace: for every event but
  an error, the file, the buffer and the console are the same whatever the data was.
\<close>
theorem suppressed_data_leaves_no_mark:
  assumes "has (tr_flags tr) TRACE_SUPRESS_DATA" "event \<noteq> 0x10000"
  shows "socketTraceEvent ops tx event buffer len tr = socketTraceEvent ops tx event buffer' len tr"
proof -
  have "trace_case_of event \<noteq> Error_case" using assms(2) by (auto simp: trace_case_of_def split: if_splits)
  moreover have "TraceData ops buffer t = TraceData ops buffer' t" if "tr_flags t = tr_flags tr" for t
    using that assms(1) TraceData_suppressed [of t] by simp
  ultimately show ?thesis by (auto simp: socketTraceEvent_def Let_def split_beta split: trace_case.split)
qed

theorem suppressed_data_leaves_no_mark_witness:
  "socketTraceEvent demo_ops demo_texts 1 [1, 2, 3] 3 (demo_trace 0x20000001) =
   socketTraceEvent demo_ops demo_texts 1 [7, 8, 9] 3 (demo_trace 0x20000001) \<and>
   tr_iob (socketTraceEvent demo_ops demo_texts 1 [7, 8, 9] 3 (demo_trace 0x20000001)) \<noteq> tr_iob (demo_trace 0x20000001)"
proof -
  have "has (tr_flags (demo_trace 0x20000001)) TRACE_SUPRESS_DATA" by (simp add: demo_trace_def has_def)
  from suppressed_data_leaves_no_mark [OF this, of 1 demo_ops demo_texts "[1, 2, 3]" 3 "[7, 8, 9]"]
  have "socketTraceEvent demo_ops demo_texts 1 [1, 2, 3] 3 (demo_trace 0x20000001) =
      socketTraceEvent demo_ops demo_texts 1 [7, 8, 9] 3 (demo_trace 0x20000001)" by simp
  moreover have "tr_iob (socketTraceEvent demo_ops demo_texts 1 [7, 8, 9] 3 (demo_trace 0x20000001)) \<noteq> tr_iob (demo_trace 0x20000001)"
    by (simp add: socketTraceEvent_def demo_trace_def has_def trace_case_of_def FormatHeader_def demo_texts_def tracePrintf_def
        traceAppendIOB_def demo_ops_def echo_def TraceData_def traceWrite_def FormatTrailer_def)
  ultimately show ?thesis by simp
qed

section \<open>Formatting\<close>

text \<open>
  \<open>c99_vsn text vsn\<close>: a \<^verbatim>\<open>vsnprintf()\<close> that returns the length it needs and writes the text when there is room
  for it and the final zero.
\<close>

definition c99_vsn :: "byte list \<Rightarrow> (nat \<Rightarrow> int \<times> byte list) \<Rightarrow> bool" where
  "c99_vsn text vsn \<longleftrightarrow> (\<forall>n. fst (vsn n) = int (length text) \<and> (length text < n \<longrightarrow> snd (vsn n) = text))"

lemma vfprintIOB_complete:
  assumes "c99_vsn text vsn" "\<And>n. room n"
  shows "vfprintIOB_text vsn room = Some text"
proof -
  have v: "fst (vsn n) = int (length text)" "length text < n \<Longrightarrow> snd (vsn n) = text" for n
    using assms(1) by (simp_all add: c99_vsn_def)
  have fin: "length text < n \<Longrightarrow> trace_format_loop vsn room n = Trace_text text" for n
    using assms(2) v by (subst trace_format_loop.simps) (simp add: split_beta)
  have "trace_format_loop vsn room 1023 = Trace_text text"
    using assms(2) v fin [of "length text + 1"]
    by (subst trace_format_loop.simps) (simp add: split_beta MAX_FORMATTED_SIZE_def)
  then show ?thesis using v by (simp add: vfprintIOB_text_def trace_CreateFormattedString_def split_beta)
qed

text \<open>When no size is enough the last buffer is lost.\<close>

lemma trace_format_loop_leaks:
  assumes "\<And>n. fst (vsn n) = - 1" "\<And>n. room n" "0 < n"
  shows "\<exists>k \<ge> MAX_FORMATTED_SIZE. trace_format_loop vsn room n = Trace_too_long k"
  using assms(3)
proof (induction "MAX_FORMATTED_SIZE - n" arbitrary: n rule: less_induct)
  case less
  show ?case
  proof (cases "n < MAX_FORMATTED_SIZE")
    case True
    with less assms(1,2) show ?thesis by (subst trace_format_loop.simps) (simp add: split_beta)
  next
    case False
    with less assms(1,2) show ?thesis by (subst trace_format_loop.simps) (simp add: split_beta)
  qed
qed

section \<open>Removing the files\<close>

text \<open>The path buffer is never overrun, and only files in the directory of the consumer are removed.\<close>

lemma unlink_entries_safe:
  "p \<in> set (unlink_entries n pre ds) \<Longrightarrow> \<exists>d \<in> set ds. p = pre @ d \<and> length d < n \<and> (d = [] \<or> hd d \<noteq> CHR ''.'')"
  by (induction ds) (auto split: if_splits)

lemma remove_files_safe:
  assumes "p \<in> set (SocketTraceRemoveFiles room dir consumer)"
  shows "length p + 1 \<le> room \<and> (\<exists>names d. dir (''trace-'' @ consumer) = Some names \<and> d \<in> set names \<and>
    p = ''trace-'' @ consumer @ ''/'' @ d)"
proof -
  define T where "T = ''trace-''"
  note files = assms [unfolded SocketTraceRemoveFiles_def Let_def T_def [symmetric]]
  define pre where "pre = T @ consumer @ ''/''"
  have len: "length pre = length T + length consumer + 1" by (simp add: pre_def)
  have room: "length T + length consumer < room"
  proof (rule ccontr)
    assume "\<not> length T + length consumer < room"
    with files show False by simp
  qed
  show ?thesis
  proof (cases "dir (T @ consumer)")
    case None
    with files room show ?thesis by simp
  next
    case (Some names)
    with files room have "p \<in> set (unlink_entries (room - length pre) pre names)"
      unfolding pre_def [symmetric] len [symmetric] by simp
    from unlink_entries_safe [OF this] obtain d where d: "d \<in> set names" "p = pre @ d" "length d < room - length pre" by blast
    have "length p + 1 \<le> room" using d(2,3) by simp
    then show ?thesis using Some d(1,2) unfolding pre_def T_def by auto
  qed
qed

section \<open>The life of a trace\<close>

text \<open>
  Any sequence of operations on any sockets; the memory a trace gets is not in use.
\<close>

inductive trace_run :: "'b trace_ops \<Rightarrow> 'b trace_world \<Rightarrow> bool" for ops where
  start: "tw_of w = (\<lambda>_. None) \<Longrightarrow> tw_live w = {} \<Longrightarrow> trace_run ops w"
| begins: "trace_run ops w \<Longrightarrow> (\<And>p. te_memory env = Some p \<Longrightarrow> p \<notin> tw_live w) \<Longrightarrow>
    socketTraceBeginEx ops bn env consumer subject flags bufferSize s traced w = Some (r, w') \<Longrightarrow> trace_run ops w'"
| ends: "trace_run ops w \<Longrightarrow> socketTraceEnd ops bn env s w = Some w' \<Longrightarrow> trace_run ops w'"
| event: "trace_run ops w \<Longrightarrow> SocketTraceEvent ops tx e buffer len s w = Some (u, w') \<Longrightarrow> trace_run ops w'"
| flush: "trace_run ops w \<Longrightarrow> SocketTraceFlush ops s w = Some (u, w') \<Longrightarrow> trace_run ops w'"
| append: "trace_run ops w \<Longrightarrow> socketTraceAppend ops d s w = Some (b, w') \<Longrightarrow> trace_run ops w'"
| dump: "trace_run ops w \<Longrightarrow> socketTraceDumpToFile ops s w = Some (d, w') \<Longrightarrow> trace_run ops w'"
| modify: "trace_run ops w \<Longrightarrow> socketTraceFlagsModify addFlags removeFlags s w = Some (f, w') \<Longrightarrow> trace_run ops w'"

definition users :: "'b trace_world \<Rightarrow> ptr \<Rightarrow> ptr set" where
  "users w p = {s. tw_of w s = Some p}"

definition trace_inv :: "'b trace_world \<Rightarrow> bool" where
  "trace_inv w \<longleftrightarrow> (\<forall>p. finite (users w p)) \<and> (\<forall>p. p \<in> tw_live w \<longleftrightarrow> users w p \<noteq> {}) \<and>
     (\<forall>p \<in> tw_live w. tr_useCount (tw_mem w p) = int (card (users w p)))"

text \<open>Operations that only change what a trace holds.\<close>

lemma trace_inv_same:
  "trace_inv w \<Longrightarrow> tw_of w' = tw_of w \<Longrightarrow> tw_live w' = tw_live w \<Longrightarrow>
   (\<And>p. tr_useCount (tw_mem w' p) = tr_useCount (tw_mem w p)) \<Longrightarrow> trace_inv w'"
  by (simp add: trace_inv_def users_def)

lemma on_trace_inv:
  "trace_inv w \<Longrightarrow> on_trace f r s w = Some (x, w') \<Longrightarrow> (\<And>t. tr_useCount (snd (f t)) = tr_useCount t) \<Longrightarrow> trace_inv w'"
  by (erule trace_inv_same) (auto simp: on_trace_def split_beta split: option.splits if_splits)

lemma banner_on_world [simp]:
  "tw_of (banner_on ops bn p w) = tw_of w" "tw_live (banner_on ops bn p w) = tw_live w"
  "tw_closed (banner_on ops bn p w) = tw_closed w"
  by (simp_all add: banner_on_def split_beta)

lemma print_banner_useCount [simp]: "tr_useCount (print_banner ops a b c tr) = tr_useCount tr"
proof -
  have "tr_useCount (foldl (\<lambda>t x. snd (tracePrintf ops x t)) t c) = tr_useCount t" for t
    by (induction c arbitrary: t) simp_all
  then show ?thesis by (simp add: print_banner_def split_beta)
qed

lemma banner_on_useCount [simp]: "tr_useCount (tw_mem (banner_on ops bn p w) q) = tr_useCount (tw_mem w q)"
  by (simp add: banner_on_def split_beta)

lemma add_user_world [simp]:
  "tw_of (add_user k p w) = tw_of w" "tw_live (add_user k p w) = tw_live w" "tw_closed (add_user k p w) = tw_closed w"
  "tr_useCount (tw_mem (add_user k p w) q) = tr_useCount (tw_mem w q) + (if q = p then k else 0)"
  by (simp_all add: add_user_def)

text \<open>A socket joins a trace, and leaves it.\<close>

lemma users_join: "tw_of w s = None \<Longrightarrow> tw_of w' = (tw_of w)(s := Some p) \<Longrightarrow>
    users w' q = (if q = p then insert s (users w p) else users w q) \<and> s \<notin> users w q"
  by (auto simp: users_def)

lemma users_leave: "tw_of w s = Some p \<Longrightarrow> tw_of w' = (tw_of w)(s := None) \<Longrightarrow>
    users w' q = (if q = p then users w p - {s} else users w q) \<and> s \<in> users w p"
  by (auto simp: users_def)

lemma join_inv:
  assumes "trace_inv w" "tw_of w s = None" "tw_of w' = (tw_of w)(s := Some p)" "tw_live w' = insert p (tw_live w)"
    "\<And>q. q \<noteq> p \<Longrightarrow> tr_useCount (tw_mem w' q) = tr_useCount (tw_mem w q)"
    "tr_useCount (tw_mem w' p) = int (card (users w p)) + 1"
  shows "trace_inv w'"
  using assms users_join [OF assms(2,3)] by (auto simp: trace_inv_def)

lemma end_step:
  assumes "trace_inv w"
  shows "\<exists>w'. socketTraceEnd ops bn env s w = Some w' \<and> trace_inv w' \<and> tw_of w' = (tw_of w)(s := None) \<and>
    (case tw_of w s of
       None \<Rightarrow> tw_closed w' = tw_closed w
     | Some p \<Rightarrow> if users w p = {s} then \<exists>d. tw_closed w' = tw_closed w @ [(p, d)] else tw_closed w' = tw_closed w)"
proof (cases "tw_of w s")
  case None
  then show ?thesis using assms by (simp add: socketTraceEnd_def fun_upd_idem)
next
  case (Some p)
  then have p: "p \<in> tw_live w" "s \<in> users w p" "finite (users w p)" and
    n: "tr_useCount (tw_mem w p) = int (card (users w p))"
    using assms by (auto simp: trace_inv_def users_def)
  define w1 where "w1 = add_user (- 1) p (banner_on ops bn p w)"
  define w2 where "w2 = (if tr_useCount (tw_mem w1 p) < 1 then traceFree ops env p w1 else w1)"
  define w3 where "w3 = w2\<lparr>tw_of := (tw_of w2)(s := None)\<rparr>"
  have last: "tr_useCount (tw_mem w1 p) < 1 \<longleftrightarrow> users w p = {s}"
  proof -
    have "card (users w p) \<ge> 1" using p by (metis One_nat_def Suc_leI card_gt_0_iff empty_iff)
    moreover have "card (users w p) = 1 \<longleftrightarrow> users w p = {s}" using p(2) by (auto simp: card_1_singleton_iff)
    ultimately show ?thesis by (auto simp: w1_def n)
  qed
  have of3: "tw_of w3 = (tw_of w)(s := None)"
    by (simp add: w3_def w2_def w1_def traceFree_def Let_def)
  have live3: "tw_live w3 = (if users w p = {s} then tw_live w - {p} else tw_live w)"
    unfolding w3_def w2_def last by (simp add: w1_def traceFree_def Let_def)
  have mem3: "tw_mem w3 = tw_mem w1" by (simp add: w3_def w2_def traceFree_def Let_def)
  have closed3: "if users w p = {s} then \<exists>d. tw_closed w3 = tw_closed w @ [(p, d)] else tw_closed w3 = tw_closed w"
    unfolding w3_def w2_def last by (simp add: w1_def traceFree_def Let_def)
  note u = users_leave [OF Some of3]
  have "card (users w p) = Suc (card (users w p - {s}))" using p(2,3) by (metis card_Suc_Diff1)
  then have count: "tr_useCount (tw_mem w3 q) = int (card (users w3 q))" if "q \<in> tw_live w" for q
    using that assms n u [of q] unfolding mem3 by (cases "q = p") (simp_all add: w1_def trace_inv_def)
  have "q \<in> tw_live w3 \<longleftrightarrow> users w3 q \<noteq> {}" for q
    using u [of q] p(1,2) assms unfolding live3 trace_inv_def by (cases "q = p") auto
  moreover have "finite (users w3 q)" for q using u [of q] assms by (simp add: trace_inv_def)
  moreover have "tw_live w3 \<subseteq> tw_live w" unfolding live3 by auto
  ultimately have "trace_inv w3" using count unfolding trace_inv_def by blast
  moreover have "socketTraceEnd ops bn env s w = Some w3"
    using Some p(1) by (simp add: socketTraceEnd_def w3_def w2_def w1_def Let_def)
  ultimately show ?thesis using of3 closed3 Some by auto
qed

text \<open>A trace that cannot be allocated is used all the same.\<close>

lemma failed_trace_faults:
  assumes "tw_of w s = None" "te_memory env = None \<or> (\<forall>dirs path. te_fopen env dirs path = None)"
  shows "socketTraceBeginEx ops bn env consumer subject flags bufferSize s None w = None"
  using assms by (auto simp: socketTraceBeginEx_def traceAlloc_def traceFileOpen_def getTraceId_def Let_def split: option.splits)

lemma begin_inv:
  assumes "trace_inv w" "\<And>p. te_memory env = Some p \<Longrightarrow> p \<notin> tw_live w"
    "socketTraceBeginEx ops bn env consumer subject flags bufferSize s traced w = Some (r, w')"
  shows "trace_inv w'"
proof (cases "tw_of w s")
  case (Some x)
  with assms(1,3) show ?thesis by (simp add: socketTraceBeginEx_def)
next
  case s: None
  show ?thesis
  proof (cases traced)
    case None
    obtain m w1 where m: "traceAlloc env s flags consumer subject bufferSize w = (m, w1)" by (metis surj_pair)
    with assms(3) s None obtain p where p: "m = Some p" and
      w': "w' = banner_on ops bn p (add_user 1 p (w1\<lparr>tw_of := (tw_of w1)(s := Some p)\<rparr>))"
      by (auto simp: socketTraceBeginEx_def split: option.splits)
    have w1: "te_memory env = Some p" "tw_of w1 = tw_of w" "tw_live w1 = insert p (tw_live w)"
      "\<And>q. q \<noteq> p \<Longrightarrow> tw_mem w1 q = tw_mem w q" "tr_useCount (tw_mem w1 p) = 0"
      using m p by (auto simp: traceAlloc_def getTraceId_def Let_def split: option.splits if_splits)
    then have "users w p = {}" using assms(1,2) by (auto simp: trace_inv_def)
    with w1 w' show ?thesis by (intro join_inv [OF assms(1) s, where p = p]) simp_all
  next
    case (Some t)
    show ?thesis
    proof (cases "tw_of w t")
      case None
      with Some assms(1,3) s show ?thesis by (simp add: socketTraceBeginEx_def)
    next
      case (Some p)
      with \<open>traced = Some t\<close> assms(1,3) s have p: "p \<in> tw_live w" and
        w': "w' = banner_on ops bn p ((add_user 1 p w)\<lparr>tw_of := (tw_of w)(s := Some p)\<rparr>)"
        by (auto simp: socketTraceBeginEx_def split: if_splits)
      have "tr_useCount (tw_mem w p) = int (card (users w p))" using assms(1) p by (simp add: trace_inv_def)
      with p w' show ?thesis by (intro join_inv [OF assms(1) s, where p = p]) auto
    qed
  qed
qed

lemma trace_run_inv: "trace_run ops w \<Longrightarrow> trace_inv w"
proof (induction rule: trace_run.induct)
  case (start w)
  then show ?case by (simp add: trace_inv_def users_def)
next
  case (begins w env bn consumer subject flags bufferSize s traced r w')
  from begins.IH begins.hyps(2,3) show ?case by (rule begin_inv)
next
  case (ends w bn env s w')
  from end_step [OF ends.IH, of ops bn env s] ends.hyps(2) show ?case by auto
next
  case (event w tx e buffer len s u w')
  from event.IH event.hyps(2) show ?case unfolding SocketTraceEvent_def by (rule on_trace_inv) simp
next
  case (flush w s u w')
  from flush.IH flush.hyps(2) show ?case unfolding SocketTraceFlush_def by (rule on_trace_inv) simp
next
  case (append w d s b w')
  from append.IH append.hyps(2) show ?case unfolding socketTraceAppend_def by (rule on_trace_inv) simp
next
  case (dump w s d w')
  from dump.IH dump.hyps(2) show ?case unfolding socketTraceDumpToFile_def
    by (rule on_trace_inv) (simp split: option.split)
next
  case (modify w addFlags removeFlags s f w')
  from modify.IH show ?case
    by (rule trace_inv_same) (use modify.hyps(2) in \<open>auto simp: socketTraceFlagsModify_def Let_def split: option.splits if_splits\<close>)
qed

text \<open>
  C39. A trace lives exactly as long as a socket uses it: after any sequence of operations on any
  sockets, ending the trace of a socket touches no freed memory, the traces in memory are those some
  socket uses, and the file of a trace is closed when its last socket leaves, and only then.
\<close>
theorem trace_lives_while_used:
  assumes "trace_run ops w"
  shows "\<exists>w'. socketTraceEnd ops bn env s w = Some w' \<and> trace_run ops w' \<and> tw_of w' = (tw_of w)(s := None) \<and>
    (\<forall>p. p \<in> tw_live w' \<longleftrightarrow> (\<exists>u. tw_of w' u = Some p)) \<and>
    (case tw_of w s of
       None \<Rightarrow> tw_closed w' = tw_closed w
     | Some p \<Rightarrow> if \<exists>u. u \<noteq> s \<and> tw_of w u = Some p then tw_closed w' = tw_closed w
                 else \<exists>d. tw_closed w' = tw_closed w @ [(p, d)])"
proof -
  from end_step [OF trace_run_inv [OF assms], of ops bn env s] obtain w' where
    w': "socketTraceEnd ops bn env s w = Some w'" "trace_inv w'" "tw_of w' = (tw_of w)(s := None)"
    "case tw_of w s of
       None \<Rightarrow> tw_closed w' = tw_closed w
     | Some p \<Rightarrow> if users w p = {s} then \<exists>d. tw_closed w' = tw_closed w @ [(p, d)] else tw_closed w' = tw_closed w"
    by blast
  have "users w p = {s} \<longleftrightarrow> \<not> (\<exists>u. u \<noteq> s \<and> tw_of w u = Some p)" if "tw_of w s = Some p" for p
    using that by (auto simp: users_def)
  with w'(4) have "case tw_of w s of
       None \<Rightarrow> tw_closed w' = tw_closed w
     | Some p \<Rightarrow> if \<exists>u. u \<noteq> s \<and> tw_of w u = Some p then tw_closed w' = tw_closed w
                 else \<exists>d. tw_closed w' = tw_closed w @ [(p, d)]" by (auto split: option.splits)
  moreover have "p \<in> tw_live w' \<longleftrightarrow> (\<exists>u. tw_of w' u = Some p)" for p
    using w'(2) by (auto simp: trace_inv_def users_def)
  ultimately show ?thesis using w'(1,3) trace_run.ends [OF assms w'(1)] by blast
qed

definition demo_world :: "byte list trace_world" where
  "demo_world = \<lparr>tw_mem = (\<lambda>_. demo_trace 0), tw_live = {}, tw_of = (\<lambda>_. None), tw_next = 0, tw_closed = [], tw_removed = []\<rparr>"

definition demo_env :: "ptr option \<Rightarrow> byte list trace_env" where
  "demo_env m = \<lparr>te_memory = m, te_fopen = (\<lambda>dirs path. if dirs = [] then None else Some (demo_file [])), te_iob = Some [],
     te_max_path = 40, te_print = (\<lambda>i p. ''1.5'')\<rparr>"

definition demo_banner :: banner where
  "demo_banner = (Some [42], Some [48], [Some [42]])"

definition demo_begun :: "ptr option \<Rightarrow> ptr option \<Rightarrow> ptr \<Rightarrow> byte list trace_world \<Rightarrow> byte list trace_world" where
  "demo_begun m t s w = snd (the (socketTraceBeginEx demo_ops demo_banner (demo_env m) ''c'' None 4 0 s t w))"

lemma demo_first:
  "socketTraceBeginEx demo_ops demo_banner (demo_env (Some 9)) ''c'' None 4 0 3 None demo_world =
     Some (True, demo_begun (Some 9) None 3 demo_world)"
  "tw_of (demo_begun (Some 9) None 3 demo_world) = (\<lambda>_. None)(3 := Some 9)"
  "tw_live (demo_begun (Some 9) None 3 demo_world) = {9}" "tw_closed (demo_begun (Some 9) None 3 demo_world) = []"
  by (simp_all add: demo_begun_def socketTraceBeginEx_def traceAlloc_def getTraceId_def traceFileOpen_def tracePathCreate_def
      demo_env_def demo_world_def Let_def)

lemma demo_run:
  "trace_run demo_ops (demo_begun None (Some 3) 2 (demo_begun (Some 9) None 3 demo_world))"
  "tw_of (demo_begun None (Some 3) 2 (demo_begun (Some 9) None 3 demo_world)) = (\<lambda>_. None)(3 := Some 9, 2 := Some 9)"
  "tw_closed (demo_begun None (Some 3) 2 (demo_begun (Some 9) None 3 demo_world)) = []"
proof -
  let ?w1 = "demo_begun (Some 9) None 3 demo_world"
  let ?w2 = "demo_begun None (Some 3) 2 ?w1"
  have r0: "trace_run demo_ops demo_world" by (rule trace_run.start) (simp_all add: demo_world_def)
  have r1: "trace_run demo_ops ?w1" by (rule trace_run.begins [OF r0 _ demo_first(1)]) (simp add: demo_world_def)
  have b2: "socketTraceBeginEx demo_ops demo_banner (demo_env None) ''c'' None 4 0 2 (Some 3) ?w1 = Some (True, ?w2)"
    and s2: "tw_of ?w2 = (\<lambda>_. None)(3 := Some 9, 2 := Some 9)" "tw_closed ?w2 = []"
    using demo_first(2-4) by (simp_all add: demo_begun_def [of None] socketTraceBeginEx_def)
  show "trace_run demo_ops ?w2" by (rule trace_run.begins [OF r1 _ b2]) (simp add: demo_env_def)
  show "tw_of ?w2 = (\<lambda>_. None)(3 := Some 9, 2 := Some 9)" "tw_closed ?w2 = []" by (rule s2)+
qed

theorem trace_lives_while_used_witness:
  "\<exists>w'. socketTraceEnd demo_ops demo_banner (demo_env None) 3
          (demo_begun None (Some 3) 2 (demo_begun (Some 9) None 3 demo_world)) = Some w' \<and>
     tw_closed w' = [] \<and> 9 \<in> tw_live w' \<and>
     (\<exists>w'' d. socketTraceEnd demo_ops demo_banner (demo_env None) 2 w' = Some w'' \<and> tw_closed w'' = [(9, d)] \<and> 9 \<notin> tw_live w'')"
proof -
  let ?w = "demo_begun None (Some 3) 2 (demo_begun (Some 9) None 3 demo_world)"
  have two: "\<exists>u. u \<noteq> 3 \<and> tw_of ?w u = Some 9" by (rule exI [of _ 2]) (simp add: demo_run(2))
  from trace_lives_while_used [OF demo_run(1), of demo_banner "demo_env None" 3] two obtain w' where
    w': "socketTraceEnd demo_ops demo_banner (demo_env None) 3 ?w = Some w'" "trace_run demo_ops w'"
      "tw_of w' = (tw_of ?w)(3 := None)" "\<forall>p. p \<in> tw_live w' \<longleftrightarrow> (\<exists>u. tw_of w' u = Some p)" "tw_closed w' = tw_closed ?w"
    by (auto simp: demo_run(2))
  have of': "tw_of w' = (\<lambda>_. None)(2 := Some 9)" using w'(3) by (auto simp: demo_run(2))
  have last: "\<not> (\<exists>u. u \<noteq> 2 \<and> tw_of w' u = Some 9)" "tw_of w' 2 = Some 9" by (simp_all add: of')
  from trace_lives_while_used [OF w'(2), of demo_banner "demo_env None" 2, unfolded last option.case if_not_P [OF last(1)]] obtain w'' d where
    w'': "socketTraceEnd demo_ops demo_banner (demo_env None) 2 w' = Some w''" "tw_of w'' = (tw_of w')(2 := None)"
      "\<forall>p. p \<in> tw_live w'' \<longleftrightarrow> (\<exists>u. tw_of w'' u = Some p)" "tw_closed w'' = tw_closed w' @ [(9, d)]"
    by blast
  have "9 \<in> tw_live w'" "9 \<notin> tw_live w''" using w'(4) w''(2,3) by (auto simp: of')
  then show ?thesis using w'(1,5) w''(1,4) demo_run(3) by auto
qed

end
