(* ===== verification/Logging.thy ===== *)
theory Logging
  imports TraceProps ConnTypes "HOL-Library.Monad_Syntax"
begin

text \<open>
  The log of a connection (\<^verbatim>\<open>src/src/socklog.c\<close>, \<^verbatim>\<open>src/src/connlog.c\<close>): a line of text in an array of 256
  characters, which goes to the trace of the socket; and the trace functions of the public interface.
\<close>

section \<open>Numbers\<close>

text \<open>\<^verbatim>\<open>"%d"\<close>, \<^verbatim>\<open>"%lu"\<close> and \<^verbatim>\<open>"%02d"\<close>.\<close>

fun dec :: "nat \<Rightarrow> string" where
  "dec n = (if n < 10 then [char_of (48 + n)] else dec (n div 10) @ [char_of (48 + n mod 10)])"

declare dec.simps [simp del]

definition dec_int :: "int \<Rightarrow> string" where
  "dec_int i = (if i < 0 then ''-'' @ dec (nat (- i)) else dec (nat i))"

definition dec2 :: "nat \<Rightarrow> string" where
  "dec2 n = (if n < 10 then ''0'' @ dec n else dec n)"

section \<open>A line\<close>

text \<open>
  Writing at the end of the array; \<open>None\<close> is a write behind its end.  \<open>put_z\<close> also writes a final zero,
  as \<^verbatim>\<open>sprintf()\<close> does.
\<close>

definition LOG_SIZE :: nat where
  "LOG_SIZE = 256"

definition put :: "string \<Rightarrow> string \<Rightarrow> string option" where
  "put s b = (if length b + length s \<le> LOG_SIZE then Some (b @ s) else None)"

definition put_z :: "string \<Rightarrow> string \<Rightarrow> string option" where
  "put_z s b = (if length b + length s + 1 \<le> LOG_SIZE then Some (b @ s) else None)"

text \<open>Spaces up to column \<open>n\<close>, with \<open>k\<close> columns to come.\<close>

definition pad_to :: "nat \<Rightarrow> nat \<Rightarrow> string \<Rightarrow> string" where
  "pad_to n k b = b @ replicate (n - (length b + k)) CHR '' ''"

text \<open>What stands behind the last slash.\<close>

definition base_name :: "string \<Rightarrow> string" where
  "base_name path = rev (takeWhile (\<lambda>c. c \<noteq> CHR ''/'') (rev path))"

definition log_head :: "int \<Rightarrow> string \<Rightarrow> int \<Rightarrow> string option" where
  "log_head tid path line =
     do { b1 \<leftarrow> put_z (dec_int tid) [];
          b2 \<leftarrow> put '' '' b1;
          b3 \<leftarrow> put (base_name path) (pad_to 25 (length (base_name path)) b2);
          b4 \<leftarrow> put_z ('':'' @ dec_int line) b3;
          put '' '' (pad_to 33 0 b4) }"

text \<open>A negative length reaches \<^verbatim>\<open>memcpy()\<close> as a huge one.\<close>

definition log_text :: "int \<Rightarrow> string \<Rightarrow> string \<Rightarrow> int \<Rightarrow> string option" where
  "log_text tid msg path line =
     do { b \<leftarrow> log_head tid path line;
          let space = int LOG_SIZE - int (length b) - 1;
          if space < 0 then None
          else do { b1 \<leftarrow> put (take (nat space) msg) b; put_z ''\<newline>'' b1 } }"

section \<open>The log functions\<close>

text \<open>
  \<open>le_fit\<close> is \<^verbatim>\<open>strprintf()\<close>, which is in another library: what it makes of a text for an array of some
  size.  \<open>le_errno\<close> is what \<^verbatim>\<open>errno\<close> is after a message was written.
\<close>

record log_env =
  le_tid :: int
  le_ptr :: "ptr \<Rightarrow> string"
  le_fit :: "nat \<Rightarrow> string \<Rightarrow> string"
  le_errno :: int

record 'b log_state =
  ls_errno :: int
  ls_trace :: "'b trace_world"

record log_site =
  lg_socket :: "ptr option"
  lg_path :: string
  lg_line :: int

definition bytes_of :: "string \<Rightarrow> byte list" where
  "bytes_of = map (\<lambda>c. of_nat (of_char c))"

definition socketLogMessage ::
    "'b trace_ops \<Rightarrow> log_env \<Rightarrow> log_site \<Rightarrow> string \<Rightarrow> 'b log_state \<Rightarrow> 'b log_state option" where
  "socketLogMessage ops le site msg st =
     (case lg_socket site of
        None \<Rightarrow> Some st
      | Some s \<Rightarrow>
          do { t \<leftarrow> log_text (le_tid le) msg (lg_path site) (lg_line site);
               (_, w) \<leftarrow> socketTraceAppend ops (bytes_of t) s (ls_trace st);
               Some (st\<lparr>ls_errno := le_errno le, ls_trace := w\<rparr>) })"

definition SocketLogMessage ::
    "'b trace_ops \<Rightarrow> log_env \<Rightarrow> log_site \<Rightarrow> string \<Rightarrow> 'b log_state \<Rightarrow> 'b log_state option" where
  "SocketLogMessage ops le site msg st =
     (if lg_socket site \<noteq> None then socketLogMessage ops le site msg st else Some st)"

text \<open>\<^verbatim>\<open>errnobefore\<close>, around a message and around one that is formatted first.\<close>

definition keep_errno :: "('b log_state \<Rightarrow> 'b log_state option) \<Rightarrow> 'b log_state \<Rightarrow> 'b log_state option" where
  "keep_errno f st = map_option (\<lambda>st'. st'\<lparr>ls_errno := ls_errno st\<rparr>) (f st)"

definition logMessage ::
    "'b trace_ops \<Rightarrow> log_env \<Rightarrow> log_site \<Rightarrow> string \<Rightarrow> 'b log_state \<Rightarrow> 'b log_state option" where
  "logMessage ops le site msg = keep_errno (SocketLogMessage ops le site msg)"

definition log_fmt ::
    "'b trace_ops \<Rightarrow> log_env \<Rightarrow> log_site \<Rightarrow> string \<Rightarrow> 'b log_state \<Rightarrow> 'b log_state option" where
  "log_fmt ops le site text = keep_errno (SocketLogMessage ops le site (le_fit le 256 text))"

definition logConnBindSocket ::
    "'b trace_ops \<Rightarrow> log_env \<Rightarrow> log_site \<Rightarrow> ptr \<Rightarrow> 'b log_state \<Rightarrow> 'b log_state option" where
  "logConnBindSocket ops le site c =
     log_fmt ops le site (''socket '' @ (case lg_socket site of None \<Rightarrow> ''(nil)'' | Some s \<Rightarrow> le_ptr le s) @
       '' bound to conn '' @ le_ptr le c)"

definition state_text :: "ConnState \<Rightarrow> string" where
  "state_text s =
     (case s of
        CONN_STATE_FREE \<Rightarrow> ''is being destroyed''
      | CONN_STATE_CACHED \<Rightarrow> ''is cached''
      | CONN_STATE_IDLE \<Rightarrow> ''is idle''
      | CONN_STATE_SYNCHRONOUS \<Rightarrow> ''is doing synchronous io''
      | CONN_STATE_ASYNCHRONOUS_CLIENT \<Rightarrow> ''is queueing async events''
      | CONN_STATE_ASYNCHRONOUS_ENGINE \<Rightarrow> ''is done queueing async events''
      | CONN_STATE_ASYNCHRONOUS_ENGINE_COMPLETE \<Rightarrow> ''is done processing async events''
      | CONN_STATE_SYNCHRONOUS_LISTENER \<Rightarrow> ''is a synchronous listener''
      | CONN_STATE_ASYNCHRONOUS_LISTENER \<Rightarrow> ''is an asynchronous listener'')"

definition logStateChange ::
    "'b trace_ops \<Rightarrow> log_env \<Rightarrow> log_site \<Rightarrow> ConnState \<Rightarrow> 'b log_state \<Rightarrow> 'b log_state option" where
  "logStateChange ops le site newState = keep_errno (SocketLogMessage ops le site (state_text newState))"

definition logQueueLock :: "'b trace_ops \<Rightarrow> log_env \<Rightarrow> log_site \<Rightarrow> 'b log_state \<Rightarrow> 'b log_state option" where
  "logQueueLock ops le site = keep_errno (SocketLogMessage ops le site ''mutex acquired'')"

definition logQueueUnlock :: "'b trace_ops \<Rightarrow> log_env \<Rightarrow> log_site \<Rightarrow> 'b log_state \<Rightarrow> 'b log_state option" where
  "logQueueUnlock ops le site = keep_errno (SocketLogMessage ops le site ''mutex released'')"

text \<open>The number of an event type.\<close>

definition type_number :: "ConnEventType \<Rightarrow> nat" where
  "type_number t =
     (case t of
        CONN_EVENT_ACCEPT \<Rightarrow> 1 | CONN_EVENT_CONNECT \<Rightarrow> 2 | CONN_EVENT_DISCONNECT \<Rightarrow> 3
      | CONN_EVENT_SSL_ACCEPT \<Rightarrow> 4 | CONN_EVENT_TLS_ACCEPT \<Rightarrow> 5 | CONN_EVENT_SSL_CONNECT \<Rightarrow> 6
      | CONN_EVENT_TLS_CONNECT \<Rightarrow> 7 | CONN_EVENT_SSL_DISCONNECT \<Rightarrow> 8
      | CONN_EVENT_READ \<Rightarrow> 9 | CONN_EVENT_READ_COUNT \<Rightarrow> 10 | CONN_EVENT_READ_UNTIL_PATTERN \<Rightarrow> 11
      | CONN_EVENT_READ_TO_CB \<Rightarrow> 12 | CONN_EVENT_READ_TO_CONN \<Rightarrow> 13
      | CONN_EVENT_WRITE_FROM_CB \<Rightarrow> 14 | CONN_EVENT_WRITE_FROM_CLIENT_BUFFER \<Rightarrow> 15 | CONN_EVENT_FLUSH \<Rightarrow> 16)"

text \<open>\<^verbatim>\<open>"ce %p:%02d "\<close>; the event \<open>ce\<close> is in the memory of its connection.\<close>

definition ce_text :: "log_env \<Rightarrow> 'c conn \<Rightarrow> ptr \<Rightarrow> string" where
  "ce_text le c ce = ''ce '' @ le_ptr le ce @ '':'' @ dec2 (type_number (ce_type (mem c ce))) @ '' ''"

definition logConnEventAlloc ::
    "'b trace_ops \<Rightarrow> log_env \<Rightarrow> log_site \<Rightarrow> ptr \<Rightarrow> 'b log_state \<Rightarrow> 'b log_state option" where
  "logConnEventAlloc ops le site ce = log_fmt ops le site (''ce '' @ le_ptr le ce @ '': - allocated'')"

definition logConnEventFree ::
    "'b trace_ops \<Rightarrow> log_env \<Rightarrow> log_site \<Rightarrow> 'c conn \<Rightarrow> ptr \<Rightarrow> 'b log_state \<Rightarrow> 'b log_state option" where
  "logConnEventFree ops le site c ce = log_fmt ops le site (ce_text le c ce @ ''freed'')"

definition logConnEventEnqueue ::
    "'b trace_ops \<Rightarrow> log_env \<Rightarrow> log_site \<Rightarrow> 'c conn \<Rightarrow> ptr \<Rightarrow> 'b log_state \<Rightarrow> 'b log_state option" where
  "logConnEventEnqueue ops le site c ce = log_fmt ops le site (ce_text le c ce @ ''queued'')"

definition logConnEventDequeue ::
    "'b trace_ops \<Rightarrow> log_env \<Rightarrow> log_site \<Rightarrow> 'c conn \<Rightarrow> ptr \<Rightarrow> 'b log_state \<Rightarrow> 'b log_state option" where
  "logConnEventDequeue ops le site c ce = log_fmt ops le site (ce_text le c ce @ ''dequeued'')"

definition slot_text :: "ptr option \<Rightarrow> string" where
  "slot_text s = (if s \<noteq> None then ''in progress'' else ''idle'')"

definition slots_text :: "'c conn \<Rightarrow> string" where
  "slots_text c = ''CONNECT: '' @ slot_text (act_connect c) @ '' RECEIVE: '' @ slot_text (act_receive c) @
     '' SEND: '' @ slot_text (act_send c) @ '' QUEUED: '' @ dec (nat (l_count (queue c)))"

definition logConnEventNext ::
    "'b trace_ops \<Rightarrow> log_env \<Rightarrow> log_site \<Rightarrow> 'c conn \<Rightarrow> string \<Rightarrow> 'b log_state \<Rightarrow> 'b log_state option" where
  "logConnEventNext ops le site c message =
     log_fmt ops le site (''ConnEventNext() found '' @ slots_text c @ '' PLAN: '' @ message @ ''\<newline>'')"

text \<open>Setting and clearing the event in progress, for the three classes.\<close>

definition set_text :: "log_env \<Rightarrow> string \<Rightarrow> ptr option \<Rightarrow> ptr \<Rightarrow> string" where
  "set_text le cls active ce =
     ''ce '' @ le_ptr le ce @
     (if active \<noteq> None then '' in progress COLLISION when trying to set!!!!! '' else '' in progress set '') @
     ''(class:'' @ cls @ '')''"

definition clear_text :: "log_env \<Rightarrow> string \<Rightarrow> ptr option \<Rightarrow> ptr \<Rightarrow> string" where
  "clear_text le cls active ce =
     ''ce '' @ le_ptr le ce @
     (case active of
        None \<Rightarrow> '' in progress NOT FOUND when trying to clear!!!!''
      | Some a \<Rightarrow>
          if a = ce then '' in progress clear ''
          else [char_of (9 :: nat)] @ ''the clearing event does not match the event in progress ('' @ le_ptr le a @ '')!!!'') @
     ''(class:'' @ cls @ '')''"

definition logConnEventConnectSet ::
    "'b trace_ops \<Rightarrow> log_env \<Rightarrow> log_site \<Rightarrow> 'c conn \<Rightarrow> ptr \<Rightarrow> 'b log_state \<Rightarrow> 'b log_state option" where
  "logConnEventConnectSet ops le site c ce = log_fmt ops le site (set_text le ''connect'' (act_connect c) ce)"

definition logConnEventConnectClear ::
    "'b trace_ops \<Rightarrow> log_env \<Rightarrow> log_site \<Rightarrow> 'c conn \<Rightarrow> ptr \<Rightarrow> 'b log_state \<Rightarrow> 'b log_state option" where
  "logConnEventConnectClear ops le site c ce = log_fmt ops le site (clear_text le ''connect'' (act_connect c) ce)"

definition logConnEventReceiveSet ::
    "'b trace_ops \<Rightarrow> log_env \<Rightarrow> log_site \<Rightarrow> 'c conn \<Rightarrow> ptr \<Rightarrow> 'b log_state \<Rightarrow> 'b log_state option" where
  "logConnEventReceiveSet ops le site c ce = log_fmt ops le site (set_text le ''receive'' (act_receive c) ce)"

definition logConnEventReceiveClear ::
    "'b trace_ops \<Rightarrow> log_env \<Rightarrow> log_site \<Rightarrow> 'c conn \<Rightarrow> ptr \<Rightarrow> 'b log_state \<Rightarrow> 'b log_state option" where
  "logConnEventReceiveClear ops le site c ce = log_fmt ops le site (clear_text le ''receive'' (act_receive c) ce)"

definition logConnEventSendSet ::
    "'b trace_ops \<Rightarrow> log_env \<Rightarrow> log_site \<Rightarrow> 'c conn \<Rightarrow> ptr \<Rightarrow> 'b log_state \<Rightarrow> 'b log_state option" where
  "logConnEventSendSet ops le site c ce = log_fmt ops le site (set_text le ''send'' (act_send c) ce)"

definition logConnEventSendClear ::
    "'b trace_ops \<Rightarrow> log_env \<Rightarrow> log_site \<Rightarrow> 'c conn \<Rightarrow> ptr \<Rightarrow> 'b log_state \<Rightarrow> 'b log_state option" where
  "logConnEventSendClear ops le site c ce = log_fmt ops le site (clear_text le ''send'' (act_send c) ce)"

definition logConnEventProcess ::
    "'b trace_ops \<Rightarrow> log_env \<Rightarrow> log_site \<Rightarrow> 'c conn \<Rightarrow> ptr \<Rightarrow> 'b log_state \<Rightarrow> 'b log_state option" where
  "logConnEventProcess ops le site c ce = log_fmt ops le site (ce_text le c ce @ ''processing'')"

definition logConnEventDone ::
    "'b trace_ops \<Rightarrow> log_env \<Rightarrow> log_site \<Rightarrow> 'c conn \<Rightarrow> ptr \<Rightarrow> 'b log_state \<Rightarrow> 'b log_state option" where
  "logConnEventDone ops le site c ce =
     log_fmt ops le site (ce_text le c ce @
       (if ce_status (mem c ce) = CONN_EVENT_COMPLETE then ''completed successfully''
        else if ce_status (mem c ce) = CONN_EVENT_IN_PROGRESS then ''exited until async events are finished''
        else ''ended with error '' @ dec_int (ce_error (mem c ce))))"

definition logConnEventKilled ::
    "'b trace_ops \<Rightarrow> log_env \<Rightarrow> log_site \<Rightarrow> 'c conn \<Rightarrow> ptr \<Rightarrow> 'b log_state \<Rightarrow> 'b log_state option" where
  "logConnEventKilled ops le site c ce = log_fmt ops le site (ce_text le c ce @ ''killed'')"

definition logConnEventCanceled ::
    "'b trace_ops \<Rightarrow> log_env \<Rightarrow> log_site \<Rightarrow> 'c conn \<Rightarrow> ptr \<Rightarrow> 'b log_state \<Rightarrow> 'b log_state option" where
  "logConnEventCanceled ops le site c ce = log_fmt ops le site (ce_text le c ce @ ''canceled'')"

definition socketEventString :: "SocketEventType \<Rightarrow> string" where
  "socketEventString t =
     (case t of
        SOCK_EVENT_TYPE_READABLE \<Rightarrow> ''read'' | SOCK_EVENT_TYPE_WRITABLE \<Rightarrow> ''write'' | SOCK_EVENT_TYPE_LISTEN \<Rightarrow> ''listen''
      | SOCK_EVENT_TYPE_CONNECT \<Rightarrow> ''connect'' | SOCK_EVENT_TYPE_DISCONNECT \<Rightarrow> ''disconnect''
      | SOCK_EVENT_TYPE_NONE \<Rightarrow> ''NOT DEFINED'')"

definition logSocketEventStarted ::
    "'b trace_ops \<Rightarrow> log_env \<Rightarrow> log_site \<Rightarrow> 'c conn \<Rightarrow> ptr \<Rightarrow> SocketEventType \<Rightarrow> 'b log_state \<Rightarrow> 'b log_state option" where
  "logSocketEventStarted ops le site c ce t = log_fmt ops le site (ce_text le c ce @ ''started '' @ socketEventString t @ '' event'')"

definition logSocketEventFailedToStart ::
    "'b trace_ops \<Rightarrow> log_env \<Rightarrow> log_site \<Rightarrow> 'c conn \<Rightarrow> ptr \<Rightarrow> SocketEventType \<Rightarrow> 'b log_state \<Rightarrow> 'b log_state option" where
  "logSocketEventFailedToStart ops le site c ce t =
     log_fmt ops le site (ce_text le c ce @ ''failed to start '' @ socketEventString t @ '' event'')"

definition logSocketEventFinished ::
    "'b trace_ops \<Rightarrow> log_env \<Rightarrow> log_site \<Rightarrow> 'c conn \<Rightarrow> ptr \<Rightarrow> SocketEventType \<Rightarrow> 'b log_state \<Rightarrow> 'b log_state option" where
  "logSocketEventFinished ops le site c ce t =
     log_fmt ops le site (ce_text le c ce @ ''a '' @ socketEventString t @ '' event finished'')"

definition logConnQueueCompleted :: "'b trace_ops \<Rightarrow> log_env \<Rightarrow> log_site \<Rightarrow> 'b log_state \<Rightarrow> 'b log_state option" where
  "logConnQueueCompleted ops le site = log_fmt ops le site ''picking up completed queue''"

definition logConnQueueWaiting :: "'b trace_ops \<Rightarrow> log_env \<Rightarrow> log_site \<Rightarrow> 'b log_state \<Rightarrow> 'b log_state option" where
  "logConnQueueWaiting ops le site =
     log_fmt ops le site ''all queued events are finished. waiting for client to queue more or submit''"

definition logConnQueueCallback :: "'b trace_ops \<Rightarrow> log_env \<Rightarrow> log_site \<Rightarrow> 'b log_state \<Rightarrow> 'b log_state option" where
  "logConnQueueCallback ops le site = log_fmt ops le site ''async queue callback''"

definition logListenerCallback :: "'b trace_ops \<Rightarrow> log_env \<Rightarrow> log_site \<Rightarrow> 'b log_state \<Rightarrow> 'b log_state option" where
  "logListenerCallback ops le site = log_fmt ops le site ''async listen callback''"

definition logAcceptCallback :: "'b trace_ops \<Rightarrow> log_env \<Rightarrow> log_site \<Rightarrow> 'b log_state \<Rightarrow> 'b log_state option" where
  "logAcceptCallback ops le site = log_fmt ops le site ''async accept callback''"

definition logDataDropped ::
    "'b trace_ops \<Rightarrow> log_env \<Rightarrow> log_site \<Rightarrow> int \<Rightarrow> string \<Rightarrow> 'b log_state \<Rightarrow> 'b log_state option" where
  "logDataDropped ops le site count why = log_fmt ops le site (dec_int count @ '' bytes were '' @ why)"

definition status_text :: "ConnEventStatus \<Rightarrow> string" where
  "status_text s =
     (case s of
        CONN_EVENT_IN_PROGRESS \<Rightarrow> ''in progress'' | CONN_EVENT_COMPLETE \<Rightarrow> ''complete'' | CONN_EVENT_FAILED \<Rightarrow> ''failed''
      | CONN_EVENT_TIMED_OUT \<Rightarrow> ''timed out'' | CONN_EVENT_QUEUED \<Rightarrow> ''queued'' | CONN_EVENT_KILLED \<Rightarrow> ''killed''
      | CONN_EVENT_PARTIAL \<Rightarrow> ''partial'')"

definition owner_text :: "ConnState \<Rightarrow> string" where
  "owner_text s =
     (case s of
        CONN_STATE_ASYNCHRONOUS_CLIENT \<Rightarrow> ''owned by client''
      | CONN_STATE_ASYNCHRONOUS_ENGINE \<Rightarrow> ''owned by engine''
      | CONN_STATE_ASYNCHRONOUS_ENGINE_COMPLETE \<Rightarrow> ''owned by engine and complete''
      | _ \<Rightarrow> ''Illegal engine state'')"

definition logConnEventsProcess ::
    "'b trace_ops \<Rightarrow> log_env \<Rightarrow> log_site \<Rightarrow> 'c conn \<Rightarrow> ConnEventStatus \<Rightarrow> string \<Rightarrow> 'b log_state \<Rightarrow> 'b log_state option" where
  "logConnEventsProcess ops le site c status message =
     log_fmt ops le site (''ConnEventsProcess() returning STATUS: '' @ status_text status @ '' STATE: '' @ owner_text (state c) @
       '' '' @ slots_text c @ '' THREADS: '' @ dec_int (threads c) @ '' REASON: '' @ message @ ''\<newline>'')"

text \<open>The three of \<^verbatim>\<open>socklog.c\<close>, called with the lock of the socket held.\<close>

definition socketLogValueEx ::
    "'b trace_ops \<Rightarrow> log_env \<Rightarrow> log_site \<Rightarrow> (int \<Rightarrow> string) \<Rightarrow> int \<Rightarrow> 'b log_state \<Rightarrow> 'b log_state option" where
  "socketLogValueEx ops le site format val = keep_errno (socketLogMessage ops le site (le_fit le 256 (format val)))"

definition se_text :: "log_env \<Rightarrow> ptr \<Rightarrow> ptr \<Rightarrow> nat \<Rightarrow> string" where
  "se_text le cbArg se t = ''cbArg '' @ le_ptr le cbArg @ '' se '' @ le_ptr le se @ '':'' @ dec2 t @ '' ''"

definition socketLogEventEx ::
    "'b trace_ops \<Rightarrow> log_env \<Rightarrow> log_site \<Rightarrow> ptr \<Rightarrow> nat \<Rightarrow> ptr \<Rightarrow> string \<Rightarrow> string \<Rightarrow> 'b log_state \<Rightarrow> 'b log_state option" where
  "socketLogEventEx ops le site se t cbArg event st =
     keep_errno (socketLogMessage ops le site (le_fit le 256 (se_text le cbArg se t @ event @ '' event in '' @ st @ '' state'')))"

definition socketLogStateChangeEx ::
    "'b trace_ops \<Rightarrow> log_env \<Rightarrow> log_site \<Rightarrow> ptr \<Rightarrow> nat \<Rightarrow> ptr \<Rightarrow> string \<Rightarrow> string \<Rightarrow> 'b log_state \<Rightarrow> 'b log_state option" where
  "socketLogStateChangeEx ops le site se t cbArg state1 state2 =
     keep_errno (socketLogMessage ops le site
       (le_fit le 256 (se_text le cbArg se t @ ''changing state from '' @ state1 @ '' to '' @ state2)))"

section \<open>The public trace functions\<close>

text \<open>
  \<^verbatim>\<open>src/src/connio.c\<close> ends with them.  A connection is given by its pointer (\<open>None\<close>: null);
  its socket is \<open>lg_socket\<close> of the call site.
\<close>

definition RememberAPICalls ::
    "'b trace_ops \<Rightarrow> log_env \<Rightarrow> log_site \<Rightarrow> string \<Rightarrow> 'b log_state \<Rightarrow> 'b log_state option" where
  "RememberAPICalls ops le site api = logMessage ops le site api"

text \<open>\<open>on_conn\<close>: \<^verbatim>\<open>errno = 0\<close>, \<^verbatim>\<open>notNull()\<close>, the note of the call, and the operation on the socket.\<close>

definition on_conn ::
    "'b trace_ops \<Rightarrow> log_env \<Rightarrow> log_site \<Rightarrow> string \<Rightarrow> ptr option \<Rightarrow> 'r \<Rightarrow>
     (ptr \<Rightarrow> 'b trace_world \<Rightarrow> ('r \<times> 'b trace_world) option) \<Rightarrow> 'b log_state \<Rightarrow> ('r \<times> 'b log_state) option" where
  "on_conn ops le site api conn r f st =
     (case conn of
        None \<Rightarrow> Some (r, st\<lparr>ls_errno := EINVAL\<rparr>)
      | Some c \<Rightarrow>
          do { st1 \<leftarrow> RememberAPICalls ops le site api (st\<lparr>ls_errno := 0\<rparr>);
               s \<leftarrow> lg_socket site;
               (x, w) \<leftarrow> f s (ls_trace st1);
               Some (x, st1\<lparr>ls_trace := w\<rparr>) })"

definition ConnTraceBeginEx ::
    "'b trace_ops \<Rightarrow> log_env \<Rightarrow> log_site \<Rightarrow> banner \<Rightarrow> 'b trace_env \<Rightarrow> bool \<Rightarrow> string \<Rightarrow> ptr option \<Rightarrow> u32 \<Rightarrow> nat \<Rightarrow> ptr option \<Rightarrow>
     'b log_state \<Rightarrow> (bool \<times> 'b log_state) option" where
  "ConnTraceBeginEx ops le site bn env shutting identity conn flags buffSize traced st =
     (if conn \<noteq> None \<and> shutting then Some (False, st\<lparr>ls_errno := ECONNHANDLESHUTDOWN\<rparr>)
      else on_conn ops le site ''ConnTraceBegin'' conn False
             (\<lambda>s. socketTraceBeginEx ops bn env identity conn flags buffSize s traced) st)"

definition ConnTraceEndEx ::
    "'b trace_ops \<Rightarrow> log_env \<Rightarrow> log_site \<Rightarrow> banner \<Rightarrow> 'b trace_env \<Rightarrow> ptr option \<Rightarrow> 'b log_state \<Rightarrow> (unit \<times> 'b log_state) option" where
  "ConnTraceEndEx ops le site bn env conn =
     on_conn ops le site ''ConnTraceEnd'' conn () (\<lambda>s w. map_option (Pair ()) (socketTraceEnd ops bn env s w))"

definition ConnTraceFlagsModifyEx ::
    "'b trace_ops \<Rightarrow> log_env \<Rightarrow> log_site \<Rightarrow> ptr option \<Rightarrow> u32 \<Rightarrow> u32 \<Rightarrow> 'b log_state \<Rightarrow> (u32 \<times> 'b log_state) option" where
  "ConnTraceFlagsModifyEx ops le site conn addFlags removeFlags =
     on_conn ops le site ''ConnTraceFlagsModify'' conn (- 1) (socketTraceFlagsModify addFlags removeFlags)"

definition ConnTraceFlushEx ::
    "'b trace_ops \<Rightarrow> log_env \<Rightarrow> log_site \<Rightarrow> ptr option \<Rightarrow> 'b log_state \<Rightarrow> (unit \<times> 'b log_state) option" where
  "ConnTraceFlushEx ops le site conn = on_conn ops le site ''ConnTraceFlush'' conn () (SocketTraceFlush ops)"

text \<open>\<open>text\<close> is what the format gives, \<open>None\<close> when it cannot be formatted.\<close>

definition connTracePrintVEx ::
    "'b trace_ops \<Rightarrow> log_env \<Rightarrow> log_site \<Rightarrow> string option \<Rightarrow> 'b log_state \<Rightarrow> (nat \<times> 'b log_state) option" where
  "connTracePrintVEx ops le site text st =
     (case text of None \<Rightarrow> Some (0, st) | Some t \<Rightarrow> map_option (Pair 0) (SocketLogMessage ops le site t st))"

definition ConnTracePrintVEx ::
    "'b trace_ops \<Rightarrow> log_env \<Rightarrow> log_site \<Rightarrow> string \<Rightarrow> ptr option \<Rightarrow> string option \<Rightarrow> 'b log_state \<Rightarrow> (nat \<times> 'b log_state) option" where
  "ConnTracePrintVEx ops le site api conn text st =
     (case conn of
        None \<Rightarrow> Some (0, st\<lparr>ls_errno := EINVAL\<rparr>)
      | Some c \<Rightarrow> RememberAPICalls ops le site api (st\<lparr>ls_errno := 0\<rparr>) \<bind> connTracePrintVEx ops le site text)"

end
