(* ===== verification/LogProps.thy ===== *)
theory LogProps
  imports Logging
begin

text \<open>
  What the log promises: where a line ends, and that logging changes nothing but the trace of the
  socket.
\<close>

section \<open>Where a line ends\<close>

lemma dec_length: "n < 10 ^ Suc k \<Longrightarrow> length (dec n) \<le> Suc k"
proof (induction k arbitrary: n)
  case 0
  then show ?case by (simp add: dec.simps)
next
  case (Suc k)
  then have "n div 10 < 10 ^ Suc k" by (simp add: less_mult_imp_div_less mult.commute)
  from Suc.IH [OF this] show ?case by (simp add: dec.simps [of n])
qed

lemma dec_int_length: "\<bar>i\<bar> < 10 ^ Suc k \<Longrightarrow> length (dec_int i) \<le> k + 2"
proof -
  assume "\<bar>i\<bar> < 10 ^ Suc k"
  then have "nat \<bar>i\<bar> < 10 ^ Suc k" by (simp add: nat_less_iff)
  from dec_length [OF this] show ?thesis by (auto simp: dec_int_def abs_if split: if_splits)
qed

definition head_length :: "int \<Rightarrow> string \<Rightarrow> int \<Rightarrow> nat" where
  "head_length tid path line =
     max 33 (max 25 (length (dec_int tid) + 1 + length (base_name path)) + 1 + length (dec_int line)) + 1"

lemma length_pad_to [simp]: "length (pad_to n k b) + k = max n (length b + k)"
  by (simp add: pad_to_def)

lemma length_pad_to0 [simp]: "length (pad_to n 0 b) = max n (length b)"
  by (simp add: pad_to_def)

lemma log_head_fits:
  assumes "length (dec_int tid) + length (base_name path) + length (dec_int line) \<le> 200"
  shows "\<exists>b. log_head tid path line = Some b \<and> length b = head_length tid path line"
proof -
  define f where "f = length (base_name path)"
  define b2 where "b2 = dec_int tid @ '' ''"
  have l2: "length b2 = length (dec_int tid) + 1" by (simp add: b2_def)
  have p: "length (pad_to 25 f b2) + f = max 25 (length b2 + f)" by simp
  then have "put (base_name path) (pad_to 25 f b2) = Some (pad_to 25 f b2 @ base_name path)"
    using assms l2 by (simp add: put_def LOG_SIZE_def f_def)
  moreover have "put_z ('':'' @ dec_int line) (pad_to 25 f b2 @ base_name path) =
      Some (pad_to 25 f b2 @ base_name path @ '':'' @ dec_int line)"
    using assms l2 p by (simp add: put_z_def LOG_SIZE_def f_def)
  moreover define b4 where "b4 = pad_to 25 f b2 @ base_name path @ '':'' @ dec_int line"
  moreover have l4: "length b4 = max 25 (length b2 + f) + 1 + length (dec_int line)"
    using p by (simp add: b4_def f_def)
  moreover have "put '' '' (pad_to 33 0 b4) = Some (pad_to 33 0 b4 @ '' '')"
    using assms l2 l4 by (simp add: put_def LOG_SIZE_def f_def)
  moreover have "put_z (dec_int tid) [] = Some (dec_int tid)" "put '' '' (dec_int tid) = Some b2"
    using assms by (simp_all add: put_z_def put_def LOG_SIZE_def b2_def)
  ultimately have "log_head tid path line = Some (pad_to 33 0 b4 @ '' '')"
    by (simp add: log_head_def f_def)
  then show ?thesis using l2 l4 by (simp add: head_length_def f_def)
qed

lemma log_line_exact:
  assumes "length (dec_int tid) + length (base_name path) + length (dec_int line) \<le> 200"
  shows "\<exists>b. log_head tid path line = Some b \<and> length b = head_length tid path line \<and>
    log_text tid msg path line = (if head_length tid path line + length msg < 255 then Some (b @ msg @ ''\<newline>'') else None)"
proof -
  from log_head_fits [OF assms] obtain b where b: "log_head tid path line = Some b" "length b = head_length tid path line" by blast
  have h: "head_length tid path line \<le> 255" using assms by (simp add: head_length_def)
  have t: "log_text tid msg path line = put (take (255 - length b) msg) b \<bind> put_z ''\<newline>''"
    using b h by (simp add: log_text_def LOG_SIZE_def nat_diff_distrib')
  have "put (take (255 - length b) msg) b = Some (b @ take (255 - length b) msg)"
    using h b by (auto simp: put_def LOG_SIZE_def)
  then have "log_text tid msg path line = (if length b + length msg < 255 then Some (b @ msg @ ''\<newline>'') else None)"
    using h b t by (auto simp: put_z_def LOG_SIZE_def)
  with b show ?thesis by auto
qed

text \<open>
  A log line is complete when the message is shorter than the space left for it; a message that
  fills the space, or is cut to fill it, is one character too long: the final zero is written behind the
  array.  (The head of the line, with the numbers of thread and line and the name of the file, is assumed
  to take less than 200 characters before padding.)
\<close>
theorem log_line_bounds:
  assumes "length (dec_int tid) + length (base_name path) + length (dec_int line) \<le> 200"
  shows "\<exists>b. log_head tid path line = Some b \<and> length b = head_length tid path line \<and>
    log_text tid msg path line = (if head_length tid path line + length msg < 255 then Some (b @ msg @ ''\<newline>'') else None)"
  by (rule log_line_exact [OF assms])

theorem log_line_bounds_witness:
  "log_text 7 (replicate 220 CHR ''x'') ''src/queue.c'' 15 \<noteq> None \<and> log_text 7 (replicate 221 CHR ''x'') ''src/queue.c'' 15 = None"
proof -
  have d: "length (dec_int 7) = 1" "length (dec_int 15) = 2" "base_name ''src/queue.c'' = ''queue.c''"
    by (simp_all add: dec_int_def dec.simps base_name_def)
  have "head_length 7 ''src/queue.c'' 15 = 34" by (simp add: head_length_def d)
  with log_line_bounds [of 7 "''src/queue.c''" 15 "replicate 220 CHR ''x''"]
    log_line_bounds [of 7 "''src/queue.c''" 15 "replicate 221 CHR ''x''"] d
  show ?thesis by auto
qed

text \<open>A text of the consumer reaches the array uncut.\<close>

lemma trace_print_overruns:
  assumes "length (dec_int (le_tid le)) + length (base_name (lg_path site)) + length (dec_int (lg_line site)) \<le> 200"
    "lg_socket site = Some s" "255 \<le> head_length (le_tid le) (lg_path site) (lg_line site) + length t"
  shows "connTracePrintVEx ops le site (Some t) st = None"
  using log_line_exact [OF assms(1), of t] assms(2,3)
  by (auto simp: connTracePrintVEx_def SocketLogMessage_def socketLogMessage_def)

section \<open>Logging changes nothing else\<close>

text \<open>All the functions that log, at one place of the program and for one connection.\<close>

inductive logger :: "'b trace_ops \<Rightarrow> log_env \<Rightarrow> log_site \<Rightarrow> 'c conn \<Rightarrow> ('b log_state \<Rightarrow> 'b log_state option) \<Rightarrow> bool" for ops le site c where
  "logger ops le site c (logMessage ops le site m)"
| "logger ops le site c (logConnBindSocket ops le site p)"
| "logger ops le site c (logStateChange ops le site s)"
| "logger ops le site c (logQueueLock ops le site)"
| "logger ops le site c (logQueueUnlock ops le site)"
| "logger ops le site c (logConnEventAlloc ops le site ce)"
| "logger ops le site c (logConnEventFree ops le site c ce)"
| "logger ops le site c (logConnEventEnqueue ops le site c ce)"
| "logger ops le site c (logConnEventDequeue ops le site c ce)"
| "logger ops le site c (logConnEventNext ops le site c m)"
| "logger ops le site c (logConnEventConnectSet ops le site c ce)"
| "logger ops le site c (logConnEventConnectClear ops le site c ce)"
| "logger ops le site c (logConnEventReceiveSet ops le site c ce)"
| "logger ops le site c (logConnEventReceiveClear ops le site c ce)"
| "logger ops le site c (logConnEventSendSet ops le site c ce)"
| "logger ops le site c (logConnEventSendClear ops le site c ce)"
| "logger ops le site c (logConnEventProcess ops le site c ce)"
| "logger ops le site c (logConnEventDone ops le site c ce)"
| "logger ops le site c (logConnEventKilled ops le site c ce)"
| "logger ops le site c (logConnEventCanceled ops le site c ce)"
| "logger ops le site c (logSocketEventStarted ops le site c ce t)"
| "logger ops le site c (logSocketEventFailedToStart ops le site c ce t)"
| "logger ops le site c (logSocketEventFinished ops le site c ce t)"
| "logger ops le site c (logConnQueueCompleted ops le site)"
| "logger ops le site c (logConnQueueWaiting ops le site)"
| "logger ops le site c (logConnQueueCallback ops le site)"
| "logger ops le site c (logListenerCallback ops le site)"
| "logger ops le site c (logAcceptCallback ops le site)"
| "logger ops le site c (logDataDropped ops le site n m)"
| "logger ops le site c (logConnEventsProcess ops le site c status m)"
| "logger ops le site c (socketLogValueEx ops le site fmt n)"
| "logger ops le site c (socketLogEventEx ops le site se ty a e x)"
| "logger ops le site c (socketLogStateChangeEx ops le site se ty a x y)"

lemma SocketLogMessage_unlocked: "SocketLogMessage ops le site m = socketLogMessage ops le site m"
  by (rule ext) (simp add: SocketLogMessage_def socketLogMessage_def)

lemmas log_defs = logMessage_def logConnBindSocket_def logStateChange_def logQueueLock_def logQueueUnlock_def
  logConnEventAlloc_def logConnEventFree_def logConnEventEnqueue_def logConnEventDequeue_def logConnEventNext_def
  logConnEventConnectSet_def logConnEventConnectClear_def logConnEventReceiveSet_def logConnEventReceiveClear_def
  logConnEventSendSet_def logConnEventSendClear_def logConnEventProcess_def logConnEventDone_def logConnEventKilled_def
  logConnEventCanceled_def logSocketEventStarted_def logSocketEventFailedToStart_def logSocketEventFinished_def
  logConnQueueCompleted_def logConnQueueWaiting_def logConnQueueCallback_def logListenerCallback_def
  logAcceptCallback_def logDataDropped_def logConnEventsProcess_def socketLogValueEx_def socketLogEventEx_def
  socketLogStateChangeEx_def log_fmt_def

lemma logger_message: "logger ops le site c f \<Longrightarrow> \<exists>m. f = keep_errno (socketLogMessage ops le site m)"
  by (induction rule: logger.induct) (unfold log_defs SocketLogMessage_unlocked, blast+)

lemma log_text_newline: "log_text tid m path line = Some l \<Longrightarrow> l \<noteq> [] \<and> last l = CHR ''\<newline>''"
  by (auto simp: log_text_def put_z_def Let_def split: bind_splits if_splits)

lemma append_to_trace:
  assumes "trace_laws f ops" "tw_of w s = Some p" "p \<in> tw_live w" "keeps_all (tw_mem w p)"
    "socketTraceAppend ops d s w = Some (r, w')"
  shows "trace_stream f (tw_mem w' p) = trace_stream f (tw_mem w p) @ d \<and> w'\<lparr>tw_mem := (tw_mem w')(p := tw_mem w p)\<rparr> = w"
  using assms traceLog_appended [OF assms(1,4), of d]
  by (auto simp: socketTraceAppend_def on_trace_def split_beta appended_def)

text \<open>
  Logging is transparent: every function that logs leaves \<^verbatim>\<open>errno\<close> as it was, adds exactly one
  line, with its newline, to the trace of the socket it logs for, and changes nothing else.
\<close>
theorem logging_is_transparent:
  assumes "logger ops le site c f" "f st = Some st'" "trace_laws contents ops" "lg_socket site = Some s"
    "tw_of (ls_trace st) s = Some p" "p \<in> tw_live (ls_trace st)" "keeps_all (tw_mem (ls_trace st) p)"
  shows "ls_errno st' = ls_errno st \<and>
    (\<exists>m l. log_text (le_tid le) m (lg_path site) (lg_line site) = Some l \<and> last l = CHR ''\<newline>'' \<and>
       trace_stream contents (tw_mem (ls_trace st') p) = trace_stream contents (tw_mem (ls_trace st) p) @ bytes_of l) \<and>
    (ls_trace st')\<lparr>tw_mem := (tw_mem (ls_trace st'))(p := tw_mem (ls_trace st) p)\<rparr> = ls_trace st"
proof -
  from logger_message [OF assms(1)] assms(2) obtain m st1 where m: "socketLogMessage ops le site m st = Some st1"
    "st' = st1\<lparr>ls_errno := ls_errno st\<rparr>" by (auto simp: keep_errno_def)
  then obtain l r w where l: "log_text (le_tid le) m (lg_path site) (lg_line site) = Some l"
    "socketTraceAppend ops (bytes_of l) s (ls_trace st) = Some (r, w)" "ls_trace st1 = w"
    using assms(4) by (auto simp: socketLogMessage_def split: bind_splits)
  from append_to_trace [OF assms(3,5-7) l(2)] log_text_newline [OF l(1)] l m(2) show ?thesis by auto
qed

definition demo_log_env :: log_env where
  "demo_log_env = \<lparr>le_tid = 7, le_ptr = (\<lambda>p. ''0x'' @ dec p), le_fit = (\<lambda>n t. take (n - 1) t), le_errno = 99\<rparr>"

definition demo_site :: log_site where
  "demo_site = \<lparr>lg_socket = Some 3, lg_path = ''src/queue.c'', lg_line = 15\<rparr>"

definition demo_log_state :: "byte list log_state" where
  "demo_log_state = \<lparr>ls_errno = 11, ls_trace = demo_world\<lparr>tw_of := (\<lambda>_. None)(3 := Some 9), tw_live := {9},
     tw_mem := (\<lambda>_. demo_trace 0x02000000)\<rparr>\<rparr>"

theorem logging_is_transparent_witness:
  "\<exists>st'. logStateChange demo_ops demo_log_env demo_site CONN_STATE_IDLE demo_log_state = Some st' \<and>
     ls_errno st' = 11 \<and> last (trace_stream (\<lambda>b. b) (tw_mem (ls_trace st') 9)) = 10"
proof -
  have d: "length (dec_int 7) + length (base_name ''src/queue.c'') + length (dec_int 15) \<le> 200"
    "head_length 7 ''src/queue.c'' 15 + length (state_text CONN_STATE_IDLE) < 255"
    by (simp_all add: dec_int_def dec.simps base_name_def head_length_def state_text_def)
  then obtain l where l: "log_text 7 (state_text CONN_STATE_IDLE) ''src/queue.c'' 15 = Some l"
    using log_line_exact [OF d(1), of "state_text CONN_STATE_IDLE"] by auto
  let ?f = "logStateChange demo_ops demo_log_env demo_site CONN_STATE_IDLE"
  obtain st' where st': "?f demo_log_state = Some st'"
    using l by (auto simp: logStateChange_def keep_errno_def SocketLogMessage_def socketLogMessage_def demo_site_def demo_log_env_def
        demo_log_state_def socketTraceAppend_def on_trace_def split_beta)
  have "logger demo_ops demo_log_env demo_site (undefined :: unit conn) ?f" by (rule logger.intros)
  from logging_is_transparent [OF this st' demo_trace_laws, of 3 9]
  obtain m l where r: "ls_errno st' = 11" "log_text 7 m ''src/queue.c'' 15 = Some l" "last l = CHR ''\<newline>''"
    "trace_stream (\<lambda>b. b) (tw_mem (ls_trace st') 9) = trace_stream (\<lambda>b. b) (demo_trace 0x02000000) @ bytes_of l"
    by (auto simp: demo_site_def demo_log_state_def demo_log_env_def keeps_all_def demo_trace_def demo_file_def has_def)
  have "l \<noteq> []" using log_text_newline [OF r(2)] by simp
  then have "last (bytes_of l) = 10" "bytes_of l \<noteq> []" using r(3) by (simp_all add: bytes_of_def last_map)
  with st' r(1,4) show ?thesis by auto
qed

end
