(* ===== verification/DebugReport.thy ===== *)
theory DebugReport
  imports Logging
begin

text \<open>
  The report of connections that were not released (\<^verbatim>\<open>src/src/debug.c\<close>): they are counted by the place
  that created them, and a message of a size computed before is filled piece by piece.
\<close>

section \<open>Counting\<close>

record Consumer =
  cs_file :: string
  cs_line :: int
  cs_count :: nat

text \<open>
  The inner loop.  Its condition is an assignment, \<^verbatim>\<open>consumer->source.line = conn->pub.created.line\<close>: every
  consumer that is visited gets the line of the connection.
\<close>

fun find_consumer :: "string \<Rightarrow> int \<Rightarrow> Consumer list \<Rightarrow> bool \<times> Consumer list" where
  "find_consumer file line [] = (False, [])"
| "find_consumer file line (c # cs) =
     (let c1 = c\<lparr>cs_line := line\<rparr>
      in if line \<noteq> 0 \<and> cs_file c1 = file then (True, c1\<lparr>cs_count := cs_count c1 + 1\<rparr> # cs)
         else (case find_consumer file line cs of (found, ds) \<Rightarrow> (found, c1 # ds)))"

text \<open>\<^verbatim>\<open>"%20lu"\<close>, and the room a new consumer needs.\<close>

definition dec20 :: "nat \<Rightarrow> string" where
  "dec20 n = replicate (20 - length (dec n)) CHR '' '' @ dec n"

definition consumer_size :: "string \<Rightarrow> int \<Rightarrow> nat" where
  "consumer_size file line = length (dec20 0) + 1 + length file + 1 + length (dec_int line) + 1"

definition count_conn :: "string \<times> int \<Rightarrow> Consumer list \<times> nat \<Rightarrow> Consumer list \<times> nat" where
  "count_conn created acc =
     (case (created, acc) of ((file, line), (cs, msgSize)) \<Rightarrow>
        (case find_consumer file line cs of
           (True, ds) \<Rightarrow> (ds, msgSize)
         | (False, ds) \<Rightarrow>
             (\<lparr>cs_file = file, cs_line = line, cs_count = 1\<rparr> # ds, msgSize + consumer_size file line)))"

text \<open>
  The connections in use are given by where they were created and whether they are asked for
  (\<^verbatim>\<open>!cllist || connChild( cllist, conn )\<close>).
\<close>

fun count_loop :: "((string \<times> int) \<times> bool) list \<Rightarrow> Consumer list \<times> nat \<Rightarrow> Consumer list \<times> nat" where
  "count_loop [] acc = acc"
| "count_loop ((created, wanted) # conns) acc = count_loop conns (if wanted then count_conn created acc else acc)"

section \<open>Writing\<close>

text \<open>What has been written, without the final zero, and the size of the array.\<close>

definition writeString :: "nat \<Rightarrow> string \<Rightarrow> string \<Rightarrow> string" where
  "writeString msgSize s msg =
     (let bufferLen = msgSize - length msg
      in if bufferLen > 0 \<and> bufferLen > length s then msg @ s else msg)"

definition consumer_strings :: "Consumer \<Rightarrow> string list" where
  "consumer_strings c = [dec20 (cs_count c), '' '', cs_file c, '':'', dec_int (cs_line c), ''\<newline>'']"

definition head_strings :: "string \<Rightarrow> bool \<Rightarrow> int \<Rightarrow> string list" where
  "head_strings identity children waited =
     [''Connio Consumer '', identity,
      if children then '' has not released the following children in the ''
      else '' has not released the following connections in the '',
      dec_int waited, '' seconds since all connections were closed:\<newline>'']"

text \<open>The message that is printed, and the consumers that are freed.  \<open>memory\<close> says whether there is room for the message.\<close>

definition debugUnreleasedConns ::
    "bool \<Rightarrow> string \<Rightarrow> ((string \<times> int) \<times> bool) list \<Rightarrow> bool \<Rightarrow> int \<Rightarrow> string option \<times> Consumer list" where
  "debugUnreleasedConns memory identity conns children waited =
     (case count_loop conns ([], 0) of (consumers, n) \<Rightarrow>
        (let strings = head_strings identity children waited;
             msgSize = n + sum_list (map length strings) + 1;
             all_strings = strings @ concat (map consumer_strings consumers)
         in (if memory then Some (fold (writeString msgSize) all_strings [] @ ''\<newline>'') else None, consumers)))"

section \<open>The report\<close>

lemma writeString_room: "length msg < n \<Longrightarrow> length (writeString n s msg) < n"
  by (auto simp: writeString_def Let_def)

lemma writeString_all:
  "length msg + sum_list (map length ss) < n \<Longrightarrow> fold (writeString n) ss msg = msg @ concat ss"
proof (induction ss arbitrary: msg)
  case (Cons s ss)
  then have "writeString n s msg = msg @ s" by (simp add: writeString_def Let_def)
  with Cons show ?case by simp
qed simp

text \<open>The array is never overrun.\<close>

lemma report_in_bounds: "length msg < n \<Longrightarrow> length (fold (writeString n) ss msg) < n"
  by (induction ss arbitrary: msg) (simp_all add: writeString_room)

definition count_of :: "string \<Rightarrow> Consumer list \<Rightarrow> nat" where
  "count_of file cs = sum_list (map cs_count (filter (\<lambda>c. cs_file c = file) cs))"

lemma find_consumer_count:
  "line \<noteq> 0 \<Longrightarrow> find_consumer file line cs = (found, ds) \<Longrightarrow>
     found = (file \<in> set (map cs_file cs)) \<and> map cs_file ds = map cs_file cs \<and>
     count_of g ds = count_of g cs + (if found \<and> g = file then 1 else 0)"
proof (induction cs arbitrary: ds found)
  case (Cons c cs)
  show ?case
  proof (cases "cs_file c = file")
    case True
    with Cons.prems show ?thesis by (auto simp: Let_def count_of_def)
  next
    case False
    obtain f es where e: "find_consumer file line cs = (f, es)" by (metis surj_pair)
    from Cons.IH [OF Cons.prems(1) e] Cons.prems(2) e False show ?thesis by (auto simp: Let_def count_of_def)
  qed
qed (simp add: count_of_def)

lemma count_conn_count:
  assumes "line \<noteq> 0" "distinct (map cs_file cs)" "count_conn (file, line) (cs, n) = (ds, k)"
  shows "distinct (map cs_file ds) \<and> count_of g ds = count_of g cs + (if g = file then 1 else 0) \<and>
    set (map cs_file ds) = insert file (set (map cs_file cs))"
proof -
  obtain f es where e: "find_consumer file line cs = (f, es)" by (metis surj_pair)
  note c = find_consumer_count [OF assms(1) e]
  have m: "map cs_file es = map cs_file cs" using c by blast
  show ?thesis
  proof (cases f)
    case True
    then have "ds = es" using assms(3) e by (simp add: count_conn_def)
    moreover have "file \<in> set (map cs_file cs)" using c True by blast
    ultimately show ?thesis using c [of g] m assms(2) True by (simp add: insert_absorb)
  next
    case False
    then have "ds = \<lparr>cs_file = file, cs_line = line, cs_count = 1\<rparr> # es" using assms(3) e by (simp add: count_conn_def)
    moreover have "file \<notin> set (map cs_file es)" using c False m by simp
    moreover have "set (map cs_file es) = set (map cs_file cs)" "distinct (map cs_file es)" using m assms(2) by simp_all
    ultimately show ?thesis using c [of g] False by (auto simp: count_of_def)
  qed
qed

text \<open>Every file is listed once, with the number of connections it created that are asked for.\<close>

lemma report_counts:
  assumes "\<And>f l w. ((f, l), w) \<in> set conns \<Longrightarrow> l \<noteq> 0" "distinct (map cs_file cs)" "count_loop conns (cs, n) = (ds, k)"
  shows "distinct (map cs_file ds) \<and>
    count_of g ds = count_of g cs + length (filter (\<lambda>((f, l), w). w \<and> f = g) conns)"
  using assms
proof (induction conns arbitrary: cs n)
  case (Cons x conns)
  obtain f l w where x: "x = ((f, l), w)" by (metis surj_pair)
  have l: "l \<noteq> 0" using Cons.prems(1) [of f l w] x by simp
  show ?case
  proof (cases w)
    case True
    obtain es j where e: "count_conn (f, l) (cs, n) = (es, j)" by (metis surj_pair)
    note c = count_conn_count [OF l Cons.prems(2) e]
    from Cons.prems(3) x True e have "count_loop conns (es, j) = (ds, k)" by simp
    from Cons.IH [OF _ _ this] Cons.prems(1) c have
      "distinct (map cs_file ds) \<and> count_of g ds = count_of g es + length (filter (\<lambda>((f, l), w). w \<and> f = g) conns)"
      by (metis list.set_intros(2))
    with c [of g] x True show ?thesis by simp
  next
    case False
    with Cons.prems(3) x have "count_loop conns (cs, n) = (ds, k)" by simp
    from Cons.IH [OF _ Cons.prems(2) this] Cons.prems(1) have
      "distinct (map cs_file ds) \<and> count_of g ds = count_of g cs + length (filter (\<lambda>((f, l), w). w \<and> f = g) conns)"
      by (metis list.set_intros(2))
    with x False show ?thesis by simp
  qed
qed simp

text \<open>The lines are not right: a file that is passed on the way to another one is listed with the other one's line.\<close>

lemma report_shows_wrong_line:
  "map (\<lambda>c. (cs_file c, cs_line c)) (snd (debugUnreleasedConns True ''x'' [((''a.c'', 10), True), ((''b.c'', 20), True)] False 20)) =
   [(''b.c'', 20), (''a.c'', 20)]"
  by (simp add: debugUnreleasedConns_def count_conn_def Let_def)

end
