(* ===== verification/ThreadLog.thy ===== *)
theory ThreadLog
  imports Logging
begin

unbundle bit_operations_syntax

text \<open>
  The log of a thread (\<^verbatim>\<open>src/src/tlog.c\<close>): a hash table of logs by thread number, each with a buffer
  of the iobuf library that hands what does not fit to a flush function, and a file that is opened by the
  first flush.
\<close>

section \<open>The table\<close>

record 'b TLog =
  tl_tid :: u32
  tl_fp :: "FILE option"
  tl_iob :: 'b

record 'b TLGlobals =
  tg_consumers :: int
  tg_running :: bool
  tg_entryID :: nat
  tg_hash :: "nat \<Rightarrow> 'b TLog list"
  tg_consumer :: string

definition TL_HASH :: "u32 \<Rightarrow> nat" where
  "TL_HASH tid = unat (tid AND 0x3f)"

definition TLGet :: "u32 \<Rightarrow> 'b TLGlobals \<Rightarrow> 'b TLog option" where
  "TLGet tid g = find (\<lambda>log. tl_tid log = tid) (tg_hash g (TL_HASH tid))"

text \<open>
  The loop of \<^verbatim>\<open>_TLReplace()\<close> over the links of a list: the first log of that thread is replaced or taken out;
  without one the new log is hung on the end.
\<close>

fun replace_in :: "u32 \<Rightarrow> 'b TLog option \<Rightarrow> 'b TLog list \<Rightarrow> 'b TLog option \<times> 'b TLog list" where
  "replace_in tid log [] = (None, case log of Some l \<Rightarrow> [l] | None \<Rightarrow> [])"
| "replace_in tid log (x # xs) =
     (if tl_tid x = tid then (Some x, case log of Some l \<Rightarrow> l # xs | None \<Rightarrow> xs)
      else (case replace_in tid log xs of (old, ys) \<Rightarrow> (old, x # ys)))"

definition TLReplace :: "u32 \<Rightarrow> 'b TLog option \<Rightarrow> 'b TLGlobals \<Rightarrow> 'b TLog option \<times> 'b TLGlobals" where
  "TLReplace self log g =
     (let tid = (case log of Some l \<Rightarrow> tl_tid l | None \<Rightarrow> self);
          h = TL_HASH tid;
          (old, xs) = replace_in tid log (tg_hash g h)
      in (old, g\<lparr>tg_hash := (tg_hash g)(h := xs)\<rparr>))"

section \<open>Operations\<close>

text \<open>
  What the system gives: the thread, a file for \<^verbatim>\<open>"tl-%s/%d.txt"\<close>, the first and the last line of a file,
  memory, and the buffer.  \<open>tb_write\<close> and \<open>tb_flush\<close> also give what the buffer hands to its flush function.
\<close>

record 'b tl_env =
  tv_tid :: u32
  tv_fopen :: "string \<Rightarrow> u32 \<Rightarrow> FILE option"
  tv_opened :: "byte list"
  tv_closed :: "byte list"
  tv_memory :: bool
  tv_iob :: "'b option"
  tb_write :: "byte list \<Rightarrow> 'b \<Rightarrow> byte list \<times> 'b"
  tb_flush :: "'b \<Rightarrow> byte list \<times> 'b"
  tb_used :: "'b \<Rightarrow> byte list"

text \<open>\<open>None\<close>: the stream that could not be opened is used.\<close>

definition TLFlush :: "'b tl_env \<Rightarrow> string \<Rightarrow> byte list \<Rightarrow> 'b TLog \<Rightarrow> 'b TLog option" where
  "TLFlush env consumer data log =
     (let fp = (case tl_fp log of
                  Some f \<Rightarrow> Some f
                | None \<Rightarrow> (case tv_fopen env consumer (tl_tid log) of
                             Some f \<Rightarrow> Some (snd (fwrite (tv_opened env) f))
                           | None \<Rightarrow> None))
      in case fp of
           None \<Rightarrow> None
         | Some f \<Rightarrow> Some (log\<lparr>tl_fp := Some (snd (fwrite data f))\<rparr>))"

text \<open>A buffer calls its flush function only with data.\<close>

definition handed_on :: "'b tl_env \<Rightarrow> string \<Rightarrow> byte list \<Rightarrow> 'b TLog \<Rightarrow> 'b TLog option" where
  "handed_on env consumer data log = (if data = [] then Some log else TLFlush env consumer data log)"

definition put_log :: "'b TLog \<Rightarrow> 'b TLGlobals \<Rightarrow> 'b TLGlobals" where
  "put_log log g = snd (TLReplace (tl_tid log) (Some log) g)"

text \<open>
  \<open>fit\<close> is \<^verbatim>\<open>strprintf()\<close> for an array of some size, \<open>names\<close> the files that match a pattern; the second result is
  what is removed.
\<close>

definition TLogStartup ::
    "(nat \<Rightarrow> string \<Rightarrow> string) \<Rightarrow> (string \<Rightarrow> string list) \<Rightarrow> string \<Rightarrow> 'b TLGlobals \<Rightarrow> int \<times> string list \<times> 'b TLGlobals" where
  "TLogStartup fit names consumer g =
     (let g1 = g\<lparr>tg_consumers := tg_consumers g + 1\<rparr>; c = fit 1024 consumer
      in if tg_consumers g = 0
         then (0, map (\<lambda>d. fit 1024 (''tl-'' @ c @ ''/'' @ d)) (names (fit 1024 (''tl-'' @ c @ ''/tl-*.txt''))),
               g1\<lparr>tg_consumer := c, tg_entryID := 0, tg_hash := (\<lambda>_. []), tg_running := True\<rparr>)
         else (0, [], g1))"

definition TLogShutdown :: int where
  "TLogShutdown = 0"

text \<open>The result is 0 or -1, the state, and the file that was closed.\<close>

definition TLogClose :: "'b tl_env \<Rightarrow> 'b TLGlobals \<Rightarrow> (int \<times> 'b TLGlobals \<times> FILE option) option" where
  "TLogClose env g =
     (if tg_running g then
        (case TLReplace (tv_tid env) None g of
           (Some log, g1) \<Rightarrow>
             do { log1 \<leftarrow> TLFlush env (tg_consumer g1) (tb_used env (tl_iob log)) log;
                  Some (0, g1, map_option (\<lambda>f. snd (fwrite (tv_closed env) f)) (tl_fp log1)) }
         | (None, g1) \<Rightarrow> Some (- 1, g1, None))
      else Some (- 1, g, None))"

definition TLogOpen :: "'b tl_env \<Rightarrow> 'b TLGlobals \<Rightarrow> (int \<times> 'b TLGlobals) option" where
  "TLogOpen env g =
     (if tg_running g then
        do { (_, g1, _) \<leftarrow> TLogClose env g;
             case (tv_memory env, tv_iob env) of
               (True, Some b) \<Rightarrow> Some (0, put_log \<lparr>tl_tid = tv_tid env, tl_fp = None, tl_iob = b\<rparr> g1)
             | _ \<Rightarrow> Some (- 1, g1) }
      else Some (- 1, g))"

text \<open>
  \<open>stamp\<close> is the number of the entry and the times, \<open>text\<close> what \<^verbatim>\<open>vstrprintf()\<close> leaves in the array; the
  character in front of an empty text is not in the array.
\<close>

definition TLogWrite :: "'b tl_env \<Rightarrow> (nat \<Rightarrow> byte list) \<Rightarrow> byte list \<Rightarrow> 'b TLGlobals \<Rightarrow> (int \<times> 'b TLGlobals) option" where
  "TLogWrite env stamp text g =
     (if tg_running g then
        (case TLGet (tv_tid env) g of
           None \<Rightarrow> Some (- 1, g)
         | Some log \<Rightarrow>
             (let g1 = g\<lparr>tg_entryID := tg_entryID g + 1\<rparr>;
                  (d1, b1) = tb_write env (stamp (tg_entryID g1)) (tl_iob log)
              in do { log1 \<leftarrow> handed_on env (tg_consumer g1) d1 (log\<lparr>tl_iob := b1\<rparr>);
                      if text = [] then None
                      else (let line = (if last text \<noteq> 10 then text @ [10] else text);
                                (d2, b2) = tb_write env line (tl_iob log1)
                            in do { log2 \<leftarrow> handed_on env (tg_consumer g1) d2 (log1\<lparr>tl_iob := b2\<rparr>);
                                    Some (0, put_log log2 g1) }) }))
      else Some (- 1, g))"

definition TLogFlush :: "'b tl_env \<Rightarrow> 'b TLGlobals \<Rightarrow> (int \<times> 'b TLGlobals) option" where
  "TLogFlush env g =
     (if tg_running g then
        (case TLGet (tv_tid env) g of
           None \<Rightarrow> Some (- 1, g)
         | Some log \<Rightarrow>
             (case tb_flush env (tl_iob log) of (d, b) \<Rightarrow>
                do { log1 \<leftarrow> handed_on env (tg_consumer g) d (log\<lparr>tl_iob := b\<rparr>); Some (0, put_log log1 g) }))
      else Some (- 1, g))"

section \<open>The table is a map\<close>

definition tl_inv :: "'b TLGlobals \<Rightarrow> bool" where
  "tl_inv g \<longleftrightarrow> (\<forall>h. distinct (map tl_tid (tg_hash g h)) \<and> (\<forall>log \<in> set (tg_hash g h). TL_HASH (tl_tid log) = h))"

lemma replace_in_find:
  assumes "\<And>l. log = Some l \<Longrightarrow> tl_tid l = tid" "distinct (map tl_tid xs)" "replace_in tid log xs = (old, ys)"
  shows "old = find (\<lambda>l. tl_tid l = tid) xs \<and> find (\<lambda>l. tl_tid l = tid) ys = log \<and>
    (\<forall>t. t \<noteq> tid \<longrightarrow> find (\<lambda>l. tl_tid l = t) ys = find (\<lambda>l. tl_tid l = t) xs) \<and>
    distinct (map tl_tid ys) \<and> set (map tl_tid ys) \<subseteq> insert tid (set (map tl_tid xs)) \<and>
    (log = None \<longrightarrow> tid \<notin> set (map tl_tid ys))"
  using assms(2,3)
proof (induction xs arbitrary: ys)
  case Nil
  with assms(1) show ?case by (auto split: option.splits)
next
  case (Cons x xs)
  show ?case
  proof (cases "tl_tid x = tid")
    case True
    then have "find (\<lambda>l. tl_tid l = tid) xs = None" using Cons.prems(1) by (auto simp: find_None_iff intro: rev_image_eqI)
    moreover have "tid \<notin> set (map tl_tid xs)" using True Cons.prems(1) by auto
    ultimately show ?thesis using True Cons.prems assms(1) by (auto split: option.splits)
  next
    case False
    obtain zs where z: "replace_in tid log xs = (old, zs)" "ys = x # zs"
      using Cons.prems(2) False by (auto split: prod.splits)
    from Cons.IH [OF _ z(1)] Cons.prems(1) have z1: "old = find (\<lambda>l. tl_tid l = tid) xs" "find (\<lambda>l. tl_tid l = tid) zs = log"
      "\<forall>t. t \<noteq> tid \<longrightarrow> find (\<lambda>l. tl_tid l = t) zs = find (\<lambda>l. tl_tid l = t) xs" "distinct (map tl_tid zs)"
      "set (map tl_tid zs) \<subseteq> insert tid (set (map tl_tid xs))" "log = None \<longrightarrow> tid \<notin> set (map tl_tid zs)" by simp_all
    have "tl_tid x \<notin> set (map tl_tid zs)" using z1(5) False Cons.prems(1) by auto
    then show ?thesis using z1 z(2) False by auto
  qed
qed

text \<open>
  The hash table is the map from threads to their logs: looking up reads it, replacing updates it at
  the thread and returns what was there, and neither touches the log of another thread.
\<close>

lemma thread_log_map:
  assumes "tl_inv g" "TLReplace self log g = (old, g')"
  shows "old = TLGet (case log of Some l \<Rightarrow> tl_tid l | None \<Rightarrow> self) g \<and>
    (\<lambda>t. TLGet t g') = (\<lambda>t. TLGet t g)((case log of Some l \<Rightarrow> tl_tid l | None \<Rightarrow> self) := log) \<and> tl_inv g'"
proof -
  define tid where "tid = (case log of Some l \<Rightarrow> tl_tid l | None \<Rightarrow> self)"
  define h where "h = TL_HASH tid"
  obtain ys where ys: "replace_in tid log (tg_hash g h) = (old, ys)" "g' = g\<lparr>tg_hash := (tg_hash g)(h := ys)\<rparr>"
    using assms(2) by (auto simp: TLReplace_def tid_def h_def Let_def split_beta prod_eq_iff)
  have d: "distinct (map tl_tid (tg_hash g h))" "\<And>l. log = Some l \<Longrightarrow> tl_tid l = tid"
    using assms(1) by (auto simp: tl_inv_def tid_def)
  note r = replace_in_find [OF d(2,1) ys(1)]
  have old: "old = TLGet tid g" using r by (simp add: TLGet_def h_def)
  have "TLGet t g' = (if t = tid then log else TLGet t g)" for t
    using r ys(2) by (auto simp: TLGet_def h_def)
  then have get: "(\<lambda>t. TLGet t g') = (\<lambda>t. TLGet t g)(tid := log)" by auto
  have hashes: "set (map tl_tid ys) \<subseteq> insert tid (set (map tl_tid (tg_hash g h)))" using r by blast
  have "TL_HASH (tl_tid l) = h" if "l \<in> set ys" for l
  proof -
    from that hashes have "tl_tid l = tid \<or> tl_tid l \<in> set (map tl_tid (tg_hash g h))" by auto
    then show ?thesis using assms(1) by (auto simp: tl_inv_def h_def)
  qed
  then have "tl_inv g'" using assms(1) ys(2) r by (auto simp: tl_inv_def)
  with old get show ?thesis unfolding tid_def by blast
qed

section \<open>What a thread logs\<close>

text \<open>
  What the buffer promises: what it hands on and what it still holds is what it held and what
  was written.
\<close>

definition tl_laws :: "'b tl_env \<Rightarrow> bool" where
  "tl_laws env \<longleftrightarrow> (\<forall>d b. fst (tb_write env d b) @ tb_used env (snd (tb_write env d b)) = tb_used env b @ d) \<and>
     (\<forall>b. fst (tb_flush env b) @ tb_used env (snd (tb_flush env b)) = tb_used env b)"

text \<open>The file as it will be when the buffer is written to it.\<close>

definition tl_stream :: "'b tl_env \<Rightarrow> FILE \<Rightarrow> 'b TLog \<Rightarrow> byte list" where
  "tl_stream env f0 log =
     (case tl_fp log of Some f \<Rightarrow> f_written f | None \<Rightarrow> f_written f0 @ tv_opened env) @ tb_used env (tl_iob log)"

text \<open>The file of the thread can be opened, as \<open>f0\<close>, and takes what is written.\<close>

definition tl_works :: "'b tl_env \<Rightarrow> string \<Rightarrow> FILE \<Rightarrow> 'b TLog \<Rightarrow> bool" where
  "tl_works env consumer f0 log \<longleftrightarrow> tl_tid log = tv_tid env \<and> tv_fopen env consumer (tv_tid env) = Some f0 \<and> f_left f0 = None \<and>
     (\<forall>f. tl_fp log = Some f \<longrightarrow> f_left f = None)"

lemma TLFlush_stream:
  assumes "tl_works env consumer f0 log" "d @ tb_used env (tl_iob log) = tb_used env b @ x"
  shows "\<exists>log'. TLFlush env consumer d log = Some log' \<and> tl_works env consumer f0 log' \<and> tl_iob log' = tl_iob log \<and>
    tl_stream env f0 log' = tl_stream env f0 (log\<lparr>tl_iob := b\<rparr>) @ x"
proof (cases "tl_fp log")
  case None
  with assms show ?thesis by (simp add: TLFlush_def tl_works_def tl_stream_def fwrite_working)
next
  case (Some f)
  with assms show ?thesis by (simp add: TLFlush_def tl_works_def tl_stream_def fwrite_working)
qed

lemma written_stream:
  assumes "tl_laws env" "tl_works env consumer f0 log"
  shows "\<exists>log'. handed_on env consumer (fst (tb_write env d (tl_iob log))) (log\<lparr>tl_iob := snd (tb_write env d (tl_iob log))\<rparr>) = Some log' \<and>
    tl_works env consumer f0 log' \<and> tl_stream env f0 log' = tl_stream env f0 log @ d"
proof -
  let ?r = "tb_write env d (tl_iob log)"
  let ?l = "log\<lparr>tl_iob := snd ?r\<rparr>"
  have w: "tl_works env consumer f0 ?l" using assms(2) by (simp add: tl_works_def)
  have e: "fst ?r @ tb_used env (tl_iob ?l) = tb_used env (tl_iob log) @ d" using assms(1) by (simp add: tl_laws_def)
  show ?thesis
  proof (cases "fst ?r = []")
    case True
    then show ?thesis using w e by (simp add: handed_on_def tl_stream_def)
  next
    case False
    with TLFlush_stream [OF w e] show ?thesis by (auto simp: handed_on_def)
  qed
qed

text \<open>
  An entry goes to the end of the thread's log, with a newline if it has none, and closing the log leaves a
  file with everything that was logged, in order.
\<close>

theorem thread_log_is_complete:
  assumes "tl_laws env" "tl_inv g" "tg_running g" "TLGet (tv_tid env) g = Some log" "tl_works env (tg_consumer g) f0 log" "text \<noteq> []"
  shows "\<exists>g' log'. TLogWrite env stamp text g = Some (0, g') \<and> TLGet (tv_tid env) g' = Some log' \<and> tl_inv g' \<and>
      tl_works env (tg_consumer g') f0 log' \<and> (\<forall>t. t \<noteq> tv_tid env \<longrightarrow> TLGet t g' = TLGet t g) \<and>
      tl_stream env f0 log' = tl_stream env f0 log @ stamp (tg_entryID g + 1) @ (if last text = 10 then text else text @ [10])"
    "\<exists>g' f. TLogClose env g = Some (0, g', Some f) \<and> TLGet (tv_tid env) g' = None \<and>
      f_written f = tl_stream env f0 log @ tv_closed env"
proof -
  let ?g = "g\<lparr>tg_entryID := tg_entryID g + 1\<rparr>"
  let ?line = "if last text \<noteq> 10 then text @ [10] else text"
  obtain l1 where l1: "handed_on env (tg_consumer g) (fst (tb_write env (stamp (tg_entryID g + 1)) (tl_iob log)))
      (log\<lparr>tl_iob := snd (tb_write env (stamp (tg_entryID g + 1)) (tl_iob log))\<rparr>) = Some l1"
      "tl_works env (tg_consumer g) f0 l1" "tl_stream env f0 l1 = tl_stream env f0 log @ stamp (tg_entryID g + 1)"
    using written_stream [OF assms(1,5)] by blast
  obtain l2 where l2: "handed_on env (tg_consumer g) (fst (tb_write env ?line (tl_iob l1)))
      (l1\<lparr>tl_iob := snd (tb_write env ?line (tl_iob l1))\<rparr>) = Some l2"
      "tl_works env (tg_consumer g) f0 l2" "tl_stream env f0 l2 = tl_stream env f0 l1 @ ?line"
    using written_stream [OF assms(1) l1(2)] by blast
  obtain old g' where g': "TLReplace (tl_tid l2) (Some l2) ?g = (old, g')" by (metis surj_pair)
  have t2: "tl_tid l2 = tv_tid env" using l2(2) by (simp add: tl_works_def)
  have inv: "tl_inv ?g" using assms(2) by (simp add: tl_inv_def)
  have get: "TLGet t ?g = TLGet t g" for t by (simp add: TLGet_def)
  note m = thread_log_map [OF inv g']
  have c: "tg_consumer g' = tg_consumer g" using g' by (auto simp: TLReplace_def Let_def split_beta)
  have w: "TLogWrite env stamp text g = Some (0, g')"
    using assms(3,4,6) l1(1) l2(1) g' by (simp add: TLogWrite_def split_beta put_log_def)
  have "(\<lambda>t. TLGet t g') = (\<lambda>t. TLGet t g)(tv_tid env := Some l2)" using m t2 get by simp
  then have "TLGet t g' = (if t = tv_tid env then Some l2 else TLGet t g)" for t by (metis fun_upd_apply)
  with w m c l1(3) l2(2,3) show "\<exists>g' log'. TLogWrite env stamp text g = Some (0, g') \<and> TLGet (tv_tid env) g' = Some log' \<and> tl_inv g' \<and>
      tl_works env (tg_consumer g') f0 log' \<and> (\<forall>t. t \<noteq> tv_tid env \<longrightarrow> TLGet t g' = TLGet t g) \<and>
      tl_stream env f0 log' = tl_stream env f0 log @ stamp (tg_entryID g + 1) @ (if last text = 10 then text else text @ [10])"
    by (intro exI [of _ g'] exI [of _ l2]) auto
  obtain old2 g2 where g2: "TLReplace (tv_tid env) None g = (old2, g2)" by (metis surj_pair)
  note m2 = thread_log_map [OF assms(2) g2]
  have o2: "old2 = Some log" "TLGet (tv_tid env) g2 = None" using m2 assms(4) by (simp, metis fun_upd_same option.case(1))
  have c2: "tg_consumer g2 = tg_consumer g" using g2 by (auto simp: TLReplace_def Let_def split_beta)
  let ?u = "tb_used env (tl_iob log)"
  show "\<exists>g' f. TLogClose env g = Some (0, g', Some f) \<and> TLGet (tv_tid env) g' = None \<and>
      f_written f = tl_stream env f0 log @ tv_closed env"
    using assms(3,5) g2 o2 c2
    by (cases "tl_fp log") (auto simp: TLogClose_def TLFlush_def tl_works_def tl_stream_def fwrite_working)
qed

text \<open>
  When a flush cannot open its file the null stream is used; and the character in front of an empty text
  is read.
\<close>

lemma flush_without_file_faults:
  assumes "tl_fp log = None" "tv_fopen env consumer (tl_tid log) = None"
  shows "TLFlush env consumer data log = None"
  using assms by (simp add: TLFlush_def)

lemma empty_entry_faults:
  assumes "tg_running g" "TLGet (tv_tid env) g = Some log"
  shows "TLogWrite env stamp [] g = None"
  using assms by (auto simp: TLogWrite_def Let_def split_beta split: bind_splits)

end
