(* ===== verification/WinFactory.thy ===== *)
theory WinFactory
  imports Prelude "HOL-Library.Multiset"
begin

text \<open>
  The socket factory of the Windows build (\<^verbatim>\<open>src/src/sockwin.c\<close>): one thread creates the sockets for all others,
  which ask with one semaphore and are answered with another.  Threads are interleavings of their
  steps between two waits or locked sections.
\<close>

section \<open>The factory\<close>

datatype SocFactoryState =
    SOC_FACTORY_STOPPED | SOC_FACTORY_STOPPING_FACTORY_THREAD | SOC_FACTORY_STOPPING_REQUEST_THREADS | SOC_FACTORY_RUNNING

abbreviation (input) SOC_FACTORY_CONCURRENCY_LIMIT :: nat where "SOC_FACTORY_CONCURRENCY_LIMIT \<equiv> 5"
abbreviation (input) SOCKET_INVALID :: int where "SOCKET_INVALID \<equiv> - 1"

record SocFactory =
  sf_createSem :: nat
  sf_pickupSem :: nat
  sf_requests :: int
  sf_slot :: int
  sf_lastErr :: errno
  sf_state :: SocFactoryState
  sf_list :: "int list"

definition socFactoryInit :: "SocFactory \<Rightarrow> SocFactory" where
  "socFactoryInit f =
     f\<lparr>sf_lastErr := 0, sf_state := SOC_FACTORY_STOPPED, sf_requests := 0, sf_slot := - 1,
       sf_list := replicate SOC_FACTORY_CONCURRENCY_LIMIT SOCKET_INVALID\<rparr>"

text \<open>The locked sections of the factory thread: storing a socket, and closing what is stored.\<close>

definition factory_store :: "int \<Rightarrow> SocFactory \<Rightarrow> bool \<times> SocFactory" where
  "factory_store soc f =
     (if sf_slot f + 1 < int SOC_FACTORY_CONCURRENCY_LIMIT
      then (True, f\<lparr>sf_slot := sf_slot f + 1, sf_list := (sf_list f)[nat (sf_slot f + 1) := soc]\<rparr>)
      else (False, f))"

function close_slots :: "SocFactory \<Rightarrow> int list \<times> SocFactory" where
  "close_slots f =
     (if sf_slot f > - 1 then
        (let k = nat (sf_slot f);
             (cs, g) = close_slots (f\<lparr>sf_list := (sf_list f)[k := SOCKET_INVALID], sf_slot := sf_slot f - 1\<rparr>)
         in (sf_list f ! k # cs, g))
      else ([], f))"
  by pat_completeness auto
termination
  by (relation "measure (\<lambda>f. nat (sf_slot f + 1))") auto

declare close_slots.simps [simp del]

text \<open>The locked sections of \<^verbatim>\<open>socCreate()\<close>: the request, and picking up.\<close>

definition soc_request :: "SocFactory \<Rightarrow> bool \<times> SocFactory" where
  "soc_request f =
     (if sf_state f = SOC_FACTORY_RUNNING then (True, f\<lparr>sf_requests := sf_requests f + 1\<rparr>) else (False, f))"

definition soc_pickup :: "SocFactory \<Rightarrow> int \<times> SocFactory" where
  "soc_pickup f =
     (if sf_slot f > - 1
      then (sf_list f ! nat (sf_slot f),
            f\<lparr>sf_list := (sf_list f)[nat (sf_slot f) := SOCKET_INVALID], sf_slot := sf_slot f - 1,
              sf_requests := sf_requests f - 1\<rparr>)
      else (SOCKET_INVALID, f\<lparr>sf_requests := sf_requests f - 1\<rparr>))"

definition factory_started :: "SocFactory \<Rightarrow> SocFactory" where
  "factory_started f = f\<lparr>sf_createSem := 0, sf_pickupSem := 0, sf_state := SOC_FACTORY_RUNNING\<rparr>"

definition factory_stopping :: "SocFactory \<Rightarrow> SocFactory" where
  "factory_stopping f =
     f\<lparr>sf_state := SOC_FACTORY_STOPPING_FACTORY_THREAD, sf_createSem := sf_createSem f + 1\<rparr>"

section \<open>Threads\<close>

text \<open>
  The test behind the wait of the factory thread, \<^verbatim>\<open>!SocFactory.state == SOC_FACTORY_RUNNING\<close>, negates the number of the
  state before it compares: it is never true.
\<close>

fun state_number :: "SocFactoryState \<Rightarrow> int" where
  "state_number SOC_FACTORY_STOPPED = 0"
| "state_number SOC_FACTORY_STOPPING_FACTORY_THREAD = 1"
| "state_number SOC_FACTORY_STOPPING_REQUEST_THREADS = 2"
| "state_number SOC_FACTORY_RUNNING = 3"

definition stop_test :: "SocFactoryState \<Rightarrow> bool" where
  "stop_test st \<longleftrightarrow> (if state_number st = 0 then 1 else 0) = state_number SOC_FACTORY_RUNNING"

lemma stop_test_never [simp]: "\<not> stop_test st"
  by (simp add: stop_test_def)

text \<open>Where the factory thread is, and where a thread in \<^verbatim>\<open>socCreate()\<close> is.\<close>

datatype factory_pc = F_TEST | F_WAIT | F_MAKE | F_STORE | F_POST | F_CLEAN | F_LEAVE | F_GONE
datatype request_pc = R_POST | R_WAIT | R_PICKUP

text \<open>
  \<open>sy_created\<close>, \<open>sy_given\<close> and \<open>sy_closed\<close> record the sockets the factory made, handed out and closed.
\<close>

record soc_system =
  sy_fac :: SocFactory
  sy_pc :: factory_pc
  sy_soc :: int
  sy_reqs :: "request_pc multiset"
  sy_created :: "int multiset"
  sy_given :: "int multiset"
  sy_closed :: "int multiset"

definition held :: "int \<Rightarrow> int multiset" where
  "held soc = (if soc = SOCKET_INVALID then {#} else {#soc#})"

definition on_fac :: "(SocFactory \<Rightarrow> SocFactory) \<Rightarrow> soc_system \<Rightarrow> soc_system" where
  "on_fac f y = y\<lparr>sy_fac := f (sy_fac y)\<rparr>"

definition post_create :: "SocFactory \<Rightarrow> SocFactory" where
  "post_create f = f\<lparr>sf_createSem := sf_createSem f + 1\<rparr>"

definition post_pickup :: "SocFactory \<Rightarrow> SocFactory" where
  "post_pickup f = f\<lparr>sf_pickupSem := sf_pickupSem f + 1\<rparr>"

text \<open>The steps of \<^verbatim>\<open>socFactoryThread()\<close>; \<open>answer\<close> is what \<^verbatim>\<open>XplIpSocket()\<close> gives.\<close>

definition factory_step :: "errno + int \<Rightarrow> soc_system \<Rightarrow> soc_system option" where
  "factory_step answer y =
     (case sy_pc y of
        F_TEST \<Rightarrow> Some (y\<lparr>sy_pc := (if sf_state (sy_fac y) = SOC_FACTORY_RUNNING then F_WAIT else F_CLEAN)\<rparr>)
      | F_WAIT \<Rightarrow>
          if sf_createSem (sy_fac y) > 0
          then Some (on_fac (\<lambda>f. f\<lparr>sf_createSem := sf_createSem f - 1\<rparr>) y
                      \<lparr>sy_pc := (if stop_test (sf_state (sy_fac y)) then F_CLEAN else F_MAKE)\<rparr>) else None
      | F_MAKE \<Rightarrow>
          if sy_soc y = SOCKET_INVALID then
            (case answer of
               Inl e \<Rightarrow> Some (on_fac (\<lambda>f. post_pickup (f\<lparr>sf_lastErr := e\<rparr>)) y\<lparr>sy_pc := F_TEST\<rparr>)
             | Inr s \<Rightarrow> Some (y\<lparr>sy_soc := s, sy_created := add_mset s (sy_created y), sy_pc := F_STORE\<rparr>))
          else Some (y\<lparr>sy_pc := F_STORE\<rparr>)
      | F_STORE \<Rightarrow>
          (case factory_store (sy_soc y) (sy_fac y) of
             (True, f) \<Rightarrow> Some (y\<lparr>sy_fac := f, sy_soc := SOCKET_INVALID, sy_pc := F_POST\<rparr>)
           | (False, f) \<Rightarrow> Some (y\<lparr>sy_fac := post_create f, sy_pc := F_TEST\<rparr>))
      | F_POST \<Rightarrow> Some (on_fac post_pickup y\<lparr>sy_pc := F_TEST\<rparr>)
      | F_CLEAN \<Rightarrow>
          (case close_slots (sy_fac y) of
             (cs, f) \<Rightarrow> Some (y\<lparr>sy_fac := f, sy_soc := SOCKET_INVALID, sy_closed := sy_closed y + held (sy_soc y) + mset cs,
                             sy_pc := F_LEAVE\<rparr>))
      | F_LEAVE \<Rightarrow> Some (on_fac (\<lambda>f. f\<lparr>sf_state := SOC_FACTORY_STOPPING_REQUEST_THREADS\<rparr>) y\<lparr>sy_pc := F_GONE\<rparr>)
      | F_GONE \<Rightarrow> None)"

text \<open>The steps of a thread in \<^verbatim>\<open>socCreate( FALSE )\<close>.\<close>

definition request_begin :: "soc_system \<Rightarrow> soc_system" where
  "request_begin y =
     (case soc_request (sy_fac y) of
        (True, f) \<Rightarrow> y\<lparr>sy_fac := f, sy_reqs := add_mset R_POST (sy_reqs y)\<rparr>
      | (False, f) \<Rightarrow> y\<lparr>sy_fac := f\<rparr>)"

definition request_step :: "request_pc \<Rightarrow> soc_system \<Rightarrow> soc_system option" where
  "request_step pc y =
     (if pc \<in># sy_reqs y then
        (let rest = sy_reqs y - {#pc#}
         in case pc of
              R_POST \<Rightarrow> Some (on_fac post_create y\<lparr>sy_reqs := add_mset R_WAIT rest\<rparr>)
            | R_WAIT \<Rightarrow>
                if sf_pickupSem (sy_fac y) > 0
                then Some (on_fac (\<lambda>f. f\<lparr>sf_pickupSem := sf_pickupSem f - 1\<rparr>) y\<lparr>sy_reqs := add_mset R_PICKUP rest\<rparr>)
                else None
            | R_PICKUP \<Rightarrow>
                (case soc_pickup (sy_fac y) of
                   (s, f) \<Rightarrow> Some (y\<lparr>sy_fac := f, sy_given := sy_given y + held s, sy_reqs := rest\<rparr>)))
      else None)"

text \<open>\<^verbatim>\<open>socFactoryStart()\<close>, the locked section of \<^verbatim>\<open>socFactoryStop()\<close>, its loop that wakes the waiting threads, and its end.\<close>

definition factory_start :: "soc_system \<Rightarrow> soc_system option" where
  "factory_start y =
     (if sf_state (sy_fac y) = SOC_FACTORY_STOPPED
      then Some (on_fac factory_started y\<lparr>sy_pc := F_TEST, sy_soc := SOCKET_INVALID\<rparr>) else None)"

definition factory_stop :: "soc_system \<Rightarrow> soc_system option" where
  "factory_stop y =
     (if sf_state (sy_fac y) = SOC_FACTORY_RUNNING then Some (on_fac factory_stopping y) else None)"

definition stop_wake :: "soc_system \<Rightarrow> soc_system option" where
  "stop_wake y =
     (if sf_state (sy_fac y) = SOC_FACTORY_STOPPING_REQUEST_THREADS \<and> sf_pickupSem (sy_fac y) < count (sy_reqs y) R_WAIT
      then Some (on_fac post_pickup y) else None)"

definition stop_end :: "soc_system \<Rightarrow> soc_system option" where
  "stop_end y =
     (if sf_state (sy_fac y) = SOC_FACTORY_STOPPING_REQUEST_THREADS \<and> sf_requests (sy_fac y) < 1
      then Some (on_fac (\<lambda>f. f\<lparr>sf_state := SOC_FACTORY_STOPPED\<rparr>) y) else None)"

text \<open>Any interleaving, from a factory that has been initialised and not started.\<close>

inductive soc_run :: "soc_system \<Rightarrow> bool" where
  init: "soc_run \<lparr>sy_fac = socFactoryInit f, sy_pc = F_GONE, sy_soc = SOCKET_INVALID, sy_reqs = {#},
     sy_created = {#}, sy_given = {#}, sy_closed = {#}\<rparr>"
| factory: "soc_run y \<Longrightarrow> (\<And>s. answer = Inr s \<Longrightarrow> s \<noteq> SOCKET_INVALID) \<Longrightarrow> factory_step answer y = Some z \<Longrightarrow> soc_run z"
| asks: "soc_run y \<Longrightarrow> soc_run (request_begin y)"
| request: "soc_run y \<Longrightarrow> request_step pc y = Some z \<Longrightarrow> soc_run z"
| start: "soc_run y \<Longrightarrow> factory_start y = Some z \<Longrightarrow> soc_run z"
| stop: "soc_run y \<Longrightarrow> factory_stop y = Some z \<Longrightarrow> soc_run z"
| wake: "soc_run y \<Longrightarrow> stop_wake y = Some z \<Longrightarrow> soc_run z"
| finish: "soc_run y \<Longrightarrow> stop_end y = Some z \<Longrightarrow> soc_run z"

section \<open>The invariant\<close>

definition stored :: "SocFactory \<Rightarrow> int list" where
  "stored f = take (nat (sf_slot f + 1)) (sf_list f)"

definition fac_ok :: "SocFactory \<Rightarrow> bool" where
  "fac_ok f \<longleftrightarrow> length (sf_list f) = 5 \<and> - 1 \<le> sf_slot f \<and> sf_slot f \<le> 4 \<and> SOCKET_INVALID \<notin> set (stored f)"

text \<open>No socket is lost: the places it can be.\<close>

definition conserved :: "soc_system \<Rightarrow> bool" where
  "conserved y \<longleftrightarrow> sy_created y = held (sy_soc y) + mset (stored (sy_fac y)) + sy_given y + sy_closed y"

text \<open>What the place of the factory thread says.\<close>

definition pc_ok :: "soc_system \<Rightarrow> bool" where
  "pc_ok y \<longleftrightarrow>
     (sy_pc y = F_STORE \<longrightarrow> sy_soc y \<noteq> SOCKET_INVALID) \<and>
     (sy_pc y \<in> {F_POST, F_LEAVE, F_GONE} \<longrightarrow> sy_soc y = SOCKET_INVALID) \<and>
     (sy_pc y \<in> {F_LEAVE, F_GONE} \<longrightarrow> sf_slot (sy_fac y) = - 1) \<and>
     (sy_pc y = F_GONE \<longleftrightarrow> sf_state (sy_fac y) \<in> {SOC_FACTORY_STOPPED, SOC_FACTORY_STOPPING_REQUEST_THREADS}) \<and>
     (sy_pc y \<in> {F_CLEAN, F_LEAVE} \<longrightarrow> sf_state (sy_fac y) \<noteq> SOC_FACTORY_RUNNING)"

definition reqs_ok :: "soc_system \<Rightarrow> bool" where
  "reqs_ok y \<longleftrightarrow> sf_requests (sy_fac y) = int (size (sy_reqs y)) \<and>
     (sf_state (sy_fac y) = SOC_FACTORY_STOPPED \<longrightarrow> sy_reqs y = {#}) \<and>
     (sf_state (sy_fac y) = SOC_FACTORY_STOPPING_FACTORY_THREAD \<and> sy_pc y = F_WAIT \<longrightarrow> sf_createSem (sy_fac y) > 0)"

text \<open>While the factory runs, every thread that waits has a token: in a semaphore, or in the hands of the factory.\<close>

definition busy :: "soc_system \<Rightarrow> nat" where
  "busy y = (if sy_pc y \<in> {F_MAKE, F_STORE, F_POST} then 1 else 0)"

definition posting :: "soc_system \<Rightarrow> nat" where
  "posting y = (if sy_pc y = F_POST then 1 else 0)"

definition tokens_ok :: "soc_system \<Rightarrow> bool" where
  "tokens_ok y \<longleftrightarrow> sf_state (sy_fac y) = SOC_FACTORY_RUNNING \<longrightarrow>
     count (sy_reqs y) R_WAIT = sf_createSem (sy_fac y) + sf_pickupSem (sy_fac y) + busy y \<and>
     nat (sf_slot (sy_fac y) + 1) \<le> sf_pickupSem (sy_fac y) + posting y + count (sy_reqs y) R_PICKUP \<and>
     (sy_soc y \<noteq> SOCKET_INVALID \<longrightarrow> sy_pc y \<in> {F_MAKE, F_STORE} \<or> sf_createSem (sy_fac y) > 0)"

definition soc_inv :: "soc_system \<Rightarrow> bool" where
  "soc_inv y \<longleftrightarrow> fac_ok (sy_fac y) \<and> conserved y \<and> pc_ok y \<and> reqs_ok y \<and> tokens_ok y"

lemma store_stored:
  assumes "fac_ok f" "factory_store soc f = (True, g)" "soc \<noteq> SOCKET_INVALID"
  shows "fac_ok g \<and> stored g = stored f @ [soc]"
proof -
  let ?k = "nat (sf_slot f + 1)"
  from assms have g: "sf_slot f + 1 < 5" "g = f\<lparr>sf_slot := sf_slot f + 1, sf_list := (sf_list f)[?k := soc]\<rparr>"
    by (auto simp: factory_store_def split: if_splits)
  have k: "?k < length (sf_list f)" "nat (2 + sf_slot f) = Suc ?k" using assms(1) g(1) by (auto simp: fac_ok_def)
  have "take (Suc ?k) ((sf_list f)[?k := soc]) = take ?k (sf_list f) @ [soc]"
    using k(1) by (simp add: take_Suc_conv_app_nth)
  then have "stored g = stored f @ [soc]" using g(2) k(2) by (simp add: stored_def)
  with assms(1,3) g show ?thesis by (auto simp: fac_ok_def)
qed

lemma stored_last:
  assumes "fac_ok f" "sf_slot f > - 1"
  shows "stored f = stored (f\<lparr>sf_list := (sf_list f)[nat (sf_slot f) := x], sf_slot := sf_slot f - 1\<rparr>) @ [sf_list f ! nat (sf_slot f)]"
proof -
  let ?k = "nat (sf_slot f)"
  have k: "?k < length (sf_list f)" "nat (sf_slot f + 1) = Suc ?k" using assms by (auto simp: fac_ok_def)
  then show ?thesis by (simp add: stored_def take_Suc_conv_app_nth)
qed

lemma drop_slot_ok:
  assumes "fac_ok f" "sf_slot f > - 1"
  shows "fac_ok (f\<lparr>sf_list := (sf_list f)[nat (sf_slot f) := x], sf_slot := sf_slot f - 1\<rparr>)"
proof -
  have "SOCKET_INVALID \<notin> set (stored f)" using assms(1) by (simp add: fac_ok_def)
  with assms show ?thesis unfolding stored_last [OF assms, of x] by (auto simp: fac_ok_def)
qed

lemma close_slots_all:
  assumes "fac_ok f" "close_slots f = (cs, g)"
  shows "cs = rev (stored f) \<and> fac_ok g \<and> sf_slot g = - 1 \<and> sf_state g = sf_state f \<and> sf_requests g = sf_requests f \<and>
    sf_createSem g = sf_createSem f \<and> sf_pickupSem g = sf_pickupSem f"
  using assms
proof (induction f arbitrary: cs g rule: close_slots.induct)
  case (1 f)
  show ?case
  proof (cases "sf_slot f > - 1")
    case True
    let ?f = "f\<lparr>sf_list := (sf_list f)[nat (sf_slot f) := SOCKET_INVALID], sf_slot := sf_slot f - 1\<rparr>"
    obtain ds h where d: "close_slots ?f = (ds, h)" by (metis surj_pair)
    have e: "cs = sf_list f ! nat (sf_slot f) # ds" "g = h"
      using "1.prems"(2) True d by (auto simp: close_slots.simps [of f] Let_def)
    note r = "1.IH" [OF True refl drop_slot_ok [OF "1.prems"(1) True] d]
    show ?thesis unfolding stored_last [OF "1.prems"(1) True, of SOCKET_INVALID] using r e by simp
  next
    case False
    then have "sf_slot f = - 1" using "1.prems"(1) by (simp add: fac_ok_def)
    with "1.prems" show ?thesis by (simp add: close_slots.simps [of f] stored_def)
  qed
qed

lemma pickup_stored:
  assumes "fac_ok f" "soc_pickup f = (s, g)"
  shows "fac_ok g \<and> mset (stored f) = held s + mset (stored g) \<and> sf_requests g = sf_requests f - 1 \<and> sf_state g = sf_state f \<and>
    sf_createSem g = sf_createSem f \<and> sf_pickupSem g = sf_pickupSem f \<and>
    nat (sf_slot g + 1) = nat (sf_slot f + 1) - 1 \<and> (sf_slot f = - 1 \<longrightarrow> sf_slot g = - 1)"
proof (cases "sf_slot f > - 1")
  case True
  let ?s = "sf_list f ! nat (sf_slot f)"
  let ?f = "f\<lparr>sf_list := (sf_list f)[nat (sf_slot f) := SOCKET_INVALID], sf_slot := sf_slot f - 1\<rparr>"
  have g: "s = ?s" "g = ?f\<lparr>sf_requests := sf_requests f - 1\<rparr>" using assms(2) True by (auto simp: soc_pickup_def)
  have st: "stored g = stored ?f" "fac_ok g = fac_ok ?f" using g(2) by (simp_all add: stored_def fac_ok_def)
  have "?s \<noteq> SOCKET_INVALID" using stored_last [OF assms(1) True, of SOCKET_INVALID] assms(1) by (auto simp: fac_ok_def)
  then have "mset (stored f) = held s + mset (stored g)"
    unfolding st stored_last [OF assms(1) True, of SOCKET_INVALID] by (simp add: held_def g(1))
  with drop_slot_ok [OF assms(1) True, of SOCKET_INVALID] st g(2) True show ?thesis by auto
next
  case False
  then have "sf_slot f = - 1" using assms(1) by (simp add: fac_ok_def)
  with assms False show ?thesis by (auto simp: soc_pickup_def fac_ok_def stored_def held_def)
qed

lemmas inv_defs = soc_inv_def conserved_def pc_ok_def reqs_ok_def tokens_ok_def

lemma fac_ok_frame [simp]:
  "fac_ok (f\<lparr>sf_createSem := n\<rparr>) = fac_ok f" "fac_ok (f\<lparr>sf_pickupSem := n\<rparr>) = fac_ok f"
  "fac_ok (f\<lparr>sf_state := st\<rparr>) = fac_ok f" "fac_ok (f\<lparr>sf_lastErr := e\<rparr>) = fac_ok f" "fac_ok (f\<lparr>sf_requests := r\<rparr>) = fac_ok f"
  "stored (f\<lparr>sf_createSem := n\<rparr>) = stored f" "stored (f\<lparr>sf_pickupSem := n\<rparr>) = stored f"
  "stored (f\<lparr>sf_state := st\<rparr>) = stored f" "stored (f\<lparr>sf_lastErr := e\<rparr>) = stored f" "stored (f\<lparr>sf_requests := r\<rparr>) = stored f"
  by (simp_all add: fac_ok_def stored_def)

lemma held_invalid [simp]: "held SOCKET_INVALID = {#}"
  by (simp add: held_def)

lemma factory_step_inv:
  assumes "soc_inv y" "\<And>s. answer = Inr s \<Longrightarrow> s \<noteq> SOCKET_INVALID" "factory_step answer y = Some z"
  shows "soc_inv z"
proof -
  have i: "fac_ok (sy_fac y)" "conserved y" "pc_ok y" "reqs_ok y" "tokens_ok y" using assms(1) by (simp_all add: soc_inv_def)
  show ?thesis
  proof (cases "sy_pc y")
    case F_TEST
    define next_pc where "next_pc = (if sf_state (sy_fac y) = SOC_FACTORY_RUNNING then F_WAIT else F_CLEAN)"
    have z: "z = y\<lparr>sy_pc := next_pc\<rparr>" using assms(3) F_TEST by (simp add: factory_step_def next_pc_def)
    show ?thesis
    proof (cases "sf_state (sy_fac y) = SOC_FACTORY_RUNNING")
      case True
      with i F_TEST have "pc_ok z" "tokens_ok z" "reqs_ok z"
        unfolding z by (simp_all add: next_pc_def pc_ok_def tokens_ok_def reqs_ok_def busy_def posting_def)
      with i(1,2) show ?thesis unfolding z by (simp add: soc_inv_def conserved_def)
    next
      case False
      with i F_TEST have "pc_ok z" "tokens_ok z" "reqs_ok z"
        unfolding z by (simp_all add: next_pc_def pc_ok_def tokens_ok_def reqs_ok_def)
      with i(1,2) show ?thesis unfolding z by (simp add: soc_inv_def conserved_def)
    qed
  next
    case F_WAIT
    then have z: "z = on_fac (\<lambda>f. f\<lparr>sf_createSem := sf_createSem f - 1\<rparr>) y\<lparr>sy_pc := F_MAKE\<rparr>" and c: "sf_createSem (sy_fac y) > 0"
      using assms(3) by (simp_all add: factory_step_def split: if_splits)
    have "pc_ok z" "tokens_ok z" "reqs_ok z"
      using i F_WAIT c unfolding z by (simp_all add: on_fac_def pc_ok_def tokens_ok_def reqs_ok_def busy_def posting_def)
    with i(1,2) show ?thesis unfolding z by (simp add: soc_inv_def conserved_def on_fac_def)
  next
    case F_MAKE
    show ?thesis
    proof (cases "sy_soc y = SOCKET_INVALID")
      case True
      show ?thesis
      proof (cases answer)
        case (Inl e)
        then have z: "z = on_fac (\<lambda>f. post_pickup (f\<lparr>sf_lastErr := e\<rparr>)) y\<lparr>sy_pc := F_TEST\<rparr>"
          using assms(3) True F_MAKE by (simp add: factory_step_def)
        show ?thesis using assms(1) True F_MAKE unfolding z
          by (simp add: inv_defs busy_def posting_def on_fac_def post_pickup_def) linarith
      next
        case (Inr s)
        then have z: "z = y\<lparr>sy_soc := s, sy_created := add_mset s (sy_created y), sy_pc := F_STORE\<rparr>" and s: "s \<noteq> SOCKET_INVALID"
          using assms(2,3) True F_MAKE by (simp_all add: factory_step_def)
        show ?thesis using assms(1) True F_MAKE s unfolding z by (simp add: inv_defs busy_def posting_def held_def)
      qed
    next
      case False
      then have z: "z = y\<lparr>sy_pc := F_STORE\<rparr>" using assms(3) F_MAKE by (simp add: factory_step_def)
      show ?thesis using assms(1) False F_MAKE unfolding z by (simp add: inv_defs busy_def posting_def)
    qed
  next
    case F_STORE
    then have soc: "sy_soc y \<noteq> SOCKET_INVALID" and ok: "fac_ok (sy_fac y)" using assms(1) by (auto simp: inv_defs)
    obtain b f where b: "factory_store (sy_soc y) (sy_fac y) = (b, f)" by (metis surj_pair)
    show ?thesis
    proof (cases b)
      case True
      have b': "factory_store (sy_soc y) (sy_fac y) = (True, f)" using b True by simp
      note st = store_stored [OF ok b' soc]
      have f: "sf_slot f = sf_slot (sy_fac y) + 1" "sf_state f = sf_state (sy_fac y)" "sf_requests f = sf_requests (sy_fac y)"
        "sf_createSem f = sf_createSem (sy_fac y)" "sf_pickupSem f = sf_pickupSem (sy_fac y)"
        using b True by (auto simp: factory_store_def split: if_splits)
      have z: "z = y\<lparr>sy_fac := f, sy_soc := SOCKET_INVALID, sy_pc := F_POST\<rparr>"
        using assms(3) F_STORE b True by (simp add: factory_step_def)
      have "- 1 \<le> sf_slot (sy_fac y)" using ok by (simp add: fac_ok_def)
      then have "nat (sf_slot (sy_fac y) + 2) = Suc (nat (sf_slot (sy_fac y) + 1))" by simp
      then show ?thesis using assms(1) st f F_STORE soc unfolding z by (auto simp: inv_defs busy_def posting_def held_def)
    next
      case False
      then have "f = sy_fac y" using b by (auto simp: factory_store_def split: if_splits)
      then have "z = y\<lparr>sy_fac := post_create (sy_fac y), sy_pc := F_TEST\<rparr>"
        using assms(3) F_STORE b False by (simp add: factory_step_def)
      then show ?thesis using assms(1) F_STORE by (auto simp: inv_defs busy_def posting_def post_create_def)
    qed
  next
    case F_POST
    then have z: "z = on_fac post_pickup y\<lparr>sy_pc := F_TEST\<rparr>" using assms(3) by (simp add: factory_step_def)
    have "pc_ok z" "tokens_ok z" "reqs_ok z"
      using i F_POST unfolding z by (simp_all add: on_fac_def post_pickup_def pc_ok_def tokens_ok_def reqs_ok_def busy_def posting_def)
    with i(1,2) show ?thesis unfolding z by (simp add: soc_inv_def conserved_def on_fac_def post_pickup_def)
  next
    case F_CLEAN
    obtain cs f where c: "close_slots (sy_fac y) = (cs, f)" by (metis surj_pair)
    have ok: "fac_ok (sy_fac y)" using assms(1) by (simp add: inv_defs)
    note r = close_slots_all [OF ok c]
    have z: "z = y\<lparr>sy_fac := f, sy_soc := SOCKET_INVALID, sy_closed := sy_closed y + held (sy_soc y) + mset cs, sy_pc := F_LEAVE\<rparr>"
      using assms(3) F_CLEAN c by (simp add: factory_step_def)
    have "stored f = []" using r by (simp add: stored_def)
    then show ?thesis using assms(1) r F_CLEAN unfolding z by (auto simp: inv_defs)
  next
    case F_LEAVE
    then have z: "z = on_fac (\<lambda>f. f\<lparr>sf_state := SOC_FACTORY_STOPPING_REQUEST_THREADS\<rparr>) y\<lparr>sy_pc := F_GONE\<rparr>"
      using assms(3) by (simp add: factory_step_def)
    have "pc_ok z" "tokens_ok z" "reqs_ok z"
      using i F_LEAVE unfolding z by (simp_all add: on_fac_def pc_ok_def tokens_ok_def reqs_ok_def)
    with i(1,2) show ?thesis unfolding z by (simp add: soc_inv_def conserved_def on_fac_def)
  next
    case F_GONE
    with assms show ?thesis by (simp add: factory_step_def)
  qed
qed

lemma busy_frame [simp]:
  "busy (y\<lparr>sy_fac := f\<rparr>) = busy y" "busy (y\<lparr>sy_reqs := r\<rparr>) = busy y" "busy (y\<lparr>sy_given := g\<rparr>) = busy y"
  "posting (y\<lparr>sy_fac := f\<rparr>) = posting y" "posting (y\<lparr>sy_reqs := r\<rparr>) = posting y" "posting (y\<lparr>sy_given := g\<rparr>) = posting y"
  by (simp_all add: busy_def posting_def)

lemma request_begin_inv:
  assumes "soc_inv y"
  shows "soc_inv (request_begin y)"
proof (cases "sf_state (sy_fac y) = SOC_FACTORY_RUNNING")
  case True
  then have z: "request_begin y = y\<lparr>sy_fac := (sy_fac y)\<lparr>sf_requests := sf_requests (sy_fac y) + 1\<rparr>, sy_reqs := add_mset R_POST (sy_reqs y)\<rparr>"
    by (simp add: request_begin_def soc_request_def)
  show ?thesis using assms True unfolding z by (simp add: inv_defs busy_def)
next
  case False
  then have "request_begin y = y" by (simp add: request_begin_def soc_request_def)
  then show ?thesis using assms by simp
qed

lemma request_step_inv:
  assumes "soc_inv y" "request_step pc y = Some z"
  shows "soc_inv z"
proof -
  have pc: "pc \<in># sy_reqs y" using assms(2) by (simp add: request_step_def split: if_splits)
  define rest where "rest = sy_reqs y - {#pc#}"
  have reqs: "sy_reqs y = add_mset pc rest" using pc by (simp add: rest_def)
  have "reqs_ok y" using assms(1) by (simp add: soc_inv_def)
  then have run: "sf_state (sy_fac y) \<noteq> SOC_FACTORY_STOPPED" using pc by (auto simp: reqs_ok_def)
  show ?thesis
  proof (cases pc)
    case R_POST
    then have "z = on_fac post_create y\<lparr>sy_reqs := add_mset R_WAIT rest\<rparr>"
      using assms(2) pc by (simp add: request_step_def rest_def Let_def)
    then show ?thesis using assms(1) run reqs R_POST by (simp add: inv_defs on_fac_def post_create_def)
  next
    case R_WAIT
    then have z: "z = on_fac (\<lambda>f. f\<lparr>sf_pickupSem := sf_pickupSem f - 1\<rparr>) y\<lparr>sy_reqs := add_mset R_PICKUP rest\<rparr>"
      and p: "sf_pickupSem (sy_fac y) > 0"
      using assms(2) pc by (simp_all add: request_step_def rest_def Let_def split: if_splits)
    show ?thesis using assms(1) run reqs R_WAIT p unfolding z by (simp add: inv_defs on_fac_def) linarith
  next
    case R_PICKUP
    obtain s f where f: "soc_pickup (sy_fac y) = (s, f)" by (metis surj_pair)
    have z: "z = y\<lparr>sy_fac := f, sy_given := sy_given y + held s, sy_reqs := rest\<rparr>"
      using assms(2) pc f R_PICKUP by (simp add: request_step_def rest_def Let_def)
      have i: "fac_ok (sy_fac y)" "conserved y" "pc_ok y" "reqs_ok y" "tokens_ok y" using assms(1) by (simp_all add: soc_inv_def)
    note r = pickup_stored [OF i(1) f]
    have "conserved z" using i(2) r unfolding z by (simp add: conserved_def)
    moreover have "pc_ok z" using i(3) r unfolding z by (simp add: pc_ok_def)
    moreover have "reqs_ok z" using i(4) r run reqs unfolding z by (simp add: reqs_ok_def)
    moreover have "tokens_ok z"
    proof -
      have "nat (sf_slot f + 1) \<le> sf_pickupSem (sy_fac y) + posting y + count rest R_PICKUP"
        if "nat (sf_slot (sy_fac y) + 1) \<le> sf_pickupSem (sy_fac y) + posting y + Suc (count rest R_PICKUP)"
        using r that by linarith
      then show ?thesis using i(5) r reqs R_PICKUP unfolding z by (simp add: tokens_ok_def)
    qed
    ultimately show ?thesis using r unfolding z by (simp add: soc_inv_def)
  qed
qed

lemma other_steps_inv:
  assumes "soc_inv y"
  shows "factory_start y = Some z \<Longrightarrow> soc_inv z" "factory_stop y = Some z \<Longrightarrow> soc_inv z"
    "stop_wake y = Some z \<Longrightarrow> soc_inv z" "stop_end y = Some z \<Longrightarrow> soc_inv z"
proof -
  show "factory_start y = Some z \<Longrightarrow> soc_inv z"
    using assms by (auto simp: factory_start_def on_fac_def factory_started_def inv_defs busy_def posting_def split: if_splits)
  show "factory_stop y = Some z \<Longrightarrow> soc_inv z"
    using assms by (auto simp: factory_stop_def on_fac_def factory_stopping_def inv_defs split: if_splits)
  show "stop_wake y = Some z \<Longrightarrow> soc_inv z"
    using assms by (auto simp: stop_wake_def on_fac_def post_pickup_def inv_defs split: if_splits)
  show "stop_end y = Some z \<Longrightarrow> soc_inv z"
    using assms by (auto simp: stop_end_def on_fac_def inv_defs split: if_splits)
qed

lemma soc_run_inv: "soc_run y \<Longrightarrow> soc_inv y"
proof (induction rule: soc_run.induct)
  case (init f)
  show ?case by (auto simp: inv_defs socFactoryInit_def fac_ok_def stored_def)
next
  case (factory y answer z)
  from factory_step_inv [OF factory.IH factory.hyps(2,3)] show ?case .
next
  case (request y pc z)
  from request_step_inv [OF request.IH request.hyps(2)] show ?case .
qed (use request_begin_inv other_steps_inv in \<open>blast+\<close>)

section \<open>What the factory promises\<close>

text \<open>
  C32. In every interleaving of the factory thread, the threads that ask for sockets and a thread that starts and
  stops the factory: the factory stays in the bounds of its list; every socket it created is in its hands, in the
  list, handed to exactly one thread or closed once; and when the factory is stopped nothing is left over: no
  socket and no thread that still uses the semaphores.
\<close>
theorem soc_factory_conserves:
  assumes "soc_run y"
  shows "length (sf_list (sy_fac y)) = 5 \<and> - 1 \<le> sf_slot (sy_fac y) \<and> sf_slot (sy_fac y) < 5 \<and>
    sy_created y = held (sy_soc y) + mset (stored (sy_fac y)) + sy_given y + sy_closed y \<and>
    (sf_state (sy_fac y) = SOC_FACTORY_STOPPED \<longrightarrow> sy_created y = sy_given y + sy_closed y \<and> sy_reqs y = {#})"
proof -
  have i: "soc_inv y" by (rule soc_run_inv [OF assms])
  have "stored (sy_fac y) = [] \<and> sy_soc y = SOCKET_INVALID" if "sf_state (sy_fac y) = SOC_FACTORY_STOPPED"
    using i that by (auto simp: inv_defs stored_def)
  with i show ?thesis by (auto simp: inv_defs fac_ok_def)
qed

text \<open>A run: the factory is started, a thread asks and waits, and the factory creates socket 9 for it.\<close>

definition demo_asked :: soc_system where
  "demo_asked =
     \<lparr>sy_fac = \<lparr>sf_createSem = 0, sf_pickupSem = 0, sf_requests = 1, sf_slot = 0, sf_lastErr = 0, sf_state = SOC_FACTORY_RUNNING,
                sf_list = [9, - 1, - 1, - 1, - 1]\<rparr>,
      sy_pc = F_POST, sy_soc = - 1, sy_reqs = {#R_WAIT#}, sy_created = {#9#}, sy_given = {#}, sy_closed = {#}\<rparr>"

lemma demo_asked_run: "soc_run demo_asked"
proof -
  let ?fac = "\<lambda>c r s st l. \<lparr>sf_createSem = c, sf_pickupSem = 0, sf_requests = r, sf_slot = s, sf_lastErr = 0, sf_state = st, sf_list = l\<rparr>"
  let ?none = "[- 1, - 1, - 1, - 1, - 1] :: int list"
  let ?y = "\<lambda>f pc soc rs cs. \<lparr>sy_fac = f, sy_pc = pc, sy_soc = soc, sy_reqs = rs, sy_created = cs, sy_given = {#}, sy_closed = {#}\<rparr>"
  let ?run = "SOC_FACTORY_RUNNING"
  have go: "soc_run z" if "soc_run y" "factory_step (Inr 9) y = Some z" for y z
    using soc_run.factory [OF that(1) _ that(2)] by simp
  have "socFactoryInit (?fac 0 0 (- 1) SOC_FACTORY_STOPPED []) = ?fac 0 0 (- 1) SOC_FACTORY_STOPPED ?none"
    by (simp add: socFactoryInit_def numeral_eq_Suc)
  then have "soc_run (?y (?fac 0 0 (- 1) SOC_FACTORY_STOPPED ?none) F_GONE (- 1) {#} {#})" by (metis soc_run.init)
  then have "soc_run (?y (?fac 0 0 (- 1) ?run ?none) F_TEST (- 1) {#} {#})"
    by (rule soc_run.start) (simp add: factory_start_def on_fac_def factory_started_def)
  from soc_run.asks [OF this] have "soc_run (?y (?fac 0 1 (- 1) ?run ?none) F_TEST (- 1) {#R_POST#} {#})"
    by (simp add: request_begin_def soc_request_def)
  then have "soc_run (?y (?fac 1 1 (- 1) ?run ?none) F_TEST (- 1) {#R_WAIT#} {#})"
    by (rule soc_run.request [of _ R_POST]) (simp add: request_step_def on_fac_def post_create_def)
  then have "soc_run (?y (?fac 1 1 (- 1) ?run ?none) F_WAIT (- 1) {#R_WAIT#} {#})"
    by (rule go) (simp add: factory_step_def)
  then have "soc_run (?y (?fac 0 1 (- 1) ?run ?none) F_MAKE (- 1) {#R_WAIT#} {#})"
    by (rule go) (simp add: factory_step_def on_fac_def)
  then have "soc_run (?y (?fac 0 1 (- 1) ?run ?none) F_STORE 9 {#R_WAIT#} {#9#})"
    by (rule go) (simp add: factory_step_def)
  then show ?thesis
    by (rule go) (simp add: factory_step_def factory_store_def demo_asked_def)
qed

lemma soc_factory_conserves_witness:
  "sf_slot (sy_fac demo_asked) = 0 \<and> sy_created demo_asked = {#9#} \<and> mset (stored (sy_fac demo_asked)) = {#9#}"
  using soc_factory_conserves [OF demo_asked_run] by (simp add: demo_asked_def stored_def held_def)

text \<open>
  C33. While the factory runs no request is lost: as many threads wait as there are tokens on their way to
  them, so that a waiting thread can pick up or the factory thread can go on; and the factory never has more
  sockets than have been asked for.  When the factory is told to stop its thread can go on as well.
\<close>
theorem soc_factory_answers:
  assumes "soc_run y"
  shows "(sf_state (sy_fac y) = SOC_FACTORY_RUNNING \<longrightarrow>
      count (sy_reqs y) R_WAIT = sf_createSem (sy_fac y) + sf_pickupSem (sy_fac y) + busy y \<and>
      int (size (held (sy_soc y)) + length (stored (sy_fac y))) \<le> sf_requests (sy_fac y) \<and>
      (R_WAIT \<in># sy_reqs y \<longrightarrow> (\<exists>z. request_step R_WAIT y = Some z) \<or> (\<exists>z. factory_step answer y = Some z))) \<and>
    (sf_state (sy_fac y) = SOC_FACTORY_STOPPING_FACTORY_THREAD \<longrightarrow> (\<exists>z. factory_step answer y = Some z))"
proof -
  have i: "soc_inv y" by (rule soc_run_inv [OF assms])
  have go: "\<exists>z. factory_step answer y = Some z"
    if "sy_pc y \<noteq> F_GONE" "sy_pc y = F_WAIT \<longrightarrow> sf_createSem (sy_fac y) > 0"
    using that by (cases "sy_pc y") (simp_all add: factory_step_def split_beta split: bool.split sum.split)
  have len: "length (stored (sy_fac y)) = nat (sf_slot (sy_fac y) + 1)" proof -
    have "fac_ok (sy_fac y)" using i by (simp add: inv_defs)
    then have "nat (sf_slot (sy_fac y) + 1) \<le> length (sf_list (sy_fac y))" by (simp add: fac_ok_def nat_le_iff)
    then show ?thesis by (simp add: stored_def)
  qed
  have size: "count (sy_reqs y) R_WAIT + count (sy_reqs y) R_PICKUP \<le> size (sy_reqs y)"
  proof -
    have "filter_mset (\<lambda>x. x = R_WAIT \<or> x = R_PICKUP) (sy_reqs y) \<subseteq># sy_reqs y" by simp
    then have "size (filter_mset (\<lambda>x. x = R_WAIT \<or> x = R_PICKUP) (sy_reqs y)) \<le> size (sy_reqs y)" by (rule size_mset_mono)
    moreover have "size (filter_mset (\<lambda>x. x = R_WAIT \<or> x = R_PICKUP) M) = count M R_WAIT + count M R_PICKUP" for M
      by (induction M) auto
    ultimately show ?thesis by simp
  qed
  show ?thesis
  proof (intro conjI impI)
    assume r: "sf_state (sy_fac y) = SOC_FACTORY_RUNNING"
    show w: "count (sy_reqs y) R_WAIT = sf_createSem (sy_fac y) + sf_pickupSem (sy_fac y) + busy y"
      using i r by (simp add: inv_defs)
    have "size (held (sy_soc y)) + length (stored (sy_fac y)) \<le> size (sy_reqs y)"
      using i r size w unfolding len by (auto simp: inv_defs held_def busy_def posting_def split: if_splits)
    then show "int (size (held (sy_soc y)) + length (stored (sy_fac y))) \<le> sf_requests (sy_fac y)"
      using i by (simp add: inv_defs)
    assume wait: "R_WAIT \<in># sy_reqs y"
    then have "count (sy_reqs y) R_WAIT > 0" by simp
    with w have "sf_pickupSem (sy_fac y) > 0 \<or> sf_createSem (sy_fac y) > 0 \<or> busy y = 1"
      by (auto simp: busy_def split: if_splits)
    moreover have "sy_pc y \<noteq> F_GONE" using i r by (auto simp: inv_defs)
    ultimately show "(\<exists>z. request_step R_WAIT y = Some z) \<or> (\<exists>z. factory_step answer y = Some z)"
      using wait go by (auto simp: request_step_def Let_def busy_def split: if_splits)
  next
    assume "sf_state (sy_fac y) = SOC_FACTORY_STOPPING_FACTORY_THREAD"
    with i show "\<exists>z. factory_step answer y = Some z" by (intro go) (auto simp: inv_defs)
  qed
qed

lemma soc_factory_answers_witness:
  "R_WAIT \<in># sy_reqs demo_asked \<and>
   ((\<exists>z. request_step R_WAIT demo_asked = Some z) \<or> (\<exists>z. factory_step (Inr 9) demo_asked = Some z))"
proof -
  have "R_WAIT \<in># sy_reqs demo_asked" "sf_state (sy_fac demo_asked) = SOC_FACTORY_RUNNING" by (simp_all add: demo_asked_def)
  with soc_factory_answers [OF demo_asked_run, of "Inr 9"] show ?thesis by blast
qed

end
