(* ===== verification/WinEngine.thy ===== *)
theory WinEngine
  imports SockEvent "HOL-Library.Multiset" "HOL-Library.Monad_Syntax"
begin

unbundle bit_operations_syntax

text \<open>
  The socket event engine of the Windows build (\<^verbatim>\<open>src/src/sockwin.c\<close>): events are handed to a completion port
  and come out of it as packets, and every event that has a timeout has a timer of its own, which is started,
  fired, cancelled and freed by different threads.
\<close>

section \<open>Timers and events\<close>

datatype IOEventStates = IOCP_EVENT_STATE_IDLE | IOCP_EVENT_STATE_WAIT_ACTIVE

abbreviation (input) FSE_TIMEDOUT :: u32 where "FSE_TIMEDOUT \<equiv> 0x80"

record seTimer =
  ti_se :: "ptr option"
  ti_started :: bool
  ti_len :: nat

record WinEvent =
  we_type :: SocketEventType
  we_state :: IOEventStates
  we_error :: errno
  we_flags :: u32
  we_timer :: "ptr option"
  we_timedout :: bool
  we_acceptSocket :: int

text \<open>
  The timer and the buffer of a listener share their memory in the code; the model has only the timer, so
  that an event that has listened is taken to be cleared by \<^verbatim>\<open>sockEventInit()\<close> before it waits for something else.

  The system: \<open>wn_live\<close> are the timers that are allocated, \<open>wn_queue\<close> is \<^verbatim>\<open>timerQ\<close>, \<open>wn_pulled\<close> what the timer
  thread has taken from it, \<open>wn_armed\<close> the timers the system runs and \<open>wn_fired\<close> those whose callback is
  due.  \<open>wn_packets\<close> are the completions under way.  \<open>wn_submits\<close> and \<open>wn_begun\<close> record the waits that were
  accepted and the callbacks that were started for them, \<open>wn_workers\<close> the threads that were started for listeners.
\<close>

record win =
  wn_event :: "ptr \<Rightarrow> WinEvent"
  wn_timer :: "ptr \<Rightarrow> seTimer"
  wn_live :: "ptr set"
  wn_queue :: "ptr list"
  wn_pulled :: "ptr list"
  wn_armed :: "ptr set"
  wn_fired :: "ptr set"
  wn_packets :: "ptr multiset"
  wn_submits :: "ptr multiset"
  wn_begun :: "ptr multiset"
  wn_workers :: "ptr multiset"

definition put_ev :: "ptr \<Rightarrow> WinEvent \<Rightarrow> win \<Rightarrow> win" where
  "put_ev se e w = w\<lparr>wn_event := (wn_event w)(se := e)\<rparr>"

definition put_timer :: "ptr \<Rightarrow> seTimer \<Rightarrow> win \<Rightarrow> win" where
  "put_timer t x w = w\<lparr>wn_timer := (wn_timer w)(t := x)\<rparr>"

text \<open>\<open>None\<close>: memory that is not allocated is used or freed.\<close>

definition seTimerFree :: "ptr option \<Rightarrow> win \<Rightarrow> win option" where
  "seTimerFree timer w =
     (case timer of
        None \<Rightarrow> Some w
      | Some t \<Rightarrow> if t \<in> wn_live w then Some (w\<lparr>wn_live := wn_live w - {t}\<rparr>) else None)"

text \<open>\<open>memory\<close> and \<open>handle\<close> are what \<^verbatim>\<open>MemPoolGet()\<close> and \<^verbatim>\<open>CreateWaitableTimer()\<close> give.\<close>

definition seTimerAlloc :: "nat \<Rightarrow> ptr option \<Rightarrow> errno option \<Rightarrow> win \<Rightarrow> ptr option \<times> errno \<times> win" where
  "seTimerAlloc ms memory handle w =
     (if ms = 0 then (None, 0, w)
      else (case memory of
              None \<Rightarrow> (None, ENOMEM, w)
            | Some t \<Rightarrow>
                (case handle of
                   Some e \<Rightarrow> (None, e, w)
                 | None \<Rightarrow> (Some t, 0, put_timer t \<lparr>ti_se = None, ti_started = False, ti_len = ms\<rparr>
                                       (w\<lparr>wn_live := insert t (wn_live w)\<rparr>)))))"

definition seTimerLink :: "ptr \<Rightarrow> ptr option \<Rightarrow> win \<Rightarrow> win" where
  "seTimerLink se timer w =
     (case timer of
        None \<Rightarrow> w
      | Some t \<Rightarrow> put_ev se ((wn_event w se)\<lparr>we_timer := Some t\<rparr>) (put_timer t ((wn_timer w t)\<lparr>ti_se := Some se\<rparr>) w))"

definition seTimerUnlink :: "ptr \<Rightarrow> ptr option \<Rightarrow> win \<Rightarrow> win" where
  "seTimerUnlink se timer w =
     put_ev se ((wn_event w se)\<lparr>we_timer := None\<rparr>)
       (case timer of None \<Rightarrow> w | Some t \<Rightarrow> put_timer t ((wn_timer w t)\<lparr>ti_se := None\<rparr>) w)"

definition timerEnqueue :: "ptr option \<Rightarrow> win \<Rightarrow> win" where
  "timerEnqueue timer w = (case timer of None \<Rightarrow> w | Some t \<Rightarrow> w\<lparr>wn_queue := t # wn_queue w\<rparr>)"

text \<open>\<^verbatim>\<open>CancelIoEx()\<close> only makes the completion come sooner, which is not a matter of state.\<close>

definition eventTimeout :: "ptr \<Rightarrow> win \<Rightarrow> win" where
  "eventTimeout se w =
     (let e = wn_event w se
      in if we_state e = IOCP_EVENT_STATE_WAIT_ACTIVE \<and> we_type e \<noteq> SOCK_EVENT_TYPE_DISCONNECT
         then put_ev se (e\<lparr>we_timer := None, we_timedout := True\<rparr>) w else w)"

text \<open>The locked section of \<^verbatim>\<open>TimerKill()\<close>; \<^verbatim>\<open>CancelWaitableTimer()\<close> fails when the callback is due.\<close>

definition timer_cancel :: "ptr \<Rightarrow> ptr \<Rightarrow> win \<Rightarrow> win option" where
  "timer_cancel se t w =
     (if t \<notin> wn_live w then None
      else
        (let w1 = seTimerUnlink se (Some t) w
         in if \<not> ti_started (wn_timer w t) then Some w1
            else if t \<in> wn_fired w then Some w1
            else seTimerFree (Some t) (w1\<lparr>wn_armed := wn_armed w1 - {t}\<rparr>)))"

definition TimerKill :: "ptr \<Rightarrow> win \<Rightarrow> win option" where
  "TimerKill se w =
     do { w1 \<leftarrow> (case we_timer (wn_event w se) of None \<Rightarrow> Some w | Some t \<Rightarrow> timer_cancel se t w);
          Some (if we_timedout (wn_event w1 se) then put_ev se ((wn_event w1 se)\<lparr>we_error := ETIMEDOUT\<rparr>) w1 else w1) }"

definition timerCallback :: "ptr \<Rightarrow> win \<Rightarrow> win option" where
  "timerCallback t w =
     (if t \<notin> wn_live w then None
      else
        (let w1 = (case ti_se (wn_timer w t) of
                     None \<Rightarrow> w
                   | Some se \<Rightarrow> eventTimeout se (seTimerUnlink se (Some t) w))
         in seTimerFree (Some t) (w1\<lparr>wn_fired := wn_fired w1 - {t}\<rparr>)))"

text \<open>\<open>set\<close> says whether \<^verbatim>\<open>SetWaitableTimer()\<close> succeeds.\<close>

definition timerStart :: "bool \<Rightarrow> ptr \<Rightarrow> win \<Rightarrow> (bool \<times> win) option" where
  "timerStart ok t w =
     (if t \<notin> wn_live w then None
      else
        (case ti_se (wn_timer w t) of
           None \<Rightarrow> Some (False, w)
         | Some se \<Rightarrow>
             if \<not> ok then Some (False, eventTimeout se (seTimerUnlink se (Some t) w))
             else Some (True, put_timer t ((wn_timer w t)\<lparr>ti_started := True\<rparr>) (w\<lparr>wn_armed := insert t (wn_armed w)\<rparr>))))"

text \<open>The timer thread: taking the queue, and one turn of the loop over what was taken.\<close>

definition timer_pull :: "win \<Rightarrow> win" where
  "timer_pull w = w\<lparr>wn_pulled := wn_queue w, wn_queue := []\<rparr>"

definition timer_turn :: "bool \<Rightarrow> win \<Rightarrow> win option" where
  "timer_turn ok w =
     (case wn_pulled w of
        [] \<Rightarrow> Some w
      | t # ts \<Rightarrow>
          do { (r, w1) \<leftarrow> timerStart ok t w;
               w2 \<leftarrow> (if r then Some w1 else seTimerFree (Some t) w1);
               Some (w2\<lparr>wn_pulled := ts\<rparr>) })"

section \<open>Adding and killing events\<close>

definition sockEventClean_win :: "WinEvent \<Rightarrow> WinEvent" where
  "sockEventClean_win e = e\<lparr>we_error := 0, we_flags := 0\<rparr>"

definition sockEventKill_win :: "ptr \<Rightarrow> win \<Rightarrow> bool \<times> win" where
  "sockEventKill_win se w =
     (let e = wn_event w se
      in (False,
          if we_state e = IOCP_EVENT_STATE_WAIT_ACTIVE \<and> we_type e \<noteq> SOCK_EVENT_TYPE_DISCONNECT
          then (if we_type e = SOCK_EVENT_TYPE_LISTEN then put_ev se (e\<lparr>we_flags := we_flags e OR FSE_LISTENER_KILLED\<rparr>) w
                else if \<not> has (we_flags e) (FSE_CANCELED OR FSE_TIMEDOUT)
                then put_ev se (e\<lparr>we_flags := we_flags e OR FSE_CANCELED\<rparr>) w
                else w)
          else w))"

text \<open>
  What the system answers: linking the socket to the port, allocating the timer, and submitting the
  operation, which is under way, done at once or refused.
\<close>

datatype submit = Submitted | Done_already | Refused errno

record add_answers =
  ad_link :: "errno option"
  ad_ms :: nat
  ad_memory :: "ptr option"
  ad_handle :: "errno option"
  ad_submit :: submit

definition event_error :: "ptr \<Rightarrow> errno \<Rightarrow> win \<Rightarrow> win" where
  "event_error se e w = put_ev se ((wn_event w se)\<lparr>we_error := e\<rparr>) w"

definition submitted :: "ptr \<Rightarrow> win \<Rightarrow> win" where
  "submitted se w =
     (put_ev se ((wn_event w se)\<lparr>we_state := IOCP_EVENT_STATE_WAIT_ACTIVE\<rparr>) w)\<lparr>wn_packets := add_mset se (wn_packets w)\<rparr>"

text \<open>The answer of a submit: the timer is put into the queue, or unlinked and freed.\<close>

definition after_submit :: "ptr \<Rightarrow> ptr option \<Rightarrow> submit \<Rightarrow> win \<Rightarrow> (int \<times> bool \<times> win) option" where
  "after_submit se timer answer w =
     (case answer of
        Submitted \<Rightarrow> Some (0, False, timerEnqueue timer (submitted se w)\<lparr>wn_submits := add_mset se (wn_submits w)\<rparr>)
      | Done_already \<Rightarrow> do { w1 \<leftarrow> seTimerFree timer (seTimerUnlink se timer w); Some (0, True, w1) }
      | Refused e \<Rightarrow> do { w1 \<leftarrow> seTimerFree timer (seTimerUnlink se timer (event_error se e w)); Some (- 1, False, w1) })"

definition add_wait :: "add_answers \<Rightarrow> ptr \<Rightarrow> win \<Rightarrow> (int \<times> bool \<times> win) option" where
  "add_wait a se w =
     (case seTimerAlloc (ad_ms a) (ad_memory a) (ad_handle a) w of (timer, err, w1) \<Rightarrow>
        if err \<noteq> 0 then Some (- 1, False, event_error se err w1)
        else if we_state (wn_event w1 se) = IOCP_EVENT_STATE_IDLE
        then after_submit se timer (case ad_submit a of Done_already \<Rightarrow> Submitted | x \<Rightarrow> x) (seTimerLink se timer w1)
        else do { w2 \<leftarrow> seTimerFree timer w1; Some (- 1, False, w2) })"

definition add_connect :: "add_answers \<Rightarrow> ptr \<Rightarrow> win \<Rightarrow> (int \<times> bool \<times> win) option" where
  "add_connect a se w =
     (if we_state (wn_event w se) \<noteq> IOCP_EVENT_STATE_IDLE then Some (- 1, False, w)
      else (case seTimerAlloc (ad_ms a) (ad_memory a) (ad_handle a) w of (timer, err, w1) \<Rightarrow>
              if err \<noteq> 0 then Some (- 1, False, event_error se err w1)
              else after_submit se timer (ad_submit a) (seTimerLink se timer w1)))"

text \<open>\<^verbatim>\<open>acceptNext()\<close>: \<open>soc\<close> is what \<^verbatim>\<open>socCreate()\<close> gives, the answer that of \<^verbatim>\<open>AcceptEx()\<close>.\<close>

definition acceptNext :: "int \<times> errno \<Rightarrow> ptr \<Rightarrow> win \<Rightarrow> errno \<times> win" where
  "acceptNext answer se w =
     (case answer of (soc, err) \<Rightarrow>
        (let w1 = put_ev se ((wn_event w se)\<lparr>we_acceptSocket := soc\<rparr>) w
         in if err \<noteq> 0 then (err, w1) else (0, w1\<lparr>wn_packets := add_mset se (wn_packets w1)\<rparr>)))"

definition add_listen :: "int \<times> errno \<Rightarrow> ptr \<Rightarrow> win \<Rightarrow> (int \<times> bool \<times> win) option" where
  "add_listen answer se w =
     (if we_state (wn_event w se) = IOCP_EVENT_STATE_IDLE then
        (case acceptNext answer se w of (err, w1) \<Rightarrow>
           (let w2 = event_error se err w1
            in if err = 0 then Some (0, False, put_ev se ((wn_event w2 se)\<lparr>we_state := IOCP_EVENT_STATE_WAIT_ACTIVE\<rparr>) w2)
               else Some (- 1, False, w2)))
      else Some (- 1, False, w))"

definition sockEventAdd_win :: "add_answers \<Rightarrow> int \<times> errno \<Rightarrow> ptr \<Rightarrow> win \<Rightarrow> (int \<times> bool \<times> win) option" where
  "sockEventAdd_win a accept se w =
     (let w1 = put_ev se ((wn_event w se)\<lparr>we_error := 0, we_timedout := False\<rparr>) w
      in case ad_link a of
           Some e \<Rightarrow> Some (- 1, False, event_error se e w1)
         | None \<Rightarrow>
             (case we_type (wn_event w1 se) of
                SOCK_EVENT_TYPE_WRITABLE \<Rightarrow> add_wait a se w1
              | SOCK_EVENT_TYPE_READABLE \<Rightarrow> add_wait a se w1
              | SOCK_EVENT_TYPE_DISCONNECT \<Rightarrow> add_connect a se w1
              | SOCK_EVENT_TYPE_CONNECT \<Rightarrow> add_connect a se w1
              | SOCK_EVENT_TYPE_LISTEN \<Rightarrow> add_listen accept se w1
              | SOCK_EVENT_TYPE_NONE \<Rightarrow> Some (0, False, w1)))"

definition sockEventListenerRequeue_win :: "int \<times> errno \<Rightarrow> ptr \<Rightarrow> win \<Rightarrow> bool \<times> win" where
  "sockEventListenerRequeue_win answer se w =
     (let w1 = put_ev se ((wn_event w se)\<lparr>we_flags := we_flags (wn_event w se) AND NOT (FSE_LISTENER_PAUSED OR FSE_LISTENER_SUSPENDED)\<rparr>) w;
          (err, w2) = acceptNext answer se w1
      in (err \<noteq> 0, event_error se err w2))"

section \<open>The completion port\<close>

text \<open>
  A packet for an event.  \<open>result\<close> is the error the port reports; for a listener \<open>throttle\<close> says whether
  throttling starts, and \<open>next\<close> is the answer to the next accept.
\<close>

definition completed_error :: "errno option \<Rightarrow> WinEvent \<Rightarrow> WinEvent" where
  "completed_error result e =
     (if we_flags e = FSE_CANCELED then e\<lparr>we_flags := we_flags e AND NOT FSE_CANCELED, we_error := ECANCELED\<rparr>
      else if we_flags e = FSE_TIMEDOUT then e\<lparr>we_flags := we_flags e AND NOT FSE_TIMEDOUT, we_error := ETIMEDOUT\<rparr>
      else (case result of Some err \<Rightarrow> e\<lparr>we_error := err\<rparr> | None \<Rightarrow> e))"

definition complete_wait :: "errno option \<Rightarrow> ptr \<Rightarrow> win \<Rightarrow> (bool \<times> win) option" where
  "complete_wait result se w =
     (if we_state (wn_event w se) = IOCP_EVENT_STATE_WAIT_ACTIVE then
        do { w1 \<leftarrow> TimerKill se (put_ev se ((completed_error result (wn_event w se))\<lparr>we_state := IOCP_EVENT_STATE_IDLE\<rparr>) w);
             Some (True, w1) }
      else Some (False, w))"

definition complete_connect :: "errno option \<Rightarrow> ptr \<Rightarrow> win \<Rightarrow> (bool \<times> win) option" where
  "complete_connect result se w =
     (if we_state (wn_event w se) = IOCP_EVENT_STATE_WAIT_ACTIVE then
        do { w1 \<leftarrow> TimerKill se (put_ev se (completed_error result (wn_event w se)) w);
             Some (True, put_ev se ((wn_event w1 se)\<lparr>we_state := IOCP_EVENT_STATE_IDLE\<rparr>) w1) }
      else Some (False, w))"

definition complete_listen :: "errno option \<Rightarrow> bool \<Rightarrow> bool \<Rightarrow> int \<times> errno \<Rightarrow> ptr \<Rightarrow> win \<Rightarrow> bool \<times> win" where
  "complete_listen result event_memory throttle next se w =
     (let e = wn_event w se;
          idle = (\<lambda>w. put_ev se ((wn_event w se)\<lparr>we_state := IOCP_EVENT_STATE_IDLE\<rparr>) w)
      in if we_state e = IOCP_EVENT_STATE_WAIT_ACTIVE then
           (if result = None \<and> we_flags e \<noteq> FSE_LISTENER_KILLED then
              (let w1 = (if event_memory then w else put_ev se (e\<lparr>we_acceptSocket := - 1\<rparr>) w)
               in if throttle
                  then (True, put_ev se ((wn_event w1 se)\<lparr>we_flags := we_flags (wn_event w1 se) OR FSE_LISTENER_PAUSED\<rparr>) w1)
                  else (case acceptNext next se w1 of (err, w2) \<Rightarrow>
                          if err = 0 then (False, event_error se err w2) else (True, idle (event_error se err w2))))
            else (True, idle w))
         else (False, w))"

definition iocp_packet ::
    "errno option \<Rightarrow> bool \<Rightarrow> bool \<Rightarrow> int \<times> errno \<Rightarrow> ptr \<Rightarrow> win \<Rightarrow> (bool \<times> win) option" where
  "iocp_packet result event_memory throttle next se w =
     (case we_type (wn_event w se) of
        SOCK_EVENT_TYPE_WRITABLE \<Rightarrow> complete_wait result se w
      | SOCK_EVENT_TYPE_READABLE \<Rightarrow> complete_wait result se w
      | SOCK_EVENT_TYPE_CONNECT \<Rightarrow> complete_connect result se w
      | SOCK_EVENT_TYPE_DISCONNECT \<Rightarrow> complete_connect result se w
      | SOCK_EVENT_TYPE_LISTEN \<Rightarrow> Some (complete_listen result event_memory throttle next se w)
      | SOCK_EVENT_TYPE_NONE \<Rightarrow> Some (False, w))"

text \<open>One turn of \<^verbatim>\<open>_IOCPThread()\<close>: the packet is taken, and a thread is started for an event that is complete.\<close>

definition IOCPThread_turn ::
    "errno option \<Rightarrow> bool \<Rightarrow> bool \<Rightarrow> int \<times> errno \<Rightarrow> ptr \<Rightarrow> win \<Rightarrow> win option" where
  "IOCPThread_turn result event_memory throttle next se w =
     do { (eventCompleted, w1) \<leftarrow> iocp_packet result event_memory throttle next se (w\<lparr>wn_packets := wn_packets w - {#se#}\<rparr>);
          let w2 = put_ev se ((wn_event w1 se)\<lparr>we_timedout := False\<rparr>) w1;
          Some (if \<not> eventCompleted then w2
                else if we_type (wn_event w2 se) = SOCK_EVENT_TYPE_LISTEN then w2\<lparr>wn_workers := add_mset se (wn_workers w2)\<rparr>
                else w2\<lparr>wn_begun := add_mset se (wn_begun w2)\<rparr>) }"

end
