(* ===== verification/WinProps.thy ===== *)
theory WinProps
  imports WinEngine
begin

unbundle bit_operations_syntax

text \<open>
  Properties of the Windows engine: timers are freed once and never used after that, and every wait
  is called back once.
\<close>

section \<open>Runs\<close>

text \<open>
  Any interleaving of the engine's threads and its clients.  A client adds only an event that is idle
  (\<^verbatim>\<open>SeLinkCe()\<close> refuses the others); a timer that is allocated was not in use; operations are accepted or
  refused, none is done at once.
\<close>

inductive win_run :: "win \<Rightarrow> bool" where
  init: "(\<And>e. we_state (wn_event w e) = IOCP_EVENT_STATE_IDLE \<and> we_timer (wn_event w e) = None \<and> we_flags (wn_event w e) = 0) \<Longrightarrow>
    wn_live w = {} \<Longrightarrow> wn_queue w = [] \<Longrightarrow> wn_pulled w = [] \<Longrightarrow> wn_armed w = {} \<Longrightarrow> wn_fired w = {} \<Longrightarrow>
    wn_packets w = {#} \<Longrightarrow> wn_submits w = {#} \<Longrightarrow> wn_begun w = {#} \<Longrightarrow> win_run w"
| add: "win_run w \<Longrightarrow> we_state (wn_event w se) = IOCP_EVENT_STATE_IDLE \<Longrightarrow> (\<And>t. ad_memory a = Some t \<Longrightarrow> t \<notin> wn_live w) \<Longrightarrow>
    ad_submit a \<noteq> Done_already \<Longrightarrow>
    sockEventAdd_win a accept se (put_ev se ((wn_event w se)\<lparr>we_type := ty\<rparr>) w) = Some (r, d, w') \<Longrightarrow> win_run w'"
| kill: "win_run w \<Longrightarrow> win_run (snd (sockEventKill_win se w))"
| packet: "win_run w \<Longrightarrow> se \<in># wn_packets w \<Longrightarrow> IOCPThread_turn result room throttle next se w = Some w' \<Longrightarrow> win_run w'"
| requeue: "win_run w \<Longrightarrow> has (we_flags (wn_event w se)) FSE_LISTENER_PAUSED \<Longrightarrow>
    win_run (snd (sockEventListenerRequeue_win answer se w))"
| fire: "win_run w \<Longrightarrow> t \<in> wn_armed w \<Longrightarrow> win_run (w\<lparr>wn_armed := wn_armed w - {t}, wn_fired := insert t (wn_fired w)\<rparr>)"
| callback: "win_run w \<Longrightarrow> t \<in> wn_fired w \<Longrightarrow> timerCallback t w = Some w' \<Longrightarrow> win_run w'"
| pull: "win_run w \<Longrightarrow> wn_pulled w = [] \<Longrightarrow> win_run (timer_pull w)"
| turn: "win_run w \<Longrightarrow> timer_turn ok w = Some w' \<Longrightarrow> win_run w'"

section \<open>Timers\<close>

definition timers_ok :: "win \<Rightarrow> bool" where
  "timers_ok w \<longleftrightarrow>
     wn_live w = set (wn_queue w) \<union> set (wn_pulled w) \<union> wn_armed w \<union> wn_fired w \<and>
     distinct (wn_queue w @ wn_pulled w) \<and> (set (wn_queue w) \<union> set (wn_pulled w)) \<inter> (wn_armed w \<union> wn_fired w) = {} \<and>
     wn_armed w \<inter> wn_fired w = {} \<and> (\<forall>t \<in> wn_live w. ti_started (wn_timer w t) \<longleftrightarrow> t \<in> wn_armed w \<union> wn_fired w)"

definition links_ok :: "win \<Rightarrow> bool" where
  "links_ok w \<longleftrightarrow> (\<forall>e t. we_timer (wn_event w e) = Some t \<longleftrightarrow> t \<in> wn_live w \<and> ti_se (wn_timer w t) = Some e)"

text \<open>What timer operations leave alone: everything about events but their timer, their timeout mark and their error.\<close>

definition same_waits :: "win \<Rightarrow> win \<Rightarrow> bool" where
  "same_waits w w' \<longleftrightarrow>
     (\<forall>e. we_type (wn_event w' e) = we_type (wn_event w e) \<and> we_state (wn_event w' e) = we_state (wn_event w e) \<and>
          we_flags (wn_event w' e) = we_flags (wn_event w e) \<and>
          (we_timer (wn_event w' e) = we_timer (wn_event w e) \<or> we_timer (wn_event w' e) = None)) \<and>
     wn_packets w' = wn_packets w \<and> wn_submits w' = wn_submits w \<and> wn_begun w' = wn_begun w"

lemma same_waits_refl [simp]: "same_waits w w"
  by (simp add: same_waits_def)

lemma same_waits_trans: "same_waits a b \<Longrightarrow> same_waits b c \<Longrightarrow> same_waits a c"
  unfolding same_waits_def by (metis (no_types))

lemma put_ev_timers [simp]: "timers_ok (put_ev se e w) = timers_ok w"
  by (simp add: timers_ok_def put_ev_def)

lemma put_ev_links: "we_timer e = we_timer (wn_event w se) \<Longrightarrow> links_ok (put_ev se e w) = links_ok w"
proof -
  assume "we_timer e = we_timer (wn_event w se)"
  then have "we_timer (wn_event (put_ev se e w) x) = we_timer (wn_event w x)" for x by (simp add: put_ev_def)
  then show ?thesis by (simp add: links_ok_def) (simp add: put_ev_def)
qed

lemma unlink_timer:
  assumes "timers_ok w" "links_ok w" "t \<in> wn_live w" "ti_se (wn_timer w t) = Some se"
  shows "timers_ok (seTimerUnlink se (Some t) w) \<and> links_ok (seTimerUnlink se (Some t) w) \<and>
    same_waits w (seTimerUnlink se (Some t) w) \<and> ti_se (wn_timer (seTimerUnlink se (Some t) w) t) = None \<and>
    wn_live (seTimerUnlink se (Some t) w) = wn_live w \<and> we_timer (wn_event (seTimerUnlink se (Some t) w) se) = None"
proof -
  have l: "we_timer (wn_event w e) = Some x \<longleftrightarrow> x \<in> wn_live w \<and> ti_se (wn_timer w x) = Some e" for e x
    using assms(2) by (simp add: links_ok_def)
  have se: "we_timer (wn_event w se) = Some t" using l assms(3,4) by blast
  have other: "\<not> (x \<in> wn_live w \<and> ti_se (wn_timer w x) = Some se)" if "x \<noteq> t" for x
    using l [of se x] se that by simp
  have "links_ok (seTimerUnlink se (Some t) w)"
    using l se other unfolding links_ok_def seTimerUnlink_def put_ev_def put_timer_def by (simp add: assms(4))
  with assms(1) show ?thesis
    by (auto simp: timers_ok_def same_waits_def seTimerUnlink_def put_ev_def put_timer_def)
qed

lemma timeout_event:
  assumes "timers_ok w" "links_ok w" "we_timer (wn_event w se) = None"
  shows "timers_ok (eventTimeout se w) \<and> links_ok (eventTimeout se w) \<and> same_waits w (eventTimeout se w) \<and>
    wn_timer (eventTimeout se w) = wn_timer w \<and> wn_live (eventTimeout se w) = wn_live w \<and>
    wn_fired (eventTimeout se w) = wn_fired w \<and> wn_armed (eventTimeout se w) = wn_armed w \<and>
    wn_queue (eventTimeout se w) = wn_queue w \<and> wn_pulled (eventTimeout se w) = wn_pulled w"
proof -
  have l: "we_timer (wn_event w e) = Some x \<longleftrightarrow> x \<in> wn_live w \<and> ti_se (wn_timer w x) = Some e" for e x
    using assms(2) by (simp add: links_ok_def)
  have "links_ok (eventTimeout se w)"
    using l l [of se] assms(3) by (simp add: eventTimeout_def links_ok_def put_ev_def Let_def)
  with assms(1,3) show ?thesis by (auto simp: eventTimeout_def timers_ok_def same_waits_def put_ev_def Let_def)
qed

text \<open>Freeing a timer nobody is linked to, when it has left its place.\<close>

lemma free_unlinked:
  assumes "links_ok w" "t \<in> wn_live w" "ti_se (wn_timer w t) = None"
  shows "links_ok (w\<lparr>wn_live := wn_live w - {t}\<rparr>)"
proof -
  have "we_timer (wn_event w e) \<noteq> Some t" for e using assms by (auto simp: links_ok_def)
  with assms(1) show ?thesis unfolding links_ok_def by auto
qed

lemma links_place [simp]:
  "links_ok (w\<lparr>wn_queue := q\<rparr>) = links_ok w" "links_ok (w\<lparr>wn_pulled := q\<rparr>) = links_ok w" "links_ok (w\<lparr>wn_armed := s\<rparr>) = links_ok w"
  "links_ok (w\<lparr>wn_fired := s\<rparr>) = links_ok w" "links_ok (w\<lparr>wn_packets := m\<rparr>) = links_ok w" "links_ok (w\<lparr>wn_submits := m\<rparr>) = links_ok w"
  by (simp_all add: links_ok_def)

lemma timer_cancel_ok:
  assumes "timers_ok w" "links_ok w" "we_timer (wn_event w se) = Some t"
  shows "\<exists>w'. timer_cancel se t w = Some w' \<and> timers_ok w' \<and> links_ok w' \<and> same_waits w w' \<and> we_timer (wn_event w' se) = None"
proof -
  have t: "t \<in> wn_live w" "ti_se (wn_timer w t) = Some se" using assms(2,3) by (auto simp: links_ok_def)
  define w1 where "w1 = seTimerUnlink se (Some t) w"
  note u = unlink_timer [OF assms(1,2) t, folded w1_def]
  have places: "wn_queue w1 = wn_queue w" "wn_pulled w1 = wn_pulled w" "wn_armed w1 = wn_armed w" "wn_fired w1 = wn_fired w"
    by (simp_all add: w1_def seTimerUnlink_def put_ev_def put_timer_def)
  show ?thesis
  proof (cases "\<not> ti_started (wn_timer w t) \<or> t \<in> wn_fired w")
    case True
    then have "timer_cancel se t w = Some w1" using t by (auto simp: timer_cancel_def w1_def Let_def)
    with u show ?thesis by auto
  next
    case False
    then have a: "t \<in> wn_armed w" using assms(1) t(1) by (auto simp: timers_ok_def)
    define w2 where "w2 = w1\<lparr>wn_armed := wn_armed w1 - {t}, wn_live := wn_live w1 - {t}\<rparr>"
    have "timer_cancel se t w = Some w2"
      using False t u by (auto simp: timer_cancel_def w2_def w1_def [symmetric] Let_def seTimerFree_def)
    moreover have "links_ok w2"
      using free_unlinked [of "w1\<lparr>wn_armed := wn_armed w1 - {t}\<rparr>" t] u t by (simp add: w2_def)
    moreover have "t \<in> wn_armed w1" using a places by simp
    then have "timers_ok w2" using u by (auto simp: timers_ok_def w2_def)
    moreover have "same_waits w w2" "we_timer (wn_event w2 se) = None" using u by (simp_all add: same_waits_def w2_def)
    ultimately show ?thesis by blast
  qed
qed

lemma TimerKill_ok:
  assumes "timers_ok w" "links_ok w"
  shows "\<exists>w'. TimerKill se w = Some w' \<and> timers_ok w' \<and> links_ok w' \<and> same_waits w w' \<and> we_timer (wn_event w' se) = None"
proof -
  obtain w1 where w1: "(case we_timer (wn_event w se) of None \<Rightarrow> Some w | Some t \<Rightarrow> timer_cancel se t w) = Some w1"
      "timers_ok w1" "links_ok w1" "same_waits w w1" "we_timer (wn_event w1 se) = None"
    using assms timer_cancel_ok [OF assms] by (cases "we_timer (wn_event w se)") fastforce+
  let ?w2 = "put_ev se ((wn_event w1 se)\<lparr>we_error := ETIMEDOUT\<rparr>) w1"
  have "timers_ok ?w2" "links_ok ?w2" "same_waits w ?w2" "we_timer (wn_event ?w2 se) = None"
    using w1(2-5) by (simp_all add: put_ev_links) (auto simp: same_waits_def put_ev_def)
  with w1 show ?thesis by (auto simp: TimerKill_def)
qed

lemma timerCallback_ok:
  assumes "timers_ok w" "links_ok w" "t \<in> wn_fired w"
  shows "\<exists>w'. timerCallback t w = Some w' \<and> timers_ok w' \<and> links_ok w' \<and> same_waits w w'"
proof -
  have t: "t \<in> wn_live w" using assms(1,3) by (auto simp: timers_ok_def)
  define w1 where "w1 = (case ti_se (wn_timer w t) of None \<Rightarrow> w | Some se \<Rightarrow> eventTimeout se (seTimerUnlink se (Some t) w))"
  have w1: "timers_ok w1 \<and> links_ok w1 \<and> same_waits w w1 \<and> ti_se (wn_timer w1 t) = None \<and> wn_live w1 = wn_live w \<and> wn_fired w1 = wn_fired w"
  proof (cases "ti_se (wn_timer w t)")
    case None
    with assms show ?thesis by (simp add: w1_def)
  next
    case (Some se)
    let ?u = "seTimerUnlink se (Some t) w"
    note u = unlink_timer [OF assms(1,2) t Some]
    have "wn_fired ?u = wn_fired w" by (simp add: seTimerUnlink_def put_ev_def put_timer_def)
    with timeout_event [of ?u se] u same_waits_trans [of w ?u] Some show ?thesis by (simp add: w1_def)
  qed
  define w2 where "w2 = w1\<lparr>wn_fired := wn_fired w1 - {t}, wn_live := wn_live w1 - {t}\<rparr>"
  have "timerCallback t w = Some w2" using t w1 by (simp add: timerCallback_def w1_def [symmetric] seTimerFree_def w2_def)
  moreover have "links_ok w2" using free_unlinked [of "w1\<lparr>wn_fired := wn_fired w1 - {t}\<rparr>" t] w1 t by (simp add: w2_def)
  moreover have "timers_ok w2" using w1 assms(3) by (auto simp: timers_ok_def w2_def)
  moreover have "same_waits w w2" using w1 by (simp add: same_waits_def w2_def)
  ultimately show ?thesis by blast
qed

lemma timer_turn_ok:
  assumes "timers_ok w" "links_ok w"
  shows "\<exists>w'. timer_turn ok w = Some w' \<and> timers_ok w' \<and> links_ok w' \<and> same_waits w w'"
proof (cases "wn_pulled w")
  case Nil
  then show ?thesis using assms by (simp add: timer_turn_def)
next
  case (Cons t ts)
  then have t: "t \<in> wn_live w" "t \<notin> set ts" "t \<notin> set (wn_queue w)" "t \<notin> wn_armed w" "t \<notin> wn_fired w"
    using assms(1) by (auto simp: timers_ok_def)
  have finished: "\<exists>w'. timer_turn ok w = Some w' \<and> timers_ok w' \<and> links_ok w' \<and> same_waits w w'"
    if "timerStart ok t w = Some (False, w1)" "timers_ok w1 \<and> links_ok w1 \<and> same_waits w w1 \<and> ti_se (wn_timer w1 t) = None \<and>
      wn_live w1 = wn_live w \<and> wn_pulled w1 = wn_pulled w \<and> wn_queue w1 = wn_queue w \<and> wn_armed w1 = wn_armed w \<and> wn_fired w1 = wn_fired w" for w1
  proof -
    define w2 where "w2 = w1\<lparr>wn_live := wn_live w1 - {t}, wn_pulled := ts\<rparr>"
    have "timer_turn ok w = Some w2" using that t Cons by (simp add: timer_turn_def seTimerFree_def w2_def)
    moreover have "links_ok w2" using free_unlinked [of w1 t] that(2) t(1) by (simp add: w2_def)
    moreover have "timers_ok w2" using that(2) t Cons by (auto simp: timers_ok_def w2_def)
    moreover have "same_waits w w2" using that(2) by (simp add: same_waits_def w2_def)
    ultimately show ?thesis by blast
  qed
  show ?thesis
  proof (cases "ti_se (wn_timer w t)")
    case None
    then show ?thesis using t assms by (intro finished [of w]) (auto simp: timerStart_def)
  next
    case (Some se)
    show ?thesis
    proof (cases ok)
      case True
      let ?w1 = "put_timer t ((wn_timer w t)\<lparr>ti_started := True\<rparr>) (w\<lparr>wn_armed := insert t (wn_armed w)\<rparr>)"
      have "timer_turn ok w = Some (?w1\<lparr>wn_pulled := ts\<rparr>)"
        using t Some True Cons by (simp add: timer_turn_def timerStart_def)
      moreover have "timers_ok (?w1\<lparr>wn_pulled := ts\<rparr>)" using assms(1) t Cons by (auto simp: timers_ok_def put_timer_def)
      moreover have "links_ok (?w1\<lparr>wn_pulled := ts\<rparr>)" using assms(2) by (auto simp: links_ok_def put_timer_def)
      moreover have "same_waits w (?w1\<lparr>wn_pulled := ts\<rparr>)" by (simp add: same_waits_def put_timer_def)
      ultimately show ?thesis by blast
    next
      case False
      let ?u = "seTimerUnlink se (Some t) w"
      note u = unlink_timer [OF assms t(1) Some]
      have p: "wn_pulled ?u = wn_pulled w" "wn_queue ?u = wn_queue w" "wn_armed ?u = wn_armed w" "wn_fired ?u = wn_fired w"
        by (simp_all add: seTimerUnlink_def put_ev_def put_timer_def)
      note e = timeout_event [of ?u se]
      have "timerStart ok t w = Some (False, eventTimeout se ?u)" using t(1) Some False by (simp add: timerStart_def)
      then show ?thesis using u e p same_waits_trans [of w ?u] by (intro finished [of "eventTimeout se ?u"]) auto
    qed
  qed
qed

section \<open>Waits\<close>

definition is_wait :: "WinEvent \<Rightarrow> bool" where
  "is_wait e \<longleftrightarrow> we_state e = IOCP_EVENT_STATE_WAIT_ACTIVE \<and> we_type e \<noteq> SOCK_EVENT_TYPE_LISTEN"

definition paused :: "WinEvent \<Rightarrow> bool" where
  "paused e \<longleftrightarrow> has (we_flags e) FSE_LISTENER_PAUSED"

text \<open>The state of one event: its timer, its packets, and the waits that were accepted and called back.\<close>

definition event_ok :: "WinEvent \<Rightarrow> nat \<Rightarrow> nat \<Rightarrow> nat \<Rightarrow> bool" where
  "event_ok e packets submits begun \<longleftrightarrow>
     (we_state e = IOCP_EVENT_STATE_IDLE \<or> we_type e = SOCK_EVENT_TYPE_LISTEN \<longrightarrow> we_timer e = None) \<and>
     (we_state e = IOCP_EVENT_STATE_IDLE \<or> we_type e = SOCK_EVENT_TYPE_NONE \<longrightarrow> packets = 0) \<and> (is_wait e \<longrightarrow> packets = 1) \<and> packets \<le> 1 \<and>
     (paused e \<longrightarrow> we_state e = IOCP_EVENT_STATE_WAIT_ACTIVE \<and> we_type e = SOCK_EVENT_TYPE_LISTEN \<and> packets = 0) \<and>
     submits = begun + (if is_wait e then 1 else 0)"

definition waits_ok :: "win \<Rightarrow> bool" where
  "waits_ok w \<longleftrightarrow>
     (\<forall>e. event_ok (wn_event w e) (count (wn_packets w) e) (count (wn_submits w) e) (count (wn_begun w) e))"

definition win_inv :: "win \<Rightarrow> bool" where
  "win_inv w \<longleftrightarrow> timers_ok w \<and> links_ok w \<and> waits_ok w"

lemma event_ok_timer:
  "event_ok e p s b \<Longrightarrow> we_type e' = we_type e \<Longrightarrow> we_state e' = we_state e \<Longrightarrow> we_flags e' = we_flags e \<Longrightarrow>
     we_timer e' = we_timer e \<or> we_timer e' = None \<Longrightarrow> event_ok e' p s b"
  by (auto simp: event_ok_def is_wait_def paused_def)

lemma same_waits_ok: "waits_ok w \<Longrightarrow> same_waits w w' \<Longrightarrow> waits_ok w'"
  unfolding waits_ok_def same_waits_def using event_ok_timer by (metis (no_types))

text \<open>Changing one event.\<close>

lemma waits_put:
  assumes "waits_ok w" "\<And>x. x \<noteq> se \<Longrightarrow> wn_event w' x = wn_event w x \<and> count (wn_packets w') x = count (wn_packets w) x \<and>
      count (wn_submits w') x = count (wn_submits w) x \<and> count (wn_begun w') x = count (wn_begun w) x"
    "event_ok (wn_event w' se) (count (wn_packets w') se) (count (wn_submits w') se) (count (wn_begun w') se)"
  shows "waits_ok w'"
  unfolding waits_ok_def using assms by (metis waits_ok_def)

lemma kill_inv:
  assumes "win_inv w"
  shows "win_inv (snd (sockEventKill_win se w))"
proof -
  have w: "waits_ok w" "timers_ok w" "links_ok w" using assms by (simp_all add: win_inv_def)
  have k: "win_inv (put_ev se ((wn_event w se)\<lparr>we_flags := we_flags (wn_event w se) OR f\<rparr>) w)" if "\<not> has f FSE_LISTENER_PAUSED" for f
  proof -
    have "event_ok (wn_event w se) (count (wn_packets w) se) (count (wn_submits w) se) (count (wn_begun w) se)"
      using w(1) by (simp add: waits_ok_def)
    then have "waits_ok (put_ev se ((wn_event w se)\<lparr>we_flags := we_flags (wn_event w se) OR f\<rparr>) w)"
      using that by (intro waits_put [OF w(1), of se]) (auto simp: put_ev_def event_ok_def is_wait_def paused_def has_or)
    with w show ?thesis by (simp add: win_inv_def put_ev_links)
  qed
  have "\<not> has FSE_LISTENER_KILLED FSE_LISTENER_PAUSED" "\<not> has FSE_CANCELED FSE_LISTENER_PAUSED" by (simp_all add: has_def)
  with k assms show ?thesis by (simp add: sockEventKill_win_def Let_def)
qed

lemma put_ev_simps [simp]:
  "wn_event (put_ev se e w) se = e" "x \<noteq> se \<Longrightarrow> wn_event (put_ev se e w) x = wn_event w x"
  "put_ev se a (put_ev se b w) = put_ev se a w" "wn_packets (put_ev se e w) = wn_packets w"
  "wn_submits (put_ev se e w) = wn_submits w" "wn_begun (put_ev se e w) = wn_begun w" "wn_live (put_ev se e w) = wn_live w"
  "wn_queue (put_ev se e w) = wn_queue w" "wn_timer (put_ev se e w) = wn_timer w"
  "put_ev se e (w\<lparr>wn_packets := p\<rparr>) = (put_ev se e w)\<lparr>wn_packets := p\<rparr>"
  by (simp_all add: put_ev_def)

lemma timers_place [simp]:
  "timers_ok (w\<lparr>wn_packets := p\<rparr>) = timers_ok w" "timers_ok (w\<lparr>wn_submits := p\<rparr>) = timers_ok w"
  "timers_ok (w\<lparr>wn_begun := p\<rparr>) = timers_ok w" "timers_ok (w\<lparr>wn_workers := p\<rparr>) = timers_ok w"
  "links_ok (w\<lparr>wn_begun := p\<rparr>) = links_ok w" "links_ok (w\<lparr>wn_workers := p\<rparr>) = links_ok w"
  by (simp_all add: timers_ok_def links_ok_def)

subsection \<open>Packets\<close>

lemma completed_error_simps [simp]:
  "we_timer (completed_error r e) = we_timer e" "we_type (completed_error r e) = we_type e" "we_state (completed_error r e) = we_state e"
  "paused (completed_error r e) \<Longrightarrow> paused e"
  by (auto simp: completed_error_def paused_def split: if_splits option.splits)

text \<open>The packet of a wait: one callback is started and the event is idle.\<close>

lemma packet_wait:
  assumes "win_inv w" "se \<in># wn_packets w" "we_type (wn_event w se) \<noteq> SOCK_EVENT_TYPE_LISTEN"
  shows "\<exists>w'. IOCPThread_turn result room throttle next se w = Some w' \<and> win_inv w' \<and>
    we_state (wn_event w' se) = IOCP_EVENT_STATE_IDLE \<and> wn_begun w' = add_mset se (wn_begun w) \<and>
    wn_packets w' = wn_packets w - {#se#} \<and> wn_submits w' = wn_submits w"
proof -
  let ?e = "wn_event w se"
  let ?c = "completed_error result ?e"
  let ?w0 = "w\<lparr>wn_packets := wn_packets w - {#se#}\<rparr>"
  have i: "timers_ok w" "links_ok w" "waits_ok w" using assms(1) by (simp_all add: win_inv_def)
  have e: "event_ok ?e (count (wn_packets w) se) (count (wn_submits w) se) (count (wn_begun w) se)"
    using i(3) by (simp add: waits_ok_def)
  have p: "count (wn_packets w) se > 0" using assms(2) by simp
  have act: "we_state ?e = IOCP_EVENT_STATE_WAIT_ACTIVE" "we_type ?e \<noteq> SOCK_EVENT_TYPE_NONE"
    using e p by (cases "we_state ?e"; auto simp: event_ok_def)+
  have one: "count (wn_packets w) se = 1" "\<not> paused ?e" "count (wn_submits w) se = Suc (count (wn_begun w) se)"
    using e p act assms(3) by (auto simp: event_ok_def is_wait_def)
  have kill: "\<exists>w1. TimerKill se (put_ev se x ?w0) = Some w1 \<and> timers_ok w1 \<and> links_ok w1 \<and> same_waits (put_ev se x ?w0) w1 \<and>
      we_timer (wn_event w1 se) = None" if "we_timer x = we_timer ?e" for x
    using i that by (intro TimerKill_ok) (simp_all add: put_ev_links)
  have fin: "win_inv w' \<and> we_state (wn_event w' se) = IOCP_EVENT_STATE_IDLE \<and> wn_begun w' = add_mset se (wn_begun w) \<and>
      wn_packets w' = wn_packets w - {#se#} \<and> wn_submits w' = wn_submits w"
    if k: "timers_ok w1" "links_ok w1" "same_waits (put_ev se x ?w0) w1" "we_timer (wn_event w1 se) = None"
      and x: "we_type x = we_type ?e" "we_flags x = we_flags ?c"
      and w': "w' = (put_ev se ((wn_event w1 se)\<lparr>we_state := IOCP_EVENT_STATE_IDLE, we_timedout := False\<rparr>) w1)\<lparr>wn_begun := add_mset se (wn_begun w1)\<rparr>"
    for w1 x w'
  proof -
    have c: "wn_packets w1 = wn_packets w - {#se#}" "wn_submits w1 = wn_submits w" "wn_begun w1 = wn_begun w"
      "we_type (wn_event w1 se) = we_type ?e" "we_flags (wn_event w1 se) = we_flags ?c"
      using k(3) x by (auto simp: same_waits_def dest: spec [of _ se])
    have "\<not> paused ?c" using one(2) by auto
    then have np: "\<not> has (we_flags (wn_event w1 se)) FSE_LISTENER_PAUSED" using c(5) by (simp add: paused_def)
    have old: "event_ok (wn_event w1 y) (count (wn_packets w) y) (count (wn_submits w) y) (count (wn_begun w) y)" if "y \<noteq> se" for y
    proof -
      have "we_type (wn_event w1 y) = we_type (wn_event w y)" "we_state (wn_event w1 y) = we_state (wn_event w y)"
        "we_flags (wn_event w1 y) = we_flags (wn_event w y)"
        "we_timer (wn_event w1 y) = we_timer (wn_event w y) \<or> we_timer (wn_event w1 y) = None"
        using k(3) that by (auto simp: same_waits_def put_ev_def dest: spec [of _ y])
      moreover have "event_ok (wn_event w y) (count (wn_packets w) y) (count (wn_submits w) y) (count (wn_begun w) y)"
        using i(3) by (simp add: waits_ok_def)
      ultimately show ?thesis using event_ok_timer by blast
    qed
    have "event_ok (wn_event w' y) (count (wn_packets w') y) (count (wn_submits w') y) (count (wn_begun w') y)" for y
    proof (cases "y = se")
      case True
      then show ?thesis using w' c k(4) one np by (simp add: event_ok_def is_wait_def paused_def)
    next
      case False
      then show ?thesis using w' c old [OF False] by (simp add: put_ev_def)
    qed
    then have "waits_ok w'" by (simp add: waits_ok_def)
    moreover have "timers_ok w'" "links_ok w'" using k w' by (simp_all add: put_ev_links)
    ultimately show ?thesis using w' c by (simp add: win_inv_def)
  qed
  show ?thesis
  proof (cases "we_type ?e \<in> {SOCK_EVENT_TYPE_WRITABLE, SOCK_EVENT_TYPE_READABLE}")
    case True
    let ?x = "?c\<lparr>we_state := IOCP_EVENT_STATE_IDLE\<rparr>"
    obtain w1 where w1: "TimerKill se (put_ev se ?x ?w0) = Some w1" "timers_ok w1" "links_ok w1" "same_waits (put_ev se ?x ?w0) w1"
      "we_timer (wn_event w1 se) = None" using kill [of ?x] by auto
    have st: "we_state (wn_event w1 se) = IOCP_EVENT_STATE_IDLE" "we_type (wn_event w1 se) = we_type ?e"
      using w1(4) by (auto simp: same_waits_def dest: spec [of _ se])
    let ?w = "(put_ev se ((wn_event w1 se)\<lparr>we_state := IOCP_EVENT_STATE_IDLE, we_timedout := False\<rparr>) w1)\<lparr>wn_begun := add_mset se (wn_begun w1)\<rparr>"
    have "(wn_event w1 se)\<lparr>we_timedout := False\<rparr> = (wn_event w1 se)\<lparr>we_state := IOCP_EVENT_STATE_IDLE, we_timedout := False\<rparr>"
      using st(1) by simp
    then have "IOCPThread_turn result room throttle next se w = Some ?w"
      using True act(1) w1(1) st(2) assms(3) by (auto simp: IOCPThread_turn_def iocp_packet_def complete_wait_def)
    with fin [OF w1(2-5), of ?w] show ?thesis by auto
  next
    case False
    then have ty: "we_type ?e = SOCK_EVENT_TYPE_CONNECT \<or> we_type ?e = SOCK_EVENT_TYPE_DISCONNECT"
      using act(2) assms(3) by (cases "we_type ?e") auto
    obtain w1 where w1: "TimerKill se (put_ev se ?c ?w0) = Some w1" "timers_ok w1" "links_ok w1" "same_waits (put_ev se ?c ?w0) w1"
      "we_timer (wn_event w1 se) = None" using kill [of ?c] by auto
    have st: "we_type (wn_event w1 se) = we_type ?e" using w1(4) by (auto simp: same_waits_def dest: spec [of _ se])
    let ?w = "(put_ev se ((wn_event w1 se)\<lparr>we_state := IOCP_EVENT_STATE_IDLE, we_timedout := False\<rparr>) w1)\<lparr>wn_begun := add_mset se (wn_begun w1)\<rparr>"
    have "IOCPThread_turn result room throttle next se w = Some ?w"
      using ty act(1) w1(1) st assms(3) by (auto simp: IOCPThread_turn_def iocp_packet_def complete_connect_def)
    with fin [OF w1(2-5), of ?w] show ?thesis by auto
  qed
qed

text \<open>The packet of a listener.\<close>

lemma packet_listen:
  assumes "win_inv w" "se \<in># wn_packets w" "we_type (wn_event w se) = SOCK_EVENT_TYPE_LISTEN"
  shows "\<exists>w'. IOCPThread_turn result room throttle next se w = Some w' \<and> win_inv w'"
proof -
  let ?e = "wn_event w se"
  let ?w0 = "w\<lparr>wn_packets := wn_packets w - {#se#}\<rparr>"
  have i: "timers_ok w" "links_ok w" "waits_ok w" using assms(1) by (simp_all add: win_inv_def)
  have e: "event_ok ?e (count (wn_packets w) se) (count (wn_submits w) se) (count (wn_begun w) se)"
    using i(3) by (simp add: waits_ok_def)
  have p: "count (wn_packets w) se > 0" using assms(2) by simp
  have act: "we_state ?e = IOCP_EVENT_STATE_WAIT_ACTIVE" using e p by (cases "we_state ?e"; auto simp: event_ok_def)
  have one: "count (wn_packets w) se = 1" "\<not> paused ?e" "count (wn_submits w) se = count (wn_begun w) se" "we_timer ?e = None"
  proof -
    have "count (wn_packets w) se \<le> 1" using e by (simp add: event_ok_def)
    then show "count (wn_packets w) se = 1" using p by linarith
  qed (use e p act assms(3) in \<open>auto simp: event_ok_def is_wait_def\<close>)
  have fin: "win_inv w'"
    if "wn_event w' = (wn_event w)(se := x)" "we_timer x = None" "we_type x = SOCK_EVENT_TYPE_LISTEN"
      "wn_packets w' = q" "wn_submits w' = wn_submits w" "wn_begun w' = wn_begun w" "timers_ok w'" "links_ok w'"
      "\<And>y. y \<noteq> se \<Longrightarrow> count q y = count (wn_packets w) y" "count q se \<le> 1"
      "we_state x = IOCP_EVENT_STATE_IDLE \<Longrightarrow> count q se = 0 \<and> \<not> paused x" "paused x \<Longrightarrow> count q se = 0"
    for w' x q
  proof -
    have "event_ok x (count q se) (count (wn_submits w) se) (count (wn_begun w) se)"
      using that one(3) by (cases "we_state x") (auto simp: event_ok_def is_wait_def)
    then have "waits_ok w'" using that by (intro waits_put [OF i(3), of se]) auto
    with that show ?thesis by (simp add: win_inv_def)
  qed
  have q: "count (wn_packets w - {#se#}) se = 0" "count (add_mset se (wn_packets w - {#se#})) se = 1" using one(1) by simp_all
  have turn: "IOCPThread_turn result room throttle next se w =
      (case complete_listen result room throttle next se ?w0 of (c, w1) \<Rightarrow>
         Some (let w2 = put_ev se ((wn_event w1 se)\<lparr>we_timedout := False\<rparr>) w1
               in if \<not> c then w2 else if we_type (wn_event w1 se) = SOCK_EVENT_TYPE_LISTEN then w2\<lparr>wn_workers := add_mset se (wn_workers w2)\<rparr>
                  else w2\<lparr>wn_begun := add_mset se (wn_begun w2)\<rparr>))"
    using assms(3) by (simp add: IOCPThread_turn_def iocp_packet_def Let_def split: prod.split)
  let ?e1 = "if room then ?e else ?e\<lparr>we_acceptSocket := - 1\<rparr>"
  consider (gone) "\<not> (result = None \<and> we_flags ?e \<noteq> FSE_LISTENER_KILLED)"
    | (throttled) "result = None \<and> we_flags ?e \<noteq> FSE_LISTENER_KILLED" "throttle"
    | (more) "result = None \<and> we_flags ?e \<noteq> FSE_LISTENER_KILLED" "\<not> throttle" "snd next = 0"
    | (failed) "result = None \<and> we_flags ?e \<noteq> FSE_LISTENER_KILLED" "\<not> throttle" "snd next \<noteq> 0" by blast
  then show ?thesis
  proof cases
    case gone
    let ?w = "(put_ev se (?e\<lparr>we_state := IOCP_EVENT_STATE_IDLE, we_timedout := False\<rparr>) ?w0)\<lparr>wn_workers := add_mset se (wn_workers w)\<rparr>"
    have "IOCPThread_turn result room throttle next se w = Some ?w"
      unfolding turn using gone act assms(3) by (auto simp: complete_listen_def put_ev_def)
    moreover have "win_inv ?w"
      by (rule fin [where x = "?e\<lparr>we_state := IOCP_EVENT_STATE_IDLE, we_timedout := False\<rparr>" and q = "wn_packets w - {#se#}"])
        (use i one assms(3) q in \<open>simp_all add: put_ev_links paused_def\<close>, simp add: put_ev_def)
    ultimately show ?thesis by blast
  next
    case throttled
    let ?x = "?e1\<lparr>we_flags := we_flags ?e OR FSE_LISTENER_PAUSED, we_timedout := False\<rparr>"
    let ?w = "(put_ev se ?x ?w0)\<lparr>wn_workers := add_mset se (wn_workers w)\<rparr>"
    have "IOCPThread_turn result room throttle next se w = Some ?w"
      unfolding turn using throttled act assms(3) by (auto simp: complete_listen_def put_ev_def)
    moreover have "win_inv ?w"
      by (rule fin [where x = ?x and q = "wn_packets w - {#se#}"])
        (use i one assms(3) q act in \<open>simp_all add: put_ev_links paused_def split: if_splits\<close>, simp_all add: put_ev_def)
    ultimately show ?thesis by blast
  next
    case more
    let ?x = "?e\<lparr>we_acceptSocket := fst next, we_error := 0, we_timedout := False\<rparr>"
    let ?w = "(put_ev se ?x ?w0)\<lparr>wn_packets := add_mset se (wn_packets w - {#se#})\<rparr>"
    have "IOCPThread_turn result room throttle next se w = Some ?w"
      unfolding turn using more act assms(3) by (auto simp: complete_listen_def acceptNext_def event_error_def put_ev_def Let_def split_beta)
    moreover have "win_inv ?w"
      by (rule fin [where x = ?x and q = "add_mset se (wn_packets w - {#se#})"])
        (use i one assms(3) q act in \<open>simp_all add: put_ev_links paused_def\<close>, simp add: put_ev_def)
    ultimately show ?thesis by blast
  next
    case failed
    let ?x = "?e\<lparr>we_acceptSocket := fst next, we_error := snd next, we_state := IOCP_EVENT_STATE_IDLE, we_timedout := False\<rparr>"
    let ?w = "(put_ev se ?x ?w0)\<lparr>wn_workers := add_mset se (wn_workers w)\<rparr>"
    have "IOCPThread_turn result room throttle next se w = Some ?w"
      unfolding turn using failed act assms(3) by (auto simp: complete_listen_def acceptNext_def event_error_def put_ev_def Let_def split_beta)
    moreover have "win_inv ?w"
      by (rule fin [where x = ?x and q = "wn_packets w - {#se#}"])
        (use i one assms(3) q in \<open>simp_all add: put_ev_links paused_def\<close>, simp add: put_ev_def)
    ultimately show ?thesis by blast
  qed
qed


subsection \<open>Adding\<close>

text \<open>An idle event can be given another type, error and timeout mark.\<close>

lemma idle_change:
  assumes "win_inv w" "we_state (wn_event w se) = IOCP_EVENT_STATE_IDLE"
    "we_state e = IOCP_EVENT_STATE_IDLE" "we_timer e = we_timer (wn_event w se)" "we_flags e = we_flags (wn_event w se)"
  shows "win_inv (put_ev se e w)"
proof -
  have "event_ok (wn_event w se) (count (wn_packets w) se) (count (wn_submits w) se) (count (wn_begun w) se)"
    using assms(1) by (simp add: win_inv_def waits_ok_def)
  then have "event_ok e (count (wn_packets w) se) (count (wn_submits w) se) (count (wn_begun w) se)"
    using assms(2-5) by (auto simp: event_ok_def is_wait_def paused_def)
  moreover have "waits_ok w" using assms(1) by (simp add: win_inv_def)
  ultimately have "waits_ok (put_ev se e w)" by - (rule waits_put [of w se], simp_all)
  with assms(1,4) show ?thesis by (simp add: win_inv_def put_ev_links)
qed

definition fresh_timer :: "ptr option \<Rightarrow> win \<Rightarrow> win \<Rightarrow> bool" where
  "fresh_timer timer w w1 \<longleftrightarrow>
     (case timer of
        None \<Rightarrow> w1 = w
      | Some t \<Rightarrow> t \<notin> wn_live w \<and> (\<exists>n. w1 = put_timer t \<lparr>ti_se = None, ti_started = False, ti_len = n\<rparr> (w\<lparr>wn_live := insert t (wn_live w)\<rparr>)))"

lemma alloc_fresh:
  assumes "seTimerAlloc ms memory handle w = (timer, err, w1)" "\<And>t. memory = Some t \<Longrightarrow> t \<notin> wn_live w"
  shows "fresh_timer timer w w1 \<and> (err \<noteq> 0 \<longrightarrow> timer = None \<and> w1 = w) \<and> wn_event w1 = wn_event w"
  using assms by (auto simp: seTimerAlloc_def fresh_timer_def put_timer_def split: if_splits option.splits)

text \<open>What \<open>after_submit\<close> leaves behind.\<close>

lemma submit_inv:
  assumes "win_inv w" "we_state (wn_event w se) = IOCP_EVENT_STATE_IDLE"
    "we_type (wn_event w se) \<notin> {SOCK_EVENT_TYPE_LISTEN, SOCK_EVENT_TYPE_NONE}" "fresh_timer timer w w1" "answer \<noteq> Done_already"
  shows "\<exists>r d w'. after_submit se timer answer (seTimerLink se timer w1) = Some (r, d, w') \<and> win_inv w'"
proof -
  let ?e = "wn_event w se"
  have i: "timers_ok w" "links_ok w" "waits_ok w" using assms(1) by (simp_all add: win_inv_def)
  have e: "event_ok ?e (count (wn_packets w) se) (count (wn_submits w) se) (count (wn_begun w) se)"
    using i(3) by (simp add: waits_ok_def)
  then have idle: "we_timer ?e = None" "count (wn_packets w) se = 0" "\<not> paused ?e" "count (wn_submits w) se = count (wn_begun w) se"
    using assms(2) by (auto simp: event_ok_def is_wait_def)
  have l: "we_timer (wn_event w y) = Some x \<longleftrightarrow> x \<in> wn_live w \<and> ti_se (wn_timer w x) = Some y" for x y
    using i(2) by (simp add: links_ok_def)
  have accepted: "win_inv w'"
    if "wn_event w' = (wn_event w)(se := x)" "we_type x = we_type ?e" "we_state x = IOCP_EVENT_STATE_WAIT_ACTIVE" "we_flags x = we_flags ?e"
      "wn_packets w' = add_mset se (wn_packets w)" "wn_submits w' = add_mset se (wn_submits w)" "wn_begun w' = wn_begun w"
      "timers_ok w'" "links_ok w'" for w' x
  proof -
    have "event_ok x (Suc (count (wn_packets w) se)) (Suc (count (wn_submits w) se)) (count (wn_begun w) se)"
      using that(2-4) idle assms(3) by (auto simp: event_ok_def is_wait_def paused_def)
    then have "waits_ok w'" using that by (intro waits_put [OF i(3), of se]) auto
    with that show ?thesis by (simp add: win_inv_def)
  qed
  show ?thesis
  proof (cases timer)
    case None
    then have w1: "w1 = w" using assms(4) by (simp add: fresh_timer_def)
    show ?thesis
    proof (cases answer)
      case Submitted
      let ?w = "(submitted se w)\<lparr>wn_submits := add_mset se (wn_submits w)\<rparr>"
      have "after_submit se timer answer (seTimerLink se timer w1) = Some (0, False, ?w)"
        using None w1 Submitted by (simp add: after_submit_def seTimerLink_def timerEnqueue_def)
      moreover have "win_inv ?w"
        by (rule accepted [where x = "?e\<lparr>we_state := IOCP_EVENT_STATE_WAIT_ACTIVE\<rparr>"])
          (use i in \<open>simp_all add: submitted_def put_ev_links\<close>, simp add: put_ev_def)
      ultimately show ?thesis by blast
    next
      case (Refused err)
      let ?w = "put_ev se (?e\<lparr>we_error := err, we_timer := None\<rparr>) w"
      have "after_submit se timer answer (seTimerLink se timer w1) = Some (- 1, False, ?w)"
        using None w1 Refused by (simp add: after_submit_def seTimerLink_def seTimerUnlink_def seTimerFree_def event_error_def)
      moreover have "win_inv ?w" using idle assms(1,2) by (intro idle_change) simp_all
      ultimately show ?thesis by blast
    qed (use assms(5) in simp)
  next
    case (Some t)
    obtain n where t: "t \<notin> wn_live w"
      and w1: "w1 = put_timer t \<lparr>ti_se = None, ti_started = False, ti_len = n\<rparr> (w\<lparr>wn_live := insert t (wn_live w)\<rparr>)"
      using assms(4) Some by (auto simp: fresh_timer_def)
    show ?thesis
    proof (cases answer)
      case Submitted
      let ?x = "?e\<lparr>we_timer := Some t, we_state := IOCP_EVENT_STATE_WAIT_ACTIVE\<rparr>"
      let ?w = "w\<lparr>wn_event := (wn_event w)(se := ?x), wn_timer := (wn_timer w)(t := \<lparr>ti_se = Some se, ti_started = False, ti_len = n\<rparr>),
        wn_live := insert t (wn_live w), wn_queue := t # wn_queue w, wn_packets := add_mset se (wn_packets w),
        wn_submits := add_mset se (wn_submits w)\<rparr>"
      have "after_submit se timer answer (seTimerLink se timer w1) = Some (0, False, ?w)"
        using Some w1 Submitted by (simp add: after_submit_def seTimerLink_def timerEnqueue_def submitted_def put_ev_def put_timer_def)
      moreover have "timers_ok ?w" using i(1) t by (auto simp: timers_ok_def)
      moreover have "links_ok ?w" using l t idle(1) l [of se] by (auto simp: links_ok_def)
      then have "win_inv ?w" using calculation(2) by (intro accepted [where x = ?x]) simp_all
      ultimately show ?thesis by blast
    next
      case (Refused err)
      let ?x = "?e\<lparr>we_error := err, we_timer := None\<rparr>"
      let ?w = "w\<lparr>wn_event := (wn_event w)(se := ?x), wn_timer := (wn_timer w)(t := \<lparr>ti_se = None, ti_started = False, ti_len = n\<rparr>)\<rparr>"
      have "insert t (wn_live w) - {t} = wn_live w" using t by auto
      then have "after_submit se timer answer (seTimerLink se timer w1) = Some (- 1, False, ?w)"
        using Some w1 Refused
        by (simp add: after_submit_def seTimerLink_def seTimerUnlink_def seTimerFree_def event_error_def put_ev_def put_timer_def)
      moreover have "win_inv (put_ev se ?x w)" using idle assms(1,2) by (intro idle_change) simp_all
      then have "win_inv ?w"
        using t unfolding win_inv_def timers_ok_def links_ok_def waits_ok_def put_ev_def by auto
      ultimately show ?thesis by blast
    qed (use assms(5) in simp)
  qed
qed

lemma add_listen_inv:
  assumes "win_inv w" "we_state (wn_event w se) = IOCP_EVENT_STATE_IDLE" "we_type (wn_event w se) = SOCK_EVENT_TYPE_LISTEN"
  shows "\<exists>r d w'. add_listen accept se w = Some (r, d, w') \<and> win_inv w'"
proof -
  let ?e = "wn_event w se"
  have i: "timers_ok w" "links_ok w" "waits_ok w" using assms(1) by (simp_all add: win_inv_def)
  have e: "event_ok ?e (count (wn_packets w) se) (count (wn_submits w) se) (count (wn_begun w) se)"
    using i(3) by (simp add: waits_ok_def)
  show ?thesis
  proof (cases "snd accept = 0")
    case True
    let ?x = "?e\<lparr>we_acceptSocket := fst accept, we_error := 0, we_state := IOCP_EVENT_STATE_WAIT_ACTIVE\<rparr>"
    let ?w = "(put_ev se ?x w)\<lparr>wn_packets := add_mset se (wn_packets w)\<rparr>"
    have "add_listen accept se w = Some (0, False, ?w)"
      using True assms(2) by (simp add: add_listen_def acceptNext_def event_error_def Let_def split_beta put_ev_def)
    moreover have "event_ok ?x (Suc (count (wn_packets w) se)) (count (wn_submits w) se) (count (wn_begun w) se)"
      using e assms(2,3) by (auto simp: event_ok_def is_wait_def paused_def)
    then have "waits_ok ?w" by - (rule waits_put [OF i(3), of se], simp_all)
    then have "win_inv ?w" using i by (simp add: win_inv_def put_ev_links)
    ultimately show ?thesis by blast
  next
    case False
    let ?x = "?e\<lparr>we_acceptSocket := fst accept, we_error := snd accept\<rparr>"
    have "add_listen accept se w = Some (- 1, False, put_ev se ?x w)"
      using False assms(2) by (simp add: add_listen_def acceptNext_def event_error_def Let_def split_beta put_ev_def)
    moreover have "win_inv (put_ev se ?x w)" using assms(1,2) by (intro idle_change) simp_all
    ultimately show ?thesis by blast
  qed
qed

lemma add_inv:
  assumes "win_inv w" "we_state (wn_event w se) = IOCP_EVENT_STATE_IDLE" "\<And>t. ad_memory a = Some t \<Longrightarrow> t \<notin> wn_live w"
    "ad_submit a \<noteq> Done_already"
  shows "\<exists>r d w'. sockEventAdd_win a accept se w = Some (r, d, w') \<and> win_inv w'"
proof -
  let ?w1 = "put_ev se ((wn_event w se)\<lparr>we_error := 0, we_timedout := False\<rparr>) w"
  have w1: "win_inv ?w1" "we_state (wn_event ?w1 se) = IOCP_EVENT_STATE_IDLE" "\<And>t. ad_memory a = Some t \<Longrightarrow> t \<notin> wn_live ?w1"
    using assms(1-3) by (auto intro!: idle_change)
  have err: "win_inv (event_error se x ?w1)" for x
  proof -
    have "win_inv (put_ev se ((wn_event w se)\<lparr>we_timedout := False, we_error := x\<rparr>) w)"
      using assms(1,2) by (intro idle_change) simp_all
    then show ?thesis by (simp add: event_error_def)
  qed
  obtain timer x w2 where al: "seTimerAlloc (ad_ms a) (ad_memory a) (ad_handle a) ?w1 = (timer, x, w2)" by (metis surj_pair)
  note f = alloc_fresh [OF al w1(3)]
  have wait: "(\<exists>r d w'. add_wait a se ?w1 = Some (r, d, w') \<and> win_inv w') \<and> (\<exists>r d w'. add_connect a se ?w1 = Some (r, d, w') \<and> win_inv w')"
    if ty: "we_type (wn_event ?w1 se) \<notin> {SOCK_EVENT_TYPE_LISTEN, SOCK_EVENT_TYPE_NONE}"
  proof (cases "x = 0")
    case True
    have ans: "(case ad_submit a of Done_already \<Rightarrow> Submitted | y \<Rightarrow> y) = ad_submit a" using assms(4) by (cases "ad_submit a") simp_all
    have st: "we_state (wn_event w2 se) = IOCP_EVENT_STATE_IDLE" using f w1(2) by simp
    have "add_wait a se ?w1 = after_submit se timer (ad_submit a) (seTimerLink se timer w2)"
      using al True st ans by (simp add: add_wait_def)
    moreover have "add_connect a se ?w1 = after_submit se timer (ad_submit a) (seTimerLink se timer w2)"
      using al True w1(2) by (simp add: add_connect_def)
    moreover have "\<exists>r d w'. after_submit se timer (ad_submit a) (seTimerLink se timer w2) = Some (r, d, w') \<and> win_inv w'"
      using submit_inv [OF w1(1,2) ty _ assms(4)] f by blast
    ultimately show ?thesis by simp
  next
    case False
    then have "w2 = ?w1" using f by blast
    then show ?thesis using al False err [of x] w1(2) by (auto simp: add_wait_def add_connect_def)
  qed
  show ?thesis
  proof (cases "ad_link a")
    case (Some e)
    then show ?thesis using err [of e] by (auto simp: sockEventAdd_win_def Let_def)
  next
    case None
    show ?thesis
    proof (cases "we_type (wn_event ?w1 se)")
      case SOCK_EVENT_TYPE_NONE
      then show ?thesis using None w1(1) by (auto simp: sockEventAdd_win_def Let_def)
    next
      case SOCK_EVENT_TYPE_LISTEN
      with add_listen_inv [OF w1(1,2)] None show ?thesis by (simp add: sockEventAdd_win_def Let_def)
    qed (use None wait in \<open>simp_all add: sockEventAdd_win_def Let_def\<close>)
  qed
qed

lemma requeue_inv:
  assumes "win_inv w" "paused (wn_event w se)"
  shows "win_inv (snd (sockEventListenerRequeue_win answer se w))"
proof -
  let ?e = "wn_event w se"
  have i: "timers_ok w" "links_ok w" "waits_ok w" using assms(1) by (simp_all add: win_inv_def)
  have e: "event_ok ?e (count (wn_packets w) se) (count (wn_submits w) se) (count (wn_begun w) se)"
    using i(3) by (simp add: waits_ok_def)
  define flags where "flags = we_flags ?e AND NOT (FSE_LISTENER_PAUSED OR FSE_LISTENER_SUSPENDED)"
  have np: "\<not> has flags FSE_LISTENER_PAUSED"
    unfolding flags_def using has_clear_self [of "we_flags ?e" "FSE_LISTENER_PAUSED OR FSE_LISTENER_SUSPENDED"]
    by (simp only: has_or_right) simp
  let ?x = "?e\<lparr>we_flags := flags, we_acceptSocket := fst answer, we_error := snd answer\<rparr>"
  let ?q = "if snd answer = 0 then add_mset se (wn_packets w) else wn_packets w"
  let ?w = "(put_ev se ?x w)\<lparr>wn_packets := ?q\<rparr>"
  have "snd (sockEventListenerRequeue_win answer se w) = ?w"
    by (simp add: sockEventListenerRequeue_win_def acceptNext_def event_error_def Let_def split_beta put_ev_def flags_def)
  moreover have "event_ok ?x (count ?q se) (count (wn_submits w) se) (count (wn_begun w) se)"
    using e assms(2) np by (auto simp: event_ok_def is_wait_def paused_def)
  then have "waits_ok ?w" by - (rule waits_put [OF i(3), of se], simp_all)
  then have "win_inv ?w" using i by (simp add: win_inv_def put_ev_links)
  ultimately show ?thesis by simp
qed

lemma win_run_inv: "win_run w \<Longrightarrow> win_inv w"
proof (induction rule: win_run.induct)
  case (init w)
  then show ?case by (auto simp: win_inv_def timers_ok_def links_ok_def waits_ok_def event_ok_def is_wait_def paused_def)
next
  case (add w se a accept ty r d w')
  have "win_inv (put_ev se ((wn_event w se)\<lparr>we_type := ty\<rparr>) w)" using add.IH add.hyps(2) by (intro idle_change) simp_all
  from add_inv [OF this, of se a accept] add.hyps(2-5) show ?case by auto
next
  case (kill w se)
  then show ?case by (simp add: kill_inv)
next
  case (packet w se result room throttle nxt w')
  from packet_wait [OF packet.IH packet.hyps(2)] packet_listen [OF packet.IH packet.hyps(2)] packet.hyps(3) show ?case
    by (metis option.inject)
next
  case (requeue w se answer)
  then show ?case by (simp add: requeue_inv paused_def)
next
  case (fire w t)
  then have "t \<notin> wn_fired w" by (auto simp: win_inv_def timers_ok_def)
  with fire show ?case by (auto simp: win_inv_def timers_ok_def links_ok_def waits_ok_def)
next
  case (callback w t w')
  from timerCallback_ok [of w t] callback same_waits_ok show ?case by (auto simp: win_inv_def)
next
  case (pull w)
  then show ?case by (auto simp: win_inv_def timer_pull_def timers_ok_def links_ok_def waits_ok_def)
next
  case (turn w ok w')
  from timer_turn_ok [of w ok] turn same_waits_ok show ?case by (auto simp: win_inv_def)
qed

section \<open>What the engine promises\<close>


text \<open>A run: an event with a timeout is added, its timer is started, and the packet comes before the timer fires.\<close>

definition demo_win :: win where
  "demo_win =
     \<lparr>wn_event = (\<lambda>_. \<lparr>we_type = SOCK_EVENT_TYPE_NONE, we_state = IOCP_EVENT_STATE_IDLE, we_error = 0, we_flags = 0, we_timer = None,
                      we_timedout = False, we_acceptSocket = - 1\<rparr>),
      wn_timer = (\<lambda>_. \<lparr>ti_se = None, ti_started = False, ti_len = 0\<rparr>), wn_live = {}, wn_queue = [], wn_pulled = [], wn_armed = {},
      wn_fired = {}, wn_packets = {#}, wn_submits = {#}, wn_begun = {#}, wn_workers = {#}\<rparr>"

definition demo_answers :: add_answers where
  "demo_answers = \<lparr>ad_link = None, ad_ms = 1000, ad_memory = Some 50, ad_handle = None, ad_submit = Submitted\<rparr>"

definition demo_win_waiting :: win where
  "demo_win_waiting =
     (case sockEventAdd_win demo_answers (0, 0) 7 (put_ev 7 ((wn_event demo_win 7)\<lparr>we_type := SOCK_EVENT_TYPE_READABLE\<rparr>) demo_win) of
        Some (r, d, w) \<Rightarrow> timer_pull w | None \<Rightarrow> demo_win)"

lemmas demo_win_defs = demo_win_def demo_answers_def sockEventAdd_win_def add_wait_def seTimerAlloc_def seTimerLink_def after_submit_def
  submitted_def timerEnqueue_def put_ev_def put_timer_def timer_pull_def

lemma demo_win_waiting_run: "win_run demo_win_waiting"
proof -
  have start: "win_run demo_win" by (rule win_run.init) (simp_all add: demo_win_def)
  obtain r d w where w: "sockEventAdd_win demo_answers (0, 0) 7
      (put_ev 7 ((wn_event demo_win 7)\<lparr>we_type := SOCK_EVENT_TYPE_READABLE\<rparr>) demo_win) = Some (r, d, w)"
    by (auto simp: demo_win_defs)
  have "win_run w" by (rule win_run.add [OF start _ _ _ w]) (simp_all add: demo_win_def demo_answers_def)
  moreover have "wn_pulled w = []" using w by (auto simp: demo_win_defs)
  ultimately show ?thesis using win_run.pull w by (simp add: demo_win_waiting_def)
qed

lemma demo_win_waiting_state:
  "wn_live demo_win_waiting = {50}" "wn_pulled demo_win_waiting = [50]" "7 \<in># wn_packets demo_win_waiting" "is_wait (wn_event demo_win_waiting 7)"
  by (simp_all add: demo_win_waiting_def demo_win_defs is_wait_def)




section \<open>Where whole calls are not enough\<close>

text \<open>
  \<^verbatim>\<open>TimerKill()\<close> reads the timer of the event before it has the lock of the timer.  When the callback of the timer runs
  in between, the lock is taken in memory that has been freed.
\<close>

lemma callback_frees_under_kill:
  assumes "timerCallback t w = Some w'"
  shows "timer_cancel se t w' = None"
proof -
  have "t \<notin> wn_live w'" using assms by (auto simp: timerCallback_def seTimerFree_def Let_def split: if_splits)
  then show ?thesis by (simp add: timer_cancel_def)
qed

text \<open>A listener that cannot be put back into the port stays marked as active, with no packet that could end it.\<close>

lemma failed_requeue_stays_active:
  assumes "err \<noteq> 0"
  shows "fst (sockEventListenerRequeue_win (soc, err) se w)"
    "we_state (wn_event (snd (sockEventListenerRequeue_win (soc, err) se w)) se) = we_state (wn_event w se)"
    "wn_packets (snd (sockEventListenerRequeue_win (soc, err) se w)) = wn_packets w"
  using assms by (simp_all add: sockEventListenerRequeue_win_def acceptNext_def event_error_def Let_def put_ev_def)

text \<open>A connect that is done at once frees its timer and leaves the event idle, so that a packet for it starts nothing.\<close>

lemma packet_of_idle_event:
  assumes "we_state (wn_event w se) = IOCP_EVENT_STATE_IDLE" "IOCPThread_turn result room throttle nxt se w = Some w'"
  shows "wn_begun w' = wn_begun w" "wn_workers w' = wn_workers w"
  using assms
  by (cases "we_type (wn_event w se)";
      auto simp: IOCPThread_turn_def iocp_packet_def complete_wait_def complete_connect_def complete_listen_def Let_def put_ev_def)+

end
