(* ===== verification/WaitContract.thy ===== *)
theory WaitContract
  imports SockProps WinProps
begin

text \<open>
  What the rest of the library relies on when it waits for a socket, whatever the platform: a wait that was
  accepted is called back once.  The two engines, of \<^verbatim>\<open>sockunix.c\<close> and of \<^verbatim>\<open>sockwin.c\<close>, have this contract.
\<close>

text \<open>
  \<open>accepted\<close> are the waits the engine took, \<open>begun\<close> those a callback was started for, and \<open>waiting\<close> tells what is pending.
\<close>

locale wait_engine =
  fixes run :: "'s \<Rightarrow> bool"
    and accepted :: "'s \<Rightarrow> 'e multiset"
    and begun :: "'s \<Rightarrow> 'e multiset"
    and waiting :: "'s \<Rightarrow> 'e \<Rightarrow> bool"
  assumes balance: "run s \<Longrightarrow> count (accepted s) e = count (begun s) e + (if waiting s e then 1 else 0)"
begin

text \<open>No callback without a wait.\<close>

lemma begun_accepted: "run s \<Longrightarrow> begun s \<subseteq># accepted s"
  by (rule mset_subset_eqI) (simp add: balance)

text \<open>Never two waits for the same event at a time.\<close>

lemma one_pending: "run s \<Longrightarrow> count (accepted s - begun s) e \<le> 1"
  by (simp add: balance)

lemma pending_iff: "run s \<Longrightarrow> e \<in># accepted s - begun s \<longleftrightarrow> waiting s e"
  by (simp add: balance in_diff_count)

text \<open>When nothing is pending every wait was called back, and from then on one more wait means one more callback.\<close>

lemma all_called_back: "run s \<Longrightarrow> (\<And>e. \<not> waiting s e) \<Longrightarrow> begun s = accepted s"
  by (rule multiset_eqI) (simp add: balance)

lemma callbacks_between:
  assumes "run s" "run s'" "\<And>e. \<not> waiting s e" "\<And>e. \<not> waiting s' e" "accepted s' = accepted s + m"
  shows "begun s' = begun s + m"
  using all_called_back [OF assms(1,3)] all_called_back [OF assms(2,4)] assms(5) by simp

end

definition unix_run :: "slot \<Rightarrow> slot_world \<Rightarrow> bool" where
  "unix_run sl v \<longleftrightarrow> (\<exists>v0. slot_initial sl v0 \<and> (sstep sl)\<^sup>*\<^sup>* v0 v)"

interpretation unix: wait_engine "unix_run sl" "\<lambda>v. mset (waits v)" "\<lambda>v. mset (called v)"
    "\<lambda>v e. se_cbArg (get_se sl (ss v)) = Some e" for sl
proof
  fix v e
  assume "unix_run sl v"
  then obtain v0 where "slot_initial sl v0" "(sstep sl)\<^sup>*\<^sup>* v0 v" by (auto simp: unix_run_def)
  then have "waits v = called v @ (case se_cbArg (get_se sl (ss v)) of None \<Rightarrow> [] | Some ce \<Rightarrow> [ce])"
    using slot_reachable_inv by (auto simp: slot_inv_def Let_def)
  then show "count (mset (waits v)) e = count (mset (called v)) e + (if se_cbArg (get_se sl (ss v)) = Some e then 1 else 0)"
    by (simp split: option.split)
qed

interpretation windows: wait_engine win_run wn_submits wn_begun "\<lambda>w e. is_wait (wn_event w e)"
proof
  fix w e
  assume "win_run w"
  then have "event_ok (wn_event w e) (count (wn_packets w) e) (count (wn_submits w) e) (count (wn_begun w) e)"
    using win_run_inv by (auto simp: win_inv_def waits_ok_def)
  then show "count (wn_submits w) e = count (wn_begun w) e + (if is_wait (wn_event w e) then 1 else 0)"
    by (simp add: event_ok_def)
qed

text \<open>On both platforms: an engine with nothing pending has called every wait back, and starts no other callback.\<close>

lemma unix_calls_back_all:
  assumes "unix_run sl v" "se_cbArg (get_se sl (ss v)) = None"
  shows "mset (called v) = mset (waits v)"
  using assms(1) by (rule unix.all_called_back) (simp add: assms(2))

lemma windows_calls_back_all:
  assumes "win_run w" "\<And>e. \<not> is_wait (wn_event w e)"
  shows "wn_begun w = wn_submits w"
  using assms by (rule windows.all_called_back)

end
