(* ===== verification/WinSockets.thy ===== *)
theory WinSockets
  imports SockIO "HOL-Library.Signed_Division"
begin

text \<open>
  The socket calls of the Windows build (\<^verbatim>\<open>src/src/sockwin.c\<close>) that its engine does not make: timeouts, blocking
  waits, starting a connect and a disconnect, and the start and end of the completion port.
\<close>

section \<open>Timeouts\<close>

text \<open>A \<^verbatim>\<open>timeval\<close>: seconds and microseconds.  Division of C cuts towards zero.\<close>

type_synonym timeval = "int \<times> int"

abbreviation (input) ERANGE :: errno where "ERANGE \<equiv> 34"

definition SocketTimeoutGet_win :: "timeval \<Rightarrow> int" where
  "SocketTimeoutGet_win timeout = fst timeout * 1000 + snd timeout sdiv 1000"

text \<open>Result, \<^verbatim>\<open>errno\<close> and the timeout.\<close>

definition SocketTimeoutSet_win :: "timeval \<Rightarrow> int \<Rightarrow> int \<times> errno \<times> timeval" where
  "SocketTimeoutSet_win timeout milliseconds =
     (if milliseconds < 4294968
      then (fst timeout * 1000 + snd timeout sdiv 1000, 0, (milliseconds sdiv 1000, (milliseconds smod 1000) * 1000))
      else (- 1, ERANGE, timeout))"

section \<open>The system\<close>

text \<open>
  \<open>wo_select\<close> is the result of \<^verbatim>\<open>select()\<close> and whether the socket is in the set of exceptions behind it, \<open>wo_soerror\<close>
  the pending error of the socket, \<open>wo_disconnect\<close> the blocking \<^verbatim>\<open>DisconnectEx()\<close>.  Binding is to the address of the
  caller or to a cleared one that has only a family.
\<close>

record 'w win_ops =
  wo_select :: "bool \<Rightarrow> int \<Rightarrow> timeval \<Rightarrow> 'w \<Rightarrow> (int \<times> bool) \<times> 'w"
  wo_soerror :: "int \<Rightarrow> 'w \<Rightarrow> int option \<times> 'w"
  wo_translate :: "int \<Rightarrow> errno"
  wo_disconnect :: "int \<Rightarrow> 'w \<Rightarrow> int option \<times> 'w"
  wo_bind :: "int \<Rightarrow> ptr + int \<Rightarrow> 'w \<Rightarrow> errno \<times> 'w"

abbreviation (input) ERROR_IO_PENDING :: int where "ERROR_IO_PENDING \<equiv> 997"

definition getLastWsaErrnoEx :: "'w win_ops \<Rightarrow> int \<Rightarrow> errno" where
  "getLastWsaErrnoEx wo wsaerr = (if wsaerr = ERROR_IO_PENDING then wsaerr else wo_translate wo wsaerr)"

section \<open>Blocking waits\<close>

text \<open>Result and \<^verbatim>\<open>errno\<close> of a wait.\<close>

definition sockWaitForReadable_win :: "'w win_ops \<Rightarrow> int \<Rightarrow> timeval \<Rightarrow> 'w net \<Rightarrow> int \<times> errno \<times> 'w net" where
  "sockWaitForReadable_win wo fd timeout n =
     (case in_kernel (wo_select wo True fd timeout) n of ((r, except), n1) \<Rightarrow>
        if r = 0 then (SOCKET_ERROR, ETIMEDOUT, n1)
        else if except then
          (case in_kernel (wo_soerror wo fd) n1 of
             (None, n2) \<Rightarrow> (SOCKET_ERROR, EIO, n2)
           | (Some err, n2) \<Rightarrow> (SOCKET_ERROR, wo_translate wo err, n2))
        else (0, 0, n1))"

definition sockWaitForWritable_win :: "'w win_ops \<Rightarrow> int \<Rightarrow> timeval \<Rightarrow> 'w net \<Rightarrow> int \<times> errno \<times> 'w net" where
  "sockWaitForWritable_win wo fd timeout n =
     (case in_kernel (wo_select wo False fd timeout) n of ((r, except), n1) \<Rightarrow>
        if r = 0 then (SOCKET_ERROR, ETIMEDOUT, n1)
        else if except then
          (case in_kernel (wo_soerror wo fd) n1 of
             (None, n2) \<Rightarrow> (SOCKET_ERROR, EIO, n2)
           | (Some err, n2) \<Rightarrow> (SOCKET_ERROR, wo_translate wo err, n2))
        else (0, 0, n1))"

section \<open>Connecting\<close>

abbreviation (input) AF_INET :: int where "AF_INET \<equiv> 2"
abbreviation (input) AF_INET6 :: int where "AF_INET6 \<equiv> 23"

text \<open>The address the socket is bound to; the second test of the code, meant for IPv6, is the first one again.\<close>

definition source_addr :: "int \<Rightarrow> ptr option \<Rightarrow> ptr + int" where
  "source_addr dest_family src =
     (case src of
        Some a \<Rightarrow> Inl a
      | None \<Rightarrow> if dest_family = AF_INET then Inr AF_INET else if dest_family = AF_INET then Inr AF_INET6 else Inr 0)"

text \<open>\<open>sys_socket\<close> is here what \<^verbatim>\<open>socCreate()\<close> gives.\<close>

definition socketAsyncConnectStart_win ::
    "'w sys_ops \<Rightarrow> 'w win_ops \<Rightarrow> int \<Rightarrow> ptr option \<Rightarrow> 'w io \<Rightarrow> errno \<times> SocketEventType \<times> 'w io" where
  "socketAsyncConnectStart_win sys wo dest_family src sn =
     (case in_kernel (sys_socket sys) (snd sn) of ((fd, serr), n1) \<Rightarrow>
        (let s1 = (fst sn)\<lparr>number := fd\<rparr>;
             fail = (\<lambda>e n. case socketClose sys (s1, n) of (_, s2, n') \<Rightarrow> (e, SOCK_EVENT_TYPE_NONE, s2\<lparr>number := SOCKET_ERROR\<rparr>, n'))
         in if fd = SOCKET_ERROR then (serr, SOCK_EVENT_TYPE_NONE, s1, n1)
            else
              (case in_kernel (wo_bind wo fd (source_addr dest_family src)) n1 of (berr, n2) \<Rightarrow>
                 if berr \<noteq> 0 then fail berr n2
                 else
                   (case in_kernel (sys_nonblocking sys fd) n2 of (merr, n3) \<Rightarrow>
                      if merr \<noteq> 0 then fail merr n3 else (EWOULDBLOCK, SOCK_EVENT_TYPE_CONNECT, s1, n3)))))"

section \<open>Disconnecting\<close>

definition socketAsyncDisconnectStart_win :: "SOCK \<Rightarrow> errno \<times> SocketEventType \<times> SOCK" where
  "socketAsyncDisconnectStart_win s = (EWOULDBLOCK, SOCK_EVENT_TYPE_DISCONNECT, s)"

definition sockDisconnect_win :: "'w win_ops \<Rightarrow> int \<Rightarrow> 'w net \<Rightarrow> errno \<times> 'w net" where
  "sockDisconnect_win wo fd n =
     (if fd \<noteq> SOCKET_INVALID then
        (case in_kernel (wo_disconnect wo fd) n of
           (None, n1) \<Rightarrow> (0, n1)
         | (Some wsaerr, n1) \<Rightarrow> (getLastWsaErrnoEx wo wsaerr, n1))
      else (EINVAL, n))"

text \<open>
  \<^verbatim>\<open>disconnectWithTimeout()\<close> and \<^verbatim>\<open>socketDisconnect()\<close> of \<^verbatim>\<open>sockcommon.c\<close> on these calls; \<open>errno0\<close> is \<^verbatim>\<open>errno\<close> before.
\<close>

definition disconnectWithTimeout_win :: "'w win_ops \<Rightarrow> timeval \<Rightarrow> errno \<Rightarrow> 'w io \<Rightarrow> errno \<times> errno \<times> 'w io" where
  "disconnectWithTimeout_win wo timeOut errno0 sn =
     (case sockDisconnect_win wo (number (fst sn)) (snd sn) of (err, n1) \<Rightarrow>
        if err = EWOULDBLOCK then
          (case sockWaitForReadable_win wo (number (fst sn)) timeOut n1 of (r, e, n2) \<Rightarrow>
             if r \<noteq> SOCKET_ERROR then (0, e, fst sn, n2) else (e, 0, fst sn, n2))
        else (err, errno0, fst sn, n1))"

definition socketDisconnect_win :: "'w win_ops \<Rightarrow> timeval \<Rightarrow> errno \<Rightarrow> 'w io \<Rightarrow> errno \<times> 'w io" where
  "socketDisconnect_win wo timeOut errno0 sn =
     (case disconnectWithTimeout_win wo timeOut errno0 sn of (err, en, sn1) \<Rightarrow> (if err = 0 then 0 else en, sn1))"

definition socketSyncDisconnectStart_win ::
    "'w win_ops \<Rightarrow> timeval \<Rightarrow> errno \<Rightarrow> 'w io \<Rightarrow> errno \<times> SocketEventType \<times> 'w io" where
  "socketSyncDisconnectStart_win wo timeOut errno0 sn =
     (case socketDisconnect_win wo timeOut errno0 sn of (err, sn1) \<Rightarrow> (err, SOCK_EVENT_TYPE_DISCONNECT, sn1))"

section \<open>The completion port\<close>

text \<open>\<open>pe_stops\<close> are the packets without an event that were posted, each of which ends one thread.\<close>

record port_engine =
  pe_iocp :: "ptr option"
  pe_threads :: nat
  pe_timer_thread :: bool
  pe_pool :: bool
  pe_stops :: nat

definition sockEngineInit_win :: "ptr option \<Rightarrow> nat \<Rightarrow> port_engine \<Rightarrow> int \<times> port_engine" where
  "sockEngineInit_win port processors e =
     (case port of
        None \<Rightarrow> (- 1, e\<lparr>pe_iocp := None\<rparr>)
      | Some p \<Rightarrow>
          (let k = processors + 1;
               threads = (if k > 4 then 4 else k)
           in (0, e\<lparr>pe_iocp := Some p, pe_threads := threads, pe_pool := True, pe_timer_thread := True\<rparr>)))"

definition sockEngineShutdown_win :: "port_engine \<Rightarrow> port_engine" where
  "sockEngineShutdown_win e = e\<lparr>pe_iocp := None, pe_stops := pe_stops e + pe_threads e, pe_pool := False\<rparr>"

section \<open>What these calls promise\<close>

text \<open>A timeout that is accepted is read back as it was set, also when it is negative.\<close>

lemma timeout_round_trip:
  assumes "SocketTimeoutSet_win timeout ms = (previous, e, t)" "ms < 4294968"
  shows "SocketTimeoutGet_win t = ms \<and> e = 0 \<and> previous = SocketTimeoutGet_win timeout"
proof -
  have t: "t = (ms sdiv 1000, (ms smod 1000) * 1000)" "e = 0" "previous = SocketTimeoutGet_win timeout"
    using assms by (simp_all add: SocketTimeoutSet_win_def SocketTimeoutGet_win_def)
  have "((ms smod 1000) * 1000) sdiv 1000 = ms smod 1000"
    by (simp add: signed_divide_int_def abs_mult sgn_mult sgn_mult_abs)
  then have "SocketTimeoutGet_win t = ms sdiv 1000 * 1000 + ms smod 1000" using t(1) by (simp add: SocketTimeoutGet_win_def)
  also have "\<dots> = ms" by (simp add: sdiv_mult_smod_eq)
  finally show ?thesis using t by simp
qed

lemma timeout_out_of_range:
  "ms \<ge> 4294968 \<Longrightarrow> SocketTimeoutSet_win timeout ms = (- 1, ERANGE, timeout)"
  by (simp add: SocketTimeoutSet_win_def)

text \<open>A wait succeeds exactly when \<^verbatim>\<open>select()\<close> reports something other than an exception.\<close>

lemma wait_readable_iff:
  assumes "in_kernel (wo_select wo True fd timeout) n = ((r, except), n1)"
  shows "fst (sockWaitForReadable_win wo fd timeout n) = 0 \<longleftrightarrow> r \<noteq> 0 \<and> \<not> except"
  using assms by (auto simp: sockWaitForReadable_win_def split: option.splits prod.splits)

lemma wait_writable_iff:
  assumes "in_kernel (wo_select wo False fd timeout) n = ((r, except), n1)"
  shows "fst (sockWaitForWritable_win wo fd timeout n) = 0 \<longleftrightarrow> r \<noteq> 0 \<and> \<not> except"
  using assms by (auto simp: sockWaitForWritable_win_def split: option.splits prod.splits)

text \<open>
  Starting a connect either leaves the socket waiting for it, or the descriptor that was opened is closed and the
  socket has none.
\<close>

lemma connect_start_owns:
  assumes "in_kernel (sys_socket sys) n = ((fd, serr), n1)"
    "socketAsyncConnectStart_win sys wo family src (s, n) = (err, blocked, s', n')"
  shows "(blocked = SOCK_EVENT_TYPE_CONNECT \<and> err = EWOULDBLOCK \<and> number s' = fd \<and> fd \<noteq> SOCKET_ERROR) \<or>
    (blocked = SOCK_EVENT_TYPE_NONE \<and> number s' = SOCKET_ERROR)"
  using assms by (auto simp: socketAsyncConnectStart_win_def Let_def split: prod.splits if_splits)

text \<open>For an IPv6 destination the address that is bound to has no family.\<close>

lemma ipv6_source_has_no_family: "source_addr AF_INET6 None = Inr 0"
  by (simp add: source_addr_def)

text \<open>
  A blocking disconnect that fails on Windows reports \<^verbatim>\<open>errno\<close>, which \<^verbatim>\<open>DisconnectEx()\<close> has not set: the failure is a success when
  \<^verbatim>\<open>errno\<close> was 0.
\<close>

lemma failed_disconnect_is_lost:
  assumes "number s \<noteq> SOCKET_INVALID" "wo_disconnect wo (number s) (kernel n) = (Some wsaerr, k)"
    "getLastWsaErrnoEx wo wsaerr \<notin> {0, EWOULDBLOCK}"
  shows "fst (socketSyncDisconnectStart_win wo t 0 (s, n)) = 0"
  using assms
  by (simp add: socketSyncDisconnectStart_win_def socketDisconnect_win_def disconnectWithTimeout_win_def sockDisconnect_win_def in_kernel_def)

text \<open>The engine has one to four completion threads besides the timer thread, and each is told to end.\<close>

lemma port_threads_are_stopped:
  assumes "sockEngineInit_win port processors e = (r, e')" "pe_stops e = 0"
  shows "(r = 0 \<longrightarrow> 1 \<le> pe_threads e' \<and> pe_threads e' \<le> 4 \<and> pe_timer_thread e' \<and>
           pe_stops (sockEngineShutdown_win e') = pe_threads e' \<and> \<not> pe_pool (sockEngineShutdown_win e')) \<and>
    (r \<noteq> 0 \<longrightarrow> pe_threads e' = pe_threads e \<and> pe_timer_thread e' = pe_timer_thread e)"
  using assms by (auto simp: sockEngineInit_win_def sockEngineShutdown_win_def Let_def split: option.splits if_splits)

end
