(* ===== verification/ConnPool.thy ===== *)
theory ConnPool
  imports ConnTypes
begin

unbundle bit_operations_syntax

text \<open>
  The pool a handle takes its connections from (\<^verbatim>\<open>src/src/connio.c\<close>): creating, initialising, recycling and
  destroying connections with the buffers they own, marking them, and the tests of arguments that
  all public functions share.
\<close>

section \<open>Tests of arguments\<close>

text \<open>Each gives its result and \<^verbatim>\<open>errno\<close>, which it leaves alone when the test succeeds.\<close>

definition notNull :: "ptr option \<Rightarrow> errno \<Rightarrow> bool \<times> errno" where
  "notNull p e = (if p \<noteq> None then (True, e) else (False, EINVAL))"

definition allocWorked :: "ptr option \<Rightarrow> errno \<Rightarrow> ptr option \<times> errno" where
  "allocWorked p e = (if p \<noteq> None then (p, e) else (None, ENOMEM))"

definition isPos :: "int \<Rightarrow> errno \<Rightarrow> bool \<times> errno" where
  "isPos n e = (if n > 0 then (True, e) else (False, EINVAL))"

definition notNegative :: "int \<Rightarrow> errno \<Rightarrow> bool \<times> errno" where
  "notNegative n e = (if n \<ge> 0 then (True, e) else (False, EINVAL))"

definition isAsyncListener :: "ConnState \<Rightarrow> errno \<Rightarrow> bool \<times> errno" where
  "isAsyncListener st e = (if st = CONN_STATE_ASYNCHRONOUS_LISTENER then (True, e) else (False, EINVAL))"

definition notShuttingHandleDown :: "bool \<Rightarrow> errno \<Rightarrow> bool \<times> errno" where
  "notShuttingHandleDown shutting e = (if \<not> shutting then (True, e) else (False, ECONNHANDLESHUTDOWN))"

definition asyncEnabledHandle :: "u32 \<Rightarrow> errno \<Rightarrow> bool \<times> errno" where
  "asyncEnabledHandle fixed e = (if has fixed CONN_HANDLE_ASYNC_ENABLED then (True, e) else (False, ECONNIOINIT))"

definition newListenersAllowed :: "bool \<Rightarrow> errno \<Rightarrow> bool \<times> errno" where
  "newListenersAllowed preventNew e = (if \<not> preventNew then (True, e) else (False, ESHUTDOWN))"

definition validConnIOArgs :: "ptr option \<Rightarrow> ptr option \<Rightarrow> int \<Rightarrow> errno \<Rightarrow> int \<times> errno" where
  "validConnIOArgs conn dest len e =
     (if conn \<noteq> None then
        (if len \<noteq> 0 then (if dest \<noteq> None then (1, e) else (- 1, EINVAL)) else (0, e))
      else (- 1, EINVAL))"

definition validConnIOArgs2 :: "ptr option \<Rightarrow> ptr option \<Rightarrow> int \<Rightarrow> errno \<Rightarrow> int \<times> errno" where
  "validConnIOArgs2 conn dest len e =
     (if conn \<noteq> None \<and> len \<ge> 0 then (if dest \<noteq> None then (1, e) else (- 1, EINVAL)) else (- 1, EINVAL))"

text \<open>The two tests of the arguments of reads and writes differ for a length that is zero or negative only.\<close>

lemma validConnIOArgs_agree:
  "len > 0 \<Longrightarrow> validConnIOArgs conn dest len e = validConnIOArgs2 conn dest len e"
  "validConnIOArgs (Some c) (Some d) len e = validConnIOArgs2 (Some c) (Some d) len e \<longleftrightarrow> len > 0"
  by (auto simp: validConnIOArgs_def validConnIOArgs2_def)

section \<open>State\<close>

text \<open>
  What a connection of the pool owns.  \<open>po_exists\<close> are the connections that were created and not destroyed, \<open>po_out\<close>
  those that were taken, \<open>po_buffers\<close> the IO buffers in use, \<open>po_mutexes\<close> the connections whose mutex exists, and
  \<open>po_cleaned\<close> records the calls of the \<^verbatim>\<open>free\<close> function of a connection's client.
\<close>

record pool_conn =
  pc_receive :: "ptr option"
  pc_send :: "ptr option"
  pc_state :: ConnState
  pc_marked :: u32
  pc_clean :: bool

record pool =
  po_conn :: "ptr \<Rightarrow> pool_conn"
  po_exists :: "ptr set"
  po_out :: "ptr set"
  po_buffers :: "ptr set"
  po_mutexes :: "ptr set"
  po_cleaned :: "ptr list"

definition put_conn :: "ptr \<Rightarrow> pool_conn \<Rightarrow> pool \<Rightarrow> pool" where
  "put_conn p c w = w\<lparr>po_conn := (po_conn w)(p := c)\<rparr>"

section \<open>Operations\<close>

text \<open>\<open>None\<close>: a buffer that is not in use is freed.\<close>

definition free_buffer :: "ptr \<Rightarrow> pool \<Rightarrow> pool option" where
  "free_buffer b w = (if b \<in> po_buffers w then Some (w\<lparr>po_buffers := po_buffers w - {b}\<rparr>) else None)"

definition bufferedSendDataFree_pool :: "ptr \<Rightarrow> pool \<Rightarrow> pool option" where
  "bufferedSendDataFree_pool p w =
     (case pc_send (po_conn w p) of
        None \<Rightarrow> Some w
      | Some b \<Rightarrow> map_option (put_conn p ((po_conn w p)\<lparr>pc_send := None\<rparr>)) (free_buffer b w))"

text \<open>
  \<^verbatim>\<open>ConnectionInit()\<close>: everything in front of the mutex is cleared, which holds the function \<^verbatim>\<open>free\<close> of the client; the
  buffers and the mark are behind it.
\<close>

definition ConnectionInit_pool :: "ptr \<Rightarrow> pool \<Rightarrow> pool option" where
  "ConnectionInit_pool p w =
     map_option (\<lambda>w1. put_conn p ((po_conn w1 p)\<lparr>pc_state := CONN_STATE_CACHED, pc_marked := 0\<rparr>) w1)
       (bufferedSendDataFree_pool p (put_conn p ((po_conn w p)\<lparr>pc_clean := False\<rparr>) w))"

text \<open>
  \<^verbatim>\<open>ConnAllocCB()\<close>: \<open>buffer\<close> is what \<^verbatim>\<open>IOBAlloc()\<close> gives, \<open>consumer\<close> the answer of the consumer's callback when there is one.
\<close>

definition ConnAllocCB :: "ptr option \<Rightarrow> bool option \<Rightarrow> ptr \<Rightarrow> pool \<Rightarrow> (bool \<times> pool) option" where
  "ConnAllocCB buffer consumer p w =
     (let w1 = put_conn p \<lparr>pc_receive = buffer, pc_send = None, pc_state = CONN_STATE_FREE, pc_marked = 0, pc_clean = False\<rparr>
                 (w\<lparr>po_mutexes := insert p (po_mutexes w)\<rparr>)
      in case buffer of
           None \<Rightarrow> Some (False, w1\<lparr>po_mutexes := po_mutexes w1 - {p}\<rparr>)
         | Some b \<Rightarrow>
             (case ConnectionInit_pool p (w1\<lparr>po_buffers := insert b (po_buffers w1)\<rparr>) of
                None \<Rightarrow> None
              | Some w2 \<Rightarrow>
                  if consumer \<noteq> Some False then Some (True, w2\<lparr>po_exists := insert p (po_exists w2)\<rparr>)
                  else map_option (\<lambda>w3. (False, put_conn p ((po_conn w3 p)\<lparr>pc_receive := None\<rparr>)
                                                  (w3\<lparr>po_mutexes := po_mutexes w3 - {p}\<rparr>)))
                         (free_buffer b w2)))"

definition ConnFreeCB :: "int option \<Rightarrow> ptr \<Rightarrow> pool \<Rightarrow> (int \<times> pool) option" where
  "ConnFreeCB consumer p w =
     (let success = (case consumer of Some r \<Rightarrow> r | None \<Rightarrow> 1);
          w1 = put_conn p ((po_conn w p)\<lparr>pc_state := CONN_STATE_FREE\<rparr>) w
      in case bufferedSendDataFree_pool p w1 of
           None \<Rightarrow> None
         | Some w2 \<Rightarrow>
             (case pc_receive (po_conn w2 p) of
                None \<Rightarrow> None
              | Some b \<Rightarrow>
                  map_option (\<lambda>w3. (success, put_conn p ((po_conn w3 p)\<lparr>pc_receive := None\<rparr>)
                                      (w3\<lparr>po_mutexes := po_mutexes w3 - {p}, po_exists := po_exists w3 - {p}\<rparr>)))
                    (free_buffer b w2)))"

text \<open>Taking a connection, as in \<^verbatim>\<open>_ConnAllocEx()\<close>; its client may set a \<^verbatim>\<open>free\<close> function, and writes keep a buffer.\<close>

definition take_entry :: "ptr \<Rightarrow> pool \<Rightarrow> pool" where
  "take_entry p w =
     put_conn p ((po_conn w p)\<lparr>pc_state := CONN_STATE_IDLE\<rparr>) (w\<lparr>po_out := insert p (po_out w)\<rparr>)"

definition set_client_free :: "ptr \<Rightarrow> pool \<Rightarrow> pool" where
  "set_client_free p w = put_conn p ((po_conn w p)\<lparr>pc_clean := True\<rparr>) w"

definition keep_buffer :: "ptr \<Rightarrow> ptr \<Rightarrow> pool \<Rightarrow> pool" where
  "keep_buffer b p w = put_conn p ((po_conn w p)\<lparr>pc_send := Some b\<rparr>) (w\<lparr>po_buffers := insert b (po_buffers w)\<rparr>)"

definition ConnectionClean :: "ptr \<Rightarrow> pool \<Rightarrow> pool" where
  "ConnectionClean p w = (if pc_clean (po_conn w p) then w\<lparr>po_cleaned := po_cleaned w @ [p]\<rparr> else w)"

definition ConnRecycle :: "ptr \<Rightarrow> pool \<Rightarrow> pool option" where
  "ConnRecycle p w = map_option (\<lambda>w1. w1\<lparr>po_out := po_out w1 - {p}\<rparr>) (ConnectionInit_pool p (ConnectionClean p w))"

definition ConnMarkEx :: "ptr option \<Rightarrow> u32 \<Rightarrow> pool \<Rightarrow> u32 \<times> pool" where
  "ConnMarkEx conn mark w =
     (case conn of
        None \<Rightarrow> (- 1, w)
      | Some p \<Rightarrow> (let m = pc_marked (po_conn w p) OR mark in (m, put_conn p ((po_conn w p)\<lparr>pc_marked := m\<rparr>) w)))"

definition ConnUnmarkEx :: "ptr option \<Rightarrow> u32 \<Rightarrow> pool \<Rightarrow> u32 \<times> pool" where
  "ConnUnmarkEx conn mark w =
     (case conn of
        None \<Rightarrow> (- 1, w)
      | Some p \<Rightarrow> (let m = pc_marked (po_conn w p) AND NOT mark in (m, put_conn p ((po_conn w p)\<lparr>pc_marked := m\<rparr>) w)))"

section \<open>Runs\<close>

text \<open>A buffer that is allocated was not in use; the pool creates, takes, gets back and destroys connections.\<close>

inductive pool_run :: "pool \<Rightarrow> bool" where
  init: "po_exists w = {} \<Longrightarrow> po_out w = {} \<Longrightarrow> po_buffers w = {} \<Longrightarrow> po_mutexes w = {} \<Longrightarrow> po_cleaned w = [] \<Longrightarrow> pool_run w"
| create: "pool_run w \<Longrightarrow> p \<notin> po_exists w \<Longrightarrow> (\<And>b. buffer = Some b \<Longrightarrow> b \<notin> po_buffers w) \<Longrightarrow>
    ConnAllocCB buffer consumer p w = Some (ok, w') \<Longrightarrow> pool_run w'"
| take: "pool_run w \<Longrightarrow> p \<in> po_exists w - po_out w \<Longrightarrow> pool_run (take_entry p w)"
| client: "pool_run w \<Longrightarrow> p \<in> po_out w \<Longrightarrow> pool_run (set_client_free p w)"
| keep: "pool_run w \<Longrightarrow> p \<in> po_out w \<Longrightarrow> pc_send (po_conn w p) = None \<Longrightarrow> b \<notin> po_buffers w \<Longrightarrow> pool_run (keep_buffer b p w)"
| mark: "pool_run w \<Longrightarrow> p \<in> po_out w \<Longrightarrow> pool_run (snd (ConnMarkEx (Some p) m w))"
| unmark: "pool_run w \<Longrightarrow> p \<in> po_out w \<Longrightarrow> pool_run (snd (ConnUnmarkEx (Some p) m w))"
| recycle: "pool_run w \<Longrightarrow> p \<in> po_out w \<Longrightarrow> ConnRecycle p w = Some w' \<Longrightarrow> pool_run w'"
| destroy: "pool_run w \<Longrightarrow> p \<in> po_exists w - po_out w \<Longrightarrow> ConnFreeCB freed p w = Some (r, w') \<Longrightarrow> pool_run w'"

section \<open>Who owns the buffers\<close>

text \<open>The buffers of one connection.\<close>

definition owned :: "pool_conn \<Rightarrow> ptr set" where
  "owned c = set_option (pc_receive c) \<union> set_option (pc_send c)"

definition conn_ok :: "bool \<Rightarrow> pool_conn \<Rightarrow> bool" where
  "conn_ok out c \<longleftrightarrow> pc_receive c \<noteq> None \<and> pc_send c \<noteq> pc_receive c \<and>
     (\<not> out \<longrightarrow> pc_state c = CONN_STATE_CACHED \<and> pc_send c = None \<and> pc_marked c = 0 \<and> \<not> pc_clean c)"

definition pool_ok :: "pool \<Rightarrow> bool" where
  "pool_ok w \<longleftrightarrow> po_out w \<subseteq> po_exists w \<and> po_mutexes w = po_exists w \<and> po_buffers w = (\<Union>p \<in> po_exists w. owned (po_conn w p)) \<and>
     (\<forall>p \<in> po_exists w. \<forall>q \<in> po_exists w. p \<noteq> q \<longrightarrow> owned (po_conn w p) \<inter> owned (po_conn w q) = {}) \<and>
     (\<forall>p \<in> po_exists w. conn_ok (p \<in> po_out w) (po_conn w p))"

text \<open>A connection that exists changes; its buffers change with it.\<close>

lemma pool_put:
  assumes "pool_ok w" "p \<in> po_exists w" "po_exists w' = po_exists w" "po_mutexes w' = po_mutexes w"
    "po_conn w' = (po_conn w)(p := c)" "po_out w' - {p} = po_out w - {p}" "conn_ok (p \<in> po_out w') c"
    "po_buffers w' = (po_buffers w - owned (po_conn w p)) \<union> owned c" "owned c \<inter> po_buffers w \<subseteq> owned (po_conn w p)"
  shows "pool_ok w'"
proof -
  have w: "po_out w \<subseteq> po_exists w" "po_mutexes w = po_exists w" "po_buffers w = (\<Union>q \<in> po_exists w. owned (po_conn w q))"
      "\<And>q. q \<in> po_exists w \<Longrightarrow> conn_ok (q \<in> po_out w) (po_conn w q)"
      "\<And>q r. q \<in> po_exists w \<Longrightarrow> r \<in> po_exists w \<Longrightarrow> q \<noteq> r \<Longrightarrow> owned (po_conn w q) \<inter> owned (po_conn w r) = {}"
    using assms(1) by (simp_all add: pool_ok_def)
  have out: "q \<in> po_out w' \<longleftrightarrow> q \<in> po_out w" if "q \<noteq> p" for q using assms(6) that by blast
  have apart: "owned (po_conn w q) \<inter> owned c = {}" if "q \<in> po_exists w" "q \<noteq> p" for q
  proof -
    have "owned (po_conn w q) \<subseteq> po_buffers w" using that(1) unfolding w(3) by blast
    with w(5) [OF that(1) assms(2) that(2)] assms(9) show ?thesis by blast
  qed
  have "q \<in> po_exists w'" if "q \<in> po_out w'" for q
    using that out [of q] w(1) assms(2,3) by (cases "q = p") auto
  then have "po_out w' \<subseteq> po_exists w'" by auto
  moreover have "po_buffers w' = (\<Union>q \<in> po_exists w'. owned (po_conn w' q))"
  proof -
    have "x \<in> po_buffers w - owned (po_conn w p) \<longleftrightarrow> (\<exists>q \<in> po_exists w - {p}. x \<in> owned (po_conn w q))" for x
      using w(5) [OF _ assms(2)] assms(2) unfolding w(3) by fast
    then have "po_buffers w - owned (po_conn w p) = (\<Union>q \<in> po_exists w - {p}. owned (po_conn w q))" by auto
    moreover have "(\<Union>q \<in> po_exists w'. owned (po_conn w' q)) = (\<Union>q \<in> po_exists w - {p}. owned (po_conn w q)) \<union> owned c"
    proof -
      have "po_exists w = insert p (po_exists w - {p})" using assms(2) by auto
      then have "(\<Union>q \<in> po_exists w. owned (((po_conn w)(p := c)) q)) =
          owned c \<union> (\<Union>q \<in> po_exists w - {p}. owned (((po_conn w)(p := c)) q))" by (metis UN_insert fun_upd_same)
      also have "(\<Union>q \<in> po_exists w - {p}. owned (((po_conn w)(p := c)) q)) = (\<Union>q \<in> po_exists w - {p}. owned (po_conn w q))"
        by (rule SUP_cong) auto
      finally show ?thesis unfolding assms(3,5) by blast
    qed
    ultimately show ?thesis unfolding assms(8) by simp
  qed
  moreover have "owned (po_conn w' q) \<inter> owned (po_conn w' r) = {}"
    if "q \<in> po_exists w'" "r \<in> po_exists w'" "q \<noteq> r" for q r
    using that apart w(5) unfolding assms(3,5) by (auto split: if_splits)
  moreover have "conn_ok (q \<in> po_out w') (po_conn w' q)" if "q \<in> po_exists w'" for q
    using that w(4) out assms(7) unfolding assms(3,5) by auto
  ultimately show ?thesis unfolding pool_ok_def using w(2) assms(3,4) by auto
qed


text \<open>A connection that comes or goes.\<close>

lemma pool_add:
  assumes "pool_ok w" "p \<notin> po_exists w" "po_exists w' = insert p (po_exists w)" "po_mutexes w' = insert p (po_mutexes w)"
    "po_conn w' = (po_conn w)(p := c)" "po_out w' = po_out w" "conn_ok False c" "po_buffers w' = po_buffers w \<union> owned c"
    "owned c \<inter> po_buffers w = {}"
  shows "pool_ok w'"
proof -
  have w: "po_out w \<subseteq> po_exists w" "po_mutexes w = po_exists w" "po_buffers w = (\<Union>q \<in> po_exists w. owned (po_conn w q))"
      "\<And>q. q \<in> po_exists w \<Longrightarrow> conn_ok (q \<in> po_out w) (po_conn w q)"
      "\<And>q r. q \<in> po_exists w \<Longrightarrow> r \<in> po_exists w \<Longrightarrow> q \<noteq> r \<Longrightarrow> owned (po_conn w q) \<inter> owned (po_conn w r) = {}"
    using assms(1) by (simp_all add: pool_ok_def)
  have same: "po_conn w' q = po_conn w q" if "q \<in> po_exists w" for q using that assms(2) unfolding assms(5) by auto
  have apart: "owned (po_conn w q) \<inter> owned c = {}" if "q \<in> po_exists w" for q
  proof -
    have "owned (po_conn w q) \<subseteq> po_buffers w" using that unfolding w(3) by blast
    with assms(9) show ?thesis by blast
  qed
  have "(\<Union>q \<in> po_exists w. owned (po_conn w' q)) = (\<Union>q \<in> po_exists w. owned (po_conn w q))"
    by (rule SUP_cong) (simp_all add: same)
  then have "po_buffers w' = (\<Union>q \<in> po_exists w'. owned (po_conn w' q))"
    unfolding assms(3,8) w(3) UN_insert using assms(5) by auto
  moreover have "owned (po_conn w' q) \<inter> owned (po_conn w' r) = {}"
    if "q \<in> po_exists w'" "r \<in> po_exists w'" "q \<noteq> r" for q r
    using that apart w(5) same assms(5) unfolding assms(3) by (cases "q = p"; cases "r = p") (auto simp: Int_commute)
  moreover have "conn_ok (q \<in> po_out w') (po_conn w' q)" if "q \<in> po_exists w'" for q
    using that w(1,4) same assms(2,5,6,7) unfolding assms(3) by (cases "q = p") auto
  ultimately show ?thesis unfolding pool_ok_def using w(1,2) assms(3,4,6) by auto
qed

lemma pool_remove:
  assumes "pool_ok w" "p \<in> po_exists w" "p \<notin> po_out w" "po_exists w' = po_exists w - {p}" "po_mutexes w' = po_mutexes w - {p}"
    "po_conn w' = (po_conn w)(p := c)" "po_out w' = po_out w" "po_buffers w' = po_buffers w - owned (po_conn w p)"
  shows "pool_ok w'"
proof -
  have w: "po_out w \<subseteq> po_exists w" "po_mutexes w = po_exists w" "po_buffers w = (\<Union>q \<in> po_exists w. owned (po_conn w q))"
      "\<And>q. q \<in> po_exists w \<Longrightarrow> conn_ok (q \<in> po_out w) (po_conn w q)"
      "\<And>q r. q \<in> po_exists w \<Longrightarrow> r \<in> po_exists w \<Longrightarrow> q \<noteq> r \<Longrightarrow> owned (po_conn w q) \<inter> owned (po_conn w r) = {}"
    using assms(1) by (simp_all add: pool_ok_def)
  have same: "po_conn w' q = po_conn w q" if "q \<in> po_exists w'" for q using that unfolding assms(4,6) by auto
  have "x \<in> po_buffers w - owned (po_conn w p) \<longleftrightarrow> (\<exists>q \<in> po_exists w - {p}. x \<in> owned (po_conn w q))" for x
    using w(5) [OF _ assms(2)] assms(2) unfolding w(3) by fast
  then have "po_buffers w' = (\<Union>q \<in> po_exists w'. owned (po_conn w q))" unfolding assms(4,8) by auto
  moreover have "(\<Union>q \<in> po_exists w'. owned (po_conn w' q)) = (\<Union>q \<in> po_exists w'. owned (po_conn w q))"
    by (rule SUP_cong) (simp_all add: same)
  moreover have "owned (po_conn w' q) \<inter> owned (po_conn w' r) = {}"
    if "q \<in> po_exists w'" "r \<in> po_exists w'" "q \<noteq> r" for q r
    using that w(5) [of q r] same assms(4) by simp
  moreover have "conn_ok (q \<in> po_out w') (po_conn w' q)" if "q \<in> po_exists w'" for q
    using that w(4) [of q] same assms(4,7) by simp
  ultimately show ?thesis unfolding pool_ok_def using w(1,2) assms(3,4,5,7) by auto
qed

section \<open>Each operation keeps it\<close>

lemma put_conn_simps [simp]:
  "po_conn (put_conn p c w) p = c" "po_exists (put_conn p c w) = po_exists w" "po_out (put_conn p c w) = po_out w"
  "po_buffers (put_conn p c w) = po_buffers w" "po_mutexes (put_conn p c w) = po_mutexes w"
  "put_conn p a (put_conn p b w) = put_conn p a w"
  by (simp_all add: put_conn_def)

text \<open>\<^verbatim>\<open>ConnectionInit()\<close> on a connection whose buffer for data to be sent is in use.\<close>

lemma init_spec:
  assumes "\<And>b. pc_send (po_conn w p) = Some b \<Longrightarrow> b \<in> po_buffers w"
  shows "ConnectionInit_pool p w =
    Some (put_conn p ((po_conn w p)\<lparr>pc_send := None, pc_state := CONN_STATE_CACHED, pc_marked := 0, pc_clean := False\<rparr>)
      (w\<lparr>po_buffers := po_buffers w - set_option (pc_send (po_conn w p))\<rparr>))"
proof (cases "po_conn w p")
  case (fields r s st m cl)
  with assms show ?thesis
    by (cases s) (auto simp: ConnectionInit_pool_def bufferedSendDataFree_pool_def free_buffer_def put_conn_def)
qed

lemma create_ok:
  assumes "pool_ok w" "p \<notin> po_exists w" "\<And>b. buffer = Some b \<Longrightarrow> b \<notin> po_buffers w"
  shows "\<exists>ok w'. ConnAllocCB buffer consumer p w = Some (ok, w') \<and> pool_ok w' \<and>
    (\<not> ok \<longrightarrow> po_exists w' = po_exists w \<and> po_mutexes w' = po_mutexes w \<and> po_buffers w' = po_buffers w) \<and>
    (ok \<longrightarrow> po_exists w' = insert p (po_exists w))"
proof -
  have m: "po_mutexes w = po_exists w" using assms(1) by (simp add: pool_ok_def)
  then have del: "insert p (po_mutexes w) - {p} = po_mutexes w" using assms(2) by auto
  have same: "pool_ok (put_conn p c w)" for c
  proof -
    have "po_conn (put_conn p c w) q = po_conn w q" if "q \<in> po_exists w" for q using that assms(2) by (auto simp: put_conn_def)
    then show ?thesis using assms(1) unfolding pool_ok_def by simp
  qed
  show ?thesis
  proof (cases buffer)
    case None
    let ?w = "(put_conn p \<lparr>pc_receive = None, pc_send = None, pc_state = CONN_STATE_FREE, pc_marked = 0, pc_clean = False\<rparr> w)"
    have "ConnAllocCB buffer consumer p w = Some (False, ?w)"
      using None del by (simp add: ConnAllocCB_def Let_def put_conn_def)
    with same show ?thesis by fastforce
  next
    case (Some b)
    let ?c = "\<lparr>pc_receive = Some b, pc_send = None, pc_state = CONN_STATE_CACHED, pc_marked = 0, pc_clean = False\<rparr>"
    have b: "b \<notin> po_buffers w" using assms(3) Some by simp
    then have delb: "insert b (po_buffers w) - {b} = po_buffers w" by auto
    let ?v = "put_conn p \<lparr>pc_receive = buffer, pc_send = None, pc_state = CONN_STATE_FREE, pc_marked = 0, pc_clean = False\<rparr>
      (w\<lparr>po_mutexes := insert p (po_mutexes w)\<rparr>)"
    have i: "ConnectionInit_pool p (?v\<lparr>po_buffers := insert b (po_buffers ?v)\<rparr>) =
        Some (put_conn p ?c (w\<lparr>po_mutexes := insert p (po_mutexes w), po_buffers := insert b (po_buffers w)\<rparr>))"
      using Some by (subst init_spec) (simp_all add: put_conn_def)
    show ?thesis
    proof (cases "consumer = Some False")
      case True
      have "ConnAllocCB buffer consumer p w = Some (False, put_conn p (?c\<lparr>pc_receive := None\<rparr>) w)"
        using Some True del delb i by (simp add: ConnAllocCB_def Let_def free_buffer_def) (simp add: put_conn_def)
      with same show ?thesis by fastforce
    next
      case False
      let ?w = "put_conn p ?c (w\<lparr>po_mutexes := insert p (po_mutexes w), po_buffers := insert b (po_buffers w), po_exists := insert p (po_exists w)\<rparr>)"
      have "ConnAllocCB buffer consumer p w = Some (True, ?w)"
        using Some False i by (simp add: ConnAllocCB_def Let_def) (simp add: put_conn_def)
      moreover have "pool_ok ?w"
        by (rule pool_add [OF assms(1,2), where c = ?c]) (use b in \<open>simp_all add: conn_ok_def owned_def\<close>, simp add: put_conn_def)
      ultimately show ?thesis by (intro exI [of _ True] exI [of _ ?w]) simp
    qed
  qed
qed

lemma conn_owned:
  assumes "pool_ok w" "p \<in> po_exists w"
  shows "owned (po_conn w p) \<subseteq> po_buffers w \<and> conn_ok (p \<in> po_out w) (po_conn w p)"
  using assms by (auto simp: pool_ok_def)

lemma recycle_ok:
  assumes "pool_ok w" "p \<in> po_out w"
  shows "\<exists>w'. ConnRecycle p w = Some w' \<and> pool_ok w' \<and> p \<notin> po_out w' \<and> po_exists w' = po_exists w \<and>
    conn_ok False (po_conn w' p) \<and> po_cleaned w' = po_cleaned w @ (if pc_clean (po_conn w p) then [p] else [])"
proof -
  have p: "p \<in> po_exists w" using assms by (auto simp: pool_ok_def)
  let ?v = "ConnectionClean p w"
  have v: "po_conn ?v = po_conn w" "po_buffers ?v = po_buffers w" "po_exists ?v = po_exists w" "po_out ?v = po_out w"
      "po_mutexes ?v = po_mutexes w" "po_cleaned ?v = po_cleaned w @ (if pc_clean (po_conn w p) then [p] else [])"
    by (simp_all add: ConnectionClean_def)
  note o = conn_owned [OF assms(1) p]
  let ?c = "(po_conn w p)\<lparr>pc_send := None, pc_state := CONN_STATE_CACHED, pc_marked := 0, pc_clean := False\<rparr>"
  let ?w = "(put_conn p ?c (?v\<lparr>po_buffers := po_buffers w - set_option (pc_send (po_conn w p))\<rparr>))\<lparr>po_out := po_out w - {p}\<rparr>"
  have "b \<in> po_buffers ?v" if "pc_send (po_conn ?v p) = Some b" for b using o that v by (auto simp: owned_def)
  then have "ConnectionInit_pool p ?v = Some (put_conn p ?c (?v\<lparr>po_buffers := po_buffers w - set_option (pc_send (po_conn w p))\<rparr>))"
    by (subst init_spec) (simp_all add: v)
  then have "ConnRecycle p w = Some ?w" by (simp add: ConnRecycle_def v)
  moreover have c: "conn_ok False ?c" using o by (auto simp: conn_ok_def)
  moreover have "pool_ok ?w"
  proof (rule pool_put [OF assms(1) p, where c = ?c])
    show "po_buffers ?w = po_buffers w - owned (po_conn w p) \<union> owned ?c"
      using o by (auto simp: owned_def conn_ok_def)
  qed (use c v o in \<open>simp_all add: owned_def\<close>, auto simp: put_conn_def)
  ultimately show ?thesis using v by (auto simp: put_conn_def)
qed

lemma destroy_ok:
  assumes "pool_ok w" "p \<in> po_exists w - po_out w"
  shows "\<exists>r w'. ConnFreeCB consumer p w = Some (r, w') \<and> pool_ok w' \<and> po_exists w' = po_exists w - {p} \<and>
    po_buffers w' = po_buffers w - owned (po_conn w p)"
proof -
  note o = conn_owned [OF assms(1), of p]
  then obtain b where b: "pc_receive (po_conn w p) = Some b" "pc_send (po_conn w p) = None" "b \<in> po_buffers w"
    using assms(2) by (auto simp: conn_ok_def owned_def)
  let ?c = "(po_conn w p)\<lparr>pc_state := CONN_STATE_FREE, pc_receive := None\<rparr>"
  let ?w = "put_conn p ?c (w\<lparr>po_buffers := po_buffers w - {b}, po_mutexes := po_mutexes w - {p}, po_exists := po_exists w - {p}\<rparr>)"
  have "ConnFreeCB consumer p w = Some (case consumer of Some r \<Rightarrow> r | None \<Rightarrow> 1, ?w)"
    using b by (simp add: ConnFreeCB_def bufferedSendDataFree_pool_def free_buffer_def Let_def) (simp add: put_conn_def)
  moreover have "pool_ok ?w"
    by (rule pool_remove [OF assms(1), of p _ ?c]) (use assms(2) b in \<open>simp_all add: owned_def\<close>, simp add: put_conn_def)
  ultimately show ?thesis using b by (simp add: owned_def)
qed

text \<open>What does not touch buffers.\<close>

lemma change_ok:
  assumes "pool_ok w" "p \<in> po_exists w" "pc_receive c = pc_receive (po_conn w p)" "pc_send c = pc_send (po_conn w p)"
  shows "pool_ok (put_conn p c (w\<lparr>po_out := insert p (po_out w)\<rparr>))"
proof -
  note o = conn_owned [OF assms(1,2)]
  have "owned c = owned (po_conn w p)" using assms(3,4) by (simp add: owned_def)
  with o show ?thesis
    by - (rule pool_put [OF assms(1,2), where c = c], use assms(3,4) in \<open>auto simp: conn_ok_def put_conn_def\<close>)
qed

lemma keep_ok:
  assumes "pool_ok w" "p \<in> po_out w" "pc_send (po_conn w p) = None" "b \<notin> po_buffers w"
  shows "pool_ok (keep_buffer b p w)"
proof -
  have p: "p \<in> po_exists w" using assms by (auto simp: pool_ok_def)
  note o = conn_owned [OF assms(1) p]
  let ?c = "(po_conn w p)\<lparr>pc_send := Some b\<rparr>"
  show ?thesis
  proof (rule pool_put [OF assms(1) p, where c = ?c])
    show "po_buffers (keep_buffer b p w) = po_buffers w - owned (po_conn w p) \<union> owned ?c"
      using o assms(3) by (auto simp: keep_buffer_def owned_def)
    show "owned ?c \<inter> po_buffers w \<subseteq> owned (po_conn w p)" using assms(4) by (auto simp: owned_def)
    show "conn_ok (p \<in> po_out (keep_buffer b p w)) ?c"
      using o assms(2,4) by (auto simp: conn_ok_def keep_buffer_def owned_def)
  qed (auto simp: keep_buffer_def put_conn_def)
qed

lemma pool_run_ok: "pool_run w \<Longrightarrow> pool_ok w"
proof (induction rule: pool_run.induct)
  case (init w)
  then show ?case by (simp add: pool_ok_def)
next
  case (create w p buffer consumer ok w')
  have "\<exists>k v. ConnAllocCB buffer consumer p w = Some (k, v) \<and> pool_ok v"
    using create_ok [of w p buffer consumer] create.IH create.hyps(2,3) by blast
  with create.hyps(4) show ?case by auto
next
  case (take w p)
  then show ?case using change_ok [of w p] by (simp add: take_entry_def)
next
  case (client w p)
  then have "p \<in> po_exists w" "insert p (po_out w) = po_out w" by (auto simp: pool_ok_def)
  with change_ok [of w p "(po_conn w p)\<lparr>pc_clean := True\<rparr>"] client.IH show ?case by (simp add: set_client_free_def)
next
  case (keep w p b)
  then show ?case by (simp add: keep_ok)
next
  case (mark w p m)
  then have "p \<in> po_exists w" "insert p (po_out w) = po_out w" by (auto simp: pool_ok_def)
  with change_ok [of w p "(po_conn w p)\<lparr>pc_marked := pc_marked (po_conn w p) OR m\<rparr>"] mark.IH show ?case
    by (simp add: ConnMarkEx_def Let_def)
next
  case (unmark w p m)
  then have "p \<in> po_exists w" "insert p (po_out w) = po_out w" by (auto simp: pool_ok_def)
  with change_ok [of w p "(po_conn w p)\<lparr>pc_marked := pc_marked (po_conn w p) AND NOT m\<rparr>"] unmark.IH show ?case
    by (simp add: ConnUnmarkEx_def Let_def)
next
  case (recycle w p w')
  from recycle_ok [OF recycle.IH recycle.hyps(2)] recycle.hyps(3) show ?case by auto
next
  case (destroy w p freed r w')
  from destroy_ok [OF destroy.IH destroy.hyps(2), of freed] destroy.hyps(3) show ?case by auto
qed

section \<open>What the pool promises\<close>


text \<open>A run: connection 3 is created with buffer 8, taken, and keeps buffer 9 for data to be sent.\<close>

definition demo_pool :: pool where
  "demo_pool =
     \<lparr>po_conn = (\<lambda>_. \<lparr>pc_receive = None, pc_send = None, pc_state = CONN_STATE_FREE, pc_marked = 0, pc_clean = False\<rparr>), po_exists = {},
      po_out = {}, po_buffers = {}, po_mutexes = {}, po_cleaned = []\<rparr>"

definition demo_writing :: pool where
  "demo_writing = (case ConnAllocCB (Some 8) None 3 demo_pool of Some (_, w) \<Rightarrow> keep_buffer 9 3 (take_entry 3 w) | None \<Rightarrow> demo_pool)"

lemma demo_pool_create:
  "ConnAllocCB (Some 8) None 3 demo_pool =
     Some (True, demo_pool\<lparr>po_conn := (po_conn demo_pool)(3 := \<lparr>pc_receive = Some 8, pc_send = None, pc_state = CONN_STATE_CACHED,
        pc_marked = 0, pc_clean = False\<rparr>), po_exists := {3}, po_buffers := {8}, po_mutexes := {3}\<rparr>)"
  by (simp add: ConnAllocCB_def ConnectionInit_pool_def bufferedSendDataFree_pool_def put_conn_def demo_pool_def Let_def)

lemma demo_writing_run: "pool_run demo_writing"
proof -
  have start: "pool_run demo_pool" by (rule pool_run.init) (simp_all add: demo_pool_def)
  obtain w where w: "ConnAllocCB (Some 8) None 3 demo_pool = Some (True, w)" "po_exists w = {3}" "po_out w = {}" "po_buffers w = {8}"
      "pc_send (po_conn w 3) = None"
    by (simp add: demo_pool_create) (simp add: demo_pool_def)
  have "pool_run w" by (rule pool_run.create [OF start _ _ w(1)]) (simp_all add: demo_pool_def)
  then have "pool_run (take_entry 3 w)" by (rule pool_run.take) (simp add: w)
  then have "pool_run (keep_buffer 9 3 (take_entry 3 w))"
    by (rule pool_run.keep) (simp_all add: w take_entry_def put_conn_def)
  then show ?thesis by (simp add: demo_writing_def w)
qed

lemma demo_writing_state: "po_out demo_writing = {3}" "po_exists demo_writing = {3}" "po_conn demo_writing 3 =
    \<lparr>pc_receive = Some 8, pc_send = Some 9, pc_state = CONN_STATE_IDLE, pc_marked = 0, pc_clean = False\<rparr>"
  by (simp_all add: demo_writing_def demo_pool_create keep_buffer_def take_entry_def put_conn_def) (simp_all add: demo_pool_def)


end
