(* ===== verification/HandleInfo.thy ===== *)
theory HandleInfo
  imports Logging
begin

text \<open>
  What surrounds a handle (\<^verbatim>\<open>src/src/connio.c\<close>): the configuration file that SSL contexts are set up from, the
  numbers of \<^verbatim>\<open>ConnHandleStats()\<close>, lists of listeners that callers hold, and the leak report of debug builds.
\<close>

section \<open>The configuration\<close>

record conn_config =
  cc_cipher_list :: "string option"
  cc_server_order :: "bool option"

text \<open>\<^verbatim>\<open>ConnIO.config\<close>, and the number of documents that are open.\<close>

record config_world =
  cg_config :: "conn_config option"
  cg_docs :: nat

text \<open>
  \<open>file\<close> is what the file holds, when it can be opened and read; \<open>copies\<close> and \<open>empties\<close> tell whether a document can be
  copied and an empty one made.
\<close>

record config_env =
  ge_file :: "conn_config option"
  ge_copies :: bool
  ge_empties :: bool

definition config_copy :: "config_env \<Rightarrow> conn_config \<Rightarrow> config_world \<Rightarrow> conn_config option \<times> config_world" where
  "config_copy env c w = (if ge_copies env then (Some c, w\<lparr>cg_docs := cg_docs w + 1\<rparr>) else (None, w))"

definition ConnGetConfig :: "config_env \<Rightarrow> config_world \<Rightarrow> conn_config option \<times> config_world" where
  "ConnGetConfig env w =
     (case cg_config w of
        Some c \<Rightarrow> config_copy env c w
      | None \<Rightarrow>
          (case (case ge_file env of
                   None \<Rightarrow> (None, w)
                 | Some c \<Rightarrow> config_copy env c (w\<lparr>cg_config := Some c, cg_docs := cg_docs w + 1\<rparr>)) of
             (Some c, w1) \<Rightarrow> (Some c, w1)
           | (None, w1) \<Rightarrow>
               if ge_empties env
               then (Some \<lparr>cc_cipher_list = None, cc_server_order = None\<rparr>, w1\<lparr>cg_docs := cg_docs w1 + 1\<rparr>) else (None, w1)))"

definition config_close :: "conn_config option \<Rightarrow> config_world \<Rightarrow> config_world" where
  "config_close c w = (case c of None \<Rightarrow> w | Some _ \<Rightarrow> w\<lparr>cg_docs := cg_docs w - 1\<rparr>)"

definition ConnReleaseConfig :: "config_world \<Rightarrow> config_world" where
  "ConnReleaseConfig w = (if cg_config w \<noteq> None then w\<lparr>cg_docs := cg_docs w - 1, cg_config := None\<rparr> else w)"

section \<open>SSL contexts\<close>

datatype ssl_option =
    SSL_OP_DONT_INSERT_EMPTY_FRAGMENTS | SSL_OP_NO_SSLv2 | SSL_OP_NO_SSLv3 | SSL_OP_CIPHER_SERVER_PREFERENCE | SSL_OP_NO_COMPRESSION

record SSL_CTX =
  sx_options :: "ssl_option set"
  sx_ciphers :: string
  sx_auto_retry :: bool
  sx_ecdh_auto :: bool

text \<open>
  What both kinds of context are given.  \<open>recommended\<close> is the list of ciphers the library is built with; without a document
  the \<^verbatim>\<open>WJE\<close> functions give their default.
\<close>

definition context_setup :: "string \<Rightarrow> conn_config option \<Rightarrow> SSL_CTX" where
  "context_setup recommended config =
     \<lparr>sx_options = {SSL_OP_DONT_INSERT_EMPTY_FRAGMENTS, SSL_OP_NO_SSLv2, SSL_OP_NO_SSLv3} \<union>
        (if (case Option.bind config cc_server_order of Some b \<Rightarrow> b | None \<Rightarrow> True) then {SSL_OP_CIPHER_SERVER_PREFERENCE} else {}),
      sx_ciphers = (case Option.bind config cc_cipher_list of Some s \<Rightarrow> s | None \<Rightarrow> recommended),
      sx_auto_retry = True, sx_ecdh_auto = True\<rparr>"

text \<open>\<open>made\<close>: \<^verbatim>\<open>SSL_CTX_new()\<close> works; \<open>compression\<close>: OpenSSL knows methods of compression.\<close>

definition CreateClientContext ::
    "string \<Rightarrow> config_env \<Rightarrow> bool \<Rightarrow> bool \<Rightarrow> config_world \<Rightarrow> SSL_CTX option \<times> errno option \<times> config_world" where
  "CreateClientContext recommended env made compression w =
     (case ConnGetConfig env w of (config, w1) \<Rightarrow>
        (let ctx = context_setup recommended config
         in if made
            then (Some (if compression then ctx\<lparr>sx_options := insert SSL_OP_NO_COMPRESSION (sx_options ctx)\<rparr> else ctx),
                  None, config_close config w1)
            else (None, Some EPERM, config_close config w1)))"

text \<open>The part of \<^verbatim>\<open>CreateServerContext()\<close> that sets the context up; \<open>certified\<close>: certificate and key can be used.\<close>

definition CreateServerContext_setup ::
    "string \<Rightarrow> config_env \<Rightarrow> bool \<Rightarrow> bool \<Rightarrow> config_world \<Rightarrow> SSL_CTX option \<times> config_world" where
  "CreateServerContext_setup recommended env made certified w =
     (case ConnGetConfig env w of (config, w1) \<Rightarrow>
        (if made \<and> certified then Some (context_setup recommended config) else None, config_close config w1))"

lemma config_balance:
  assumes "ConnGetConfig env w = (c, w')"
  shows "cg_docs (config_close c w') = cg_docs w + (if cg_config w = None \<and> ge_file env \<noteq> None then 1 else 0) \<and>
    cg_config w' = (if cg_config w = None then ge_file env else cg_config w)"
proof (cases "cg_config w")
  case None
  show ?thesis
  proof (cases "ge_file env")
    case None
    with \<open>cg_config w = None\<close> assms show ?thesis by (auto simp: ConnGetConfig_def config_close_def split: if_splits)
  next
    case (Some f)
    have "c \<noteq> None \<and> cg_docs w' = cg_docs w + 2 \<or> c = None \<and> cg_docs w' = cg_docs w + 1" "cg_config w' = Some f"
      using None assms by (auto simp: ConnGetConfig_def config_copy_def Some split: if_splits)
    with None Some show ?thesis by (auto simp: config_close_def)
  qed
next
  case (Some c0)
  have copy: "config_copy env c0 w = (c, w')" using assms by (simp add: ConnGetConfig_def Some)
  then have "c \<noteq> None \<and> cg_docs w' = cg_docs w + 1 \<or> c = None \<and> cg_docs w' = cg_docs w"
    by (auto simp: config_copy_def split: if_splits)
  moreover have "cg_config w' = cg_config w" using copy by (auto simp: config_copy_def split: if_splits)
  ultimately show ?thesis using Some by (auto simp: config_close_def)
qed

text \<open>Setting a context up leaves no document behind but the one that is kept, which one release closes.\<close>

lemma contexts_close_documents:
  assumes "CreateClientContext recommended env made compression w = (ctx, e, w')"
    "cg_docs w = (if cg_config w = None then 0 else 1)"
  shows "cg_docs w' = (if cg_config w' = None then 0 else 1) \<and> cg_docs (ConnReleaseConfig w') = 0"
proof -
  obtain c w1 where c: "ConnGetConfig env w = (c, w1)" by (metis surj_pair)
  have w': "w' = config_close c w1" using assms(1) c by (auto simp: CreateClientContext_def Let_def split: if_splits)
  have "cg_config (config_close c w1) = cg_config w1" by (simp add: config_close_def split: option.split)
  with config_balance [OF c] assms(2) show ?thesis unfolding w' by (auto simp: ConnReleaseConfig_def split: if_splits)
qed

text \<open>No context, of client or server, speaks SSL 2 or 3, whatever the file says.\<close>

lemma old_protocols_off:
  "fst (CreateClientContext recommended env made compression w) = Some ctx \<Longrightarrow> {SSL_OP_NO_SSLv2, SSL_OP_NO_SSLv3} \<subseteq> sx_options ctx"
  "fst (CreateServerContext_setup recommended env made certified w) = Some ctx \<Longrightarrow> {SSL_OP_NO_SSLv2, SSL_OP_NO_SSLv3} \<subseteq> sx_options ctx"
  by (auto simp: CreateClientContext_def CreateServerContext_setup_def context_setup_def Let_def split: if_splits prod.splits)

text \<open>Only contexts of clients have compression switched off.\<close>

lemma server_compresses:
  "fst (CreateServerContext_setup recommended env made certified w) = Some ctx \<Longrightarrow> SSL_OP_NO_COMPRESSION \<notin> sx_options ctx"
  by (auto simp: CreateServerContext_setup_def context_setup_def split: if_splits prod.splits)

section \<open>Statistics\<close>

record ConnStats =
  st_threads :: int
  st_peak_threads :: int
  st_peak_time :: int
  st_min :: int
  st_max :: int
  st_peak :: int
  st_total :: int
  st_idle :: int

text \<open>\<open>pool\<close> holds the smallest, the largest and the present number of connections of the pool, \<open>inUse\<close> the count and peak.\<close>

definition ConnHandleStats :: "int \<times> int \<times> int \<Rightarrow> int \<times> int \<times> int \<Rightarrow> int \<times> int \<Rightarrow> ConnStats" where
  "ConnHandleStats thr pool inUse =
     (case thr of (count, peak, time) \<Rightarrow>
        (case pool of (mn, mx, all) \<Rightarrow>
           \<lparr>st_threads = count, st_peak_threads = peak, st_peak_time = time, st_min = mn, st_max = mx, st_peak = snd inUse,
            st_total = (if fst inUse < all then all else fst inUse),
            st_idle = (if fst inUse < all then all - fst inUse else 0)\<rparr>))"

lemma stats_add_up:
  "st_total (ConnHandleStats thr pool inUse) = fst inUse + st_idle (ConnHandleStats thr pool inUse)"
  "st_idle (ConnHandleStats thr pool inUse) \<ge> 0"
  by (simp_all add: ConnHandleStats_def split: prod.splits)

section \<open>Lists of listeners\<close>

text \<open>The lists that are allocated, each with its handle and the identifiers in its document.\<close>

type_synonym listener_lists = "ptr \<Rightarrow> (ptr \<times> int list) option"

definition connListenerListCreate :: "ptr \<Rightarrow> ptr \<Rightarrow> listener_lists \<Rightarrow> listener_lists" where
  "connListenerListCreate p handle m = m(p \<mapsto> (handle, []))"

text \<open>\<open>None\<close>: the list is not allocated.\<close>

definition connListenerListAppend :: "ptr \<Rightarrow> int \<Rightarrow> listener_lists \<Rightarrow> listener_lists option" where
  "connListenerListAppend p i m = map_option (\<lambda>(h, l). m(p \<mapsto> (h, l @ [i]))) (m p)"

definition ConnListenerListDestroy :: "ptr option \<Rightarrow> listener_lists \<Rightarrow> listener_lists option" where
  "ConnListenerListDestroy p m =
     (case p of None \<Rightarrow> Some m | Some q \<Rightarrow> if m q = None then None else Some (m(q := None)))"

fun append_all :: "ptr \<Rightarrow> int list \<Rightarrow> listener_lists \<Rightarrow> listener_lists option" where
  "append_all p [] m = Some m"
| "append_all p (i # is) m = Option.bind (connListenerListAppend p i m) (append_all p is)"

lemma append_all_list:
  "m p = Some (h, l) \<Longrightarrow> append_all p is m = Some (m(p \<mapsto> (h, l @ is)))"
  by (induction "is" arbitrary: m l) (auto simp: connListenerListAppend_def)

lemma listener_list_round_trip:
  assumes "m p = None"
  shows "\<exists>m1. append_all p is (connListenerListCreate p h m) = Some m1 \<and> m1 p = Some (h, is) \<and>
    ConnListenerListDestroy (Some p) m1 = Some m"
proof -
  have "append_all p is (connListenerListCreate p h m) = Some (m(p \<mapsto> (h, is)))"
    using append_all_list [of "connListenerListCreate p h m" p h "[]" "is"] by (simp add: connListenerListCreate_def)
  moreover have "m(p := None) = m" using assms by auto
  ultimately show ?thesis by (simp add: ConnListenerListDestroy_def)
qed

section \<open>The leak report\<close>

text \<open>
  A connection is given by the place that owns it and the text of its trace.  \<open>None\<close>: the file cannot be opened, and the
  result is -1.
\<close>

definition leak_entry :: "nat \<Rightarrow> (string \<times> nat) \<times> string \<Rightarrow> string" where
  "leak_entry k c =
     (case c of ((file, line), trace) \<Rightarrow>
        dec k @ '': '' @ file @ '':'' @ dec line @ [CHR 0x0A, CHR 0x0A] @ ''Usage Log: **********START************'' @ [CHR 0x0A] @ trace @
        ''           ***********END*************'' @ [CHR 0x0A, CHR 0x0A])"

fun leak_loop :: "nat \<Rightarrow> ((string \<times> nat) \<times> string) list \<Rightarrow> string" where
  "leak_loop k [] = []"
| "leak_loop k (c # cs) = leak_entry k c @ leak_loop (k + 1) cs"

definition connLeakReport ::
    "bool \<Rightarrow> string \<Rightarrow> string \<Rightarrow> string \<Rightarrow> int \<Rightarrow> ((string \<times> nat) \<times> string) list \<Rightarrow> int \<times> string" where
  "connLeakReport opens identity start ended count conns =
     (if opens then
        (0, ''Connection Leak Report for '' @ [CHR 0x22] @ identity @ [CHR 0x22] @ '' Process'' @ [CHR 0x0A] @ '' started: '' @ start @
            [CHR 0x0A] @ '' ended:   '' @ ended @ [CHR 0x0A, CHR 0x0A] @ '' '' @ dec_int count @ '' conns outstanding'' @
            [CHR 0x0A, CHR 0x0A] @ leak_loop 1 conns @ [CHR 0x0A, CHR 0x0A])
      else (- 1, []))"

lemma leak_loop_entries: "leak_loop k conns = concat (map (\<lambda>i. leak_entry (k + i) (conns ! i)) [0..<length conns])"
proof (induction conns arbitrary: k)
  case (Cons c cs)
  have "map (\<lambda>i. leak_entry (k + i) ((c # cs) ! i)) [0..<length (c # cs)] =
      leak_entry k c # map (\<lambda>i. leak_entry (k + 1 + i) (cs ! i)) [0..<length cs]"
    by (simp add: upt_conv_Cons map_Suc_upt [symmetric] comp_def del: upt_Suc)
  then show ?case using Cons.IH [of "k + 1"] by simp
qed simp

end
