(* ===== verification/Spec2Isabelle.thy ===== *)
theory Spec2Isabelle
  imports QueueProps SockProps ApiProps2 ListenerProps ShutdownProps LockOrder PollThread SockBio HandleProps ConnListen FileCallbacks
    OpenSSLLocks LogProps DebugReport ThreadLog WinFactory WaitContract WinSockets ConnPool HandleInfo
begin

text \<open>
  \<^bold>\<open>connio: a verification library for a connection library\<close>

  connio (\<^verbatim>\<open>src/src\<close>, \<^verbatim>\<open>src/include\<close>) gives a program buffered TCP connections, in clear or with SSL.
  A connection can be used synchronously (\<^verbatim>\<open>ConnRead()\<close>, \<^verbatim>\<open>ConnWrite()\<close>, \<dots>) or asynchronously: the
  \<^verbatim>\<open>ConnA...()\<close> functions queue events, \<^verbatim>\<open>ConnASubmit()\<close> hands the queue to an engine, and a callback
  reports the end.  The parts and how they meet:

  \<^item> the public functions of \<^verbatim>\<open>connio.c\<close> make a \<^verbatim>\<open>ConnEvent\<close> and either put it into an active slot of
    the connection and work on it at once, or append it to the event queue;
  \<^item> \<^verbatim>\<open>queue.c\<close> chooses the next event, keeps at most one connect-class event or one send and one
    receive event active, frees finished events and starts the consumer's callback;
  \<^item> \<^verbatim>\<open>process.c\<close> does the work of one event on the receive buffer, the client's buffer and the socket;
  \<^item> \<^verbatim>\<open>sockcommon.c\<close> and \<^verbatim>\<open>sockunix.c\<close> wrap the kernel and OpenSSL, and park an event that would block
    until \<^verbatim>\<open>epoll\<close> reports its socket or its timeout passes; \<^verbatim>\<open>throttle.c\<close> slows listeners down;
    \<^verbatim>\<open>sockwin.c\<close> does the same with a completion port;
  \<^item> handles own the connections and the listeners; \<^verbatim>\<open>threadengine.c\<close> starts the threads of callbacks;
  \<^item> \<^verbatim>\<open>trace.c\<close>, \<^verbatim>\<open>connlog.c\<close>, \<^verbatim>\<open>socklog.c\<close>, \<^verbatim>\<open>tlog.c\<close> and \<^verbatim>\<open>debug.c\<close> record what happens.

  \<^bold>\<open>Theories\<close>

  \<^item> \<open>Prelude\<close>: types, list segments and doubly linked lists in a store of pointers, generic lemmas.
    \<open>LinkedList\<close>: the contract of an intrusive FIFO list (locale \<open>linked_list\<close>), interpreted on the event
    queue, the listeners, the connections in use and the handles.
  \<^item> \<open>ConnTypes\<close>: \<^verbatim>\<open>conniop.h\<close> and \<^verbatim>\<open>connio.h\<close>: events, connections, sockets, socket events, flags.
  \<^item> \<open>EventQueue\<close>, \<open>EventData\<close>, \<open>QueueEngine\<close>: \<^verbatim>\<open>queue.c\<close> and the event functions of \<^verbatim>\<open>connio.c\<close>.
    \<open>QueueInv\<close>, \<open>QueueLoop\<close>, \<open>QueueFeed\<close>: the invariant of the events, the processing loop, enqueueing.
    \<open>QueueSystem\<close>: threads as interleavings of the locked sections of \<^verbatim>\<open>ConnEventsProcess()\<close>,
    \<^verbatim>\<open>EventEnqueue()\<close>, \<^verbatim>\<open>EventsSubmit()\<close>, \<^verbatim>\<open>EventQueueAbort()\<close> and the callback.
    \<open>QueueProps\<close>: no event is lost or freed twice, one callback per submit, the scheduling rule.
  \<^item> \<open>IOBuf\<close>: the contract of the iobuf library, a record of operations and the predicate \<open>iob_ok\<close>.
    \<open>Process\<close>: all of \<^verbatim>\<open>process.c\<close>.  \<open>ProcessFrame\<close>, \<open>ProcessData\<close>, \<open>ReadData\<close>: what a step may change,
    the client's buffer, the byte stream.
  \<^item> \<open>SockIO\<close>: sending, receiving, waiting, connecting, disconnecting and SSL over a record of kernel and
    OpenSSL operations; \<open>wire_out\<close> and \<open>wire_in\<close> record the bytes that passed.  \<open>SockEvent\<close>: the socket
    event engine and throttling.  \<open>Instances\<close>: the locales of \<open>ProcessData\<close> and \<open>ReadData\<close> interpreted on
    the unix socket layer.  \<open>ProcessProps\<close>, \<open>SockProps\<close>: the properties of these layers.
    \<open>SockSetup\<close>: allocating, listening and accepting.  \<open>SockBio\<close>: the BIO that SSL reads and writes through.
  \<^item> \<open>TimeoutWheel\<close>, \<open>WheelProps\<close>: the lists of events by time of \<^verbatim>\<open>sockunix.c\<close>, and that no timeout is early
    or late.  \<open>AcceptCache\<close>: the cache of accept events.  \<open>PollThread\<close>: the two loops around \<^verbatim>\<open>epoll_wait()\<close>.
    \<open>LockOrder\<close>: the order in which kills and the poll thread take their locks.  \<open>SockLib\<close>: starting and stopping
    the library.
  \<^item> \<open>WinFactory\<close>, \<open>WinEngine\<close>, \<open>WinProps\<close>, \<open>WinSockets\<close>: \<^verbatim>\<open>sockwin.c\<close>: the thread that makes sockets, the timers
    and the completion port, and the blocking calls.  \<open>WaitContract\<close>: what the library relies on when it waits
    (locale \<open>wait_engine\<close>), interpreted on the engines of both platforms.
  \<^item> \<open>SyncApi\<close>, \<open>ConnApi\<close>, \<open>AsyncApi\<close>, \<open>ConnListen\<close>: the public functions of \<^verbatim>\<open>connio.c\<close>.  \<open>WriteStream\<close>: what writes
    and flushes do to the byte stream (locale \<open>flush_service\<close>).  \<open>ApiProps\<close>, \<open>ApiProps2\<close>: their properties.
  \<^item> \<open>ConnLists\<close>: connections in use and handles.  \<open>Listeners\<close>: listeners and their operations;
    \<open>ListenerWalk\<close>, \<open>ListenerInv\<close>: their loops, step relation and invariant.  \<open>HandleShutdown\<close>: waiting for, aborting and closing the
    connections of a handle.  \<open>ListenerProps\<close>, \<open>ShutdownProps\<close>: properties.  \<open>ThreadEngine\<close>: \<^verbatim>\<open>threadengine.c\<close>.
    \<open>HandleAlloc\<close>, \<open>HandleProps\<close>: allocating and freeing handles and their SSL contexts.  \<open>ConnPool\<close>: the pool of connections and
    the tests of arguments.  \<open>HandleInfo\<close>: configuration, statistics and the report of leaks.
  \<^item> \<open>FileCallbacks\<close>: \<^verbatim>\<open>callbacks.c\<close>.  \<open>OpenSSLLocks\<close>: \<^verbatim>\<open>crypto.c\<close>.  \<open>TraceDump\<close>, \<open>Trace\<close>, \<open>TraceProps\<close>: \<^verbatim>\<open>trace.c\<close>.
    \<open>Logging\<close>, \<open>LogProps\<close>: \<^verbatim>\<open>connlog.c\<close> and \<^verbatim>\<open>socklog.c\<close>.  \<open>ThreadLog\<close>: \<^verbatim>\<open>tlog.c\<close>.  \<open>DebugReport\<close>: \<^verbatim>\<open>debug.c\<close>.

  \<^bold>\<open>Conventions\<close>

  The build is the unix one without \<^verbatim>\<open>DEBUG\<close>, except in \<open>DebugReport\<close>, in the leak report of \<open>HandleInfo\<close> and in the four theories of \<^verbatim>\<open>sockwin.c\<close>.
  Assertions are left out.  Calls that trace or log are left out of the functions that make them, and
  modelled on their own.  Pointers are
  natural numbers into a store of events or of nodes; a null pointer is \<open>None\<close>.  Functions return \<^verbatim>\<open>errno\<close>
  where the code sets it.  The lock of a connection makes a function, or a part of one, atomic; what
  happens between two locked sections is a separate step.  The kernel, OpenSSL, the iobuf library, the
  allocator, \<^verbatim>\<open>vsnprintf()\<close> and the consumer's callbacks are arguments; what is assumed of them is a named
  predicate (\<open>iob_ok\<close>, \<open>send_reports\<close>, \<open>c99\<close>, \<dots>), and each property with such a hypothesis has a witness
  with concrete functions.

  Loops that the environment can keep going are \<open>partial_function (option)\<close>; \<open>None\<close> is a loop that does
  not end.  Where a loop ends this is proved: the flush and client-buffer loops, the walks over
  well-formed lists, the loops of the poll thread, formatting (a measure), filling a buffer (a measure).  No fuel
  is used.  In theories where memory is freed, \<open>None\<close> is a use of memory that is not allocated.

  \<^bold>\<open>What is shown\<close>

  Queue: exclusive and ordered starts, conservation of events, one callback per submit, refinement of a
  list-level scheduler, and a liveness failure after a partial read.  Processing: the byte stream is
  kept by reads and by sends, client buffers are not overrun, handshakes on buffered data are refused,
  ended events release the socket.  Sockets: each wait is called back once, the states of a handshake,
  what a send reports, that the BIO passes bytes on unchanged; timeouts come neither early nor late, the
  poll thread keeps its lists and ends each turn, accept events have one owner, a listener outlives its children.
  Windows: each wait is called back once, timers are freed once, the factory loses no socket and no request.
  Interface: writes append to the stream, write and flush are a round trip, the
  two modes exclude each other, freed connections are closed, listening owns one descriptor.  Handles: the listener and connection
  lists are exact, the listener loops equal a simultaneous update, a shutdown returns once the program
  releases its connections, a handle that is freed or fails gives everything back, thread engines refine a list.
  The rest: file callbacks are a round trip, lock numbers stay in their table, a trace holds each event and
  lives while it is used, its dump can be read back, log lines stay in their bounds.  The buffers of the
  pool of connections have one owner each.  Where the code does not do what its
  comments or its sibling functions say, a lemma states what it does.

  \<^bold>\<open>Not modelled\<close>

  What OpenSSL, the iobuf, JSON, memory pool, thread and xpl libraries do, which are not part of the repository; the
  text of messages that are printed for the console; code that other platforms or \<^verbatim>\<open>DEBUG\<close> builds add to single
  functions, besides the two reports of leaks; the prototypes and macros of the header files.  The order of single instructions
  outside locked sections is not modelled, except where a lemma shows that it matters.
\<close>

end
